(* ===== verification/Prelude.thy ===== *)
theory Prelude
  imports Main "HOL-Library.List_Lexorder" "HOL-Library.Char_ord" "HOL-Library.Word"
begin

text \<open>
  Shared vocabulary of the development.  Python's \<open>str\<close> is HOL's \<open>string\<close>: a list of
  code points, restricted to U+0000..U+00FF (one \<open>char\<close> each); string order is the
  code-point lexicographic order of the library theories List_Lexorder and Char_ord,
  as in Python.  A call that may raise returns \<open>py_error + 'a\<close>.
\<close>

subsection \<open>Errors as values\<close>

datatype py_error =
    TypeError | ValueError string | KeyError string | InvalidOperation
  | ValidationError string | LookupError string | RuntimeError string
  | AttributeError | NotImplementedError | OverflowError | OSError string
  | DuplicateInputHashError string | PersistenceIntegrityError string | RepositoryUnavailableError string
  | RetryableDbError string string | DatabaseError string

text \<open>\<open>RetryableDbError c m\<close> is a database error the service retries: \<open>c\<close> is its class
  (\<open>SerializationError\<close> or \<open>DeadlockDetectedError\<close>), \<open>m\<close> its message.\<close>

text \<open>\<open>str(exc)\<close>, as far as the model keeps the message.\<close>

fun error_text :: "py_error \<Rightarrow> string" where
  "error_text (ValueError m) = m"
| "error_text (KeyError m) = m"
| "error_text (ValidationError m) = m"
| "error_text (LookupError m) = m"
| "error_text (RuntimeError m) = m"
| "error_text (OSError m) = m"
| "error_text (DuplicateInputHashError m) = m"
| "error_text (PersistenceIntegrityError m) = m"
| "error_text (RepositoryUnavailableError m) = m"
| "error_text (RetryableDbError c m) = m"
| "error_text (DatabaseError m) = m"
| "error_text _ = []"

type_synonym 'a result = "py_error + 'a"

definition rbind :: "'e + 'a \<Rightarrow> ('a \<Rightarrow> 'e + 'b) \<Rightarrow> 'e + 'b" where
  "rbind m f = (case m of Inl e \<Rightarrow> Inl e | Inr x \<Rightarrow> f x)"

named_theorems result_simps
  "elimination of sequenced fallible calls"

lemma rbind_simps [simp]:
  "rbind (Inl e) f = Inl e"
  "rbind (Inr x) f = f x"
  by (simp_all add: rbind_def)

lemma rbind_Inr_iff [result_simps]:
  "rbind m f = Inr y \<longleftrightarrow> (\<exists>x. m = Inr x \<and> f x = Inr y)"
  by (cases m) auto

lemma rbind_Inl_iff [result_simps]:
  "rbind m f = Inl e \<longleftrightarrow> m = Inl e \<or> (\<exists>x. m = Inr x \<and> f x = Inl e)"
  by (cases m) auto

lemma rbind_cong [fundef_cong]:
  "m = m' \<Longrightarrow> (\<And>x. m' = Inr x \<Longrightarrow> f x = g x) \<Longrightarrow> rbind m f = rbind m' g"
  by (cases m') auto

text \<open>The loop \<open>[f(x) for x in xs]\<close> of a call that may raise: the first error ends it.\<close>

fun rmap :: "('a \<Rightarrow> 'e + 'b) \<Rightarrow> 'a list \<Rightarrow> 'e + 'b list" where
  "rmap f [] = Inr []"
| "rmap f (x # xs) = rbind (f x) (\<lambda>y. rbind (rmap f xs) (\<lambda>ys. Inr (y # ys)))"

lemma rmap_Inr_map: "(\<And>x. x \<in> set xs \<Longrightarrow> f x = Inr (g x)) \<Longrightarrow> rmap f xs = Inr (map g xs)"
  by (induction xs) auto

lemma rmap_length: "rmap f xs = Inr ys \<Longrightarrow> length ys = length xs"
  by (induction xs arbitrary: ys) (auto simp: result_simps)

lemma rmap_error: "rmap f xs = Inl e \<Longrightarrow> \<exists>x \<in> set xs. f x = Inl e"
  by (induction xs) (auto simp: result_simps)

lemma rmap_member: "rmap f xs = Inr ys \<Longrightarrow> y \<in> set ys \<Longrightarrow> \<exists>x \<in> set xs. f x = Inr y"
  by (induction xs arbitrary: ys) (auto simp: result_simps)

lemma rmap_cong [fundef_cong]:
  "xs = ys \<Longrightarrow> (\<And>x. x \<in> set ys \<Longrightarrow> f x = g x) \<Longrightarrow> rmap f xs = rmap g ys"
proof (induction xs arbitrary: ys)
  case Nil
  then show ?case by simp
next
  case (Cons x xs)
  from Cons.prems(1) obtain zs where ys: "ys = x # zs" and zs: "xs = zs" by auto
  have "rmap f xs = rmap g zs"
    using Cons.IH [OF zs] Cons.prems(2) ys by simp
  moreover have "f x = g x" using Cons.prems(2) ys by simp
  ultimately show ?case by (simp add: ys)
qed

text \<open>A loop that only checks its items.\<close>

fun reach :: "('a \<Rightarrow> 'e + unit) \<Rightarrow> 'a list \<Rightarrow> 'e + unit" where
  "reach f [] = Inr ()"
| "reach f (x # xs) = rbind (f x) (\<lambda>_. reach f xs)"

lemma reach_Inr_iff: "reach f xs = Inr () \<longleftrightarrow> (\<forall>x \<in> set xs. f x = Inr ())"
  by (induction xs) (auto simp: result_simps)

lemma reach_error: "reach f xs = Inl e \<Longrightarrow> \<exists>x \<in> set xs. f x = Inl e"
  by (induction xs) (auto simp: result_simps)

lemma reach_cong [fundef_cong]:
  "xs = ys \<Longrightarrow> (\<And>x. x \<in> set ys \<Longrightarrow> f x = g x) \<Longrightarrow> reach f xs = reach g ys"
  by (induction xs arbitrary: ys) (auto intro!: rbind_cong)

definition guard_that :: "bool \<Rightarrow> 'e \<Rightarrow> 'e + unit" where
  "guard_that ok e = (if ok then Inr () else Inl e)"

lemma guard_that_Inr [simp]: "guard_that ok e = Inr u \<longleftrightarrow> ok"
  by (simp add: guard_that_def)

subsection \<open>Hexadecimal text\<close>

definition hex_digit :: "int \<Rightarrow> char" where
  "hex_digit n = ''0123456789abcdef'' ! nat n"

definition is_lower_hex :: "char \<Rightarrow> bool" where
  "is_lower_hex c \<longleftrightarrow> c \<in> set ''0123456789abcdef''"

lemma hex_digit_lower: "0 \<le> n \<Longrightarrow> n < 16 \<Longrightarrow> is_lower_hex (hex_digit n)"
  unfolding is_lower_hex_def hex_digit_def by (rule nth_mem) simp

text \<open>\<open>hex_text w n\<close>: the lowest \<open>w\<close> hexadecimal digits of \<open>n\<close>, most significant first.\<close>

primrec hex_text :: "nat \<Rightarrow> int \<Rightarrow> string" where
  "hex_text 0 n = []"
| "hex_text (Suc w) n = hex_text w (n div 16) @ [hex_digit (n mod 16)]"

lemma length_hex_text [simp]: "length (hex_text w n) = w"
  by (induction w arbitrary: n) auto

lemma hex_text_lower: "c \<in> set (hex_text w n) \<Longrightarrow> is_lower_hex c"
  by (induction w arbitrary: n) (auto intro: hex_digit_lower)

end
