(* ===== verification/Hashing.thy ===== *)
theory Hashing
  imports Prelude
begin

text \<open>
  \<open>utils/hashing.py\<close> and the SHA-256 and UUID helpers of the SDK.  \<open>hashlib.sha256\<close> and
  \<open>uuid.uuid5\<close> (SHA-1) are standard library calls and are modelled in full over
  \<open>32 word\<close>: padding, message schedule, compression and digest text.
\<close>

unbundle bit_operations_syntax

type_synonym w32 = "32 word"

definition utf8_char :: "char \<Rightarrow> int list" where
  "utf8_char c = (let n = of_char c in
     if n < 128 then [n] else [192 + n div 64, 128 + n mod 64])"

definition utf8 :: "string \<Rightarrow> int list" where
  "utf8 s = concat (map utf8_char s)"

primrec be_bytes :: "nat \<Rightarrow> int \<Rightarrow> int list" where
  "be_bytes 0 n = []"
| "be_bytes (Suc w) n = be_bytes w (n div 256) @ [n mod 256]"

definition md_pad :: "int list \<Rightarrow> int list" where
  "md_pad m = m @ [128] @ replicate ((119 - length m mod 64) mod 64) 0
                @ be_bytes 8 (8 * int (length m))"

fun be_words :: "int list \<Rightarrow> w32 list" where
  "be_words (a # b # c # d # r) = word_of_int (((a * 256 + b) * 256 + c) * 256 + d) # be_words r"
| "be_words _ = []"

definition rotr :: "nat \<Rightarrow> w32 \<Rightarrow> w32" where
  "rotr n x = drop_bit n x OR push_bit (32 - n) x"

fun word_blocks :: "w32 list \<Rightarrow> w32 list list" where
  "word_blocks [] = []"
| "word_blocks (x # xs) = take 16 (x # xs) # word_blocks (drop 15 xs)"

definition sha256_k :: "w32 list" where
  "sha256_k = [
    1116352408, 1899447441, 3049323471, 3921009573, 961987163, 1508970993, 2453635748, 2870763221,
    3624381080, 310598401, 607225278, 1426881987, 1925078388, 2162078206, 2614888103, 3248222580,
    3835390401, 4022224774, 264347078, 604807628, 770255983, 1249150122, 1555081692, 1996064986,
    2554220882, 2821834349, 2952996808, 3210313671, 3336571891, 3584528711, 113926993, 338241895,
    666307205, 773529912, 1294757372, 1396182291, 1695183700, 1986661051, 2177026350, 2456956037,
    2730485921, 2820302411, 3259730800, 3345764771, 3516065817, 3600352804, 4094571909, 275423344,
    430227734, 506948616, 659060556, 883997877, 958139571, 1322822218, 1537002063, 1747873779,
    1955562222, 2024104815, 2227730452, 2361852424, 2428436474, 2756734187, 3204031479, 3329325298]"

type_synonym sha256_state = "w32 \<times> w32 \<times> w32 \<times> w32 \<times> w32 \<times> w32 \<times> w32 \<times> w32"

definition sha256_init :: sha256_state where
  "sha256_init = (1779033703, 3144134277, 1013904242, 2773480762,
                  1359893119, 2600822924, 528734635, 1541459225)"

text \<open>The message schedule, newest word first.\<close>

primrec sha256_expand :: "nat \<Rightarrow> w32 list \<Rightarrow> w32 list" where
  "sha256_expand 0 w = w"
| "sha256_expand (Suc n) w = (
     let a = w ! 14; b = w ! 1;
         s0 = rotr 7 a XOR rotr 18 a XOR drop_bit 3 a;
         s1 = rotr 17 b XOR rotr 19 b XOR drop_bit 10 b
     in sha256_expand n ((w ! 15 + s0 + w ! 6 + s1) # w))"

definition sha256_round :: "sha256_state \<Rightarrow> w32 \<times> w32 \<Rightarrow> sha256_state" where
  "sha256_round st kw = (case st of (a, b, c, d, e, f, g, h) \<Rightarrow>
     let s1 = rotr 6 e XOR rotr 11 e XOR rotr 25 e;
         ch = (e AND f) XOR (NOT e AND g);
         t1 = h + s1 + ch + fst kw + snd kw;
         s0 = rotr 2 a XOR rotr 13 a XOR rotr 22 a;
         maj = (a AND b) XOR (a AND c) XOR (b AND c)
     in (t1 + s0 + maj, a, b, c, d + t1, e, f, g))"

definition sha256_block :: "sha256_state \<Rightarrow> w32 list \<Rightarrow> sha256_state" where
  "sha256_block st blk = (
     let (a, b, c, d, e, f, g, h) = st;
         (a', b', c', d', e', f', g', h') =
           foldl sha256_round st (zip sha256_k (rev (sha256_expand 48 (rev blk))))
     in (a + a', b + b', c + c', d + d', e + e', f + f', g + g', h + h'))"

definition sha256_words :: "int list \<Rightarrow> w32 list" where
  "sha256_words m =
     (case foldl sha256_block sha256_init (word_blocks (be_words (md_pad m))) of
        (a, b, c, d, e, f, g, h) \<Rightarrow> [a, b, c, d, e, f, g, h])"

definition hex_of_words :: "w32 list \<Rightarrow> string" where
  "hex_of_words ws = concat (map (\<lambda>w. hex_text 8 (uint w)) ws)"

definition sha256_bytes :: "int list \<Rightarrow> string" where
  "sha256_bytes m = hex_of_words (sha256_words m)"

definition sha256_hex :: "string \<Rightarrow> string" where
  "sha256_hex s = sha256_bytes (utf8 s)"

text \<open>\<open>hmac.compare_digest\<close> on two \<open>str\<close>: equality, but a non-ASCII argument raises TypeError.\<close>

definition is_ascii :: "string \<Rightarrow> bool" where
  "is_ascii s \<longleftrightarrow> list_all (\<lambda>c. of_char c < (128 :: int)) s"

definition constant_time_equal :: "string \<Rightarrow> string \<Rightarrow> bool result" where
  "constant_time_equal l r = (if is_ascii l \<and> is_ascii r then Inr (l = r) else Inl TypeError)"

subsection \<open>SHA-1 and UUIDs\<close>

primrec sha1_expand :: "nat \<Rightarrow> w32 list \<Rightarrow> w32 list" where
  "sha1_expand 0 w = w"
| "sha1_expand (Suc n) w =
     sha1_expand n (rotr 31 (w ! 2 XOR w ! 7 XOR w ! 13 XOR w ! 15) # w)"

type_synonym sha1_state = "w32 \<times> w32 \<times> w32 \<times> w32 \<times> w32"

definition sha1_round :: "sha1_state \<Rightarrow> nat \<times> w32 \<Rightarrow> sha1_state" where
  "sha1_round st tw = (case st of (a, b, c, d, e) \<Rightarrow>
     let t = fst tw;
         fk = (if t < 20 then ((b AND c) OR (NOT b AND d), 1518500249)
               else if t < 40 then (b XOR c XOR d, 1859775393)
               else if t < 60 then ((b AND c) OR (b AND d) OR (c AND d), 2400959708)
               else (b XOR c XOR d, 3395469782))
     in (rotr 27 a + fst fk + e + snd fk + snd tw, a, rotr 2 b, c, d))"

definition sha1_block :: "sha1_state \<Rightarrow> w32 list \<Rightarrow> sha1_state" where
  "sha1_block st blk = (
     let (a, b, c, d, e) = st;
         (a', b', c', d', e') =
           foldl sha1_round st (zip [0..<80] (rev (sha1_expand 64 (rev blk))))
     in (a + a', b + b', c + c', d + d', e + e'))"

definition sha1_words :: "int list \<Rightarrow> w32 list" where
  "sha1_words m =
     (case foldl sha1_block (1732584193, 4023233417, 2562383102, 271733878, 3285377520)
             (word_blocks (be_words (md_pad m))) of
        (a, b, c, d, e) \<Rightarrow> [a, b, c, d, e])"

text \<open>\<open>str(uuid)\<close>: 32 hexadecimal digits grouped 8-4-4-4-12.\<close>

definition uuid_text :: "string \<Rightarrow> string" where
  "uuid_text h = take 8 h @ ''-'' @ take 4 (drop 8 h) @ ''-'' @ take 4 (drop 12 h) @ ''-''
                   @ take 4 (drop 16 h) @ ''-'' @ take 12 (drop 20 h)"

text \<open>
  \<open>uuid5(namespace, name)\<close>: the first 16 bytes of SHA-1 of the namespace bytes and the
  name, with the version nibble set to 5 and the variant bits to 10.
\<close>

definition uuid5 :: "int list \<Rightarrow> string \<Rightarrow> string" where
  "uuid5 ns name = (
     let ws = sha1_words (ns @ utf8 name);
         w1 = (ws ! 1 AND 4294905855) OR 0x5000;
         w2 = (ws ! 2 AND 1073741823) OR 2147483648
     in uuid_text (hex_of_words [ws ! 0, w1, w2, ws ! 3]))"

text \<open>The namespace \<open>d9ec1f3e-2d27-45d4-af5f-d8d5efcb7c1e\<close> used by the core and by the SDK.\<close>

definition vrl_namespace :: "int list" where
  "vrl_namespace = [0xd9, 0xec, 0x1f, 0x3e, 0x2d, 0x27, 0x45, 0xd4,
                    0xaf, 0x5f, 0xd8, 0xd5, 0xef, 0xcb, 0x7c, 0x1e]"

subsection \<open>\<open>int(s, 16)\<close>\<close>

text \<open>
  Python's base-16 parser accepts surrounding white space, a sign, a \<open>0x\<close> prefix and single
  underscores between digits; \<open>None\<close> is its ValueError.
\<close>

definition int_space :: "char \<Rightarrow> bool" where
  "int_space c \<longleftrightarrow> (let n = (of_char c :: int) in
     (9 \<le> n \<and> n \<le> 13) \<or> n = 32 \<or> n = 133 \<or> n = 160)"

definition hex_value :: "char \<Rightarrow> int option" where
  "hex_value c = (let n = (of_char c :: int) in
     if 48 \<le> n \<and> n \<le> 57 then Some (n - 48)
     else if 97 \<le> n \<and> n \<le> 102 then Some (n - 87)
     else if 65 \<le> n \<and> n \<le> 70 then Some (n - 55)
     else None)"

text \<open>\<open>hex_digits started acc s\<close>: \<open>started\<close> is true right after a digit, where \<open>_\<close> is allowed.\<close>

fun hex_digits :: "bool \<Rightarrow> int \<Rightarrow> string \<Rightarrow> int option" where
  "hex_digits started acc [] = (if started then Some acc else None)"
| "hex_digits started acc (c # cs) =
     (if c = CHR ''_'' then (if started then hex_digits False acc cs else None)
      else case hex_value c of
             None \<Rightarrow> None
           | Some v \<Rightarrow> hex_digits True (16 * acc + v) cs)"

definition int_strip :: "string \<Rightarrow> string" where
  "int_strip s = rev (dropWhile int_space (rev (dropWhile int_space s)))"

definition py_int16 :: "string \<Rightarrow> int option" where
  "py_int16 s = (
     let t = int_strip s;
         neg = (t \<noteq> [] \<and> hd t = CHR ''-'');
         u = (if t \<noteq> [] \<and> (hd t = CHR ''-'' \<or> hd t = CHR ''+'') then tl t else t);
         pre = (length u \<ge> 2 \<and> u ! 0 = CHR ''0'' \<and> (u ! 1 = CHR ''x'' \<or> u ! 1 = CHR ''X''));
         v = (if pre then drop 2 u else u);
         w = (if pre \<and> v \<noteq> [] \<and> hd v = CHR ''_'' then tl v else v)
     in map_option (\<lambda>n. if neg then - n else n) (hex_digits False 0 w))"

text \<open>\<open>str.lower()\<close> on code points below 256.\<close>

definition lower_char :: "char \<Rightarrow> char" where
  "lower_char c = (let n = (of_char c :: int) in
     if (65 \<le> n \<and> n \<le> 90) \<or> (192 \<le> n \<and> n \<le> 222 \<and> n \<noteq> 215) then char_of (n + 32) else c)"

definition py_lower :: "string \<Rightarrow> string" where
  "py_lower s = map lower_char s"

subsection \<open>What callers rely on\<close>

lemma lower_hex_cases:
  assumes "is_lower_hex c"
  obtains v where "hex_value c = Some v" "0 \<le> v" "v < 16" "\<not> int_space c"
    "c \<noteq> CHR ''_''" "c \<noteq> CHR ''-''" "c \<noteq> CHR ''+''" "c \<noteq> CHR ''x''" "c \<noteq> CHR ''X''"
    "lower_char c = c" "of_char c < (128 :: int)"
  using assms
  by (auto simp: is_lower_hex_def hex_value_def int_space_def lower_char_def)

definition all_lower_hex :: "string \<Rightarrow> bool" where
  "all_lower_hex s \<longleftrightarrow> list_all is_lower_hex s"

lemma all_lower_hex_lower: "all_lower_hex s \<Longrightarrow> py_lower s = s"
  unfolding all_lower_hex_def py_lower_def
  by (induction s) (auto elim: lower_hex_cases)

lemma all_lower_hex_ascii: "all_lower_hex s \<Longrightarrow> is_ascii s"
  unfolding all_lower_hex_def is_ascii_def
  by (induction s) (auto elim: lower_hex_cases)

definition hex_num :: "int \<Rightarrow> string \<Rightarrow> int" where
  "hex_num acc s = foldl (\<lambda>a c. 16 * a + the (hex_value c)) acc s"

lemma hex_digits_lower_hex:
  "all_lower_hex s \<Longrightarrow> s \<noteq> [] \<or> started \<Longrightarrow> hex_digits started acc s = Some (hex_num acc s)"
  unfolding all_lower_hex_def hex_num_def
proof (induction s arbitrary: started acc)
  case Nil
  then show ?case by simp
next
  case (Cons c s)
  from Cons.prems have c: "is_lower_hex c" and s: "list_all is_lower_hex s" by simp_all
  from c obtain v where "hex_value c = Some v" "c \<noteq> CHR ''_''" by (rule lower_hex_cases)
  then show ?case using Cons.IH [OF s, of True] by simp
qed

lemma int_strip_lower_hex: "all_lower_hex s \<Longrightarrow> int_strip s = s"
proof -
  assume h: "all_lower_hex s"
  have hd: "t \<noteq> [] \<Longrightarrow> all_lower_hex t \<Longrightarrow> dropWhile int_space t = t" for t
    unfolding all_lower_hex_def by (cases t) (auto elim: lower_hex_cases)
  have "all_lower_hex (rev s)" using h by (simp add: all_lower_hex_def list_all_iff)
  then show ?thesis using h hd [of s] hd [of "rev s"]
    by (cases "s = []") (simp_all add: int_strip_def)
qed

lemma py_int16_lower_hex:
  assumes h: "all_lower_hex s" and ne: "s \<noteq> []"
  shows "py_int16 s = Some (hex_num 0 s)"
proof -
  have mem: "\<And>c. c \<in> set s \<Longrightarrow> is_lower_hex c" using h by (simp add: all_lower_hex_def list_all_iff)
  have "is_lower_hex (hd s)" using ne mem by simp
  then have sign: "hd s \<noteq> CHR ''-''" "hd s \<noteq> CHR ''+''" by (auto elim: lower_hex_cases)
  have "s ! 1 \<noteq> CHR ''x'' \<and> s ! 1 \<noteq> CHR ''X''" if "2 \<le> length s"
  proof -
    have "is_lower_hex (s ! 1)" using that mem by simp
    then show ?thesis by (auto elim: lower_hex_cases)
  qed
  then show ?thesis
    using sign ne hex_digits_lower_hex [OF h, of False 0]
    by (auto simp: py_int16_def int_strip_lower_hex [OF h] Let_def)
qed

lemma hex_num_bounds:
  "all_lower_hex s \<Longrightarrow> 0 \<le> acc \<Longrightarrow>
     0 \<le> hex_num acc s \<and> hex_num acc s < (acc + 1) * 16 ^ length s"
  unfolding all_lower_hex_def hex_num_def
proof (induction s arbitrary: acc)
  case Nil
  then show ?case by simp
next
  case (Cons c s)
  from Cons.prems have c: "is_lower_hex c" and s: "list_all is_lower_hex s" by simp_all
  from c obtain v where v: "hex_value c = Some v" "0 \<le> v" "v < 16" by (rule lower_hex_cases)
  let ?a = "16 * acc + v"
  have IH: "0 \<le> foldl (\<lambda>a c. 16 * a + the (hex_value c)) ?a s \<and>
        foldl (\<lambda>a c. 16 * a + the (hex_value c)) ?a s < (?a + 1) * 16 ^ length s"
    using Cons.IH [OF s, of ?a] Cons.prems(2) v by simp
  have "(?a + 1) * 16 ^ length s \<le> (16 * acc + 16) * 16 ^ length s"
    using v by (intro mult_right_mono) auto
  also have "\<dots> = (acc + 1) * 16 ^ length (c # s)" by (simp add: algebra_simps)
  finally have "(?a + 1) * 16 ^ length s \<le> (acc + 1) * 16 ^ length (c # s)" .
  with IH have "foldl (\<lambda>a c. 16 * a + the (hex_value c)) ?a s < (acc + 1) * 16 ^ length (c # s)"
    by (rule less_le_trans [OF conjunct2])
  with IH show ?case by (simp add: v(1))
qed

text \<open>The digest interface every caller uses: 64 lower-case hexadecimal digits.\<close>

locale digest =
  fixes h :: "string \<Rightarrow> string"
  assumes digest_length: "length (h s) = 64"
    and digest_hex: "all_lower_hex (h s)"
begin

lemma digest_ascii: "is_ascii (h s)"
  by (rule all_lower_hex_ascii [OF digest_hex])

lemma digest_lower: "py_lower (h s) = h s"
  by (rule all_lower_hex_lower [OF digest_hex])

lemma digest_nonempty: "h s \<noteq> []"
  using digest_length [of s] by auto

lemma digest_int16: "py_int16 (h s) = Some (hex_num 0 (h s))"
  by (rule py_int16_lower_hex [OF digest_hex digest_nonempty])

lemma digest_int16_bounds: "0 \<le> hex_num 0 (h s) \<and> hex_num 0 (h s) < 16 ^ 64"
  using hex_num_bounds [OF digest_hex, of 0 s] by (simp add: digest_length)

lemma digest_compare: "is_ascii x \<Longrightarrow> constant_time_equal x (h s) = Inr (x = h s)"
  "is_ascii x \<Longrightarrow> constant_time_equal (h s) x = Inr (h s = x)"
  by (simp_all add: constant_time_equal_def digest_ascii)

lemma digest_compare_digest: "constant_time_equal (h s) (h t) = Inr (h s = h t)"
  by (simp add: constant_time_equal_def digest_ascii)

end

lemma all_lower_hex_hex_text: "all_lower_hex (hex_text w n)"
  by (auto simp: all_lower_hex_def list_all_iff intro: hex_text_lower)

lemma hex_of_words_hex: "all_lower_hex (hex_of_words ws)"
  using all_lower_hex_hex_text
  by (auto simp: hex_of_words_def all_lower_hex_def list_all_iff)

lemma length_hex_of_words: "length (hex_of_words ws) = 8 * length ws"
  by (induction ws) (simp_all add: hex_of_words_def)

lemma length_sha256_words: "length (sha256_words m) = 8"
  by (simp add: sha256_words_def split: prod.splits)

interpretation sha: digest sha256_hex
  by unfold_locales
    (simp_all add: sha256_hex_def sha256_bytes_def length_hex_of_words length_sha256_words
      hex_of_words_hex)

declare sha.digest_length [simp] sha.digest_ascii [simp] sha.digest_lower [simp]
  sha.digest_nonempty [simp] sha.digest_compare_digest [simp]

text \<open>\<open>is_ascii\<close> on concatenations, for text built from digests and printed payloads.\<close>

lemma is_ascii_append [simp]: "is_ascii (a @ b) \<longleftrightarrow> is_ascii a \<and> is_ascii b"
  by (simp add: is_ascii_def)

lemma is_ascii_Nil [simp]: "is_ascii []"
  by (simp add: is_ascii_def)

lemma is_ascii_Cons [simp]: "is_ascii (c # s) \<longleftrightarrow> of_char c < (128 :: int) \<and> is_ascii s"
  by (simp add: is_ascii_def)

lemma utf8_ascii: "is_ascii s \<Longrightarrow> utf8 s = map of_char s"
  by (induction s) (auto simp: utf8_def utf8_char_def Let_def)

lemma length_utf8_ascii: "is_ascii s \<Longrightarrow> length (utf8 s) = length s"
  by (simp add: utf8_ascii)

text \<open>Two texts with the same digest.\<close>

definition collision :: "string \<Rightarrow> string \<Rightarrow> bool" where
  "collision a b \<longleftrightarrow> a \<noteq> b \<and> sha256_hex a = sha256_hex b"

lemma same_digest: "sha256_hex a = sha256_hex b \<longleftrightarrow> a = b \<or> collision a b"
  by (auto simp: collision_def)

lemma no_collision_inj: "(\<And>a b. a \<in> A \<Longrightarrow> b \<in> A \<Longrightarrow> \<not> collision a b) \<Longrightarrow> inj_on sha256_hex A"
  by (auto simp: inj_on_def collision_def)

text \<open>The prefix \<open>0x\<close> is accepted by \<open>int(s, 16)\<close>.\<close>

lemma py_int16_prefixed:
  assumes h: "all_lower_hex s" and ne: "s \<noteq> []"
  shows "py_int16 (''0x'' @ s) = Some (hex_num 0 s)"
proof -
  have hd: "is_lower_hex (hd s)" "is_lower_hex (last s)" using h ne by (simp_all add: all_lower_hex_def list_all_iff)
  have sp: "\<not> int_space CHR ''0''" by (simp add: int_space_def)
  have "\<not> int_space (last s)" using hd(2) by (auto elim: lower_hex_cases)
  then have "dropWhile int_space (rev (''0x'' @ s)) = rev (''0x'' @ s)"
    using ne by (cases s rule: rev_cases) auto
  then have st: "int_strip (CHR ''0'' # CHR ''x'' # s) = CHR ''0'' # CHR ''x'' # s"
    using sp by (simp add: int_strip_def)
  have "hd s \<noteq> CHR ''_''" using hd(1) by (auto elim: lower_hex_cases)
  then show ?thesis
    using ne hex_digits_lower_hex [OF h, of False 0] by (simp add: py_int16_def st Let_def)
qed

end
