(* ===== verification/Decimal_Arith.thy ===== *)
theory Decimal_Arith
  imports Hashing
begin

text \<open>
  The part of Python's \<open>decimal\<close> module that the program calls: finite numbers
  \<open>(-1)^sign * coefficient * 10^exponent\<close>, infinities and NaNs, the default context with
  precision 28 and rounding half-even for arithmetic, \<open>quantize\<close> with ROUND_HALF_UP, the
  string constructor and the \<open>f\<close> format.  Exponent limits of the context (Emax = 999999)
  are never reached by the quantised values the program computes with and are left out.
\<close>

subsection \<open>Decimal text\<close>

function dec_digits :: "int \<Rightarrow> string" where
  "dec_digits n = (if n < 10 then [hex_digit n] else dec_digits (n div 10) @ [hex_digit (n mod 10)])"
  by pat_completeness auto
termination by (relation "measure nat") auto

declare dec_digits.simps [simp del]

definition is_digit :: "char \<Rightarrow> bool" where
  "is_digit c \<longleftrightarrow> c \<in> set ''0123456789''"

definition digit_value :: "char \<Rightarrow> int" where
  "digit_value c = of_char c - 48"

definition dec_value :: "int \<Rightarrow> string \<Rightarrow> int" where
  "dec_value acc s = foldl (\<lambda>a c. 10 * a + digit_value c) acc s"

function ndigits :: "int \<Rightarrow> int" where
  "ndigits n = (if n < 10 then 1 else 1 + ndigits (n div 10))"
  by pat_completeness auto
termination by (relation "measure nat") auto

declare ndigits.simps [simp del]

definition pow10 :: "int \<Rightarrow> int" where
  "pow10 k = 10 ^ nat k"

subsection \<open>Numbers\<close>

datatype dec = Dec (dneg: bool) (dcoef: int) (dexpo: int)

datatype decimal = Fin dec | Infinity bool | NaN bool

definition half_up :: "int \<Rightarrow> int \<Rightarrow> int" where
  "half_up n d = (2 * n + d) div (2 * d)"

definition half_even :: "int \<Rightarrow> int \<Rightarrow> int" where
  "half_even n d = (let q = n div d; r = n mod d in
     if 2 * r > d \<or> (2 * r = d \<and> odd q) then q + 1 else q)"

definition prec :: int where "prec = 28"

text \<open>\<open>_fix\<close>: round a result to the precision of the context.\<close>

definition dec_fix :: "dec \<Rightarrow> dec" where
  "dec_fix d = (let k = ndigits (dcoef d) - prec in
     if k \<le> 0 then d
     else let c = half_even (dcoef d) (pow10 k) in
       if ndigits c > prec then Dec (dneg d) (c div 10) (dexpo d + k + 1)
       else Dec (dneg d) c (dexpo d + k))"

definition dec_mul :: "dec \<Rightarrow> dec \<Rightarrow> dec" where
  "dec_mul a b = dec_fix (Dec (dneg a \<noteq> dneg b) (dcoef a * dcoef b) (dexpo a + dexpo b))"

text \<open>The signed coefficient at an exponent not above the number's own.\<close>

definition dec_at :: "int \<Rightarrow> dec \<Rightarrow> int" where
  "dec_at e d = (if dneg d then - 1 else 1) * dcoef d * pow10 (dexpo d - e)"

definition dec_add :: "dec \<Rightarrow> dec \<Rightarrow> dec" where
  "dec_add a b = (let e = min (dexpo a) (dexpo b); s = dec_at e a + dec_at e b in
     dec_fix (Dec (s < 0 \<or> (s = 0 \<and> dneg a \<and> dneg b)) \<bar>s\<bar> e))"

definition dec_less :: "dec \<Rightarrow> dec \<Rightarrow> bool" where
  "dec_less a b = (let e = min (dexpo a) (dexpo b) in dec_at e a < dec_at e b)"

definition dec_of_int :: "int \<Rightarrow> dec" where
  "dec_of_int n = Dec (n < 0) \<bar>n\<bar> 0"

text \<open>\<open>quantize\<close> to the exponent \<open>e\<close>, ROUND_HALF_UP.  A result that needs more than 28
  digits before or after rounding raises InvalidOperation.\<close>

definition dec_rescale :: "int \<Rightarrow> dec \<Rightarrow> int" where
  "dec_rescale e d =
    (if e \<le> dexpo d then dcoef d * pow10 (dexpo d - e)
     else if ndigits (dcoef d) + dexpo d < e then 0
     else half_up (dcoef d) (pow10 (e - dexpo d)))"

definition dec_quantize :: "int \<Rightarrow> dec \<Rightarrow> dec result" where
  "dec_quantize e d =
    (if dcoef d = 0 then Inr (Dec (dneg d) 0 e)
     else if ndigits (dcoef d) + dexpo d - e > prec then Inl InvalidOperation
     else let c = dec_rescale e d in
       if ndigits c > prec then Inl InvalidOperation else Inr (Dec (dneg d) c e))"

fun decimal_quantize :: "int \<Rightarrow> decimal \<Rightarrow> decimal result" where
  "decimal_quantize e (Fin d) = rbind (dec_quantize e d) (\<lambda>q. Inr (Fin q))"
| "decimal_quantize e (Infinity s) = Inl InvalidOperation"
| "decimal_quantize e (NaN sig) = (if sig then Inl InvalidOperation else Inr (NaN False))"

subsection \<open>Reading and writing\<close>

text \<open>White space of \<open>str.strip()\<close>, on code points below 256.\<close>

definition py_space :: "char \<Rightarrow> bool" where
  "py_space c \<longleftrightarrow> (let n = (of_char c :: int) in
     (9 \<le> n \<and> n \<le> 13) \<or> (28 \<le> n \<and> n \<le> 32) \<or> n = 133 \<or> n = 160)"

definition py_strip :: "string \<Rightarrow> string" where
  "py_strip s = rev (dropWhile py_space (rev (dropWhile py_space s)))"

definition exponent_of :: "string \<Rightarrow> int option" where
  "exponent_of s = (case s of [] \<Rightarrow> Some 0
     | c # r \<Rightarrow>
        if c \<noteq> CHR ''e'' \<and> c \<noteq> CHR ''E'' then None
        else let neg = (r \<noteq> [] \<and> hd r = CHR ''-'');
                 ds = (if r \<noteq> [] \<and> (hd r = CHR ''-'' \<or> hd r = CHR ''+'') then tl r else r)
             in if ds \<noteq> [] \<and> list_all is_digit ds
                then Some (if neg then - dec_value 0 ds else dec_value 0 ds) else None)"

definition number_of :: "bool \<Rightarrow> string \<Rightarrow> decimal option" where
  "number_of neg u = (
     let ip = takeWhile is_digit u; r = dropWhile is_digit u;
         fp = (if r \<noteq> [] \<and> hd r = CHR ''.'' then takeWhile is_digit (tl r) else []);
         r2 = (if r \<noteq> [] \<and> hd r = CHR ''.'' then dropWhile is_digit (tl r) else r)
     in if ip @ fp = [] then None
        else case exponent_of r2 of None \<Rightarrow> None
        | Some x \<Rightarrow>
            let c = dec_value 0 (ip @ fp); e = x - int (length fp) in
            if e < - 1999999999999999997 \<or> ndigits c + e > 1000000000000000000 then None
            else Some (Fin (Dec neg c e)))"

definition decimal_of_string :: "string \<Rightarrow> decimal option" where
  "decimal_of_string s = (
     let t = filter (\<lambda>c. c \<noteq> CHR ''_'') (py_strip s);
         neg = (t \<noteq> [] \<and> hd t = CHR ''-'');
         u = (if t \<noteq> [] \<and> (hd t = CHR ''-'' \<or> hd t = CHR ''+'') then tl t else t);
         l = py_lower u
     in if l = ''inf'' \<or> l = ''infinity'' then Some (Infinity neg)
        else if take 3 l = ''nan'' \<and> list_all is_digit (drop 3 l) then Some (NaN False)
        else if take 4 l = ''snan'' \<and> list_all is_digit (drop 4 l) then Some (NaN True)
        else number_of neg u)"

text \<open>\<open>format(d, 'f')\<close>: the digits, padded to reach the decimal point.\<close>

definition dec_format_f :: "dec \<Rightarrow> string" where
  "dec_format_f d = (if dneg d then ''-'' else []) @
     (if dexpo d \<ge> 0
      then (if dcoef d = 0 then ''0'' else dec_digits (dcoef d) @ replicate (nat (dexpo d)) CHR ''0'')
      else let k = nat (- dexpo d); ds = dec_digits (dcoef d);
               p = replicate (k + 1 - length ds) CHR ''0'' @ ds
           in take (length p - k) p @ ''.'' @ drop (length p - k) p)"

text \<open>\<open>str(d)\<close>: plain, or scientific when the exponent is positive or the number tiny.\<close>

definition dec_str :: "dec \<Rightarrow> string" where
  "dec_str d = (let ds = dec_digits (dcoef d); left = dexpo d + int (length ds) in
     if dexpo d \<le> 0 \<and> - 6 < left then dec_format_f d
     else (if dneg d then ''-'' else []) @ (if length ds = 1 then ds else hd ds # CHR ''.'' # tl ds)
        @ ''E'' @ (if left - 1 < 0 then ''-'' else ''+'') @ dec_digits \<bar>left - 1\<bar>)"

fun decimal_format_f :: "decimal \<Rightarrow> string" where
  "decimal_format_f (Fin d) = dec_format_f d"
| "decimal_format_f (Infinity s) = (if s then ''-Infinity'' else ''Infinity'')"
| "decimal_format_f (NaN sig) = (if sig then ''sNaN'' else ''NaN'')"

text \<open>\<open>normalize()\<close>: rounded to the context, trailing zeros removed.\<close>

function strip_zeros :: "int \<Rightarrow> int \<Rightarrow> int \<times> int" where
  "strip_zeros c e = (if c \<le> 0 \<or> c mod 10 \<noteq> 0 then (c, e) else strip_zeros (c div 10) (e + 1))"
  by pat_completeness auto
termination by (relation "measure (\<lambda>(c, e). nat c)") auto

declare strip_zeros.simps [simp del]

definition dec_normalize :: "dec \<Rightarrow> dec" where
  "dec_normalize d = (let f = dec_fix d in
     if dcoef f = 0 then Dec (dneg f) 0 0
     else case strip_zeros (dcoef f) (dexpo f) of (c, e) \<Rightarrow> Dec (dneg f) c e)"

subsection \<open>Laws\<close>

lemma hex_digit_digit:
  assumes "0 \<le> n" "n < 10"
  shows "is_digit (hex_digit n)" "digit_value (hex_digit n) = n" "hex_digit n \<noteq> CHR ''_''"
    "\<not> py_space (hex_digit n)" "hex_digit n \<noteq> CHR ''-''" "hex_digit n \<noteq> CHR ''+''"
    "hex_digit n \<noteq> CHR ''.''" "lower_char (hex_digit n) = hex_digit n"
    "of_char (hex_digit n) < (128 :: int)"
proof -
  from assms have "n \<in> {0, 1, 2, 3, 4, 5, 6, 7, 8, 9}" by (simp, arith)
  then show "is_digit (hex_digit n)" "digit_value (hex_digit n) = n" "hex_digit n \<noteq> CHR ''_''"
    "\<not> py_space (hex_digit n)" "hex_digit n \<noteq> CHR ''-''" "hex_digit n \<noteq> CHR ''+''"
    "hex_digit n \<noteq> CHR ''.''" "lower_char (hex_digit n) = hex_digit n"
    "of_char (hex_digit n) < (128 :: int)"
    by (auto simp: hex_digit_def is_digit_def digit_value_def py_space_def lower_char_def)
qed

lemma is_digit_facts:
  "is_digit c \<Longrightarrow> c \<noteq> CHR ''_'' \<and> \<not> py_space c \<and> c \<noteq> CHR ''-'' \<and> c \<noteq> CHR ''+'' \<and> c \<noteq> CHR ''.''
     \<and> lower_char c = c \<and> c \<noteq> CHR ''i'' \<and> c \<noteq> CHR ''n'' \<and> c \<noteq> CHR ''s'' \<and> of_char c < (128 :: int)"
  by (auto simp: is_digit_def py_space_def lower_char_def)

lemma dec_digits_all_digits: "0 \<le> n \<Longrightarrow> list_all is_digit (dec_digits n)"
proof (induction n rule: dec_digits.induct)
  case (1 n)
  then show ?case
    by (subst dec_digits.simps) (auto simp: hex_digit_digit)
qed

lemma dec_digits_nonempty [simp]: "dec_digits n \<noteq> []"
  by (subst dec_digits.simps) auto

lemma length_dec_digits: "int (length (dec_digits n)) = ndigits n"
proof (induction n rule: dec_digits.induct)
  case (1 n)
  then show ?case
    by (subst dec_digits.simps, subst ndigits.simps) auto
qed

lemma dec_value_append [simp]: "dec_value a (s @ t) = dec_value (dec_value a s) t"
  by (simp add: dec_value_def)

lemma dec_value_dec_digits: "0 \<le> n \<Longrightarrow> dec_value 0 (dec_digits n) = n"
proof (induction n rule: dec_digits.induct)
  case (1 n)
  show ?case
  proof (cases "n < 10")
    case True
    then show ?thesis using 1 by (subst dec_digits.simps) (simp add: dec_value_def hex_digit_digit)
  next
    case False
    with 1 have "dec_value 0 (dec_digits (n div 10)) = n div 10" by simp
    then show ?thesis using False
      by (subst dec_digits.simps) (simp add: dec_value_def hex_digit_digit)
  qed
qed

lemma dec_value_zeros: "dec_value 0 (replicate k CHR ''0'') = 0"
  by (induction k) (auto simp: dec_value_def digit_value_def)

lemma ndigits_pos: "1 \<le> ndigits n"
proof (induction n rule: ndigits.induct)
  case (1 n)
  then show ?case by (subst ndigits.simps) auto
qed

lemma ndigits_le_iff:
  "0 \<le> n \<Longrightarrow> 1 \<le> k \<Longrightarrow> ndigits n \<le> int k \<longleftrightarrow> n < 10 ^ k"
proof (induction n arbitrary: k rule: ndigits.induct)
  case (1 n)
  show ?case
  proof (cases "n < 10")
    case True
    moreover have "(10 :: int) \<le> 10 ^ k" using 1(3) by (simp add: self_le_power)
    ultimately show ?thesis using 1 by (subst ndigits.simps) simp
  next
    case False
    show ?thesis
    proof (cases "k = 1")
      case True
      then show ?thesis using False ndigits_pos [of "n div 10"] by (subst ndigits.simps) simp
    next
      case k: False
      with 1(3) obtain j where j: "k = Suc j" "1 \<le> j" by (cases k) auto
      have "ndigits (n div 10) \<le> int j \<longleftrightarrow> n div 10 < 10 ^ j"
        using 1(1) [OF False, of j] False j by simp
      moreover have "n div 10 < 10 ^ j \<longleftrightarrow> n < 10 ^ Suc j"
        by auto
      ultimately show ?thesis using False j by (subst ndigits.simps) simp
    qed
  qed
qed

lemma ndigits_le_28: "0 \<le> n \<Longrightarrow> ndigits n \<le> prec \<longleftrightarrow> n < 10 ^ 28"
  using ndigits_le_iff [of n 28] by (simp add: prec_def)

text \<open>Rounding half up leaves an error of at most half a unit, ties away from zero.\<close>

lemma half_up_bounds:
  assumes "0 < d"
  shows "2 * (half_up n d * d) \<le> 2 * n + d" "2 * n < 2 * (half_up n d * d) + d"
proof -
  have "(2 * n + d) = 2 * d * half_up n d + (2 * n + d) mod (2 * d)"
    unfolding half_up_def using mult_div_mod_eq [of "2 * d" "2 * n + d"] by simp
  moreover have "0 \<le> (2 * n + d) mod (2 * d)" "(2 * n + d) mod (2 * d) < 2 * d"
    using assms by simp_all
  ultimately show "2 * (half_up n d * d) \<le> 2 * n + d" "2 * n < 2 * (half_up n d * d) + d"
    by (simp_all add: algebra_simps)
qed

lemma half_up_nonneg: "0 \<le> n \<Longrightarrow> 0 < d \<Longrightarrow> 0 \<le> half_up n d"
  by (simp add: half_up_def pos_imp_zdiv_nonneg_iff)

lemma half_up_exact: "0 < d \<Longrightarrow> half_up (m * d) d = m"
proof -
  assume d: "0 < d"
  have "2 * (m * d) + d = d + m * (2 * d)" by simp
  then have "(2 * (m * d) + d) div (2 * d) = m + d div (2 * d)"
    using d by (metis add.commute div_mult_self1 mult_pos_pos less_irrefl zero_less_numeral)
  then show ?thesis using d by (simp add: half_up_def)
qed

lemma half_up_mono: "0 < d \<Longrightarrow> m \<le> n \<Longrightarrow> half_up m d \<le> half_up n d"
  by (simp add: half_up_def zdiv_mono1)

lemma dec_fix_id: "0 \<le> dcoef d \<Longrightarrow> dcoef d < 10 ^ 28 \<Longrightarrow> dec_fix d = d"
  using ndigits_le_28 [of "dcoef d"] by (simp add: dec_fix_def)

lemma dec_quantize_expo: "dec_quantize e d = Inr q \<Longrightarrow> dexpo q = e \<and> dneg q = dneg d"
  by (auto simp: dec_quantize_def Let_def split: if_splits)

lemma dec_quantize_small:
  "0 \<le> dcoef d \<Longrightarrow> dec_quantize e d = Inr q \<Longrightarrow> 0 \<le> dcoef q \<and> dcoef q < 10 ^ 28"
proof -
  assume h: "0 \<le> dcoef d" and q: "dec_quantize e d = Inr q"
  have "0 \<le> dec_rescale e d"
    using h by (auto simp: dec_rescale_def pow10_def intro: half_up_nonneg)
  then show ?thesis using q ndigits_le_28 [of "dec_rescale e d"]
    by (auto simp: dec_quantize_def Let_def split: if_splits)
qed

lemma dec_quantize_same:
  "dexpo d = e \<Longrightarrow> 0 \<le> dcoef d \<Longrightarrow> dcoef d < 10 ^ 28 \<Longrightarrow> dec_quantize e d = Inr d"
  using ndigits_le_28 [of "dcoef d"]
  by (cases d) (auto simp: dec_quantize_def dec_rescale_def pow10_def)

subsection \<open>Written numbers read back\<close>

lemma digit_spans:
  "list_all is_digit ip \<Longrightarrow> takeWhile is_digit (ip @ CHR ''.'' # r) = ip"
  "list_all is_digit ip \<Longrightarrow> dropWhile is_digit (ip @ CHR ''.'' # r) = CHR ''.'' # r"
  "list_all is_digit ip \<Longrightarrow> takeWhile is_digit ip = ip"
  "list_all is_digit ip \<Longrightarrow> dropWhile is_digit ip = []"
  by (induction ip) (auto simp: is_digit_def)

lemma number_of_point:
  assumes "list_all is_digit ip" "list_all is_digit fp" "ip \<noteq> []"
    and "int (length fp) \<le> 10 ^ 18" "ndigits (dec_value 0 (ip @ fp)) \<le> 10 ^ 18"
  shows "number_of neg (ip @ CHR ''.'' # fp)
     = Some (Fin (Dec neg (dec_value 0 (ip @ fp)) (- int (length fp))))"
proof -
  have "number_of neg (ip @ CHR ''.'' # fp) =
     (let c = dec_value 0 (ip @ fp); e = - int (length fp) in
      if e < - 1999999999999999997 \<or> ndigits c + e > 1000000000000000000 then None
      else Some (Fin (Dec neg c e)))"
    unfolding number_of_def Let_def
    by (simp add: exponent_of_def digit_spans assms(1,2,3))
  then show ?thesis using assms(4,5) by (simp add: Let_def del: dec_value_append)
qed

lemma number_of_integer:
  assumes "list_all is_digit ip" "ip \<noteq> []" "ndigits (dec_value 0 ip) \<le> 10 ^ 18"
  shows "number_of neg ip = Some (Fin (Dec neg (dec_value 0 ip) 0))"
  unfolding number_of_def Let_def using assms(3)
  by (simp add: exponent_of_def digit_spans assms(1,2))

lemma dropWhile_hd: "t \<noteq> [] \<Longrightarrow> \<not> P (hd t) \<Longrightarrow> dropWhile P t = t"
  by (cases t) auto

lemma decimal_of_string_plain:
  assumes u: "\<forall>c \<in> set u. is_digit c \<or> c = CHR ''.''" and hd: "u \<noteq> []" "is_digit (hd u)"
  shows "decimal_of_string ((if neg then ''-'' else []) @ u) = number_of neg u"
proof -
  let ?s = "(if neg then ''-'' else []) @ u"
  have ch: "c \<noteq> CHR ''_'' \<and> \<not> py_space c" if c: "c \<in> set ?s" for c
  proof -
    from c u have "is_digit c \<or> c = CHR ''.'' \<or> c = CHR ''-''" by (cases neg) auto
    moreover have "\<not> py_space CHR ''.''" "\<not> py_space CHR ''-''" by (simp_all add: py_space_def)
    ultimately show ?thesis using is_digit_facts [of c] by fastforce
  qed
  have ne: "?s \<noteq> []" using hd by simp
  have "dropWhile py_space ?s = ?s"
    by (rule dropWhile_hd [OF ne]) (use ch [OF list.set_sel(1) [OF ne]] in blast)
  moreover have "dropWhile py_space (rev ?s) = rev ?s"
  proof (rule dropWhile_hd)
    show "rev ?s \<noteq> []" using ne by (simp only: rev_is_Nil_conv) simp
    show "\<not> py_space (hd (rev ?s))"
      using ch [OF last_in_set [OF ne]] unfolding hd_rev by blast
  qed
  ultimately have strip: "py_strip ?s = ?s" by (simp add: py_strip_def)
  have filt: "filter (\<lambda>c. c \<noteq> CHR ''_'') ?s = ?s"
    using ch unfolding filter_id_conv by blast
  obtain c r where cr: "u = c # r" using hd by (cases u) auto
  have c: "is_digit c" using hd cr by simp
  have low: "py_lower u = c # map lower_char r"
    using cr is_digit_facts [OF c] by (simp add: py_lower_def)
  have "take 3 (py_lower u) \<noteq> ''nan''" "take 4 (py_lower u) \<noteq> ''snan''"
    "py_lower u \<noteq> ''inf''" "py_lower u \<noteq> ''infinity''"
    using is_digit_facts [OF c] low by (auto simp: take_Cons')
  then show ?thesis
    using strip filt cr is_digit_facts [OF c] by (cases neg) (simp_all add: decimal_of_string_def Let_def)
qed

lemma is_digit_zero: "is_digit CHR ''0''"
  by (simp add: is_digit_def)

theorem format_f_reads_back:
  assumes "0 \<le> dcoef d" "dexpo d \<le> 0" "- dexpo d < 10 ^ 18" "ndigits (dcoef d) < 10 ^ 18"
  shows "decimal_of_string (dec_format_f d) = Some (Fin d)"
proof -
  let ?ds = "dec_digits (dcoef d)"
  have dig: "list_all is_digit ?ds" and val: "dec_value 0 ?ds = dcoef d"
    using assms(1) dec_digits_all_digits dec_value_dec_digits by auto
  show ?thesis
  proof (cases "dexpo d = 0")
    case True
    have z: "dec_digits 0 = ''0''" by (subst dec_digits.simps) (simp add: hex_digit_def)
    have f: "dec_format_f d = (if dneg d then ''-'' else []) @ ?ds"
      using True z by (simp add: dec_format_f_def)
    have "decimal_of_string (dec_format_f d) = number_of (dneg d) ?ds"
      unfolding f using dig by (intro decimal_of_string_plain) (auto simp: list_all_iff)
    then show ?thesis using number_of_integer [OF dig] val True assms(4) by (cases d) simp
  next
    case False
    define k where "k = nat (- dexpo d)"
    define p where "p = replicate (k + 1 - length ?ds) CHR ''0'' @ ?ds"
    define ip fp where "ip = take (length p - k) p" and "fp = drop (length p - k) p"
    have pdig: "list_all is_digit p" using dig is_digit_zero by (auto simp: p_def list_all_iff)
    have ifp: "ip @ fp = p" by (simp add: ip_def fp_def)
    have dips: "list_all is_digit ip" "list_all is_digit fp"
      using pdig by (simp_all flip: ifp)
    have lp: "k < length p" by (simp add: p_def)
    then have lens: "length fp = k" "ip \<noteq> []" by (auto simp: ip_def fp_def)
    have pv: "dec_value 0 p = dcoef d" using val by (simp add: p_def dec_value_zeros)
    have f: "dec_format_f d = (if dneg d then ''-'' else []) @ (ip @ CHR ''.'' # fp)"
      using False assms(2) by (simp add: dec_format_f_def Let_def k_def p_def ip_def fp_def)
    have "decimal_of_string (dec_format_f d) = number_of (dneg d) (ip @ CHR ''.'' # fp)"
      unfolding f using dips lens(2)
      by (intro decimal_of_string_plain) (auto simp: list_all_iff)
    also have "\<dots> = Some (Fin (Dec (dneg d) (dec_value 0 (ip @ fp)) (- int (length fp))))"
      using number_of_point [OF dips lens(2)] assms pv lens(1) unfolding ifp by (simp add: k_def)
    finally show ?thesis using pv lens(1) assms(2) False by (cases d) (simp add: ifp k_def del: dec_value_append)
  qed
qed

end
