(* ===== verification/Canonical.thy ===== *)
theory Canonical
  imports Decimal_Arith "HOL-Library.Multiset"
begin

text \<open>
  \<open>utils/canonical.py\<close> and the two copies of \<open>canonical_json\<close> in the SDK
  (\<open>sdk/python/vrl/hashing.py\<close>) and in the standalone verifier
  (\<open>verifier/vrl_verify.py\<close>).  \<open>pyv\<close> is the Python values that reach \<open>canonicalize\<close>,
  \<open>json\<close> the values it produces, which are also what \<open>json.loads\<close> returns.  Models and
  dataclasses are dumped to dictionaries before, a dictionary is its items in insertion
  order (distinct string keys).  On code points below 256 the NFC normalisation of a
  string is the string itself.
\<close>

subsection \<open>Values\<close>

text \<open>\<open>PDatetime\<close> and \<open>PDate\<close> carry the \<open>isoformat()\<close> text, \<open>PUuid\<close> the \<open>str\<close> text,
  \<open>PFloat\<close> the text of the number, and each member of a set comes with its \<open>str\<close> text.
  Lists and tuples are both \<open>PList\<close>.\<close>

datatype pyv =
    PNone | PBool bool | PInt int | PFloat string | PDec decimal | PStr string
  | PDatetime string | PDate string | PUuid string
  | PList "pyv list" | PSet "(string \<times> pyv) list" | PDict "(string \<times> pyv) list"

datatype json =
    JNull | JBool bool | JInt int | JFloat string | JStr string
  | JList "json list" | JDict "(string \<times> json) list"

lemma size_pair_list [termination_simp]:
  "(k, v) \<in> set kvs \<Longrightarrow> size v < Suc (size_list (size_prod (\<lambda>_. 0) size) kvs)"
  by (induction kvs) auto

lemma size_member [termination_simp]: "x \<in> set vs \<Longrightarrow> size x < Suc (size_list size vs)"
  by (induction vs) auto

subsection \<open>Text\<close>

function py_replace :: "string \<Rightarrow> string \<Rightarrow> string \<Rightarrow> string" where
  "py_replace old new s = (if s = [] then []
     else if old \<noteq> [] \<and> take (length old) s = old
     then new @ py_replace old new (drop (length old) s)
     else hd s # py_replace old new (tl s))"
  by pat_completeness auto
termination by (relation "measure (\<lambda>(_, _, s). length s)") auto

declare py_replace.simps [simp del]

definition int_text :: "int \<Rightarrow> string" where
  "int_text n = (if n < 0 then CHR ''-'' # dec_digits (- n) else dec_digits n)"

fun join :: "string \<Rightarrow> string list \<Rightarrow> string" where
  "join sep [] = []"
| "join sep [x] = x"
| "join sep (x # xs) = x @ sep @ join sep xs"

text \<open>A string literal as \<open>json.dumps\<close> writes it with \<open>ensure_ascii=True\<close>.\<close>

definition json_escape :: "char \<Rightarrow> string" where
  "json_escape c = (let n = (of_char c :: int) in
     if n = 34 then [CHR 0x5C, CHR 0x22]
     else if n = 92 then [CHR 0x5C, CHR 0x5C]
     else if n = 10 then [CHR 0x5C, CHR ''n'']
     else if n = 13 then [CHR 0x5C, CHR ''r'']
     else if n = 9 then [CHR 0x5C, CHR ''t'']
     else if n = 12 then [CHR 0x5C, CHR ''f'']
     else if n = 8 then [CHR 0x5C, CHR ''b'']
     else if 32 \<le> n \<and> n \<le> 126 then [c]
     else CHR 0x5C # CHR ''u'' # hex_text 4 n)"

definition json_string :: "string \<Rightarrow> string" where
  "json_string s = CHR 0x22 # concat (map json_escape s) @ [CHR 0x22]"

subsection \<open>Core: canonicalize and canonical\_json\<close>

function canonicalize :: "pyv \<Rightarrow> json result" where
  "canonicalize PNone = Inr JNull"
| "canonicalize (PBool b) = Inr (JBool b)"
| "canonicalize (PInt n) = Inr (JInt n)"
| "canonicalize (PFloat t) = Inl TypeError"
| "canonicalize (PDec d) = Inr (JStr (decimal_format_f d))"
| "canonicalize (PDatetime t) = Inr (JStr (py_replace ''+00:00'' ''Z'' t))"
| "canonicalize (PDate t) = Inr (JStr t)"
| "canonicalize (PUuid t) = Inr (JStr t)"
| "canonicalize (PStr s) = Inr (JStr s)"
| "canonicalize (PDict kvs) =
     rbind (rmap (\<lambda>kv. rbind (canonicalize (snd kv)) (\<lambda>w. Inr (fst kv, w))) (sort_key fst kvs))
       (\<lambda>ws. Inr (JDict ws))"
| "canonicalize (PList vs) = rbind (rmap canonicalize vs) (\<lambda>ws. Inr (JList ws))"
| "canonicalize (PSet vs) =
     rbind (rmap (\<lambda>kv. canonicalize (snd kv)) (sort_key fst vs)) (\<lambda>ws. Inr (JList ws))"
  by pat_completeness auto
termination
  by (relation "measure size") (auto intro: size_pair_list size_member)

function json_dumps :: "json \<Rightarrow> string" where
  "json_dumps JNull = ''null''"
| "json_dumps (JBool b) = (if b then ''true'' else ''false'')"
| "json_dumps (JInt n) = int_text n"
| "json_dumps (JFloat t) = t"
| "json_dumps (JStr s) = json_string s"
| "json_dumps (JList vs) = ''['' @ join '','' (map json_dumps vs) @ '']''"
| "json_dumps (JDict kvs) = ''{'' @ join '',''
     (map (\<lambda>kv. json_string (fst kv) @ '':'' @ json_dumps (snd kv)) (sort_key fst kvs)) @ ''}''"
  by pat_completeness auto
termination
  by (relation "measure size") (auto intro: size_pair_list size_member)

definition canonical_json :: "pyv \<Rightarrow> string result" where
  "canonical_json v = rbind (canonicalize v) (\<lambda>w. Inr (json_dumps w))"

subsection \<open>Canonical text is ASCII\<close>

lemma is_ascii_hex_text: "is_ascii (hex_text w n)"
  using all_lower_hex_ascii [OF all_lower_hex_hex_text] .

lemma is_ascii_dec_digits: "0 \<le> n \<Longrightarrow> is_ascii (dec_digits n)"
  using dec_digits_all_digits [of n] is_digit_facts
  by (auto simp: is_ascii_def list_all_iff)

lemma is_ascii_int_text: "is_ascii (int_text n)"
  using is_ascii_dec_digits by (simp add: int_text_def)

lemma is_ascii_json_escape: "is_ascii (json_escape c)"
  by (auto simp: json_escape_def Let_def is_ascii_hex_text)

lemma is_ascii_concat: "is_ascii (concat xs) \<longleftrightarrow> (\<forall>x \<in> set xs. is_ascii x)"
  by (induction xs) auto

lemma is_ascii_json_string: "is_ascii (json_string s)"
  by (auto simp: json_string_def is_ascii_concat is_ascii_json_escape)

lemma is_ascii_join: "is_ascii sep \<Longrightarrow> (\<And>x. x \<in> set xs \<Longrightarrow> is_ascii x) \<Longrightarrow> is_ascii (join sep xs)"
  by (induction sep xs rule: join.induct) auto

text \<open>Values without floating point numbers: what \<open>canonicalize\<close> returns.\<close>

fun float_free :: "json \<Rightarrow> bool" where
  "float_free (JFloat t) = False"
| "float_free (JList vs) = list_all float_free vs"
| "float_free (JDict kvs) = list_all (\<lambda>kv. float_free (snd kv)) kvs"
| "float_free _ = True"

lemma json_dumps_ascii: "float_free v \<Longrightarrow> is_ascii (json_dumps v)"
proof (induction v rule: json_dumps.induct)
  case (6 vs)
  then show ?case by (auto simp: list_all_iff intro!: is_ascii_join)
next
  case (7 kvs)
  then show ?case by (auto simp: list_all_iff is_ascii_json_string intro!: is_ascii_join)
qed (auto simp: is_ascii_int_text is_ascii_json_string)

lemma canonicalize_float_free: "canonicalize v = Inr w \<Longrightarrow> float_free w"
proof (induction v arbitrary: w rule: canonicalize.induct)
  case (10 kvs)
  from "10.prems" obtain ws where w: "w = JDict ws"
    and ws: "rmap (\<lambda>kv. rbind (canonicalize (snd kv)) (\<lambda>w. Inr (fst kv, w))) (sort_key fst kvs) = Inr ws"
    by (auto simp: result_simps)
  have "x \<in> set ws \<Longrightarrow> float_free (snd x)" for x
    using rmap_member [OF ws, of x] "10.IH" by (auto simp: result_simps)
  then show ?case by (simp add: w list_all_iff)
next
  case (11 vs)
  then obtain ws where w: "w = JList ws" and ws: "rmap canonicalize vs = Inr ws"
    by (auto simp: result_simps)
  have "x \<in> set ws \<Longrightarrow> float_free x" for x
    using rmap_member [OF ws, of x] "11.IH" by auto
  then show ?case by (simp add: w list_all_iff)
next
  case (12 vs)
  from "12.prems" obtain ws where w: "w = JList ws"
    and ws: "rmap (\<lambda>kv. canonicalize (snd kv)) (sort_key fst vs) = Inr ws"
    by (auto simp: result_simps)
  have "x \<in> set ws \<Longrightarrow> float_free x" for x
    using rmap_member [OF ws, of x] "12.IH" by auto
  then show ?case by (simp add: w list_all_iff)
qed auto

subsection \<open>Canonical text determines the value\<close>

text \<open>The text is read back from the left: the text of a value followed by the end of the
  input, a comma or a closing bracket determines the value and what follows.\<close>

fun canonical_form :: "json \<Rightarrow> bool" where
  "canonical_form (JFloat t) = False"
| "canonical_form (JList vs) = list_all canonical_form vs"
| "canonical_form (JDict kvs) = (sorted (map fst kvs) \<and> distinct (map fst kvs)
     \<and> list_all (\<lambda>kv. canonical_form (snd kv)) kvs)"
| "canonical_form JNull = True"
| "canonical_form (JBool b) = True"
| "canonical_form (JInt n) = True"
| "canonical_form (JStr t) = True"

lemma sort_key_sorted: "sorted (map f xs) \<Longrightarrow> sort_key f xs = xs"
  by (induction xs) (auto simp: insort_is_Cons)

definition stop :: "string \<Rightarrow> bool" where
  "stop r \<longleftrightarrow> r = [] \<or> hd r \<in> set '',]}''"

lemma stop_simps [simp]:
  "stop []" "stop (CHR '','' # r)" "stop (CHR '']'' # r)" "stop (CHR ''}'' # r)"
  by (simp_all add: stop_def)

lemma hex_value_hex_digit: "0 \<le> n \<Longrightarrow> n < 16 \<Longrightarrow> hex_value (hex_digit n) = Some n"
proof -
  assume "0 \<le> n" "n < 16"
  then have "n \<in> {0, 1, 2, 3, 4, 5, 6, 7, 8, 9, 10, 11, 12, 13, 14, 15}" by (simp, arith)
  then show ?thesis by (auto simp: hex_digit_def hex_value_def)
qed

lemma hex_num_hex_text: "0 \<le> n \<Longrightarrow> n < 16 ^ w \<Longrightarrow> hex_num 0 (hex_text w n) = n"
proof (induction w arbitrary: n)
  case 0
  then show ?case by (simp add: hex_num_def)
next
  case (Suc w)
  then have "hex_num 0 (hex_text w (n div 16)) = n div 16" by (intro Suc.IH) auto
  then show ?case using Suc.prems by (simp add: hex_num_def hex_value_hex_digit)
qed

text \<open>Reading one escaped character.\<close>

definition unescape :: "string \<Rightarrow> char \<times> string" where
  "unescape s = (if hd s \<noteq> CHR 0x5C then (hd s, tl s)
     else let c = hd (tl s); r = tl (tl s) in
       if c = CHR ''u'' then (char_of (hex_num 0 (take 4 r)), drop 4 r)
       else if c = CHR ''n'' then (CHR 0x0A, r)
       else if c = CHR ''r'' then (CHR 0x0D, r)
       else if c = CHR ''t'' then (CHR 0x09, r)
       else if c = CHR ''f'' then (CHR 0x0C, r)
       else if c = CHR ''b'' then (CHR 0x08, r)
       else (c, r))"

lemma char_of_eq_iff: "(char_of n = c) \<longleftrightarrow> (of_char c = n mod 256)" for n :: int
  by (metis char_of_char char_of_mod_256 of_char_mod_256 of_char_of)

lemma char_literals:
  "char_of (34 :: int) = CHR 0x22" "char_of (92 :: int) = CHR 0x5C" "char_of (10 :: int) = CHR 0x0A"
  "char_of (13 :: int) = CHR 0x0D" "char_of (9 :: int) = CHR 0x09" "char_of (12 :: int) = CHR 0x0C"
  "char_of (8 :: int) = CHR 0x08"
  by (simp_all add: char_of_eq_iff)

lemma of_char_bounds: "0 \<le> (of_char c :: int)" "(of_char c :: int) < 256"
proof -
  have "(of_char c :: int) = of_char c mod 256" by simp
  then show "0 \<le> (of_char c :: int)" "(of_char c :: int) < 256"
    by (metis pos_mod_sign zero_less_numeral, metis pos_mod_bound zero_less_numeral)
qed

lemma unescape_escape: "unescape (json_escape c @ r) = (c, r)"
proof -
  define n where "n = (of_char c :: int)"
  have c: "c = char_of n" by (simp add: n_def)
  have b: "0 \<le> n" "n < 256" using of_char_bounds [of c] by (simp_all add: n_def)
  have u: "hex_num 0 (hex_text 4 n) = n" using b by (intro hex_num_hex_text) auto
  consider "n \<in> {34, 92, 10, 13, 9, 12, 8}"
    | "32 \<le> n \<and> n \<le> 126 \<and> n \<noteq> 34 \<and> n \<noteq> 92"
    | "n \<notin> {34, 92, 10, 13, 9, 12, 8} \<and> \<not> (32 \<le> n \<and> n \<le> 126)" by blast
  then show ?thesis
  proof cases
    case 1
    then show ?thesis by (auto simp: c json_escape_def unescape_def char_literals)
  next
    case 2
    then have "json_escape c = [c]" unfolding json_escape_def Let_def n_def [symmetric] by auto
    moreover have "c \<noteq> CHR 0x5C" using 2 by (auto simp: n_def)
    ultimately show ?thesis by (simp add: unescape_def)
  next
    case 3
    then have "json_escape c = CHR 0x5C # CHR ''u'' # hex_text 4 n"
      unfolding json_escape_def Let_def n_def [symmetric] by auto
    then show ?thesis by (simp add: unescape_def u c del: hex_text.simps)
  qed
qed

lemma escape_first: "hd (json_escape c @ r) \<noteq> CHR 0x22" "json_escape c \<noteq> []"
  by (auto simp: json_escape_def Let_def)

lemma json_string_read:
  assumes "json_string a @ r = json_string b @ s"
  shows "a = b \<and> r = s"
proof -
  define q :: char where "q = CHR 0x22"
  have "concat (map json_escape a) @ q # r = concat (map json_escape b) @ q # s"
    using assms by (simp add: json_string_def q_def)
  then show ?thesis
  proof (induction a arbitrary: b)
    case Nil
    show ?case
    proof (cases b)
      case (Cons c cs)
      then have "q = hd (json_escape c @ concat (map json_escape cs) @ q # s)"
        using Nil by (simp del: hd_append flip: append_assoc) (metis append_Cons list.sel(1))
      then show ?thesis using escape_first(1) by (metis q_def)
    qed (use Nil in simp)
  next
    case (Cons c cs)
    show ?case
    proof (cases b)
      case Nil
      then have "q = hd (json_escape c @ concat (map json_escape cs) @ q # r)"
        using Cons.prems by simp
      then show ?thesis using escape_first(1) by (metis q_def)
    next
      case (Cons d ds)
      then have e: "json_escape c @ (concat (map json_escape cs) @ q # r)
          = json_escape d @ (concat (map json_escape ds) @ q # s)" using Cons.prems by simp
      then have "c = d \<and> concat (map json_escape cs) @ q # r = concat (map json_escape ds) @ q # s"
        using unescape_escape by (metis prod.inject)
      then show ?thesis using Cons.IH Cons by simp
    qed
  qed
qed

definition int_char :: "char \<Rightarrow> bool" where
  "int_char c \<longleftrightarrow> c = CHR ''-'' \<or> is_digit c"

lemma int_text_chars: "list_all int_char (int_text n)"
  using dec_digits_all_digits [of n] dec_digits_all_digits [of "- n"]
  by (auto simp: int_text_def int_char_def list_all_iff)

lemma int_text_inj: "int_text m = int_text n \<Longrightarrow> m = n"
proof -
  have d: "0 \<le> k \<Longrightarrow> dec_digits k \<noteq> CHR ''-'' # t" for k t
    using dec_digits_all_digits [of k] by (auto simp: is_digit_def)
  assume e: "int_text m = int_text n"
  show ?thesis
  proof (cases "m < 0"; cases "n < 0")
    assume "m < 0" "n < 0"
    then have "dec_value 0 (dec_digits (- m)) = dec_value 0 (dec_digits (- n))"
      using e by (simp add: int_text_def)
    then show ?thesis using \<open>m < 0\<close> \<open>n < 0\<close> by (simp add: dec_value_dec_digits)
  next
    assume "\<not> m < 0" "\<not> n < 0"
    then have "dec_value 0 (dec_digits m) = dec_value 0 (dec_digits n)"
      using e by (simp add: int_text_def)
    then show ?thesis using \<open>\<not> m < 0\<close> \<open>\<not> n < 0\<close> by (simp add: dec_value_dec_digits)
  qed (use e d [of m] d [of n] in \<open>auto simp: int_text_def dest: sym\<close>)
qed

lemma int_text_nonempty [simp]: "int_text n \<noteq> []"
  by (simp add: int_text_def)

lemma int_text_read:
  assumes "int_text m @ r = int_text n @ s" "stop r" "stop s"
  shows "m = n \<and> r = s"
proof -
  have t: "stop r \<Longrightarrow> takeWhile int_char (int_text m @ r) = int_text m" for m r
  proof -
    assume "stop r"
    then have "takeWhile int_char r = []"
      by (cases r) (auto simp: stop_def int_char_def is_digit_def)
    then show ?thesis using int_text_chars [of m] by (simp add: takeWhile_append list_all_iff)
  qed
  have "int_text m = int_text n" using assms t by metis
  then have "m = n" by (rule int_text_inj)
  then show ?thesis using assms(1) by simp
qed

definition json_kind :: "char \<Rightarrow> nat" where
  "json_kind c = (if c = CHR ''n'' then 0 else if c = CHR ''t'' then 1 else if c = CHR ''f'' then 2
     else if c = CHR 0x22 then 3 else if c = CHR ''['' then 4 else if c = CHR ''{'' then 5
     else if int_char c then 6 else 7)"

fun value_kind :: "json \<Rightarrow> nat" where
  "value_kind JNull = 0"
| "value_kind (JBool b) = (if b then 1 else 2)"
| "value_kind (JStr s) = 3"
| "value_kind (JList vs) = 4"
| "value_kind (JDict kvs) = 5"
| "value_kind (JInt n) = 6"
| "value_kind (JFloat t) = 8"

lemma json_dumps_kind:
  assumes "canonical_form v"
  shows "json_dumps v \<noteq> []" "json_kind (hd (json_dumps v)) = value_kind v"
proof -
  have i: "json_kind (hd (int_text n)) = 6" for n
  proof -
    have "int_char (hd (int_text n))"
      using int_text_chars [of n] by (cases "int_text n") auto
    then show ?thesis by (auto simp: json_kind_def int_char_def is_digit_def)
  qed
  show "json_dumps v \<noteq> []" "json_kind (hd (json_dumps v)) = value_kind v"
    using assms i by (cases v; simp add: json_kind_def json_string_def; fail)+
qed

lemma json_dumps_same_kind:
  assumes "canonical_form v" "canonical_form w" "json_dumps v @ r = json_dumps w @ s"
  shows "value_kind v = value_kind w"
  using json_dumps_kind [OF assms(1)] json_dumps_kind [OF assms(2)] assms(3)
  by (metis hd_append)

text \<open>Items separated by commas up to a closing bracket, each item readable on its own.\<close>

lemma join_text:
  "join '','' (map f (v # vs)) @ t = f v @ concat (map (\<lambda>v. CHR '','' # f v) vs) @ t"
  by (induction vs arbitrary: v) auto

definition reads :: "('a \<Rightarrow> string) \<Rightarrow> 'a set \<Rightarrow> 'a set \<Rightarrow> bool" where
  "reads f A B \<longleftrightarrow> (\<forall>v \<in> A. \<forall>w \<in> B. \<forall>r s. stop r \<longrightarrow> stop s \<longrightarrow> f v @ r = f w @ s \<longrightarrow> v = w \<and> r = s)"

lemma readsD:
  "reads f A B \<Longrightarrow> v \<in> A \<Longrightarrow> w \<in> B \<Longrightarrow> stop r \<Longrightarrow> stop s \<Longrightarrow> f v @ r = f w @ s \<Longrightarrow> v = w \<and> r = s"
  by (simp add: reads_def)

lemma reads_mono: "reads f A B \<Longrightarrow> A' \<subseteq> A \<Longrightarrow> B' \<subseteq> B \<Longrightarrow> reads f A' B'"
  by (auto simp: reads_def)

lemma items_read:
  assumes "reads f (set vs) (set ws)" and "c \<in> set '']}''"
    and "concat (map (\<lambda>v. CHR '','' # f v) vs) @ c # r = concat (map (\<lambda>v. CHR '','' # f v) ws) @ c # s"
  shows "vs = ws \<and> r = s"
  using assms(1,3)
proof (induction vs arbitrary: ws)
  case Nil
  then show ?case using assms(2) by (cases ws) auto
next
  case (Cons v vs)
  show ?case
  proof (cases ws)
    case Nil
    then show ?thesis using Cons.prems(2) assms(2) by auto
  next
    case (Cons w ws')
    have st: "stop (concat (map (\<lambda>v. CHR '','' # f v) us) @ c # t)" for us t
      using assms(2) by (cases us) (auto simp: stop_def)
    have e: "f v @ concat (map (\<lambda>v. CHR '','' # f v) vs) @ c # r
        = f w @ concat (map (\<lambda>v. CHR '','' # f v) ws') @ c # s"
      using Cons.prems(2) Cons by simp
    have h: "v = w \<and> concat (map (\<lambda>v. CHR '','' # f v) vs) @ c # r
        = concat (map (\<lambda>v. CHR '','' # f v) ws') @ c # s"
      by (rule readsD [OF Cons.prems(1) _ _ st st e]) (simp_all add: Cons)
    have "reads f (set vs) (set ws')"
      using Cons.prems(1) by (rule reads_mono) (auto simp: Cons)
    then have "vs = ws' \<and> r = s" using h Cons.IH by blast
    then show ?thesis using h Cons by simp
  qed
qed

lemma join_read:
  assumes "reads f (set vs) (set ws)" "c \<in> set '']}''"
    and first: "\<And>v. v \<in> set vs \<union> set ws \<Longrightarrow> f v \<noteq> [] \<and> hd (f v) \<noteq> c"
    and e: "join '','' (map f vs) @ c # r = join '','' (map f ws) @ c # s"
  shows "vs = ws \<and> r = s"
proof (cases vs)
  case Nil
  show ?thesis
  proof (cases ws)
    case (Cons w ws')
    with e Nil have "c # r = f w @ concat (map (\<lambda>v. CHR '','' # f v) ws') @ c # s"
      using join_text [of f w ws' "c # s"] by simp
    then have "hd (f w) = c" using first [of w] Cons by (cases "f w") auto
    then show ?thesis using first [of w] Cons by simp
  qed (use e Nil in simp)
next
  case vs: (Cons v vs')
  show ?thesis
  proof (cases ws)
    case Nil
    with e vs have "c # s = f v @ concat (map (\<lambda>v. CHR '','' # f v) vs') @ c # r"
      using join_text [of f v vs' "c # r"] by simp
    then have "hd (f v) = c" using first [of v] vs by (cases "f v") auto
    then show ?thesis using first [of v] vs by simp
  next
    case (Cons w ws')
    have "concat (map (\<lambda>v. CHR '','' # f v) vs) @ c # r
        = concat (map (\<lambda>v. CHR '','' # f v) ws) @ c # s"
      using e vs Cons join_text [of f v vs' "c # r"] join_text [of f w ws' "c # s"] by simp
    then show ?thesis by (rule items_read [OF assms(1,2)])
  qed
qed

definition pair_text :: "string \<times> json \<Rightarrow> string" where
  "pair_text kv = json_string (fst kv) @ '':'' @ json_dumps (snd kv)"

lemma json_dumps_canonical:
  "json_dumps (JList vs) = ''['' @ join '','' (map json_dumps vs) @ '']''"
  "sorted (map fst kvs) \<Longrightarrow> json_dumps (JDict kvs) = ''{'' @ join '','' (map pair_text kvs) @ ''}''"
  by (simp_all add: sort_key_sorted pair_text_def [abs_def])

lemma json_dumps_reads:
  "canonical_form v \<Longrightarrow> canonical_form w \<Longrightarrow> stop r \<Longrightarrow> stop s
     \<Longrightarrow> json_dumps v @ r = json_dumps w @ s \<Longrightarrow> v = w \<and> r = s"
proof (induction v arbitrary: w r s rule: canonical_form.induct)
  case (2 vs)
  from json_dumps_same_kind [OF "2.prems"(1,2,5)] obtain ws where w: "w = JList ws"
    by (cases w) (auto split: if_splits)
  have "reads json_dumps (set vs) (set ws)"
    unfolding reads_def
  proof (intro ballI allI impI)
    fix v u t t' assume m: "v \<in> set vs" "u \<in> set ws" and st: "stop t" "stop t'"
      and e: "json_dumps v @ t = json_dumps u @ t'"
    show "v = u \<and> t = t'"
      by (rule "2.IH" [OF m(1) _ _ st e]) (use "2.prems"(1,2) w m in \<open>auto simp: list_all_iff\<close>)
  qed
  moreover have "v \<in> set vs \<union> set ws \<Longrightarrow> json_dumps v \<noteq> [] \<and> hd (json_dumps v) \<noteq> CHR '']''" for v
    using json_dumps_kind [of v] "2.prems"(1,2) w
    by (cases v) (auto simp: list_all_iff json_kind_def int_char_def is_digit_def)
  moreover have "join '','' (map json_dumps vs) @ CHR '']'' # r = join '','' (map json_dumps ws) @ CHR '']'' # s"
    using "2.prems"(5) w by simp
  ultimately show ?case using join_read [of json_dumps vs ws "CHR '']''" r s] w by simp
next
  case (3 kvs)
  from json_dumps_same_kind [OF "3.prems"(1,2,5)] obtain ws where w: "w = JDict ws"
    by (cases w) (auto split: if_splits)
  have "reads pair_text (set kvs) (set ws)"
    unfolding reads_def
  proof (intro ballI allI impI)
    fix kv kw t u assume kv: "kv \<in> set kvs" and kw: "kw \<in> set ws"
      and st: "stop t" "stop u" and e: "pair_text kv @ t = pair_text kw @ u"
    have "fst kv = fst kw \<and> '':'' @ json_dumps (snd kv) @ t = '':'' @ json_dumps (snd kw) @ u"
      using e by (intro json_string_read) (simp add: pair_text_def)
    moreover from this have "snd kv = snd kw \<and> t = u"
      using "3.IH" [OF kv _ _ st] "3.prems"(1,2) w kv kw by (auto simp: list_all_iff)
    ultimately show "kv = kw \<and> t = u" by (simp add: prod_eq_iff)
  qed
  moreover have "join '','' (map pair_text kvs) @ CHR ''}'' # r = join '','' (map pair_text ws) @ CHR ''}'' # s"
    using "3.prems" w json_dumps_canonical(2) [of kvs] json_dumps_canonical(2) [of ws] by simp
  ultimately show ?case
    using join_read [of pair_text kvs ws "CHR ''}''" r s] w
    by (simp add: pair_text_def json_string_def)
next
  case (4 w)
  then show ?case using json_dumps_same_kind [OF "4.prems"(1,2,5)]
    by (cases w) (auto split: if_splits)
next
  case (5 b)
  then show ?case using json_dumps_same_kind [OF "5.prems"(1,2,5)]
    by (cases w) (auto split: if_splits)
next
  case (6 n)
  then show ?case using json_dumps_same_kind [OF "6.prems"(1,2,5)] int_text_read [of n r _ s]
    by (cases w) (auto split: if_splits)
next
  case (7 t)
  then show ?case using json_dumps_same_kind [OF "7.prems"(1,2,5)] json_string_read [of t r _ s]
    by (cases w) (auto split: if_splits)
qed simp

subsection \<open>What canonicalize returns\<close>

text \<open>A Python dictionary has distinct keys, a decimal has a non-negative coefficient.\<close>

fun wf_pyv :: "pyv \<Rightarrow> bool" where
  "wf_pyv (PList vs) = list_all wf_pyv vs"
| "wf_pyv (PSet vs) = list_all (\<lambda>kv. wf_pyv (snd kv)) vs"
| "wf_pyv (PDict kvs) = (distinct (map fst kvs) \<and> list_all (\<lambda>kv. wf_pyv (snd kv)) kvs)"
| "wf_pyv (PDec (Fin d)) = (0 \<le> dcoef d)"
| "wf_pyv _ = True"

lemma rmap_fst:
  "rmap (\<lambda>kv. rbind (g (snd kv)) (\<lambda>w. Inr (fst kv, w))) kvs = Inr ws \<Longrightarrow> map fst ws = map fst kvs"
  by (induction kvs arbitrary: ws) (auto simp: result_simps)

lemma distinct_sort_key: "distinct (map fst kvs) \<Longrightarrow> distinct (map fst (sort_key fst kvs))"
  by (simp add: distinct_map)

lemma canonicalize_canonical_form: "wf_pyv v \<Longrightarrow> canonicalize v = Inr w \<Longrightarrow> canonical_form w"
proof (induction v arbitrary: w rule: canonicalize.induct)
  case (10 kvs)
  from "10.prems"(2) obtain ws where w: "w = JDict ws"
    and ws: "rmap (\<lambda>kv. rbind (canonicalize (snd kv)) (\<lambda>w. Inr (fst kv, w))) (sort_key fst kvs) = Inr ws"
    by (auto simp: result_simps)
  have k: "map fst ws = map fst (sort_key fst kvs)" by (rule rmap_fst [OF ws])
  have "x \<in> set ws \<Longrightarrow> canonical_form (snd x)" for x
    using rmap_member [OF ws, of x] "10.IH" "10.prems"(1) by (auto simp: result_simps list_all_iff)
  then show ?case using k distinct_sort_key [of kvs] "10.prems"(1) by (simp add: w list_all_iff)
next
  case (11 vs)
  from "11.prems"(2) obtain ws where w: "w = JList ws" and ws: "rmap canonicalize vs = Inr ws"
    by (auto simp: result_simps)
  have "x \<in> set ws \<Longrightarrow> canonical_form x" for x
    using rmap_member [OF ws, of x] "11.IH" "11.prems"(1) by (auto simp: list_all_iff)
  then show ?case by (simp add: w list_all_iff)
next
  case (12 vs)
  from "12.prems"(2) obtain ws where w: "w = JList ws"
    and ws: "rmap (\<lambda>kv. canonicalize (snd kv)) (sort_key fst vs) = Inr ws"
    by (auto simp: result_simps)
  have "x \<in> set ws \<Longrightarrow> canonical_form x" for x
    using rmap_member [OF ws, of x] "12.IH" "12.prems"(1) by (auto simp: list_all_iff)
  then show ?case by (simp add: w list_all_iff)
qed auto

text \<open>The values a canonical value stands for as Python objects.\<close>

fun of_json :: "json \<Rightarrow> pyv" where
  "of_json JNull = PNone"
| "of_json (JBool b) = PBool b"
| "of_json (JInt n) = PInt n"
| "of_json (JFloat t) = PFloat t"
| "of_json (JStr s) = PStr s"
| "of_json (JList vs) = PList (map of_json vs)"
| "of_json (JDict kvs) = PDict (map (\<lambda>kv. (fst kv, of_json (snd kv))) kvs)"

lemma sort_key_map_fst: "sort_key fst (map (\<lambda>kv. (fst kv, g (snd kv))) kvs)
    = map (\<lambda>kv. (fst kv, g (snd kv))) (sort_key fst kvs)"
proof -
  have i: "insort_key fst (a, g b) (map (\<lambda>kv. (fst kv, g (snd kv))) xs)
      = map (\<lambda>kv. (fst kv, g (snd kv))) (insort_key fst (a, b) xs)" for a b xs
    by (induction xs) auto
  show ?thesis by (induction kvs) (auto simp: i)
qed

lemma rmap_dict_values:
  "(\<And>kv. kv \<in> set kvs \<Longrightarrow> c (e (snd kv)) = Inr (snd kv))
    \<Longrightarrow> rmap (\<lambda>kv. rbind (c (snd kv)) (\<lambda>w. Inr (fst kv, w))) (map (\<lambda>kv. (fst kv, e (snd kv))) kvs) = Inr kvs"
  by (induction kvs) auto

lemma rmap_list_values:
  "(\<And>v. v \<in> set vs \<Longrightarrow> c (e v) = Inr v) \<Longrightarrow> rmap c (map e vs) = Inr vs"
  by (induction vs) auto

lemma canonicalize_of_json: "canonical_form v \<Longrightarrow> canonicalize (of_json v) = Inr v"
proof (induction v rule: canonical_form.induct)
  case (2 vs)
  then show ?case by (simp add: rmap_list_values list_all_iff)
next
  case (3 kvs)
  then have "rmap (\<lambda>kv. rbind (canonicalize (snd kv)) (\<lambda>w. Inr (fst kv, w)))
      (map (\<lambda>kv. (fst kv, of_json (snd kv))) kvs) = Inr kvs"
    by (intro rmap_dict_values) (auto simp: list_all_iff)
  then show ?case using 3 by (simp add: sort_key_map_fst sort_key_sorted)
qed auto

lemma canonical_json_iff:
  assumes "wf_pyv a" "wf_pyv b" "canonical_json a = Inr t"
  shows "canonical_json b = Inr t \<longleftrightarrow> canonicalize b = canonicalize a"
proof -
  from assms(3) obtain v where v: "canonicalize a = Inr v" "t = json_dumps v"
    by (auto simp: canonical_json_def result_simps)
  have cv: "canonical_form v" using assms(1) v(1) by (rule canonicalize_canonical_form)
  show ?thesis
  proof
    assume "canonical_json b = Inr t"
    then obtain w where w: "canonicalize b = Inr w" "t = json_dumps w"
      by (auto simp: canonical_json_def result_simps)
    have "canonical_form w" using assms(2) w(1) by (rule canonicalize_canonical_form)
    then have "v = w" using json_dumps_reads [OF cv, of w "[]" "[]"] v w by simp
    then show "canonicalize b = canonicalize a" using v w by simp
  qed (use v in \<open>simp add: canonical_json_def\<close>)
qed

text \<open>The order in which a dictionary was filled does not reach its canonical form.\<close>

lemma sort_key_items_cong:
  assumes "mset kvs = mset kvs'" "distinct (map fst kvs)"
  shows "sort_key fst kvs = sort_key fst kvs'"
proof (rule sort_key_inj_key_eq)
  show "mset kvs = mset (sort_key fst kvs')" using assms(1) by simp
  show "inj_on fst (set kvs)" using assms(2) by (simp add: distinct_map)
qed simp

inductive reordered :: "pyv \<Rightarrow> pyv \<Rightarrow> bool" where
  same: "reordered v v"
| items: "list_all2 reordered vs ws \<Longrightarrow> reordered (PList vs) (PList ws)"
| dict: "list_all2 (\<lambda>kv kw. fst kv = fst kw \<and> reordered (snd kv) (snd kw)) kvs kws
    \<Longrightarrow> distinct (map fst kvs) \<Longrightarrow> mset kws = mset kws' \<Longrightarrow> reordered (PDict kvs) (PDict kws')"
monos list_all2_mono

lemma insort_key_all2:
  "list_all2 (\<lambda>kv kw. fst kv = fst kw \<and> R (snd kv) (snd kw)) kvs kws
    \<Longrightarrow> R (snd kv) (snd kw) \<Longrightarrow> fst kv = fst kw
    \<Longrightarrow> list_all2 (\<lambda>kv kw. fst kv = fst kw \<and> R (snd kv) (snd kw))
          (insort_key fst kv kvs) (insort_key fst kw kws)"
  by (induction kvs kws rule: list_all2_induct) auto

lemma sort_key_all2:
  "list_all2 (\<lambda>kv kw. fst kv = fst kw \<and> R (snd kv) (snd kw)) kvs kws
    \<Longrightarrow> list_all2 (\<lambda>kv kw. fst kv = fst kw \<and> R (snd kv) (snd kw)) (sort_key fst kvs) (sort_key fst kws)"
  by (induction kvs kws rule: list_all2_induct) (auto intro: insort_key_all2)

lemma rmap_all2:
  "list_all2 (\<lambda>x y. f x = g y) xs ys \<Longrightarrow> rmap f xs = rmap g ys"
  by (induction xs ys rule: list_all2_induct) auto

lemma canonicalize_reordered: "reordered v w \<Longrightarrow> canonicalize v = canonicalize w"
proof (induction rule: reordered.induct)
  case (items vs ws)
  then show ?case
    using rmap_all2 [of canonicalize canonicalize vs ws] by (simp add: list_all2_mono)
next
  case (dict kvs kws kws')
  let ?c = "\<lambda>kv. rbind (canonicalize (snd kv)) (\<lambda>w. Inr (fst kv, w))"
  have "list_all2 (\<lambda>kv kw. fst kv = fst kw \<and> canonicalize (snd kv) = canonicalize (snd kw)) kvs kws"
    using dict.IH by (rule list_all2_mono) auto
  then have "list_all2 (\<lambda>kv kw. fst kv = fst kw \<and> canonicalize (snd kv) = canonicalize (snd kw))
      (sort_key fst kvs) (sort_key fst kws)"
    using sort_key_all2 [of "\<lambda>v w. canonicalize v = canonicalize w"] by blast
  then have "rmap ?c (sort_key fst kvs) = rmap ?c (sort_key fst kws)"
    by (intro rmap_all2) (auto elim: list_all2_mono)
  moreover have "map fst kvs = map fst kws"
    using dict.IH by (induction kvs kws rule: list_all2_induct) auto
  then have "sort_key fst kws = sort_key fst kws'"
    using dict.hyps by (intro sort_key_items_cong) simp_all
  ultimately show ?case by simp
qed simp

end
