(* ===== verification/Sdk_Hashing.thy ===== *)
theory Sdk_Hashing
  imports Canonical
begin

text \<open>
  \<open>sdk/python/vrl/hashing.py\<close>: the SDK's canonical JSON and its hash functions, and the few
  operations of Python on parsed JSON values the SDK uses (\<open>dict.get\<close>, truth value, \<open>str\<close>,
  \<open>uuid.UUID\<close>).  Values are \<open>json\<close>: what \<open>json.loads\<close> returns, \<open>None\<close> being \<open>JNull\<close>.
\<close>

subsection \<open>canonical\_json\<close>

function sdk_canonical_json :: "json \<Rightarrow> string" where
  "sdk_canonical_json (JDict kvs) = ''{'' @ join '','' (map (\<lambda>kv.
     json_string (fst kv) @ '':'' @ sdk_canonical_json (snd kv)) (sort_key fst kvs)) @ ''}''"
| "sdk_canonical_json (JList vs) = ''['' @ join '','' (map sdk_canonical_json vs) @ '']''"
| "sdk_canonical_json (JStr s) = json_string s"
| "sdk_canonical_json (JBool b) = (if b then ''true'' else ''false'')"
| "sdk_canonical_json JNull = ''null''"
| "sdk_canonical_json (JInt n) = int_text n"
| "sdk_canonical_json (JFloat t) = t"
  by pat_completeness auto
termination by (relation "measure size") (auto intro: size_pair_list size_member)

text \<open>The SDK's own recursion writes the same text as \<open>json.dumps\<close> with sorted keys.\<close>

lemma sdk_canonical_json_dumps: "sdk_canonical_json v = json_dumps v"
proof (induction v rule: sdk_canonical_json.induct)
  case (1 kvs)
  then have "map (\<lambda>kv. json_string (fst kv) @ '':'' @ sdk_canonical_json (snd kv)) (sort_key fst kvs)
      = map (\<lambda>kv. json_string (fst kv) @ '':'' @ json_dumps (snd kv)) (sort_key fst kvs)"
    by (intro map_cong) auto
  then show ?case by (simp only: sdk_canonical_json.simps json_dumps.simps)
next
  case (2 vs)
  then have "map sdk_canonical_json vs = map json_dumps vs" by (intro map_cong) auto
  then show ?case by (simp only: sdk_canonical_json.simps json_dumps.simps)
qed simp_all

subsection \<open>Hash functions\<close>

definition compute_ai_id :: "json \<Rightarrow> json \<Rightarrow> json \<Rightarrow> json \<Rightarrow> json \<Rightarrow> json \<Rightarrow> string" where
  "compute_ai_id model_weights_hash runtime_hash config_hash provider_id model_name model_version =
     sha256_hex (sdk_canonical_json (JDict [
       (''model_weights_hash'', model_weights_hash), (''runtime_hash'', runtime_hash),
       (''config_hash'', config_hash), (''provider_id'', provider_id), (''model_name'', model_name),
       (''model_version'', model_version), (''spec_version'', JStr ''vrl/ai-id/1.0'')]))"

text \<open>String concatenation; operands that are not all strings raise.\<close>

definition concat3 :: "json \<Rightarrow> json \<Rightarrow> json \<Rightarrow> string result" where
  "concat3 a b c = (case (a, b, c) of (JStr x, JStr y, JStr z) \<Rightarrow> Inr (x @ y @ z) | _ \<Rightarrow> Inl TypeError)"

definition compute_integrity_hash :: "json \<Rightarrow> json \<Rightarrow> json \<Rightarrow> string result" where
  "compute_integrity_hash input_hash output_hash trace_hash =
     rbind (concat3 input_hash output_hash trace_hash) (\<lambda>s. Inr (sha256_hex s))"

definition compute_proof_hash :: "json \<Rightarrow> json \<Rightarrow> json \<Rightarrow> json \<Rightarrow> json \<Rightarrow> string" where
  "compute_proof_hash circuit_hash proof_bytes public_inputs proof_system trace_hash =
     (let public_inputs_hash = sha256_hex (sdk_canonical_json public_inputs) in
      sha256_hex (sdk_canonical_json (JDict [
        (''circuit_hash'', circuit_hash), (''proof_bytes'', proof_bytes),
        (''proof_system'', proof_system), (''public_inputs'', public_inputs),
        (''public_inputs_hash'', JStr public_inputs_hash), (''trace_hash'', trace_hash)])))"

definition compute_input_hash :: "json \<Rightarrow> string" where
  "compute_input_hash inputs_object = sha256_hex (sdk_canonical_json inputs_object)"

definition compute_output_hash :: "json \<Rightarrow> string" where
  "compute_output_hash outputs_object = sha256_hex (sdk_canonical_json outputs_object)"

definition compute_trace_hash :: "json \<Rightarrow> string" where
  "compute_trace_hash trace_steps = sha256_hex (sdk_canonical_json trace_steps)"

definition compute_commitment_hash :: "json \<Rightarrow> json \<Rightarrow> json \<Rightarrow> json \<Rightarrow> json \<Rightarrow> string" where
  "compute_commitment_hash dataset_id dataset_version dataset_hash provider_id committed_at =
     sha256_hex (sdk_canonical_json (JDict [
       (''committed_at'', committed_at), (''dataset_hash'', dataset_hash), (''dataset_id'', dataset_id),
       (''dataset_version'', dataset_version), (''provider_id'', provider_id)]))"

definition compute_bundle_id_from_integrity :: "json \<Rightarrow> string result" where
  "compute_bundle_id_from_integrity integrity_hash = (case integrity_hash of
       JStr s \<Rightarrow> Inr (uuid5 vrl_namespace s) | _ \<Rightarrow> Inl TypeError)"

subsection \<open>Python on JSON values\<close>

type_synonym items = "(string \<times> json) list"

definition dict_get :: "items \<Rightarrow> string \<Rightarrow> json" where
  "dict_get kvs k = (case map_of kvs k of Some v \<Rightarrow> v | None \<Rightarrow> JNull)"

fun truthy :: "json \<Rightarrow> bool" where
  "truthy JNull = False"
| "truthy (JBool b) = b"
| "truthy (JInt n) = (n \<noteq> 0)"
| "truthy (JFloat t) = (t \<noteq> ''0.0'' \<and> t \<noteq> ''-0.0'')"
| "truthy (JStr s) = (s \<noteq> [])"
| "truthy (JList vs) = (vs \<noteq> [])"
| "truthy (JDict kvs) = (kvs \<noteq> [])"

text \<open>\<open>x in {strings}\<close>: a list or dictionary is not hashable.\<close>

fun in_strings :: "json \<Rightarrow> string list \<Rightarrow> bool result" where
  "in_strings (JStr s) ss = Inr (s \<in> set ss)"
| "in_strings (JList _) ss = Inl TypeError"
| "in_strings (JDict _) ss = Inl TypeError"
| "in_strings _ ss = Inr False"

text \<open>\<open>for x in v\<close>: a list gives its items, a string its characters, a dictionary its keys.\<close>

fun iterate :: "json \<Rightarrow> json list result" where
  "iterate (JList vs) = Inr vs"
| "iterate (JStr s) = Inr (map (\<lambda>c. JStr [c]) s)"
| "iterate (JDict kvs) = Inr (map (\<lambda>kv. JStr (fst kv)) kvs)"
| "iterate _ = Inl TypeError"

definition repr_char :: "char \<Rightarrow> char \<Rightarrow> string" where
  "repr_char q c = (let n = (of_char c :: int) in
     if c = q \<or> n = 92 then [CHR 0x5C, c]
     else if n = 10 then [CHR 0x5C, CHR ''n''] else if n = 13 then [CHR 0x5C, CHR ''r'']
     else if n = 9 then [CHR 0x5C, CHR ''t'']
     else if n < 32 \<or> (127 \<le> n \<and> n \<le> 160) \<or> n = 173 then CHR 0x5C # CHR ''x'' # hex_text 2 n
     else [c])"

definition repr_string :: "string \<Rightarrow> string" where
  "repr_string s = (let q = (if CHR 0x27 \<in> set s \<and> CHR 0x22 \<notin> set s then CHR 0x22 else CHR 0x27) in
     q # concat (map (repr_char q) s) @ [q])"

fun json_repr :: "json \<Rightarrow> string" where
  "json_repr JNull = ''None''"
| "json_repr (JBool b) = (if b then ''True'' else ''False'')"
| "json_repr (JInt n) = int_text n"
| "json_repr (JFloat t) = t"
| "json_repr (JStr s) = repr_string s"
| "json_repr (JList vs) = ''['' @ join '', '' (map json_repr vs) @ '']''"
| "json_repr (JDict kvs) = ''{'' @ join '', ''
     (map (\<lambda>kv. repr_string (fst kv) @ '': '' @ json_repr (snd kv)) kvs) @ ''}''"

definition json_str :: "json \<Rightarrow> string" where
  "json_str v = (case v of JStr s \<Rightarrow> s | _ \<Rightarrow> json_repr v)"

text \<open>\<open>uuid.UUID(text)\<close> succeeds on 32 hexadecimal digits after the decorations are removed.\<close>

definition uuid_digits :: "string \<Rightarrow> string" where
  "uuid_digits s = (let t = py_replace ''uuid:'' [] (py_replace ''urn:'' [] s);
       brace = (\<lambda>c. c \<in> set ''{}'')
     in py_replace ''-'' [] (rev (dropWhile brace (rev (dropWhile brace t)))))"

definition uuid_ok :: "string \<Rightarrow> bool" where
  "uuid_ok s = (let h = uuid_digits s in
     length h = 32 \<and> (case py_int16 h of Some n \<Rightarrow> 0 \<le> n | None \<Rightarrow> False))"

text \<open>\<open>\_is\_valid\_hex\_hash\<close>, written three times in the repository (\<open>identity.py\<close>,
  \<open>verifier.py\<close>, \<open>vrl_verify.py\<close>): 64 characters, an integer in base 16 for \<open>int\<close>, equal to
  its lower-case form.\<close>

definition is_valid_hex_hash :: "json \<Rightarrow> bool" where
  "is_valid_hex_hash v = (case v of
       JStr s \<Rightarrow> if length s \<noteq> 64 then False
         else (case py_int16 s of Some n \<Rightarrow> s = py_lower s | None \<Rightarrow> False)
     | _ \<Rightarrow> False)"

lemma valid_hash_digest [simp]: "is_valid_hex_hash (JStr (sha256_hex s))"
  using sha.digest_int16 sha.digest_lower sha.digest_length
  by (simp add: is_valid_hex_hash_def)

lemma valid_hash_string: "is_valid_hex_hash v \<Longrightarrow> \<exists>s. v = JStr s \<and> length s = 64 \<and> py_lower s = s"
  by (auto simp: is_valid_hex_hash_def split: json.splits if_splits option.splits)

lemma valid_hash_hex: "all_lower_hex s \<Longrightarrow> length s = 64 \<Longrightarrow> is_valid_hex_hash (JStr s)"
  using py_int16_lower_hex [of s] all_lower_hex_lower [of s] by (cases "s = []") (simp_all add: is_valid_hex_hash_def)

lemma valid_hash_prefixed: "all_lower_hex s \<Longrightarrow> length s = 62 \<Longrightarrow> is_valid_hex_hash (JStr (''0x'' @ s))"
proof -
  assume h: "all_lower_hex s" "length s = 62"
  have "py_lower (''0x'' @ s) = ''0x'' @ s"
    using all_lower_hex_lower [OF h(1)] by (simp add: py_lower_def lower_char_def)
  then show ?thesis using py_int16_prefixed [OF h(1)] h(2)
    by (cases "s = []") (simp_all add: is_valid_hex_hash_def)
qed

subsection \<open>What the hashes bind\<close>

lemma json_dumps_inj: "canonical_form v \<Longrightarrow> canonical_form w \<Longrightarrow> json_dumps v = json_dumps w \<Longrightarrow> v = w"
  using json_dumps_reads [of v w "[]" "[]"] by simp

definition proof_text :: "string \<Rightarrow> json \<Rightarrow> json \<Rightarrow> string \<Rightarrow> string \<Rightarrow> string" where
  "proof_text c b i s t = json_dumps (JDict [
     (''circuit_hash'', JStr c), (''proof_bytes'', b), (''proof_system'', JStr s), (''public_inputs'', i),
     (''public_inputs_hash'', JStr (compute_input_hash i)), (''trace_hash'', JStr t)])"

lemma proof_hash_text: "compute_proof_hash (JStr c) b i (JStr s) (JStr t) = sha256_hex (proof_text c b i s t)"
  by (simp only: compute_proof_hash_def proof_text_def sdk_canonical_json_dumps Let_def compute_input_hash_def)

lemma proof_text_inj:
  assumes "proof_text c b i s t = proof_text c' b' i' s' t'"
    and "canonical_form b" "canonical_form i" "canonical_form b'" "canonical_form i'"
  shows "c = c' \<and> b = b' \<and> i = i' \<and> s = s' \<and> t = t'"
proof -
  have "JDict [(''circuit_hash'', JStr c), (''proof_bytes'', b), (''proof_system'', JStr s), (''public_inputs'', i),
     (''public_inputs_hash'', JStr (compute_input_hash i)), (''trace_hash'', JStr t)]
    = JDict [(''circuit_hash'', JStr c'), (''proof_bytes'', b'), (''proof_system'', JStr s'), (''public_inputs'', i'),
     (''public_inputs_hash'', JStr (compute_input_hash i')), (''trace_hash'', JStr t')]"
    using assms unfolding proof_text_def by (intro json_dumps_inj) simp_all
  then show ?thesis by simp
qed

lemma concat3_split:
  "length x = 64 \<Longrightarrow> length y = 64 \<Longrightarrow> length x' = 64 \<Longrightarrow> length y' = 64
    \<Longrightarrow> x @ y @ z = x' @ y' @ z' \<longleftrightarrow> x = x' \<and> y = y' \<and> z = z'"
  by simp

end
