(* ===== verification/Sdk_Bundle.thy ===== *)
theory Sdk_Bundle
  imports Sdk_Hashing
begin

text \<open>
  \<open>sdk/python/vrl/identity.py\<close> (\<open>AIIdentity\<close>) and \<open>sdk/python/vrl/bundle.py\<close>: the parts of a
  proof bundle with \<open>to_dict\<close> and \<open>from_dict\<close>.  Python does not check the annotated types of
  dataclass fields, so a field holds any JSON value; \<open>None\<close> is \<open>JNull\<close>.  \<open>from_dict\<close> of a
  value that is not a dictionary raises AttributeError at \<open>data.keys()\<close> or \<open>data.get\<close>.
\<close>

subsection \<open>Dictionaries\<close>

definition omit_none :: "items \<Rightarrow> items" where
  "omit_none kvs = filter (\<lambda>kv. snd kv \<noteq> JNull) kvs"

definition has_keys :: "string list \<Rightarrow> items \<Rightarrow> bool" where
  "has_keys ks kvs \<longleftrightarrow> list_all (\<lambda>k. k \<in> set (map fst kvs)) ks"

definition dict_items :: "json \<Rightarrow> items result" where
  "dict_items v = (case v of JDict kvs \<Rightarrow> Inr kvs | _ \<Rightarrow> Inl AttributeError)"

definition required_items :: "string list \<Rightarrow> string \<Rightarrow> json \<Rightarrow> items result" where
  "required_items ks msg v = rbind (dict_items v) (\<lambda>kvs.
     if has_keys ks kvs then Inr kvs else Inl (ValueError msg))"

text \<open>\<open>C(**data)\<close>: exactly the named arguments, else TypeError.\<close>

definition keyword_items :: "string list \<Rightarrow> json \<Rightarrow> items result" where
  "keyword_items ks v = (case v of
       JDict kvs \<Rightarrow> if has_keys ks kvs \<and> list_all (\<lambda>kv. fst kv \<in> set ks) kvs then Inr kvs else Inl TypeError
     | _ \<Rightarrow> Inl TypeError)"

subsection \<open>AIIdentity\<close>

record ai_identity =
  id_ai_id :: json
  id_model_name :: json
  id_model_version :: json
  id_provider_id :: json
  id_execution_environment :: json
  id_provider_signature :: json
  id_tee_attestation_report :: json
  id_parent_ai_id :: json

definition identity_to_dict :: "ai_identity \<Rightarrow> json" where
  "identity_to_dict i = JDict (omit_none [
     (''ai_id'', id_ai_id i), (''model_name'', id_model_name i), (''model_version'', id_model_version i),
     (''provider_id'', id_provider_id i), (''execution_environment'', id_execution_environment i),
     (''provider_signature'', id_provider_signature i),
     (''tee_attestation_report'', id_tee_attestation_report i), (''parent_ai_id'', id_parent_ai_id i)])"

definition valid_envs :: "string list" where
  "valid_envs = [''deterministic'', ''tee'', ''zk-ml'', ''api-attested'', ''unattested'']"

definition identity_from_dict :: "json \<Rightarrow> ai_identity result" where
  "identity_from_dict data =
     rbind (required_items [''ai_id'', ''model_name'', ''model_version'', ''provider_id'', ''execution_environment'']
       ''Missing required fields'' data) (\<lambda>d.
     if \<not> is_valid_hex_hash (dict_get d ''ai_id'') then Inl (ValueError ''Invalid ai_id format'')
     else rbind (in_strings (dict_get d ''execution_environment'') valid_envs) (\<lambda>ok.
       if \<not> ok then Inl (ValueError ''Invalid execution_environment'')
       else Inr \<lparr>id_ai_id = dict_get d ''ai_id'', id_model_name = dict_get d ''model_name'',
         id_model_version = dict_get d ''model_version'', id_provider_id = dict_get d ''provider_id'',
         id_execution_environment = dict_get d ''execution_environment'',
         id_provider_signature = dict_get d ''provider_signature'',
         id_tee_attestation_report = dict_get d ''tee_attestation_report'',
         id_parent_ai_id = dict_get d ''parent_ai_id''\<rparr>))"

subsection \<open>Computation\<close>

record computation =
  co_circuit_id :: json
  co_circuit_version :: json
  co_circuit_hash :: json
  co_input_hash :: json
  co_output_hash :: json
  co_trace_hash :: json
  co_integrity_hash :: json

definition computation_to_dict :: "computation \<Rightarrow> json" where
  "computation_to_dict c = JDict [
     (''circuit_id'', co_circuit_id c), (''circuit_version'', co_circuit_version c),
     (''circuit_hash'', co_circuit_hash c), (''input_hash'', co_input_hash c),
     (''output_hash'', co_output_hash c), (''trace_hash'', co_trace_hash c),
     (''integrity_hash'', co_integrity_hash c)]"

definition computation_from_dict :: "json \<Rightarrow> computation result" where
  "computation_from_dict data =
     rbind (required_items [''circuit_id'', ''circuit_version'', ''circuit_hash'', ''input_hash'',
       ''output_hash'', ''trace_hash'', ''integrity_hash''] ''Missing required computation fields'' data) (\<lambda>d.
     Inr \<lparr>co_circuit_id = dict_get d ''circuit_id'', co_circuit_version = dict_get d ''circuit_version'',
       co_circuit_hash = dict_get d ''circuit_hash'', co_input_hash = dict_get d ''input_hash'',
       co_output_hash = dict_get d ''output_hash'', co_trace_hash = dict_get d ''trace_hash'',
       co_integrity_hash = dict_get d ''integrity_hash''\<rparr>)"

subsection \<open>Proof\<close>

record proof_part =
  pf_proof_system :: json
  pf_proof_bytes :: json
  pf_public_inputs :: json
  pf_verification_key_id :: json
  pf_proof_hash :: json
  pf_commitments :: json

definition proof_to_dict :: "proof_part \<Rightarrow> json" where
  "proof_to_dict p = JDict (omit_none [
     (''proof_system'', pf_proof_system p), (''proof_bytes'', pf_proof_bytes p),
     (''public_inputs'', pf_public_inputs p), (''verification_key_id'', pf_verification_key_id p),
     (''proof_hash'', pf_proof_hash p), (''commitments'', pf_commitments p)])"

definition valid_systems :: "string list" where
  "valid_systems = [''plonk-halo2-pasta'', ''plonk-halo2-bn254'', ''groth16-bn254'', ''stark'', ''zk-ml'',
     ''tee-intel-tdx'', ''tee-amd-sev-snp'', ''tee-aws-nitro'', ''sha256-deterministic'', ''api-hash-binding'']"

definition proof_from_dict :: "json \<Rightarrow> proof_part result" where
  "proof_from_dict data =
     rbind (required_items [''proof_system'', ''proof_bytes'', ''public_inputs'', ''verification_key_id'',
       ''proof_hash''] ''Missing required proof fields'' data) (\<lambda>d.
     rbind (in_strings (dict_get d ''proof_system'') valid_systems) (\<lambda>ok.
       if \<not> ok then Inl (ValueError ''Invalid proof_system'')
       else Inr \<lparr>pf_proof_system = dict_get d ''proof_system'', pf_proof_bytes = dict_get d ''proof_bytes'',
         pf_public_inputs = dict_get d ''public_inputs'',
         pf_verification_key_id = dict_get d ''verification_key_id'',
         pf_proof_hash = dict_get d ''proof_hash'', pf_commitments = dict_get d ''commitments''\<rparr>))"

subsection \<open>DataCommitment\<close>

record data_commitment =
  dc_dataset_id :: json
  dc_dataset_version :: json
  dc_dataset_hash :: json
  dc_provider_id :: json
  dc_committed_at :: json
  dc_commitment_hash :: json
  dc_provider_signature :: json

definition commitment_to_dict :: "data_commitment \<Rightarrow> json" where
  "commitment_to_dict c = JDict (omit_none [
     (''dataset_id'', dc_dataset_id c), (''dataset_version'', dc_dataset_version c),
     (''dataset_hash'', dc_dataset_hash c), (''provider_id'', dc_provider_id c),
     (''committed_at'', dc_committed_at c), (''commitment_hash'', dc_commitment_hash c),
     (''provider_signature'', dc_provider_signature c)])"

definition commitment_from_dict :: "json \<Rightarrow> data_commitment result" where
  "commitment_from_dict data =
     rbind (required_items [''dataset_id'', ''dataset_version'', ''dataset_hash'', ''provider_id'',
       ''committed_at'', ''commitment_hash''] ''Missing required data commitment fields'' data) (\<lambda>d.
     Inr \<lparr>dc_dataset_id = dict_get d ''dataset_id'', dc_dataset_version = dict_get d ''dataset_version'',
       dc_dataset_hash = dict_get d ''dataset_hash'', dc_provider_id = dict_get d ''provider_id'',
       dc_committed_at = dict_get d ''committed_at'', dc_commitment_hash = dict_get d ''commitment_hash'',
       dc_provider_signature = dict_get d ''provider_signature''\<rparr>)"

subsection \<open>Legal\<close>

record timestamp_authority =
  ta_tsa_token :: json
  ta_tsa_provider :: json
  ta_tsa_hash_algorithm :: json

definition timestamp_to_dict :: "timestamp_authority \<Rightarrow> json" where
  "timestamp_to_dict t = JDict [(''tsa_token'', ta_tsa_token t), (''tsa_provider'', ta_tsa_provider t),
     (''tsa_hash_algorithm'', ta_tsa_hash_algorithm t)]"

definition timestamp_from_dict :: "json \<Rightarrow> timestamp_authority result" where
  "timestamp_from_dict data =
     rbind (keyword_items [''tsa_token'', ''tsa_provider'', ''tsa_hash_algorithm''] data) (\<lambda>d.
     Inr \<lparr>ta_tsa_token = dict_get d ''tsa_token'', ta_tsa_provider = dict_get d ''tsa_provider'',
       ta_tsa_hash_algorithm = dict_get d ''tsa_hash_algorithm''\<rparr>)"

record immutable_anchor =
  an_chain :: json
  an_tx_hash :: json
  an_block_number :: json
  an_anchored_at :: json

definition anchor_to_dict :: "immutable_anchor \<Rightarrow> json" where
  "anchor_to_dict a = JDict [(''chain'', an_chain a), (''tx_hash'', an_tx_hash a),
     (''block_number'', an_block_number a), (''anchored_at'', an_anchored_at a)]"

definition anchor_from_dict :: "json \<Rightarrow> immutable_anchor result" where
  "anchor_from_dict data =
     rbind (keyword_items [''chain'', ''tx_hash'', ''block_number'', ''anchored_at''] data) (\<lambda>d.
     Inr \<lparr>an_chain = dict_get d ''chain'', an_tx_hash = dict_get d ''tx_hash'',
       an_block_number = dict_get d ''block_number'', an_anchored_at = dict_get d ''anchored_at''\<rparr>)"

record legal =
  lg_jurisdictions :: json
  lg_admissibility_standard :: json
  lg_compliance_flags :: json
  lg_timestamp_authority :: "timestamp_authority option"
  lg_immutable_anchor :: "immutable_anchor option"

definition legal_to_dict :: "legal \<Rightarrow> json" where
  "legal_to_dict l = JDict (omit_none ([
     (''jurisdictions'', lg_jurisdictions l), (''admissibility_standard'', lg_admissibility_standard l),
     (''compliance_flags'', lg_compliance_flags l)]
     @ (case lg_timestamp_authority l of Some t \<Rightarrow> [(''timestamp_authority'', timestamp_to_dict t)] | None \<Rightarrow> [])
     @ (case lg_immutable_anchor l of Some a \<Rightarrow> [(''immutable_anchor'', anchor_to_dict a)] | None \<Rightarrow> [])))"

text \<open>An optional part: absent or falsy gives \<open>None\<close>, otherwise it is parsed.\<close>

definition optional_part :: "(json \<Rightarrow> 'a result) \<Rightarrow> json \<Rightarrow> 'a option result" where
  "optional_part parse v = (if truthy v then rbind (parse v) (\<lambda>x. Inr (Some x)) else Inr None)"

definition legal_from_dict :: "json \<Rightarrow> legal result" where
  "legal_from_dict data = rbind (dict_items data) (\<lambda>d.
     rbind (optional_part timestamp_from_dict (dict_get d ''timestamp_authority'')) (\<lambda>tsa.
     rbind (optional_part anchor_from_dict (dict_get d ''immutable_anchor'')) (\<lambda>anchor.
     Inr \<lparr>lg_jurisdictions = dict_get d ''jurisdictions'',
       lg_admissibility_standard = dict_get d ''admissibility_standard'',
       lg_compliance_flags = dict_get d ''compliance_flags'',
       lg_timestamp_authority = tsa, lg_immutable_anchor = anchor\<rparr>)))"

subsection \<open>ProofGraph and TrustContext\<close>

record proof_graph =
  pg_depends_on :: json
  pg_produced_by :: json
  pg_causal_depth :: json
  pg_graph_root_hash :: json
  pg_privacy_tier :: json

definition graph_to_dict :: "proof_graph \<Rightarrow> json" where
  "graph_to_dict g = JDict (omit_none [(''depends_on'', pg_depends_on g), (''produced_by'', pg_produced_by g),
     (''causal_depth'', pg_causal_depth g), (''graph_root_hash'', pg_graph_root_hash g),
     (''privacy_tier'', pg_privacy_tier g)])"

definition graph_from_dict :: "json \<Rightarrow> proof_graph result" where
  "graph_from_dict data = rbind (dict_items data) (\<lambda>d.
     Inr \<lparr>pg_depends_on = dict_get d ''depends_on'', pg_produced_by = dict_get d ''produced_by'',
       pg_causal_depth = dict_get d ''causal_depth'', pg_graph_root_hash = dict_get d ''graph_root_hash'',
       pg_privacy_tier = dict_get d ''privacy_tier''\<rparr>)"

record trust_context =
  tc_prover_id :: json
  tc_prover_version :: json
  tc_trust_score_at_issuance :: json
  tc_circuit_certification_tier :: json
  tc_anomaly_flags :: json

definition trust_to_dict :: "trust_context \<Rightarrow> json" where
  "trust_to_dict t = JDict (omit_none [(''prover_id'', tc_prover_id t), (''prover_version'', tc_prover_version t),
     (''trust_score_at_issuance'', tc_trust_score_at_issuance t),
     (''circuit_certification_tier'', tc_circuit_certification_tier t),
     (''anomaly_flags'', tc_anomaly_flags t)])"

definition trust_from_dict :: "json \<Rightarrow> trust_context result" where
  "trust_from_dict data = rbind (dict_items data) (\<lambda>d.
     Inr \<lparr>tc_prover_id = dict_get d ''prover_id'', tc_prover_version = dict_get d ''prover_version'',
       tc_trust_score_at_issuance = dict_get d ''trust_score_at_issuance'',
       tc_circuit_certification_tier = dict_get d ''circuit_certification_tier'',
       tc_anomaly_flags = dict_get d ''anomaly_flags''\<rparr>)"

subsection \<open>ProofBundle\<close>

record proof_bundle =
  pb_vrl_version :: json
  pb_bundle_id :: json
  pb_issued_at :: json
  pb_ai_identity :: ai_identity
  pb_computation :: computation
  pb_proof :: proof_part
  pb_data_commitments :: "data_commitment list option"
  pb_legal :: "legal option"
  pb_proof_graph :: "proof_graph option"
  pb_trust_context :: "trust_context option"

definition bundle_items :: "proof_bundle \<Rightarrow> items" where
  "bundle_items b = [
     (''vrl_version'', pb_vrl_version b), (''bundle_id'', pb_bundle_id b), (''issued_at'', pb_issued_at b),
     (''ai_identity'', identity_to_dict (pb_ai_identity b)),
     (''computation'', computation_to_dict (pb_computation b)), (''proof'', proof_to_dict (pb_proof b))]
   @ (case pb_data_commitments b of
        Some (c # cs) \<Rightarrow> [(''data_commitments'', JList (map commitment_to_dict (c # cs)))] | _ \<Rightarrow> [])
   @ (case pb_legal b of Some l \<Rightarrow> [(''legal'', legal_to_dict l)] | None \<Rightarrow> [])
   @ (case pb_proof_graph b of Some g \<Rightarrow> [(''proof_graph'', graph_to_dict g)] | None \<Rightarrow> [])
   @ (case pb_trust_context b of Some t \<Rightarrow> [(''trust_context'', trust_to_dict t)] | None \<Rightarrow> [])"

definition bundle_to_dict :: "proof_bundle \<Rightarrow> json" where
  "bundle_to_dict b = JDict (bundle_items b)"

text \<open>\<open>to_json()\<close> in its compact form.\<close>

definition bundle_to_json :: "proof_bundle \<Rightarrow> string" where
  "bundle_to_json b = sdk_canonical_json (bundle_to_dict b)"

definition commitments_from :: "json \<Rightarrow> data_commitment list result" where
  "commitments_from v = rbind (iterate v) (rmap commitment_from_dict)"

definition bundle_from_dict :: "json \<Rightarrow> proof_bundle result" where
  "bundle_from_dict data =
     rbind (required_items [''vrl_version'', ''bundle_id'', ''issued_at'', ''ai_identity'', ''computation'', ''proof'']
       ''Missing required bundle fields'' data) (\<lambda>d.
     if dict_get d ''vrl_version'' \<noteq> JStr ''1.0'' then Inl (ValueError ''Unsupported vrl_version'')
     else
     rbind (identity_from_dict (dict_get d ''ai_identity'')) (\<lambda>i.
     rbind (computation_from_dict (dict_get d ''computation'')) (\<lambda>c.
     rbind (proof_from_dict (dict_get d ''proof'')) (\<lambda>p.
     rbind (optional_part commitments_from (dict_get d ''data_commitments'')) (\<lambda>dcs.
     rbind (optional_part legal_from_dict (dict_get d ''legal'')) (\<lambda>l.
     rbind (optional_part graph_from_dict (dict_get d ''proof_graph'')) (\<lambda>g.
     rbind (optional_part trust_from_dict (dict_get d ''trust_context'')) (\<lambda>t.
     Inr \<lparr>pb_vrl_version = dict_get d ''vrl_version'', pb_bundle_id = dict_get d ''bundle_id'',
       pb_issued_at = dict_get d ''issued_at'', pb_ai_identity = i, pb_computation = c, pb_proof = p,
       pb_data_commitments = dcs, pb_legal = l, pb_proof_graph = g, pb_trust_context = t\<rparr>))))))))"

subsection \<open>Parsing what was written\<close>

lemma dict_get_Cons [simp]: "dict_get ((k, v) # kvs) k' = (if k = k' then v else dict_get kvs k')"
  by (simp add: dict_get_def)

lemma dict_get_Nil [simp]: "dict_get [] k = JNull"
  by (simp add: dict_get_def)

lemma dict_get_absent: "k \<notin> set (map fst kvs) \<Longrightarrow> dict_get kvs k = JNull"
  by (induction kvs) auto

lemma dict_get_append:
  "dict_get (kvs @ kws) k = (if k \<in> set (map fst kvs) then dict_get kvs k else dict_get kws k)"
proof (induction kvs)
  case (Cons kv kvs)
  then show ?case by (cases kv) simp
qed simp

lemma dict_get_omit_none: "distinct (map fst kvs) \<Longrightarrow> dict_get (omit_none kvs) k = dict_get kvs k"
proof (induction kvs)
  case (Cons kv kvs)
  then have "fst kv \<notin> set (map fst kvs)" by simp
  moreover from this have "fst kv \<notin> set (map fst (omit_none kvs))" by (auto simp: omit_none_def)
  ultimately show ?case using Cons
    by (cases kv) (auto simp: omit_none_def dict_get_absent)
qed (simp add: omit_none_def)

lemma has_keys_omit_none:
  assumes "list_all (\<lambda>k. dict_get kvs k \<noteq> JNull) ks" "distinct (map fst kvs)"
  shows "has_keys ks (omit_none kvs)"
  unfolding has_keys_def list_all_iff
proof
  fix k assume "k \<in> set ks"
  then have "dict_get (omit_none kvs) k \<noteq> JNull"
    using assms by (simp add: dict_get_omit_none list_all_iff)
  then show "k \<in> set (map fst (omit_none kvs))" using dict_get_absent by blast
qed

lemma required_items_omit_none:
  "list_all (\<lambda>k. dict_get kvs k \<noteq> JNull) ks \<Longrightarrow> distinct (map fst kvs)
    \<Longrightarrow> required_items ks msg (JDict (omit_none kvs)) = Inr (omit_none kvs)"
  by (simp add: required_items_def dict_items_def has_keys_omit_none)

definition identity_storable :: "ai_identity \<Rightarrow> bool" where
  "identity_storable i \<longleftrightarrow> is_valid_hex_hash (id_ai_id i)
     \<and> in_strings (id_execution_environment i) valid_envs = Inr True
     \<and> id_model_name i \<noteq> JNull \<and> id_model_version i \<noteq> JNull \<and> id_provider_id i \<noteq> JNull"

lemma is_valid_hex_hash_JNull [simp]: "\<not> is_valid_hex_hash JNull"
  by (simp add: is_valid_hex_hash_def)

lemma identity_round_trip: "identity_storable i \<Longrightarrow> identity_from_dict (identity_to_dict i) = Inr i"
  unfolding identity_from_dict_def identity_to_dict_def identity_storable_def
  by (subst required_items_omit_none) (auto simp: dict_get_omit_none)

lemma computation_round_trip: "computation_from_dict (computation_to_dict c) = Inr c"
  by (simp add: computation_from_dict_def computation_to_dict_def required_items_def dict_items_def has_keys_def)

definition proof_storable :: "proof_part \<Rightarrow> bool" where
  "proof_storable p \<longleftrightarrow> in_strings (pf_proof_system p) valid_systems = Inr True
     \<and> pf_proof_bytes p \<noteq> JNull \<and> pf_public_inputs p \<noteq> JNull \<and> pf_verification_key_id p \<noteq> JNull
     \<and> pf_proof_hash p \<noteq> JNull"

lemma proof_round_trip: "proof_storable p \<Longrightarrow> proof_from_dict (proof_to_dict p) = Inr p"
  unfolding proof_from_dict_def proof_to_dict_def proof_storable_def
  by (subst required_items_omit_none) (auto simp: dict_get_omit_none)

definition commitment_storable :: "data_commitment \<Rightarrow> bool" where
  "commitment_storable c \<longleftrightarrow> dc_dataset_id c \<noteq> JNull \<and> dc_dataset_version c \<noteq> JNull
     \<and> dc_dataset_hash c \<noteq> JNull \<and> dc_provider_id c \<noteq> JNull \<and> dc_committed_at c \<noteq> JNull
     \<and> dc_commitment_hash c \<noteq> JNull"

lemma commitment_round_trip: "commitment_storable c \<Longrightarrow> commitment_from_dict (commitment_to_dict c) = Inr c"
  unfolding commitment_from_dict_def commitment_to_dict_def commitment_storable_def
  by (subst required_items_omit_none) (auto simp: dict_get_omit_none)

lemma timestamp_round_trip: "timestamp_from_dict (timestamp_to_dict t) = Inr t"
  by (simp add: timestamp_from_dict_def timestamp_to_dict_def keyword_items_def has_keys_def)

lemma anchor_round_trip: "anchor_from_dict (anchor_to_dict a) = Inr a"
  by (simp add: anchor_from_dict_def anchor_to_dict_def keyword_items_def has_keys_def)

lemma optional_part_round_trip:
  "optional_part parse (case x of Some y \<Rightarrow> write y | None \<Rightarrow> JNull) = Inr x"
  if "\<And>y. x = Some y \<Longrightarrow> truthy (write y) \<and> parse (write y) = Inr y"
  using that by (cases x) (simp_all add: optional_part_def)

lemma legal_round_trip: "legal_from_dict (legal_to_dict l) = Inr l"
proof -
  define kvs where "kvs = [
     (''jurisdictions'', lg_jurisdictions l), (''admissibility_standard'', lg_admissibility_standard l),
     (''compliance_flags'', lg_compliance_flags l)]
     @ (case lg_timestamp_authority l of Some t \<Rightarrow> [(''timestamp_authority'', timestamp_to_dict t)] | None \<Rightarrow> [])
     @ (case lg_immutable_anchor l of Some a \<Rightarrow> [(''immutable_anchor'', anchor_to_dict a)] | None \<Rightarrow> [])"
  have d: "distinct (map fst kvs)" by (simp add: kvs_def split: option.splits)
  have g: "dict_get kvs ''timestamp_authority''
      = (case lg_timestamp_authority l of Some t \<Rightarrow> timestamp_to_dict t | None \<Rightarrow> JNull)"
    "dict_get kvs ''immutable_anchor''
      = (case lg_immutable_anchor l of Some a \<Rightarrow> anchor_to_dict a | None \<Rightarrow> JNull)"
    "dict_get kvs ''jurisdictions'' = lg_jurisdictions l"
    "dict_get kvs ''admissibility_standard'' = lg_admissibility_standard l"
    "dict_get kvs ''compliance_flags'' = lg_compliance_flags l"
    by (simp_all add: kvs_def split: option.splits)
  have w: "legal_to_dict l = JDict (omit_none kvs)" unfolding legal_to_dict_def kvs_def ..
  have t: "truthy (timestamp_to_dict u)" "truthy (anchor_to_dict v)" for u v
    by (simp_all add: timestamp_to_dict_def anchor_to_dict_def)
  have o: "optional_part timestamp_from_dict
      (case lg_timestamp_authority l of Some t \<Rightarrow> timestamp_to_dict t | None \<Rightarrow> JNull) = Inr (lg_timestamp_authority l)"
    "optional_part anchor_from_dict
      (case lg_immutable_anchor l of Some a \<Rightarrow> anchor_to_dict a | None \<Rightarrow> JNull) = Inr (lg_immutable_anchor l)"
    by (intro optional_part_round_trip; simp add: t timestamp_round_trip anchor_round_trip)+
  show ?thesis
    unfolding legal_from_dict_def w dict_items_def
    by (simp add: dict_get_omit_none [OF d] g o)
qed

lemma graph_round_trip: "graph_from_dict (graph_to_dict g) = Inr g"
  unfolding graph_from_dict_def graph_to_dict_def dict_items_def
  by (simp add: dict_get_omit_none)

lemma trust_round_trip: "trust_from_dict (trust_to_dict t) = Inr t"
  unfolding trust_from_dict_def trust_to_dict_def dict_items_def
  by (simp add: dict_get_omit_none)

text \<open>The bundles \<open>to_dict\<close> can write and \<open>from_dict\<close> reads back: required parts of the proof,
  the identity and the commitments are not \<open>None\<close>, and the optional parts are not empty (an
  empty \<open>Legal()\<close>, \<open>ProofGraph()\<close>, \<open>TrustContext()\<close> or list of commitments comes back as
  \<open>None\<close>).\<close>

definition bundle_storable :: "proof_bundle \<Rightarrow> bool" where
  "bundle_storable b \<longleftrightarrow> pb_vrl_version b = JStr ''1.0''
     \<and> identity_storable (pb_ai_identity b) \<and> proof_storable (pb_proof b)
     \<and> (case pb_data_commitments b of Some cs \<Rightarrow> cs \<noteq> [] \<and> list_all commitment_storable cs | None \<Rightarrow> True)
     \<and> (case pb_legal b of Some l \<Rightarrow> truthy (legal_to_dict l) | None \<Rightarrow> True)
     \<and> (case pb_proof_graph b of Some g \<Rightarrow> truthy (graph_to_dict g) | None \<Rightarrow> True)
     \<and> (case pb_trust_context b of Some t \<Rightarrow> truthy (trust_to_dict t) | None \<Rightarrow> True)"

lemma bundle_items_get:
  "dict_get (bundle_items b) ''vrl_version'' = pb_vrl_version b"
  "dict_get (bundle_items b) ''bundle_id'' = pb_bundle_id b"
  "dict_get (bundle_items b) ''issued_at'' = pb_issued_at b"
  "dict_get (bundle_items b) ''ai_identity'' = identity_to_dict (pb_ai_identity b)"
  "dict_get (bundle_items b) ''computation'' = computation_to_dict (pb_computation b)"
  "dict_get (bundle_items b) ''proof'' = proof_to_dict (pb_proof b)"
  "dict_get (bundle_items b) ''data_commitments'' = (case pb_data_commitments b of
     Some (c # cs) \<Rightarrow> JList (map commitment_to_dict (c # cs)) | _ \<Rightarrow> JNull)"
  "dict_get (bundle_items b) ''legal'' = (case pb_legal b of Some l \<Rightarrow> legal_to_dict l | None \<Rightarrow> JNull)"
  "dict_get (bundle_items b) ''proof_graph'' = (case pb_proof_graph b of Some g \<Rightarrow> graph_to_dict g | None \<Rightarrow> JNull)"
  "dict_get (bundle_items b) ''trust_context'' = (case pb_trust_context b of Some t \<Rightarrow> trust_to_dict t | None \<Rightarrow> JNull)"
  unfolding bundle_items_def
  by (simp_all add: dict_get_append split: option.splits list.splits)

lemma commitments_round_trip:
  "list_all commitment_storable cs \<Longrightarrow> commitments_from (JList (map commitment_to_dict cs)) = Inr cs"
  by (induction cs) (auto simp: commitments_from_def commitment_round_trip)

lemma bundle_round_trip:
  assumes "bundle_storable b"
  shows "bundle_from_dict (bundle_to_dict b) = Inr b"
proof -
  have req: "required_items [''vrl_version'', ''bundle_id'', ''issued_at'', ''ai_identity'', ''computation'', ''proof'']
      m (bundle_to_dict b) = Inr (bundle_items b)" for m
    by (simp add: required_items_def dict_items_def bundle_to_dict_def has_keys_def bundle_items_def)
  have c: "optional_part commitments_from (dict_get (bundle_items b) ''data_commitments'') = Inr (pb_data_commitments b)"
  proof (cases "pb_data_commitments b")
    case None
    then show ?thesis by (simp add: bundle_items_get optional_part_def)
  next
    case (Some cs)
    with assms have cs: "cs \<noteq> []" "list_all commitment_storable cs"
      by (simp_all add: bundle_storable_def)
    have "dict_get (bundle_items b) ''data_commitments'' = JList (map commitment_to_dict cs)"
      using cs(1) by (cases cs) (simp_all add: bundle_items_get Some)
    then show ?thesis using commitments_round_trip [OF cs(2)] cs(1) by (simp add: optional_part_def Some)
  qed
  have o: "optional_part legal_from_dict (dict_get (bundle_items b) ''legal'') = Inr (pb_legal b)"
    "optional_part graph_from_dict (dict_get (bundle_items b) ''proof_graph'') = Inr (pb_proof_graph b)"
    "optional_part trust_from_dict (dict_get (bundle_items b) ''trust_context'') = Inr (pb_trust_context b)"
    using assms unfolding bundle_items_get bundle_storable_def
    by (intro optional_part_round_trip; simp add: legal_round_trip graph_round_trip trust_round_trip)+
  show ?thesis
    unfolding bundle_from_dict_def req rbind_simps c o
    using assms by (simp add: bundle_items_get bundle_storable_def identity_round_trip computation_round_trip
        proof_round_trip)
qed

end
