(* ===== verification/Sdk_Verifier.thy ===== *)
theory Sdk_Verifier
  imports Sdk_Bundle
begin

text \<open>
  \<open>sdk/python/vrl/verifier.py\<close>: the ten-step verification of a proof bundle.  Each step takes
  the bundle and the result record so far and returns whether to go on and the updated
  record; a step that raises ends the verification with that exception.  The circuit
  registry is an argument, the mock registry of the file is \<open>mock_registry\<close>.
\<close>

subsection \<open>Results\<close>

datatype vstatus =
    VALID | VALID_PARTIAL | SCHEMA_INVALID | BUNDLE_ID_MISMATCH | INTEGRITY_MISMATCH
  | CIRCUIT_HASH_MISMATCH | PROOF_INVALID | TEE_ATTESTATION_INVALID | RECOMPUTATION_MISMATCH
  | HASH_BINDING_INVALID | AI_ID_INVALID | DATA_COMMITMENT_INVALID | TIMESTAMP_INVALID
  | GRAPH_EDGE_INVALID | UNSUPPORTED_VERSION

record vdetail =
  vd_step :: string
  vd_status :: string
  vd_message :: string
  vd_error_code :: "vstatus option"

record vresult =
  ve_status :: vstatus
  ve_bundle_id :: json
  ve_details :: "vdetail list"
  ve_errors :: "vstatus list"

definition is_valid :: "vresult \<Rightarrow> bool" where
  "is_valid r \<longleftrightarrow> ve_status r \<in> {VALID, VALID_PARTIAL}"

fun status_value :: "vstatus \<Rightarrow> string" where
  "status_value VALID = ''VALID''"
| "status_value VALID_PARTIAL = ''VALID_PARTIAL''"
| "status_value SCHEMA_INVALID = ''SCHEMA_INVALID''"
| "status_value BUNDLE_ID_MISMATCH = ''BUNDLE_ID_MISMATCH''"
| "status_value INTEGRITY_MISMATCH = ''INTEGRITY_MISMATCH''"
| "status_value CIRCUIT_HASH_MISMATCH = ''CIRCUIT_HASH_MISMATCH''"
| "status_value PROOF_INVALID = ''PROOF_INVALID''"
| "status_value TEE_ATTESTATION_INVALID = ''TEE_ATTESTATION_INVALID''"
| "status_value RECOMPUTATION_MISMATCH = ''RECOMPUTATION_MISMATCH''"
| "status_value HASH_BINDING_INVALID = ''HASH_BINDING_INVALID''"
| "status_value AI_ID_INVALID = ''AI_ID_INVALID''"
| "status_value DATA_COMMITMENT_INVALID = ''DATA_COMMITMENT_INVALID''"
| "status_value TIMESTAMP_INVALID = ''TIMESTAMP_INVALID''"
| "status_value GRAPH_EDGE_INVALID = ''GRAPH_EDGE_INVALID''"
| "status_value UNSUPPORTED_VERSION = ''UNSUPPORTED_VERSION''"

definition vresult_to_dict :: "vresult \<Rightarrow> json" where
  "vresult_to_dict r = JDict [
     (''status'', JStr (status_value (ve_status r))), (''bundle_id'', ve_bundle_id r),
     (''is_valid'', JBool (is_valid r)),
     (''errors'', JList (map (\<lambda>e. JStr (status_value e)) (ve_errors r))),
     (''details'', JList (map (\<lambda>d. JDict [(''step'', JStr (vd_step d)), (''status'', JStr (vd_status d)),
        (''message'', JStr (vd_message d)),
        (''error_code'', case vd_error_code d of Some e \<Rightarrow> JStr (status_value e) | None \<Rightarrow> JNull)])
        (ve_details r)))]"

text \<open>What the steps do to the result: append a passing detail; append a failing one with its
  error code; the same and set the status.\<close>

definition add_pass :: "string \<Rightarrow> string \<Rightarrow> vresult \<Rightarrow> vresult" where
  "add_pass st msg r = r\<lparr>ve_details := ve_details r @
     [\<lparr>vd_step = st, vd_status = ''PASS'', vd_message = msg, vd_error_code = None\<rparr>]\<rparr>"

definition add_error :: "string \<Rightarrow> string \<Rightarrow> vstatus \<Rightarrow> vresult \<Rightarrow> vresult" where
  "add_error st msg code r = r\<lparr>ve_details := ve_details r @
     [\<lparr>vd_step = st, vd_status = ''FAIL'', vd_message = msg, vd_error_code = Some code\<rparr>],
     ve_errors := ve_errors r @ [code]\<rparr>"

definition add_failure :: "string \<Rightarrow> string \<Rightarrow> vstatus \<Rightarrow> vresult \<Rightarrow> vresult" where
  "add_failure st msg code r = (add_error st msg code r)\<lparr>ve_status := code\<rparr>"

type_synonym registry = "json \<Rightarrow> json \<Rightarrow> items option"

subsection \<open>Circuit registry\<close>

definition mock_circuit_hash :: "json \<Rightarrow> json \<Rightarrow> string" where
  "mock_circuit_hash circuit_id circuit_version = sha256_hex (sdk_canonical_json (JDict [
     (''circuit_id'', circuit_id), (''circuit_version'', circuit_version),
     (''spec_version'', JStr ''vrl/circuit/1.0'')]))"

definition mock_registry :: registry where
  "mock_registry circuit_id circuit_version = Some [
     (''circuit_id'', circuit_id), (''circuit_version'', circuit_version),
     (''circuit_hash'', JStr (mock_circuit_hash circuit_id circuit_version))]"

subsection \<open>The ten steps\<close>

definition step1_version :: "proof_bundle \<Rightarrow> vresult \<Rightarrow> bool \<times> vresult" where
  "step1_version b r =
    (if pb_vrl_version b \<noteq> JStr ''1.0''
     then (False, add_failure ''Version Check'' (''Unsupported vrl_version: '' @ json_str (pb_vrl_version b))
             UNSUPPORTED_VERSION r)
     else (True, add_pass ''Version Check'' (''vrl_version '' @ json_str (pb_vrl_version b) @ '' is supported'') r))"

definition hash_fields :: "proof_bundle \<Rightarrow> items" where
  "hash_fields b = [
     (''circuit_hash'', co_circuit_hash (pb_computation b)), (''input_hash'', co_input_hash (pb_computation b)),
     (''output_hash'', co_output_hash (pb_computation b)), (''trace_hash'', co_trace_hash (pb_computation b)),
     (''integrity_hash'', co_integrity_hash (pb_computation b)), (''proof_hash'', pf_proof_hash (pb_proof b))]"

definition step2_schema :: "proof_bundle \<Rightarrow> vresult \<Rightarrow> bool \<times> vresult" where
  "step2_schema b r =
    (case find (\<lambda>kv. snd kv = JNull) [(''bundle_id'', pb_bundle_id b), (''issued_at'', pb_issued_at b)] of
       Some kv \<Rightarrow> (False, add_failure ''Schema Validation'' (''Required field missing: '' @ fst kv) SCHEMA_INVALID r)
     | None \<Rightarrow>
       if \<not> is_valid_hex_hash (id_ai_id (pb_ai_identity b))
       then (False, add_failure ''Schema Validation''
               (''Invalid ai_id format: '' @ json_str (id_ai_id (pb_ai_identity b))) SCHEMA_INVALID r)
       else (case find (\<lambda>kv. \<not> is_valid_hex_hash (snd kv)) (hash_fields b) of
           Some kv \<Rightarrow> (False, add_failure ''Schema Validation''
               (''Invalid '' @ fst kv @ '' format: '' @ json_str (snd kv)) SCHEMA_INVALID r)
         | None \<Rightarrow> (True, add_pass ''Schema Validation'' ''All required fields present and valid'' r)))"

definition step3_bundle_id :: "proof_bundle \<Rightarrow> vresult \<Rightarrow> (bool \<times> vresult) result" where
  "step3_bundle_id b r =
     rbind (compute_bundle_id_from_integrity (co_integrity_hash (pb_computation b))) (\<lambda>recomputed.
     Inr (if JStr recomputed \<noteq> pb_bundle_id b
       then (False, add_failure ''bundle_id Recomputation''
               (''bundle_id mismatch: expected '' @ recomputed @ '', got '' @ json_str (pb_bundle_id b))
               BUNDLE_ID_MISMATCH r)
       else (True, add_pass ''bundle_id Recomputation'' (''bundle_id '' @ json_str (pb_bundle_id b) @ '' is valid'') r)))"

definition step4_integrity :: "proof_bundle \<Rightarrow> vresult \<Rightarrow> (bool \<times> vresult) result" where
  "step4_integrity b r = (let c = pb_computation b in
     rbind (compute_integrity_hash (co_input_hash c) (co_output_hash c) (co_trace_hash c)) (\<lambda>recomputed.
     Inr (if JStr recomputed \<noteq> co_integrity_hash c
       then (False, add_failure ''Integrity Hash Recomputation''
               (''integrity_hash mismatch: expected '' @ recomputed @ '', got '' @ json_str (co_integrity_hash c))
               INTEGRITY_MISMATCH r)
       else (True, add_pass ''Integrity Hash Recomputation''
               (''integrity_hash '' @ json_str (co_integrity_hash c) @ '' is valid'') r))))"

definition step5_circuit :: "registry \<Rightarrow> proof_bundle \<Rightarrow> vresult \<Rightarrow> (bool \<times> vresult) result" where
  "step5_circuit reg b r = (let c = pb_computation b in
     case reg (co_circuit_id c) (co_circuit_version c) of
       None \<Rightarrow> Inr (False, add_failure ''Circuit Resolution''
         (''Circuit not found: '' @ json_str (co_circuit_id c) @ ''@'' @ json_str (co_circuit_version c))
         CIRCUIT_HASH_MISMATCH r)
     | Some circuit \<Rightarrow> (case map_of circuit ''circuit_hash'' of
         None \<Rightarrow> Inl (KeyError ''circuit_hash'')
       | Some h \<Rightarrow> Inr (if h \<noteq> co_circuit_hash c
           then (False, add_failure ''Circuit Resolution''
             (''circuit_hash mismatch: expected '' @ json_str h @ '', got '' @ json_str (co_circuit_hash c))
             CIRCUIT_HASH_MISMATCH r)
           else (True, add_pass ''Circuit Resolution''
             (''Circuit '' @ json_str (co_circuit_id c) @ '' verified with matching hash'') r))))"

definition step6_proof :: "proof_bundle \<Rightarrow> vresult \<Rightarrow> (bool \<times> vresult) result" where
  "step6_proof b r = (let p = pb_proof b; c = pb_computation b in
     rbind (in_strings (pf_proof_system p) valid_systems) (\<lambda>known.
     Inr (if \<not> known
       then (False, add_failure ''Proof Structure Validation''
               (''Invalid proof_system: '' @ json_str (pf_proof_system p)) PROOF_INVALID r)
       else let recomputed = compute_proof_hash (co_circuit_hash c) (pf_proof_bytes p) (pf_public_inputs p)
                  (pf_proof_system p) (co_trace_hash c) in
         if JStr recomputed \<noteq> pf_proof_hash p
         then (False, add_failure ''Proof Structure Validation''
                 (''proof_hash mismatch: expected '' @ recomputed @ '', got '' @ json_str (pf_proof_hash p))
                 PROOF_INVALID r)
         else (True, add_pass ''Proof Structure Validation''
                 (''Proof structure valid for '' @ json_str (pf_proof_system p)) r))))"

definition step7_ai_id :: "proof_bundle \<Rightarrow> vresult \<Rightarrow> bool \<times> vresult" where
  "step7_ai_id b r = (let i = pb_ai_identity b in
     if \<not> truthy (id_provider_signature i)
     then (True, add_pass ''AI-ID Verification'' ''No provider_signature; AI-ID is advisory only'' r)
     else if \<not> is_valid_hex_hash (id_ai_id i)
     then (False, add_failure ''AI-ID Verification'' (''Invalid ai_id format: '' @ json_str (id_ai_id i))
             AI_ID_INVALID r)
     else (True, add_pass ''AI-ID Verification''
             (''AI-ID '' @ json_str (id_ai_id i) @ '' is valid (provider_signature present but not verified)'') r))"

definition commitment_matches :: "data_commitment \<Rightarrow> bool" where
  "commitment_matches c \<longleftrightarrow> JStr (compute_commitment_hash (dc_dataset_id c) (dc_dataset_version c)
     (dc_dataset_hash c) (dc_provider_id c) (dc_committed_at c)) = dc_commitment_hash c"

text \<open>The position and the commitment of the first mismatch, from position \<open>i\<close>.\<close>

fun first_mismatch :: "nat \<Rightarrow> data_commitment list \<Rightarrow> (nat \<times> data_commitment) option" where
  "first_mismatch i [] = None"
| "first_mismatch i (c # cs) = (if commitment_matches c then first_mismatch (Suc i) cs else Some (i, c))"

definition step8_commitments :: "proof_bundle \<Rightarrow> vresult \<Rightarrow> bool \<times> vresult" where
  "step8_commitments b r = (case pb_data_commitments b of
       Some (c # cs) \<Rightarrow> (case first_mismatch 0 (c # cs) of
           Some (i, d) \<Rightarrow> (False, add_failure
             (''Data Commitment Verification ['' @ int_text (int i) @ '']'')
             (''commitment_hash mismatch for '' @ json_str (dc_dataset_id d)) DATA_COMMITMENT_INVALID r)
         | None \<Rightarrow> (True, add_pass ''Data Commitment Verification''
             (''All '' @ int_text (int (length (c # cs))) @ '' data commitments verified'') r))
     | _ \<Rightarrow> (True, add_pass ''Data Commitment Verification'' ''No data commitments'' r))"

definition step9_timestamp :: "proof_bundle \<Rightarrow> vresult \<Rightarrow> bool \<times> vresult" where
  "step9_timestamp b r = (case pb_legal b of None \<Rightarrow> (True, r) | Some l \<Rightarrow>
     (case lg_timestamp_authority l of None \<Rightarrow> (True, r) | Some t \<Rightarrow>
       if \<not> truthy (ta_tsa_token t) \<or> \<not> truthy (ta_tsa_provider t) \<or> \<not> truthy (ta_tsa_hash_algorithm t)
       then (False, add_error ''Timestamp Verification'' ''Incomplete timestamp_authority block'' TIMESTAMP_INVALID r)
       else (True, add_pass ''Timestamp Verification''
         (''Timestamp token from '' @ json_str (ta_tsa_provider t) @ '' (RFC 3161 verification skipped)'') r)))"

text \<open>\<open>uuid.UUID(x)\<close>: a string is parsed, \<open>None\<close> raises TypeError, any other value has no
  \<open>replace\<close> method.\<close>

fun uuid_of :: "json \<Rightarrow> unit result" where
  "uuid_of (JStr s) = (if uuid_ok s then Inr () else Inl (ValueError ''badly formed hexadecimal UUID string''))"
| "uuid_of JNull = Inl TypeError"
| "uuid_of _ = Inl AttributeError"

text \<open>The edges up to the first one that is not a UUID; only a ValueError is caught.\<close>

fun bad_edge :: "json list \<Rightarrow> json option result" where
  "bad_edge [] = Inr None"
| "bad_edge (e # es) = (case uuid_of e of
     Inr _ \<Rightarrow> bad_edge es
   | Inl (ValueError m) \<Rightarrow> Inr (Some e)
   | Inl err \<Rightarrow> Inl err)"

definition step10_graph :: "proof_bundle \<Rightarrow> vresult \<Rightarrow> (bool \<times> vresult) result" where
  "step10_graph b r = (case pb_proof_graph b of None \<Rightarrow> Inr (True, r) | Some g \<Rightarrow>
     if \<not> truthy (pg_depends_on g) then Inr (True, r)
     else rbind (iterate (pg_depends_on g)) (\<lambda>es. rbind (bad_edge es) (\<lambda>bad.
       Inr (case bad of
           Some e \<Rightarrow> (False, add_error ''Proof Graph Verification''
             (''Invalid bundle_id in depends_on: '' @ json_str e) GRAPH_EDGE_INVALID r)
         | None \<Rightarrow> (True, add_pass ''Proof Graph Verification''
             ''Proof graph edges valid (recursive verification skipped)'' r)))))"

subsection \<open>verify\<close>

definition continue_if :: "bool \<times> vresult \<Rightarrow> (vresult \<Rightarrow> vresult result) \<Rightarrow> vresult result" where
  "continue_if x k = (if fst x then k (snd x) else Inr (snd x))"

definition partial_unless :: "bool \<times> vresult \<Rightarrow> vresult" where
  "partial_unless x = (if fst x then snd x else (snd x)\<lparr>ve_status := VALID_PARTIAL\<rparr>)"

definition sdk_verify :: "registry \<Rightarrow> proof_bundle \<Rightarrow> vresult result" where
  "sdk_verify reg b =
    (let r = \<lparr>ve_status = VALID, ve_bundle_id = pb_bundle_id b, ve_details = [], ve_errors = []\<rparr> in
     continue_if (step1_version b r) (\<lambda>r.
     continue_if (step2_schema b r) (\<lambda>r.
     rbind (step3_bundle_id b r) (\<lambda>x. continue_if x (\<lambda>r.
     rbind (step4_integrity b r) (\<lambda>x. continue_if x (\<lambda>r.
     rbind (step5_circuit reg b r) (\<lambda>x. continue_if x (\<lambda>r.
     rbind (step6_proof b r) (\<lambda>x. continue_if x (\<lambda>r.
     continue_if (step7_ai_id b r) (\<lambda>r.
     continue_if (step8_commitments b r) (\<lambda>r.
     let r = (case pb_legal b of
                Some l \<Rightarrow> if lg_timestamp_authority l \<noteq> None then partial_unless (step9_timestamp b r) else r
              | None \<Rightarrow> r) in
     case pb_proof_graph b of
       Some g \<Rightarrow> if truthy (pg_depends_on g)
                 then rbind (step10_graph b r) (\<lambda>x. Inr (partial_unless x)) else Inr r
     | None \<Rightarrow> Inr r)))))))))))))"

subsection \<open>What a valid status means\<close>

text \<open>The conditions of steps 1 to 8.\<close>

definition mandatory_checks :: "registry \<Rightarrow> proof_bundle \<Rightarrow> bool" where
  "mandatory_checks reg b \<longleftrightarrow> (let c = pb_computation b; p = pb_proof b in
     pb_vrl_version b = JStr ''1.0'' \<and> pb_bundle_id b \<noteq> JNull \<and> pb_issued_at b \<noteq> JNull
     \<and> is_valid_hex_hash (id_ai_id (pb_ai_identity b)) \<and> list_all (\<lambda>kv. is_valid_hex_hash (snd kv)) (hash_fields b)
     \<and> (\<exists>u. compute_bundle_id_from_integrity (co_integrity_hash c) = Inr u \<and> pb_bundle_id b = JStr u)
     \<and> (\<exists>h. compute_integrity_hash (co_input_hash c) (co_output_hash c) (co_trace_hash c) = Inr h
          \<and> co_integrity_hash c = JStr h)
     \<and> (\<exists>circuit. reg (co_circuit_id c) (co_circuit_version c) = Some circuit
          \<and> map_of circuit ''circuit_hash'' = Some (co_circuit_hash c))
     \<and> in_strings (pf_proof_system p) valid_systems = Inr True
     \<and> pf_proof_hash p = JStr (compute_proof_hash (co_circuit_hash c) (pf_proof_bytes p) (pf_public_inputs p)
          (pf_proof_system p) (co_trace_hash c))
     \<and> (case pb_data_commitments b of Some cs \<Rightarrow> list_all commitment_matches cs | None \<Rightarrow> True))"

text \<open>The two optional steps: a complete timestamp block, edges that are UUIDs.\<close>

definition timestamp_complete :: "proof_bundle \<Rightarrow> bool" where
  "timestamp_complete b \<longleftrightarrow> (case pb_legal b of None \<Rightarrow> True | Some l \<Rightarrow>
     (case lg_timestamp_authority l of None \<Rightarrow> True
      | Some t \<Rightarrow> truthy (ta_tsa_token t) \<and> truthy (ta_tsa_provider t) \<and> truthy (ta_tsa_hash_algorithm t)))"

definition graph_outcome :: "proof_bundle \<Rightarrow> bool result" where
  "graph_outcome b = (case pb_proof_graph b of None \<Rightarrow> Inr True | Some g \<Rightarrow>
     if \<not> truthy (pg_depends_on g) then Inr True
     else rbind (iterate (pg_depends_on g)) (\<lambda>es. rbind (bad_edge es) (\<lambda>bad. Inr (bad = None))))"

lemma add_status [simp]:
  "ve_status (add_pass st m r) = ve_status r" "ve_errors (add_pass st m r) = ve_errors r"
  "ve_status (add_error st m c r) = ve_status r" "ve_errors (add_error st m c r) = ve_errors r @ [c]"
  "ve_status (add_failure st m c r) = c" "ve_errors (add_failure st m c r) = ve_errors r @ [c]"
  by (simp_all add: add_pass_def add_error_def add_failure_def)

definition on_pass :: "bool \<Rightarrow> vstatus \<Rightarrow> vresult \<Rightarrow> bool \<times> vresult \<Rightarrow> bool" where
  "on_pass ok code r x \<longleftrightarrow> fst x = ok
     \<and> ve_status (snd x) = (if ok then ve_status r else code)
     \<and> ve_errors (snd x) = ve_errors r @ (if ok then [] else [code])"

lemma step1_facts: "on_pass (pb_vrl_version b = JStr ''1.0'') UNSUPPORTED_VERSION r (step1_version b r)"
  by (simp add: step1_version_def on_pass_def)

lemma find_none_iff: "find P xs = None \<longleftrightarrow> list_all (\<lambda>x. \<not> P x) xs"
  by (induction xs) auto

lemma step2_facts: "on_pass (pb_bundle_id b \<noteq> JNull \<and> pb_issued_at b \<noteq> JNull
    \<and> is_valid_hex_hash (id_ai_id (pb_ai_identity b)) \<and> list_all (\<lambda>kv. is_valid_hex_hash (snd kv)) (hash_fields b))
    SCHEMA_INVALID r (step2_schema b r)"
  using find_none_iff [of "\<lambda>kv. \<not> is_valid_hex_hash (snd kv)" "hash_fields b"]
  by (auto simp: step2_schema_def on_pass_def split: option.splits)

lemma step3_facts:
  assumes "is_valid_hex_hash (co_integrity_hash (pb_computation b))"
  obtains x where "step3_bundle_id b r = Inr x"
    "on_pass (\<exists>u. compute_bundle_id_from_integrity (co_integrity_hash (pb_computation b)) = Inr u
       \<and> pb_bundle_id b = JStr u) BUNDLE_ID_MISMATCH r x"
proof -
  obtain s where s: "co_integrity_hash (pb_computation b) = JStr s"
    using valid_hash_string [OF assms] by blast
  then show thesis
    by (intro that) (auto simp: step3_bundle_id_def compute_bundle_id_from_integrity_def on_pass_def)
qed

lemma hash_fields_integrity:
  "list_all (\<lambda>kv. is_valid_hex_hash (snd kv)) (hash_fields b)
    \<Longrightarrow> is_valid_hex_hash (co_integrity_hash (pb_computation b))"
  by (simp add: hash_fields_def)

lemma step4_facts:
  assumes "list_all (\<lambda>kv. is_valid_hex_hash (snd kv)) (hash_fields b)"
  obtains x where "step4_integrity b r = Inr x"
    "on_pass (\<exists>h. compute_integrity_hash (co_input_hash (pb_computation b)) (co_output_hash (pb_computation b))
        (co_trace_hash (pb_computation b)) = Inr h \<and> co_integrity_hash (pb_computation b) = JStr h)
      INTEGRITY_MISMATCH r x"
proof -
  have "is_valid_hex_hash (co_input_hash (pb_computation b))"
    "is_valid_hex_hash (co_output_hash (pb_computation b))"
    "is_valid_hex_hash (co_trace_hash (pb_computation b))"
    using assms by (simp_all add: hash_fields_def)
  then obtain x y z where "co_input_hash (pb_computation b) = JStr x"
    "co_output_hash (pb_computation b) = JStr y" "co_trace_hash (pb_computation b) = JStr z"
    using valid_hash_string by metis
  then show thesis
    by (intro that) (auto simp: step4_integrity_def compute_integrity_hash_def concat3_def on_pass_def Let_def)
qed

lemma step5_facts:
  "step5_circuit reg b r = Inr x \<Longrightarrow> on_pass (\<exists>circuit.
     reg (co_circuit_id (pb_computation b)) (co_circuit_version (pb_computation b)) = Some circuit
     \<and> map_of circuit ''circuit_hash'' = Some (co_circuit_hash (pb_computation b))) CIRCUIT_HASH_MISMATCH r x"
  by (auto simp: step5_circuit_def on_pass_def Let_def split: option.splits if_splits)

lemma step6_facts:
  "step6_proof b r = Inr x \<Longrightarrow> on_pass (in_strings (pf_proof_system (pb_proof b)) valid_systems = Inr True
     \<and> pf_proof_hash (pb_proof b) = JStr (compute_proof_hash (co_circuit_hash (pb_computation b))
        (pf_proof_bytes (pb_proof b)) (pf_public_inputs (pb_proof b)) (pf_proof_system (pb_proof b))
        (co_trace_hash (pb_computation b)))) PROOF_INVALID r x"
  by (auto simp: step6_proof_def on_pass_def Let_def result_simps split: if_splits)

lemma step7_facts:
  "is_valid_hex_hash (id_ai_id (pb_ai_identity b)) \<Longrightarrow> on_pass True AI_ID_INVALID r (step7_ai_id b r)"
  by (simp add: step7_ai_id_def on_pass_def Let_def)

lemma first_mismatch_none: "first_mismatch i cs = None \<longleftrightarrow> list_all commitment_matches cs"
  by (induction i cs rule: first_mismatch.induct) auto

lemma step8_facts:
  "on_pass (case pb_data_commitments b of Some cs \<Rightarrow> list_all commitment_matches cs | None \<Rightarrow> True)
    DATA_COMMITMENT_INVALID r (step8_commitments b r)"
proof (cases "pb_data_commitments b")
  case (Some cs)
  then show ?thesis using first_mismatch_none [of 0 cs]
    by (cases cs; cases "first_mismatch 0 cs")
      (auto simp: step8_commitments_def on_pass_def simp del: first_mismatch.simps)
qed (simp add: step8_commitments_def on_pass_def)

lemma step9_facts: "fst (step9_timestamp b r) = timestamp_complete b"
  "ve_status (snd (step9_timestamp b r)) = ve_status r"
  "ve_errors (snd (step9_timestamp b r)) = ve_errors r @ (if timestamp_complete b then [] else [TIMESTAMP_INVALID])"
  by (simp_all add: step9_timestamp_def timestamp_complete_def split: option.splits)

lemma step10_facts:
  "step10_graph b r = rbind (graph_outcome b) (\<lambda>ok. step10_graph b r)"
  "step10_graph b r = Inr x \<Longrightarrow> graph_outcome b = Inr (fst x) \<and> ve_status (snd x) = ve_status r
    \<and> ve_errors (snd x) = ve_errors r @ (if fst x then [] else [GRAPH_EDGE_INVALID])"
  "graph_outcome b = Inr ok \<Longrightarrow> \<exists>y. step10_graph b r = Inr (ok, y)"
  by (auto simp: step10_graph_def graph_outcome_def result_simps rbind_def split: option.splits if_splits sum.splits)

lemma continue_valid:
  assumes "continue_if x k = Inr v" "is_valid v" "on_pass ok code r x" "code \<notin> {VALID, VALID_PARTIAL}"
  shows "ok" "k (snd x) = Inr v" "ve_status (snd x) = ve_status r" "ve_errors (snd x) = ve_errors r"
  using assms by (auto simp: continue_if_def on_pass_def is_valid_def split: if_splits)

lemma continue_pass:
  assumes "on_pass True code r x"
  shows "continue_if x k = k (snd x)" "ve_status (snd x) = ve_status r" "ve_errors (snd x) = ve_errors r"
  using assms by (simp_all add: continue_if_def on_pass_def)

text \<open>After the mandatory steps.\<close>

definition optional_steps :: "proof_bundle \<Rightarrow> vresult \<Rightarrow> vresult result" where
  "optional_steps b r =
    (let r = (case pb_legal b of
                Some l \<Rightarrow> if lg_timestamp_authority l \<noteq> None then partial_unless (step9_timestamp b r) else r
              | None \<Rightarrow> r) in
     case pb_proof_graph b of
       Some g \<Rightarrow> if truthy (pg_depends_on g)
                 then rbind (step10_graph b r) (\<lambda>x. Inr (partial_unless x)) else Inr r
     | None \<Rightarrow> Inr r)"

definition init_result :: "proof_bundle \<Rightarrow> vresult" where
  "init_result b = \<lparr>ve_status = VALID, ve_bundle_id = pb_bundle_id b, ve_details = [], ve_errors = []\<rparr>"

lemma sdk_verify_unfold: "sdk_verify reg b =
     continue_if (step1_version b (init_result b)) (\<lambda>r.
     continue_if (step2_schema b r) (\<lambda>r.
     rbind (step3_bundle_id b r) (\<lambda>x. continue_if x (\<lambda>r.
     rbind (step4_integrity b r) (\<lambda>x. continue_if x (\<lambda>r.
     rbind (step5_circuit reg b r) (\<lambda>x. continue_if x (\<lambda>r.
     rbind (step6_proof b r) (\<lambda>x. continue_if x (\<lambda>r.
     continue_if (step7_ai_id b r) (\<lambda>r.
     continue_if (step8_commitments b r) (optional_steps b))))))))))))"
  unfolding sdk_verify_def init_result_def optional_steps_def Let_def ..

lemma sdk_verify_mandatory:
  assumes v: "sdk_verify reg b = Inr v" and ok: "is_valid v"
  shows "mandatory_checks reg b \<and> (\<exists>r. ve_status r = VALID \<and> ve_errors r = [] \<and> optional_steps b r = Inr v)"
proof -
  note s1 = continue_valid [OF v [unfolded sdk_verify_unfold] ok step1_facts, simplified]
  note s2 = continue_valid [OF s1(2) ok step2_facts, simplified]
  obtain x3 where x3: "step3_bundle_id b (snd (step2_schema b (snd (step1_version b (init_result b))))) = Inr x3"
    and p3: "on_pass (\<exists>u. compute_bundle_id_from_integrity (co_integrity_hash (pb_computation b)) = Inr u
       \<and> pb_bundle_id b = JStr u) BUNDLE_ID_MISMATCH (snd (step2_schema b (snd (step1_version b (init_result b))))) x3"
    using step3_facts [OF hash_fields_integrity] s2(1) by blast
  note s3 = continue_valid [OF s2(2) [unfolded x3 rbind_simps] ok p3, simplified]
  obtain x4 where x4: "step4_integrity b (snd x3) = Inr x4"
    and p4: "on_pass (\<exists>h. compute_integrity_hash (co_input_hash (pb_computation b)) (co_output_hash (pb_computation b))
        (co_trace_hash (pb_computation b)) = Inr h \<and> co_integrity_hash (pb_computation b) = JStr h)
      INTEGRITY_MISMATCH (snd x3) x4"
    using step4_facts s2(1) by blast
  note s4 = continue_valid [OF s3(2) [unfolded x4 rbind_simps] ok p4, simplified]
  obtain x5 where x5: "step5_circuit reg b (snd x4) = Inr x5"
    using s4(2) by (auto simp: result_simps)
  note s5 = continue_valid [OF s4(2) [unfolded x5 rbind_simps] ok step5_facts [OF x5], simplified]
  obtain x6 where x6: "step6_proof b (snd x5) = Inr x6"
    using s5(2) by (auto simp: result_simps)
  note s6 = continue_valid [OF s5(2) [unfolded x6 rbind_simps] ok step6_facts [OF x6], simplified]
  have h: "is_valid_hex_hash (id_ai_id (pb_ai_identity b))" using s2(1) by simp
  note s7 = continue_valid [OF s6(2) ok step7_facts [OF h], simplified]
  note s8 = continue_valid [OF s7(2) ok step8_facts, simplified]
  have "mandatory_checks reg b"
    unfolding mandatory_checks_def Let_def using s1(1) s2(1) s3(1) s4(1) s5(1) s6(1) s8(1) by blast
  moreover have "ve_status (init_result b) = VALID" "ve_errors (init_result b) = []"
    by (simp_all add: init_result_def)
  ultimately show ?thesis
    using s1(3,4) s2(3,4) s3(3,4) s4(3,4) s5(3,4) s6(3,4) s7(3,4) s8(2,3,4) by auto
qed

lemma mandatory_sdk_verify:
  assumes "mandatory_checks reg b"
  shows "\<exists>r. ve_status r = VALID \<and> ve_errors r = [] \<and> sdk_verify reg b = optional_steps b r"
proof -
  have m: "pb_vrl_version b = JStr ''1.0''" "pb_bundle_id b \<noteq> JNull" "pb_issued_at b \<noteq> JNull"
    "is_valid_hex_hash (id_ai_id (pb_ai_identity b))" "list_all (\<lambda>kv. is_valid_hex_hash (snd kv)) (hash_fields b)"
    "\<exists>u. compute_bundle_id_from_integrity (co_integrity_hash (pb_computation b)) = Inr u \<and> pb_bundle_id b = JStr u"
    "\<exists>h. compute_integrity_hash (co_input_hash (pb_computation b)) (co_output_hash (pb_computation b))
       (co_trace_hash (pb_computation b)) = Inr h \<and> co_integrity_hash (pb_computation b) = JStr h"
    "\<exists>circuit. reg (co_circuit_id (pb_computation b)) (co_circuit_version (pb_computation b)) = Some circuit
       \<and> map_of circuit ''circuit_hash'' = Some (co_circuit_hash (pb_computation b))"
    "in_strings (pf_proof_system (pb_proof b)) valid_systems = Inr True"
    "pf_proof_hash (pb_proof b) = JStr (compute_proof_hash (co_circuit_hash (pb_computation b))
       (pf_proof_bytes (pb_proof b)) (pf_public_inputs (pb_proof b)) (pf_proof_system (pb_proof b))
       (co_trace_hash (pb_computation b)))"
    "case pb_data_commitments b of Some cs \<Rightarrow> list_all commitment_matches cs | None \<Rightarrow> True"
    using assms unfolding mandatory_checks_def Let_def by blast+
  have p1: "on_pass True UNSUPPORTED_VERSION r (step1_version b r)" for r
    using step1_facts [of b r] m(1) by simp
  have p2: "on_pass True SCHEMA_INVALID r (step2_schema b r)" for r
    using step2_facts [of b r] m(2-5) by simp
  note s1 = continue_pass [OF p1] and s2 = continue_pass [OF p2]
  let ?r2 = "snd (step2_schema b (snd (step1_version b (init_result b))))"
  obtain x3 where x3: "step3_bundle_id b ?r2 = Inr x3"
    and q3: "on_pass (\<exists>u. compute_bundle_id_from_integrity (co_integrity_hash (pb_computation b)) = Inr u
       \<and> pb_bundle_id b = JStr u) BUNDLE_ID_MISMATCH ?r2 x3"
    by (rule step3_facts [OF hash_fields_integrity [OF m(5)]])
  have p3: "on_pass True BUNDLE_ID_MISMATCH ?r2 x3" using q3 m(6) by simp
  obtain x4 where x4: "step4_integrity b (snd x3) = Inr x4"
    and q4: "on_pass (\<exists>h. compute_integrity_hash (co_input_hash (pb_computation b)) (co_output_hash (pb_computation b))
        (co_trace_hash (pb_computation b)) = Inr h \<and> co_integrity_hash (pb_computation b) = JStr h)
      INTEGRITY_MISMATCH (snd x3) x4"
    by (rule step4_facts [OF m(5)])
  have p4: "on_pass True INTEGRITY_MISMATCH (snd x3) x4" using q4 m(7) by simp
  obtain x5 where x5: "step5_circuit reg b (snd x4) = Inr x5"
    using m(8) by (auto simp: step5_circuit_def Let_def)
  have p5: "on_pass True CIRCUIT_HASH_MISMATCH (snd x4) x5" using step5_facts [OF x5] m(8) by simp
  obtain x6 where x6: "step6_proof b (snd x5) = Inr x6"
    using m(9) by (auto simp: step6_proof_def Let_def)
  have p6: "on_pass True PROOF_INVALID (snd x5) x6" using step6_facts [OF x6] m(9,10) by simp
  have p7: "on_pass True AI_ID_INVALID r (step7_ai_id b r)" for r by (rule step7_facts [OF m(4)])
  have p8: "on_pass True DATA_COMMITMENT_INVALID r (step8_commitments b r)" for r
    using step8_facts [of b r] m(11) by simp
  note s3 = continue_pass [OF p3] and s4 = continue_pass [OF p4] and s5 = continue_pass [OF p5]
    and s6 = continue_pass [OF p6] and s7 = continue_pass [OF p7] and s8 = continue_pass [OF p8]
  have "sdk_verify reg b = optional_steps b (snd (step8_commitments b (snd (step7_ai_id b (snd x6)))))"
    unfolding sdk_verify_unfold s1(1) s2(1) x3 rbind_simps s3(1) x4 s4(1) x5 s5(1) x6 s6(1) s7(1) s8(1) ..
  moreover have "ve_status (snd (step8_commitments b (snd (step7_ai_id b (snd x6))))) = VALID"
    "ve_errors (snd (step8_commitments b (snd (step7_ai_id b (snd x6))))) = []"
    by (simp_all add: s1(2,3) s2(2,3) s3(2,3) s4(2,3) s5(2,3) s6(2,3) s7(2,3) s8(2,3)) (simp_all add: init_result_def)
  ultimately show ?thesis by blast
qed

definition optional_status :: "proof_bundle \<Rightarrow> bool \<Rightarrow> vstatus" where
  "optional_status b graph_ok = (if timestamp_complete b \<and> graph_ok then VALID else VALID_PARTIAL)"

definition optional_errors :: "proof_bundle \<Rightarrow> bool \<Rightarrow> vstatus list" where
  "optional_errors b graph_ok = (if timestamp_complete b then [] else [TIMESTAMP_INVALID])
     @ (if graph_ok then [] else [GRAPH_EDGE_INVALID])"

definition after_timestamp :: "proof_bundle \<Rightarrow> vresult \<Rightarrow> vresult" where
  "after_timestamp b r = (case pb_legal b of
     Some l \<Rightarrow> if lg_timestamp_authority l \<noteq> None then partial_unless (step9_timestamp b r) else r
   | None \<Rightarrow> r)"

lemma after_timestamp_facts:
  assumes "ve_status r = VALID" "ve_errors r = []"
  shows "ve_status (after_timestamp b r) = optional_status b True"
    "ve_errors (after_timestamp b r) = optional_errors b True"
  using assms step9_facts [of b r]
  by (auto simp: after_timestamp_def partial_unless_def optional_status_def optional_errors_def
      timestamp_complete_def split: option.splits)

lemma optional_steps_unfold: "optional_steps b r = (case pb_proof_graph b of
     Some g \<Rightarrow> if truthy (pg_depends_on g)
               then rbind (step10_graph b (after_timestamp b r)) (\<lambda>x. Inr (partial_unless x))
               else Inr (after_timestamp b r)
   | None \<Rightarrow> Inr (after_timestamp b r))"
  unfolding optional_steps_def after_timestamp_def Let_def ..

lemma optional_steps_outcome:
  assumes "ve_status r = VALID" "ve_errors r = []"
  shows "graph_outcome b = Inr ok \<Longrightarrow> \<exists>v. optional_steps b r = Inr v
      \<and> ve_status v = optional_status b ok \<and> ve_errors v = optional_errors b ok"
    "graph_outcome b = Inl e \<Longrightarrow> optional_steps b r = Inl e"
proof -
  note t = after_timestamp_facts [OF assms, of b]
  { assume g: "graph_outcome b = Inr ok"
    obtain y where y: "step10_graph b (after_timestamp b r) = Inr (ok, y)"
      using step10_facts(3) [OF g] by blast
    note yf = step10_facts(2) [OF y]
    have no: "ok" if "\<not> (\<exists>gr. pb_proof_graph b = Some gr \<and> truthy (pg_depends_on gr))"
      using g that by (auto simp: graph_outcome_def split: option.splits if_splits)
    show "\<exists>v. optional_steps b r = Inr v
      \<and> ve_status v = optional_status b ok \<and> ve_errors v = optional_errors b ok"
      using no y yf t by (auto simp: optional_steps_unfold partial_unless_def optional_status_def
          optional_errors_def split: option.splits) }
  { assume g: "graph_outcome b = Inl e"
    then have "step10_graph b (after_timestamp b r) = Inl e"
      using step10_facts(1) [of b "after_timestamp b r"] by simp
    then show "optional_steps b r = Inl e" using g
      by (auto simp: optional_steps_unfold graph_outcome_def split: option.splits if_splits) }
qed

lemma sdk_verify_outcome:
  assumes "mandatory_checks reg b" "graph_outcome b = Inr ok"
  shows "\<exists>v. sdk_verify reg b = Inr v \<and> is_valid v
    \<and> ve_status v = optional_status b ok \<and> ve_errors v = optional_errors b ok"
  using mandatory_sdk_verify [OF assms(1)] optional_steps_outcome(1) [OF _ _ assms(2)]
  by (metis is_valid_def insertI1 insertI2 optional_status_def)

lemma sdk_verify_valid_iff:
  "(\<exists>v. sdk_verify reg b = Inr v \<and> is_valid v) \<longleftrightarrow> mandatory_checks reg b \<and> (\<exists>ok. graph_outcome b = Inr ok)"
proof
  assume "\<exists>v. sdk_verify reg b = Inr v \<and> is_valid v"
  then obtain v where v: "sdk_verify reg b = Inr v" "is_valid v" by blast
  obtain r where r: "mandatory_checks reg b" "ve_status r = VALID" "ve_errors r = []" "optional_steps b r = Inr v"
    using sdk_verify_mandatory [OF v] by blast
  then show "mandatory_checks reg b \<and> (\<exists>ok. graph_outcome b = Inr ok)"
    using optional_steps_outcome(2) [OF r(2,3)] by (cases "graph_outcome b") auto
qed (use sdk_verify_outcome in blast)

lemma mandatory_hashes:
  assumes "mandatory_checks reg b"
  obtains x y z where "co_input_hash (pb_computation b) = JStr x" "co_output_hash (pb_computation b) = JStr y"
    "co_trace_hash (pb_computation b) = JStr z" "length x = 64" "length y = 64" "length z = 64"
    "co_integrity_hash (pb_computation b) = JStr (sha256_hex (x @ y @ z))"
proof -
  have h: "is_valid_hex_hash (co_input_hash (pb_computation b))" "is_valid_hex_hash (co_output_hash (pb_computation b))"
    "is_valid_hex_hash (co_trace_hash (pb_computation b))"
    "\<exists>h. compute_integrity_hash (co_input_hash (pb_computation b)) (co_output_hash (pb_computation b))
       (co_trace_hash (pb_computation b)) = Inr h \<and> co_integrity_hash (pb_computation b) = JStr h"
    using assms by (simp_all add: mandatory_checks_def hash_fields_def Let_def)
  obtain x y z where "co_input_hash (pb_computation b) = JStr x" "length x = 64"
    "co_output_hash (pb_computation b) = JStr y" "length y = 64"
    "co_trace_hash (pb_computation b) = JStr z" "length z = 64"
    using h(1-3) valid_hash_string by metis
  then show thesis using h(4) that by (auto simp: compute_integrity_hash_def concat3_def)
qed

end
