(* ===== verification/Sdk_Builder.thy ===== *)
theory Sdk_Builder
  imports Sdk_Verifier
begin

text \<open>
  \<open>sdk/python/vrl/builder.py\<close> and \<open>AIIdentityBuilder\<close> of \<open>identity.py\<close>: the fluent builders.
  A builder is a record of the fields set so far (\<open>JNull\<close> or \<open>None\<close> for unset), a setter
  returns the updated builder, \<open>build\<close> checks that the required fields are set.  The clock is
  an argument of \<open>build_bundle\<close>.
\<close>

subsection \<open>AIIdentityBuilder\<close>

definition identity_builder :: ai_identity where
  "identity_builder = \<lparr>id_ai_id = JNull, id_model_name = JNull, id_model_version = JNull,
     id_provider_id = JNull, id_execution_environment = JNull, id_provider_signature = JNull,
     id_tee_attestation_report = JNull, id_parent_ai_id = JNull\<rparr>"

definition builder_compute_ai_id :: "json \<Rightarrow> json \<Rightarrow> json \<Rightarrow> json \<Rightarrow> json \<Rightarrow> json \<Rightarrow> ai_identity \<Rightarrow> ai_identity" where
  "builder_compute_ai_id model_weights_hash runtime_hash config_hash provider_id model_name model_version s =
     s\<lparr>id_ai_id := JStr (compute_ai_id model_weights_hash runtime_hash config_hash provider_id model_name model_version),
       id_provider_id := provider_id, id_model_name := model_name, id_model_version := model_version\<rparr>"

definition set_ai_id :: "json \<Rightarrow> ai_identity \<Rightarrow> ai_identity result" where
  "set_ai_id v s = (if \<not> is_valid_hex_hash v then Inl (ValueError (''Invalid ai_id format: '' @ json_str v))
     else Inr (s\<lparr>id_ai_id := v\<rparr>))"

definition set_model_name :: "json \<Rightarrow> ai_identity \<Rightarrow> ai_identity" where
  "set_model_name v s = s\<lparr>id_model_name := v\<rparr>"

definition set_model_version :: "json \<Rightarrow> ai_identity \<Rightarrow> ai_identity" where
  "set_model_version v s = s\<lparr>id_model_version := v\<rparr>"

definition set_provider_id :: "json \<Rightarrow> ai_identity \<Rightarrow> ai_identity" where
  "set_provider_id v s = s\<lparr>id_provider_id := v\<rparr>"

definition set_execution_environment :: "json \<Rightarrow> ai_identity \<Rightarrow> ai_identity result" where
  "set_execution_environment env s = rbind (in_strings env valid_envs) (\<lambda>ok.
     if \<not> ok then Inl (ValueError (''Invalid execution_environment: '' @ json_str env))
     else Inr (s\<lparr>id_execution_environment := env\<rparr>))"

definition set_provider_signature :: "json \<Rightarrow> ai_identity \<Rightarrow> ai_identity" where
  "set_provider_signature v s = s\<lparr>id_provider_signature := v\<rparr>"

definition set_tee_attestation_report :: "json \<Rightarrow> ai_identity \<Rightarrow> ai_identity" where
  "set_tee_attestation_report v s = s\<lparr>id_tee_attestation_report := v\<rparr>"

definition set_parent_ai_id :: "json \<Rightarrow> ai_identity \<Rightarrow> ai_identity result" where
  "set_parent_ai_id v s = (if \<not> is_valid_hex_hash v
     then Inl (ValueError (''Invalid parent_ai_id format: '' @ json_str v))
     else Inr (s\<lparr>id_parent_ai_id := v\<rparr>))"

definition build_identity :: "ai_identity \<Rightarrow> ai_identity result" where
  "build_identity s = (if list_ex (\<lambda>v. v = JNull) [id_ai_id s, id_model_name s, id_model_version s,
       id_provider_id s, id_execution_environment s]
     then Inl (ValueError (''Missing required fields for AIIdentity. Must set: ai_id, model_name, ''
            @ ''model_version, provider_id, execution_environment''))
     else Inr s)"

subsection \<open>ComputationBuilder\<close>

definition computation_builder :: computation where
  "computation_builder = \<lparr>co_circuit_id = JNull, co_circuit_version = JNull, co_circuit_hash = JNull,
     co_input_hash = JNull, co_output_hash = JNull, co_trace_hash = JNull, co_integrity_hash = JNull\<rparr>"

definition set_circuit_id :: "json \<Rightarrow> computation \<Rightarrow> computation" where
  "set_circuit_id v s = s\<lparr>co_circuit_id := v\<rparr>"

definition set_circuit_version :: "json \<Rightarrow> computation \<Rightarrow> computation" where
  "set_circuit_version v s = s\<lparr>co_circuit_version := v\<rparr>"

definition set_circuit_hash :: "json \<Rightarrow> computation \<Rightarrow> computation" where
  "set_circuit_hash v s = s\<lparr>co_circuit_hash := v\<rparr>"

definition set_input_hash :: "json \<Rightarrow> computation \<Rightarrow> computation" where
  "set_input_hash v s = s\<lparr>co_input_hash := v\<rparr>"

definition set_output_hash :: "json \<Rightarrow> computation \<Rightarrow> computation" where
  "set_output_hash v s = s\<lparr>co_output_hash := v\<rparr>"

definition set_trace_hash :: "json \<Rightarrow> computation \<Rightarrow> computation" where
  "set_trace_hash v s = s\<lparr>co_trace_hash := v\<rparr>"

definition set_integrity_hash :: "json \<Rightarrow> computation \<Rightarrow> computation" where
  "set_integrity_hash v s = s\<lparr>co_integrity_hash := v\<rparr>"

definition builder_integrity_hash :: "computation \<Rightarrow> computation result" where
  "builder_integrity_hash s =
    (if co_input_hash s = JNull \<or> co_output_hash s = JNull \<or> co_trace_hash s = JNull
     then Inl (ValueError ''Must set input_hash, output_hash, and trace_hash first'')
     else rbind (compute_integrity_hash (co_input_hash s) (co_output_hash s) (co_trace_hash s)) (\<lambda>h.
       Inr (s\<lparr>co_integrity_hash := JStr h\<rparr>)))"

text \<open>The names of the unset required fields.\<close>

definition missing_names :: "(json \<times> string) list \<Rightarrow> string list" where
  "missing_names fs = map snd (filter (\<lambda>f. fst f = JNull) fs)"

definition build_computation :: "computation \<Rightarrow> computation result" where
  "build_computation s = (let missing = missing_names [
       (co_circuit_id s, ''circuit_id''), (co_circuit_version s, ''circuit_version''),
       (co_circuit_hash s, ''circuit_hash''), (co_input_hash s, ''input_hash''),
       (co_output_hash s, ''output_hash''), (co_trace_hash s, ''trace_hash''),
       (co_integrity_hash s, ''integrity_hash'')]
     in if missing \<noteq> []
        then Inl (ValueError (''Missing required computation fields: '' @ json_repr (JList (map JStr missing))))
        else Inr s)"

subsection \<open>ProofBuilder\<close>

definition proof_builder :: proof_part where
  "proof_builder = \<lparr>pf_proof_system = JNull, pf_proof_bytes = JNull, pf_public_inputs = JNull,
     pf_verification_key_id = JNull, pf_proof_hash = JNull, pf_commitments = JNull\<rparr>"

definition set_proof_system :: "json \<Rightarrow> proof_part \<Rightarrow> proof_part" where
  "set_proof_system v s = s\<lparr>pf_proof_system := v\<rparr>"

definition set_proof_bytes :: "json \<Rightarrow> proof_part \<Rightarrow> proof_part" where
  "set_proof_bytes v s = s\<lparr>pf_proof_bytes := v\<rparr>"

definition set_public_inputs :: "json \<Rightarrow> proof_part \<Rightarrow> proof_part" where
  "set_public_inputs v s = s\<lparr>pf_public_inputs := v\<rparr>"

definition set_verification_key_id :: "json \<Rightarrow> proof_part \<Rightarrow> proof_part" where
  "set_verification_key_id v s = s\<lparr>pf_verification_key_id := v\<rparr>"

definition set_proof_hash :: "json \<Rightarrow> proof_part \<Rightarrow> proof_part" where
  "set_proof_hash v s = s\<lparr>pf_proof_hash := v\<rparr>"

definition set_commitments :: "json \<Rightarrow> proof_part \<Rightarrow> proof_part" where
  "set_commitments v s = s\<lparr>pf_commitments := v\<rparr>"

definition build_proof :: "proof_part \<Rightarrow> proof_part result" where
  "build_proof s = (let missing = missing_names [
       (pf_proof_system s, ''proof_system''), (pf_proof_bytes s, ''proof_bytes''),
       (pf_public_inputs s, ''public_inputs''), (pf_verification_key_id s, ''verification_key_id''),
       (pf_proof_hash s, ''proof_hash'')]
     in if missing \<noteq> []
        then Inl (ValueError (''Missing required proof fields: '' @ json_repr (JList (map JStr missing))))
        else Inr s)"

subsection \<open>ProofBundleBuilder\<close>

record bundle_builder =
  bb_vrl_version :: json
  bb_bundle_id :: json
  bb_issued_at :: json
  bb_ai_identity :: "ai_identity option"
  bb_computation :: "computation option"
  bb_proof :: "proof_part option"
  bb_data_commitments :: "data_commitment list"
  bb_legal :: "legal option"
  bb_proof_graph :: "proof_graph option"
  bb_trust_context :: "trust_context option"

definition new_builder :: bundle_builder where
  "new_builder = \<lparr>bb_vrl_version = JStr ''1.0'', bb_bundle_id = JNull, bb_issued_at = JNull,
     bb_ai_identity = None, bb_computation = None, bb_proof = None, bb_data_commitments = [],
     bb_legal = None, bb_proof_graph = None, bb_trust_context = None\<rparr>"

definition set_vrl_version :: "json \<Rightarrow> bundle_builder \<Rightarrow> bundle_builder" where
  "set_vrl_version v s = s\<lparr>bb_vrl_version := v\<rparr>"

definition set_bundle_id :: "json \<Rightarrow> bundle_builder \<Rightarrow> bundle_builder" where
  "set_bundle_id v s = s\<lparr>bb_bundle_id := v\<rparr>"

definition set_issued_at :: "json \<Rightarrow> bundle_builder \<Rightarrow> bundle_builder" where
  "set_issued_at v s = s\<lparr>bb_issued_at := v\<rparr>"

text \<open>\<open>now\<close> is the text of \<open>datetime.now(timezone.utc).isoformat(timespec='milliseconds')\<close>.\<close>

definition set_issued_at_now :: "string \<Rightarrow> bundle_builder \<Rightarrow> bundle_builder" where
  "set_issued_at_now now s = s\<lparr>bb_issued_at := JStr (py_replace ''+00:00'' ''Z'' now)\<rparr>"

definition set_ai_identity :: "ai_identity \<Rightarrow> bundle_builder \<Rightarrow> bundle_builder" where
  "set_ai_identity i s = s\<lparr>bb_ai_identity := Some i\<rparr>"

definition set_ai_identity_from_dict :: "json \<Rightarrow> bundle_builder \<Rightarrow> bundle_builder result" where
  "set_ai_identity_from_dict d s = rbind (identity_from_dict d) (\<lambda>i. Inr (s\<lparr>bb_ai_identity := Some i\<rparr>))"

definition set_computation :: "computation \<Rightarrow> bundle_builder \<Rightarrow> bundle_builder" where
  "set_computation c s = s\<lparr>bb_computation := Some c\<rparr>"

definition set_computation_from_dict :: "json \<Rightarrow> bundle_builder \<Rightarrow> bundle_builder result" where
  "set_computation_from_dict d s = rbind (computation_from_dict d) (\<lambda>c. Inr (s\<lparr>bb_computation := Some c\<rparr>))"

definition set_proof :: "proof_part \<Rightarrow> bundle_builder \<Rightarrow> bundle_builder" where
  "set_proof p s = s\<lparr>bb_proof := Some p\<rparr>"

definition set_proof_from_dict :: "json \<Rightarrow> bundle_builder \<Rightarrow> bundle_builder result" where
  "set_proof_from_dict d s = rbind (proof_from_dict d) (\<lambda>p. Inr (s\<lparr>bb_proof := Some p\<rparr>))"

definition add_data_commitment :: "data_commitment \<Rightarrow> bundle_builder \<Rightarrow> bundle_builder" where
  "add_data_commitment c s = s\<lparr>bb_data_commitments := bb_data_commitments s @ [c]\<rparr>"

definition add_data_commitment_from_dict :: "json \<Rightarrow> bundle_builder \<Rightarrow> bundle_builder result" where
  "add_data_commitment_from_dict d s = rbind (commitment_from_dict d) (\<lambda>c.
     Inr (s\<lparr>bb_data_commitments := bb_data_commitments s @ [c]\<rparr>))"

definition set_legal :: "legal \<Rightarrow> bundle_builder \<Rightarrow> bundle_builder" where
  "set_legal l s = s\<lparr>bb_legal := Some l\<rparr>"

definition set_legal_from_dict :: "json \<Rightarrow> bundle_builder \<Rightarrow> bundle_builder result" where
  "set_legal_from_dict d s = rbind (legal_from_dict d) (\<lambda>l. Inr (s\<lparr>bb_legal := Some l\<rparr>))"

definition set_proof_graph :: "proof_graph \<Rightarrow> bundle_builder \<Rightarrow> bundle_builder" where
  "set_proof_graph g s = s\<lparr>bb_proof_graph := Some g\<rparr>"

definition set_proof_graph_from_dict :: "json \<Rightarrow> bundle_builder \<Rightarrow> bundle_builder result" where
  "set_proof_graph_from_dict d s = rbind (graph_from_dict d) (\<lambda>g. Inr (s\<lparr>bb_proof_graph := Some g\<rparr>))"

definition set_trust_context :: "trust_context \<Rightarrow> bundle_builder \<Rightarrow> bundle_builder" where
  "set_trust_context t s = s\<lparr>bb_trust_context := Some t\<rparr>"

definition set_trust_context_from_dict :: "json \<Rightarrow> bundle_builder \<Rightarrow> bundle_builder result" where
  "set_trust_context_from_dict d s = rbind (trust_from_dict d) (\<lambda>t. Inr (s\<lparr>bb_trust_context := Some t\<rparr>))"

text \<open>\<open>build()\<close> also stores the \<open>issued_at\<close> and \<open>bundle_id\<close> it fills in.\<close>

definition build_bundle :: "string \<Rightarrow> bundle_builder \<Rightarrow> (proof_bundle \<times> bundle_builder) result" where
  "build_bundle now s = (case bb_ai_identity s of
       None \<Rightarrow> Inl (ValueError ''ai_identity is required'')
     | Some i \<Rightarrow> (case bb_computation s of
       None \<Rightarrow> Inl (ValueError ''computation is required'')
     | Some c \<Rightarrow> (case bb_proof s of
       None \<Rightarrow> Inl (ValueError ''proof is required'')
     | Some p \<Rightarrow>
       let s1 = (if bb_issued_at s = JNull then set_issued_at_now now s else s) in
       rbind (if bb_bundle_id s1 = JNull
              then rbind (compute_bundle_id_from_integrity (co_integrity_hash c)) (\<lambda>u. Inr (s1\<lparr>bb_bundle_id := JStr u\<rparr>))
              else Inr s1) (\<lambda>s2.
       Inr (\<lparr>pb_vrl_version = bb_vrl_version s2, pb_bundle_id = bb_bundle_id s2, pb_issued_at = bb_issued_at s2,
             pb_ai_identity = i, pb_computation = c, pb_proof = p,
             pb_data_commitments = (if bb_data_commitments s2 = [] then None else Some (bb_data_commitments s2)),
             pb_legal = bb_legal s2, pb_proof_graph = bb_proof_graph s2, pb_trust_context = bb_trust_context s2\<rparr>,
            s2)))))"

subsection \<open>What the builders guarantee\<close>

lemma build_identity_storable:
  assumes "build_identity s = Inr i" "is_valid_hex_hash (id_ai_id s)"
    "in_strings (id_execution_environment s) valid_envs = Inr True"
  shows "identity_storable i"
  using assms by (auto simp: build_identity_def identity_storable_def split: if_splits)

lemma builder_integrity_hash_ok:
  "builder_integrity_hash s = Inr s' \<Longrightarrow> \<exists>x y z. co_input_hash s' = JStr x \<and> co_output_hash s' = JStr y
     \<and> co_trace_hash s' = JStr z \<and> co_integrity_hash s' = JStr (sha256_hex (x @ y @ z))"
  by (auto simp: builder_integrity_hash_def compute_integrity_hash_def concat3_def result_simps
      split: if_splits json.splits)

lemma build_computation_same: "build_computation s = Inr c \<Longrightarrow> c = s \<and> co_circuit_id c \<noteq> JNull
    \<and> co_circuit_hash c \<noteq> JNull \<and> co_integrity_hash c \<noteq> JNull"
  by (auto simp: build_computation_def missing_names_def Let_def split: if_splits)

lemma build_bundle_id:
  assumes "build_bundle now s = Inr (b, s')" "bb_bundle_id s = JNull"
  shows "\<exists>h. co_integrity_hash (pb_computation b) = JStr h \<and> pb_bundle_id b = JStr (uuid5 vrl_namespace h)"
  using assms
  by (auto simp: build_bundle_def set_issued_at_now_def compute_bundle_id_from_integrity_def result_simps Let_def
      split: option.splits if_splits json.splits)

text \<open>A bundle assembled from hashed parts: the identity with its computed AI-ID, a computation
  over digests with the registry's circuit hash and the computed integrity hash, a proof with
  its computed hash.\<close>

definition honest_computation :: "json \<Rightarrow> json \<Rightarrow> string \<Rightarrow> string \<Rightarrow> string \<Rightarrow> computation result" where
  "honest_computation cid cver x y z =
     rbind (builder_integrity_hash (set_trace_hash (JStr (sha256_hex z)) (set_output_hash (JStr (sha256_hex y))
       (set_input_hash (JStr (sha256_hex x)) (set_circuit_hash (JStr (mock_circuit_hash cid cver))
       (set_circuit_version cver (set_circuit_id cid computation_builder))))))) build_computation"

definition honest_proof :: "computation \<Rightarrow> string \<Rightarrow> json \<Rightarrow> json \<Rightarrow> json \<Rightarrow> proof_part result" where
  "honest_proof c system proof_bytes inputs key =
     build_proof (set_proof_hash (JStr (compute_proof_hash (co_circuit_hash c) proof_bytes inputs (JStr system)
         (co_trace_hash c)))
       (set_verification_key_id key (set_public_inputs inputs (set_proof_bytes proof_bytes
       (set_proof_system (JStr system) proof_builder)))))"

definition honest_bundle :: "string \<Rightarrow> ai_identity \<Rightarrow> computation \<Rightarrow> proof_part \<Rightarrow> (proof_bundle \<times> bundle_builder) result" where
  "honest_bundle now i c p = build_bundle now (set_proof p (set_computation c (set_ai_identity i new_builder)))"

lemma honest_computation_fields:
  assumes "honest_computation cid cver x y z = Inr c"
  shows "co_circuit_id c = cid" "co_circuit_version c = cver" "co_circuit_hash c = JStr (mock_circuit_hash cid cver)"
    "co_input_hash c = JStr (sha256_hex x)" "co_output_hash c = JStr (sha256_hex y)"
    "co_trace_hash c = JStr (sha256_hex z)"
    "co_integrity_hash c = JStr (sha256_hex (sha256_hex x @ sha256_hex y @ sha256_hex z))"
  using assms
  by (auto simp: honest_computation_def result_simps builder_integrity_hash_def compute_integrity_hash_def
      concat3_def set_trace_hash_def set_output_hash_def set_input_hash_def set_circuit_hash_def
      set_circuit_version_def set_circuit_id_def computation_builder_def dest!: build_computation_same)

lemma honest_bundle_fields:
  assumes "honest_bundle now i c p = Inr (b, s)"
  shows "pb_vrl_version b = JStr ''1.0''" "pb_issued_at b \<noteq> JNull" "pb_ai_identity b = i"
    "pb_computation b = c" "pb_proof b = p" "pb_data_commitments b = None" "pb_legal b = None"
    "pb_proof_graph b = None" "pb_trust_context b = None" "pb_bundle_id b \<noteq> JNull"
  using assms by (auto simp: honest_bundle_def build_bundle_def set_proof_def set_computation_def set_ai_identity_def
      new_builder_def set_issued_at_now_def result_simps Let_def)

lemma honest_bundle_mandatory:
  assumes c: "honest_computation cid cver x y z = Inr c"
    and p: "honest_proof c system bytes inputs key = Inr p" and sys: "system \<in> set valid_systems"
    and b: "honest_bundle now i c p = Inr (b, s)" and i: "is_valid_hex_hash (id_ai_id i)"
  shows "mandatory_checks mock_registry b" "graph_outcome b = Inr True" "timestamp_complete b"
proof -
  note cf = honest_computation_fields [OF c]
  have pf: "pf_proof_system p = JStr system" "pf_proof_bytes p = bytes" "pf_public_inputs p = inputs"
    "pf_proof_hash p = JStr (compute_proof_hash (co_circuit_hash c) bytes inputs (JStr system) (co_trace_hash c))"
    using p by (auto simp: honest_proof_def build_proof_def set_proof_hash_def set_verification_key_id_def
        set_public_inputs_def set_proof_bytes_def set_proof_system_def Let_def split: if_splits)
  note bf = honest_bundle_fields [OF b]
  have id: "\<exists>h. co_integrity_hash c = JStr h \<and> pb_bundle_id b = JStr (uuid5 vrl_namespace h)"
    using build_bundle_id [OF b [unfolded honest_bundle_def]] bf(4)
    by (simp add: set_proof_def set_computation_def set_ai_identity_def new_builder_def)
  have h: "is_valid_hex_hash (JStr (mock_circuit_hash cid cver))"
    "is_valid_hex_hash (JStr (compute_proof_hash a1 a2 a3 a4 a5))" for a1 a2 a3 a4 a5
    by (simp_all add: mock_circuit_hash_def compute_proof_hash_def)
  show "mandatory_checks mock_registry b"
    using bf cf pf id i sys h
    by (auto simp: mandatory_checks_def Let_def hash_fields_def compute_bundle_id_from_integrity_def
        compute_integrity_hash_def concat3_def mock_registry_def)
  show "graph_outcome b = Inr True" "timestamp_complete b"
    using bf by (simp_all add: graph_outcome_def timestamp_complete_def)
qed

end
