(* ===== verification/Standalone_Verifier.thy ===== *)
theory Standalone_Verifier
  imports Sdk_Verifier
begin

text \<open>
  \<open>verifier/vrl_verify.py\<close>: the standalone verifier.  It works on the parsed JSON of a bundle
  without building the SDK's classes; \<open>d.get(k)\<close> on a value that is not a dictionary raises
  AttributeError.  Its own copies of the hash functions are modelled again and shown equal to
  the SDK's.  The last section relates the two verifiers.
\<close>

subsection \<open>Hashing utilities\<close>

function std_canonical_json :: "json \<Rightarrow> string" where
  "std_canonical_json (JDict kvs) = ''{'' @ join '','' (map (\<lambda>kv.
     json_string (fst kv) @ '':'' @ std_canonical_json (snd kv)) (sort_key fst kvs)) @ ''}''"
| "std_canonical_json (JList vs) = ''['' @ join '','' (map std_canonical_json vs) @ '']''"
| "std_canonical_json (JStr s) = json_string s"
| "std_canonical_json (JBool b) = (if b then ''true'' else ''false'')"
| "std_canonical_json JNull = ''null''"
| "std_canonical_json (JInt n) = int_text n"
| "std_canonical_json (JFloat t) = t"
  by pat_completeness auto
termination by (relation "measure size") (auto intro: size_pair_list size_member)

lemma std_canonical_json_sdk: "std_canonical_json v = sdk_canonical_json v"
proof (induction v rule: std_canonical_json.induct)
  case (1 kvs)
  then have "map (\<lambda>kv. json_string (fst kv) @ '':'' @ std_canonical_json (snd kv)) (sort_key fst kvs)
      = map (\<lambda>kv. json_string (fst kv) @ '':'' @ sdk_canonical_json (snd kv)) (sort_key fst kvs)"
    by (intro map_cong) auto
  then show ?case by (simp only: std_canonical_json.simps sdk_canonical_json.simps)
next
  case (2 vs)
  then have "map std_canonical_json vs = map sdk_canonical_json vs" by (intro map_cong) auto
  then show ?case by (simp only: std_canonical_json.simps sdk_canonical_json.simps)
qed simp_all

definition std_integrity_hash :: "json \<Rightarrow> json \<Rightarrow> json \<Rightarrow> string result" where
  "std_integrity_hash input_hash output_hash trace_hash =
     rbind (concat3 input_hash output_hash trace_hash) (\<lambda>s. Inr (sha256_hex s))"

definition std_proof_hash :: "json \<Rightarrow> json \<Rightarrow> json \<Rightarrow> json \<Rightarrow> json \<Rightarrow> string" where
  "std_proof_hash circuit_hash proof_bytes public_inputs proof_system trace_hash =
     (let public_inputs_hash = sha256_hex (std_canonical_json public_inputs) in
      sha256_hex (std_canonical_json (JDict [
        (''circuit_hash'', circuit_hash), (''proof_bytes'', proof_bytes),
        (''proof_system'', proof_system), (''public_inputs'', public_inputs),
        (''public_inputs_hash'', JStr public_inputs_hash), (''trace_hash'', trace_hash)])))"

definition std_commitment_hash :: "json \<Rightarrow> json \<Rightarrow> json \<Rightarrow> json \<Rightarrow> json \<Rightarrow> string" where
  "std_commitment_hash dataset_id ds_version ds_hash provider_id committed_at =
     sha256_hex (std_canonical_json (JDict [
       (''committed_at'', committed_at), (''dataset_hash'', ds_hash), (''dataset_id'', dataset_id),
       (''dataset_version'', ds_version), (''provider_id'', provider_id)]))"

lemma std_hashes_sdk:
  "std_integrity_hash = compute_integrity_hash" "std_proof_hash = compute_proof_hash"
  "std_commitment_hash = compute_commitment_hash"
  by (intro ext; simp add: std_integrity_hash_def compute_integrity_hash_def std_proof_hash_def
      compute_proof_hash_def std_commitment_hash_def compute_commitment_hash_def std_canonical_json_sdk)+

definition std_circuit_hash :: "json \<Rightarrow> json \<Rightarrow> string" where
  "std_circuit_hash circuit_id circuit_version = sha256_hex (std_canonical_json (JDict [
     (''circuit_id'', circuit_id), (''circuit_version'', circuit_version),
     (''spec_version'', JStr ''vrl/circuit/1.0'')]))"

definition std_registry :: registry where
  "std_registry circuit_id circuit_version = Some [
     (''circuit_id'', circuit_id), (''circuit_version'', circuit_version),
     (''circuit_hash'', JStr (std_circuit_hash circuit_id circuit_version))]"

lemma std_registry_sdk: "std_registry = mock_registry"
  by (intro ext) (simp add: std_registry_def mock_registry_def std_circuit_hash_def mock_circuit_hash_def
      std_canonical_json_sdk)

subsection \<open>Results\<close>

record std_detail =
  sd_step :: string
  sd_status :: string
  sd_message :: string
  sd_error_code :: "vstatus option"
  sd_computed_value :: json
  sd_expected_value :: json

record std_result =
  sr_status :: vstatus
  sr_bundle_id :: json
  sr_details :: "std_detail list"
  sr_errors :: "vstatus list"
  sr_is_valid :: bool

definition std_result_to_dict :: "std_result \<Rightarrow> json" where
  "std_result_to_dict r = JDict [
     (''status'', JStr (status_value (sr_status r))), (''bundle_id'', sr_bundle_id r),
     (''is_valid'', JBool (sr_is_valid r)),
     (''errors'', JList (map (\<lambda>e. JStr (status_value e)) (sr_errors r))),
     (''details'', JList (map (\<lambda>d. JDict [(''step'', JStr (sd_step d)), (''status'', JStr (sd_status d)),
        (''message'', JStr (sd_message d)),
        (''error_code'', case sd_error_code d of Some e \<Rightarrow> JStr (status_value e) | None \<Rightarrow> JNull),
        (''computed_value'', sd_computed_value d), (''expected_value'', sd_expected_value d)])
        (sr_details r)))]"

text \<open>The section sign that begins every step title.\<close>

definition title :: "string \<Rightarrow> string" where
  "title s = CHR 0xA7 # s"

definition std_pass :: "string \<Rightarrow> string \<Rightarrow> json \<Rightarrow> std_result \<Rightarrow> std_result" where
  "std_pass st msg computed r = r\<lparr>sr_details := sr_details r @
     [\<lparr>sd_step = title st, sd_status = ''PASS'', sd_message = msg, sd_error_code = None,
       sd_computed_value = computed, sd_expected_value = JNull\<rparr>]\<rparr>"

definition std_error :: "string \<Rightarrow> string \<Rightarrow> vstatus \<Rightarrow> json \<Rightarrow> json \<Rightarrow> std_result \<Rightarrow> std_result" where
  "std_error st msg code computed expected r = r\<lparr>sr_details := sr_details r @
     [\<lparr>sd_step = title st, sd_status = ''FAIL'', sd_message = msg, sd_error_code = Some code,
       sd_computed_value = computed, sd_expected_value = expected\<rparr>], sr_errors := sr_errors r @ [code]\<rparr>"

definition std_failure :: "string \<Rightarrow> string \<Rightarrow> vstatus \<Rightarrow> json \<Rightarrow> json \<Rightarrow> std_result \<Rightarrow> std_result" where
  "std_failure st msg code computed expected r =
     (std_error st msg code computed expected r)\<lparr>sr_status := code, sr_is_valid := False\<rparr>"

text \<open>\<open>bundle.get(k, {})\<close> followed by \<open>.get\<close>.\<close>

definition sub_dict :: "items \<Rightarrow> string \<Rightarrow> items result" where
  "sub_dict d k = (case map_of d k of None \<Rightarrow> Inr [] | Some v \<Rightarrow> dict_items v)"

subsection \<open>The ten steps\<close>

definition std_step1 :: "items \<Rightarrow> std_result \<Rightarrow> bool \<times> std_result" where
  "std_step1 d r = (let v = dict_get d ''vrl_version'' in
     if v \<noteq> JStr ''1.0''
     then (False, std_failure ''12.1 Version Check'' (''Unsupported vrl_version: '' @ json_str v)
             UNSUPPORTED_VERSION JNull JNull r)
     else (True, std_pass ''12.1 Version Check'' (''vrl_version '' @ json_str v @ '' is supported'') JNull r))"

definition std_required :: "string list" where
  "std_required = [''bundle_id'', ''vrl_version'', ''issued_at'', ''ai_identity'', ''computation'', ''proof'']"

definition std_hash_fields :: "string list" where
  "std_hash_fields = [''circuit_hash'', ''input_hash'', ''output_hash'', ''trace_hash'', ''integrity_hash'']"

definition schema_failure :: "string \<Rightarrow> std_result \<Rightarrow> bool \<times> std_result" where
  "schema_failure msg r = (False, std_failure ''12.2 Schema Validation'' msg SCHEMA_INVALID JNull JNull r)"

definition std_step2 :: "items \<Rightarrow> std_result \<Rightarrow> (bool \<times> std_result) result" where
  "std_step2 d r = (case find (\<lambda>k. k \<notin> set (map fst d)) std_required of
       Some k \<Rightarrow> Inr (schema_failure (''Required field missing: '' @ k) r)
     | None \<Rightarrow>
       rbind (sub_dict d ''ai_identity'') (\<lambda>i.
       if \<not> is_valid_hex_hash (dict_get i ''ai_id'') then Inr (schema_failure ''Invalid ai_id format'' r)
       else rbind (sub_dict d ''computation'') (\<lambda>c.
         case find (\<lambda>k. \<not> is_valid_hex_hash (dict_get c k)) std_hash_fields of
           Some k \<Rightarrow> Inr (schema_failure (''Invalid '' @ k @ '' format'') r)
         | None \<Rightarrow>
           rbind (sub_dict d ''proof'') (\<lambda>p.
           Inr (if \<not> is_valid_hex_hash (dict_get p ''proof_hash'')
             then schema_failure ''Invalid proof_hash format'' r
             else (True, std_pass ''12.2 Schema Validation''
                     ''All required fields present and valid'' JNull r))))))"

definition std_step3 :: "items \<Rightarrow> std_result \<Rightarrow> (bool \<times> std_result) result" where
  "std_step3 d r = rbind (sub_dict d ''computation'') (\<lambda>c.
     case compute_bundle_id_from_integrity (dict_get c ''integrity_hash'') of
       Inl e \<Rightarrow> Inr (False, std_failure ''12.3 bundle_id Recomputation''
         (''Could not recompute bundle_id: '' @ error_text e) BUNDLE_ID_MISMATCH JNull JNull r)
     | Inr recomputed \<Rightarrow>
       let stored = dict_get d ''bundle_id'' in
       Inr (if JStr recomputed \<noteq> stored
         then (False, std_failure ''12.3 bundle_id Recomputation'' ''bundle_id mismatch'' BUNDLE_ID_MISMATCH
                 (JStr recomputed) stored r)
         else (True, std_pass ''12.3 bundle_id Recomputation''
                 (''bundle_id '' @ json_str stored @ '' is valid'') (JStr recomputed) r)))"

definition std_step4 :: "items \<Rightarrow> std_result \<Rightarrow> (bool \<times> std_result) result" where
  "std_step4 d r = rbind (sub_dict d ''computation'') (\<lambda>c.
     rbind (std_integrity_hash (dict_get c ''input_hash'') (dict_get c ''output_hash'') (dict_get c ''trace_hash''))
       (\<lambda>recomputed.
     let stored = dict_get c ''integrity_hash'' in
     Inr (if JStr recomputed \<noteq> stored
       then (False, std_failure ''12.4 Integrity Hash Recomputation'' ''integrity_hash mismatch''
               INTEGRITY_MISMATCH (JStr recomputed) stored r)
       else (True, std_pass ''12.4 Integrity Hash Recomputation'' ''integrity_hash verified'' (JStr recomputed) r))))"

definition std_step5 :: "registry \<Rightarrow> items \<Rightarrow> std_result \<Rightarrow> (bool \<times> std_result) result" where
  "std_step5 reg d r = rbind (sub_dict d ''computation'') (\<lambda>c.
     let cid = dict_get c ''circuit_id''; cver = dict_get c ''circuit_version'';
         stored = dict_get c ''circuit_hash''
     in case reg cid cver of
       None \<Rightarrow> Inr (False, std_failure ''12.5 Circuit Registry Lookup''
         (''Circuit not found: '' @ json_str cid @ ''@'' @ json_str cver) CIRCUIT_HASH_MISMATCH JNull JNull r)
     | Some circuit \<Rightarrow> let computed = dict_get circuit ''circuit_hash'' in
         Inr (if computed \<noteq> stored
           then (False, std_failure ''12.5 Circuit Registry Lookup'' ''circuit_hash mismatch''
                   CIRCUIT_HASH_MISMATCH computed stored r)
           else (True, std_pass ''12.5 Circuit Registry Lookup'' (''Circuit '' @ json_str cid @ '' verified'')
                   computed r)))"

text \<open>\<open>d.get(k, default)\<close>.\<close>

definition dict_get_or :: "items \<Rightarrow> string \<Rightarrow> json \<Rightarrow> json" where
  "dict_get_or d k v = (case map_of d k of Some w \<Rightarrow> w | None \<Rightarrow> v)"

definition std_step6 :: "items \<Rightarrow> std_result \<Rightarrow> (bool \<times> std_result) result" where
  "std_step6 d r = rbind (sub_dict d ''proof'') (\<lambda>p. rbind (sub_dict d ''computation'') (\<lambda>c.
     let system = dict_get p ''proof_system'' in
     rbind (in_strings system valid_systems) (\<lambda>known.
     Inr (if \<not> known
       then (False, std_failure ''12.6 Proof Verification'' (''Invalid proof_system: '' @ json_str system)
               PROOF_INVALID JNull JNull r)
       else let recomputed = std_proof_hash (dict_get c ''circuit_hash'') (dict_get_or p ''proof_bytes'' (JStr []))
                  (dict_get_or p ''public_inputs'' (JList [])) system (dict_get c ''trace_hash'');
                stored = dict_get p ''proof_hash'' in
         if JStr recomputed \<noteq> stored
         then (False, std_failure ''12.6 Proof Verification'' ''proof_hash mismatch'' PROOF_INVALID
                 (JStr recomputed) stored r)
         else (True, std_pass ''12.6 Proof Verification'' (''Proof structure valid for '' @ json_str system)
                 (JStr recomputed) r)))))"

definition std_step7 :: "items \<Rightarrow> std_result \<Rightarrow> (bool \<times> std_result) result" where
  "std_step7 d r = rbind (sub_dict d ''ai_identity'') (\<lambda>i.
     Inr (if \<not> is_valid_hex_hash (dict_get i ''ai_id'')
       then (False, std_failure ''12.7 AI-ID Verification'' ''Invalid ai_id format'' AI_ID_INVALID JNull JNull r)
       else if \<not> truthy (dict_get i ''provider_signature'')
       then (True, std_pass ''12.7 AI-ID Verification''
               ''AI-ID format valid (no provider_signature; AI-ID is advisory only)'' JNull r)
       else (True, std_pass ''12.7 AI-ID Verification''
               ''AI-ID valid (provider_signature present but not verified in standalone mode)'' JNull r)))"

fun std_commitments :: "nat \<Rightarrow> json list \<Rightarrow> (nat \<times> json \<times> string \<times> json) option result" where
  "std_commitments i [] = Inr None"
| "std_commitments i (v # vs) = rbind (dict_items v) (\<lambda>c.
     let recomputed = std_commitment_hash (dict_get c ''dataset_id'') (dict_get c ''dataset_version'')
           (dict_get c ''dataset_hash'') (dict_get c ''provider_id'') (dict_get c ''committed_at'');
         stored = dict_get c ''commitment_hash'' in
     if JStr recomputed \<noteq> stored then Inr (Some (i, dict_get c ''dataset_id'', recomputed, stored))
     else std_commitments (Suc i) vs)"

definition std_step8 :: "items \<Rightarrow> std_result \<Rightarrow> (bool \<times> std_result) result" where
  "std_step8 d r = (let commitments = dict_get_or d ''data_commitments'' (JList []) in
     if \<not> truthy commitments
     then Inr (True, std_pass ''12.8 Data Commitment Signatures'' ''No data commitments'' JNull r)
     else rbind (iterate commitments) (\<lambda>vs. rbind (std_commitments 0 vs) (\<lambda>bad.
       Inr (case bad of
           Some (i, dataset_id, recomputed, stored) \<Rightarrow> (False, std_failure
             (''12.8 Data Commitment Signatures ['' @ int_text (int i) @ '']'')
             (''commitment_hash mismatch for '' @ json_str dataset_id) DATA_COMMITMENT_INVALID
             (JStr recomputed) stored r)
         | None \<Rightarrow> (True, std_pass ''12.8 Data Commitment Signatures''
             (''All '' @ int_text (int (length vs)) @ '' data commitments verified'') JNull r)))))"

definition std_step9 :: "items \<Rightarrow> std_result \<Rightarrow> (bool \<times> std_result) result" where
  "std_step9 d r = rbind (sub_dict d ''legal'') (\<lambda>l.
     let tsa = dict_get_or l ''timestamp_authority'' (JDict []) in
     if \<not> truthy tsa then Inr (True, r)
     else rbind (dict_items tsa) (\<lambda>t.
       Inr (if \<not> (truthy (dict_get t ''tsa_token'') \<and> truthy (dict_get t ''tsa_provider'')
                  \<and> truthy (dict_get t ''tsa_hash_algorithm''))
         then (False, std_error ''12.9 Timestamp Validation'' ''Incomplete timestamp_authority block''
                 TIMESTAMP_INVALID JNull JNull r)
         else (True, std_pass ''12.9 Timestamp Validation''
                 (''Timestamp token from '' @ json_str (dict_get t ''tsa_provider'')
                    @ '' (RFC 3161 verification skipped in standalone mode)'') JNull r))))"

text \<open>Here ValueError and AttributeError are caught.\<close>

fun std_bad_edge :: "json list \<Rightarrow> json option result" where
  "std_bad_edge [] = Inr None"
| "std_bad_edge (e # es) = (case uuid_of e of
     Inr _ \<Rightarrow> std_bad_edge es
   | Inl (ValueError m) \<Rightarrow> Inr (Some e)
   | Inl AttributeError \<Rightarrow> Inr (Some e)
   | Inl err \<Rightarrow> Inl err)"

definition std_step10 :: "items \<Rightarrow> std_result \<Rightarrow> (bool \<times> std_result) result" where
  "std_step10 d r = rbind (sub_dict d ''proof_graph'') (\<lambda>g.
     let depends_on = dict_get_or g ''depends_on'' (JList []) in
     if \<not> truthy depends_on then Inr (True, r)
     else rbind (iterate depends_on) (\<lambda>es. rbind (std_bad_edge es) (\<lambda>bad.
       Inr (case bad of
           Some e \<Rightarrow> (False, std_error ''12.10 Output Envelope Binding''
             (''Invalid bundle_id in depends_on: '' @ json_str e) GRAPH_EDGE_INVALID JNull JNull r)
         | None \<Rightarrow> (True, std_pass ''12.10 Output Envelope Binding''
             ''Proof graph edges valid (recursive verification skipped in standalone mode)'' JNull r)))))"

subsection \<open>verify and main\<close>

definition std_continue :: "bool \<times> std_result \<Rightarrow> (std_result \<Rightarrow> std_result result) \<Rightarrow> std_result result" where
  "std_continue x k = (if fst x then k (snd x) else Inr (snd x))"

definition std_partial :: "bool \<times> std_result \<Rightarrow> std_result" where
  "std_partial x = (if fst x then snd x else (snd x)\<lparr>sr_status := VALID_PARTIAL\<rparr>)"

definition std_final :: "std_result \<Rightarrow> std_result" where
  "std_final r = r\<lparr>sr_is_valid := (sr_status r = VALID \<and> sr_errors r = [])\<rparr>"

text \<open>Step 9 runs when \<open>legal\<close> and its \<open>timestamp_authority\<close> are truthy, step 10 when
  \<open>proof_graph\<close> and its \<open>depends_on\<close> are.\<close>

definition std_optional :: "string \<Rightarrow> string \<Rightarrow> (items \<Rightarrow> std_result \<Rightarrow> (bool \<times> std_result) result)
    \<Rightarrow> items \<Rightarrow> std_result \<Rightarrow> std_result result" where
  "std_optional outer inner step d r = (let v = dict_get d outer in
     if \<not> truthy v then Inr r
     else rbind (dict_items v) (\<lambda>l.
       if \<not> truthy (dict_get l inner) then Inr r
       else rbind (step d r) (\<lambda>x. Inr (std_partial x))))"

definition std_verify :: "registry \<Rightarrow> json \<Rightarrow> std_result result" where
  "std_verify reg bundle = rbind (dict_items bundle) (\<lambda>d.
     let r = \<lparr>sr_status = VALID, sr_bundle_id = dict_get_or d ''bundle_id'' (JStr ''unknown''),
              sr_details = [], sr_errors = [], sr_is_valid = True\<rparr> in
     std_continue (std_step1 d r) (\<lambda>r.
     rbind (std_step2 d r) (\<lambda>x. std_continue x (\<lambda>r.
     rbind (std_step3 d r) (\<lambda>x. std_continue x (\<lambda>r.
     rbind (std_step4 d r) (\<lambda>x. std_continue x (\<lambda>r.
     rbind (std_step5 reg d r) (\<lambda>x. std_continue x (\<lambda>r.
     rbind (std_step6 d r) (\<lambda>x. std_continue x (\<lambda>r.
     rbind (std_step7 d r) (\<lambda>x. std_continue x (\<lambda>r.
     rbind (std_step8 d r) (\<lambda>x. std_continue x (\<lambda>r.
     rbind (std_optional ''legal'' ''timestamp_authority'' std_step9 d r) (\<lambda>r.
     rbind (std_optional ''proof_graph'' ''depends_on'' std_step10 d r) (\<lambda>r.
       Inr (std_final r)))))))))))))))))))"

text \<open>The exit code of \<open>main\<close> for the outcome of reading the input (\<open>None\<close>: the file is
  missing or not JSON).  An exception that leaves \<open>verify\<close> ends the interpreter with 1.\<close>

definition std_exit_code :: "registry \<Rightarrow> json option \<Rightarrow> int" where
  "std_exit_code reg input = (case input of
       None \<Rightarrow> 2
     | Some bundle \<Rightarrow> (case std_verify reg bundle of
           Inr r \<Rightarrow> if sr_is_valid r then 0 else 1
         | Inl e \<Rightarrow> 1))"

subsection \<open>The two verifiers agree\<close>

text \<open>\<open>same r s\<close>: the SDK's record \<open>r\<close> and the standalone record \<open>s\<close> have the same status and
  errors; \<open>live r s\<close>: and no error so far.  A step pair agrees when both go on, still without
  an error, or both stop with the same error, which leaves the standalone record not valid.\<close>

definition same :: "vresult \<Rightarrow> std_result \<Rightarrow> bool" where
  "same r s \<longleftrightarrow> sr_status s = ve_status r \<and> sr_errors s = ve_errors r"

definition live :: "vresult \<Rightarrow> std_result \<Rightarrow> bool" where
  "live r s \<longleftrightarrow> same r s \<and> ve_status r = VALID \<and> ve_errors r = []"

definition agree :: "vresult \<Rightarrow> std_result \<Rightarrow> bool" where
  "agree r s \<longleftrightarrow> same r s \<and> (sr_is_valid s \<longleftrightarrow> ve_status r = VALID)"

definition step_agree :: "bool \<times> vresult \<Rightarrow> bool \<times> std_result \<Rightarrow> bool" where
  "step_agree x y \<longleftrightarrow> fst y = fst x \<and> (if fst x then live (snd x) (snd y)
     else same (snd x) (snd y) \<and> ve_status (snd x) \<noteq> VALID \<and> \<not> sr_is_valid (snd y))"

definition opt_agree :: "bool \<times> vresult \<Rightarrow> bool \<times> std_result \<Rightarrow> bool" where
  "opt_agree x y \<longleftrightarrow> fst y = fst x \<and> same (snd x) (snd y)"

lemma std_updates [simp]:
  "sr_status (std_pass st m v r) = sr_status r" "sr_errors (std_pass st m v r) = sr_errors r"
  "sr_status (std_error st m c v w r) = sr_status r" "sr_errors (std_error st m c v w r) = sr_errors r @ [c]"
  "sr_status (std_failure st m c v w r) = c" "sr_errors (std_failure st m c v w r) = sr_errors r @ [c]"
  "\<not> sr_is_valid (std_failure st m c v w r)"
  by (simp_all add: std_pass_def std_error_def std_failure_def)

lemma agree_outcomes:
  "live r s \<Longrightarrow> step_agree (True, add_pass st m r) (True, std_pass st' m' v s)"
  "live r s \<Longrightarrow> code \<noteq> VALID \<Longrightarrow> step_agree (False, add_failure st m code r) (False, std_failure st' m' code v w s)"
  "same r s \<Longrightarrow> opt_agree (True, add_pass st m r) (True, std_pass st' m' v s)"
  "same r s \<Longrightarrow> opt_agree (False, add_error st m code r) (False, std_error st' m' code v w s)"
  "same r s \<Longrightarrow> opt_agree (True, r) (True, s)"
  by (simp_all add: step_agree_def opt_agree_def same_def live_def)

lemma rel_sum_Inr: "rel_sum (=) P (Inr x) z \<longleftrightarrow> (\<exists>y. z = Inr y \<and> P x y)"
  by (cases z) auto

lemma rel_sum_rbind:
  "rel_sum (=) P a b \<Longrightarrow> (\<And>x y. P x y \<Longrightarrow> rel_sum (=) Q (f x) (g y)) \<Longrightarrow> rel_sum (=) Q (rbind a f) (rbind b g)"
  by (cases a; cases b) auto

lemma rel_sum_rbind_right:
  "\<exists>y. z = Inr y \<and> P x y \<Longrightarrow> (\<And>y. P x y \<Longrightarrow> rel_sum (=) Q a (g y)) \<Longrightarrow> rel_sum (=) Q a (rbind z g)"
  by auto

lemma rel_sum_continue:
  assumes "step_agree x y" "\<And>r s. fst x \<Longrightarrow> live r s \<Longrightarrow> rel_sum (=) agree (k r) (k' s)"
  shows "rel_sum (=) agree (continue_if x k) (std_continue y k')"
  using assms by (auto simp: continue_if_def std_continue_def step_agree_def agree_def)

text \<open>The dictionary of a bundle, seen through \<open>get\<close>.\<close>

lemma sub_dict_bundle:
  "sub_dict (bundle_items b) ''computation'' = dict_items (computation_to_dict (pb_computation b))"
  "sub_dict (bundle_items b) ''proof'' = dict_items (proof_to_dict (pb_proof b))"
  "sub_dict (bundle_items b) ''ai_identity'' = dict_items (identity_to_dict (pb_ai_identity b))"
  by (simp_all add: sub_dict_def bundle_items_def)

definition computation_items :: "computation \<Rightarrow> items" where
  "computation_items c = projr (dict_items (computation_to_dict c))"

lemma computation_items: "dict_items (computation_to_dict c) = Inr (computation_items c)"
  "dict_get (computation_items c) ''circuit_id'' = co_circuit_id c"
  "dict_get (computation_items c) ''circuit_version'' = co_circuit_version c"
  "dict_get (computation_items c) ''circuit_hash'' = co_circuit_hash c"
  "dict_get (computation_items c) ''input_hash'' = co_input_hash c"
  "dict_get (computation_items c) ''output_hash'' = co_output_hash c"
  "dict_get (computation_items c) ''trace_hash'' = co_trace_hash c"
  "dict_get (computation_items c) ''integrity_hash'' = co_integrity_hash c"
  by (simp_all add: computation_items_def computation_to_dict_def dict_items_def)

definition proof_items :: "proof_part \<Rightarrow> items" where
  "proof_items p = projr (dict_items (proof_to_dict p))"

lemma dict_get_or_get: "dict_get d k \<noteq> JNull \<Longrightarrow> dict_get_or d k v = dict_get d k"
  by (auto simp: dict_get_def dict_get_or_def split: option.splits)

lemma proof_items: "dict_items (proof_to_dict p) = Inr (proof_items p)"
  "dict_get (proof_items p) ''proof_system'' = pf_proof_system p"
  "dict_get (proof_items p) ''proof_hash'' = pf_proof_hash p"
  "dict_get (proof_items p) ''proof_bytes'' = pf_proof_bytes p"
  "dict_get (proof_items p) ''public_inputs'' = pf_public_inputs p"
  by (simp_all add: proof_items_def proof_to_dict_def dict_items_def dict_get_omit_none)

definition identity_items :: "ai_identity \<Rightarrow> items" where
  "identity_items i = projr (dict_items (identity_to_dict i))"

lemma identity_items: "dict_items (identity_to_dict i) = Inr (identity_items i)"
  "dict_get (identity_items i) ''ai_id'' = id_ai_id i"
  "dict_get (identity_items i) ''provider_signature'' = id_provider_signature i"
  by (simp_all add: identity_items_def identity_to_dict_def dict_items_def dict_get_omit_none)

lemma agree1: "live r s \<Longrightarrow> step_agree (step1_version b r) (std_step1 (bundle_items b) s)"
  by (simp add: step1_version_def std_step1_def bundle_items_get agree_outcomes)

lemma agree2:
  assumes "live r s" "pb_bundle_id b \<noteq> JNull" "pb_issued_at b \<noteq> JNull"
  shows "\<exists>y. std_step2 (bundle_items b) s = Inr y \<and> step_agree (step2_schema b r) y"
proof -
  have k: "find (\<lambda>k. k \<notin> fst ` set (bundle_items b)) std_required = None"
    by (simp add: std_required_def bundle_items_def)
  have "rel_sum (=) step_agree (Inr (step2_schema b r)) (std_step2 (bundle_items b) s)"
    using assms
    by (simp add: step2_schema_def std_step2_def k sub_dict_bundle identity_items computation_items proof_items
        schema_failure_def agree_outcomes std_hash_fields_def hash_fields_def)
  then show ?thesis by (simp add: rel_sum_Inr)
qed

lemma agree3:
  assumes "live r s" "is_valid_hex_hash (co_integrity_hash (pb_computation b))"
  shows "rel_sum (=) step_agree (step3_bundle_id b r) (std_step3 (bundle_items b) s)"
proof -
  obtain h where "co_integrity_hash (pb_computation b) = JStr h" using valid_hash_string assms(2) by blast
  then show ?thesis using assms(1)
    by (simp add: step3_bundle_id_def std_step3_def sub_dict_bundle computation_items bundle_items_get
        compute_bundle_id_from_integrity_def Let_def agree_outcomes)
qed

lemma agree4: "live r s \<Longrightarrow> rel_sum (=) step_agree (step4_integrity b r) (std_step4 (bundle_items b) s)"
  by (cases "compute_integrity_hash (co_input_hash (pb_computation b)) (co_output_hash (pb_computation b))
      (co_trace_hash (pb_computation b))")
    (simp_all add: step4_integrity_def std_step4_def sub_dict_bundle computation_items std_hashes_sdk Let_def
      agree_outcomes)

lemma agree5: "live r s \<Longrightarrow> rel_sum (=) step_agree (step5_circuit mock_registry b r) (std_step5 mock_registry (bundle_items b) s)"
  by (simp add: step5_circuit_def std_step5_def sub_dict_bundle computation_items mock_registry_def Let_def
      agree_outcomes)

lemma agree6:
  assumes "live r s" "pf_proof_bytes (pb_proof b) \<noteq> JNull" "pf_public_inputs (pb_proof b) \<noteq> JNull"
  shows "rel_sum (=) step_agree (step6_proof b r) (std_step6 (bundle_items b) s)"
  using assms
  by (cases "in_strings (pf_proof_system (pb_proof b)) valid_systems")
    (simp_all add: step6_proof_def std_step6_def sub_dict_bundle computation_items proof_items std_hashes_sdk Let_def
      dict_get_or_get agree_outcomes)

lemma agree7:
  assumes "live r s" "is_valid_hex_hash (id_ai_id (pb_ai_identity b))"
  shows "\<exists>y. std_step7 (bundle_items b) s = Inr y \<and> step_agree (step7_ai_id b r) y"
  using assms by (simp add: step7_ai_id_def std_step7_def sub_dict_bundle identity_items Let_def agree_outcomes)

lemma commitment_items:
  "\<exists>kvs. dict_items (commitment_to_dict c) = Inr kvs \<and> dict_get kvs ''dataset_id'' = dc_dataset_id c
     \<and> dict_get kvs ''dataset_version'' = dc_dataset_version c \<and> dict_get kvs ''dataset_hash'' = dc_dataset_hash c
     \<and> dict_get kvs ''provider_id'' = dc_provider_id c \<and> dict_get kvs ''committed_at'' = dc_committed_at c
     \<and> dict_get kvs ''commitment_hash'' = dc_commitment_hash c"
  by (simp add: commitment_to_dict_def dict_items_def dict_get_omit_none)

lemma std_commitments_map:
  "std_commitments i (map commitment_to_dict cs) = Inr (map_option (\<lambda>(j, c). (j, dc_dataset_id c,
     compute_commitment_hash (dc_dataset_id c) (dc_dataset_version c) (dc_dataset_hash c) (dc_provider_id c)
       (dc_committed_at c), dc_commitment_hash c)) (first_mismatch i cs))"
proof (induction cs arbitrary: i)
  case (Cons c cs)
  then show ?case using commitment_items [of c]
    by (auto simp: commitment_matches_def std_hashes_sdk Let_def)
qed simp

lemma agree8:
  assumes "live r s"
  shows "\<exists>y. std_step8 (bundle_items b) s = Inr y \<and> step_agree (step8_commitments b r) y"
proof (cases "\<exists>c cs. pb_data_commitments b = Some (c # cs)")
  case True
  then obtain c cs where dcs: "pb_data_commitments b = Some (c # cs)" by blast
  have g: "dict_get_or (bundle_items b) ''data_commitments'' (JList []) = JList (map commitment_to_dict (c # cs))"
    using dcs by (subst dict_get_or_get) (simp_all add: bundle_items_get)
  show ?thesis
  proof (cases "first_mismatch 0 (c # cs)")
    case None
    then show ?thesis using assms dcs std_commitments_map [of 0 "c # cs"]
      by (simp add: std_step8_def g step8_commitments_def agree_outcomes del: std_commitments.simps first_mismatch.simps)
  next
    case (Some x)
    then show ?thesis using assms dcs std_commitments_map [of 0 "c # cs"]
      by (cases x) (simp add: std_step8_def g step8_commitments_def agree_outcomes
          del: std_commitments.simps first_mismatch.simps)
  qed
next
  case False
  then have "dict_get_or (bundle_items b) ''data_commitments'' (JList []) = JList []"
    by (auto simp: dict_get_or_def bundle_items_def split: option.splits list.splits)
  moreover have "step8_commitments b r = (True, add_pass ''Data Commitment Verification'' ''No data commitments'' r)"
    using False by (auto simp: step8_commitments_def split: option.splits list.splits)
  ultimately show ?thesis using assms by (simp add: std_step8_def agree_outcomes)
qed

lemma legal_items:
  "\<exists>kvs. legal_to_dict l = JDict kvs \<and> dict_get kvs ''timestamp_authority''
     = (case lg_timestamp_authority l of Some t \<Rightarrow> timestamp_to_dict t | None \<Rightarrow> JNull)"
  by (cases "lg_timestamp_authority l"; cases "lg_immutable_anchor l")
    (simp_all add: legal_to_dict_def dict_get_omit_none)

lemma same_partial: "opt_agree x y \<Longrightarrow> same (partial_unless x) (std_partial y)"
  by (simp add: opt_agree_def same_def partial_unless_def std_partial_def)

lemma agree9:
  assumes "same r s"
  shows "\<exists>s'. std_optional ''legal'' ''timestamp_authority'' std_step9 (bundle_items b) s = Inr s'
    \<and> same (after_timestamp b r) s'"
proof (cases "pb_legal b")
  case None
  then show ?thesis using assms by (simp add: std_optional_def bundle_items_get after_timestamp_def)
next
  case (Some l)
  obtain kvs where kvs: "legal_to_dict l = JDict kvs" "dict_get kvs ''timestamp_authority''
     = (case lg_timestamp_authority l of Some t \<Rightarrow> timestamp_to_dict t | None \<Rightarrow> JNull)"
    using legal_items by blast
  have sub: "sub_dict (bundle_items b) ''legal'' = Inr kvs"
    using Some kvs(1) by (simp add: sub_dict_def bundle_items_def dict_items_def split: option.splits list.splits)
  show ?thesis
  proof (cases "lg_timestamp_authority l")
    case None
    then show ?thesis using Some assms kvs
      by (simp add: std_optional_def bundle_items_get after_timestamp_def dict_items_def)
  next
    case t: (Some t)
    have ne: "truthy (timestamp_to_dict t)" "timestamp_to_dict t \<noteq> JNull" by (simp_all add: timestamp_to_dict_def)
    have "kvs \<noteq> []" using kvs(2) t ne by auto
    moreover have "rel_sum (=) opt_agree (Inr (step9_timestamp b r)) (std_step9 (bundle_items b) s)"
      using assms Some t kvs(2) ne
      by (simp add: std_step9_def sub dict_get_or_get step9_timestamp_def agree_outcomes)
        (simp add: timestamp_to_dict_def dict_items_def agree_outcomes)
    then obtain y where y: "std_step9 (bundle_items b) s = Inr y" "opt_agree (step9_timestamp b r) y"
      unfolding rel_sum_Inr by blast
    ultimately show ?thesis using Some t kvs ne same_partial [OF y(2)]
      by (simp add: std_optional_def bundle_items_get after_timestamp_def dict_items_def y(1))
  qed
qed

text \<open>Edges on which the two differ raise an AttributeError in the SDK.\<close>

lemma bad_edge_agree: "bad_edge es \<noteq> Inl AttributeError \<Longrightarrow> std_bad_edge es = bad_edge es"
  by (induction es) (auto split: sum.splits py_error.splits)

lemma graph_items:
  "\<exists>kvs. graph_to_dict g = JDict kvs \<and> dict_get kvs ''depends_on'' = pg_depends_on g"
  by (simp add: graph_to_dict_def dict_get_omit_none)

lemma agree10:
  assumes "same r s" "graph_outcome b \<noteq> Inl AttributeError"
  shows "rel_sum (=) same (case pb_proof_graph b of
       Some g \<Rightarrow> if truthy (pg_depends_on g) then rbind (step10_graph b r) (\<lambda>x. Inr (partial_unless x)) else Inr r
     | None \<Rightarrow> Inr r)
    (std_optional ''proof_graph'' ''depends_on'' std_step10 (bundle_items b) s)"
proof (cases "pb_proof_graph b")
  case None
  then show ?thesis using assms by (simp add: std_optional_def bundle_items_get)
next
  case (Some g)
  obtain kvs where kvs: "graph_to_dict g = JDict kvs" "dict_get kvs ''depends_on'' = pg_depends_on g"
    using graph_items by blast
  have sub: "sub_dict (bundle_items b) ''proof_graph'' = Inr kvs"
    using Some kvs(1) by (simp add: sub_dict_def bundle_items_def dict_items_def split: option.splits list.splits)
  show ?thesis
  proof (cases "truthy (pg_depends_on g)")
    case False
    then show ?thesis using Some assms kvs
      by (simp add: std_optional_def bundle_items_get dict_items_def)
  next
    case True
    then have nn: "pg_depends_on g \<noteq> JNull" and ne: "kvs \<noteq> []" using kvs(2) by auto
    have "rel_sum (=) opt_agree (step10_graph b r) (std_step10 (bundle_items b) s)"
    proof (cases "iterate (pg_depends_on g)")
      case (Inl e)
      then show ?thesis using Some True kvs(2) nn
        by (simp add: step10_graph_def std_step10_def sub dict_get_or_get)
    next
      case (Inr es)
      then have "bad_edge es \<noteq> Inl AttributeError"
        using assms(2) Some True by (auto simp: graph_outcome_def)
      then have e: "std_bad_edge es = bad_edge es" by (rule bad_edge_agree)
      show ?thesis using Some True kvs(2) nn Inr assms(1)
        by (cases "bad_edge es") (simp_all add: step10_graph_def std_step10_def sub dict_get_or_get e
            agree_outcomes split: option.splits)
    qed
    then have "rel_sum (=) same (rbind (step10_graph b r) (\<lambda>x. Inr (partial_unless x)))
        (rbind (std_step10 (bundle_items b) s) (\<lambda>x. Inr (std_partial x)))"
      by (rule rel_sum_rbind) (simp add: same_partial)
    then show ?thesis using Some True kvs ne
      by (simp add: std_optional_def bundle_items_get dict_items_def)
  qed
qed

lemma agree_final: "same r s \<Longrightarrow> ve_status r = VALID \<longrightarrow> ve_errors r = [] \<Longrightarrow> agree r (std_final s)"
  by (auto simp: agree_def same_def std_final_def)

lemma optional_agree:
  assumes "live r s" "graph_outcome b \<noteq> Inl AttributeError"
  shows "rel_sum (=) agree (optional_steps b r)
    (rbind (std_optional ''legal'' ''timestamp_authority'' std_step9 (bundle_items b) s) (\<lambda>s.
     rbind (std_optional ''proof_graph'' ''depends_on'' std_step10 (bundle_items b) s) (\<lambda>s. Inr (std_final s))))"
proof -
  have c: "rel_sum (=) same (optional_steps b r)
    (rbind (std_optional ''legal'' ''timestamp_authority'' std_step9 (bundle_items b) s) (\<lambda>s.
     std_optional ''proof_graph'' ''depends_on'' std_step10 (bundle_items b) s))"
    unfolding optional_steps_unfold
    by (rule rel_sum_rbind_right [where P = same and x = "after_timestamp b r"])
      (use assms agree9 agree10 in \<open>auto simp: live_def\<close>)
  have e: "ve_status v = VALID \<longrightarrow> ve_errors v = []" if "optional_steps b r = Inr v" for v
    using optional_steps_outcome [of r b] assms(1) [unfolded live_def] that
    by (cases "graph_outcome b") (auto simp: optional_status_def optional_errors_def split: if_splits)
  have m: "rbind (std_optional ''legal'' ''timestamp_authority'' std_step9 (bundle_items b) s) (\<lambda>s.
      rbind (std_optional ''proof_graph'' ''depends_on'' std_step10 (bundle_items b) s) (\<lambda>s. Inr (std_final s)))
    = rbind (rbind (std_optional ''legal'' ''timestamp_authority'' std_step9 (bundle_items b) s) (\<lambda>s.
     std_optional ''proof_graph'' ''depends_on'' std_step10 (bundle_items b) s)) (\<lambda>s. Inr (std_final s))"
    by (cases "std_optional ''legal'' ''timestamp_authority'' std_step9 (bundle_items b) s") simp_all
  show ?thesis unfolding m using c e
    by (cases "optional_steps b r") (auto simp: rel_sum_Inr intro: agree_final elim: rel_sum.cases)
qed

lemma verifiers_agree:
  assumes ids: "pb_bundle_id b \<noteq> JNull" "pb_issued_at b \<noteq> JNull"
    and pf: "pf_proof_bytes (pb_proof b) \<noteq> JNull" "pf_public_inputs (pb_proof b) \<noteq> JNull"
    and g: "graph_outcome b \<noteq> Inl AttributeError"
  shows "rel_sum (=) agree (sdk_verify mock_registry b) (std_verify std_registry (bundle_to_dict b))"
proof -
  define s0 where "s0 = \<lparr>sr_status = VALID, sr_bundle_id = dict_get_or (bundle_items b) ''bundle_id'' (JStr ''unknown''),
              sr_details = [], sr_errors = [], sr_is_valid = True\<rparr>"
  have s0: "live (init_result b) s0" by (simp add: s0_def init_result_def same_def live_def)
  have d: "dict_items (bundle_to_dict b) = Inr (bundle_items b)" by (simp add: bundle_to_dict_def dict_items_def)
  have hex: "is_valid_hex_hash (co_integrity_hash (pb_computation b))" "is_valid_hex_hash (id_ai_id (pb_ai_identity b))"
    if "fst (step2_schema b r)" for r
    using that step2_facts [of b r] hash_fields_integrity [of b] by (simp_all add: on_pass_def)
  note right = rel_sum_rbind_right [where P = step_agree]
  show ?thesis
    unfolding std_verify_def d rbind_simps Let_def s0_def [symmetric] std_registry_sdk sdk_verify_unfold
    apply (rule rel_sum_continue [OF agree1 [OF s0]])
    subgoal for r1 s1
      apply (rule right [OF agree2], assumption, rule ids(1), rule ids(2))
      subgoal for y2
        apply (rule rel_sum_continue, assumption)
        subgoal for r2 s2
          apply (rule rel_sum_rbind [OF agree3], assumption, erule hex(1))
          apply (rule rel_sum_continue, assumption)
          apply (rule rel_sum_rbind [OF agree4], assumption)
          apply (rule rel_sum_continue, assumption)
          apply (rule rel_sum_rbind [OF agree5], assumption)
          apply (rule rel_sum_continue, assumption)
          apply (rule rel_sum_rbind [OF agree6], assumption, rule pf(1), rule pf(2))
          apply (rule rel_sum_continue, assumption)
          apply (rule right [OF agree7], assumption, erule hex(2))
          apply (rule rel_sum_continue, assumption)
          apply (rule right [OF agree8], assumption)
          apply (rule rel_sum_continue, assumption)
          apply (rule optional_agree, assumption, rule g)
          done
        done
      done
    done
qed

end
