(* ===== verification/Pydecimal.thy ===== *)
theory Pydecimal
  imports Canonical
begin

text \<open>
  \<open>utils/decimal.py\<close>: conversion of request values to decimals and their quantisation to
  cents (\<open>money\<close>) and to six places (\<open>rate\<close>).  The quanta \<open>0.01\<close> and \<open>0.000001\<close> are the
  exponents -2 and -6 of \<open>Decimal_Arith\<close>.
\<close>

definition to_decimal :: "pyv \<Rightarrow> decimal result" where
  "to_decimal v = (case v of
       PDec d \<Rightarrow> Inr d
     | PBool b \<Rightarrow> Inl TypeError
     | PInt n \<Rightarrow> Inr (Fin (dec_of_int n))
     | PStr s \<Rightarrow>
         let t = py_strip s in
         if t = [] then Inl (ValueError ''Empty string is not a valid decimal'')
         else (case decimal_of_string t of
                 None \<Rightarrow> Inl (ValueError (''Invalid decimal value: '' @ t))
               | Some d \<Rightarrow> Inr d)
     | _ \<Rightarrow> Inl TypeError)"

definition money :: "pyv \<Rightarrow> decimal result" where
  "money v = rbind (to_decimal v) (decimal_quantize (- 2))"

definition rate :: "pyv \<Rightarrow> decimal result" where
  "rate v = rbind (to_decimal v) (decimal_quantize (- 6))"

text \<open>\<open>a < b\<close> on decimals: an ordering comparison with a NaN raises InvalidOperation.\<close>

fun decimal_less :: "decimal \<Rightarrow> decimal \<Rightarrow> bool result" where
  "decimal_less (NaN _) b = Inl InvalidOperation"
| "decimal_less a (NaN _) = Inl InvalidOperation"
| "decimal_less (Infinity s) (Infinity t) = Inr (s \<and> \<not> t)"
| "decimal_less (Infinity s) (Fin b) = Inr s"
| "decimal_less (Fin a) (Infinity t) = Inr (\<not> t)"
| "decimal_less (Fin a) (Fin b) = Inr (dec_less a b)"

definition clamp_above :: "decimal \<Rightarrow> pyv option \<Rightarrow> decimal result" where
  "clamp_above amount maximum = (case maximum of None \<Rightarrow> Inr amount
     | Some m \<Rightarrow> rbind (money m) (\<lambda>mx.
         rbind (decimal_less mx amount) (\<lambda>gt. Inr (if gt then mx else amount))))"

definition clamp_money :: "pyv \<Rightarrow> pyv option \<Rightarrow> pyv option \<Rightarrow> decimal result" where
  "clamp_money v minimum maximum = rbind (money v) (\<lambda>amount.
     case minimum of
       None \<Rightarrow> clamp_above amount maximum
     | Some m \<Rightarrow> rbind (money m) (\<lambda>mn.
         rbind (decimal_less amount mn) (\<lambda>lt.
           if lt then Inr mn else clamp_above amount maximum)))"

text \<open>\<open>format_decimal\<close>: an integral value is quantised to exponent 0, which raises when it
  needs more than 28 digits; an infinity is equal to its own integral part and raises too.\<close>

definition format_decimal :: "pyv \<Rightarrow> string result" where
  "format_decimal v = rbind (to_decimal v) (\<lambda>d. case d of
       Fin f \<Rightarrow> let n = dec_normalize f in
         if dexpo n \<ge> 0
         then rbind (dec_quantize 0 n) (\<lambda>q. Inr (dec_format_f q))
         else Inr (dec_format_f n)
     | Infinity s \<Rightarrow> Inl InvalidOperation
     | NaN sig \<Rightarrow> if sig then Inl InvalidOperation else Inr ''NaN'')"

subsection \<open>Amounts in cents\<close>

text \<open>\<open>cents n\<close>: the non-negative amount of \<open>n\<close> cents, the form every amount of a request
  takes after \<open>money\<close>.\<close>

definition cents :: "int \<Rightarrow> dec" where
  "cents n = Dec False n (- 2)"

lemma decimal_quantize_expo: "decimal_quantize e x = Inr (Fin d) \<Longrightarrow> dexpo d = e"
  by (cases x) (auto simp: result_simps dest: dec_quantize_expo split: if_splits)

lemma money_expo: "money v = Inr (Fin d) \<Longrightarrow> dexpo d = - 2"
  by (auto simp: money_def result_simps dest: decimal_quantize_expo)

lemma money_dec: "money (PDec (Fin d)) = rbind (dec_quantize (- 2) d) (\<lambda>q. Inr (Fin q))"
  by (simp add: money_def to_decimal_def)

lemma money_cents: "0 \<le> n \<Longrightarrow> n < 10 ^ 28 \<Longrightarrow> money (PDec (Fin (cents n))) = Inr (Fin (cents n))"
  by (simp add: money_dec dec_quantize_same cents_def)

lemma dec_less_cents: "dec_less (cents m) (cents n) \<longleftrightarrow> m < n"
  by (simp add: dec_less_def cents_def dec_at_def pow10_def)

lemma dec_add_cents:
  "0 \<le> m \<Longrightarrow> 0 \<le> n \<Longrightarrow> m + n < 10 ^ 28 \<Longrightarrow> dec_add (cents m) (cents n) = cents (m + n)"
  by (simp add: dec_add_def cents_def dec_at_def pow10_def dec_fix_id)

text \<open>Quantising an amount that fits: half-up to cents.\<close>

lemma half_up_le:
  assumes "0 \<le> c" "1 \<le> p"
  shows "half_up c p \<le> c"
proof (rule ccontr)
  assume "\<not> half_up c p \<le> c"
  then have "(c + 1) * p \<le> half_up c p * p" using assms by (intro mult_right_mono) auto
  moreover have "2 * (half_up c p * p) \<le> 2 * c + p" using half_up_bounds(1) [of p c] assms by simp
  moreover have "2 * c * 1 \<le> 2 * c * p" using assms by (intro mult_left_mono) auto
  ultimately show False using assms by (simp add: algebra_simps)
qed

lemma half_up_small: "0 \<le> c \<Longrightarrow> 2 * c < p \<Longrightarrow> half_up c p = 0"
  by (simp add: half_up_def)

lemma dec_quantize_cents:
  assumes "0 \<le> c" "c < 10 ^ 27" "0 \<le> k"
  shows "dec_quantize (- 2) (Dec False c (- 2 - k)) = Inr (cents (half_up c (pow10 k)))"
proof -
  have nd: "ndigits c \<le> 27" using assms ndigits_le_iff [of c 27] by simp
  have p: "1 \<le> pow10 k" by (simp add: pow10_def)
  have h: "0 \<le> half_up c (pow10 k)" "half_up c (pow10 k) \<le> c"
    using assms p by (simp_all add: half_up_nonneg half_up_le)
  then have hn: "ndigits (half_up c (pow10 k)) \<le> prec"
    using assms by (simp add: ndigits_le_28)
  have small: "half_up c (pow10 k) = 0" if "ndigits c < k"
  proof -
    have k: "1 \<le> nat (k - 1)" "ndigits c \<le> int (nat (k - 1))" using that ndigits_pos [of c] by auto
    then have "c < 10 ^ nat (k - 1)" using assms(1) ndigits_le_iff [of c "nat (k - 1)"] by simp
    moreover have "pow10 k = 10 * 10 ^ nat (k - 1)"
      using k by (simp add: pow10_def flip: power_Suc)
    ultimately show ?thesis using assms(1) by (intro half_up_small) auto
  qed
  show ?thesis
  proof (cases "c = 0")
    case True
    have "half_up 0 (pow10 k) = 0"
      using half_up_exact [of "pow10 k" 0] by (simp add: pow10_def)
    then show ?thesis using True by (simp add: dec_quantize_def cents_def)
  next
    case False
    have "dec_rescale (- 2) (Dec False c (- 2 - k)) = half_up c (pow10 k)"
    proof (cases "k = 0")
      case True
      then show ?thesis by (simp add: dec_rescale_def pow10_def half_up_def)
    qed (use assms(3) small in \<open>simp add: dec_rescale_def\<close>)
    then show ?thesis using False nd hn assms(3)
      by (simp add: dec_quantize_def cents_def prec_def)
  qed
qed

text \<open>Product of an amount in cents with a rate of \<open>k\<close> decimal places.\<close>

lemma money_mul_cents:
  assumes "0 \<le> n" "0 \<le> r" "n * r < 10 ^ 27" "0 \<le> k"
  shows "money (PDec (Fin (dec_mul (cents n) (Dec False r (- k)))))
    = Inr (Fin (cents (half_up (n * r) (pow10 k))))"
proof -
  have "dec_mul (cents n) (Dec False r (- k)) = Dec False (n * r) (- 2 - k)"
    using assms by (simp add: dec_mul_def cents_def dec_fix_id)
  then show ?thesis using assms by (simp add: money_dec dec_quantize_cents)
qed

text \<open>\<open>clamp_money\<close> keeps an amount between its bounds.\<close>

definition clamp_cents :: "int \<Rightarrow> int \<Rightarrow> int \<Rightarrow> int" where
  "clamp_cents lo hi n = (if n < lo then lo else if hi < n then hi else n)"

lemma clamp_money_cents:
  assumes "money v = Inr (Fin (cents n))" "money l = Inr (Fin (cents lo))" "money h = Inr (Fin (cents hi))"
  shows "clamp_money v (Some l) (Some h) = Inr (Fin (cents (clamp_cents lo hi n)))"
  using assms by (simp add: clamp_money_def clamp_above_def clamp_cents_def dec_less_cents)

subsection \<open>The rounding error of a quantisation\<close>

lemma ndigits_bound: "0 \<le> c \<Longrightarrow> c < 10 ^ nat (ndigits c)"
  using ndigits_le_iff [of c "nat (ndigits c)"] ndigits_pos [of c] by simp

lemma dec_quantize_error:
  assumes "dec_quantize e d = Inr q" "0 \<le> dcoef d"
  shows "e \<le> dexpo d \<Longrightarrow> dcoef q = dcoef d * pow10 (dexpo d - e)"
    "dexpo d < e \<Longrightarrow> 2 * (dcoef q * pow10 (e - dexpo d)) \<le> 2 * dcoef d + pow10 (e - dexpo d)
       \<and> 2 * dcoef d < 2 * (dcoef q * pow10 (e - dexpo d)) + pow10 (e - dexpo d)"
proof -
  have q: "dcoef q = dec_rescale e d \<or> dcoef d = 0 \<and> dcoef q = 0"
    using assms(1) by (auto simp: dec_quantize_def Let_def split: if_splits)
  show "e \<le> dexpo d \<Longrightarrow> dcoef q = dcoef d * pow10 (dexpo d - e)"
    using q by (auto simp: dec_rescale_def)
  assume e: "dexpo d < e"
  define p where "p = pow10 (e - dexpo d)"
  have p: "0 < p" by (simp add: p_def pow10_def)
  have small: "2 * dcoef d < p" if "ndigits (dcoef d) + dexpo d < e"
  proof -
    have "10 ^ Suc (nat (ndigits (dcoef d))) \<le> p"
      unfolding p_def pow10_def using that ndigits_pos [of "dcoef d"] by (intro power_increasing) auto
    then show ?thesis using ndigits_bound [OF assms(2)] assms(2) by simp
  qed
  show "2 * (dcoef q * pow10 (e - dexpo d)) \<le> 2 * dcoef d + pow10 (e - dexpo d)
       \<and> 2 * dcoef d < 2 * (dcoef q * pow10 (e - dexpo d)) + pow10 (e - dexpo d)"
    using q e small p assms(2) half_up_bounds [OF p, of "dcoef d"]
    by (auto simp: dec_rescale_def p_def [symmetric] split: if_splits)
qed

text \<open>A product that needs more than 28 digits is rounded to 28 and cannot be quantised to cents.\<close>

lemma ndigits_at_least: "10 ^ k \<le> n \<Longrightarrow> 1 \<le> k \<Longrightarrow> int k < ndigits n"
  using ndigits_le_iff [of n k] zero_le_power [of "10 :: int" k] by linarith

lemma half_even_ge: "n div d \<le> half_even n d"
  by (simp add: half_even_def Let_def)

lemma dec_fix_long:
  assumes "10 ^ 28 \<le> dcoef d"
  shows "28 \<le> ndigits (dcoef (dec_fix d))" "dexpo d < dexpo (dec_fix d)" "dcoef (dec_fix d) \<noteq> 0"
proof -
  define k where "k = ndigits (dcoef d) - 28"
  define c where "c = half_even (dcoef d) (pow10 k)"
  have k: "1 \<le> k" using ndigits_at_least [of 28 "dcoef d"] assms by (simp add: k_def)
  have "10 ^ nat (k + 27) \<le> dcoef d"
    using ndigits_le_iff [of "dcoef d" "nat (k + 27)"] assms k by (simp add: k_def not_less [symmetric])
  moreover have "(10 :: int) ^ nat (k + 27) = 10 ^ 27 * pow10 k"
    using k by (simp add: pow10_def nat_add_distrib power_add)
  ultimately have "10 ^ 27 * pow10 k div pow10 k \<le> dcoef d div pow10 k"
    by (intro zdiv_mono1) (simp_all add: pow10_def)
  then have c: "10 ^ 27 \<le> c"
    using half_even_ge [of "dcoef d" "pow10 k"] by (simp add: c_def pow10_def)
  have f: "dec_fix d = (if ndigits c > 28 then Dec (dneg d) (c div 10) (dexpo d + k + 1) else Dec (dneg d) c (dexpo d + k))"
    using k by (simp add: dec_fix_def Let_def prec_def k_def [symmetric] c_def [symmetric])
  have c10: "10 ^ 27 \<le> c div 10" if "ndigits c > 28"
  proof -
    have "10 ^ 28 \<le> c" using that ndigits_le_iff [of c 28] c by simp
    then show ?thesis by simp
  qed
  show "28 \<le> ndigits (dcoef (dec_fix d))"
    using f c c10 ndigits_at_least [of 27 c] ndigits_at_least [of 27 "c div 10"] by auto
  show "dexpo d < dexpo (dec_fix d)" using f k by simp
  show "dcoef (dec_fix d) \<noteq> 0" using f c c10 by auto
qed

lemma quantize_long:
  assumes "10 ^ 28 \<le> dcoef d" "dexpo d = e"
  shows "dec_quantize e (dec_fix d) = Inl InvalidOperation"
  using dec_fix_long [OF assms(1)] assms(2) by (simp add: dec_quantize_def prec_def)

end
