(* ===== verification/Tariffs.thy ===== *)
theory Tariffs
  imports Pydecimal
begin

text \<open>
  \<open>core/tariffs.py\<close>: the tariff table, its hash and the lookup.  The rates are the literal
  decimals of the table; the hash expected at run time is the one computed from the table
  when the module is loaded.
\<close>

record tariff_rule =
  hs_prefix :: string
  tr_rule_ref :: string
  tr_description :: string
  tr_duty_rate :: dec
  tr_section_301_rate :: dec
  section_301_origin_countries :: "string list"

definition mk_rule :: "string \<Rightarrow> string \<Rightarrow> string \<Rightarrow> int \<Rightarrow> int \<Rightarrow> string list \<Rightarrow> tariff_rule" where
  "mk_rule p r d du s3 cs = \<lparr>hs_prefix = p, tr_rule_ref = r, tr_description = d,
     tr_duty_rate = Dec False du (- 4), tr_section_301_rate = Dec False s3 (- 4),
     section_301_origin_countries = cs\<rparr>"

definition dataset_version :: string where "dataset_version = ''2026.03.28''"

definition tariff_rules :: "tariff_rule list" where
  "tariff_rules = [
     mk_rule ''8471300100'' ''HTS-8471300100'' ''Portable digital processing machines'' 0 0 [],
     mk_rule ''8507600000'' ''HTS-8507600000'' ''Lithium-ion accumulators'' 340 2500 [''CN''],
     mk_rule ''6110200000'' ''HTS-6110200000'' ''Sweaters, pullovers, cardigans'' 1650 0 [],
     mk_rule ''6403990000'' ''HTS-6403990000'' ''Footwear with outer soles of rubber/plastics'' 3750 0 [],
     mk_rule ''8703220000'' ''HTS-8703220000'' ''Motor cars'' 250 0 [],
     mk_rule ''9403600000'' ''HTS-9403600000'' ''Other wooden furniture'' 0 0 []]"

definition rule_payload :: "tariff_rule \<Rightarrow> pyv" where
  "rule_payload r = PDict [
     (''hs_prefix'', PStr (hs_prefix r)), (''rule_ref'', PStr (tr_rule_ref r)),
     (''description'', PStr (tr_description r)), (''duty_rate'', PDec (Fin (tr_duty_rate r))),
     (''section_301_rate'', PDec (Fin (tr_section_301_rate r))),
     (''section_301_origin_countries'', PList (map PStr (section_301_origin_countries r)))]"

definition dataset_payload :: "tariff_rule list \<Rightarrow> pyv" where
  "dataset_payload rules = PDict [
     (''dataset_version'', PStr dataset_version), (''rules'', PList (map rule_payload rules))]"

text \<open>\<open>sha256_hex(canonical_json(value))\<close>, the hash of a payload.\<close>

definition payload_hash :: "pyv \<Rightarrow> string result" where
  "payload_hash v = rbind (canonical_json v) (\<lambda>t. Inr (sha256_hex t))"

definition dataset_hash :: string where
  "dataset_hash = (case payload_hash (dataset_payload tariff_rules) of Inr h \<Rightarrow> h | Inl _ \<Rightarrow> [])"

definition validate_dataset_integrity :: "tariff_rule list \<Rightarrow> string \<Rightarrow> unit result" where
  "validate_dataset_integrity rules expected =
     rbind (payload_hash (dataset_payload rules)) (\<lambda>current.
     rbind (constant_time_equal current expected) (\<lambda>eq.
       if eq then Inr () else Inl (RuntimeError ''Tariff dataset integrity check failed'')))"

definition find_rule :: "tariff_rule list \<Rightarrow> string \<Rightarrow> tariff_rule result" where
  "find_rule rules hs = (case find (\<lambda>r. hs = hs_prefix r) rules of
       Some r \<Rightarrow> Inr r
     | None \<Rightarrow> Inl (LookupError (''No tariff rule found for HS code '' @ hs)))"

definition lookup_tariff_rule :: "tariff_rule list \<Rightarrow> string \<Rightarrow> string \<Rightarrow> tariff_rule result" where
  "lookup_tariff_rule rules expected hs =
     rbind (validate_dataset_integrity rules expected) (\<lambda>_. find_rule rules hs)"

definition tariff_catalog :: "tariff_rule list \<Rightarrow> pyv list" where
  "tariff_catalog rules = map (\<lambda>r. PDict [
     (''hs_prefix'', PStr (hs_prefix r)), (''rule_ref'', PStr (tr_rule_ref r)),
     (''description'', PStr (tr_description r)), (''duty_rate'', PStr (dec_format_f (tr_duty_rate r))),
     (''section_301_rate'', PStr (dec_format_f (tr_section_301_rate r))),
     (''section_301_origin_countries'', PList (map PStr (section_301_origin_countries r)))]) rules"

subsection \<open>Laws\<close>

lemma payload_hash_Inr: "payload_hash v = Inr h \<longleftrightarrow> (\<exists>t. canonical_json v = Inr t \<and> h = sha256_hex t)"
  by (auto simp: payload_hash_def result_simps)

lemma canonicalize_strings: "rmap canonicalize (map PStr xs) = Inr (map JStr xs)"
  by (induction xs) auto

lemma dataset_canonical: "\<exists>t. canonical_json (dataset_payload rules) = Inr t"
proof -
  have r: "\<exists>w. canonicalize (rule_payload r) = Inr w" for r
    by (simp add: rule_payload_def canonicalize_strings)
  have "\<exists>ws. rmap canonicalize (map rule_payload rules) = Inr ws"
  proof (induction rules)
    case (Cons a rules)
    then show ?case using r [of a] by auto
  qed simp
  then show ?thesis by (auto simp: canonical_json_def dataset_payload_def)
qed

definition dataset_text :: "tariff_rule list \<Rightarrow> string" where
  "dataset_text rules = (case canonical_json (dataset_payload rules) of Inr t \<Rightarrow> t | Inl _ \<Rightarrow> [])"

lemma payload_hash_dataset: "payload_hash (dataset_payload rules) = Inr (sha256_hex (dataset_text rules))"
  using dataset_canonical [of rules] by (auto simp: payload_hash_def dataset_text_def)

lemma dataset_hash_eq: "dataset_hash = sha256_hex (dataset_text tariff_rules)"
  by (simp add: dataset_hash_def payload_hash_dataset)

lemma validate_shipped [simp]: "validate_dataset_integrity tariff_rules dataset_hash = Inr ()"
  by (simp add: validate_dataset_integrity_def payload_hash_dataset dataset_hash_eq sha.digest_compare_digest)

lemma lookup_shipped: "lookup_tariff_rule tariff_rules dataset_hash hs = find_rule tariff_rules hs"
  by (simp add: lookup_tariff_rule_def)

lemma find_rule_Inr: "find_rule rules hs = Inr r \<Longrightarrow> r \<in> set rules \<and> hs_prefix r = hs"
  by (auto simp: find_rule_def find_Some_iff split: option.splits)

lemma tariff_rates:
  assumes "r \<in> set tariff_rules"
  obtains du s3 where "tr_duty_rate r = Dec False du (- 4)" "tr_section_301_rate r = Dec False s3 (- 4)"
    "0 \<le> du" "du \<le> 10000" "0 \<le> s3" "s3 \<le> 10000"
  using assms by (auto simp: tariff_rules_def mk_rule_def)

subsection \<open>A changed table is noticed\<close>

definition plain_dec :: "dec \<Rightarrow> bool" where
  "plain_dec d \<longleftrightarrow> 0 \<le> dcoef d \<and> dexpo d \<le> 0 \<and> - dexpo d < 10 ^ 18 \<and> ndigits (dcoef d) < 10 ^ 18"

lemma plain_dec_format_inj:
  "plain_dec a \<Longrightarrow> plain_dec b \<Longrightarrow> dec_format_f a = dec_format_f b \<Longrightarrow> a = b"
  unfolding plain_dec_def by (metis format_f_reads_back decimal.inject(1) option.inject)

lemma plain_dec_table: "list_all (\<lambda>r. plain_dec (tr_duty_rate r) \<and> plain_dec (tr_section_301_rate r)) tariff_rules"
proof -
  have "ndigits n \<le> 5" if "0 \<le> n" "n \<le> 10000" for n
    using that ndigits_le_iff [of n 5] by simp
  then have "plain_dec (Dec False n (- 4))" if "0 \<le> n" "n \<le> 10000" for n
    using that by (fastforce simp: plain_dec_def)
  then show ?thesis unfolding list_all_iff by (metis tariff_rates)
qed

definition rule_json :: "tariff_rule \<Rightarrow> json" where
  "rule_json r = JDict [
     (''description'', JStr (tr_description r)), (''duty_rate'', JStr (dec_format_f (tr_duty_rate r))),
     (''hs_prefix'', JStr (hs_prefix r)), (''rule_ref'', JStr (tr_rule_ref r)),
     (''section_301_origin_countries'', JList (map JStr (section_301_origin_countries r))),
     (''section_301_rate'', JStr (dec_format_f (tr_section_301_rate r)))]"

lemma canonicalize_rule: "canonicalize (rule_payload r) = Inr (rule_json r)"
  by (simp add: rule_payload_def rule_json_def canonicalize_strings)

lemma canonicalize_dataset: "canonicalize (dataset_payload rules)
    = Inr (JDict [(''dataset_version'', JStr dataset_version), (''rules'', JList (map rule_json rules))])"
proof -
  have "rmap canonicalize (map rule_payload rules) = Inr (map rule_json rules)"
    by (induction rules) (auto simp: canonicalize_rule)
  then show ?thesis by (simp add: dataset_payload_def)
qed

lemma wf_dataset:
  "list_all (\<lambda>r. plain_dec (tr_duty_rate r) \<and> plain_dec (tr_section_301_rate r)) rules
    \<Longrightarrow> wf_pyv (dataset_payload rules)"
  by (auto simp: dataset_payload_def rule_payload_def list_all_iff plain_dec_def)

lemma dataset_text_inj:
  assumes "dataset_text rules = dataset_text rules'"
    and "list_all (\<lambda>r. plain_dec (tr_duty_rate r) \<and> plain_dec (tr_section_301_rate r)) rules"
    and "list_all (\<lambda>r. plain_dec (tr_duty_rate r) \<and> plain_dec (tr_section_301_rate r)) rules'"
  shows "rules = rules'"
proof -
  have "canonical_json (dataset_payload rules) = Inr (dataset_text rules)"
    "canonical_json (dataset_payload rules') = Inr (dataset_text rules)"
    using dataset_canonical [of rules] dataset_canonical [of rules'] assms(1)
    by (auto simp: dataset_text_def)
  then have "canonicalize (dataset_payload rules') = canonicalize (dataset_payload rules)"
    using canonical_json_iff [OF wf_dataset [OF assms(2)] wf_dataset [OF assms(3)]] by blast
  then have m: "map rule_json rules' = map rule_json rules" by (simp add: canonicalize_dataset)
  have inj: "rule_json r = rule_json r' \<Longrightarrow> plain_dec (tr_duty_rate r) \<and> plain_dec (tr_section_301_rate r)
      \<Longrightarrow> plain_dec (tr_duty_rate r') \<and> plain_dec (tr_section_301_rate r') \<Longrightarrow> r = r'" for r r' :: tariff_rule
    by (auto simp: rule_json_def inj_map_eq_map inj_on_def intro!: tariff_rule.equality
        dest: plain_dec_format_inj)
  show ?thesis using m assms(2,3)
  proof (induction rules arbitrary: rules')
    case (Cons r rules)
    then show ?case using inj by (cases rules') auto
  qed simp
qed

lemma validate_passes_iff:
  assumes "list_all (\<lambda>r. plain_dec (tr_duty_rate r) \<and> plain_dec (tr_section_301_rate r)) rules"
  shows "validate_dataset_integrity rules dataset_hash = Inr ()
    \<longleftrightarrow> rules = tariff_rules \<or> collision (dataset_text rules) (dataset_text tariff_rules)"
proof -
  have "validate_dataset_integrity rules dataset_hash = Inr ()
      \<longleftrightarrow> sha256_hex (dataset_text rules) = sha256_hex (dataset_text tariff_rules)"
    by (simp add: validate_dataset_integrity_def payload_hash_dataset dataset_hash_eq sha.digest_compare_digest)
  also have "\<dots> \<longleftrightarrow> dataset_text rules = dataset_text tariff_rules
      \<or> collision (dataset_text rules) (dataset_text tariff_rules)"
    by (rule same_digest)
  finally show ?thesis using dataset_text_inj [OF _ assms plain_dec_table] by auto
qed

lemma validate_fails:
  "validate_dataset_integrity rules dataset_hash = Inr ()
    \<or> validate_dataset_integrity rules dataset_hash = Inl (RuntimeError ''Tariff dataset integrity check failed'')"
  by (simp add: validate_dataset_integrity_def payload_hash_dataset dataset_hash_eq sha.digest_compare_digest)

end
