(* ===== verification/Audit_Chain.thy ===== *)
theory Audit_Chain
  imports Tariffs
begin

text \<open>
  \<open>core/audit_chain.py\<close> and \<open>core/chain_checkpoint.py\<close>: the hash-chained audit log, its
  partitions and its checkpoints.  A record's \<open>created_at\<close> is the text \<open>utc_isoformat\<close> gives,
  its \<open>reference_id\<close> the text of the UUID.  The locale \<open>hash_chain\<close> states what a chain of
  digests promises over any digest function; it is interpreted on the records of this module.
\<close>

subsection \<open>Hash chains\<close>

text \<open>A link is an event with the digest stored for it.  The digest of a link covers the
  previous digest and the text of the event.\<close>

locale hash_chain = digest h for h :: "string \<Rightarrow> string" +
  fixes event_text :: "'e \<Rightarrow> string"
begin

fun linked :: "string \<Rightarrow> ('e \<times> string) list \<Rightarrow> bool" where
  "linked p [] = True"
| "linked p ((e, c) # r) = (c = h (p @ event_text e) \<and> linked c r)"

fun end_hash :: "string \<Rightarrow> ('e \<times> string) list \<Rightarrow> string" where
  "end_hash p [] = p"
| "end_hash p ((e, c) # r) = end_hash c r"

fun hashed :: "string \<Rightarrow> ('e \<times> string) list \<Rightarrow> string set" where
  "hashed p [] = {}"
| "hashed p ((e, c) # r) = insert (p @ event_text e) (hashed c r)"

lemma linked_snoc: "linked p (xs @ [(e, c)]) \<longleftrightarrow> linked p xs \<and> c = h (end_hash p xs @ event_text e)"
  by (induction p xs rule: linked.induct) auto

lemma end_hash_snoc [simp]: "end_hash p (xs @ [(e, c)]) = c"
  by (induction p xs rule: end_hash.induct) auto

lemma hashed_snoc: "hashed p (xs @ [(e, c)]) = insert (end_hash p xs @ event_text e) (hashed p xs)"
  by (induction p xs rule: hashed.induct) auto

lemma end_hash_length: "length p = 64 \<Longrightarrow> linked p xs \<Longrightarrow> length (end_hash p xs) = 64"
  by (induction p xs rule: linked.induct) (auto simp: digest_length)

text \<open>The last digest fixes the whole chain, as long as the digest function has no collision
  among the texts that were hashed, and the chains have the same length or the start is not itself the
  digest of one of them.\<close>

lemma end_hash_unique:
  assumes "linked p xs" "linked p ys" "end_hash p xs = end_hash p ys" "length p = 64"
    and "inj_on h (hashed p xs \<union> hashed p ys)" "length xs = length ys \<or> p \<notin> h ` (hashed p xs \<union> hashed p ys)"
  shows "map (\<lambda>l. event_text (fst l)) xs = map (\<lambda>l. event_text (fst l)) ys \<and> map snd xs = map snd ys"
  using assms
proof (induction xs arbitrary: ys rule: rev_induct)
  case Nil
  then show ?case
  proof (cases ys rule: rev_cases)
    case (snoc zs z)
    with Nil show ?thesis by (cases z) (auto simp: linked_snoc hashed_snoc)
  qed simp
next
  case (snoc x xs)
  obtain e c where x: "x = (e, c)" by (cases x)
  show ?case
  proof (cases ys rule: rev_cases)
    case Nil
    with snoc x show ?thesis by (auto simp: linked_snoc hashed_snoc)
  next
    case y: (snoc zs y)
    obtain e' c' where y': "y = (e', c')" by (cases y)
    have c: "c = c'" using snoc.prems(3) x y y' by simp
    have "h (end_hash p xs @ event_text e) = h (end_hash p zs @ event_text e')"
      using snoc.prems(1,2) c x y y' by (simp add: linked_snoc)
    then have t: "end_hash p xs @ event_text e = end_hash p zs @ event_text e'"
      by (rule inj_onD [OF snoc.prems(5)]) (simp_all add: x y y' hashed_snoc)
    have l: "length (end_hash p xs) = 64" "length (end_hash p zs) = 64"
      using snoc.prems x y y' by (auto simp: linked_snoc intro: end_hash_length)
    have "map (\<lambda>l. event_text (fst l)) xs = map (\<lambda>l. event_text (fst l)) zs \<and> map snd xs = map snd zs"
    proof (rule snoc.IH)
      show "linked p xs" "linked p zs" "length p = 64"
        using snoc.prems x y y' by (simp_all add: linked_snoc)
      show "end_hash p xs = end_hash p zs" using t l by simp
      show "inj_on h (hashed p xs \<union> hashed p zs)"
        using snoc.prems(5) x y y' by (auto simp: hashed_snoc intro: inj_on_subset)
      show "length xs = length zs \<or> p \<notin> h ` (hashed p xs \<union> hashed p zs)"
        using snoc.prems(6) x y y' by (auto simp: hashed_snoc)
    qed
    then show ?thesis using t l c x y y' by simp
  qed
qed

end

subsection \<open>Records\<close>

record audit_event =
  ae_id :: "int option"
  ae_chain_id :: int
  ae_event_type :: string
  ae_reference_id :: "string option"
  ae_event_payload :: "(string \<times> pyv) list"
  ae_prev_hash :: string
  ae_current_hash :: string
  ae_created_at :: string

record chain_result =
  ac_status :: string
  ac_reason :: string
  ac_checked_rows :: int
  ac_last_hash :: "string option"
  ac_broken_record_id :: "int option"

definition zero_hash :: string where
  "zero_hash = replicate 64 CHR ''0''"

definition audit_chain_partitions :: int where
  "audit_chain_partitions = 64"

definition chain_id_for_input :: "string \<Rightarrow> int result" where
  "chain_id_for_input input_hash = (case py_int16 input_hash of
       Some n \<Rightarrow> Inr (n mod audit_chain_partitions)
     | None \<Rightarrow> Inl (ValueError ''invalid literal for int() with base 16''))"

definition deterministic_request_id :: "string \<Rightarrow> string" where
  "deterministic_request_id input_hash = uuid5 vrl_namespace (''request:'' @ input_hash)"

definition deterministic_result_id :: "string \<Rightarrow> string \<Rightarrow> string" where
  "deterministic_result_id request_id output_hash =
     uuid5 vrl_namespace (''result:'' @ request_id @ '':'' @ output_hash)"

definition deterministic_proof_id :: "string \<Rightarrow> string \<Rightarrow> string" where
  "deterministic_proof_id request_id final_proof =
     uuid5 vrl_namespace (''proof:'' @ request_id @ '':'' @ final_proof)"

definition audit_hash_payload :: "string \<Rightarrow> string option \<Rightarrow> (string \<times> pyv) list \<Rightarrow> string \<Rightarrow> pyv" where
  "audit_hash_payload event_type reference_id event_payload created_at = PDict [
     (''event_type'', PStr event_type),
     (''reference_id'', case reference_id of Some r \<Rightarrow> PStr r | None \<Rightarrow> PNone),
     (''event_payload'', PDict event_payload), (''created_at'', PStr created_at)]"

definition compute_audit_hash :: "string \<Rightarrow> string \<Rightarrow> string option \<Rightarrow> (string \<times> pyv) list \<Rightarrow> string \<Rightarrow> string result" where
  "compute_audit_hash prev_hash event_type reference_id event_payload created_at =
     rbind (canonical_json (audit_hash_payload event_type reference_id event_payload created_at)) (\<lambda>payload.
     Inr (sha256_hex (prev_hash @ payload)))"

definition build_audit_event :: "string \<Rightarrow> string option \<Rightarrow> (string \<times> pyv) list \<Rightarrow> string \<Rightarrow> string
    \<Rightarrow> int \<Rightarrow> int option \<Rightarrow> audit_event result" where
  "build_audit_event event_type reference_id event_payload prev_hash created_at chain_id rid =
     rbind (compute_audit_hash prev_hash event_type reference_id event_payload created_at) (\<lambda>current_hash.
     Inr \<lparr>ae_id = rid, ae_chain_id = chain_id, ae_event_type = event_type, ae_reference_id = reference_id,
          ae_event_payload = event_payload, ae_prev_hash = prev_hash, ae_current_hash = current_hash,
          ae_created_at = created_at\<rparr>)"

subsection \<open>Verification of one chain and of all partitions\<close>

definition record_hash :: "audit_event \<Rightarrow> string result" where
  "record_hash r = compute_audit_hash (ae_prev_hash r) (ae_event_type r) (ae_reference_id r)
     (ae_event_payload r) (ae_created_at r)"

definition chain_failure :: "string \<Rightarrow> int \<Rightarrow> string \<Rightarrow> audit_event \<Rightarrow> chain_result" where
  "chain_failure reason index previous r = \<lparr>ac_status = ''INVALID'', ac_reason = reason,
     ac_checked_rows = index, ac_last_hash = Some previous, ac_broken_record_id = ae_id r\<rparr>"

text \<open>The loop over the records: \<open>index\<close> records were checked, \<open>previous\<close> is the last digest.\<close>

fun check_records :: "int \<Rightarrow> string \<Rightarrow> audit_event list \<Rightarrow> chain_result result" where
  "check_records index previous [] = Inr \<lparr>ac_status = ''VALID'', ac_reason = ''Audit chain verified successfully'',
     ac_checked_rows = index, ac_last_hash = Some previous, ac_broken_record_id = None\<rparr>"
| "check_records index previous (r # rs) =
     rbind (constant_time_equal (ae_prev_hash r) previous) (\<lambda>eq.
     if \<not> eq then Inr (chain_failure ''Previous hash mismatch detected in audit chain'' index previous r)
     else rbind (record_hash r) (\<lambda>expected.
       rbind (constant_time_equal (ae_current_hash r) expected) (\<lambda>eq.
       if \<not> eq then Inr (chain_failure ''Current hash mismatch detected in audit chain'' index previous r)
       else check_records (index + 1) (ae_current_hash r) rs)))"

definition verify_single_chain :: "audit_event list \<Rightarrow> chain_result result" where
  "verify_single_chain records = check_records 0 zero_hash records"

text \<open>Grouping by \<open>chain_id\<close>, chains in order of first appearance.\<close>

fun add_record :: "(int \<times> audit_event list) list \<Rightarrow> audit_event \<Rightarrow> (int \<times> audit_event list) list" where
  "add_record [] r = [(ae_chain_id r, [r])]"
| "add_record ((c, rs) # cs) r = (if c = ae_chain_id r then (c, rs @ [r]) # cs else (c, rs) # add_record cs r)"

definition group_chains :: "audit_event list \<Rightarrow> (int \<times> audit_event list) list" where
  "group_chains records = foldl add_record [] records"

fun check_chains :: "int \<Rightarrow> (int \<times> audit_event list) list \<Rightarrow> (chain_result + int) result" where
  "check_chains checked [] = Inr (Inr checked)"
| "check_chains checked ((c, rs) # cs) = rbind (verify_single_chain rs) (\<lambda>res.
     if ac_status res \<noteq> ''VALID'' then Inr (Inl res)
     else check_chains (checked + ac_checked_rows res) cs)"

definition verify_audit_chain :: "audit_event list \<Rightarrow> chain_result result" where
  "verify_audit_chain records =
    (if records = [] then Inr \<lparr>ac_status = ''VALID'', ac_reason = ''Audit chain is empty'', ac_checked_rows = 0,
       ac_last_hash = Some zero_hash, ac_broken_record_id = None\<rparr>
     else let chains = group_chains records in
       rbind (check_chains 0 (sort_key fst chains)) (\<lambda>out. case out of
         Inl res \<Rightarrow> Inr res
       | Inr checked \<Rightarrow> Inr \<lparr>ac_status = ''VALID'',
           ac_reason = ''All '' @ int_text (int (length chains)) @ '' audit chain partition(s) verified successfully'',
           ac_checked_rows = checked, ac_last_hash = Some (ae_current_hash (last records)),
           ac_broken_record_id = None\<rparr>))"

subsection \<open>What VALID means\<close>

text \<open>A record list that is a chain from the digest \<open>p\<close>.\<close>

fun chain_ok :: "string \<Rightarrow> audit_event list \<Rightarrow> bool" where
  "chain_ok p [] = True"
| "chain_ok p (r # rs) = (ae_prev_hash r = p \<and> record_hash r = Inr (ae_current_hash r)
     \<and> chain_ok (ae_current_hash r) rs)"

definition chain_end :: "string \<Rightarrow> audit_event list \<Rightarrow> string" where
  "chain_end p rs = (if rs = [] then p else ae_current_hash (last rs))"

lemma compute_audit_hash_Inr:
  "compute_audit_hash p t r e c = Inr h \<Longrightarrow> \<exists>m. h = sha256_hex m"
  by (auto simp: compute_audit_hash_def result_simps)

lemma record_hash_ascii: "record_hash r = Inr h \<Longrightarrow> is_ascii h"
  by (auto simp: record_hash_def dest!: compute_audit_hash_Inr)

lemma constant_time_equal_same: "is_ascii a \<Longrightarrow> constant_time_equal a a = Inr True"
  by (simp add: constant_time_equal_def)

lemma constant_time_equal_True: "constant_time_equal a b = Inr True \<Longrightarrow> a = b"
  by (auto simp: constant_time_equal_def split: if_splits)

lemma check_records_ok:
  "chain_ok p rs \<Longrightarrow> is_ascii p \<Longrightarrow> check_records i p rs = Inr \<lparr>ac_status = ''VALID'',
     ac_reason = ''Audit chain verified successfully'', ac_checked_rows = i + int (length rs),
     ac_last_hash = Some (chain_end p rs), ac_broken_record_id = None\<rparr>"
proof (induction i p rs rule: check_records.induct)
  case (2 i p r rs)
  then have "is_ascii (ae_current_hash r)" using record_hash_ascii by auto
  with 2 show ?case
    by (simp add: constant_time_equal_same chain_end_def add.assoc)
qed (simp add: chain_end_def)

lemma check_records_valid:
  "check_records i p rs = Inr res \<Longrightarrow> ac_status res = ''VALID'' \<Longrightarrow> chain_ok p rs"
proof (induction i p rs rule: check_records.induct)
  case (2 i p r rs)
  from "2.prems" obtain e1 e2 expected where
    "constant_time_equal (ae_prev_hash r) p = Inr e1" "record_hash r = Inr expected"
    "constant_time_equal (ae_current_hash r) expected = Inr e2" "e1" "e2"
    "check_records (i + 1) (ae_current_hash r) rs = Inr res"
    by (auto simp: result_simps chain_failure_def split: if_splits)
  moreover from this have "ae_prev_hash r = p" "ae_current_hash r = expected"
    using constant_time_equal_True by auto
  ultimately show ?case using "2.IH" "2.prems"(2) by (simp add: constant_time_equal_True)
qed simp

lemma zero_hash_ascii: "is_ascii zero_hash"
  by (simp add: zero_hash_def is_ascii_def list_all_iff)

lemma verify_single_iff:
  "(\<exists>res. verify_single_chain rs = Inr res \<and> ac_status res = ''VALID'') \<longleftrightarrow> chain_ok zero_hash rs"
  using check_records_ok [OF _ zero_hash_ascii, of rs 0] check_records_valid [of 0 zero_hash rs]
  by (auto simp: verify_single_chain_def)

text \<open>An INVALID result points at the first record that breaks the chain: the records before it
  form a chain.\<close>

lemma check_records_first_break:
  "check_records i p rs = Inr res \<Longrightarrow> ac_status res \<noteq> ''VALID''
    \<Longrightarrow> \<exists>k < length rs. ac_checked_rows res = i + int k \<and> chain_ok p (take k rs)
         \<and> \<not> chain_ok p (take (Suc k) rs) \<and> ac_last_hash res = Some (chain_end p (take k rs))
         \<and> ac_broken_record_id res = ae_id (rs ! k)"
proof (induction i p rs rule: check_records.induct)
  case (2 i p r rs)
  show ?case
  proof (cases "chain_ok p [r]")
    case True
    then have "check_records (i + 1) (ae_current_hash r) rs = Inr res"
      using "2.prems"(1) record_hash_ascii [of r "ae_current_hash r"]
      by (auto simp: result_simps constant_time_equal_def split: if_splits)
    moreover have "constant_time_equal (ae_prev_hash r) p = Inr True"
      "constant_time_equal (ae_current_hash r) (ae_current_hash r) = Inr True"
      using True "2.prems"(1) record_hash_ascii [of r "ae_current_hash r"]
      by (auto simp: result_simps constant_time_equal_def split: if_splits)
    ultimately obtain k where k: "k < length rs" "ac_checked_rows res = i + 1 + int k"
      "chain_ok (ae_current_hash r) (take k rs)" "\<not> chain_ok (ae_current_hash r) (take (Suc k) rs)"
      "ac_last_hash res = Some (chain_end (ae_current_hash r) (take k rs))"
      "ac_broken_record_id res = ae_id (rs ! k)"
      using "2.IH" [of True "ae_current_hash r" True] "2.prems"(2) True by auto
    then show ?thesis using True
      by (intro exI [of _ "Suc k"]) (auto simp: chain_end_def)
  next
    case False
    then show ?thesis
      using "2.prems" False
      by (intro exI [of _ 0]) (auto simp: result_simps chain_failure_def chain_end_def split: if_splits
          dest: constant_time_equal_True)
  qed
qed auto

subsection \<open>Partitions\<close>

definition partition_of :: "int \<Rightarrow> audit_event list \<Rightarrow> audit_event list" where
  "partition_of c rs = filter (\<lambda>r. ae_chain_id r = c) rs"

lemma add_record_keys: "set (map fst (add_record cs r)) = insert (ae_chain_id r) (set (map fst cs))"
  by (induction cs r rule: add_record.induct) auto

lemma add_record_distinct: "distinct (map fst cs) \<Longrightarrow> distinct (map fst (add_record cs r))"
proof (induction cs r rule: add_record.induct)
  case (2 c rs cs r)
  then show ?case using add_record_keys [of cs r] by auto
qed simp

lemma add_record_map:
  "map_of (add_record cs r) c = (if c = ae_chain_id r
     then Some ((case map_of cs c of Some xs \<Rightarrow> xs | None \<Rightarrow> []) @ [r]) else map_of cs c)"
  by (induction cs r rule: add_record.induct) auto

lemma group_chains_snoc: "group_chains (rs @ [r]) = add_record (group_chains rs) r"
  by (simp add: group_chains_def)

lemma group_chains_facts:
  "distinct (map fst (group_chains rs)) \<and> (\<forall>c. map_of (group_chains rs) c
     = (if partition_of c rs = [] then None else Some (partition_of c rs)))"
proof (induction rs rule: rev_induct)
  case Nil
  then show ?case by (simp add: group_chains_def partition_of_def)
next
  case (snoc r rs)
  then show ?case
    by (auto simp: group_chains_snoc add_record_distinct add_record_map partition_of_def)
qed

lemma check_chains_ok:
  "\<forall>(c, rs) \<in> set cs. chain_ok zero_hash rs
    \<Longrightarrow> check_chains n cs = Inr (Inr (n + int (sum_list (map (\<lambda>(c, rs). length rs) cs))))"
proof (induction cs arbitrary: n)
  case (Cons x cs)
  obtain c rs where x: "x = (c, rs)" by (cases x)
  have "chain_ok zero_hash rs" using Cons.prems x by simp
  then show ?case using Cons x check_records_ok [OF _ zero_hash_ascii, of rs 0]
    by (simp add: verify_single_chain_def)
qed simp

lemma check_chains_valid:
  "check_chains n cs = Inr out \<Longrightarrow> (\<forall>res. out = Inl res \<longrightarrow> ac_status res = ''VALID'')
    \<Longrightarrow> \<forall>(c, rs) \<in> set cs. chain_ok zero_hash rs"
proof (induction n cs rule: check_chains.induct)
  case (2 n c rs cs)
  then obtain res where r: "verify_single_chain rs = Inr res" by (auto simp: result_simps)
  have v: "ac_status res = ''VALID''" using 2 r by (auto split: if_splits)
  then have "chain_ok zero_hash rs" using r verify_single_iff by blast
  moreover have "\<forall>(c, rs) \<in> set cs. chain_ok zero_hash rs"
    using 2 r v by (intro "2.IH") auto
  ultimately show ?case by simp
qed simp

lemma chains_all_ok:
  "(\<forall>(c, xs) \<in> set (group_chains rs). chain_ok zero_hash xs) \<longleftrightarrow> (\<forall>c. chain_ok zero_hash (partition_of c rs))"
proof -
  note g = group_chains_facts [of rs]
  have "(c, xs) \<in> set (group_chains rs) \<longleftrightarrow> xs = partition_of c rs \<and> xs \<noteq> []" for c xs
    using g map_of_eq_Some_iff [of "group_chains rs" c xs] by (auto split: if_splits)
  then show ?thesis by fastforce
qed

lemma verify_audit_chain_valid_iff:
  "(\<exists>res. verify_audit_chain rs = Inr res \<and> ac_status res = ''VALID'')
    \<longleftrightarrow> (\<forall>c. chain_ok zero_hash (partition_of c rs))"
proof (cases "rs = []")
  case True
  then show ?thesis by (simp add: verify_audit_chain_def partition_of_def)
next
  case False
  show ?thesis
  proof
    assume "\<exists>res. verify_audit_chain rs = Inr res \<and> ac_status res = ''VALID''"
    then obtain res where res: "verify_audit_chain rs = Inr res" "ac_status res = ''VALID''" by blast
    then obtain out where out: "check_chains 0 (sort_key fst (group_chains rs)) = Inr out"
      using False by (cases "check_chains 0 (sort_key fst (group_chains rs))")
        (auto simp: verify_audit_chain_def Let_def)
    have "\<forall>r. out = Inl r \<longrightarrow> ac_status r = ''VALID''"
      using res False by (auto simp: verify_audit_chain_def Let_def out)
    with out have "\<forall>(c, xs) \<in> set (sort_key fst (group_chains rs)). chain_ok zero_hash xs"
      by (rule check_chains_valid)
    then show "\<forall>c. chain_ok zero_hash (partition_of c rs)" using chains_all_ok by simp
  next
    assume "\<forall>c. chain_ok zero_hash (partition_of c rs)"
    then have "\<forall>(c, xs) \<in> set (sort_key fst (group_chains rs)). chain_ok zero_hash xs"
      using chains_all_ok by simp
    from check_chains_ok [OF this, of 0] show "\<exists>res. verify_audit_chain rs = Inr res \<and> ac_status res = ''VALID''"
      using False by (simp add: verify_audit_chain_def Let_def)
  qed
qed

subsection \<open>The digests fix the records\<close>

definition record_payload :: "audit_event \<Rightarrow> pyv" where
  "record_payload r = audit_hash_payload (ae_event_type r) (ae_reference_id r) (ae_event_payload r) (ae_created_at r)"

definition record_text :: "audit_event \<Rightarrow> string" where
  "record_text r = (case canonical_json (record_payload r) of Inr t \<Rightarrow> t | Inl _ \<Rightarrow> [])"

interpretation ac: hash_chain sha256_hex record_text
  by unfold_locales

definition as_links :: "audit_event list \<Rightarrow> (audit_event \<times> string) list" where
  "as_links rs = map (\<lambda>r. (r, ae_current_hash r)) rs"

text \<open>The texts hashed by a chain.\<close>

definition hashed_texts :: "audit_event list \<Rightarrow> string set" where
  "hashed_texts rs = (\<lambda>r. ae_prev_hash r @ record_text r) ` set rs"

lemma record_hash_text:
  "record_hash r = Inr h \<Longrightarrow> canonical_json (record_payload r) = Inr (record_text r)
     \<and> h = sha256_hex (ae_prev_hash r @ record_text r)"
  by (auto simp: record_hash_def compute_audit_hash_def record_payload_def record_text_def result_simps)

lemma chain_ok_linked: "chain_ok p rs \<Longrightarrow> ac.linked p (as_links rs)"
  by (induction p rs rule: chain_ok.induct) (auto simp: as_links_def dest!: record_hash_text)

lemma chain_end_links: "ac.end_hash p (as_links rs) = chain_end p rs"
  by (induction rs arbitrary: p) (auto simp: as_links_def chain_end_def)

lemma chain_ok_hashed: "chain_ok p rs \<Longrightarrow> ac.hashed p (as_links rs) = hashed_texts rs"
  by (induction p rs rule: chain_ok.induct) (auto simp: as_links_def hashed_texts_def)

lemma chain_ok_text: "chain_ok p rs \<Longrightarrow> r \<in> set rs \<Longrightarrow> canonical_json (record_payload r) = Inr (record_text r)"
  by (induction p rs rule: chain_ok.induct) (auto dest: record_hash_text)

lemma length_zero_hash [simp]: "length zero_hash = 64"
  by (simp add: zero_hash_def)

lemma chain_prev_hashes: "chain_ok p rs \<Longrightarrow> map ae_prev_hash rs = butlast (p # map ae_current_hash rs)"
  by (induction p rs rule: chain_ok.induct) auto

lemma chain_end_unique:
  assumes "chain_ok zero_hash rs" "chain_ok zero_hash ss" "chain_end zero_hash rs = chain_end zero_hash ss"
    and "inj_on sha256_hex (hashed_texts rs \<union> hashed_texts ss)"
    and "length rs = length ss \<or> zero_hash \<notin> sha256_hex ` (hashed_texts rs \<union> hashed_texts ss)"
  shows "map (canonical_json \<circ> record_payload) rs = map (canonical_json \<circ> record_payload) ss"
    "map ae_current_hash rs = map ae_current_hash ss" "map ae_prev_hash rs = map ae_prev_hash ss"
proof -
  have u: "map (\<lambda>l. record_text (fst l)) (as_links rs) = map (\<lambda>l. record_text (fst l)) (as_links ss)
      \<and> map snd (as_links rs) = map snd (as_links ss)"
    using assms by (intro ac.end_hash_unique [of zero_hash])
      (simp_all add: chain_ok_linked chain_end_links chain_ok_hashed, simp add: as_links_def)
  then have t: "map record_text rs = map record_text ss" and c: "map ae_current_hash rs = map ae_current_hash ss"
    by (simp_all add: as_links_def comp_def)
  show "map ae_current_hash rs = map ae_current_hash ss" by (rule c)
  show "map ae_prev_hash rs = map ae_prev_hash ss"
    using c chain_prev_hashes [OF assms(1)] chain_prev_hashes [OF assms(2)] by simp
  have "map (canonical_json \<circ> record_payload) rs = map Inr (map record_text rs)"
    "map (canonical_json \<circ> record_payload) ss = map Inr (map record_text ss)"
    using chain_ok_text [OF assms(1)] chain_ok_text [OF assms(2)] by simp_all
  then show "map (canonical_json \<circ> record_payload) rs = map (canonical_json \<circ> record_payload) ss"
    using t by simp
qed

subsection \<open>Appending\<close>

lemma build_event_fields:
  "build_audit_event t ref p prev c cid i = Inr e \<Longrightarrow> ae_prev_hash e = prev \<and> ae_chain_id e = cid
     \<and> record_hash e = Inr (ae_current_hash e)"
  by (auto simp: build_audit_event_def record_hash_def result_simps)

lemma chain_ok_snoc: "chain_ok p (rs @ [r]) \<longleftrightarrow> chain_ok p rs \<and> ae_prev_hash r = chain_end p rs
    \<and> record_hash r = Inr (ae_current_hash r)"
  by (induction p rs rule: chain_ok.induct) (auto simp: chain_end_def)

lemma append_event_ok:
  assumes "chain_ok zero_hash rs" "build_audit_event t ref p (chain_end zero_hash rs) c cid i = Inr e"
  shows "chain_ok zero_hash (rs @ [e])"
  using assms build_event_fields by (auto simp: chain_ok_snoc)

lemma chain_id_range: "chain_id_for_input s = Inr n \<Longrightarrow> 0 \<le> n \<and> n < 64"
  by (auto simp: chain_id_for_input_def audit_chain_partitions_def split: option.splits)

end
