(* ===== verification/Chain_Checkpoint.thy ===== *)
theory Chain_Checkpoint
  imports Audit_Chain
begin

text \<open>
  \<open>core/chain_checkpoint.py\<close>: checkpoints over segments of 1000 records and the verification
  that skips a segment whose stored checkpoint is consistent with itself.
\<close>

definition checkpoint_interval :: nat where
  "checkpoint_interval = 1000"

record checkpoint =
  cp_chain_id :: int
  cp_segment_index :: int
  cp_last_record_id :: "int option"
  cp_last_current_hash :: string
  cp_checkpoint_hash :: string
  cp_record_count :: int

definition id_text :: "int option \<Rightarrow> string" where
  "id_text i = (case i of Some n \<Rightarrow> int_text n | None \<Rightarrow> ''None'')"

definition compute_checkpoint_hash :: "int \<Rightarrow> int \<Rightarrow> int option \<Rightarrow> string \<Rightarrow> string" where
  "compute_checkpoint_hash chain_id segment_index last_record_id last_current_hash =
     sha256_hex (''checkpoint:'' @ int_text chain_id @ '':'' @ int_text segment_index @ '':''
       @ id_text last_record_id @ '':'' @ last_current_hash)"

definition segment_of :: "nat \<Rightarrow> audit_event list \<Rightarrow> audit_event list" where
  "segment_of i rs = take checkpoint_interval (drop (i * checkpoint_interval) rs)"

definition segment_checkpoint :: "int \<Rightarrow> audit_event list \<Rightarrow> nat \<Rightarrow> checkpoint" where
  "segment_checkpoint chain_id rs i = (let segs = segment_of i rs; l = last segs in
     \<lparr>cp_chain_id = chain_id, cp_segment_index = int i, cp_last_record_id = ae_id l,
      cp_last_current_hash = ae_current_hash l,
      cp_checkpoint_hash = compute_checkpoint_hash chain_id (int i) (ae_id l) (ae_current_hash l),
      cp_record_count = int (length segs)\<rparr>)"

definition build_checkpoints_for_chain :: "int \<Rightarrow> audit_event list \<Rightarrow> checkpoint list" where
  "build_checkpoints_for_chain chain_id rs =
     map (segment_checkpoint chain_id rs) [0..<length rs div checkpoint_interval]"

record segment_result =
  sg_status :: string
  sg_reason :: string
  sg_chain_id :: int
  sg_segment_index :: int
  sg_checked_rows :: int
  sg_broken_record_id :: "int option"

definition segment_failure :: "string \<Rightarrow> int \<Rightarrow> int \<Rightarrow> int \<Rightarrow> audit_event \<Rightarrow> segment_result" where
  "segment_failure reason chain_id seg index r = \<lparr>sg_status = ''INVALID'', sg_reason = reason,
     sg_chain_id = chain_id, sg_segment_index = seg, sg_checked_rows = index, sg_broken_record_id = ae_id r\<rparr>"

text \<open>The loop of \<open>verify_segment\<close>: a failure, or nothing.\<close>

fun segment_records :: "int \<Rightarrow> int \<Rightarrow> int \<Rightarrow> string \<Rightarrow> audit_event list \<Rightarrow> segment_result option result" where
  "segment_records chain_id seg index current [] = Inr None"
| "segment_records chain_id seg index current (r # rs) =
     rbind (constant_time_equal (ae_prev_hash r) current) (\<lambda>eq.
     if \<not> eq then Inr (Some (segment_failure ''Previous hash mismatch in segment'' chain_id seg index r))
     else rbind (record_hash r) (\<lambda>expected.
       rbind (constant_time_equal (ae_current_hash r) expected) (\<lambda>eq.
       if \<not> eq then Inr (Some (segment_failure ''Current hash mismatch in segment'' chain_id seg index r))
       else segment_records chain_id seg (index + 1) (ae_current_hash r) rs)))"

definition verify_segment :: "int \<Rightarrow> int \<Rightarrow> audit_event list \<Rightarrow> string \<Rightarrow> checkpoint option \<Rightarrow> segment_result result" where
  "verify_segment chain_id seg records prev_hash expected_checkpoint =
     rbind (segment_records chain_id seg 0 prev_hash records) (\<lambda>failure. case failure of
       Some f \<Rightarrow> Inr f
     | None \<Rightarrow>
       rbind (case expected_checkpoint of
                Some cp \<Rightarrow> if records = [] then Inr True
                  else constant_time_equal (compute_checkpoint_hash chain_id seg (ae_id (last records))
                         (ae_current_hash (last records))) (cp_checkpoint_hash cp)
              | None \<Rightarrow> Inr True) (\<lambda>ok.
       Inr (if \<not> ok
         then segment_failure ''Checkpoint hash mismatch at segment boundary'' chain_id seg
                (int (length records)) (last records)
         else \<lparr>sg_status = ''VALID'', sg_reason = ''Segment verified'', sg_chain_id = chain_id,
                sg_segment_index = seg, sg_checked_rows = int (length records), sg_broken_record_id = None\<rparr>)))"

definition chain_invalid :: "segment_result \<Rightarrow> int \<Rightarrow> string \<Rightarrow> chain_result" where
  "chain_invalid res checked prev_hash = \<lparr>ac_status = ''INVALID'', ac_reason = sg_reason res,
     ac_checked_rows = checked + sg_checked_rows res, ac_last_hash = Some prev_hash,
     ac_broken_record_id = sg_broken_record_id res\<rparr>"

text \<open>Whether the stored checkpoint of a segment is consistent with itself.\<close>

definition checkpoint_trusted :: "int \<Rightarrow> int \<Rightarrow> checkpoint option \<Rightarrow> bool result" where
  "checkpoint_trusted chain_id seg stored = (case stored of None \<Rightarrow> Inr False
     | Some cp \<Rightarrow> constant_time_equal (compute_checkpoint_hash chain_id seg (cp_last_record_id cp)
         (cp_last_current_hash cp)) (cp_checkpoint_hash cp))"

fun check_segments :: "int \<Rightarrow> audit_event list \<Rightarrow> (int \<rightharpoonup> checkpoint) \<Rightarrow> nat list \<Rightarrow> string \<Rightarrow> int
    \<Rightarrow> (chain_result + string \<times> int) result" where
  "check_segments chain_id rs cps [] prev_hash checked = Inr (Inr (prev_hash, checked))"
| "check_segments chain_id rs cps (i # is) prev_hash checked =
     (let segment = segment_of i rs; stored = cps (int i) in
      rbind (checkpoint_trusted chain_id (int i) stored) (\<lambda>skip.
      if skip then check_segments chain_id rs cps is (cp_last_current_hash (the stored))
                     (checked + int (length segment))
      else rbind (verify_segment chain_id (int i) segment prev_hash stored) (\<lambda>res.
        if sg_status res \<noteq> ''VALID'' then Inr (Inl (chain_invalid res checked prev_hash))
        else check_segments chain_id rs cps is (ae_current_hash (last segment)) (checked + sg_checked_rows res))))"

text \<open>The dictionary of the known checkpoints: the last one of a segment wins.\<close>

definition checkpoint_map :: "checkpoint list option \<Rightarrow> (int \<rightharpoonup> checkpoint)" where
  "checkpoint_map known = (case known of None \<Rightarrow> Map.empty
     | Some cps \<Rightarrow> map_of (rev (map (\<lambda>cp. (cp_segment_index cp, cp)) cps)))"

definition verify_chain_with_checkpoints ::
  "int \<Rightarrow> audit_event list \<Rightarrow> checkpoint list option \<Rightarrow> chain_result result" where
  "verify_chain_with_checkpoints chain_id rs known =
    (if rs = [] then Inr \<lparr>ac_status = ''VALID'', ac_reason = ''Chain is empty'', ac_checked_rows = 0,
       ac_last_hash = Some zero_hash, ac_broken_record_id = None\<rparr>
     else let n = length rs div checkpoint_interval;
              done_text = ''Chain verified with checkpoints ('' @ int_text (int n) @ '' complete segment(s))'' in
       rbind (check_segments chain_id rs (checkpoint_map known) [0..<n] zero_hash 0) (\<lambda>out. case out of
         Inl failure \<Rightarrow> Inr failure
       | Inr (prev_hash, checked) \<Rightarrow>
         let tl_records = drop (n * checkpoint_interval) rs in
         if tl_records = [] then Inr \<lparr>ac_status = ''VALID'', ac_reason = done_text, ac_checked_rows = checked,
              ac_last_hash = Some prev_hash, ac_broken_record_id = None\<rparr>
         else rbind (verify_segment chain_id (int n) tl_records prev_hash None) (\<lambda>res.
           if sg_status res \<noteq> ''VALID'' then Inr (chain_invalid res checked prev_hash)
           else Inr \<lparr>ac_status = ''VALID'', ac_reason = done_text,
                  ac_checked_rows = checked + sg_checked_rows res,
                  ac_last_hash = Some (ae_current_hash (last tl_records)), ac_broken_record_id = None\<rparr>)))"

subsection \<open>Segments of a chain\<close>

lemma segment_records_ok: "chain_ok p rs \<Longrightarrow> is_ascii p \<Longrightarrow> segment_records c seg i p rs = Inr None"
proof (induction c seg i p rs rule: segment_records.induct)
  case (2 c seg i p r rs)
  then have "is_ascii (ae_current_hash r)" using record_hash_ascii by auto
  with 2 show ?case by (simp add: constant_time_equal_same)
qed simp

lemma segment_records_none: "segment_records c seg i p rs = Inr None \<Longrightarrow> chain_ok p rs"
proof (induction c seg i p rs rule: segment_records.induct)
  case (2 c seg i p r rs)
  from "2.prems" obtain e1 e2 expected where
    "constant_time_equal (ae_prev_hash r) p = Inr e1" "record_hash r = Inr expected"
    "constant_time_equal (ae_current_hash r) expected = Inr e2" "e1" "e2"
    "segment_records c seg (i + 1) (ae_current_hash r) rs = Inr None"
    by (auto simp: result_simps split: if_splits)
  moreover from this have "ae_prev_hash r = p" "ae_current_hash r = expected"
    using constant_time_equal_True by auto
  ultimately show ?case using "2.IH" by (simp add: constant_time_equal_True)
qed simp

lemma segment_records_some: "segment_records c seg i p rs = Inr (Some f) \<Longrightarrow> sg_status f \<noteq> ''VALID''"
  by (induction c seg i p rs rule: segment_records.induct)
    (auto simp: result_simps segment_failure_def split: if_splits)

lemma verify_segment_ok: "chain_ok p rs \<Longrightarrow> is_ascii p \<Longrightarrow>
    verify_segment c seg rs p None = Inr \<lparr>sg_status = ''VALID'', sg_reason = ''Segment verified'',
      sg_chain_id = c, sg_segment_index = seg, sg_checked_rows = int (length rs), sg_broken_record_id = None\<rparr>"
  by (simp add: verify_segment_def segment_records_ok)

lemma verify_segment_valid: "verify_segment c seg rs p cp = Inr res \<Longrightarrow> sg_status res = ''VALID'' \<Longrightarrow> chain_ok p rs"
proof -
  assume v: "verify_segment c seg rs p cp = Inr res" "sg_status res = ''VALID''"
  then obtain f where f: "segment_records c seg 0 p rs = Inr f" by (auto simp: verify_segment_def result_simps)
  with v have "f = None" by (cases f) (auto simp: verify_segment_def dest: segment_records_some)
  with f show ?thesis by (simp add: segment_records_none)
qed

lemma chain_ok_append: "chain_ok p (rs @ ss) \<longleftrightarrow> chain_ok p rs \<and> chain_ok (chain_end p rs) ss"
  by (induction p rs rule: chain_ok.induct) (auto simp: chain_end_def)

lemma chain_end_ascii: "chain_ok p rs \<Longrightarrow> is_ascii p \<Longrightarrow> is_ascii (chain_end p rs)"
  by (induction p rs rule: chain_ok.induct) (auto simp: chain_end_def dest: record_hash_ascii)

lemma chain_end_append: "chain_end p (rs @ ss) = chain_end (chain_end p rs) ss"
  by (simp add: chain_end_def)

text \<open>The first \<open>i\<close> segments.\<close>

definition prefix_of :: "nat \<Rightarrow> audit_event list \<Rightarrow> audit_event list" where
  "prefix_of i rs = take (i * checkpoint_interval) rs"

lemma prefix_of_Suc: "prefix_of (Suc i) rs = prefix_of i rs @ segment_of i rs"
  using take_add [of "i * checkpoint_interval" checkpoint_interval rs]
  by (simp add: prefix_of_def segment_of_def add.commute)

lemma segment_length: "Suc i * checkpoint_interval \<le> length rs \<Longrightarrow> length (segment_of i rs) = checkpoint_interval"
  by (simp add: segment_of_def)

lemma segment_nonempty: "Suc i * checkpoint_interval \<le> length rs \<Longrightarrow> segment_of i rs \<noteq> []"
  using segment_length [of i rs] by (auto simp: checkpoint_interval_def)

lemma segment_end: "Suc i * checkpoint_interval \<le> length rs
    \<Longrightarrow> ae_current_hash (last (segment_of i rs)) = chain_end p (prefix_of (Suc i) rs)"
  using segment_nonempty [of i rs] by (simp add: prefix_of_Suc chain_end_def)

lemma complete_segments: "i < length rs div checkpoint_interval \<Longrightarrow> Suc i * checkpoint_interval \<le> length rs"
  by (metis Suc_leI div_times_less_eq_dividend le_trans mult_le_mono1)

lemma prefix_length: "i \<le> length rs div checkpoint_interval \<Longrightarrow> length (prefix_of i rs) = i * checkpoint_interval"
  by (metis length_take min.absorb2 div_times_less_eq_dividend le_trans mult_le_mono1 prefix_of_def)

subsection \<open>Verification without checkpoints\<close>

lemma check_segments_ok:
  "chain_ok zero_hash rs \<Longrightarrow> n \<le> length rs div checkpoint_interval \<Longrightarrow> i \<le> n \<Longrightarrow>
    check_segments c rs Map.empty [i..<n] (chain_end zero_hash (prefix_of i rs)) k
      = Inr (Inr (chain_end zero_hash (prefix_of n rs), k + int ((n - i) * checkpoint_interval)))"
proof (induction "n - i" arbitrary: i k)
  case (Suc d)
  then have i: "i < n" and s: "Suc i * checkpoint_interval \<le> length rs"
    using complete_segments [of i rs] by auto
  have "chain_ok zero_hash (prefix_of (Suc i) rs)"
    using Suc.prems(1) chain_ok_append [of zero_hash "prefix_of (Suc i) rs" "drop (Suc i * checkpoint_interval) rs"]
    by (simp add: prefix_of_def)
  then have "chain_ok (chain_end zero_hash (prefix_of i rs)) (segment_of i rs)"
    "is_ascii (chain_end zero_hash (prefix_of i rs))"
    using chain_end_ascii zero_hash_ascii by (auto simp: prefix_of_Suc chain_ok_append)
  then have v: "verify_segment c (int i) (segment_of i rs) (chain_end zero_hash (prefix_of i rs)) None
      = Inr \<lparr>sg_status = ''VALID'', sg_reason = ''Segment verified'', sg_chain_id = c, sg_segment_index = int i,
             sg_checked_rows = int checkpoint_interval, sg_broken_record_id = None\<rparr>"
    using verify_segment_ok segment_length [OF s] by simp
  have "check_segments c rs Map.empty [Suc i..<n] (chain_end zero_hash (prefix_of (Suc i) rs)) (k + int checkpoint_interval)
      = Inr (Inr (chain_end zero_hash (prefix_of n rs),
          k + int checkpoint_interval + int ((n - Suc i) * checkpoint_interval)))"
    using Suc i by (intro Suc.hyps(1)) auto
  moreover have "int checkpoint_interval + int ((n - Suc i) * checkpoint_interval) = int ((n - i) * checkpoint_interval)"
    using i by (metis Suc_diff_Suc mult_Suc of_nat_add)
  ultimately show ?case
    using i v segment_end [OF s, of zero_hash]
    by (simp add: upt_conv_Cons checkpoint_trusted_def add.assoc)
qed simp

lemma check_segments_valid:
  "check_segments c rs Map.empty [i..<n] p k = Inr out \<Longrightarrow> (\<forall>res. out = Inl res \<longrightarrow> ac_status res = ''VALID'')
    \<Longrightarrow> n \<le> length rs div checkpoint_interval \<Longrightarrow> i \<le> n \<Longrightarrow> p = chain_end zero_hash (prefix_of i rs)
    \<Longrightarrow> chain_ok zero_hash (prefix_of i rs)
    \<Longrightarrow> chain_ok zero_hash (prefix_of n rs) \<and> (\<exists>m. out = Inr (chain_end zero_hash (prefix_of n rs), m))"
proof (induction "n - i" arbitrary: i p k)
  case (Suc d)
  then have i: "i < n" and s: "Suc i * checkpoint_interval \<le> length rs"
    using complete_segments [of i rs] by auto
  obtain res where v: "verify_segment c (int i) (segment_of i rs) p None = Inr res"
    using Suc.prems(1) i by (auto simp: upt_conv_Cons checkpoint_trusted_def Let_def result_simps)
  have st: "sg_status res = ''VALID''"
    using Suc.prems(1,2) i v by (auto simp: upt_conv_Cons checkpoint_trusted_def chain_invalid_def split: if_splits)
  have "chain_ok p (segment_of i rs)" using v st by (rule verify_segment_valid)
  then have ok: "chain_ok zero_hash (prefix_of (Suc i) rs)"
    using Suc.prems(5,6) by (simp add: prefix_of_Suc chain_ok_append)
  show ?case
  proof (rule Suc.hyps(1))
    show "check_segments c rs Map.empty [Suc i..<n] (chain_end zero_hash (prefix_of (Suc i) rs))
        (k + sg_checked_rows res) = Inr out"
      using Suc.prems(1) i v st segment_end [OF s, of zero_hash] by (simp add: upt_conv_Cons checkpoint_trusted_def)
  qed (use Suc i ok in auto)
qed auto

lemma split_tail: "rs = prefix_of (length rs div checkpoint_interval) rs @ drop (length rs div checkpoint_interval * checkpoint_interval) rs"
  by (simp add: prefix_of_def)

definition checkpoints_text :: "nat \<Rightarrow> string" where
  "checkpoints_text n = ''Chain verified with checkpoints ('' @ int_text (int n) @ '' complete segment(s))''"

lemma verify_after_segments:
  assumes "rs \<noteq> []" "length rs div checkpoint_interval = n" "drop (n * checkpoint_interval) rs = t"
    and "check_segments c rs (checkpoint_map known) [0..<n] zero_hash 0 = Inr (Inr (q, m))"
  shows "verify_chain_with_checkpoints c rs known =
    (if t = [] then Inr \<lparr>ac_status = ''VALID'', ac_reason = checkpoints_text n, ac_checked_rows = m,
       ac_last_hash = Some q, ac_broken_record_id = None\<rparr>
     else rbind (verify_segment c (int n) t q None) (\<lambda>res.
       if sg_status res \<noteq> ''VALID'' then Inr (chain_invalid res m q)
       else Inr \<lparr>ac_status = ''VALID'', ac_reason = checkpoints_text n,
              ac_checked_rows = m + sg_checked_rows res,
              ac_last_hash = Some (ae_current_hash (last t)), ac_broken_record_id = None\<rparr>))"
  unfolding verify_chain_with_checkpoints_def Let_def checkpoints_text_def assms(2)
  using assms(1,4) by (simp only: assms(3) if_False rbind_simps sum.case prod.case)

text \<open>Without stored checkpoints the segmented verification decides what the plain one decides.\<close>

lemma verify_without_checkpoints:
  "(\<exists>res. verify_chain_with_checkpoints c rs None = Inr res \<and> ac_status res = ''VALID'') \<longleftrightarrow> chain_ok zero_hash rs"
proof (cases "rs = []")
  case True
  then show ?thesis by (simp add: verify_chain_with_checkpoints_def)
next
  case False
  define n where "n = length rs div checkpoint_interval"
  define t where "t = drop (n * checkpoint_interval) rs"
  have split: "rs = prefix_of n rs @ t" using split_tail [of rs] by (simp add: n_def t_def)
  have p0: "prefix_of 0 rs = []" "chain_end zero_hash [] = zero_hash"
    by (simp_all add: prefix_of_def chain_end_def)
  show ?thesis
  proof
    assume "\<exists>res. verify_chain_with_checkpoints c rs None = Inr res \<and> ac_status res = ''VALID''"
    then obtain res out where res: "verify_chain_with_checkpoints c rs None = Inr res" "ac_status res = ''VALID''"
      and out: "check_segments c rs Map.empty [0..<n] zero_hash 0 = Inr out"
      using False by (auto simp: verify_chain_with_checkpoints_def checkpoint_map_def Let_def n_def result_simps)
    have "\<forall>r. out = Inl r \<longrightarrow> ac_status r = ''VALID''"
      using res False out by (auto simp: verify_chain_with_checkpoints_def checkpoint_map_def Let_def n_def)
    then obtain m where ok: "chain_ok zero_hash (prefix_of n rs)"
      and o: "out = Inr (chain_end zero_hash (prefix_of n rs), m)"
      using check_segments_valid [OF out] p0 by (auto simp: n_def)
    have "chain_ok (chain_end zero_hash (prefix_of n rs)) t"
    proof (cases "t = []")
      case t: False
      obtain sres where "verify_segment c (int n) t (chain_end zero_hash (prefix_of n rs)) None = Inr sres"
        "sg_status sres = ''VALID''"
        using res t verify_after_segments [OF False n_def [symmetric] t_def [symmetric],
            of c None "chain_end zero_hash (prefix_of n rs)" m] out o
        by (auto simp: checkpoint_map_def result_simps chain_invalid_def split: if_splits)
      then show ?thesis by (rule verify_segment_valid)
    qed simp
    with ok have "chain_ok zero_hash (prefix_of n rs @ t)" by (simp add: chain_ok_append)
    with split show "chain_ok zero_hash rs" by simp
  next
    assume ok: "chain_ok zero_hash rs"
    have c: "check_segments c rs Map.empty [0..<n] zero_hash 0
        = Inr (Inr (chain_end zero_hash (prefix_of n rs), int (n * checkpoint_interval)))"
      using check_segments_ok [OF ok, of n 0 c 0] p0 by (simp add: n_def)
    have "chain_ok zero_hash (prefix_of n rs @ t)" using ok split by simp
    then have "chain_ok (chain_end zero_hash (prefix_of n rs)) t" "is_ascii (chain_end zero_hash (prefix_of n rs))"
      using chain_end_ascii zero_hash_ascii by (auto simp: chain_ok_append)
    then show "\<exists>res. verify_chain_with_checkpoints c rs None = Inr res \<and> ac_status res = ''VALID''"
      using verify_after_segments [OF False n_def [symmetric] t_def [symmetric],
          of c None "chain_end zero_hash (prefix_of n rs)"] c verify_segment_ok
      by (simp add: checkpoint_map_def)
  qed
qed

subsection \<open>Verification with stored checkpoints\<close>

lemma segment_checkpoint_trusted:
  "checkpoint_trusted c (int i) (Some (segment_checkpoint c rs i)) = Inr True"
  by (simp add: checkpoint_trusted_def segment_checkpoint_def Let_def compute_checkpoint_hash_def constant_time_equal_same)

lemma segment_checkpoint_hash [simp]:
  "cp_last_current_hash (segment_checkpoint c rs i) = ae_current_hash (last (segment_of i rs))"
  by (simp add: segment_checkpoint_def Let_def)

lemma check_segments_skip:
  "\<forall>i \<in> set is. cps (int i) = Some (segment_checkpoint c rs i) \<Longrightarrow>
    check_segments c ss cps is p k = Inr (Inr (if is = [] then p else ae_current_hash (last (segment_of (last is) rs)),
      k + (\<Sum>i\<leftarrow>is. int (length (segment_of i ss)))))"
  by (induction "is" arbitrary: p k)
    (auto simp: segment_checkpoint_trusted add.assoc)

lemma checkpoint_map_build:
  assumes "i < length rs div checkpoint_interval"
  shows "checkpoint_map (Some (build_checkpoints_for_chain c rs)) (int i) = Some (segment_checkpoint c rs i)"
proof -
  have "map (\<lambda>cp. (cp_segment_index cp, cp)) (build_checkpoints_for_chain c rs)
      = map (\<lambda>i. (int i, segment_checkpoint c rs i)) [0..<length rs div checkpoint_interval]"
    by (simp add: build_checkpoints_for_chain_def segment_checkpoint_def Let_def)
  then show ?thesis using assms
    by (simp add: checkpoint_map_def) (rule map_of_is_SomeI, auto simp: rev_map comp_def distinct_map inj_on_def)
qed

text \<open>The checkpoints of one chain vouch for every list of the same length with the same tail:
  a segment with a stored checkpoint is not looked at.\<close>

lemma checkpoints_skip_segments:
  assumes "chain_ok zero_hash rs" "rs \<noteq> []" "length ss = length rs"
    and "drop (length rs div checkpoint_interval * checkpoint_interval) ss
       = drop (length rs div checkpoint_interval * checkpoint_interval) rs"
  shows "verify_chain_with_checkpoints c ss (Some (build_checkpoints_for_chain c rs)) = Inr \<lparr>ac_status = ''VALID'',
    ac_reason = checkpoints_text (length rs div checkpoint_interval), ac_checked_rows = int (length rs), ac_last_hash = Some (chain_end zero_hash rs), ac_broken_record_id = None\<rparr>"
proof -
  define n where "n = length rs div checkpoint_interval"
  define t where "t = drop (n * checkpoint_interval) rs"
  define q where "q = chain_end zero_hash (prefix_of n rs)"
  have split: "rs = prefix_of n rs @ t" using split_tail [of rs] by (simp add: n_def t_def)
  have ss: "drop (n * checkpoint_interval) ss = t" using assms(4) by (simp add: n_def t_def)
  have len: "length ss = length rs" "ss \<noteq> []" using assms by auto
  have e: "(if [0..<n] = [] then zero_hash else ae_current_hash (last (segment_of (last [0..<n]) rs))) = q"
  proof (cases n)
    case (Suc m)
    then show ?thesis using segment_end [of m rs zero_hash] complete_segments [of m rs] by (simp add: n_def q_def)
  qed (simp add: q_def prefix_of_def chain_end_def)
  have l: "(\<Sum>i\<leftarrow>[0..<n]. int (length (segment_of i ss))) = (\<Sum>i\<leftarrow>[0..<n]. int checkpoint_interval)"
  proof (rule arg_cong [where f = sum_list], rule map_cong)
    fix i assume "i \<in> set [0..<n]"
    then show "int (length (segment_of i ss)) = int checkpoint_interval"
      using complete_segments [of i ss] segment_length [of i ss] len by (simp add: n_def)
  qed simp
  have c: "check_segments c ss (checkpoint_map (Some (build_checkpoints_for_chain c rs))) [0..<n] zero_hash 0
      = Inr (Inr (q, int (n * checkpoint_interval)))"
    using check_segments_skip [of "[0..<n]" "checkpoint_map (Some (build_checkpoints_for_chain c rs))" c rs ss zero_hash 0]
      checkpoint_map_build e l by (simp add: n_def sum_list_triv)
  have "chain_ok zero_hash (prefix_of n rs @ t)" using assms(1) split by simp
  then have t: "chain_ok q t" "is_ascii q"
    using chain_end_ascii zero_hash_ascii by (auto simp: chain_ok_append q_def)
  have "chain_end zero_hash rs = chain_end q t"
    using split chain_end_append [of zero_hash "prefix_of n rs" t] by (simp add: q_def)
  moreover have "length rs = n * checkpoint_interval + length t"
    using split prefix_length [of n rs] by (metis length_append le_refl n_def)
  moreover have "length ss div checkpoint_interval = n" using len by (simp add: n_def)
  ultimately show ?thesis
    using verify_after_segments [OF len(2) _ ss c] verify_segment_ok [OF t]
    unfolding n_def [symmetric] by (auto simp: chain_end_def)
qed

end
