(* ===== verification/Guards.thy ===== *)
theory Guards
  imports Canonical
begin

text \<open>
  \<open>security/guards.py\<close>: the size, type and injection checks a request payload passes before
  it is validated.  \<open>SecurityViolation\<close> is a subclass of \<open>ValueError\<close>.  The three regular
  expressions of \<open>INJECTION_PATTERNS\<close> are written as searches, with the word characters
  and the white space of Python's \<open>re\<close> on code points below 256.  On these \<open>encode('utf-8')\<close> does not fail; the
  UnicodeEncodeError of a string with a lone surrogate enters with the request (theory Http_Routes).
  \<open>guards_within n\<close> is \<open>enforce_payload_guards\<close> on a stack with room for \<open>n\<close> levels of nesting.
\<close>

definition max_request_bytes :: nat where "max_request_bytes = 8192"
definition max_string_bytes :: nat where "max_string_bytes = 256"
definition max_collection_items :: nat where "max_collection_items = 256"

definition word_char :: "char \<Rightarrow> bool" where
  "word_char c \<longleftrightarrow> (let n = (of_char c :: int) in
     (48 \<le> n \<and> n \<le> 57) \<or> (65 \<le> n \<and> n \<le> 90) \<or> n = 95 \<or> (97 \<le> n \<and> n \<le> 122)
     \<or> n \<in> {170, 178, 179, 181, 185, 186, 188, 189, 190}
     \<or> (192 \<le> n \<and> n \<noteq> 215 \<and> n \<noteq> 247))"

definition begins :: "string \<Rightarrow> string \<Rightarrow> bool" where
  "begins p s \<longleftrightarrow> take (length p) s = p"

fun occurs :: "string \<Rightarrow> string \<Rightarrow> bool" where
  "occurs p [] = (p = [])"
| "occurs p (c # s) = (begins p (c # s) \<or> occurs p s)"

definition word_start :: "string \<Rightarrow> bool" where
  "word_start s \<longleftrightarrow> s \<noteq> [] \<and> word_char (hd s)"

definition sql_words :: "string list" where
  "sql_words = [''select'', ''insert'', ''update'', ''delete'', ''drop'', ''union'', ''alter'',
     ''create'', ''truncate'', ''xp_'']"

text \<open>\<open>\b(w1|w2|...)\b\<close>, ignoring case; \<open>prev\<close> tells whether the previous character is a
  word character.\<close>

fun has_word :: "string list \<Rightarrow> bool \<Rightarrow> string \<Rightarrow> bool" where
  "has_word ws prev [] = False"
| "has_word ws prev (c # s) =
     ((\<not> prev \<and> list_ex (\<lambda>w. begins w (py_lower (c # s)) \<and> \<not> word_start (drop (length w) (c # s))) ws)
      \<or> has_word ws (word_char c) s)"

text \<open>\<open><\s*script\b\<close>, ignoring case.\<close>

fun has_script :: "string \<Rightarrow> bool" where
  "has_script [] = False"
| "has_script (c # s) =
     ((c = CHR ''<'' \<and> (let r = dropWhile py_space s in
          begins ''script'' (py_lower r) \<and> \<not> word_start (drop 6 r)))
      \<or> has_script s)"

definition injection :: "string \<Rightarrow> bool" where
  "injection s \<longleftrightarrow> (occurs ''--'' s \<or> occurs ''/*'' s \<or> occurs ''*/'' s \<or> occurs '';'' s)
     \<or> has_word sql_words False s \<or> has_script s"

definition walk_string :: "string \<Rightarrow> unit result" where
  "walk_string s =
    (if length (utf8 s) > max_string_bytes then Inl (ValueError ''String value exceeds size limit'')
     else if injection s then Inl (ValueError ''Potential injection pattern detected'')
     else Inr ())"

function walk :: "pyv \<Rightarrow> unit result" where
  "walk (PDict kvs) =
     (if length kvs > max_collection_items then Inl (ValueError ''Payload contains too many keys'')
      else reach (\<lambda>kv. rbind (walk_string (fst kv)) (\<lambda>_. walk (snd kv))) kvs)"
| "walk (PList vs) =
     (if length vs > max_collection_items then Inl (ValueError ''Payload contains too many items'')
      else reach walk vs)"
| "walk (PSet vs) =
     (if length vs > max_collection_items then Inl (ValueError ''Payload contains too many items'')
      else reach (\<lambda>kv. walk (snd kv)) vs)"
| "walk (PStr s) = walk_string s"
| "walk (PFloat t) = Inl (ValueError ''Floating point values are not allowed'')"
| "walk (PInt n) = Inr ()"
| "walk (PBool b) = Inr ()"
| "walk PNone = Inr ()"
| "walk (PDec d) = Inr ()"
| "walk (PDatetime t) = Inl (ValueError ''Unsupported payload type: datetime'')"
| "walk (PDate t) = Inl (ValueError ''Unsupported payload type: date'')"
| "walk (PUuid t) = Inl (ValueError ''Unsupported payload type: UUID'')"
  by pat_completeness auto
termination by (relation "measure size") (auto intro: size_pair_list size_member)

definition enforce_payload_guards :: "pyv \<Rightarrow> unit result" where
  "enforce_payload_guards v = rbind (canonical_json v) (\<lambda>raw.
     if length (utf8 raw) > max_request_bytes
     then Inl (ValueError ''Payload exceeds maximum request size'')
     else walk v)"

text \<open>\<open>canonicalize\<close> calls itself for every level of nesting; when the interpreter's stack has no room for
  another level it raises RecursionError, a RuntimeError.  \<open>_walk\<close> and the encoder of \<open>json.dumps\<close> take no more frames
  for a level than \<open>canonicalize\<close>, which comes first.\<close>

definition recursion_error :: py_error where
  "recursion_error = RuntimeError ''maximum recursion depth exceeded''"

primrec canonicalize_within :: "nat \<Rightarrow> pyv \<Rightarrow> json result" where
  "canonicalize_within 0 v = Inl recursion_error"
| "canonicalize_within (Suc n) v = (case v of
     PDict kvs \<Rightarrow> rbind (rmap (\<lambda>kv. rbind (canonicalize_within n (snd kv)) (\<lambda>w. Inr (fst kv, w))) (sort_key fst kvs))
       (\<lambda>ws. Inr (JDict ws))
   | PList vs \<Rightarrow> rbind (rmap (canonicalize_within n) vs) (\<lambda>ws. Inr (JList ws))
   | PSet vs \<Rightarrow> rbind (rmap (\<lambda>kv. canonicalize_within n (snd kv)) (sort_key fst vs)) (\<lambda>ws. Inr (JList ws))
   | _ \<Rightarrow> canonicalize v)"

definition guards_within :: "nat \<Rightarrow> pyv \<Rightarrow> unit result" where
  "guards_within levels v = rbind (canonicalize_within levels v) (\<lambda>_. enforce_payload_guards v)"

text \<open>How many levels of nesting a value has.\<close>

function nesting :: "pyv \<Rightarrow> nat" where
  "nesting (PDict kvs) = Suc (foldr (\<lambda>kv. max (nesting (snd kv))) kvs 0)"
| "nesting (PList vs) = Suc (foldr (\<lambda>v. max (nesting v)) vs 0)"
| "nesting (PSet vs) = Suc (foldr (\<lambda>kv. max (nesting (snd kv))) vs 0)"
| "nesting (PStr s) = 1"
| "nesting (PFloat t) = 1"
| "nesting (PInt n) = 1"
| "nesting (PBool b) = 1"
| "nesting PNone = 1"
| "nesting (PDec d) = 1"
| "nesting (PDatetime t) = 1"
| "nesting (PDate t) = 1"
| "nesting (PUuid t) = 1"
  by pat_completeness auto
termination by (relation "measure size") (auto intro: size_pair_list size_member)

lemma foldr_max_le: "foldr (\<lambda>x. max (f x)) xs 0 \<le> n \<longleftrightarrow> (\<forall>x \<in> set xs. f x \<le> (n :: nat))"
  by (induction xs) auto

lemma rmap_agree:
  "(\<And>x. x \<in> set xs \<Longrightarrow> f x = g x \<or> f x = Inl e) \<Longrightarrow> rmap f xs = rmap g xs \<or> rmap f xs = Inl e"
  by (induction xs) (fastforce simp: rbind_def split: sum.splits)+

lemma within_agrees: "canonicalize_within n v = canonicalize v \<or> canonicalize_within n v = Inl recursion_error"
proof (induction n arbitrary: v)
  case (Suc n)
  have r: "rbind (canonicalize_within n x) f = rbind (canonicalize x) f \<or> rbind (canonicalize_within n x) f = Inl recursion_error"
    for x and f :: "json \<Rightarrow> (string \<times> json) result" using Suc [of x] by auto
  show ?case
  proof (cases v)
    case (PDict kvs)
    then show ?thesis
      using rmap_agree [of "sort_key fst kvs" "\<lambda>kv. rbind (canonicalize_within n (snd kv)) (\<lambda>w. Inr (fst kv, w))"
          "\<lambda>kv. rbind (canonicalize (snd kv)) (\<lambda>w. Inr (fst kv, w))" recursion_error] r by auto
  next
    case (PList vs)
    then show ?thesis using rmap_agree [of vs "canonicalize_within n" canonicalize recursion_error] Suc by auto
  next
    case (PSet vs)
    then show ?thesis
      using rmap_agree [of "sort_key fst vs" "\<lambda>kv. canonicalize_within n (snd kv)" "\<lambda>kv. canonicalize (snd kv)" recursion_error] Suc
      by auto
  qed simp_all
qed simp

text \<open>It succeeds when \<open>canonicalize\<close> does and the levels suffice.\<close>

lemma within_Inr: "(\<exists>w. canonicalize_within n v = Inr w) \<longleftrightarrow> (\<exists>w. canonicalize v = Inr w) \<and> nesting v \<le> n"
proof (induction n arbitrary: v)
  case 0
  show ?case by (cases v) simp_all
next
  case (Suc n)
  have m: "(\<exists>ws. rmap f xs = Inr ws) \<longleftrightarrow> (\<forall>x \<in> set xs. \<exists>w. f x = Inr w)" for f :: "'b \<Rightarrow> 'c result" and xs
    by (induction xs) (auto simp: result_simps)
  show ?case
    by (cases v) (auto simp: result_simps m foldr_max_le Suc)
qed

lemma rmap_same: "(\<And>x. x \<in> set xs \<Longrightarrow> f x = g x) \<Longrightarrow> rmap f xs = rmap g xs"
  by (induction xs) simp_all

lemma within_enough: "nesting v \<le> n \<Longrightarrow> canonicalize_within n v = canonicalize v"
proof (induction n arbitrary: v)
  case 0
  then show ?case by (cases v) simp_all
next
  case (Suc n)
  then show ?case
    by (cases v) (fastforce simp: foldr_max_le intro!: arg_cong2 [where f = rbind] rmap_same)+
qed

lemma guards_within_enough: "nesting v \<le> n \<Longrightarrow> guards_within n v = enforce_payload_guards v"
  by (cases "canonicalize v") (simp_all add: guards_within_def within_enough enforce_payload_guards_def canonical_json_def)

subsection \<open>What a payload that passes looks like\<close>

fun harmless :: "pyv \<Rightarrow> bool" where
  "harmless (PDict kvs) = (length kvs \<le> max_collection_items
     \<and> list_all (\<lambda>kv. length (utf8 (fst kv)) \<le> max_string_bytes \<and> \<not> injection (fst kv) \<and> harmless (snd kv)) kvs)"
| "harmless (PList vs) = (length vs \<le> max_collection_items \<and> list_all harmless vs)"
| "harmless (PSet vs) = (length vs \<le> max_collection_items \<and> list_all (\<lambda>kv. harmless (snd kv)) vs)"
| "harmless (PStr s) = (length (utf8 s) \<le> max_string_bytes \<and> \<not> injection s)"
| "harmless (PInt n) = True"
| "harmless (PBool b) = True"
| "harmless PNone = True"
| "harmless (PDec d) = True"
| "harmless _ = False"

lemma walk_string_ok: "walk_string s = Inr () \<longleftrightarrow> length (utf8 s) \<le> max_string_bytes \<and> \<not> injection s"
  by (simp add: walk_string_def)

lemma walk_harmless: "walk v = Inr () \<longleftrightarrow> harmless v"
proof (induction v rule: walk.induct)
  case (1 kvs)
  then show ?case by (auto simp: reach_Inr_iff result_simps walk_string_ok list_all_iff)
qed (auto simp: reach_Inr_iff walk_string_ok list_all_iff)

text \<open>The only error of \<open>canonicalize\<close> is the TypeError of a float.  A float in a payload
  therefore ends the guards with that TypeError, before \<open>_walk\<close> could refuse it with its
  own SecurityViolation.\<close>

lemma canonicalize_error: "canonicalize v = Inl e \<Longrightarrow> e = TypeError"
proof (induction v arbitrary: e rule: canonicalize.induct)
  case (10 kvs)
  then show ?case by (auto simp: result_simps dest!: rmap_error)
next
  case (11 vs)
  then show ?case by (auto simp: result_simps dest!: rmap_error)
next
  case (12 vs)
  then show ?case by (auto simp: result_simps dest!: rmap_error)
qed auto

lemma rmap_total: "(\<And>x. x \<in> set xs \<Longrightarrow> \<exists>y. f x = Inr y) \<Longrightarrow> \<exists>ys. rmap f xs = Inr ys"
  by (induction xs) (fastforce simp: result_simps)+

lemma harmless_canonical: "harmless v \<Longrightarrow> \<exists>w. canonicalize v = Inr w"
proof (induction v rule: canonicalize.induct)
  case (10 kvs)
  have "\<exists>ws. rmap (\<lambda>kv. rbind (canonicalize (snd kv)) (\<lambda>w. Inr (fst kv, w))) (sort_key fst kvs) = Inr ws"
    by (rule rmap_total) (use 10 in \<open>fastforce simp: list_all_iff\<close>)
  then show ?case by auto
next
  case (11 vs)
  have "\<exists>ws. rmap canonicalize vs = Inr ws"
    by (rule rmap_total) (use 11 in \<open>fastforce simp: list_all_iff\<close>)
  then show ?case by auto
next
  case (12 vs)
  have "\<exists>ws. rmap (\<lambda>kv. canonicalize (snd kv)) (sort_key fst vs) = Inr ws"
    by (rule rmap_total) (use 12 in \<open>fastforce simp: list_all_iff\<close>)
  then show ?case by auto
qed auto

lemma guards_pass_iff:
  "enforce_payload_guards v = Inr () \<longleftrightarrow>
     harmless v \<and> (\<forall>raw. canonical_json v = Inr raw \<longrightarrow> length (utf8 raw) \<le> max_request_bytes)"
  using harmless_canonical [of v] walk_harmless [of v]
  by (cases "canonicalize v") (auto simp: enforce_payload_guards_def canonical_json_def)

lemma guards_error:
  "enforce_payload_guards v = Inl e \<Longrightarrow> e = TypeError \<or> (\<exists>m. e = ValueError m)"
proof -
  have w: "walk v = Inl e \<Longrightarrow> \<exists>m. e = ValueError m" for v
  proof (induction v arbitrary: e rule: walk.induct)
    case (1 kvs)
    then show ?case
      by (auto split: if_splits simp: walk_string_def result_simps dest!: reach_error)
  qed (auto split: if_splits simp: walk_string_def dest!: reach_error)
  assume "enforce_payload_guards v = Inl e"
  then show ?thesis using w canonicalize_error
    by (auto simp: enforce_payload_guards_def canonical_json_def result_simps split: if_splits)
qed

subsection \<open>Plain words pass\<close>

lemma begins_set: "begins p s \<Longrightarrow> set p \<subseteq> set s"
  unfolding begins_def by (metis set_take_subset)

lemma occurs_set: "occurs p s \<Longrightarrow> set p \<subseteq> set s"
proof (induction p s rule: occurs.induct)
  case (2 p c s)
  then show ?case using begins_set [of p "c # s"] by auto
qed simp

lemma has_script_set: "has_script s \<Longrightarrow> CHR ''<'' \<in> set s"
  by (induction s) (auto simp: Let_def)

lemma has_word_plain:
  "list_all word_char s \<Longrightarrow> has_word ws prev s \<Longrightarrow> \<not> prev \<and> py_lower s \<in> set ws"
proof (induction ws prev s rule: has_word.induct)
  case (2 ws prev c s)
  have "\<not> has_word ws (word_char c) s" using 2 by auto
  with 2 obtain w where w: "w \<in> set ws" "\<not> prev" "begins w (py_lower (c # s))"
    "\<not> word_start (drop (length w) (c # s))"
    by (auto simp: list_ex_iff)
  have "list_all word_char (drop (length w) (c # s))"
    using "2.prems"(1) set_drop_subset [of "length w" "c # s"] unfolding list_all_iff by blast
  then have "drop (length w) (c # s) = []" using w(4)
    by (cases "drop (length w) (c # s)") (auto simp: word_start_def)
  then have "take (length w) (py_lower (c # s)) = py_lower (c # s)" by (simp add: py_lower_def)
  then show ?case using w by (simp add: begins_def)
qed simp

lemma plain_word_harmless:
  assumes "list_all word_char s" "py_lower s \<notin> set sql_words"
  shows "\<not> injection s"
proof -
  have "\<not> word_char CHR ''-''" "\<not> word_char CHR ''*''" "\<not> word_char CHR '';''" "\<not> word_char CHR ''<''"
    by (simp_all add: word_char_def)
  then have n: "CHR ''-'' \<notin> set s" "CHR ''*'' \<notin> set s" "CHR '';'' \<notin> set s" "CHR ''<'' \<notin> set s"
    using assms(1) by (auto simp: list_all_iff)
  have "\<not> has_word sql_words False s" using has_word_plain [OF assms(1)] assms(2) by blast
  moreover have "\<not> has_script s" using n(4) has_script_set by blast
  ultimately show ?thesis
    using n occurs_set [of "''--''" s] occurs_set [of "''/*''" s] occurs_set [of "''*/''" s] occurs_set [of "'';''" s]
    by (auto simp: injection_def)
qed

lemma digit_word_char: "is_digit c \<Longrightarrow> word_char c"
  by (auto simp: is_digit_def word_char_def)

lemma digits_harmless:
  assumes "list_all is_digit s"
  shows "\<not> injection s"
proof (rule plain_word_harmless)
  show "list_all word_char s"
    using assms digit_word_char unfolding list_all_iff by blast
  have l: "py_lower s = s"
    unfolding py_lower_def
  proof (rule map_idI)
    fix c assume "c \<in> set s"
    then show "lower_char c = c" using assms is_digit_facts [of c] unfolding list_all_iff by blast
  qed
  have "list_all (\<lambda>w. \<not> list_all is_digit w) sql_words" by code_simp
  then show "py_lower s \<notin> set sql_words"
    using assms unfolding l list_all_iff by blast
qed

subsection \<open>Length of canonical text\<close>

lemma length_json_string: "length (json_string s) \<le> 6 * length s + 2"
proof -
  have e: "length (json_escape c) \<le> 6" for c by (simp add: json_escape_def Let_def)
  have "length (concat (map json_escape s)) \<le> 6 * length s"
  proof (induction s)
    case (Cons c s)
    then show ?case using e [of c] by simp
  qed simp
  then show ?thesis by (simp add: json_string_def)
qed

lemma utf8_canonical_length:
  "canonical_json v = Inr t \<Longrightarrow> length (utf8 t) = length t"
  by (auto simp: canonical_json_def result_simps
      intro: length_utf8_ascii json_dumps_ascii canonicalize_float_free)

lemma length_amount_text:
  assumes "dexpo d = - 2" "0 \<le> dcoef d" "dcoef d < 10 ^ 28"
  shows "length (dec_format_f d) \<le> 33"
proof -
  have "ndigits (dcoef d) \<le> 28" using assms ndigits_le_iff [of "dcoef d" 28] by simp
  then have "int (length (dec_digits (dcoef d))) \<le> 28" by (simp add: length_dec_digits)
  then have "length (dec_digits (dcoef d)) \<le> 28" by linarith
  then show ?thesis using assms(1) by (simp add: dec_format_f_def Let_def min_def)
qed

lemma length_int_text:
  assumes "0 \<le> n" "n \<le> 1000000"
  shows "length (int_text n) \<le> 7"
proof -
  have "ndigits n \<le> 7" using assms ndigits_le_iff [of n 7] by simp
  then have "int (length (dec_digits n)) \<le> 7" by (simp add: length_dec_digits)
  then show ?thesis using assms(1) by (simp add: int_text_def)
qed

subsection \<open>Floats\<close>

text \<open>A float anywhere in a value.\<close>

fun has_float :: "pyv \<Rightarrow> bool" where
  "has_float (PFloat t) = True"
| "has_float (PDict kvs) = list_ex (\<lambda>kv. has_float (snd kv)) kvs"
| "has_float (PList vs) = list_ex has_float vs"
| "has_float (PSet vs) = list_ex (\<lambda>kv. has_float (snd kv)) vs"
| "has_float _ = False"

lemma rmap_ok_iff: "(\<exists>ys. rmap f xs = Inr ys) \<longleftrightarrow> (\<forall>x \<in> set xs. \<exists>y. f x = Inr y)"
  by (induction xs) (auto simp: result_simps)

lemma canonicalize_ok_iff: "(\<exists>w. canonicalize v = Inr w) \<longleftrightarrow> \<not> has_float v"
proof (induction v rule: canonicalize.induct)
  case (10 kvs)
  have "(\<exists>w. canonicalize (PDict kvs) = Inr w) \<longleftrightarrow>
      (\<exists>ws. rmap (\<lambda>kv. rbind (canonicalize (snd kv)) (\<lambda>w. Inr (fst kv, w))) (sort_key fst kvs) = Inr ws)"
    by (auto simp: result_simps)
  also have "\<dots> \<longleftrightarrow> (\<forall>kv \<in> set kvs. \<exists>w. canonicalize (snd kv) = Inr w)"
    unfolding rmap_ok_iff by (simp add: result_simps)
  finally show ?case using 10 by (simp add: list_ex_iff)
next
  case (11 vs)
  have "(\<exists>w. canonicalize (PList vs) = Inr w) \<longleftrightarrow> (\<exists>ws. rmap canonicalize vs = Inr ws)"
    by (auto simp: result_simps)
  then show ?case using 11 rmap_ok_iff [of canonicalize vs] by (auto simp: list_ex_iff)
next
  case (12 vs)
  have "(\<exists>w. canonicalize (PSet vs) = Inr w) \<longleftrightarrow>
      (\<exists>ws. rmap (\<lambda>kv. canonicalize (snd kv)) (sort_key fst vs) = Inr ws)"
    by (auto simp: result_simps)
  also have "\<dots> \<longleftrightarrow> (\<forall>kv \<in> set vs. \<exists>w. canonicalize (snd kv) = Inr w)"
    unfolding rmap_ok_iff by simp
  finally show ?case using 12 by (simp add: list_ex_iff)
qed auto

lemma guards_type_error: "enforce_payload_guards v = Inl TypeError \<longleftrightarrow> has_float v"
proof
  assume e: "enforce_payload_guards v = Inl TypeError"
  have w: "walk v \<noteq> Inl TypeError" for v
  proof (induction v rule: walk.induct)
    case (1 kvs)
    then show ?case by (auto split: if_splits simp: walk_string_def result_simps dest!: reach_error)
  qed (auto split: if_splits simp: walk_string_def dest!: reach_error)
  show "has_float v"
  proof (rule ccontr)
    assume "\<not> has_float v"
    then obtain w where "canonicalize v = Inr w" using canonicalize_ok_iff by blast
    then show False using e w by (auto simp: enforce_payload_guards_def canonical_json_def split: if_splits)
  qed
next
  assume "has_float v"
  then obtain e where "canonicalize v = Inl e" using canonicalize_ok_iff [of v] by (cases "canonicalize v") auto
  moreover from this have "e = TypeError" by (rule canonicalize_error)
  ultimately show "enforce_payload_guards v = Inl TypeError"
    by (simp add: enforce_payload_guards_def canonical_json_def)
qed

end
