(* ===== verification/Schemas.thy ===== *)
theory Schemas
  imports Guards Pydecimal
begin

text \<open>
  \<open>models/schemas.py\<close>: the request model with its validators, and the result, trace and
  integrity models with the payloads \<open>model_dump(mode="python")\<close> makes of them.  pydantic
  itself is not part of the repository: its coercion of the field \<open>quantity: int\<close> is the
  parameter \<open>int_of\<close>; the constraints written in the class body are modelled here.  pydantic
  turns a ValueError of a validator into its ValidationError and lets any other exception
  through.
\<close>

subsection \<open>Text conversions of the validators\<close>

text \<open>\<open>str(value)\<close>.  Of a container only the opening bracket is kept: no rule below accepts a
  text that begins with one.\<close>

fun py_str :: "pyv \<Rightarrow> string" where
  "py_str PNone = ''None''"
| "py_str (PBool b) = (if b then ''True'' else ''False'')"
| "py_str (PInt n) = int_text n"
| "py_str (PFloat t) = t"
| "py_str (PDec d) = (case d of Fin f \<Rightarrow> dec_str f | _ \<Rightarrow> decimal_format_f d)"
| "py_str (PStr s) = s"
| "py_str (PDatetime t) = py_replace ''T'' '' '' t"
| "py_str (PDate t) = t"
| "py_str (PUuid t) = t"
| "py_str (PList vs) = ''[''"
| "py_str (PSet vs) = ''{''"
| "py_str (PDict kvs) = ''{''"

text \<open>\<open>str.upper()\<close>; the two letters whose capital lies above U+00FF stay as they are.\<close>

definition upper_char :: "char \<Rightarrow> string" where
  "upper_char c = (let n = (of_char c :: int) in
     if n = 223 then ''SS''
     else if (97 \<le> n \<and> n \<le> 122) \<or> (224 \<le> n \<and> n \<le> 254 \<and> n \<noteq> 247) then [char_of (n - 32)]
     else [c])"

definition py_upper :: "string \<Rightarrow> string" where
  "py_upper s = concat (map upper_char s)"

definition py_isdigit :: "string \<Rightarrow> bool" where
  "py_isdigit s \<longleftrightarrow> s \<noteq> [] \<and>
     list_all (\<lambda>c. is_digit c \<or> (of_char c :: int) \<in> {178, 179, 185}) s"

definition upper_letter :: "char \<Rightarrow> bool" where
  "upper_letter c \<longleftrightarrow> (let n = (of_char c :: int) in 65 \<le> n \<and> n \<le> 90)"

subsection \<open>ImportCalculationRequest\<close>

record import_request =
  hs_code :: string
  country_of_origin :: string
  customs_value :: dec
  freight :: dec
  insurance :: dec
  quantity :: int
  shipping_mode :: string

definition normalize_hs_code :: "pyv \<Rightarrow> string result" where
  "normalize_hs_code v = (let t = py_strip (py_str v) in
     if py_isdigit t then Inr t else Inl (ValueError ''HS code must contain exactly 10 digits''))"

definition hs_code_field :: "pyv \<Rightarrow> string result" where
  "hs_code_field v = rbind (normalize_hs_code v) (\<lambda>t.
     if length t = 10 \<and> list_all is_digit t then Inr t else Inl (ValidationError ''hs_code''))"

definition normalize_country :: "pyv \<Rightarrow> string" where
  "normalize_country v = py_upper (py_strip (py_str v))"

definition country_field :: "pyv \<Rightarrow> string result" where
  "country_field v = (let t = normalize_country v in
     if length t = 2 \<and> list_all upper_letter t then Inr t else Inl (ValidationError ''country_of_origin''))"

definition normalize_shipping_mode :: "pyv \<Rightarrow> string" where
  "normalize_shipping_mode v = py_lower (py_strip (py_str v))"

definition shipping_mode_field :: "pyv \<Rightarrow> string result" where
  "shipping_mode_field v = (let t = normalize_shipping_mode v in
     if t \<in> set [''ocean'', ''air'', ''truck''] then Inr t else Inl (ValidationError ''shipping_mode''))"

text \<open>A decimal field after \<open>normalize_money\<close>: finite, and above (\<open>gt\<close>) or not below (\<open>ge\<close>) zero.\<close>

definition decimal_zero :: dec where "decimal_zero = Dec False 0 0"

definition money_field :: "string \<Rightarrow> bool \<Rightarrow> pyv \<Rightarrow> dec result" where
  "money_field name strict v = rbind (money v) (\<lambda>d. case d of
       Fin f \<Rightarrow> if (if strict then dec_less decimal_zero f else \<not> dec_less f decimal_zero)
                then Inr f else Inl (ValidationError name)
     | _ \<Rightarrow> Inl (ValidationError name))"

definition quantity_field :: "(pyv \<Rightarrow> int option) \<Rightarrow> pyv \<Rightarrow> int result" where
  "quantity_field int_of v = (case int_of v of
       Some n \<Rightarrow> if 1 \<le> n \<and> n \<le> 1000000 then Inr n else Inl (ValidationError ''quantity'')
     | None \<Rightarrow> Inl (ValidationError ''quantity''))"

definition field :: "(string \<times> pyv) list \<Rightarrow> string \<Rightarrow> (pyv \<Rightarrow> 'a result) \<Rightarrow> 'a result" where
  "field kvs name f = (case map_of kvs name of Some v \<Rightarrow> f v | None \<Rightarrow> Inl (ValidationError name))"

definition request_fields :: "string list" where
  "request_fields = [''hs_code'', ''country_of_origin'', ''customs_value'', ''freight'',
     ''insurance'', ''quantity'', ''shipping_mode'']"

fun soft_error :: "py_error \<Rightarrow> bool" where
  "soft_error (ValueError m) = True"
| "soft_error (ValidationError m) = True"
| "soft_error _ = False"

definition error_of :: "'a result \<Rightarrow> py_error list" where
  "error_of r = (case r of Inl e \<Rightarrow> [e] | Inr _ \<Rightarrow> [])"

text \<open>All fields are checked; the first exception that is not a validation failure escapes,
  validation failures are collected into one ValidationError.\<close>

definition validate_fields :: "(pyv \<Rightarrow> int option) \<Rightarrow> (string \<times> pyv) list \<Rightarrow> import_request result" where
  "validate_fields int_of kvs = (
     let hs = field kvs ''hs_code'' hs_code_field;
         co = field kvs ''country_of_origin'' country_field;
         cv = field kvs ''customs_value'' (money_field ''customs_value'' True);
         fr = field kvs ''freight'' (money_field ''freight'' False);
         ins = field kvs ''insurance'' (money_field ''insurance'' False);
         q = field kvs ''quantity'' (quantity_field int_of);
         sm = field kvs ''shipping_mode'' shipping_mode_field;
         extra = (if list_all (\<lambda>kv. fst kv \<in> set request_fields) kvs then Inr ()
                  else Inl (ValidationError ''extra_forbidden''));
         errs = error_of hs @ error_of co @ error_of cv @ error_of fr @ error_of ins
                @ error_of q @ error_of sm @ error_of extra
     in case find (\<lambda>e. \<not> soft_error e) errs of
          Some e \<Rightarrow> Inl e
        | None \<Rightarrow>
            if errs \<noteq> [] then Inl (ValidationError ''ImportCalculationRequest'')
            else rbind hs (\<lambda>hs. rbind co (\<lambda>co. rbind cv (\<lambda>cv. rbind fr (\<lambda>fr. rbind ins (\<lambda>ins.
                 rbind q (\<lambda>q. rbind sm (\<lambda>sm.
                   Inr \<lparr>hs_code = hs, country_of_origin = co, customs_value = cv, freight = fr,
                        insurance = ins, quantity = q, shipping_mode = sm\<rparr>))))))))"

definition validate_request :: "(pyv \<Rightarrow> int option) \<Rightarrow> pyv \<Rightarrow> import_request result" where
  "validate_request int_of v = (case v of
       PDict kvs \<Rightarrow> (case enforce_payload_guards v of
           Inl (ValueError m) \<Rightarrow> Inl (ValidationError m)
         | Inl e \<Rightarrow> Inl e
         | Inr _ \<Rightarrow> validate_fields int_of kvs)
     | _ \<Rightarrow> Inl (ValidationError ''ImportCalculationRequest''))"

text \<open>\<open>model_dump(mode="python")\<close> of a request: its fields in order.\<close>

definition request_items :: "import_request \<Rightarrow> (string \<times> pyv) list" where
  "request_items r = [
     (''hs_code'', PStr (hs_code r)), (''country_of_origin'', PStr (country_of_origin r)),
     (''customs_value'', PDec (Fin (customs_value r))), (''freight'', PDec (Fin (freight r))),
     (''insurance'', PDec (Fin (insurance r))), (''quantity'', PInt (quantity r)),
     (''shipping_mode'', PStr (shipping_mode r))]"

definition request_payload :: "import_request \<Rightarrow> pyv" where
  "request_payload r = PDict (request_items r)"

subsection \<open>Results\<close>

record trace_step =
  ts_step :: string
  ts_rule_ref :: string
  ts_inputs :: "(string \<times> string) list"
  ts_outputs :: "(string \<times> string) list"

record integrity_artifact =
  ia_input_hash :: string
  ia_output_hash :: string
  ia_trace_hash :: string
  ia_integrity_hash :: string

record calculation_result =
  cr_dataset_version :: string
  cr_dataset_hash :: string
  cr_hs_code :: string
  cr_country_of_origin :: string
  cr_quantity :: int
  cr_tariff_rule_ref :: string
  cr_tariff_description :: string
  cr_unit_customs_value :: dec
  cr_extended_customs_value :: dec
  cr_freight :: dec
  cr_insurance :: dec
  cr_duty_rate :: dec
  cr_section_301_rate :: dec
  cr_duty_amount :: dec
  cr_section_301_amount :: dec
  cr_mpf_amount :: dec
  cr_hmf_amount :: dec
  cr_landed_cost :: dec

record calculation_response =
  rs_result :: calculation_result
  rs_trace :: "trace_step list"
  rs_integrity :: integrity_artifact

definition text_dict :: "(string \<times> string) list \<Rightarrow> pyv" where
  "text_dict kvs = PDict (map (\<lambda>kv. (fst kv, PStr (snd kv))) kvs)"

definition step_payload :: "trace_step \<Rightarrow> pyv" where
  "step_payload s = PDict [(''step'', PStr (ts_step s)), (''rule_ref'', PStr (ts_rule_ref s)),
     (''inputs'', text_dict (ts_inputs s)), (''outputs'', text_dict (ts_outputs s))]"

definition trace_payload :: "trace_step list \<Rightarrow> pyv" where
  "trace_payload ts = PList (map step_payload ts)"

definition result_payload :: "calculation_result \<Rightarrow> pyv" where
  "result_payload c = PDict [
     (''dataset_version'', PStr (cr_dataset_version c)), (''dataset_hash'', PStr (cr_dataset_hash c)),
     (''hs_code'', PStr (cr_hs_code c)), (''country_of_origin'', PStr (cr_country_of_origin c)),
     (''quantity'', PInt (cr_quantity c)), (''tariff_rule_ref'', PStr (cr_tariff_rule_ref c)),
     (''tariff_description'', PStr (cr_tariff_description c)),
     (''unit_customs_value'', PDec (Fin (cr_unit_customs_value c))),
     (''extended_customs_value'', PDec (Fin (cr_extended_customs_value c))),
     (''freight'', PDec (Fin (cr_freight c))), (''insurance'', PDec (Fin (cr_insurance c))),
     (''duty_rate'', PDec (Fin (cr_duty_rate c))),
     (''section_301_rate'', PDec (Fin (cr_section_301_rate c))),
     (''duty_amount'', PDec (Fin (cr_duty_amount c))),
     (''section_301_amount'', PDec (Fin (cr_section_301_amount c))),
     (''mpf_amount'', PDec (Fin (cr_mpf_amount c))), (''hmf_amount'', PDec (Fin (cr_hmf_amount c))),
     (''landed_cost'', PDec (Fin (cr_landed_cost c)))]"

subsection \<open>What a validated request satisfies\<close>

definition amount_ok :: "dec \<Rightarrow> bool" where
  "amount_ok d \<longleftrightarrow> dexpo d = - 2 \<and> 0 \<le> dcoef d \<and> dcoef d < 10 ^ 28 \<and> (dneg d \<longrightarrow> dcoef d = 0)"

definition valid_request :: "import_request \<Rightarrow> bool" where
  "valid_request r \<longleftrightarrow>
     length (hs_code r) = 10 \<and> list_all is_digit (hs_code r)
     \<and> length (country_of_origin r) = 2 \<and> list_all upper_letter (country_of_origin r)
     \<and> amount_ok (customs_value r) \<and> 0 < dcoef (customs_value r)
     \<and> amount_ok (freight r) \<and> amount_ok (insurance r)
     \<and> 1 \<le> quantity r \<and> quantity r \<le> 1000000
     \<and> shipping_mode r \<in> set [''ocean'', ''air'', ''truck'']"

lemma digit_value_nonneg: "is_digit c \<Longrightarrow> 0 \<le> digit_value c"
  by (auto simp: is_digit_def digit_value_def)

lemma dec_value_nonneg: "0 \<le> a \<Longrightarrow> list_all is_digit s \<Longrightarrow> 0 \<le> dec_value a s"
proof (induction s arbitrary: a)
  case Nil
  then show ?case by (simp add: dec_value_def)
next
  case (Cons c s)
  have "0 \<le> 10 * a + digit_value c" using Cons.prems digit_value_nonneg [of c] by simp
  then have "0 \<le> dec_value (10 * a + digit_value c) s" using Cons.prems(2) by (intro Cons.IH) simp_all
  then show ?case by (simp add: dec_value_def)
qed

lemma list_all_takeWhile: "list_all P (takeWhile P s)"
  by (induction s) auto

lemma number_of_nonneg: "number_of neg u = Some (Fin d) \<Longrightarrow> 0 \<le> dcoef d"
proof -
  have n: "0 \<le> dec_value 0 (takeWhile is_digit u @ v)" if "list_all is_digit v" for v
    using that list_all_takeWhile [of is_digit u] by (intro dec_value_nonneg) auto
  show "number_of neg u = Some (Fin d) \<Longrightarrow> 0 \<le> dcoef d"
    unfolding number_of_def Let_def
    using n [of "[]"] n [OF list_all_takeWhile [of is_digit "tl (dropWhile is_digit u)"]]
    by (auto split: if_splits option.splits simp del: dec_value_append takeWhile_eq_Nil_iff)
qed

lemma decimal_of_string_nonneg: "decimal_of_string s = Some (Fin d) \<Longrightarrow> 0 \<le> dcoef d"
  unfolding decimal_of_string_def Let_def by (auto split: if_splits dest: number_of_nonneg)

lemma to_decimal_nonneg: "wf_pyv v \<Longrightarrow> to_decimal v = Inr (Fin d) \<Longrightarrow> 0 \<le> dcoef d"
  by (cases v) (auto simp: to_decimal_def dec_of_int_def Let_def
      split: if_splits option.splits dest: decimal_of_string_nonneg)

lemma money_amount:
  assumes "wf_pyv v" "money v = Inr (Fin d)"
  shows "dexpo d = - 2 \<and> 0 \<le> dcoef d \<and> dcoef d < 10 ^ 28"
proof -
  obtain x where x: "to_decimal v = Inr x" "decimal_quantize (- 2) x = Inr (Fin d)"
    using assms(2) by (auto simp: money_def result_simps)
  then obtain f where f: "x = Fin f" "dec_quantize (- 2) f = Inr d"
    by (cases x) (auto simp: result_simps split: if_splits)
  show ?thesis
    using dec_quantize_small [OF to_decimal_nonneg f(2)] dec_quantize_expo [OF f(2)] assms(1) x f by simp
qed

lemma dec_less_zero:
  "dexpo d = - 2 \<Longrightarrow> dec_less decimal_zero d \<longleftrightarrow> 0 < (if dneg d then - 1 else 1) * dcoef d"
  "dexpo d = - 2 \<Longrightarrow> dec_less d decimal_zero \<longleftrightarrow> (if dneg d then - 1 else 1) * dcoef d < 0"
  by (simp_all add: dec_less_def decimal_zero_def dec_at_def pow10_def)

lemma money_field_Inr:
  "money_field name strict v = Inr d \<longleftrightarrow> money v = Inr (Fin d)
     \<and> (if strict then dec_less decimal_zero d else \<not> dec_less d decimal_zero)"
  by (cases "money v"; cases "projr (money v)") (auto simp: money_field_def)

lemma money_field_ok:
  assumes "wf_pyv v" "money_field name strict v = Inr d"
  shows "amount_ok d \<and> (strict \<longrightarrow> 0 < dcoef d)"
proof -
  have m: "money v = Inr (Fin d)" using assms(2) by (simp add: money_field_Inr)
  have "dexpo d = - 2 \<and> 0 \<le> dcoef d \<and> dcoef d < 10 ^ 28" by (rule money_amount [OF assms(1) m])
  then show ?thesis using assms(2) dec_less_zero [of d]
    by (auto simp: money_field_Inr amount_ok_def split: if_splits)
qed

lemma money_field_accepts:
  "amount_ok d \<Longrightarrow> (strict \<longrightarrow> 0 < dcoef d) \<Longrightarrow> money_field name strict (PDec (Fin d)) = Inr d"
  using dec_less_zero [of d]
  by (auto simp: money_field_Inr money_dec dec_quantize_same amount_ok_def)

lemma wf_field: "wf_pyv (PDict kvs) \<Longrightarrow> map_of kvs k = Some v \<Longrightarrow> wf_pyv v"
  by (auto simp: list_all_iff dest!: map_of_SomeD)

lemma validate_fields_valid:
  assumes "wf_pyv (PDict kvs)" "validate_fields int_of kvs = Inr r"
  shows "valid_request r"
proof -
  have f: "field kvs ''hs_code'' hs_code_field = Inr (hs_code r)"
    "field kvs ''country_of_origin'' country_field = Inr (country_of_origin r)"
    "field kvs ''customs_value'' (money_field ''customs_value'' True) = Inr (customs_value r)"
    "field kvs ''freight'' (money_field ''freight'' False) = Inr (freight r)"
    "field kvs ''insurance'' (money_field ''insurance'' False) = Inr (insurance r)"
    "field kvs ''quantity'' (quantity_field int_of) = Inr (quantity r)"
    "field kvs ''shipping_mode'' shipping_mode_field = Inr (shipping_mode r)"
    using assms(2) unfolding validate_fields_def Let_def
    by (auto simp: result_simps split: option.splits if_splits)
  have m: "amount_ok d \<and> (strict \<longrightarrow> 0 < dcoef d)"
    if "field kvs k (money_field n strict) = Inr d" for k n strict d
    using that wf_field [OF assms(1)] by (auto simp: field_def split: option.splits dest: money_field_ok)
  show ?thesis
    using f m [OF f(3)] m [OF f(4)] m [OF f(5)]
    by (auto simp: valid_request_def field_def hs_code_field_def country_field_def quantity_field_def
        shipping_mode_field_def Let_def result_simps split: option.splits if_splits)
qed

lemma validate_request_valid:
  "wf_pyv v \<Longrightarrow> validate_request int_of v = Inr r \<Longrightarrow> valid_request r"
  by (auto simp: validate_request_def split: pyv.splits sum.splits py_error.splits
      intro: validate_fields_valid)

subsection \<open>A validated request validates again\<close>

text \<open>The engine dumps the request it receives and validates the dump: the result is the same
  request.\<close>

lemma strip_no_space: "list_all (\<lambda>c. \<not> py_space c) s \<Longrightarrow> py_strip s = s"
proof -
  assume h: "list_all (\<lambda>c. \<not> py_space c) s"
  have d: "list_all (\<lambda>c. \<not> py_space c) t \<Longrightarrow> dropWhile py_space t = t" for t
    by (cases t) auto
  show ?thesis using d [OF h] d [of "rev s"] h by (simp add: py_strip_def list_all_iff)
qed

lemma hs_code_accepts:
  assumes "length s = 10" "list_all is_digit s"
  shows "hs_code_field (PStr s) = Inr s"
proof -
  have "py_strip s = s"
    using assms(2) is_digit_facts by (intro strip_no_space) (auto simp: list_all_iff)
  moreover have "py_isdigit s" using assms by (auto simp: py_isdigit_def list_all_iff)
  ultimately show ?thesis using assms
    by (simp add: hs_code_field_def normalize_hs_code_def)
qed

lemma upper_letter_facts:
  "upper_letter c \<Longrightarrow> \<not> py_space c \<and> upper_char c = [c] \<and> word_char c"
  by (auto simp: upper_letter_def py_space_def upper_char_def word_char_def Let_def)

lemma country_accepts:
  assumes "length s = 2" "list_all upper_letter s"
  shows "country_field (PStr s) = Inr s"
proof -
  have "py_strip s = s"
    using assms(2) upper_letter_facts by (intro strip_no_space) (auto simp: list_all_iff)
  moreover have "py_upper s = s"
    using assms(2) by (induction s) (auto simp: py_upper_def upper_letter_facts)
  ultimately show ?thesis using assms by (simp add: country_field_def normalize_country_def)
qed

lemma mode_accepts:
  assumes "s \<in> set [''ocean'', ''air'', ''truck'']"
  shows "shipping_mode_field (PStr s) = Inr s" "\<not> injection s" "length s \<le> 5"
  using assms
  by (auto simp: shipping_mode_field_def normalize_shipping_mode_def py_strip_def py_space_def
      py_lower_def lower_char_def injection_def begins_def sql_words_def word_start_def Let_def)

definition amount_json :: "dec \<Rightarrow> json" where
  "amount_json d = JStr (dec_format_f d)"

definition request_json :: "import_request \<Rightarrow> json" where
  "request_json r = JDict [
     (''country_of_origin'', JStr (country_of_origin r)), (''customs_value'', amount_json (customs_value r)),
     (''freight'', amount_json (freight r)), (''hs_code'', JStr (hs_code r)),
     (''insurance'', amount_json (insurance r)), (''quantity'', JInt (quantity r)),
     (''shipping_mode'', JStr (shipping_mode r))]"

lemma canonicalize_request: "canonicalize (request_payload r) = Inr (request_json r)"
  by (simp add: request_payload_def request_items_def request_json_def amount_json_def)

lemma length_request_json:
  assumes "valid_request r"
  shows "length (json_dumps (request_json r)) \<le> max_request_bytes"
proof -
  have a: "length (json_string (dec_format_f d)) \<le> 200" if "amount_ok d" for d
    using length_json_string [of "dec_format_f d"] length_amount_text [of d] that
    by (simp add: amount_ok_def)
  have q: "length (int_text (quantity r)) \<le> 7"
    using assms by (intro length_int_text) (auto simp: valid_request_def)
  have k: "length (json_string k) \<le> 104" if "length k \<le> 17" for k
    using length_json_string [of k] that by simp
  show ?thesis
    using assms a [of "customs_value r"] a [of "freight r"] a [of "insurance r"] q
      k [of "''country_of_origin''"] k [of "''customs_value''"] k [of "''freight''"]
      k [of "''hs_code''"] k [of "''insurance''"] k [of "''quantity''"] k [of "''shipping_mode''"]
      k [of "country_of_origin r"] k [of "hs_code r"] k [of "shipping_mode r"]
      mode_accepts(3) [of "shipping_mode r"]
    by (simp add: valid_request_def request_json_def amount_json_def max_request_bytes_def)
qed

lemma country_harmless:
  assumes "length s = 2" "list_all upper_letter s"
  shows "\<not> injection s"
proof (rule plain_word_harmless)
  show "list_all word_char s" using assms(2) upper_letter_facts by (auto simp: list_all_iff)
  have "length (py_lower s) = 2" using assms(1) by (simp add: py_lower_def)
  then show "py_lower s \<notin> set sql_words" by (auto simp: sql_words_def)
qed

lemma short_word_bytes: "length s \<le> 128 \<Longrightarrow> length (utf8 s) \<le> max_string_bytes"
proof -
  have "length (utf8 s) \<le> 2 * length s"
    by (induction s) (auto simp: utf8_def utf8_char_def Let_def)
  then show "length s \<le> 128 \<Longrightarrow> length (utf8 s) \<le> max_string_bytes" by (simp add: max_string_bytes_def)
qed

lemma request_keys_harmless: "list_all (\<lambda>k. \<not> injection k \<and> length k \<le> 128) request_fields"
proof -
  have "list_all (\<lambda>k. list_all word_char k \<and> py_lower k \<notin> set sql_words \<and> length k \<le> 128) request_fields"
    by code_simp
  then show ?thesis using plain_word_harmless unfolding list_all_iff [of _ request_fields] by blast
qed

lemma request_guards:
  assumes "valid_request r"
  shows "enforce_payload_guards (request_payload r) = Inr ()"
proof -
  have h: "harmless (PStr (hs_code r))" "harmless (PStr (country_of_origin r))"
    "harmless (PStr (shipping_mode r))"
    using assms digits_harmless country_harmless mode_accepts [of "shipping_mode r"] short_word_bytes
    by (auto simp: valid_request_def)
  have k: "length (utf8 k) \<le> max_string_bytes \<and> \<not> injection k" if "k \<in> set request_fields" for k
    using that request_keys_harmless short_word_bytes by (auto simp: list_all_iff)
  have "harmless (request_payload r)"
    unfolding request_payload_def request_items_def harmless.simps
    using h k by (simp add: request_fields_def max_collection_items_def)
  moreover have "canonical_json (request_payload r) = Inr raw \<Longrightarrow> length (utf8 raw) \<le> max_request_bytes" for raw
    using length_request_json [OF assms] utf8_canonical_length [of "request_payload r" raw]
    by (simp add: canonical_json_def canonicalize_request)
  ultimately show ?thesis by (simp add: guards_pass_iff)
qed

lemma validate_request_payload:
  assumes "valid_request r" "int_of (PInt (quantity r)) = Some (quantity r)"
  shows "validate_request int_of (request_payload r) = Inr r"
proof -
  obtain kvs where p: "request_payload r = PDict kvs" and kvs: "kvs = [
     (''hs_code'', PStr (hs_code r)), (''country_of_origin'', PStr (country_of_origin r)),
     (''customs_value'', PDec (Fin (customs_value r))), (''freight'', PDec (Fin (freight r))),
     (''insurance'', PDec (Fin (insurance r))), (''quantity'', PInt (quantity r)),
     (''shipping_mode'', PStr (shipping_mode r))]"
    by (simp add: request_payload_def request_items_def)
  have f: "field kvs ''hs_code'' hs_code_field = Inr (hs_code r)"
    "field kvs ''country_of_origin'' country_field = Inr (country_of_origin r)"
    "field kvs ''customs_value'' (money_field ''customs_value'' True) = Inr (customs_value r)"
    "field kvs ''freight'' (money_field ''freight'' False) = Inr (freight r)"
    "field kvs ''insurance'' (money_field ''insurance'' False) = Inr (insurance r)"
    "field kvs ''quantity'' (quantity_field int_of) = Inr (quantity r)"
    "field kvs ''shipping_mode'' shipping_mode_field = Inr (shipping_mode r)"
    using assms hs_code_accepts country_accepts money_field_accepts mode_accepts(1)
    by (simp_all add: field_def kvs valid_request_def quantity_field_def)
  have e: "list_all (\<lambda>kv. fst kv \<in> set request_fields) kvs"
    by (simp add: kvs request_fields_def)
  show ?thesis
    unfolding validate_request_def using request_guards [OF assms(1)]
    by (simp add: p f e validate_fields_def error_of_def)
qed

end
