(* ===== verification/Engine.thy ===== *)
theory Engine
  imports Tariffs Schemas
begin

text \<open>
  \<open>core/engine.py\<close> and \<open>core/proof.py\<close>: the landed-cost calculation with its eight trace
  steps and the integrity artifact over request, result and trace.  Every arithmetic step is
  the decimal operation of the code, with its rounding and its InvalidOperation; the
  theorems of this theory relate them to integer arithmetic in cents.
\<close>

subsection \<open>Constants\<close>

definition mpf_rate :: dec where "mpf_rate = Dec False 3464 (- 6)"
definition mpf_min :: dec where "mpf_min = Dec False 3271 (- 2)"
definition mpf_max :: dec where "mpf_max = Dec False 63462 (- 2)"
definition hmf_rate :: dec where "hmf_rate = Dec False 1250 (- 6)"

lemma engine_constants:
  "rate (PStr ''0.003464'') = Inr (Fin mpf_rate)" "money (PStr ''32.71'') = Inr (Fin mpf_min)"
  "money (PStr ''634.62'') = Inr (Fin mpf_max)" "rate (PStr ''0.00125'') = Inr (Fin hmf_rate)"
  by code_simp+

subsection \<open>Steps of the trace\<close>

definition decimal_string :: "decimal \<Rightarrow> string" where
  "decimal_string d = decimal_format_f d"

definition step_text :: "pyv \<Rightarrow> string" where
  "step_text v = (case v of PDec d \<Rightarrow> decimal_string d | _ \<Rightarrow> py_str v)"

definition make_step :: "string \<Rightarrow> string \<Rightarrow> (string \<times> pyv) list \<Rightarrow> (string \<times> pyv) list \<Rightarrow> trace_step" where
  "make_step st rule_ref ins outs = \<lparr>ts_step = st, ts_rule_ref = rule_ref,
     ts_inputs = map (\<lambda>kv. (fst kv, step_text (snd kv))) ins,
     ts_outputs = map (\<lambda>kv. (fst kv, step_text (snd kv))) outs\<rparr>"

subsection \<open>Amounts\<close>

text \<open>\<open>money\<close>, \<open>rate\<close> and \<open>clamp_money\<close> of a finite decimal are finite.\<close>

definition finite_part :: "decimal \<Rightarrow> dec result" where
  "finite_part d = (case d of Fin f \<Rightarrow> Inr f | _ \<Rightarrow> Inl InvalidOperation)"

definition money_of :: "dec \<Rightarrow> dec result" where
  "money_of d = rbind (money (PDec (Fin d))) finite_part"

definition rate_of :: "dec \<Rightarrow> dec result" where
  "rate_of d = rbind (rate (PDec (Fin d))) finite_part"

record amounts =
  am_ecv :: dec
  am_duty :: dec
  am_section_301 :: dec
  am_mpf :: dec
  am_hmf :: dec
  am_landed :: dec

definition calc_amounts :: "import_request \<Rightarrow> tariff_rule \<Rightarrow> amounts result" where
  "calc_amounts r rule =
     rbind (money_of (dec_mul (customs_value r) (dec_of_int (quantity r)))) (\<lambda>ecv.
     rbind (money_of (dec_mul ecv (tr_duty_rate rule))) (\<lambda>duty.
     rbind (if country_of_origin r \<in> set (section_301_origin_countries rule)
            then money_of (dec_mul ecv (tr_section_301_rate rule))
            else rbind (money (PStr ''0'')) finite_part) (\<lambda>s301.
     rbind (rbind (clamp_money (PDec (Fin (dec_mul ecv mpf_rate)))
              (Some (PDec (Fin mpf_min))) (Some (PDec (Fin mpf_max)))) finite_part) (\<lambda>mpf.
     rbind (if shipping_mode r = ''ocean'' then money_of (dec_mul ecv hmf_rate)
            else rbind (money (PStr ''0'')) finite_part) (\<lambda>hmf.
     rbind (money_of (dec_add (dec_add (dec_add (dec_add (dec_add (dec_add ecv (freight r))
              (insurance r)) duty) s301) mpf) hmf)) (\<lambda>landed.
       Inr \<lparr>am_ecv = ecv, am_duty = duty, am_section_301 = s301, am_mpf = mpf, am_hmf = hmf,
            am_landed = landed\<rparr>))))))"

definition build_trace :: "import_request \<Rightarrow> tariff_rule \<Rightarrow> string \<Rightarrow> string \<Rightarrow> amounts \<Rightarrow> trace_step list" where
  "build_trace r rule request_hash ds_hash a = [
     make_step ''canonical_input'' ''INPUT-CANON'' (request_items r)
       [(''input_hash'', PStr request_hash), (''dataset_version'', PStr dataset_version),
        (''dataset_hash'', PStr ds_hash)],
     make_step ''tariff_lookup'' (tr_rule_ref rule)
       [(''hs_code'', PStr (hs_code r)), (''country_of_origin'', PStr (country_of_origin r))]
       [(''rule_ref'', PStr (tr_rule_ref rule)), (''description'', PStr (tr_description rule)),
        (''duty_rate'', PDec (Fin (tr_duty_rate rule))),
        (''section_301_rate'', PDec (Fin (tr_section_301_rate rule)))],
     make_step ''extended_customs_value'' (tr_rule_ref rule)
       [(''unit_customs_value'', PDec (Fin (customs_value r))), (''quantity'', PInt (quantity r))]
       [(''extended_customs_value'', PDec (Fin (am_ecv a)))],
     make_step ''base_duty'' (tr_rule_ref rule)
       [(''extended_customs_value'', PDec (Fin (am_ecv a))), (''duty_rate'', PDec (Fin (tr_duty_rate rule)))]
       [(''duty_amount'', PDec (Fin (am_duty a)))],
     make_step ''section_301'' (tr_rule_ref rule)
       [(''extended_customs_value'', PDec (Fin (am_ecv a))), (''country_of_origin'', PStr (country_of_origin r))]
       [(''section_301_amount'', PDec (Fin (am_section_301 a)))],
     make_step ''mpf'' ''MPF-2026''
       [(''extended_customs_value'', PDec (Fin (am_ecv a))), (''mpf_rate'', PDec (Fin mpf_rate)),
        (''minimum'', PDec (Fin mpf_min)), (''maximum'', PDec (Fin mpf_max))]
       [(''mpf_amount'', PDec (Fin (am_mpf a)))],
     make_step ''hmf'' ''HMF-2026''
       [(''extended_customs_value'', PDec (Fin (am_ecv a))), (''shipping_mode'', PStr (shipping_mode r))]
       [(''hmf_amount'', PDec (Fin (am_hmf a)))],
     make_step ''landed_cost'' ''LC-2026''
       [(''extended_customs_value'', PDec (Fin (am_ecv a))), (''freight'', PDec (Fin (freight r))),
        (''insurance'', PDec (Fin (insurance r))), (''duty_amount'', PDec (Fin (am_duty a))),
        (''section_301_amount'', PDec (Fin (am_section_301 a))), (''mpf_amount'', PDec (Fin (am_mpf a))),
        (''hmf_amount'', PDec (Fin (am_hmf a)))]
       [(''landed_cost'', PDec (Fin (am_landed a)))]]"

definition build_result :: "import_request \<Rightarrow> tariff_rule \<Rightarrow> string \<Rightarrow> amounts \<Rightarrow> calculation_result result" where
  "build_result r rule ds_hash a =
     rbind (money_of (customs_value r)) (\<lambda>unit.
     rbind (money_of (freight r)) (\<lambda>fr.
     rbind (money_of (insurance r)) (\<lambda>ins.
     rbind (rate_of (tr_duty_rate rule)) (\<lambda>du.
     rbind (rate_of (tr_section_301_rate rule)) (\<lambda>s3.
       Inr \<lparr>cr_dataset_version = dataset_version, cr_dataset_hash = ds_hash,
            cr_hs_code = hs_code r, cr_country_of_origin = country_of_origin r,
            cr_quantity = quantity r, cr_tariff_rule_ref = tr_rule_ref rule,
            cr_tariff_description = tr_description rule, cr_unit_customs_value = unit,
            cr_extended_customs_value = am_ecv a, cr_freight = fr, cr_insurance = ins,
            cr_duty_rate = du, cr_section_301_rate = s3, cr_duty_amount = am_duty a,
            cr_section_301_amount = am_section_301 a, cr_mpf_amount = am_mpf a,
            cr_hmf_amount = am_hmf a, cr_landed_cost = am_landed a\<rparr>)))))"

definition build_integrity_artifact :: "pyv \<Rightarrow> pyv \<Rightarrow> pyv \<Rightarrow> integrity_artifact result" where
  "build_integrity_artifact request_p result_p trace_p =
     rbind (payload_hash request_p) (\<lambda>input_hash.
     rbind (payload_hash result_p) (\<lambda>output_hash.
     rbind (payload_hash trace_p) (\<lambda>trace_hash.
       Inr \<lparr>ia_input_hash = input_hash, ia_output_hash = output_hash, ia_trace_hash = trace_hash,
            ia_integrity_hash = sha256_hex (input_hash @ output_hash @ trace_hash)\<rparr>)))"

definition calculate_import_landed_cost ::
  "(pyv \<Rightarrow> int option) \<Rightarrow> tariff_rule list \<Rightarrow> string \<Rightarrow> import_request \<Rightarrow> calculation_response result" where
  "calculate_import_landed_cost int_of rules ds_hash request =
     rbind (validate_request int_of (request_payload request)) (\<lambda>r.
     rbind (payload_hash (request_payload r)) (\<lambda>request_hash.
     rbind (lookup_tariff_rule rules ds_hash (hs_code r)) (\<lambda>rule.
     rbind (calc_amounts r rule) (\<lambda>a.
     rbind (build_result r rule ds_hash a) (\<lambda>res.
       let trace = build_trace r rule request_hash ds_hash a in
       rbind (build_integrity_artifact (request_payload r) (result_payload res) (trace_payload trace)) (\<lambda>ia.
         Inr \<lparr>rs_result = res, rs_trace = trace, rs_integrity = ia\<rparr>))))))"

subsection \<open>Integer arithmetic in cents\<close>

definition spec_ecv :: "import_request \<Rightarrow> int" where
  "spec_ecv r = dcoef (customs_value r) * quantity r"

definition spec_rate :: "int \<Rightarrow> int \<Rightarrow> int \<Rightarrow> int" where
  "spec_rate n per_unit unit = half_up (n * per_unit) unit"

definition spec_duty :: "import_request \<Rightarrow> tariff_rule \<Rightarrow> int" where
  "spec_duty r rule = spec_rate (spec_ecv r) (dcoef (tr_duty_rate rule)) 10000"

definition spec_section_301 :: "import_request \<Rightarrow> tariff_rule \<Rightarrow> int" where
  "spec_section_301 r rule = (if country_of_origin r \<in> set (section_301_origin_countries rule)
     then spec_rate (spec_ecv r) (dcoef (tr_section_301_rate rule)) 10000 else 0)"

definition spec_mpf :: "import_request \<Rightarrow> int" where
  "spec_mpf r = clamp_cents 3271 63462 (spec_rate (spec_ecv r) 3464 1000000)"

definition spec_hmf :: "import_request \<Rightarrow> int" where
  "spec_hmf r = (if shipping_mode r = ''ocean'' then spec_rate (spec_ecv r) 1250 1000000 else 0)"

definition spec_landed :: "import_request \<Rightarrow> tariff_rule \<Rightarrow> int" where
  "spec_landed r rule = spec_ecv r + dcoef (freight r) + dcoef (insurance r) + spec_duty r rule
     + spec_section_301 r rule + spec_mpf r + spec_hmf r"

definition spec_amounts :: "import_request \<Rightarrow> tariff_rule \<Rightarrow> amounts" where
  "spec_amounts r rule = \<lparr>am_ecv = cents (spec_ecv r), am_duty = cents (spec_duty r rule),
     am_section_301 = cents (spec_section_301 r rule), am_mpf = cents (spec_mpf r),
     am_hmf = cents (spec_hmf r), am_landed = cents (spec_landed r rule)\<rparr>"

text \<open>The amounts for which no step of the calculation leaves the 28 digits of the context.\<close>

definition in_range :: "import_request \<Rightarrow> bool" where
  "in_range r \<longleftrightarrow> spec_ecv r < 10 ^ 22 \<and> dcoef (freight r) < 10 ^ 26 \<and> dcoef (insurance r) < 10 ^ 26"

lemma money_of_quantize: "money_of d = dec_quantize (- 2) d"
  by (cases "dec_quantize (- 2) d") (simp_all add: money_of_def money_dec finite_part_def)

lemma money_of_Inr: "money_of d = Inr x \<longleftrightarrow> money (PDec (Fin d)) = Inr (Fin x)"
  by (cases "dec_quantize (- 2) d") (simp_all add: money_of_quantize money_dec)

lemma rate_of_quantize: "rate_of d = dec_quantize (- 6) d"
  by (cases "dec_quantize (- 6) d") (simp_all add: rate_of_def rate_def to_decimal_def finite_part_def)

lemma money_of_amount: "amount_ok d \<Longrightarrow> money_of d = Inr d"
  by (simp add: money_of_quantize amount_ok_def dec_quantize_same)

lemma money_of_mul:
  assumes "0 \<le> n" "0 \<le> c" "n * c < 10 ^ 27" "0 \<le> k"
  shows "money_of (dec_mul (cents n) (Dec False c (- k))) = Inr (cents (half_up (n * c) (pow10 k)))"
  using money_mul_cents [OF assms] by (simp add: money_of_def finite_part_def)

lemma money_zero: "rbind (money (PStr ''0'')) finite_part = Inr (cents 0)"
  by code_simp

text \<open>Adding an amount to a sum; a negative zero is absorbed.\<close>

lemma dec_add_amount:
  assumes "0 \<le> m" "amount_ok d" "m + dcoef d < 10 ^ 28"
  shows "dec_add (cents m) d = cents (m + dcoef d)"
proof -
  have s: "dec_at (- 2) (cents m) + dec_at (- 2) d = m + dcoef d"
    using assms by (auto simp: dec_at_def cents_def pow10_def amount_ok_def)
  have e: "min (dexpo (cents m)) (dexpo d) = - 2" using assms(2) by (simp add: cents_def amount_ok_def)
  have "0 \<le> m + dcoef d" using assms by (simp add: amount_ok_def)
  then show ?thesis
    unfolding dec_add_def Let_def e s using assms(3)
    by (simp add: dec_fix_id) (simp add: cents_def)
qed

lemma amount_ok_cents: "0 \<le> n \<Longrightarrow> n < 10 ^ 28 \<Longrightarrow> amount_ok (cents n)"
  by (simp add: amount_ok_def cents_def)

lemma dcoef_cents [simp]: "dcoef (cents n) = n"
  by (simp add: cents_def)

lemma customs_cents:
  "valid_request r \<Longrightarrow> customs_value r = cents (dcoef (customs_value r))"
  by (cases "customs_value r") (auto simp: valid_request_def amount_ok_def cents_def)

lemma spec_ecv_nonneg: "valid_request r \<Longrightarrow> 0 \<le> spec_ecv r"
  by (simp add: valid_request_def amount_ok_def spec_ecv_def)

lemma spec_rate_bounds:
  assumes "0 \<le> n" "0 \<le> c" "c \<le> u" "1 \<le> u"
  shows "0 \<le> spec_rate n c u" "spec_rate n c u \<le> n"
proof -
  show "0 \<le> spec_rate n c u" using assms by (simp add: spec_rate_def half_up_nonneg)
  have "spec_rate n c u \<le> half_up (n * u) u"
    using assms by (simp add: spec_rate_def half_up_mono mult_left_mono)
  then show "spec_rate n c u \<le> n" using assms by (simp add: half_up_exact)
qed

lemma calc_mul:
  assumes "valid_request r" "in_range r" "0 \<le> c" "c \<le> 10000" "0 \<le> k"
  shows "money_of (dec_mul (cents (spec_ecv r)) (Dec False c (- k)))
    = Inr (cents (spec_rate (spec_ecv r) c (pow10 k)))"
proof -
  have "spec_ecv r * c \<le> spec_ecv r * 10000"
    using assms spec_ecv_nonneg by (intro mult_left_mono) auto
  moreover have "spec_ecv r < 10 ^ 22" using assms(2) by (simp add: in_range_def)
  ultimately have "spec_ecv r * c < 10 ^ 27" by simp
  then show ?thesis
    unfolding spec_rate_def using assms spec_ecv_nonneg by (intro money_of_mul) auto
qed

lemma calc_ecv:
  assumes "valid_request r" "in_range r"
  shows "money_of (dec_mul (customs_value r) (dec_of_int (quantity r))) = Inr (cents (spec_ecv r))"
proof -
  have "dec_mul (customs_value r) (dec_of_int (quantity r))
      = dec_mul (cents (dcoef (customs_value r))) (Dec False (quantity r) (- 0))"
    using assms by (subst customs_cents) (auto simp: valid_request_def dec_of_int_def)
  moreover have "money_of (dec_mul (cents (dcoef (customs_value r))) (Dec False (quantity r) (- 0)))
      = Inr (cents (half_up (dcoef (customs_value r) * quantity r) (pow10 0)))"
    using assms by (intro money_of_mul)
      (auto simp: valid_request_def amount_ok_def in_range_def spec_ecv_def)
  ultimately show ?thesis by (simp add: half_up_def pow10_def spec_ecv_def)
qed

lemma calc_mpf:
  assumes "valid_request r" "in_range r"
  shows "rbind (clamp_money (PDec (Fin (dec_mul (cents (spec_ecv r)) mpf_rate)))
      (Some (PDec (Fin mpf_min))) (Some (PDec (Fin mpf_max)))) finite_part = Inr (cents (spec_mpf r))"
proof -
  have "money_of (dec_mul (cents (spec_ecv r)) (Dec False 3464 (- 6)))
      = Inr (cents (spec_rate (spec_ecv r) 3464 (pow10 6)))"
    using assms by (rule calc_mul) auto
  then have m: "money (PDec (Fin (dec_mul (cents (spec_ecv r)) mpf_rate)))
      = Inr (Fin (cents (spec_rate (spec_ecv r) 3464 1000000)))"
    by (simp add: money_of_Inr mpf_rate_def pow10_def)
  have "money (PDec (Fin mpf_min)) = Inr (Fin (cents 3271))" "money (PDec (Fin mpf_max)) = Inr (Fin (cents 63462))"
    using money_cents [of 3271] money_cents [of 63462] by (simp_all add: mpf_min_def mpf_max_def cents_def)
  then show ?thesis
    by (simp add: clamp_money_cents [OF m] spec_mpf_def finite_part_def)
qed

lemma spec_parts_bounds:
  assumes "valid_request r" "in_range r" "rule \<in> set tariff_rules"
  shows "0 \<le> spec_duty r rule" "spec_duty r rule \<le> spec_ecv r"
    "0 \<le> spec_section_301 r rule" "spec_section_301 r rule \<le> spec_ecv r"
    "3271 \<le> spec_mpf r" "spec_mpf r \<le> 63462" "0 \<le> spec_hmf r" "spec_hmf r \<le> spec_ecv r"
proof -
  obtain du s3 where r: "tr_duty_rate rule = Dec False du (- 4)" "tr_section_301_rate rule = Dec False s3 (- 4)"
    "0 \<le> du" "du \<le> 10000" "0 \<le> s3" "s3 \<le> 10000" using assms(3) by (rule tariff_rates)
  note e = spec_ecv_nonneg [OF assms(1)]
  show "0 \<le> spec_duty r rule" "spec_duty r rule \<le> spec_ecv r"
    "0 \<le> spec_section_301 r rule" "spec_section_301 r rule \<le> spec_ecv r"
    "0 \<le> spec_hmf r" "spec_hmf r \<le> spec_ecv r" "3271 \<le> spec_mpf r" "spec_mpf r \<le> 63462"
    using r e spec_rate_bounds [OF e, of du 10000] spec_rate_bounds [OF e, of s3 10000]
      spec_rate_bounds [OF e, of 1250 1000000]
    by (auto simp: spec_duty_def spec_section_301_def spec_hmf_def spec_mpf_def clamp_cents_def)
qed

lemma calc_amounts_spec:
  assumes "valid_request r" "in_range r" "rule \<in> set tariff_rules"
  shows "calc_amounts r rule = Inr (spec_amounts r rule)"
proof -
  obtain du s3 where r: "tr_duty_rate rule = Dec False du (- 4)" "tr_section_301_rate rule = Dec False s3 (- 4)"
    "0 \<le> du" "du \<le> 10000" "0 \<le> s3" "s3 \<le> 10000" using assms(3) by (rule tariff_rates)
  note e = spec_ecv_nonneg [OF assms(1)]
  note b = spec_parts_bounds [OF assms]
  have rg: "spec_ecv r < 10 ^ 22" "dcoef (freight r) < 10 ^ 26" "dcoef (insurance r) < 10 ^ 26"
    "0 \<le> dcoef (freight r)" "0 \<le> dcoef (insurance r)" "amount_ok (freight r)" "amount_ok (insurance r)"
    using assms(1,2) by (auto simp: in_range_def valid_request_def amount_ok_def)
  have duty: "money_of (dec_mul (cents (spec_ecv r)) (tr_duty_rate rule)) = Inr (cents (spec_duty r rule))"
    using calc_mul [OF assms(1,2) r(3,4), of 4] r(1) by (simp add: spec_duty_def pow10_def)
  have s301: "(if country_of_origin r \<in> set (section_301_origin_countries rule)
      then money_of (dec_mul (cents (spec_ecv r)) (tr_section_301_rate rule))
      else rbind (money (PStr ''0'')) finite_part) = Inr (cents (spec_section_301 r rule))"
    using calc_mul [OF assms(1,2) r(5,6), of 4] r(2) money_zero
    by (simp add: spec_section_301_def pow10_def)
  have hmf: "(if shipping_mode r = ''ocean'' then money_of (dec_mul (cents (spec_ecv r)) hmf_rate)
      else rbind (money (PStr ''0'')) finite_part) = Inr (cents (spec_hmf r))"
    using calc_mul [OF assms(1,2), of 1250 6] money_zero
    by (simp add: spec_hmf_def hmf_rate_def pow10_def)
  have sum: "dec_add (dec_add (dec_add (dec_add (dec_add (dec_add (cents (spec_ecv r)) (freight r))
      (insurance r)) (cents (spec_duty r rule))) (cents (spec_section_301 r rule))) (cents (spec_mpf r)))
      (cents (spec_hmf r)) = cents (spec_landed r rule)"
    using e b rg by (simp add: dec_add_amount amount_ok_cents spec_landed_def)
  have "amount_ok (cents (spec_landed r rule))"
    using e b rg by (intro amount_ok_cents) (auto simp: spec_landed_def)
  then show ?thesis
    unfolding calc_amounts_def calc_ecv [OF assms(1,2)] rbind_simps duty s301 calc_mpf [OF assms(1,2)] hmf sum
    by (simp add: money_of_amount spec_amounts_def)
qed

subsection \<open>The response\<close>

lemma payload_hash_json: "canonicalize v = Inr w \<Longrightarrow> payload_hash v = Inr (sha256_hex (json_dumps w))"
  by (simp add: payload_hash_def canonical_json_def)

definition result_json :: "calculation_result \<Rightarrow> json" where
  "result_json c = JDict [
     (''country_of_origin'', JStr (cr_country_of_origin c)),
     (''dataset_hash'', JStr (cr_dataset_hash c)), (''dataset_version'', JStr (cr_dataset_version c)),
     (''duty_amount'', amount_json (cr_duty_amount c)), (''duty_rate'', amount_json (cr_duty_rate c)),
     (''extended_customs_value'', amount_json (cr_extended_customs_value c)),
     (''freight'', amount_json (cr_freight c)), (''hmf_amount'', amount_json (cr_hmf_amount c)),
     (''hs_code'', JStr (cr_hs_code c)), (''insurance'', amount_json (cr_insurance c)),
     (''landed_cost'', amount_json (cr_landed_cost c)), (''mpf_amount'', amount_json (cr_mpf_amount c)),
     (''quantity'', JInt (cr_quantity c)),
     (''section_301_amount'', amount_json (cr_section_301_amount c)),
     (''section_301_rate'', amount_json (cr_section_301_rate c)),
     (''tariff_description'', JStr (cr_tariff_description c)),
     (''tariff_rule_ref'', JStr (cr_tariff_rule_ref c)),
     (''unit_customs_value'', amount_json (cr_unit_customs_value c))]"

lemma canonicalize_result: "canonicalize (result_payload c) = Inr (result_json c)"
  by (simp add: result_payload_def result_json_def amount_json_def)

definition text_json :: "(string \<times> string) list \<Rightarrow> json" where
  "text_json kvs = JDict (map (\<lambda>kv. (fst kv, JStr (snd kv))) (sort_key fst kvs))"

lemma canonicalize_text_dict: "canonicalize (text_dict kvs) = Inr (text_json kvs)"
proof -
  have "rmap (\<lambda>kv. rbind (canonicalize (snd kv)) (\<lambda>w. Inr (fst kv, w)))
      (map (\<lambda>kv. (fst kv, PStr (snd kv))) xs) = Inr (map (\<lambda>kv. (fst kv, JStr (snd kv))) xs)"
    for xs :: "(string \<times> string) list"
    by (induction xs) auto
  then show ?thesis by (simp add: text_dict_def text_json_def sort_key_map_fst)
qed

definition step_json :: "trace_step \<Rightarrow> json" where
  "step_json s = JDict [(''inputs'', text_json (ts_inputs s)), (''outputs'', text_json (ts_outputs s)),
     (''rule_ref'', JStr (ts_rule_ref s)), (''step'', JStr (ts_step s))]"

lemma canonicalize_trace: "canonicalize (trace_payload ts) = Inr (JList (map step_json ts))"
proof -
  have "canonicalize (step_payload s) = Inr (step_json s)" for s
    by (simp add: step_payload_def step_json_def canonicalize_text_dict)
  then have "rmap canonicalize (map step_payload ts) = Inr (map step_json ts)"
    by (induction ts) auto
  then show ?thesis by (simp add: trace_payload_def)
qed

definition request_hash :: "import_request \<Rightarrow> string" where
  "request_hash r = sha256_hex (json_dumps (request_json r))"

definition result_hash :: "calculation_result \<Rightarrow> string" where
  "result_hash c = sha256_hex (json_dumps (result_json c))"

definition trace_hash_of :: "trace_step list \<Rightarrow> string" where
  "trace_hash_of ts = sha256_hex (json_dumps (JList (map step_json ts)))"

definition integrity_of :: "import_request \<Rightarrow> calculation_result \<Rightarrow> trace_step list \<Rightarrow> integrity_artifact" where
  "integrity_of r c ts = \<lparr>ia_input_hash = request_hash r, ia_output_hash = result_hash c,
     ia_trace_hash = trace_hash_of ts,
     ia_integrity_hash = sha256_hex (request_hash r @ result_hash c @ trace_hash_of ts)\<rparr>"

lemma payload_hashes [simp]:
  "payload_hash (request_payload r) = Inr (request_hash r)"
  "payload_hash (result_payload c) = Inr (result_hash c)"
  "payload_hash (trace_payload ts) = Inr (trace_hash_of ts)"
  by (simp_all add: payload_hash_json canonicalize_request canonicalize_result canonicalize_trace
      request_hash_def result_hash_def trace_hash_of_def)

lemma build_integrity:
  "build_integrity_artifact (request_payload r) (result_payload c) (trace_payload ts) = Inr (integrity_of r c ts)"
  by (simp add: build_integrity_artifact_def integrity_of_def)

text \<open>A rate of four decimals written with six.\<close>

lemma rate_of_table: "0 \<le> c \<Longrightarrow> c \<le> 10000 \<Longrightarrow> rate_of (Dec False c (- 4)) = Inr (Dec False (c * 100) (- 6))"
proof -
  assume c: "0 \<le> c" "c \<le> 10000"
  have "ndigits c \<le> 5" "ndigits (c * 100) \<le> 7"
    using c ndigits_le_iff [of c 5] ndigits_le_iff [of "c * 100" 7] by simp_all
  then show ?thesis
    by (simp add: rate_of_quantize dec_quantize_def dec_rescale_def pow10_def prec_def)
qed

definition spec_result :: "import_request \<Rightarrow> tariff_rule \<Rightarrow> string \<Rightarrow> amounts \<Rightarrow> calculation_result" where
  "spec_result r rule ds_hash a = \<lparr>cr_dataset_version = dataset_version, cr_dataset_hash = ds_hash,
     cr_hs_code = hs_code r, cr_country_of_origin = country_of_origin r, cr_quantity = quantity r,
     cr_tariff_rule_ref = tr_rule_ref rule, cr_tariff_description = tr_description rule,
     cr_unit_customs_value = customs_value r, cr_extended_customs_value = am_ecv a,
     cr_freight = freight r, cr_insurance = insurance r,
     cr_duty_rate = Dec False (dcoef (tr_duty_rate rule) * 100) (- 6),
     cr_section_301_rate = Dec False (dcoef (tr_section_301_rate rule) * 100) (- 6),
     cr_duty_amount = am_duty a, cr_section_301_amount = am_section_301 a, cr_mpf_amount = am_mpf a,
     cr_hmf_amount = am_hmf a, cr_landed_cost = am_landed a\<rparr>"

lemma build_result_spec:
  assumes "valid_request r" "rule \<in> set tariff_rules"
  shows "build_result r rule h a = Inr (spec_result r rule h a)"
proof -
  obtain du s3 where "tr_duty_rate rule = Dec False du (- 4)" "tr_section_301_rate rule = Dec False s3 (- 4)"
    "0 \<le> du" "du \<le> 10000" "0 \<le> s3" "s3 \<le> 10000" using assms(2) by (rule tariff_rates)
  then show ?thesis using assms(1)
    by (simp add: build_result_def valid_request_def money_of_amount rate_of_table spec_result_def)
qed

definition response_of :: "import_request \<Rightarrow> tariff_rule \<Rightarrow> string \<Rightarrow> amounts \<Rightarrow> calculation_response" where
  "response_of r rule h a = (let res = spec_result r rule h a; tr = build_trace r rule (request_hash r) h a in
     \<lparr>rs_result = res, rs_trace = tr, rs_integrity = integrity_of r res tr\<rparr>)"

lemma calculate_unfold:
  assumes "valid_request r" "int_of (PInt (quantity r)) = Some (quantity r)"
  shows "calculate_import_landed_cost int_of tariff_rules dataset_hash r =
    rbind (find_rule tariff_rules (hs_code r)) (\<lambda>rule.
    rbind (calc_amounts r rule) (\<lambda>a. Inr (response_of r rule dataset_hash a)))"
proof -
  have "rbind (build_result r rule dataset_hash a) f = f (spec_result r rule dataset_hash a)"
    if "find_rule tariff_rules (hs_code r) = Inr rule" for rule a and f :: "_ \<Rightarrow> calculation_response result"
    using build_result_spec [OF assms(1)] find_rule_Inr [OF that] by simp
  then show ?thesis
    using validate_request_payload [of r int_of, OF assms]
    by (auto simp: calculate_import_landed_cost_def lookup_shipped build_integrity response_of_def Let_def
        intro!: rbind_cong)
qed

lemma calculate_valid:
  assumes "calculate_import_landed_cost int_of rules h r = Inr resp"
    and "wf_pyv (request_payload r)"
  obtains r' rule a where "validate_request int_of (request_payload r) = Inr r'" "valid_request r'"
    "lookup_tariff_rule rules h (hs_code r') = Inr rule" "calc_amounts r' rule = Inr a"
  using assms validate_request_valid
  by (auto simp: calculate_import_landed_cost_def result_simps Let_def)

lemma calc_overflow:
  assumes "valid_request r" "10 ^ 28 \<le> spec_ecv r"
  shows "calc_amounts r rule = Inl InvalidOperation"
proof -
  have q: "0 \<le> quantity r" using assms(1) by (simp add: valid_request_def)
  have "dec_mul (customs_value r) (dec_of_int (quantity r)) = dec_fix (Dec False (spec_ecv r) (- 2))"
    using q by (subst customs_cents [OF assms(1)]) (simp add: dec_mul_def cents_def dec_of_int_def spec_ecv_def)
  then have "money_of (dec_mul (customs_value r) (dec_of_int (quantity r))) = Inl InvalidOperation"
    using quantize_long [of "Dec False (spec_ecv r) (- 2)" "- 2"] assms(2) by (simp add: money_of_quantize)
  then show ?thesis by (simp add: calc_amounts_def)
qed

end
