(* ===== verification/Artifacts.thy ===== *)
theory Artifacts
  imports Engine
begin

text \<open>
  \<open>zk/interfaces.py\<close>: the five kinds of typed artifacts of the proof pipeline, the validators
  that pydantic runs when one is constructed, and the functions that build them.  All kinds share
  the head \<open>artifact_id\<close>, \<open>produced_by\<close>, \<open>cycle\<close>.  A dictionary of strings is its list of items;
  \<open>private_inputs\<close> may hold any Python value.  A \<open>ValueError\<close> of a validator reaches the caller
  as pydantic's ValidationError, a \<open>TypeError\<close> of \<open>canonical_json\<close> passes through.
\<close>

subsection \<open>Data\<close>

datatype artifact_type = CircuitType | TraceType | WitnessType | ProofType | VerificationType

fun type_value :: "artifact_type \<Rightarrow> string" where
  "type_value CircuitType = ''circuit''"
| "type_value TraceType = ''trace''"
| "type_value WitnessType = ''witness''"
| "type_value ProofType = ''proof''"
| "type_value VerificationType = ''verification_result''"

definition artifact_types :: "artifact_type list" where
  "artifact_types = [CircuitType, TraceType, WitnessType, ProofType, VerificationType]"

record artifact_head =
  artifact_id :: string
  produced_by :: string
  cycle :: int

record circuit_constraint =
  cc_name :: string
  cc_purpose :: string
  cc_inputs :: "string list"
  cc_outputs :: "string list"

record circuit_artifact = artifact_head +
  ca_name :: string
  ca_description :: string
  ca_framework :: string
  ca_public_inputs :: "string list"
  ca_private_inputs :: "string list"
  ca_constraints :: "circuit_constraint list"
  ca_constraint_count :: int
  ca_complexity_budget :: int

record trace_artifact = artifact_head +
  ta_input_hash :: string
  ta_steps :: "trace_step list"
  ta_canonical_trace :: string
  ta_trace_hash :: string

record witness_artifact = artifact_head +
  wa_trace_artifact_id :: string
  wa_input_hash :: string
  wa_output_hash :: string
  wa_trace_hash :: string
  wa_public_inputs :: "(string \<times> string) list"
  wa_private_inputs :: "(string \<times> pyv) list"
  wa_canonical_witness :: string
  wa_witness_hash :: string

record proof_artifact = artifact_head +
  pa_proof_system :: string
  pa_circuit_artifact_id :: string
  pa_witness_artifact_id :: string
  pa_commitments :: "string list"
  pa_public_inputs :: "string list"
  pa_metadata :: "(string \<times> string) list"
  pa_proof_blob_hex :: string
  pa_proof_hash :: string
  pa_input_hash :: string
  pa_output_hash :: string
  pa_trace_hash :: string
  pa_final_proof :: string

record verdict_artifact = artifact_head +
  va_subject_artifact_id :: string
  va_verifier_backend :: string
  va_status :: string
  va_reason :: string
  va_checks :: "string list"
  va_metadata :: "(string \<times> string) list"
  va_verification_hash :: string

datatype artifact = ACircuit circuit_artifact | ATrace trace_artifact | AWitness witness_artifact
  | AProof proof_artifact | AVerdict verdict_artifact

fun artifact_type_of :: "artifact \<Rightarrow> artifact_type" where
  "artifact_type_of (ACircuit _) = CircuitType"
| "artifact_type_of (ATrace _) = TraceType"
| "artifact_type_of (AWitness _) = WitnessType"
| "artifact_type_of (AProof _) = ProofType"
| "artifact_type_of (AVerdict _) = VerificationType"

fun head_of :: "artifact \<Rightarrow> artifact_head" where
  "head_of (ACircuit a) = artifact_head.truncate a"
| "head_of (ATrace a) = artifact_head.truncate a"
| "head_of (AWitness a) = artifact_head.truncate a"
| "head_of (AProof a) = artifact_head.truncate a"
| "head_of (AVerdict a) = artifact_head.truncate a"

subsection \<open>Dumps\<close>

definition str_list :: "string list \<Rightarrow> pyv" where
  "str_list xs = PList (map PStr xs)"

definition constraint_payload :: "circuit_constraint \<Rightarrow> pyv" where
  "constraint_payload c = PDict [(''name'', PStr (cc_name c)), (''purpose'', PStr (cc_purpose c)),
     (''inputs'', str_list (cc_inputs c)), (''outputs'', str_list (cc_outputs c))]"

definition head_items :: "artifact_type \<Rightarrow> ('a) artifact_head_scheme \<Rightarrow> (string \<times> pyv) list" where
  "head_items t h = [(''artifact_type'', PStr (type_value t)), (''artifact_id'', PStr (artifact_id h)),
     (''produced_by'', PStr (produced_by h)), (''cycle'', PInt (cycle h))]"

text \<open>The dictionaries the hashes are taken of.\<close>

definition witness_items ::
  "string \<Rightarrow> string \<Rightarrow> string \<Rightarrow> string \<Rightarrow> (string \<times> string) list \<Rightarrow> (string \<times> pyv) list \<Rightarrow> (string \<times> pyv) list" where
  "witness_items trace_id input_h output_h trace_h public private =
     [(''trace_artifact_id'', PStr trace_id), (''input_hash'', PStr input_h),
      (''output_hash'', PStr output_h), (''trace_hash'', PStr trace_h),
      (''public_inputs'', text_dict public), (''private_inputs'', PDict private)]"

definition proof_items ::
  "string \<Rightarrow> string \<Rightarrow> string \<Rightarrow> string list \<Rightarrow> string list \<Rightarrow> (string \<times> string) list \<Rightarrow> string
    \<Rightarrow> string \<Rightarrow> string \<Rightarrow> string \<Rightarrow> string \<Rightarrow> (string \<times> pyv) list" where
  "proof_items system circuit_id witness_id commitments public metadata blob input_h output_h trace_h final =
     [(''proof_system'', PStr system), (''circuit_artifact_id'', PStr circuit_id),
      (''witness_artifact_id'', PStr witness_id), (''commitments'', str_list commitments),
      (''public_inputs'', str_list public), (''metadata'', text_dict metadata),
      (''proof_blob_hex'', PStr blob), (''input_hash'', PStr input_h), (''output_hash'', PStr output_h),
      (''trace_hash'', PStr trace_h), (''final_proof'', PStr final)]"

definition verdict_items ::
  "string \<Rightarrow> string \<Rightarrow> string \<Rightarrow> string \<Rightarrow> string list \<Rightarrow> (string \<times> string) list \<Rightarrow> (string \<times> pyv) list" where
  "verdict_items subject backend status reason checks metadata =
     [(''subject_artifact_id'', PStr subject), (''verifier_backend'', PStr backend),
      (''status'', PStr status), (''reason'', PStr reason), (''checks'', str_list checks),
      (''metadata'', text_dict metadata)]"

text \<open>\<open>model_dump(mode='python')\<close>; the dump of a proof also has its computed fields.\<close>

definition dict_get :: "(string \<times> 'v) list \<Rightarrow> string \<Rightarrow> 'v \<Rightarrow> 'v" where
  "dict_get kvs k d = (case map_of kvs k of None \<Rightarrow> d | Some v \<Rightarrow> v)"

definition circuit_hash_of :: "proof_artifact \<Rightarrow> string" where
  "circuit_hash_of p = dict_get (pa_metadata p) ''circuit_hash'' []"

fun model_dump :: "artifact \<Rightarrow> pyv" where
  "model_dump (ACircuit c) = PDict (head_items CircuitType c @
     [(''name'', PStr (ca_name c)), (''description'', PStr (ca_description c)),
      (''framework'', PStr (ca_framework c)), (''public_inputs'', str_list (ca_public_inputs c)),
      (''private_inputs'', str_list (ca_private_inputs c)),
      (''constraints'', PList (map constraint_payload (ca_constraints c))),
      (''constraint_count'', PInt (ca_constraint_count c)),
      (''complexity_budget'', PInt (ca_complexity_budget c))])"
| "model_dump (ATrace t) = PDict (head_items TraceType t @
     [(''input_hash'', PStr (ta_input_hash t)), (''steps'', trace_payload (ta_steps t)),
      (''canonical_trace'', PStr (ta_canonical_trace t)), (''trace_hash'', PStr (ta_trace_hash t))])"
| "model_dump (AWitness w) = PDict (head_items WitnessType w @
     witness_items (wa_trace_artifact_id w) (wa_input_hash w) (wa_output_hash w) (wa_trace_hash w)
       (wa_public_inputs w) (wa_private_inputs w) @
     [(''canonical_witness'', PStr (wa_canonical_witness w)), (''witness_hash'', PStr (wa_witness_hash w))])"
| "model_dump (AProof p) = PDict (head_items ProofType p @
     proof_items (pa_proof_system p) (pa_circuit_artifact_id p) (pa_witness_artifact_id p) (pa_commitments p)
       (pa_public_inputs p) (pa_metadata p) (pa_proof_blob_hex p) (pa_input_hash p) (pa_output_hash p)
       (pa_trace_hash p) (pa_final_proof p) @
     [(''proof_hash'', PStr (pa_proof_hash p)), (''proof_bytes'', PStr (pa_proof_blob_hex p)),
      (''proving_system'', PStr (pa_proof_system p)), (''circuit_hash'', PStr (circuit_hash_of p))])"
| "model_dump (AVerdict v) = PDict (head_items VerificationType v @
     verdict_items (va_subject_artifact_id v) (va_verifier_backend v) (va_status v) (va_reason v)
       (va_checks v) (va_metadata v) @
     [(''verification_hash'', PStr (va_verification_hash v))])"

definition canonical_payload :: "artifact \<Rightarrow> string result" where
  "canonical_payload a = canonical_json (model_dump a)"

definition content_hash :: "artifact \<Rightarrow> string result" where
  "content_hash a = rbind (canonical_payload a) (\<lambda>s. Inr (sha256_hex s))"

definition artifact_size_bytes :: "artifact \<Rightarrow> int result" where
  "artifact_size_bytes a = rbind (canonical_payload a) (\<lambda>s. Inr (int (length (utf8 s))))"

definition summarize_artifact :: "artifact \<Rightarrow> (string \<times> pyv) list result" where
  "summarize_artifact a = rbind (content_hash a) (\<lambda>h. Inr [
     (''artifact_id'', PStr (artifact_id (head_of a))), (''artifact_type'', PStr (type_value (artifact_type_of a))),
     (''produced_by'', PStr (produced_by (head_of a))), (''cycle'', PInt (cycle (head_of a))),
     (''content_hash'', PStr h)])"

subsection \<open>Validators\<close>

definition validate_circuit :: "circuit_artifact \<Rightarrow> circuit_artifact result" where
  "validate_circuit c = (if ca_constraint_count c \<noteq> int (length (ca_constraints c))
     then Inl (ValidationError ''constraint_count must match the number of constraints'') else Inr c)"

definition validate_trace :: "trace_artifact \<Rightarrow> trace_artifact result" where
  "validate_trace t = rbind (canonical_json (trace_payload (ta_steps t))) (\<lambda>expected.
     if ta_canonical_trace t \<noteq> expected
     then Inl (ValidationError ''canonical_trace does not match the canonicalized trace steps'')
     else if ta_trace_hash t \<noteq> sha256_hex expected
     then Inl (ValidationError ''trace_hash does not match canonical_trace'') else Inr t)"

definition validate_witness :: "witness_artifact \<Rightarrow> witness_artifact result" where
  "validate_witness w = rbind (canonical_json (PDict (witness_items (wa_trace_artifact_id w) (wa_input_hash w)
       (wa_output_hash w) (wa_trace_hash w) (wa_public_inputs w) (wa_private_inputs w)))) (\<lambda>expected.
     if wa_canonical_witness w \<noteq> expected
     then Inl (ValidationError ''canonical_witness does not match the witness payload'')
     else if wa_witness_hash w \<noteq> sha256_hex expected
     then Inl (ValidationError ''witness_hash does not match canonical_witness'') else Inr w)"

definition validate_proof :: "proof_artifact \<Rightarrow> proof_artifact result" where
  "validate_proof p = rbind (canonical_json (PDict (proof_items (pa_proof_system p) (pa_circuit_artifact_id p)
       (pa_witness_artifact_id p) (pa_commitments p) (pa_public_inputs p) (pa_metadata p) (pa_proof_blob_hex p)
       (pa_input_hash p) (pa_output_hash p) (pa_trace_hash p) (pa_final_proof p)))) (\<lambda>payload.
     if pa_proof_hash p \<noteq> sha256_hex payload
     then Inl (ValidationError ''proof_hash does not match the canonical proof payload'') else Inr p)"

definition validate_verdict :: "verdict_artifact \<Rightarrow> verdict_artifact result" where
  "validate_verdict v = (if va_status v \<notin> {''VALID'', ''INVALID''} then Inl (ValidationError ''status'') else
     rbind (canonical_json (PDict (verdict_items (va_subject_artifact_id v) (va_verifier_backend v)
       (va_status v) (va_reason v) (va_checks v) (va_metadata v)))) (\<lambda>payload.
     if va_verification_hash v \<noteq> sha256_hex payload
     then Inl (ValidationError ''verification_hash does not match the canonical verification payload'') else Inr v))"

text \<open>\<open>CircuitConstraint.model_validate\<close> with \<open>extra='forbid'\<close>; a list field takes a list or a tuple.\<close>

definition str_field :: "(string \<times> pyv) list \<Rightarrow> string \<Rightarrow> string result" where
  "str_field kvs k = (case map_of kvs k of Some (PStr s) \<Rightarrow> Inr s | _ \<Rightarrow> Inl (ValidationError k))"

fun as_str :: "pyv \<Rightarrow> string result" where
  "as_str (PStr s) = Inr s"
| "as_str _ = Inl (ValidationError ''str'')"

definition str_list_field :: "(string \<times> pyv) list \<Rightarrow> string \<Rightarrow> string list result" where
  "str_list_field kvs k = (case map_of kvs k of Some (PList vs) \<Rightarrow> rmap as_str vs | _ \<Rightarrow> Inl (ValidationError k))"

definition constraint_of :: "pyv \<Rightarrow> circuit_constraint result" where
  "constraint_of v = (case v of
     PDict kvs \<Rightarrow> if list_all (\<lambda>kv. fst kv \<in> {''name'', ''purpose'', ''inputs'', ''outputs''}) kvs then
       rbind (str_field kvs ''name'') (\<lambda>n. rbind (str_field kvs ''purpose'') (\<lambda>p.
       rbind (str_list_field kvs ''inputs'') (\<lambda>i. rbind (str_list_field kvs ''outputs'') (\<lambda>out.
         Inr \<lparr>cc_name = n, cc_purpose = p, cc_inputs = i, cc_outputs = out\<rparr>))))
       else Inl (ValidationError ''extra'')
   | _ \<Rightarrow> Inl (ValidationError ''CircuitConstraint''))"

subsection \<open>Builders\<close>

definition artifact_id_for :: "string \<Rightarrow> pyv \<Rightarrow> string result" where
  "artifact_id_for kind payload =
     rbind (canonical_json payload) (\<lambda>s. Inr (kind @ ''_'' @ take 24 (sha256_hex s)))"

definition build_circuit_artifact ::
  "string \<Rightarrow> string \<Rightarrow> string \<Rightarrow> string list \<Rightarrow> string list \<Rightarrow> pyv list \<Rightarrow> string \<Rightarrow> int \<Rightarrow> int
    \<Rightarrow> circuit_artifact result" where
  "build_circuit_artifact name description framework public private constraints producer cyc budget =
     rbind (artifact_id_for (type_value CircuitType) (PDict
       [(''name'', PStr name), (''description'', PStr description), (''framework'', PStr framework),
        (''public_inputs'', str_list public), (''private_inputs'', str_list private),
        (''constraints'', PList constraints), (''constraint_count'', PInt (int (length constraints))),
        (''complexity_budget'', PInt budget), (''produced_by'', PStr producer), (''cycle'', PInt cyc)])) (\<lambda>ident.
     rbind (rmap constraint_of constraints) (\<lambda>cs.
     validate_circuit \<lparr>artifact_id = ident, produced_by = producer, cycle = cyc, ca_name = name,
       ca_description = description, ca_framework = framework, ca_public_inputs = public,
       ca_private_inputs = private, ca_constraints = cs,
       ca_constraint_count = int (length constraints), ca_complexity_budget = budget\<rparr>))"

definition build_trace_artifact ::
  "string \<Rightarrow> trace_step list \<Rightarrow> string \<Rightarrow> int \<Rightarrow> trace_artifact result" where
  "build_trace_artifact input_h steps producer cyc =
     rbind (canonical_json (trace_payload steps)) (\<lambda>canonical.
     let trace_h = sha256_hex canonical in
     rbind (artifact_id_for (type_value TraceType) (PDict
       [(''input_hash'', PStr input_h), (''canonical_trace'', PStr canonical), (''trace_hash'', PStr trace_h),
        (''produced_by'', PStr producer), (''cycle'', PInt cyc)])) (\<lambda>ident.
     validate_trace \<lparr>artifact_id = ident, produced_by = producer, cycle = cyc, ta_input_hash = input_h,
       ta_steps = steps, ta_canonical_trace = canonical, ta_trace_hash = trace_h\<rparr>))"

definition build_witness_artifact ::
  "string \<Rightarrow> string \<Rightarrow> string \<Rightarrow> string \<Rightarrow> (string \<times> string) list \<Rightarrow> (string \<times> pyv) list \<Rightarrow> string \<Rightarrow> int
    \<Rightarrow> witness_artifact result" where
  "build_witness_artifact trace_id input_h output_h trace_h public private producer cyc =
     (let payload = witness_items trace_id input_h output_h trace_h public private in
     rbind (canonical_json (PDict payload)) (\<lambda>canonical.
     let witness_h = sha256_hex canonical in
     rbind (artifact_id_for (type_value WitnessType) (PDict (payload @
       [(''witness_hash'', PStr witness_h), (''produced_by'', PStr producer), (''cycle'', PInt cyc)]))) (\<lambda>ident.
     validate_witness \<lparr>artifact_id = ident, produced_by = producer, cycle = cyc, wa_trace_artifact_id = trace_id,
       wa_input_hash = input_h, wa_output_hash = output_h, wa_trace_hash = trace_h,
       wa_public_inputs = public, wa_private_inputs = private, wa_canonical_witness = canonical,
       wa_witness_hash = witness_h\<rparr>)))"

definition build_proof_artifact ::
  "string \<Rightarrow> string \<Rightarrow> string \<Rightarrow> string list \<Rightarrow> string list \<Rightarrow> (string \<times> string) list \<Rightarrow> string
    \<Rightarrow> string \<Rightarrow> string \<Rightarrow> string \<Rightarrow> string \<Rightarrow> string \<Rightarrow> int \<Rightarrow> proof_artifact result" where
  "build_proof_artifact system circuit_id witness_id commitments public metadata blob input_h output_h trace_h
      final producer cyc =
     (let payload = proof_items system circuit_id witness_id commitments public metadata blob input_h output_h
        trace_h final in
     rbind (canonical_json (PDict payload)) (\<lambda>canonical.
     let proof_h = sha256_hex canonical in
     rbind (artifact_id_for (type_value ProofType) (PDict (payload @
       [(''proof_hash'', PStr proof_h), (''produced_by'', PStr producer), (''cycle'', PInt cyc)]))) (\<lambda>ident.
     validate_proof \<lparr>artifact_id = ident, produced_by = producer, cycle = cyc, pa_proof_system = system,
       pa_circuit_artifact_id = circuit_id, pa_witness_artifact_id = witness_id, pa_commitments = commitments,
       pa_public_inputs = public, pa_metadata = metadata, pa_proof_blob_hex = blob, pa_proof_hash = proof_h,
       pa_input_hash = input_h, pa_output_hash = output_h, pa_trace_hash = trace_h, pa_final_proof = final\<rparr>)))"

definition build_verification_artifact ::
  "string \<Rightarrow> string \<Rightarrow> string \<Rightarrow> string \<Rightarrow> string list \<Rightarrow> (string \<times> string) list \<Rightarrow> string \<Rightarrow> int
    \<Rightarrow> verdict_artifact result" where
  "build_verification_artifact subject backend status reason checks metadata producer cyc =
     (let payload = verdict_items subject backend status reason checks metadata in
     rbind (canonical_json (PDict payload)) (\<lambda>canonical.
     let verification_h = sha256_hex canonical in
     rbind (artifact_id_for (type_value VerificationType) (PDict (payload @
       [(''verification_hash'', PStr verification_h), (''produced_by'', PStr producer), (''cycle'', PInt cyc)])))
       (\<lambda>ident.
     validate_verdict \<lparr>artifact_id = ident, produced_by = producer, cycle = cyc, va_subject_artifact_id = subject,
       va_verifier_backend = backend, va_status = status, va_reason = reason, va_checks = checks,
       va_metadata = metadata, va_verification_hash = verification_h\<rparr>)))"

subsection \<open>Construction succeeds and is determined by its arguments\<close>

text \<open>The canonical forms of the dictionaries that the hashes are taken of.\<close>

definition str_json :: "string list \<Rightarrow> json" where
  "str_json xs = JList (map JStr xs)"

lemma rmap_strings: "rmap canonicalize (map PStr xs) = Inr (map JStr xs)"
  by (induction xs) simp_all

lemma canonicalize_str_list [simp]: "canonicalize (str_list xs) = Inr (str_json xs)"
  by (simp add: str_list_def str_json_def rmap_strings)

lemmas dump_simps = canonicalize_text_dict canonicalize_trace canonicalize_str_list

definition proof_json ::
  "string \<Rightarrow> string \<Rightarrow> string \<Rightarrow> string list \<Rightarrow> string list \<Rightarrow> (string \<times> string) list \<Rightarrow> string
    \<Rightarrow> string \<Rightarrow> string \<Rightarrow> string \<Rightarrow> string \<Rightarrow> json" where
  "proof_json system circuit_id witness_id commitments public metadata blob input_h output_h trace_h final = JDict
     [(''circuit_artifact_id'', JStr circuit_id), (''commitments'', str_json commitments),
      (''final_proof'', JStr final), (''input_hash'', JStr input_h), (''metadata'', text_json metadata),
      (''output_hash'', JStr output_h), (''proof_blob_hex'', JStr blob), (''proof_system'', JStr system),
      (''public_inputs'', str_json public), (''trace_hash'', JStr trace_h), (''witness_artifact_id'', JStr witness_id)]"

lemma canonicalize_proof_items:
  "canonicalize (PDict (proof_items system circuit_id witness_id commitments public metadata blob input_h output_h
      trace_h final))
    = Inr (proof_json system circuit_id witness_id commitments public metadata blob input_h output_h trace_h final)"
  by (simp add: proof_items_def proof_json_def dump_simps)

definition verdict_json ::
  "string \<Rightarrow> string \<Rightarrow> string \<Rightarrow> string \<Rightarrow> string list \<Rightarrow> (string \<times> string) list \<Rightarrow> json" where
  "verdict_json subject backend status reason checks metadata = JDict
     [(''checks'', str_json checks), (''metadata'', text_json metadata), (''reason'', JStr reason),
      (''status'', JStr status), (''subject_artifact_id'', JStr subject), (''verifier_backend'', JStr backend)]"

lemma canonicalize_verdict_items:
  "canonicalize (PDict (verdict_items subject backend status reason checks metadata))
    = Inr (verdict_json subject backend status reason checks metadata)"
  by (simp add: verdict_items_def verdict_json_def dump_simps)

lemma has_float_simps [simp]:
  "\<not> has_float (str_list xs)" "\<not> has_float (text_dict kvs)" "\<not> has_float (trace_payload ts)"
  using canonicalize_ok_iff by (metis canonicalize_str_list canonicalize_text_dict canonicalize_trace)+

text \<open>\<open>canonical_json\<close> succeeds exactly on the values without floats.\<close>

definition canonical_text :: "pyv \<Rightarrow> string" where
  "canonical_text v = json_dumps (projr (canonicalize v))"

lemma canonical_json_text: "\<not> has_float v \<Longrightarrow> canonical_json v = Inr (canonical_text v)"
  using canonicalize_ok_iff [of v] by (auto simp: canonical_json_def canonical_text_def)

lemma canonical_json_float: "has_float v \<Longrightarrow> canonical_json v = Inl TypeError"
  using canonicalize_ok_iff [of v] canonicalize_error [of v]
  by (cases "canonicalize v") (auto simp: canonical_json_def)

lemma canonical_json_Inr: "canonical_json v = Inr s \<longleftrightarrow> \<not> has_float v \<and> s = canonical_text v"
  using canonical_json_text [of v] canonical_json_float [of v] by (cases "has_float v") auto

lemma artifact_id_for_text:
  "\<not> has_float v \<Longrightarrow> artifact_id_for kind v = Inr (kind @ ''_'' @ take 24 (sha256_hex (canonical_text v)))"
  by (simp add: artifact_id_for_def canonical_json_text)

lemma items_float:
  "\<not> list_ex (\<lambda>kv. has_float (snd kv)) (proof_items system circuit_id witness_id commitments public metadata blob
      input_h output_h trace_h final)"
  "\<not> list_ex (\<lambda>kv. has_float (snd kv)) (verdict_items subject backend status reason checks metadata)"
  "list_ex (\<lambda>kv. has_float (snd kv)) (witness_items trace_id input_h output_h trace_h public_map private)
     \<longleftrightarrow> list_ex (\<lambda>kv. has_float (snd kv)) private"
  by (simp_all add: proof_items_def verdict_items_def witness_items_def text_dict_def str_list_def list_ex_iff)

lemmas build_simps = canonical_json_text artifact_id_for_text items_float Let_def

text \<open>The artifacts that the builders return.\<close>

definition trace_of :: "string \<Rightarrow> trace_step list \<Rightarrow> string \<Rightarrow> int \<Rightarrow> trace_artifact" where
  "trace_of input_h steps producer cyc = \<lparr>artifact_id = ''trace_'' @ take 24 (sha256_hex (canonical_text
       (PDict [(''input_hash'', PStr input_h), (''canonical_trace'', PStr (canonical_text (trace_payload steps))),
         (''trace_hash'', PStr (trace_hash_of steps)), (''produced_by'', PStr producer), (''cycle'', PInt cyc)]))),
     produced_by = producer, cycle = cyc, ta_input_hash = input_h, ta_steps = steps,
     ta_canonical_trace = canonical_text (trace_payload steps), ta_trace_hash = trace_hash_of steps\<rparr>"

definition witness_of ::
  "string \<Rightarrow> string \<Rightarrow> string \<Rightarrow> string \<Rightarrow> (string \<times> string) list \<Rightarrow> (string \<times> pyv) list \<Rightarrow> string \<Rightarrow> int
    \<Rightarrow> witness_artifact" where
  "witness_of trace_id input_h output_h trace_h public private producer cyc =
    (let payload = witness_items trace_id input_h output_h trace_h public private;
         witness_h = sha256_hex (canonical_text (PDict payload)) in
     \<lparr>artifact_id = ''witness_'' @ take 24 (sha256_hex (canonical_text (PDict (payload @
       [(''witness_hash'', PStr witness_h), (''produced_by'', PStr producer), (''cycle'', PInt cyc)])))),
     produced_by = producer, cycle = cyc, wa_trace_artifact_id = trace_id, wa_input_hash = input_h,
     wa_output_hash = output_h, wa_trace_hash = trace_h, wa_public_inputs = public, wa_private_inputs = private,
     wa_canonical_witness = canonical_text (PDict payload), wa_witness_hash = witness_h\<rparr>)"

definition proof_of ::
  "string \<Rightarrow> string \<Rightarrow> string \<Rightarrow> string list \<Rightarrow> string list \<Rightarrow> (string \<times> string) list \<Rightarrow> string
    \<Rightarrow> string \<Rightarrow> string \<Rightarrow> string \<Rightarrow> string \<Rightarrow> string \<Rightarrow> int \<Rightarrow> proof_artifact" where
  "proof_of system circuit_id witness_id commitments public metadata blob input_h output_h trace_h final producer cyc =
    (let payload = proof_items system circuit_id witness_id commitments public metadata blob input_h output_h trace_h final;
         proof_h = sha256_hex (canonical_text (PDict payload)) in
     \<lparr>artifact_id = ''proof_'' @ take 24 (sha256_hex (canonical_text (PDict (payload @
       [(''proof_hash'', PStr proof_h), (''produced_by'', PStr producer), (''cycle'', PInt cyc)])))),
     produced_by = producer, cycle = cyc, pa_proof_system = system,
     pa_circuit_artifact_id = circuit_id, pa_witness_artifact_id = witness_id, pa_commitments = commitments,
     pa_public_inputs = public, pa_metadata = metadata, pa_proof_blob_hex = blob, pa_proof_hash = proof_h,
     pa_input_hash = input_h, pa_output_hash = output_h, pa_trace_hash = trace_h, pa_final_proof = final\<rparr>)"

definition verdict_of ::
  "string \<Rightarrow> string \<Rightarrow> string \<Rightarrow> string \<Rightarrow> string list \<Rightarrow> (string \<times> string) list \<Rightarrow> string \<Rightarrow> int
    \<Rightarrow> verdict_artifact" where
  "verdict_of subject backend status reason checks metadata producer cyc =
    (let payload = verdict_items subject backend status reason checks metadata;
         verification_h = sha256_hex (canonical_text (PDict payload)) in
     \<lparr>artifact_id = ''verification_result_'' @ take 24 (sha256_hex (canonical_text (PDict (payload @
       [(''verification_hash'', PStr verification_h), (''produced_by'', PStr producer), (''cycle'', PInt cyc)])))),
     produced_by = producer, cycle = cyc, va_subject_artifact_id = subject, va_verifier_backend = backend,
     va_status = status, va_reason = reason, va_checks = checks, va_metadata = metadata,
     va_verification_hash = verification_h\<rparr>)"

lemma build_trace_artifact_total:
  "build_trace_artifact input_h steps producer cyc = Inr (trace_of input_h steps producer cyc)"
proof -
  have "sha256_hex (canonical_text (trace_payload steps)) = trace_hash_of steps"
    by (simp add: canonical_text_def canonicalize_trace trace_hash_of_def)
  then show ?thesis by (simp add: build_trace_artifact_def trace_of_def build_simps validate_trace_def)
qed

lemma build_witness_artifact_ok:
  "\<not> has_float (PDict private) \<Longrightarrow> build_witness_artifact trace_id input_h output_h trace_h public private producer cyc =
     Inr (witness_of trace_id input_h output_h trace_h public private producer cyc)"
  by (simp add: build_witness_artifact_def witness_of_def build_simps validate_witness_def)

lemma build_witness_artifact_float:
  "has_float (PDict private) \<Longrightarrow>
     build_witness_artifact trace_id input_h output_h trace_h public private producer cyc = Inl TypeError"
  by (simp add: build_witness_artifact_def Let_def canonical_json_float items_float)

lemma build_proof_artifact_total:
  "build_proof_artifact system circuit_id witness_id commitments public metadata blob input_h output_h trace_h
      final producer cyc =
   Inr (proof_of system circuit_id witness_id commitments public metadata blob input_h output_h trace_h
      final producer cyc)"
  by (simp add: build_proof_artifact_def proof_of_def build_simps validate_proof_def)

lemma build_verification_artifact_total:
  "status \<in> {''VALID'', ''INVALID''} \<Longrightarrow>
     build_verification_artifact subject backend status reason checks metadata producer cyc =
     Inr (verdict_of subject backend status reason checks metadata producer cyc)"
  by (auto simp: build_verification_artifact_def verdict_of_def build_simps validate_verdict_def)

lemma build_verification_artifact_status:
  "status \<notin> {''VALID'', ''INVALID''} \<Longrightarrow>
     build_verification_artifact subject backend status reason checks metadata producer cyc = Inl (ValidationError ''status'')"
  by (simp add: build_verification_artifact_def build_simps validate_verdict_def)

lemma constraint_round_trip: "constraint_of (constraint_payload c) = Inr c"
proof -
  have "rmap as_str (map PStr xs) = Inr xs" for xs by (induction xs) simp_all
  then show ?thesis
    by (simp add: constraint_of_def constraint_payload_def str_field_def str_list_field_def str_list_def)
qed

lemma rmap_constraints: "rmap constraint_of (map constraint_payload cs) = Inr cs"
  by (induction cs) (simp_all add: constraint_round_trip)

lemma build_circuit_artifact_ok:
  "\<exists>ident. build_circuit_artifact name description framework public private (map constraint_payload cs) producer cyc budget =
    Inr \<lparr>artifact_id = ''circuit_'' @ ident, produced_by = producer, cycle = cyc, ca_name = name,
     ca_description = description, ca_framework = framework, ca_public_inputs = public, ca_private_inputs = private,
     ca_constraints = cs, ca_constraint_count = int (length cs), ca_complexity_budget = budget\<rparr>"
proof -
  have "\<not> has_float (constraint_payload c)" for c by (simp add: constraint_payload_def)
  then have "\<not> list_ex has_float (map constraint_payload cs)" by (simp add: list_ex_iff)
  then show ?thesis
    by (simp add: build_circuit_artifact_def build_simps rmap_constraints validate_circuit_def)
qed

end
