(* ===== verification/Core_Verifier.thy ===== *)
theory Core_Verifier
  imports Engine
begin

text \<open>
  \<open>core/verifier.py\<close>: \<open>verify_proof\<close> recomputes the calculation of a request and compares the
  response it is given with the recomputed one.  \<open>CalculationResponse.model_validate\<close> is
  generated by pydantic and is the parameter \<open>parse_response\<close>.  Every exception ends in an
  INVALID result; of the text of an exception only the message is kept.
\<close>

record verification_result =
  vr_status :: string
  vr_reason :: string
  vr_input_hash :: string
  vr_output_hash :: string
  vr_trace_hash :: string
  vr_integrity_hash :: string

definition invalid_result :: "string \<Rightarrow> verification_result" where
  "invalid_result reason = \<lparr>vr_status = ''INVALID'', vr_reason = reason, vr_input_hash = [],
     vr_output_hash = [], vr_trace_hash = [], vr_integrity_hash = []\<rparr>"

definition json_equal :: "pyv \<Rightarrow> pyv \<Rightarrow> bool result" where
  "json_equal a b = rbind (canonical_json a) (\<lambda>s. rbind (canonical_json b) (\<lambda>t. constant_time_equal s t))"

text \<open>The comparisons after both payloads were parsed.\<close>

definition compare_responses ::
  "import_request \<Rightarrow> calculation_response \<Rightarrow> calculation_response \<Rightarrow> verification_result result" where
  "compare_responses request recomputed response =
     rbind (payload_hash (request_payload request)) (\<lambda>input_hash.
     rbind (payload_hash (result_payload (rs_result recomputed))) (\<lambda>output_hash.
     rbind (payload_hash (trace_payload (rs_trace recomputed))) (\<lambda>trace_hash.
     let integrity_hash = sha256_hex (input_hash @ output_hash @ trace_hash) in
     rbind (constant_time_equal (ia_input_hash (rs_integrity response)) input_hash) (\<lambda>c1.
     rbind (constant_time_equal (ia_output_hash (rs_integrity response)) output_hash) (\<lambda>c2.
     rbind (constant_time_equal (ia_trace_hash (rs_integrity response)) trace_hash) (\<lambda>c3.
     rbind (json_equal (result_payload (rs_result response)) (result_payload (rs_result recomputed))) (\<lambda>c4.
     rbind (json_equal (trace_payload (rs_trace response)) (trace_payload (rs_trace recomputed))) (\<lambda>c5.
       Inr (if list_all id [c1, c2, c3, c4, c5]
            then \<lparr>vr_status = ''VALID'', vr_reason = ''Proof recomputed successfully'',
                  vr_input_hash = input_hash, vr_output_hash = output_hash,
                  vr_trace_hash = trace_hash, vr_integrity_hash = integrity_hash\<rparr>
            else \<lparr>vr_status = ''INVALID'', vr_reason = ''Recomputed proof or payload mismatch detected'',
                  vr_input_hash = input_hash, vr_output_hash = output_hash,
                  vr_trace_hash = trace_hash, vr_integrity_hash = integrity_hash\<rparr>)))))))))"

definition verify_body ::
  "(pyv \<Rightarrow> int option) \<Rightarrow> tariff_rule list \<Rightarrow> string \<Rightarrow> (pyv \<Rightarrow> calculation_response result)
    \<Rightarrow> pyv \<Rightarrow> pyv \<Rightarrow> verification_result result" where
  "verify_body int_of rules ds_hash parse_response request_v response_v =
    (case validate_request int_of request_v of
       Inl (ValidationError m) \<Rightarrow> Inr (invalid_result (''Invalid verification request payload: '' @ m))
     | Inl e \<Rightarrow> Inl e
     | Inr request \<Rightarrow>
         rbind (calculate_import_landed_cost int_of rules ds_hash request) (\<lambda>recomputed.
         case parse_response response_v of
           Inl (ValidationError m) \<Rightarrow> Inr \<lparr>vr_status = ''INVALID'',
             vr_reason = ''Invalid calculation response payload: '' @ m,
             vr_input_hash = ia_input_hash (rs_integrity recomputed),
             vr_output_hash = ia_output_hash (rs_integrity recomputed),
             vr_trace_hash = ia_trace_hash (rs_integrity recomputed),
             vr_integrity_hash = ia_integrity_hash (rs_integrity recomputed)\<rparr>
         | Inl e \<Rightarrow> Inl e
         | Inr response \<Rightarrow> compare_responses request recomputed response))"

definition verify_proof ::
  "(pyv \<Rightarrow> int option) \<Rightarrow> tariff_rule list \<Rightarrow> string \<Rightarrow> (pyv \<Rightarrow> calculation_response result)
    \<Rightarrow> pyv \<Rightarrow> pyv \<Rightarrow> verification_result" where
  "verify_proof int_of rules ds_hash parse_response request_v response_v =
    (case verify_body int_of rules ds_hash parse_response request_v response_v of
       Inr v \<Rightarrow> v
     | Inl e \<Rightarrow> invalid_result (''Verification failed safely: '' @ error_text e))"

subsection \<open>What VALID means\<close>

lemma constant_time_equal_Inr: "constant_time_equal a b = Inr c \<Longrightarrow> c = (a = b)"
  by (auto simp: constant_time_equal_def split: if_splits)

lemma json_equal_Inr: "json_equal a b = Inr c \<Longrightarrow> c = (canonical_json a = canonical_json b)"
  by (auto simp: json_equal_def result_simps dest: constant_time_equal_Inr)

lemma json_equal_refl: "canonicalize a = Inr w \<Longrightarrow> json_equal a a = Inr True"
  using json_dumps_ascii [of w] canonicalize_float_free [of a w]
  by (simp add: json_equal_def canonical_json_def constant_time_equal_def)

lemma compare_valid:
  assumes "compare_responses q c r = Inr v" "vr_status v = ''VALID''"
  shows "ia_input_hash (rs_integrity r) = request_hash q"
    "ia_output_hash (rs_integrity r) = result_hash (rs_result c)"
    "ia_trace_hash (rs_integrity r) = trace_hash_of (rs_trace c)"
    "canonical_json (result_payload (rs_result r)) = canonical_json (result_payload (rs_result c))"
    "canonical_json (trace_payload (rs_trace r)) = canonical_json (trace_payload (rs_trace c))"
  using assms
  by (auto simp: compare_responses_def result_simps Let_def split: if_splits
      dest!: constant_time_equal_Inr json_equal_Inr)

lemma compare_own:
  assumes "rs_result r = rs_result c" "rs_trace r = rs_trace c"
    "ia_input_hash (rs_integrity r) = request_hash q" "ia_output_hash (rs_integrity r) = result_hash (rs_result c)"
    "ia_trace_hash (rs_integrity r) = trace_hash_of (rs_trace c)"
  shows "compare_responses q c r = Inr \<lparr>vr_status = ''VALID'', vr_reason = ''Proof recomputed successfully'',
    vr_input_hash = request_hash q, vr_output_hash = result_hash (rs_result c), vr_trace_hash = trace_hash_of (rs_trace c),
    vr_integrity_hash = sha256_hex (request_hash q @ result_hash (rs_result c) @ trace_hash_of (rs_trace c))\<rparr>"
proof -
  have e: "constant_time_equal (request_hash q) (request_hash q) = Inr True"
    "constant_time_equal (result_hash (rs_result c)) (result_hash (rs_result c)) = Inr True"
    "constant_time_equal (trace_hash_of (rs_trace c)) (trace_hash_of (rs_trace c)) = Inr True"
    by (simp_all add: request_hash_def result_hash_def trace_hash_of_def sha.digest_compare_digest)
  show ?thesis
    using assms e json_equal_refl [OF canonicalize_result] json_equal_refl [OF canonicalize_trace]
    by (simp add: compare_responses_def)
qed

lemma integrity_of_calculation:
  assumes "calculate_import_landed_cost int_of rules h r = Inr resp"
    and "validate_request int_of (request_payload r) = Inr r'"
  shows "rs_integrity resp = integrity_of r' (rs_result resp) (rs_trace resp)"
  using assms by (auto simp: calculate_import_landed_cost_def result_simps Let_def build_integrity)

text \<open>A response that agrees with the recomputed one in everything but its integrity hash is accepted,
  and the result carries the hashes of the recomputation.\<close>

lemma verify_accepts:
  assumes "validate_request int_of rv = Inr q" "wf_pyv rv" "int_of (PInt (quantity q)) = Some (quantity q)"
    and "calculate_import_landed_cost int_of rules h q = Inr resp" "parse v = Inr resp'"
    and "rs_result resp' = rs_result resp" "rs_trace resp' = rs_trace resp"
    and "ia_input_hash (rs_integrity resp') = ia_input_hash (rs_integrity resp)"
    and "ia_output_hash (rs_integrity resp') = ia_output_hash (rs_integrity resp)"
    and "ia_trace_hash (rs_integrity resp') = ia_trace_hash (rs_integrity resp)"
  shows "verify_proof int_of rules h parse rv v = \<lparr>vr_status = ''VALID'', vr_reason = ''Proof recomputed successfully'',
    vr_input_hash = ia_input_hash (rs_integrity resp), vr_output_hash = ia_output_hash (rs_integrity resp),
    vr_trace_hash = ia_trace_hash (rs_integrity resp), vr_integrity_hash = ia_integrity_hash (rs_integrity resp)\<rparr>"
proof -
  have "validate_request int_of (request_payload q) = Inr q"
    using validate_request_valid [OF assms(2,1)] assms(3) by (rule validate_request_payload)
  then have i: "rs_integrity resp = integrity_of q (rs_result resp) (rs_trace resp)"
    using assms(4) integrity_of_calculation by blast
  have "compare_responses q resp resp' = Inr \<lparr>vr_status = ''VALID'', vr_reason = ''Proof recomputed successfully'',
    vr_input_hash = request_hash q, vr_output_hash = result_hash (rs_result resp), vr_trace_hash = trace_hash_of (rs_trace resp),
    vr_integrity_hash = sha256_hex (request_hash q @ result_hash (rs_result resp) @ trace_hash_of (rs_trace resp))\<rparr>"
    using assms i by (intro compare_own) (simp_all add: integrity_of_def)
  then show ?thesis using assms i by (simp add: verify_proof_def verify_body_def integrity_of_def)
qed

lemma verify_sound:
  assumes "vr_status (verify_proof int_of rules h parse rv v) = ''VALID''"
  obtains q resp resp' where "validate_request int_of rv = Inr q"
    "calculate_import_landed_cost int_of rules h q = Inr resp" "parse v = Inr resp'"
    "compare_responses q resp resp' = Inr (verify_proof int_of rules h parse rv v)"
proof -
  define w where "w = verify_proof int_of rules h parse rv v"
  have st: "vr_status w = ''VALID''" using assms by (simp add: w_def)
  have b: "verify_body int_of rules h parse rv v = Inr w"
    using st w_def by (auto simp: verify_proof_def invalid_result_def split: sum.splits)
  obtain q where q: "validate_request int_of rv = Inr q"
    using b st by (auto simp: verify_body_def invalid_result_def split: sum.splits py_error.splits)
  obtain resp where r: "calculate_import_landed_cost int_of rules h q = Inr resp"
    using b q by (auto simp: verify_body_def result_simps)
  obtain resp' where p: "parse v = Inr resp'"
    using b st q r by (auto simp: verify_body_def split: sum.splits py_error.splits)
  show thesis using that [OF q r p] b q r p by (simp add: verify_body_def w_def)
qed

end
