(* ===== verification/Stub_Proofs.thy ===== *)
theory Stub_Proofs
  imports Artifacts Core_Verifier
begin

text \<open>
  The fast-path proof pipeline: \<open>core/zk_interface.py\<close> (the deterministic proof of a witness),
  \<open>zk/circuits/import_landed_cost_stub.py\<close> (the circuit blueprint), \<open>backend/trace_adapter.py\<close>,
  \<open>zk/provers/stub_prover.py\<close>, \<open>zk/verifiers/stub_verifier.py\<close> and \<open>backend/zk_pipeline.py\<close>.
  Bytes are lists of integers.  The values of \<open>public_inputs\<close> are strings in every caller, so
  \<open>str(value)\<close> is the value.
\<close>

subsection \<open>Bytes as hexadecimal text\<close>

definition bytes_hex :: "int list \<Rightarrow> string" where
  "bytes_hex bs = concat (map (hex_text 2) bs)"

text \<open>\<open>bytes.fromhex\<close> skips ASCII white space between bytes.\<close>

definition hex_gap :: "char \<Rightarrow> bool" where
  "hex_gap c \<longleftrightarrow> (let n = (of_char c :: int) in (9 \<le> n \<and> n \<le> 13) \<or> n = 32)"

fun bytes_fromhex :: "string \<Rightarrow> int list result" where
  "bytes_fromhex [] = Inr []"
| "bytes_fromhex (c # s) = (if hex_gap c then bytes_fromhex s else case s of
     [] \<Rightarrow> Inl (ValueError ''fromhex'')
   | d # r \<Rightarrow> (case (hex_value c, hex_value d) of
       (Some a, Some b) \<Rightarrow> rbind (bytes_fromhex r) (\<lambda>bs. Inr ((16 * a + b) # bs))
     | _ \<Rightarrow> Inl (ValueError ''fromhex'')))"

subsection \<open>The deterministic proof of a witness\<close>

record zk_witness =
  zw_public_inputs :: "(string \<times> string) list"
  zw_private_inputs :: "(string \<times> pyv) list"
  zw_trace_steps :: "trace_step list"
  zw_input_hash :: string
  zw_output_hash :: string
  zw_trace_hash :: string

record zk_proof =
  zp_proof_bytes :: "int list"
  zp_public_inputs :: "(string \<times> string) list"
  zp_verification_key_id :: string

definition extract_witness :: "import_request \<Rightarrow> calculation_response \<Rightarrow> zk_witness" where
  "extract_witness request response = \<lparr>
     zw_public_inputs = [(''hs_code'', hs_code request), (''country_of_origin'', country_of_origin request),
       (''shipping_mode'', shipping_mode request),
       (''landed_cost'', py_str (PDec (Fin (cr_landed_cost (rs_result response)))))],
     zw_private_inputs = request_items request, zw_trace_steps = rs_trace response,
     zw_input_hash = ia_input_hash (rs_integrity response), zw_output_hash = ia_output_hash (rs_integrity response),
     zw_trace_hash = ia_trace_hash (rs_integrity response)\<rparr>"

definition zk_witness_items :: "zk_witness \<Rightarrow> (string \<times> pyv) list" where
  "zk_witness_items w = [(''public_inputs'', text_dict (sort_key fst (zw_public_inputs w))),
     (''private_inputs'', PDict (sort_key fst (zw_private_inputs w))),
     (''trace_steps'', trace_payload (zw_trace_steps w)), (''input_hash'', PStr (zw_input_hash w)),
     (''output_hash'', PStr (zw_output_hash w)), (''trace_hash'', PStr (zw_trace_hash w))]"

definition zk_proof_text :: "string \<Rightarrow> string" where
  "zk_proof_text canonical = concat (map (\<lambda>i. sha256_hex (canonical @ '':'' @ int_text i)) [0, 1, 2, 3, 4, 5, 6, 7])"

definition generate_zk_proof :: "zk_witness \<Rightarrow> zk_proof result" where
  "generate_zk_proof w = rbind (canonical_json (PDict (zk_witness_items w))) (\<lambda>canonical.
     rbind (bytes_fromhex (zk_proof_text canonical)) (\<lambda>bytes.
     Inr \<lparr>zp_proof_bytes = bytes, zp_public_inputs = sort_key fst (zw_public_inputs w),
          zp_verification_key_id = sha256_hex (''fast-path-vk:'' @ zw_trace_hash w)\<rparr>))"

definition verify_zk_proof :: "zk_proof \<Rightarrow> zk_witness \<Rightarrow> bool result" where
  "verify_zk_proof p w = (if zp_proof_bytes p = []
     then Inl (ValueError ''verify_zk_proof: proof_bytes is empty - refusing to verify'')
     else rbind (generate_zk_proof w) (\<lambda>recomputed.
       constant_time_equal (bytes_hex (zp_proof_bytes p)) (bytes_hex (zp_proof_bytes recomputed))))"

subsection \<open>The circuit blueprint\<close>

record circuit_blueprint =
  bp_name :: string
  bp_description :: string
  bp_public_inputs :: "string list"
  bp_private_inputs :: "string list"
  bp_recommended_framework :: string
  bp_constraints :: "circuit_constraint list"

definition constraint_spec :: "string \<Rightarrow> string \<Rightarrow> string list \<Rightarrow> string list \<Rightarrow> circuit_constraint" where
  "constraint_spec n p i out = \<lparr>cc_name = n, cc_purpose = p, cc_inputs = i, cc_outputs = out\<rparr>"

definition build_circuit_blueprint :: circuit_blueprint where
  "build_circuit_blueprint = \<lparr>
     bp_name = ''import_landed_cost_stub_v1'',
     bp_description = ''Circuit-oriented decomposition of the deterministic U.S. import landed-cost engine.'',
     bp_public_inputs = [''hs_code'', ''country_of_origin'', ''shipping_mode'', ''landed_cost''],
     bp_private_inputs = [''customs_value'', ''freight'', ''insurance'', ''quantity''],
     bp_recommended_framework = ''Plonk'',
     bp_constraints = [
       constraint_spec ''canonical_input_hash'' ''Bind private request inputs to a deterministic input hash.''
         [''hs_code'', ''country_of_origin'', ''shipping_mode'', ''customs_value'', ''freight'', ''insurance'', ''quantity'']
         [''input_hash''],
       constraint_spec ''tariff_lookup_commitment'' ''Commit to the tariff row and rates used by the calculation.''
         [''hs_code'', ''country_of_origin''] [''duty_rate'', ''section_301_rate''],
       constraint_spec ''extended_value'' ''Compute customs_value * quantity.''
         [''customs_value'', ''quantity''] [''extended_customs_value''],
       constraint_spec ''base_duty'' ''Apply the duty rate to extended customs value.''
         [''extended_customs_value'', ''duty_rate''] [''duty_amount''],
       constraint_spec ''section_301'' ''Apply section 301 surcharge conditionally by origin.''
         [''extended_customs_value'', ''country_of_origin'', ''section_301_rate''] [''section_301_amount''],
       constraint_spec ''mpf_clamp'' ''Apply the minimum/maximum clamped MPF rule.''
         [''extended_customs_value''] [''mpf_amount''],
       constraint_spec ''hmf_rule'' ''Apply HMF only when shipping mode is ocean.''
         [''extended_customs_value'', ''shipping_mode''] [''hmf_amount''],
       constraint_spec ''landed_cost_sum'' ''Aggregate all cost components into the final landed cost.''
         [''extended_customs_value'', ''freight'', ''insurance'', ''duty_amount'', ''section_301_amount'', ''mpf_amount'', ''hmf_amount'']
         [''landed_cost'']]\<rparr>"

definition build_default_circuit_artifact :: "string \<Rightarrow> int \<Rightarrow> circuit_artifact result" where
  "build_default_circuit_artifact producer cyc = (let b = build_circuit_blueprint in
     build_circuit_artifact (bp_name b) (bp_description b) (bp_recommended_framework b) (bp_public_inputs b)
       (bp_private_inputs b) (map constraint_payload (bp_constraints b)) producer cyc
       (max 32 (int (length (bp_constraints b)) * 4)))"

subsection \<open>Prover\<close>

definition serialize_public_inputs :: "(string \<times> string) list \<Rightarrow> string list" where
  "serialize_public_inputs public = map (\<lambda>kv. fst kv @ ''='' @ snd kv) (sort_key fst public)"

definition commitment_source :: "string \<Rightarrow> string \<Rightarrow> string \<Rightarrow> pyv" where
  "commitment_source kind ident h =
     PDict [(''kind'', PStr kind), (''artifact_id'', PStr ident), (''content_hash'', PStr h)]"

definition commit :: "string \<Rightarrow> artifact \<Rightarrow> string result" where
  "commit kind a = rbind (content_hash a) (\<lambda>h.
     rbind (canonical_json (commitment_source kind (artifact_id (head_of a)) h)) (\<lambda>s. Inr (sha256_hex s)))"

definition deterministic_commitments ::
  "circuit_artifact \<Rightarrow> trace_artifact \<Rightarrow> witness_artifact \<Rightarrow> string list result" where
  "deterministic_commitments c t w =
     rbind (commit ''circuit'' (ACircuit c)) (\<lambda>x. rbind (commit ''trace'' (ATrace t)) (\<lambda>y.
     rbind (commit ''witness'' (AWitness w)) (\<lambda>z. Inr [x, y, z])))"

definition to_zk_witness :: "trace_artifact \<Rightarrow> witness_artifact \<Rightarrow> zk_witness" where
  "to_zk_witness t w = \<lparr>zw_public_inputs = wa_public_inputs w, zw_private_inputs = wa_private_inputs w,
     zw_trace_steps = ta_steps t, zw_input_hash = wa_input_hash w, zw_output_hash = wa_output_hash w,
     zw_trace_hash = wa_trace_hash w\<rparr>"

definition prove_artifacts ::
  "circuit_artifact \<Rightarrow> trace_artifact \<Rightarrow> witness_artifact \<Rightarrow> string \<Rightarrow> int \<Rightarrow> proof_artifact result" where
  "prove_artifacts c t w producer cyc =
     rbind (generate_zk_proof (to_zk_witness t w)) (\<lambda>zp.
     rbind (deterministic_commitments c t w) (\<lambda>cs.
     build_proof_artifact ''sha256-structured-stub'' (artifact_id c) (artifact_id w) cs
       (serialize_public_inputs (wa_public_inputs w))
       [(''verification_key_id'', zp_verification_key_id zp), (''backend'', ''sha256-deterministic-proof-stub''),
        (''compatibility'', ''plonk,groth16,stark''), (''trace_artifact_id'', artifact_id t)]
       (bytes_hex (zp_proof_bytes zp)) (wa_input_hash w) (wa_output_hash w) (wa_trace_hash w)
       (bytes_hex (zp_proof_bytes zp)) producer cyc))"

subsection \<open>Verifier\<close>

definition check :: "bool \<Rightarrow> string \<Rightarrow> string \<Rightarrow> string" where
  "check ok yes no = (if ok then yes else no)"

definition verify_artifacts ::
  "circuit_artifact \<Rightarrow> trace_artifact \<Rightarrow> witness_artifact \<Rightarrow> proof_artifact \<Rightarrow> string \<Rightarrow> int
    \<Rightarrow> verdict_artifact result" where
  "verify_artifacts c t w p producer cyc =
     (let vk = dict_get (pa_metadata p) ''verification_key_id'' [] in
     rbind (bytes_fromhex (pa_final_proof p)) (\<lambda>bytes.
     rbind (verify_zk_proof \<lparr>zp_proof_bytes = bytes, zp_public_inputs = wa_public_inputs w,
       zp_verification_key_id = vk\<rparr> (to_zk_witness t w)) (\<lambda>c1.
     let c2 = (pa_proof_blob_hex p = pa_final_proof p) in
     rbind (deterministic_commitments c t w) (\<lambda>expected.
     let c3 = (pa_commitments p = expected);
         c4 = (pa_public_inputs p = serialize_public_inputs (wa_public_inputs w));
         c5 = (pa_circuit_artifact_id p = artifact_id c \<and> pa_witness_artifact_id p = artifact_id w);
         valid = (c1 \<and> c2 \<and> c3 \<and> c4 \<and> c5) in
     build_verification_artifact (artifact_id p) ''sha256-structured-stub-verifier''
       (if valid then ''VALID'' else ''INVALID'')
       (if valid then ''all structured proof checks passed'' else ''structured proof verification failed'')
       [check c1 ''final_proof_matches_trace_hashes'' ''final_proof_mismatch'',
        check c2 ''proof_blob_matches_stub_backend'' ''proof_blob_mismatch'',
        check c3 ''commitments_match_artifact_hashes'' ''commitments_mismatch'',
        check c4 ''public_inputs_match_witness'' ''public_inputs_mismatch'',
        check c5 ''proof_bindings_match_dependency_artifacts'' ''proof_bindings_mismatch'']
       [(''proof_system'', pa_proof_system p), (''verification_key_id'', vk), (''trace_artifact_id'', artifact_id t)]
       producer cyc))))"

subsection \<open>From a request to a verified bundle\<close>

record trace_packet =
  tp_request :: import_request
  tp_response :: calculation_response
  tp_witness :: zk_witness
  tp_trace_artifact :: trace_artifact
  tp_witness_artifact :: witness_artifact

definition build_trace_packet ::
  "(pyv \<Rightarrow> int option) \<Rightarrow> tariff_rule list \<Rightarrow> string \<Rightarrow> pyv \<Rightarrow> string \<Rightarrow> int \<Rightarrow> trace_packet result" where
  "build_trace_packet int_of rules ds_hash request_v producer cyc =
     rbind (validate_request int_of request_v) (\<lambda>request.
     rbind (calculate_import_landed_cost int_of rules ds_hash request) (\<lambda>response.
     let wit = extract_witness request response; ia = rs_integrity response in
     rbind (build_trace_artifact (ia_input_hash ia) (rs_trace response) producer cyc) (\<lambda>t.
     rbind (build_witness_artifact (artifact_id t) (ia_input_hash ia) (ia_output_hash ia) (ta_trace_hash t)
       (sort_key fst (zw_public_inputs wit)) (request_items request) producer cyc) (\<lambda>w.
     if ia_trace_hash ia \<noteq> ta_trace_hash t
     then Inl (RuntimeError ''Trace artifact hash diverged from deterministic engine proof trace hash'')
     else if ia_input_hash ia \<noteq> wa_input_hash w \<or> ia_output_hash ia \<noteq> wa_output_hash w
     then Inl (RuntimeError ''Witness artifact hashes diverged from deterministic engine proof hashes'')
     else Inr \<lparr>tp_request = request, tp_response = response, tp_witness = wit, tp_trace_artifact = t,
       tp_witness_artifact = w\<rparr>))))"

definition prove_request ::
  "(pyv \<Rightarrow> int option) \<Rightarrow> tariff_rule list \<Rightarrow> string \<Rightarrow> pyv \<Rightarrow> circuit_artifact option \<Rightarrow> string \<Rightarrow> int
    \<Rightarrow> proof_artifact result" where
  "prove_request int_of rules ds_hash request_v circ producer cyc =
     rbind (build_trace_packet int_of rules ds_hash request_v ''backend_integration'' cyc) (\<lambda>packet.
     rbind (case circ of Some c \<Rightarrow> Inr c | None \<Rightarrow> build_default_circuit_artifact ''circuit_engineer'' cyc) (\<lambda>c.
     prove_artifacts c (tp_trace_artifact packet) (tp_witness_artifact packet) producer cyc))"

definition verify_request ::
  "(pyv \<Rightarrow> int option) \<Rightarrow> tariff_rule list \<Rightarrow> string \<Rightarrow> pyv \<Rightarrow> string option \<Rightarrow> bool result" where
  "verify_request int_of rules ds_hash request_v expected_hex =
     rbind (build_trace_packet int_of rules ds_hash request_v ''backend_integration'' 1) (\<lambda>packet.
     rbind (build_default_circuit_artifact ''circuit_engineer'' 1) (\<lambda>c.
     rbind (prove_artifacts c (tp_trace_artifact packet) (tp_witness_artifact packet) ''performance_optimization'' 1) (\<lambda>p.
     case expected_hex of
       Some h \<Rightarrow> if h \<noteq> pa_proof_blob_hex p then Inr False else
         rbind (verify_artifacts c (tp_trace_artifact packet) (tp_witness_artifact packet) p ''verifier_agent'' 1)
           (\<lambda>v. Inr (va_status v = ''VALID''))
     | None \<Rightarrow> rbind (verify_artifacts c (tp_trace_artifact packet) (tp_witness_artifact packet) p ''verifier_agent'' 1)
           (\<lambda>v. Inr (va_status v = ''VALID'')))))"

record pipeline_bundle =
  zb_circuit :: circuit_artifact
  zb_trace :: trace_artifact
  zb_witness :: witness_artifact
  zb_proof :: proof_artifact
  zb_verification_result :: verdict_artifact

definition zb_verified :: "pipeline_bundle \<Rightarrow> bool" where
  "zb_verified b \<longleftrightarrow> va_status (zb_verification_result b) = ''VALID''"

definition build_stub_pipeline_bundle ::
  "(pyv \<Rightarrow> int option) \<Rightarrow> tariff_rule list \<Rightarrow> string \<Rightarrow> pyv \<Rightarrow> int \<Rightarrow> pipeline_bundle result" where
  "build_stub_pipeline_bundle int_of rules ds_hash request_v cyc =
     rbind (build_default_circuit_artifact ''circuit_engineer'' cyc) (\<lambda>c.
     rbind (build_trace_packet int_of rules ds_hash request_v ''backend_integration'' cyc) (\<lambda>packet.
     rbind (prove_artifacts c (tp_trace_artifact packet) (tp_witness_artifact packet) ''performance_optimization'' cyc) (\<lambda>p.
     rbind (verify_artifacts c (tp_trace_artifact packet) (tp_witness_artifact packet) p ''verifier_agent'' cyc) (\<lambda>v.
       Inr \<lparr>zb_circuit = c, zb_trace = tp_trace_artifact packet, zb_witness = tp_witness_artifact packet,
            zb_proof = p, zb_verification_result = v\<rparr>))))"

subsection \<open>Hexadecimal bytes\<close>

lemma lower_hex_gap: "is_lower_hex c \<Longrightarrow> \<not> hex_gap c"
  by (auto simp: is_lower_hex_def hex_gap_def)

lemma lower_hex_digit: "is_lower_hex c \<Longrightarrow> hex_value c = Some v \<Longrightarrow> hex_digit v = c"
  by (auto simp: is_lower_hex_def hex_value_def hex_digit_def)

lemma hex_value_bound: "hex_value c = Some v \<Longrightarrow> 0 \<le> v \<and> v < 16"
  by (auto simp: hex_value_def Let_def split: if_splits)

lemma hex_text_2: "hex_text 2 n = [hex_digit (n div 16 mod 16), hex_digit (n mod 16)]"
  by (simp add: numeral_2_eq_2)

lemma hex_pair:
  assumes "is_lower_hex c" "is_lower_hex d" "hex_value c = Some a" "hex_value d = Some b"
  shows "hex_text 2 (16 * a + b) = [c, d]"
proof -
  have "0 \<le> a" "a < 16" "0 \<le> b" "b < 16" using assms(3,4) hex_value_bound by blast+
  then have "(16 * a + b) div 16 mod 16 = a" "(16 * a + b) mod 16 = b" by simp_all
  then show ?thesis
    by (simp add: hex_text_2 lower_hex_digit [OF assms(1,3)] lower_hex_digit [OF assms(2,4)])
qed

lemma bytes_fromhex_lower:
  "all_lower_hex s \<Longrightarrow> even (length s) \<Longrightarrow> \<exists>bs. bytes_fromhex s = Inr bs \<and> bytes_hex bs = s \<and> (s \<noteq> [] \<longrightarrow> bs \<noteq> [])"
proof (induction s rule: bytes_fromhex.induct)
  case (2 c s)
  from 2 obtain d r where s: "s = d # r" by (cases s) auto
  have l: "is_lower_hex c" "is_lower_hex d" "all_lower_hex r"
    using "2.prems"(1) s by (simp_all add: all_lower_hex_def)
  obtain a where a: "hex_value c = Some a" using l(1) by (rule lower_hex_cases)
  obtain b where b: "hex_value d = Some b" using l(2) by (rule lower_hex_cases)
  have "\<exists>bs. bytes_fromhex r = Inr bs \<and> bytes_hex bs = r"
    using "2.IH"(2) [OF lower_hex_gap [OF l(1)] s] a b l(3) "2.prems"(2) s by auto
  then show ?case
    using hex_pair [OF l(1,2) a b] lower_hex_gap [OF l(1)] a b s by (auto simp: bytes_hex_def)
qed (simp add: bytes_hex_def)

lemma bytes_fromhex_range: "bytes_fromhex s = Inr bs \<Longrightarrow> list_all (\<lambda>b. 0 \<le> b \<and> b < 256) bs"
proof (induction s arbitrary: bs rule: bytes_fromhex.induct)
  case (2 c s)
  then show ?case
    by (fastforce split: if_splits list.splits option.splits simp: result_simps dest: hex_value_bound)
qed simp

lemma all_lower_hex_append [simp]: "all_lower_hex (s @ t) \<longleftrightarrow> all_lower_hex s \<and> all_lower_hex t"
  by (simp add: all_lower_hex_def)

lemma proof_text_hex: "all_lower_hex (zk_proof_text s)" "length (zk_proof_text s) = 512"
  by (simp_all add: zk_proof_text_def sha.digest_hex)

lemma is_ascii_bytes_hex: "is_ascii (bytes_hex bs)"
  using is_ascii_hex_text by (auto simp: bytes_hex_def is_ascii_concat)

subsection \<open>The deterministic proof\<close>

definition zk_text :: "zk_witness \<Rightarrow> string" where
  "zk_text w = zk_proof_text (canonical_text (PDict (zk_witness_items w)))"

lemma zk_items_float: "has_float (PDict (zk_witness_items w)) \<longleftrightarrow> has_float (PDict (zw_private_inputs w))"
  by (simp add: zk_witness_items_def text_dict_def list_ex_iff)

lemma generate_zk_proof_ok:
  assumes "\<not> has_float (PDict (zw_private_inputs w))"
  obtains bs where "generate_zk_proof w = Inr \<lparr>zp_proof_bytes = bs,
      zp_public_inputs = sort_key fst (zw_public_inputs w),
      zp_verification_key_id = sha256_hex (''fast-path-vk:'' @ zw_trace_hash w)\<rparr>"
    "bytes_hex bs = zk_text w" "bytes_fromhex (zk_text w) = Inr bs" "bs \<noteq> []"
proof -
  let ?t = "canonical_text (PDict (zk_witness_items w))"
  obtain bs where "bytes_fromhex (zk_proof_text ?t) = Inr bs" "bytes_hex bs = zk_proof_text ?t" "bs \<noteq> []"
  proof -
    have "even (length (zk_proof_text ?t))" "zk_proof_text ?t \<noteq> []" using proof_text_hex(2) [of ?t] by auto
    then show thesis using bytes_fromhex_lower [OF proof_text_hex(1) [of ?t]] that by blast
  qed
  moreover have "canonical_json (PDict (zk_witness_items w)) = Inr ?t"
    by (rule canonical_json_text) (use assms zk_items_float in simp)
  ultimately show thesis using that by (simp add: generate_zk_proof_def zk_text_def)
qed

lemma generate_zk_proof_float: "has_float (PDict (zw_private_inputs w)) \<Longrightarrow> generate_zk_proof w = Inl TypeError"
  unfolding generate_zk_proof_def by (subst canonical_json_float) (simp_all only: zk_items_float rbind_simps)

subsection \<open>Commitments\<close>

lemma dump_float:
  "\<not> has_float (model_dump (ACircuit c))" "\<not> has_float (model_dump (ATrace t))"
  "\<not> has_float (model_dump (AProof p))" "\<not> has_float (model_dump (AVerdict v))"
  "has_float (model_dump (AWitness w)) \<longleftrightarrow> has_float (PDict (wa_private_inputs w))"
  using items_float
  by (auto simp: head_items_def constraint_payload_def list_ex_iff)

definition commit_text :: "string \<Rightarrow> artifact \<Rightarrow> string" where
  "commit_text kind a = canonical_text (commitment_source kind (artifact_id (head_of a))
     (sha256_hex (canonical_text (model_dump a))))"

lemma content_hash_ok: "\<not> has_float (model_dump a) \<Longrightarrow> content_hash a = Inr (sha256_hex (canonical_text (model_dump a)))"
  by (simp add: content_hash_def canonical_payload_def canonical_json_text)

lemma commit_ok: "\<not> has_float (model_dump a) \<Longrightarrow> commit kind a = Inr (sha256_hex (commit_text kind a))"
  by (simp add: commit_def content_hash_ok commit_text_def canonical_json_text commitment_source_def)

definition commitments_of :: "circuit_artifact \<Rightarrow> trace_artifact \<Rightarrow> witness_artifact \<Rightarrow> string list" where
  "commitments_of c t w = [sha256_hex (commit_text ''circuit'' (ACircuit c)), sha256_hex (commit_text ''trace'' (ATrace t)),
     sha256_hex (commit_text ''witness'' (AWitness w))]"

definition witness_ok :: "witness_artifact \<Rightarrow> bool" where
  "witness_ok w \<longleftrightarrow> \<not> has_float (PDict (wa_private_inputs w))"

lemma commitments_ok: "witness_ok w \<Longrightarrow> deterministic_commitments c t w = Inr (commitments_of c t w)"
  unfolding deterministic_commitments_def commitments_of_def witness_ok_def
  by (simp only: commit_ok dump_float rbind_simps simp_thms)

text \<open>What two artifacts with the same commitment have in common.\<close>

definition same_payload :: "string \<Rightarrow> artifact \<Rightarrow> artifact \<Rightarrow> bool" where
  "same_payload kind a b \<longleftrightarrow> canonical_text (model_dump a) = canonical_text (model_dump b)
     \<or> collision (canonical_text (model_dump a)) (canonical_text (model_dump b))
     \<or> collision (commit_text kind a) (commit_text kind b)"

lemma canonical_text_inj:
  assumes "wf_pyv v" "wf_pyv w" "\<not> has_float v" "\<not> has_float w" "canonical_text v = canonical_text w"
  shows "canonicalize v = canonicalize w"
  using canonical_json_iff [OF assms(1,2) canonical_json_text [OF assms(3)]] canonical_json_text [OF assms(4)] assms(5)
  by simp

lemma commitment_source_inj:
  "canonical_text (commitment_source k i h) = canonical_text (commitment_source k' i' h') \<Longrightarrow> h = h'"
  by (drule canonical_text_inj [rotated 4]) (simp_all add: commitment_source_def)

lemma same_commitment:
  "sha256_hex (commit_text kind a) = sha256_hex (commit_text kind b) \<Longrightarrow> same_payload kind a b"
  unfolding same_digest [of "commit_text kind a"] same_payload_def
  by (metis commit_text_def commitment_source_inj same_digest)

subsection \<open>The prover\<close>

definition vk_of :: "witness_artifact \<Rightarrow> string" where
  "vk_of w = sha256_hex (''fast-path-vk:'' @ wa_trace_hash w)"

definition stub_proof :: "circuit_artifact \<Rightarrow> trace_artifact \<Rightarrow> witness_artifact \<Rightarrow> string \<Rightarrow> int \<Rightarrow> proof_artifact" where
  "stub_proof c t w producer cyc = proof_of ''sha256-structured-stub'' (artifact_id c) (artifact_id w) (commitments_of c t w)
     (serialize_public_inputs (wa_public_inputs w))
     [(''verification_key_id'', vk_of w), (''backend'', ''sha256-deterministic-proof-stub''),
      (''compatibility'', ''plonk,groth16,stark''), (''trace_artifact_id'', artifact_id t)]
     (zk_text (to_zk_witness t w)) (wa_input_hash w) (wa_output_hash w) (wa_trace_hash w)
     (zk_text (to_zk_witness t w)) producer cyc"

lemma witness_ok_generates:
  assumes "witness_ok w"
  obtains bs where "generate_zk_proof (to_zk_witness t w) = Inr \<lparr>zp_proof_bytes = bs,
      zp_public_inputs = sort_key fst (wa_public_inputs w), zp_verification_key_id = vk_of w\<rparr>"
    "bytes_hex bs = zk_text (to_zk_witness t w)" "bytes_fromhex (zk_text (to_zk_witness t w)) = Inr bs" "bs \<noteq> []"
proof -
  have "\<not> has_float (PDict (zw_private_inputs (to_zk_witness t w)))"
    using assms by (simp add: witness_ok_def to_zk_witness_def)
  moreover have "zw_public_inputs (to_zk_witness t w) = wa_public_inputs w"
    "zw_trace_hash (to_zk_witness t w) = wa_trace_hash w" by (simp_all add: to_zk_witness_def)
  ultimately show thesis
    using that generate_zk_proof_ok [of "to_zk_witness t w" thesis] unfolding vk_of_def by metis
qed

lemma prove_artifacts_ok:
  assumes "witness_ok w" shows "prove_artifacts c t w producer cyc = Inr (stub_proof c t w producer cyc)"
proof -
  obtain bs where "generate_zk_proof (to_zk_witness t w) = Inr \<lparr>zp_proof_bytes = bs,
      zp_public_inputs = sort_key fst (wa_public_inputs w), zp_verification_key_id = vk_of w\<rparr>"
    "bytes_hex bs = zk_text (to_zk_witness t w)" using witness_ok_generates [OF assms] by blast
  then show ?thesis
    by (simp add: prove_artifacts_def commitments_ok [OF assms] build_proof_artifact_total stub_proof_def)
qed

lemma prove_artifacts_float: "\<not> witness_ok w \<Longrightarrow> prove_artifacts c t w producer cyc = Inl TypeError"
  using generate_zk_proof_float [of "to_zk_witness t w"]
  by (simp add: prove_artifacts_def witness_ok_def to_zk_witness_def)

subsection \<open>The verifier\<close>

definition stub_checks ::
  "circuit_artifact \<Rightarrow> trace_artifact \<Rightarrow> witness_artifact \<Rightarrow> proof_artifact \<Rightarrow> int list \<Rightarrow> bool list" where
  "stub_checks c t w p bs = [bytes_hex bs = zk_text (to_zk_witness t w), pa_proof_blob_hex p = pa_final_proof p,
     pa_commitments p = commitments_of c t w, pa_public_inputs p = serialize_public_inputs (wa_public_inputs w),
     pa_circuit_artifact_id p = artifact_id c \<and> pa_witness_artifact_id p = artifact_id w]"

lemma verify_artifacts_decides:
  assumes "witness_ok w" "bytes_fromhex (pa_final_proof p) = Inr bs" "bs \<noteq> []"
  obtains v where "verify_artifacts c t w p producer cyc = Inr v"
    "va_status v = (if list_all id (stub_checks c t w p bs) then ''VALID'' else ''INVALID'')"
    "va_subject_artifact_id v = artifact_id p"
proof -
  obtain ws where g: "generate_zk_proof (to_zk_witness t w) = Inr \<lparr>zp_proof_bytes = ws,
      zp_public_inputs = sort_key fst (wa_public_inputs w), zp_verification_key_id = vk_of w\<rparr>"
    "bytes_hex ws = zk_text (to_zk_witness t w)" using witness_ok_generates [OF assms(1)] by blast
  have "verify_zk_proof \<lparr>zp_proof_bytes = bs, zp_public_inputs = wa_public_inputs w,
      zp_verification_key_id = vk\<rparr> (to_zk_witness t w) = Inr (bytes_hex bs = zk_text (to_zk_witness t w))" for vk
    using assms(3) g by (simp add: verify_zk_proof_def constant_time_equal_def is_ascii_bytes_hex flip: g(2))
  then show thesis
    using that
    by (simp add: verify_artifacts_def assms(2) commitments_ok [OF assms(1)] build_verification_artifact_total
        Let_def stub_checks_def verdict_of_def)
qed

lemma verify_artifacts_empty:
  "bytes_fromhex (pa_final_proof p) = Inr [] \<Longrightarrow> verify_artifacts c t w p producer cyc
     = Inl (ValueError ''verify_zk_proof: proof_bytes is empty - refusing to verify'')"
  by (simp add: verify_artifacts_def verify_zk_proof_def Let_def)

lemma verify_artifacts_not_hex:
  "bytes_fromhex (pa_final_proof p) = Inl e \<Longrightarrow> verify_artifacts c t w p producer cyc = Inl e"
  by (simp add: verify_artifacts_def Let_def)

lemma verify_artifacts_valid:
  assumes "verify_artifacts c t w p producer cyc = Inr v" "va_status v = ''VALID''" "witness_ok w"
  shows "pa_commitments p = commitments_of c t w \<and> pa_circuit_artifact_id p = artifact_id c
    \<and> pa_witness_artifact_id p = artifact_id w \<and> pa_public_inputs p = serialize_public_inputs (wa_public_inputs w)"
proof -
  obtain bs where bs: "bytes_fromhex (pa_final_proof p) = Inr bs"
    using assms(1) verify_artifacts_not_hex [of p] by (cases "bytes_fromhex (pa_final_proof p)") auto
  have "bs \<noteq> []" using assms(1) verify_artifacts_empty [of p] bs by auto
  then obtain v' where v': "verify_artifacts c t w p producer cyc = Inr v'"
    "va_status v' = (if list_all id (stub_checks c t w p bs) then ''VALID'' else ''INVALID'')"
    using verify_artifacts_decides [OF assms(3) bs] by blast
  then have "list_all id (stub_checks c t w p bs)" using assms(1,2) by (auto split: if_splits)
  then show ?thesis by (simp add: stub_checks_def)
qed

lemma verify_own_proof:
  assumes "witness_ok w"
  obtains v where "verify_artifacts c t w (stub_proof c t w producer cyc) producer' cyc' = Inr v" "va_status v = ''VALID''"
proof -
  let ?p = "stub_proof c t w producer cyc"
  obtain bs where "bytes_hex bs = zk_text (to_zk_witness t w)" "bytes_fromhex (zk_text (to_zk_witness t w)) = Inr bs" "bs \<noteq> []"
    using witness_ok_generates [OF assms] by blast
  then have "bytes_fromhex (pa_final_proof ?p) = Inr bs" "list_all id (stub_checks c t w ?p bs)" "bs \<noteq> []"
    by (simp_all add: stub_proof_def proof_of_def stub_checks_def Let_def)
  then obtain v where "verify_artifacts c t w ?p producer' cyc' = Inr v"
    "va_status v = (if list_all id (stub_checks c t w ?p bs) then ''VALID'' else ''INVALID'')"
    using verify_artifacts_decides [OF assms] by blast
  with \<open>list_all id (stub_checks c t w ?p bs)\<close> show thesis using that by simp
qed

subsection \<open>The whole pipeline\<close>

lemma request_items_float: "\<not> has_float (PDict (request_items r))"
  by (simp add: request_items_def)

definition packet_of :: "import_request \<Rightarrow> calculation_response \<Rightarrow> string \<Rightarrow> int \<Rightarrow> trace_packet" where
  "packet_of q resp producer cyc =
    (let wit = extract_witness q resp; ia = rs_integrity resp;
         t = trace_of (ia_input_hash ia) (rs_trace resp) producer cyc in
     \<lparr>tp_request = q, tp_response = resp, tp_witness = wit, tp_trace_artifact = t,
      tp_witness_artifact = witness_of (artifact_id t) (ia_input_hash ia) (ia_output_hash ia) (ia_trace_hash ia)
        (sort_key fst (zw_public_inputs wit)) (request_items q) producer cyc\<rparr>)"

lemma build_trace_packet_ok:
  assumes "validate_request int_of rv = Inr q" "wf_pyv rv" "int_of (PInt (quantity q)) = Some (quantity q)"
    and "calculate_import_landed_cost int_of rules h q = Inr resp"
  shows "build_trace_packet int_of rules h rv producer cyc = Inr (packet_of q resp producer cyc)"
    and "rs_integrity resp = integrity_of q (rs_result resp) (rs_trace resp)"
proof -
  have "validate_request int_of (request_payload q) = Inr q"
    using validate_request_valid [OF assms(2,1)] assms(3) by (rule validate_request_payload)
  then show i: "rs_integrity resp = integrity_of q (rs_result resp) (rs_trace resp)"
    using assms(4) integrity_of_calculation by blast
  show "build_trace_packet int_of rules h rv producer cyc = Inr (packet_of q resp producer cyc)"
    using i request_items_float [of q]
    by (simp add: build_trace_packet_def assms packet_of_def build_trace_artifact_total build_witness_artifact_ok
        Let_def trace_of_def witness_of_def integrity_of_def)
qed

lemma default_circuit:
  obtains c where "build_default_circuit_artifact producer cyc = Inr c" "length (ca_constraints c) = 8"
    "ca_complexity_budget c = 32" "produced_by c = producer" "cycle c = cyc"
proof -
  let ?b = build_circuit_blueprint
  obtain ident where "build_circuit_artifact (bp_name ?b) (bp_description ?b) (bp_recommended_framework ?b)
      (bp_public_inputs ?b) (bp_private_inputs ?b) (map constraint_payload (bp_constraints ?b)) producer cyc
      (max 32 (int (length (bp_constraints ?b)) * 4))
    = Inr \<lparr>artifact_id = ''circuit_'' @ ident, produced_by = producer, cycle = cyc, ca_name = bp_name ?b,
     ca_description = bp_description ?b, ca_framework = bp_recommended_framework ?b,
     ca_public_inputs = bp_public_inputs ?b, ca_private_inputs = bp_private_inputs ?b,
     ca_constraints = bp_constraints ?b, ca_constraint_count = int (length (bp_constraints ?b)),
     ca_complexity_budget = max 32 (int (length (bp_constraints ?b)) * 4)\<rparr>"
    using build_circuit_artifact_ok by blast
  moreover have "length (bp_constraints ?b) = 8" by (simp add: build_circuit_blueprint_def)
  ultimately show thesis using that by (simp add: build_default_circuit_artifact_def Let_def)
qed

lemma packet_witness_ok: "witness_ok (tp_witness_artifact (packet_of q resp producer cyc))"
  using request_items_float [of q] by (simp add: packet_of_def witness_of_def witness_ok_def Let_def)

lemma pipeline_ok:
  assumes "validate_request int_of rv = Inr q" "wf_pyv rv" "int_of (PInt (quantity q)) = Some (quantity q)"
    and "calculate_import_landed_cost int_of rules h q = Inr resp"
  obtains b where "build_stub_pipeline_bundle int_of rules h rv cyc = Inr b" "zb_verified b"
    "zb_trace b = tp_trace_artifact (packet_of q resp ''backend_integration'' cyc)"
    "zb_witness b = tp_witness_artifact (packet_of q resp ''backend_integration'' cyc)"
    "zb_proof b = stub_proof (zb_circuit b) (zb_trace b) (zb_witness b) ''performance_optimization'' cyc"
proof -
  let ?k = "packet_of q resp ''backend_integration'' cyc"
  obtain c where c: "build_default_circuit_artifact ''circuit_engineer'' cyc = Inr c" by (rule default_circuit)
  note w = packet_witness_ok [of q resp "''backend_integration''" cyc]
  obtain v where "verify_artifacts c (tp_trace_artifact ?k) (tp_witness_artifact ?k)
      (stub_proof c (tp_trace_artifact ?k) (tp_witness_artifact ?k) ''performance_optimization'' cyc) ''verifier_agent'' cyc
      = Inr v" "va_status v = ''VALID''"
    by (rule verify_own_proof [OF w])
  then show thesis
    using that by (simp add: build_stub_pipeline_bundle_def c build_trace_packet_ok(1) [OF assms]
        prove_artifacts_ok [OF w] zb_verified_def)
qed

end
