(* ===== verification/Binary64.thy ===== *)
theory Binary64
  imports Complex_Main
begin

text \<open>
  Python's \<open>float\<close> on the numbers the program computes with: a double is the rational number it
  stands for, every operation is the exact one followed by \<open>fl\<close>, the rounding to 53 bits (to the
  nearest, ties to even).  Overflow, subnormal numbers, infinities and NaN do not occur for the
  durations and scores the program keeps.  \<open>round_to x k\<close> is Python's \<open>round(x, k)\<close>: the nearest
  multiple of \<open>10 ^ (- k)\<close>, ties to even, as a double.
\<close>

definition two_pow :: "int \<Rightarrow> rat" where
  "two_pow e = (if 0 \<le> e then 2 ^ nat e else 1 / 2 ^ nat (- e))"

definition round_even :: "rat \<Rightarrow> int" where
  "round_even x = (let f = \<lfloor>x\<rfloor>; d = x - of_int f in
     if d < 1 / 2 then f else if d > 1 / 2 then f + 1 else if even f then f else f + 1)"

text \<open>\<open>log2 n\<close>: the greatest \<open>k\<close> with \<open>2 ^ k \<le> n\<close>.\<close>

fun log2 :: "int \<Rightarrow> int" where
  "log2 n = (if n \<le> 1 then 0 else 1 + log2 (n div 2))"

declare log2.simps [simp del]

text \<open>The exponent of the last place of a positive number.\<close>

definition last_place :: "rat \<Rightarrow> int" where
  "last_place x = (let (n, d) = quotient_of x; e = log2 n - log2 d in
     if x < two_pow e then e - 53 else e - 52)"

definition fl :: "rat \<Rightarrow> rat" where
  "fl x = (if x = 0 then 0 else let u = two_pow (last_place \<bar>x\<bar>) in
     sgn x * (of_int (round_even (\<bar>x\<bar> / u)) * u))"

definition round_to :: "rat \<Rightarrow> nat \<Rightarrow> rat" where
  "round_to x k = fl (of_int (round_even (x * 10 ^ k)) / 10 ^ k)"

subsection \<open>The rounding error\<close>

lemma round_even_error: "\<bar>of_int (round_even x) - x\<bar> \<le> 1 / 2"
proof -
  define d where "d = x - of_int \<lfloor>x\<rfloor>"
  have "0 \<le> d" "d < 1" by (simp_all add: d_def) linarith
  moreover have "of_int (round_even x) - x = (if d < 1 / 2 then - d else if d > 1 / 2 then 1 - d
      else if even \<lfloor>x\<rfloor> then - d else 1 - d)"
    by (simp add: round_even_def Let_def d_def)
  ultimately show ?thesis by (auto simp: abs_if)
qed

lemma round_even_mono: "x \<le> y \<Longrightarrow> round_even x \<le> round_even y"
proof -
  assume h: "x \<le> y"
  show ?thesis
  proof (cases "\<lfloor>x\<rfloor> = \<lfloor>y\<rfloor>")
    case True
    then show ?thesis using h by (auto simp: round_even_def Let_def)
  next
    case False
    then have "\<lfloor>x\<rfloor> + 1 \<le> \<lfloor>y\<rfloor>" using floor_mono [OF h] by linarith
    then show ?thesis by (auto simp: round_even_def Let_def)
  qed
qed

lemma round_even_int [simp]: "round_even (of_int n) = n"
  by (simp add: round_even_def)

lemma log2_bounds: "1 \<le> n \<Longrightarrow> 0 \<le> log2 n \<and> 2 ^ nat (log2 n) \<le> n \<and> n < 2 * 2 ^ nat (log2 n)"
proof (induction n rule: log2.induct)
  case (1 n)
  show ?case
  proof (cases "n \<le> 1")
    case True
    then show ?thesis using 1 by (simp add: log2.simps)
  next
    case False
    let ?k = "log2 (n div 2)"
    have ih: "0 \<le> ?k" "2 ^ nat ?k \<le> n div 2" "n div 2 < 2 * 2 ^ nat ?k" using 1 False by simp_all
    have "nat (1 + ?k) = Suc (nat ?k)" using ih(1) by simp
    then have "2 ^ nat (log2 n) = 2 * (2 ^ nat ?k :: int)" using False by (subst log2.simps) simp
    moreover have "0 \<le> log2 n" using ih(1) False by (subst log2.simps) simp
    ultimately show ?thesis using ih by linarith
  qed
qed

lemma two_pow_pos [simp]: "0 < two_pow e"
  by (simp add: two_pow_def)

lemma two_pow_power: "0 \<le> e \<Longrightarrow> two_pow e = 2 ^ nat e"
  by (simp add: two_pow_def)

lemma two_pow_int: "two_pow e = power_int 2 e"
  by (auto simp: two_pow_def power_int_def inverse_eq_divide power_one_over)

lemma two_pow_add: "two_pow (a + b) = two_pow a * two_pow b"
  by (simp add: two_pow_int power_int_add)

lemma last_place_le:
  assumes "0 < x" shows "two_pow (last_place x) * 2 ^ 52 \<le> x"
proof -
  obtain n d where q: "quotient_of x = (n, d)" by (cases "quotient_of x")
  have d: "0 < d" using quotient_of_denom_pos [OF q] .
  have x: "x = of_int n / of_int d" using quotient_of_div [OF q] .
  have n: "0 < n" using assms d x by (simp add: zero_less_divide_iff)
  let ?e = "log2 n - log2 d"
  have ln: "0 \<le> log2 n" "2 ^ nat (log2 n) \<le> n" and ld: "0 \<le> log2 d" "d < 2 * 2 ^ nat (log2 d)"
    using log2_bounds [of n] log2_bounds [of d] n d by simp_all
  have "two_pow (log2 n) \<le> of_int n"
  proof -
    have "(of_int (2 ^ nat (log2 n)) :: rat) \<le> of_int n" using ln(2) by (simp only: of_int_le_iff)
    then show ?thesis using ln(1) by (simp add: two_pow_power)
  qed
  moreover have "of_int d \<le> two_pow (log2 d + 1)"
  proof -
    have "(of_int d :: rat) \<le> of_int (2 * 2 ^ nat (log2 d))" using ld by (simp only: of_int_le_iff)
    also have "\<dots> = two_pow (log2 d + 1)" using ld(1) by (simp add: two_pow_power nat_add_distrib)
    finally show ?thesis .
  qed
  ultimately have low: "two_pow (?e - 1) \<le> x"
  proof -
    assume a: "two_pow (log2 n) \<le> of_int n" and b: "of_int d \<le> two_pow (log2 d + 1)"
    have "two_pow (?e - 1) * of_int d \<le> two_pow (?e - 1) * two_pow (log2 d + 1)"
      using b by (intro mult_left_mono) (auto simp: less_imp_le)
    also have "\<dots> = two_pow (log2 n)" by (simp flip: two_pow_add)
    also have "\<dots> \<le> of_int n" by (rule a)
    finally show ?thesis using d x by (simp add: pos_le_divide_eq)
  qed
  have "two_pow (k - 52) * 2 ^ 52 = two_pow k" for k
  proof -
    have "two_pow (k - 52) * two_pow 52 = two_pow k" by (simp flip: two_pow_add)
    then show ?thesis by (simp add: two_pow_def [of 52])
  qed
  from this [of ?e] this [of "?e - 1"] low show ?thesis
    by (auto simp: last_place_def q Let_def)
qed

lemma fl_error: "\<bar>fl x - x\<bar> * 2 ^ 53 \<le> \<bar>x\<bar>"
proof (cases "x = 0")
  case True
  then show ?thesis by (simp add: fl_def)
next
  case False
  let ?u = "two_pow (last_place \<bar>x\<bar>)"
  have u: "0 < ?u" by simp
  then have "of_int (round_even (\<bar>x\<bar> / ?u)) * ?u - \<bar>x\<bar> = (of_int (round_even (\<bar>x\<bar> / ?u)) - \<bar>x\<bar> / ?u) * ?u"
    by (simp add: left_diff_distrib less_imp_neq [symmetric])
  then have "\<bar>of_int (round_even (\<bar>x\<bar> / ?u)) * ?u - \<bar>x\<bar>\<bar> = \<bar>of_int (round_even (\<bar>x\<bar> / ?u)) - \<bar>x\<bar> / ?u\<bar> * ?u"
    using u by (simp add: abs_mult less_imp_le)
  also have "\<dots> \<le> 1 / 2 * ?u" by (intro mult_right_mono round_even_error less_imp_le) simp
  finally have e: "\<bar>of_int (round_even (\<bar>x\<bar> / ?u)) * ?u - \<bar>x\<bar>\<bar> \<le> ?u / 2" by simp
  have "fl x - x = sgn x * (of_int (round_even (\<bar>x\<bar> / ?u)) * ?u - \<bar>x\<bar>)"
    using False by (simp add: fl_def Let_def right_diff_distrib mult_sgn_abs)
  then have "\<bar>fl x - x\<bar> \<le> ?u / 2" using e False by (simp add: abs_mult)
  moreover have "?u * 2 ^ 52 \<le> \<bar>x\<bar>" using False by (intro last_place_le) simp
  ultimately show ?thesis by simp
qed

text \<open>Rounding a number of at most two digits before the point loses less than a billionth of a billionth.\<close>

lemma fl_bounds: "\<bar>x\<bar> \<le> 2 \<Longrightarrow> \<bar>fl x - x\<bar> \<le> 1 / 10 ^ 15"
  using fl_error [of x] by simp

lemma fl_close:
  assumes "\<bar>x\<bar> \<le> 2" shows "x - 1 / 10 ^ 15 \<le> fl x" "fl x \<le> x + 1 / 10 ^ 15"
  using abs_le_D1 [OF fl_bounds [OF assms]] abs_le_D2 [OF fl_bounds [OF assms]] by linarith+

lemma fl_nonneg: "0 \<le> x \<Longrightarrow> 0 \<le> fl x"
  using abs_le_D2 [of "fl x - x" "x / 2 ^ 53"] fl_error [of x] by (simp add: pos_le_divide_eq)

lemma fl_ge: "0 \<le> x \<Longrightarrow> x * (1 - 1 / 2 ^ 53) \<le> fl x"
  using abs_le_D2 [of "fl x - x" "x / 2 ^ 53"] fl_error [of x] by (simp add: pos_le_divide_eq algebra_simps)

lemma round_to_bounds:
  assumes "- 1 \<le> k" "k \<le> 20000" "of_int k - 2 / 5 \<le> x * 10000" "x * 10000 \<le> of_int m + 2 / 5" "- 1 \<le> m" "m \<le> 20000"
  shows "of_int k / 10000 - 1 / 10 ^ 15 \<le> round_to x 4" "round_to x 4 \<le> of_int m / 10000 + 1 / 10 ^ 15"
proof -
  have r: "round_even (of_int n - 2 / 5) = n" "round_even (of_int n + 2 / 5) = n" for n
  proof -
    have "\<lfloor>of_int n - 2 / 5 :: rat\<rfloor> = n - 1" "\<lfloor>of_int n + 2 / 5 :: rat\<rfloor> = n" by (simp_all add: floor_eq_iff)
    then show "round_even (of_int n - 2 / 5) = n" "round_even (of_int n + 2 / 5) = n"
      by (simp_all add: round_even_def)
  qed
  have lo: "k \<le> round_even (x * 10000)" using round_even_mono [OF assms(3)] by (simp add: r)
  have hi: "round_even (x * 10000) \<le> m" using round_even_mono [OF assms(4)] by (simp add: r)
  let ?y = "of_int (round_even (x * 10000)) / 10000 :: rat"
  have y: "of_int k / 10000 \<le> ?y" "?y \<le> of_int m / 10000" using lo hi by (simp_all add: divide_right_mono)
  have y2: "\<bar>?y\<bar> \<le> 2"
  proof -
    have "- 1 \<le> round_even (x * 10000)" "round_even (x * 10000) \<le> 20000" using lo hi assms by simp_all
    then have "of_int (- 1) \<le> (of_int (round_even (x * 10000)) :: rat)"
      "(of_int (round_even (x * 10000)) :: rat) \<le> of_int 20000"
      by (simp_all only: of_int_le_iff)
    then show ?thesis by (simp add: abs_le_iff)
  qed
  have "fl ?y - ?y \<le> 1 / 10 ^ 15" "?y - fl ?y \<le> 1 / 10 ^ 15"
    using abs_le_D1 [OF fl_bounds [OF y2]] abs_le_D2 [OF fl_bounds [OF y2]] by (simp_all only: minus_diff_eq)
  moreover have "round_to x 4 = fl ?y" by (simp add: round_to_def)
  ultimately show "of_int k / 10000 - 1 / 10 ^ 15 \<le> round_to x 4" "round_to x 4 \<le> of_int m / 10000 + 1 / 10 ^ 15"
    using y by linarith+
qed

end
