(* ===== verification/Artifact_Graph.thy ===== *)
theory Artifact_Graph
  imports Artifacts "HOL-Library.Product_Lexorder"
begin

text \<open>
  \<open>coordinator/artifact_graph.py\<close>: the graph of artifacts that a coordinator cycle fills.  The
  dictionary of artifacts is its list of items in insertion order; the two indices are functions,
  since the code only looks keys up.  \<open>add_artifact\<close> returns its result together with the graph it
  leaves behind, because the code changes the graph before it checks the parents.  An artifact type
  is given by its value: \<open>ArtifactType\<close> is a subclass of \<open>str\<close>.
\<close>

subsection \<open>State\<close>

record artifact_edge =
  parent_artifact_id :: string
  child_artifact_id :: string
  relationship :: string

definition edge_dict :: "artifact_edge \<Rightarrow> pyv" where
  "edge_dict e = PDict [(''parent_artifact_id'', PStr (parent_artifact_id e)),
     (''child_artifact_id'', PStr (child_artifact_id e)), (''relationship'', PStr (relationship e))]"

record artifact_graph =
  ag_artifacts :: "(string \<times> artifact) list"
  ag_edges :: "artifact_edge list"
  ag_by_type :: "artifact_type \<Rightarrow> string list"
  ag_by_producer :: "string \<Rightarrow> string list"

definition empty_graph :: artifact_graph where
  "empty_graph = \<lparr>ag_artifacts = [], ag_edges = [], ag_by_type = (\<lambda>_. []), ag_by_producer = (\<lambda>_. [])\<rparr>"

subsection \<open>Adding an artifact\<close>

definition edge_key :: "artifact_edge \<Rightarrow> string \<times> string \<times> string" where
  "edge_key e = (parent_artifact_id e, child_artifact_id e, relationship e)"

definition insert_artifact :: "artifact_graph \<Rightarrow> artifact \<Rightarrow> artifact_graph" where
  "insert_artifact g a = (let i = artifact_id (head_of a); t = artifact_type_of a; p = produced_by (head_of a) in
     g\<lparr>ag_artifacts := ag_artifacts g @ [(i, a)],
       ag_by_type := (ag_by_type g)(t := ag_by_type g t @ [i]),
       ag_by_producer := (ag_by_producer g)(p := ag_by_producer g p @ [i])\<rparr>)"

text \<open>The loop over the sorted parents stops at the first unknown one, with the edges so far added.\<close>

fun link_parents :: "artifact_graph \<Rightarrow> string \<Rightarrow> string list \<Rightarrow> unit result \<times> artifact_graph" where
  "link_parents g child [] = (Inr (), g)"
| "link_parents g child (p # ps) =
     (if p \<notin> set (map fst (ag_artifacts g)) then (Inl (KeyError (''Unknown parent artifact '' @ p)), g)
      else link_parents (g\<lparr>ag_edges := ag_edges g @
        [\<lparr>parent_artifact_id = p, child_artifact_id = child, relationship = ''depends_on''\<rparr>]\<rparr>) child ps)"

definition add_artifact :: "artifact_graph \<Rightarrow> artifact \<Rightarrow> string list \<Rightarrow> artifact result \<times> artifact_graph" where
  "add_artifact g a depends_on =
     (case map_of (ag_artifacts g) (artifact_id (head_of a)) of
        Some existing \<Rightarrow>
          (rbind (content_hash existing) (\<lambda>h. rbind (content_hash a) (\<lambda>h'.
             if h \<noteq> h' then Inl (ValueError (''Artifact collision detected for '' @ artifact_id (head_of a)))
             else Inr existing)), g)
      | None \<Rightarrow>
          (case link_parents (insert_artifact g a) (artifact_id (head_of a)) (remdups (sort depends_on)) of
             (Inl e, g') \<Rightarrow> (Inl e, g')
           | (Inr _, g') \<Rightarrow> (Inr a, g'\<lparr>ag_edges := sort_key edge_key (ag_edges g')\<rparr>)))"

subsection \<open>Queries\<close>

definition get_artifact :: "artifact_graph \<Rightarrow> string \<Rightarrow> artifact result" where
  "get_artifact g i = (case map_of (ag_artifacts g) i of
     Some a \<Rightarrow> Inr a | None \<Rightarrow> Inl (KeyError (''Artifact not found: '' @ i)))"

text \<open>\<open>ArtifactType(str(kind))\<close>.\<close>

definition parse_type :: "string \<Rightarrow> artifact_type result" where
  "parse_type kind = (case find (\<lambda>t. type_value t = kind) artifact_types of
     Some t \<Rightarrow> Inr t | None \<Rightarrow> Inl (ValueError (kind @ '' is not a valid ArtifactType'')))"

definition lookup_all :: "artifact_graph \<Rightarrow> string list \<Rightarrow> artifact list result" where
  "lookup_all g ids = rmap (\<lambda>i. case map_of (ag_artifacts g) i of Some a \<Rightarrow> Inr a | None \<Rightarrow> Inl (KeyError i)) ids"

definition artifacts_by_type :: "artifact_graph \<Rightarrow> string \<Rightarrow> artifact list result" where
  "artifacts_by_type g kind = rbind (parse_type kind) (\<lambda>t. lookup_all g (ag_by_type g t))"

definition cycle_key :: "artifact \<Rightarrow> int \<times> string" where
  "cycle_key a = (cycle (head_of a), artifact_id (head_of a))"

definition keep_if :: "'a option \<Rightarrow> ('a \<Rightarrow> 'b \<Rightarrow> bool) \<Rightarrow> 'b list \<Rightarrow> 'b list" where
  "keep_if c p xs = (case c of None \<Rightarrow> xs | Some v \<Rightarrow> filter (p v) xs)"

definition artifacts_by_producer ::
  "artifact_graph \<Rightarrow> string \<Rightarrow> string option \<Rightarrow> int option \<Rightarrow> artifact list result" where
  "artifacts_by_producer g producer kind cyc =
     rbind (lookup_all g (ag_by_producer g producer)) (\<lambda>as.
     rbind (case kind of None \<Rightarrow> Inr as
            | Some k \<Rightarrow> rbind (parse_type k) (\<lambda>t. Inr (filter (\<lambda>a. artifact_type_of a = t) as))) (\<lambda>bs.
     Inr (sort_key cycle_key (keep_if cyc (\<lambda>n a. cycle (head_of a) = n) bs))))"

definition latest :: "artifact_graph \<Rightarrow> string \<Rightarrow> string option \<Rightarrow> int option \<Rightarrow> artifact result" where
  "latest g kind producer cyc = rbind (artifacts_by_type g kind) (\<lambda>as.
     let candidates = keep_if cyc (\<lambda>n a. cycle (head_of a) = n) (keep_if producer (\<lambda>p a. produced_by (head_of a) = p) as)
     in if candidates = [] then Inl (KeyError (''No artifact available for type='' @ kind))
        else Inr (last (sort_key cycle_key candidates)))"

definition require ::
  "artifact_graph \<Rightarrow> string \<Rightarrow> string option \<Rightarrow> int option \<Rightarrow> string option \<Rightarrow> artifact result" where
  "require g kind producer cyc ident = (case ident of
     Some i \<Rightarrow> rbind (get_artifact g i) (\<lambda>a. rbind (parse_type kind) (\<lambda>t.
       if artifact_type_of a \<noteq> t then Inl TypeError else Inr a))
   | None \<Rightarrow> latest g kind producer cyc)"

definition dependencies_for :: "artifact_graph \<Rightarrow> string \<Rightarrow> string list" where
  "dependencies_for g i = sort (map parent_artifact_id (filter (\<lambda>e. child_artifact_id e = i) (ag_edges g)))"

definition dependents_for :: "artifact_graph \<Rightarrow> string \<Rightarrow> string list" where
  "dependents_for g i = sort (map child_artifact_id (filter (\<lambda>e. parent_artifact_id e = i) (ag_edges g)))"

definition node_count :: "artifact_graph \<Rightarrow> int" where "node_count g = int (length (ag_artifacts g))"
definition edge_count :: "artifact_graph \<Rightarrow> int" where "edge_count g = int (length (ag_edges g))"

definition graph_dict :: "artifact_graph \<Rightarrow> pyv result" where
  "graph_dict g = rbind (rmap (\<lambda>a. rbind (content_hash a) (\<lambda>h. Inr (PDict
       [(''artifact_id'', PStr (artifact_id (head_of a))), (''artifact_type'', PStr (type_value (artifact_type_of a))),
        (''produced_by'', PStr (produced_by (head_of a))), (''cycle'', PInt (cycle (head_of a))),
        (''content_hash'', PStr h), (''payload'', model_dump a)])))
       (sort_key (\<lambda>a. artifact_id (head_of a)) (map snd (ag_artifacts g)))) (\<lambda>nodes.
     Inr (PDict [(''nodes'', PList nodes), (''edges'', PList (map edge_dict (ag_edges g))),
       (''node_count'', PInt (int (length nodes))), (''edge_count'', PInt (edge_count g))]))"

subsection \<open>Well-formed graphs\<close>

definition ids :: "artifact_graph \<Rightarrow> string list" where
  "ids g = map fst (ag_artifacts g)"

text \<open>\<open>p\<close> was added before \<open>c\<close>.\<close>

definition older :: "'a list \<Rightarrow> 'a \<Rightarrow> 'a \<Rightarrow> bool" where
  "older xs p c \<longleftrightarrow> c \<in> set xs \<and> p \<in> set (takeWhile (\<lambda>x. x \<noteq> c) xs)"

definition edge_ok :: "artifact_graph \<Rightarrow> artifact_edge \<Rightarrow> bool" where
  "edge_ok g e \<longleftrightarrow> (let p = parent_artifact_id e; c = child_artifact_id e in
     (older (ids g) p c \<or> p = c \<and> c \<in> set (ids g)) \<and> relationship e = ''depends_on'')"

definition graph_ok :: "artifact_graph \<Rightarrow> bool" where
  "graph_ok g \<longleftrightarrow> distinct (ids g)
     \<and> (\<forall>(i, a) \<in> set (ag_artifacts g). artifact_id (head_of a) = i)
     \<and> (\<forall>t. ag_by_type g t = map fst (filter (\<lambda>(i, a). artifact_type_of a = t) (ag_artifacts g)))
     \<and> (\<forall>p. ag_by_producer g p = map fst (filter (\<lambda>(i, a). produced_by (head_of a) = p) (ag_artifacts g)))
     \<and> (\<forall>e \<in> set (ag_edges g). edge_ok g e)"

lemma empty_graph_ok: "graph_ok empty_graph"
  by (simp add: graph_ok_def empty_graph_def ids_def)

lemma older_append: "older xs p c \<Longrightarrow> older (xs @ ys) p c"
  by (auto simp: older_def takeWhile_append1)

lemma older_last: "p \<in> set xs \<Longrightarrow> c \<notin> set xs \<Longrightarrow> older (xs @ [c]) p c"
  by (induction xs) (auto simp: older_def)

lemma older_length: "older xs p c \<Longrightarrow> length (takeWhile (\<lambda>x. x \<noteq> p) xs) < length (takeWhile (\<lambda>x. x \<noteq> c) xs)"
  unfolding older_def by (induction xs) (auto split: if_splits)

lemma older_irrefl: "\<not> older xs c c"
  using older_length [of xs c c] by auto

subsection \<open>Adding keeps a graph well formed\<close>

lemma ids_insert [simp]: "ids (insert_artifact g a) = ids g @ [artifact_id (head_of a)]"
  by (simp add: ids_def insert_artifact_def Let_def)

lemma edges_insert [simp]: "ag_edges (insert_artifact g a) = ag_edges g"
  by (simp add: insert_artifact_def Let_def)

lemma edge_ok_cong: "ids g = ids h \<Longrightarrow> edge_ok g e = edge_ok h e"
  by (simp add: edge_ok_def Let_def)

lemma edge_ok_insert: "edge_ok g e \<Longrightarrow> edge_ok (insert_artifact g a) e"
  by (auto simp: edge_ok_def Let_def older_append)

lemma insert_artifact_ok:
  "graph_ok g \<Longrightarrow> artifact_id (head_of a) \<notin> set (ids g) \<Longrightarrow> graph_ok (insert_artifact g a)"
  using edge_ok_insert [of g _ a]
  unfolding graph_ok_def by (auto simp: insert_artifact_def Let_def ids_def)

text \<open>What the loop over the parents leaves behind: only edges are added, all of them from known
  artifacts, and all parents have one exactly if it succeeds.\<close>

definition parent_edge :: "string \<Rightarrow> string \<Rightarrow> artifact_edge" where
  "parent_edge child p = \<lparr>parent_artifact_id = p, child_artifact_id = child, relationship = ''depends_on''\<rparr>"

definition known_parents :: "artifact_graph \<Rightarrow> string list \<Rightarrow> string list" where
  "known_parents g ps = takeWhile (\<lambda>p. p \<in> set (ids g)) ps"

lemma link_parents_result:
  "link_parents g child ps =
     (case find (\<lambda>p. p \<notin> set (ids g)) ps of
        None \<Rightarrow> Inr () | Some p \<Rightarrow> Inl (KeyError (''Unknown parent artifact '' @ p)),
      g\<lparr>ag_edges := ag_edges g @ map (parent_edge child) (known_parents g ps)\<rparr>)"
  by (induction g child ps rule: link_parents.induct)
    (auto simp: ids_def known_parents_def parent_edge_def)

lemma edges_update_ok:
  assumes "graph_ok g" "\<And>e. e \<in> set es \<Longrightarrow> edge_ok g e"
  shows "graph_ok (g\<lparr>ag_edges := es\<rparr>)"
  using assms edge_ok_cong [of "g\<lparr>ag_edges := es\<rparr>" g] by (simp add: graph_ok_def ids_def)

lemma parent_edge_ok: "graph_ok g \<Longrightarrow> c \<notin> set (ids g) \<Longrightarrow> p \<in> set (ids (insert_artifact g a))
    \<Longrightarrow> artifact_id (head_of a) = c \<Longrightarrow> edge_ok (insert_artifact g a) (parent_edge c p)"
  by (auto simp: edge_ok_def parent_edge_def Let_def intro: older_last)

lemma link_parents_ok:
  assumes "graph_ok g" "artifact_id (head_of a) \<notin> set (ids g)"
  shows "graph_ok (snd (link_parents (insert_artifact g a) (artifact_id (head_of a)) ps))"
proof -
  let ?h = "insert_artifact g a" and ?c = "artifact_id (head_of a)"
  have k: "p \<in> set (known_parents ?h ps) \<Longrightarrow> p \<in> set (ids ?h)" for p
    unfolding known_parents_def by (drule set_takeWhileD) simp
  have e: "edge_ok ?h e" if "e \<in> set (ag_edges ?h @ map (parent_edge ?c) (known_parents ?h ps))" for e
    using that assms k parent_edge_ok [OF assms, of _ a]
    by (auto simp: graph_ok_def edge_ok_insert)
  have "graph_ok (?h\<lparr>ag_edges := ag_edges ?h @ map (parent_edge ?c) (known_parents ?h ps)\<rparr>)"
    by (rule edges_update_ok [OF insert_artifact_ok [OF assms]]) (rule e)
  then show ?thesis by (simp add: link_parents_result)
qed

lemma map_of_ids: "map_of (ag_artifacts g) i = None \<longleftrightarrow> i \<notin> set (ids g)"
  by (simp add: ids_def map_of_eq_None_iff)

lemma sort_edges_ok: "graph_ok g \<Longrightarrow> graph_ok (g\<lparr>ag_edges := sort_key edge_key (ag_edges g)\<rparr>)"
  by (rule edges_update_ok) (simp_all add: graph_ok_def)

lemma add_artifact_ok: "graph_ok g \<Longrightarrow> graph_ok (snd (add_artifact g a ds))"
  using link_parents_ok [of g a "remdups (sort ds)"] sort_edges_ok
  by (auto simp: add_artifact_def map_of_ids split: option.splits sum.splits prod.splits)

subsection \<open>Dependencies have no cycles\<close>

definition depends :: "artifact_graph \<Rightarrow> (string \<times> string) set" where
  "depends g = {(parent_artifact_id e, child_artifact_id e) | e.
     e \<in> set (ag_edges g) \<and> parent_artifact_id e \<noteq> child_artifact_id e}"

lemma depends_older: "graph_ok g \<Longrightarrow> (p, c) \<in> depends g \<Longrightarrow> older (ids g) p c"
  by (auto simp: graph_ok_def depends_def edge_ok_def Let_def)

lemma depends_acyclic: "graph_ok g \<Longrightarrow> acyclic (depends g)"
proof -
  assume ok: "graph_ok g"
  have "depends g \<subseteq> measure (\<lambda>c. length (takeWhile (\<lambda>x. x \<noteq> c) (ids g)))"
    using depends_older [OF ok] older_length by fastforce
  then show ?thesis using wf_acyclic wf_measure wf_subset by blast
qed

text \<open>The graphs a program can build, whatever the calls returned.\<close>

inductive built_graph :: "artifact_graph \<Rightarrow> bool" where
  start: "built_graph empty_graph"
| add: "built_graph g \<Longrightarrow> built_graph (snd (add_artifact g a ds))"

inductive_cases built_graph_cases: "built_graph g"

lemma built_graph_ok: "built_graph g \<Longrightarrow> graph_ok g"
  by (induction rule: built_graph.induct) (auto intro: empty_graph_ok add_artifact_ok)

subsection \<open>Lookups\<close>

lemma graph_lookup: "graph_ok g \<Longrightarrow> (i, a) \<in> set (ag_artifacts g) \<Longrightarrow> map_of (ag_artifacts g) i = Some a"
  by (simp add: graph_ok_def ids_def)

lemma lookup_all_filter:
  assumes "graph_ok g"
  shows "lookup_all g (map fst (filter (\<lambda>(i, a). P a) (ag_artifacts g)))
    = Inr (filter P (map snd (ag_artifacts g)))"
proof -
  let ?f = "\<lambda>i. case map_of (ag_artifacts g) i of Some a \<Rightarrow> Inr a | None \<Rightarrow> Inl (KeyError i)"
  have "rmap ?f (map fst xs) = Inr (map snd xs)" if "set xs \<subseteq> set (ag_artifacts g)" for xs
    using that by (induction xs) (auto simp: graph_lookup [OF assms])
  then have "lookup_all g (map fst (filter (\<lambda>(i, a). P a) (ag_artifacts g)))
      = Inr (map snd (filter (\<lambda>(i, a). P a) (ag_artifacts g)))"
    by (simp add: lookup_all_def)
  moreover have "map snd (filter (\<lambda>(i, a). P a) xs) = filter P (map snd xs)" for xs :: "(string \<times> artifact) list"
    by (induction xs) auto
  ultimately show ?thesis by simp
qed

lemma parse_type_value [simp]: "parse_type (type_value t) = Inr t"
  by (cases t) (simp_all add: parse_type_def artifact_types_def)

lemma artifacts_by_type_ok:
  "graph_ok g \<Longrightarrow> artifacts_by_type g (type_value t) = Inr (filter (\<lambda>a. artifact_type_of a = t) (map snd (ag_artifacts g)))"
  by (simp add: artifacts_by_type_def graph_ok_def lookup_all_filter [of g "\<lambda>a. artifact_type_of a = t", unfolded graph_ok_def])

lemma last_sort_key_max:
  assumes "xs \<noteq> []"
  shows "last (sort_key f xs) \<in> set xs" "x \<in> set xs \<Longrightarrow> f x \<le> f (last (sort_key f xs))"
proof -
  have ne: "sort_key f xs \<noteq> []" using assms by (metis length_sort length_0_conv)
  show "last (sort_key f xs) \<in> set xs" using last_in_set [OF ne] by simp
  obtain ys z where yz: "sort_key f xs = ys @ [z]" using ne by (metis append_butlast_last_id)
  have "sorted (map f (ys @ [z]))" using sorted_sort_key [of f xs] yz by simp
  moreover have "x \<in> set (ys @ [z])" if "x \<in> set xs" using that yz by (metis set_sort)
  ultimately show "x \<in> set xs \<Longrightarrow> f x \<le> f (last (sort_key f xs))"
    using yz by (auto simp: sorted_append)
qed

text \<open>\<open>latest\<close> finds the artifact with the greatest cycle among the matching ones.\<close>

definition matches :: "artifact_type \<Rightarrow> string option \<Rightarrow> int option \<Rightarrow> artifact \<Rightarrow> bool" where
  "matches t producer cyc a \<longleftrightarrow> artifact_type_of a = t \<and> (\<forall>p. producer = Some p \<longrightarrow> produced_by (head_of a) = p)
     \<and> (\<forall>n. cyc = Some n \<longrightarrow> cycle (head_of a) = n)"

lemma keep_if_filter: "keep_if c p xs = filter (\<lambda>x. \<forall>v. c = Some v \<longrightarrow> p v x) xs"
  by (cases c) (simp_all add: keep_if_def)

lemma latest_candidates:
  "graph_ok g \<Longrightarrow> latest g (type_value t) producer cyc =
    (let cs = filter (matches t producer cyc) (map snd (ag_artifacts g)) in
     if cs = [] then Inl (KeyError (''No artifact available for type='' @ type_value t)) else Inr (last (sort_key cycle_key cs)))"
  by (simp add: latest_def artifacts_by_type_ok keep_if_filter matches_def [abs_def] conj_ac Let_def)

subsection \<open>Properties\<close>

definition sample_circuit :: circuit_artifact where
  "sample_circuit = \<lparr>artifact_id = ''circuit_1'', produced_by = ''a'', cycle = 1, ca_name = ''n'', ca_description = [],
     ca_framework = ''Plonk'', ca_public_inputs = [], ca_private_inputs = [], ca_constraints = [],
     ca_constraint_count = 0, ca_complexity_budget = 1\<rparr>"

definition other_circuit :: circuit_artifact where
  "other_circuit = sample_circuit\<lparr>artifact_id := ''circuit_2''\<rparr>"

definition sample_graph :: artifact_graph where
  "sample_graph = snd (add_artifact (snd (add_artifact empty_graph (ACircuit sample_circuit) []))
     (ACircuit other_circuit) [''circuit_1''])"

lemma sample_graph_built: "built_graph sample_graph"
  unfolding sample_graph_def by (intro built_graph.intros)

lemma sample_graph_edges: "map edge_key (ag_edges sample_graph) = [(''circuit_1'', ''circuit_2'', ''depends_on'')]"
  by code_simp

text \<open>Whatever calls built it, failed ones included, the artifact graph has no dependency cycle between different
  artifacts, and every edge leads from an artifact to one that was added later (or to itself).\<close>

theorem graph_has_no_cycle:
  assumes "built_graph g"
  shows "acyclic (depends g) \<and> list_all (\<lambda>e. older (ids g) (parent_artifact_id e) (child_artifact_id e)
    \<or> parent_artifact_id e = child_artifact_id e) (ag_edges g)"
  using built_graph_ok [OF assms] depends_acyclic by (auto simp: graph_ok_def edge_ok_def list_all_iff Let_def)

theorem graph_has_no_cycle_witness:
  "acyclic (depends sample_graph) \<and> map edge_key (ag_edges sample_graph) = [(''circuit_1'', ''circuit_2'', ''depends_on'')]"
  using graph_has_no_cycle [OF sample_graph_built] sample_graph_edges by blast

text \<open>The index by type is exact: \<open>artifacts_by_type\<close> returns, in the order of their addition, exactly the stored
  artifacts of the type, each under its own id, and \<open>latest\<close> returns one of them with the greatest cycle.\<close>

theorem graph_index_exact:
  assumes "built_graph g"
  shows "artifacts_by_type g (type_value t) = Inr (filter (\<lambda>a. artifact_type_of a = t) (map snd (ag_artifacts g)))
    \<and> list_all (\<lambda>(i, a). get_artifact g i = Inr a \<and> artifact_id (head_of a) = i) (ag_artifacts g)
    \<and> (latest g (type_value t) None None = Inr a \<longrightarrow> artifact_type_of a = t
        \<and> list_all (\<lambda>b. artifact_type_of b \<noteq> t \<or> cycle (head_of b) \<le> cycle (head_of a)) (map snd (ag_artifacts g)))"
proof (intro conjI impI)
  note ok = built_graph_ok [OF assms]
  show "artifacts_by_type g (type_value t) = Inr (filter (\<lambda>a. artifact_type_of a = t) (map snd (ag_artifacts g)))"
    by (rule artifacts_by_type_ok [OF ok])
  show "list_all (\<lambda>(i, a). get_artifact g i = Inr a \<and> artifact_id (head_of a) = i) (ag_artifacts g)"
    using ok graph_lookup [OF ok] by (auto simp: get_artifact_def list_all_iff graph_ok_def)
  assume l: "latest g (type_value t) None None = Inr a"
  let ?cs = "filter (matches t None None) (map snd (ag_artifacts g))"
  have a: "a = last (sort_key cycle_key ?cs)" "?cs \<noteq> []"
    using l by (auto simp: latest_candidates [OF ok] Let_def split: if_splits)
  note last = last_sort_key_max [where f = cycle_key, OF a(2), folded a(1)]
  show "artifact_type_of a = t" using last(1) by (simp add: matches_def)
  show "list_all (\<lambda>b. artifact_type_of b \<noteq> t \<or> cycle (head_of b) \<le> cycle (head_of a)) (map snd (ag_artifacts g))"
    using last(2) by (fastforce simp: list_all_iff matches_def cycle_key_def less_eq_prod_def)
qed

theorem graph_index_exact_witness:
  "artifacts_by_type sample_graph ''circuit'' = Inr (map snd (ag_artifacts sample_graph)) \<and> node_count sample_graph = 2"
proof -
  have "filter (\<lambda>a. artifact_type_of a = CircuitType) (map snd (ag_artifacts sample_graph)) = map snd (ag_artifacts sample_graph)"
    "node_count sample_graph = 2"
    by code_simp+
  then show ?thesis using graph_index_exact [OF sample_graph_built, of CircuitType "ACircuit sample_circuit"] by simp
qed

text \<open>A failed \<open>add_artifact\<close> is not undone: after the KeyError for an unknown parent the artifact is in the graph, and
  a second call with the missing parents present returns it without adding any edge.\<close>

theorem failed_add_leaves_artifact:
  assumes "artifact_id (head_of a) \<notin> set (ids g)" "p \<in> set ds" "p \<notin> set (ids g)" "p \<noteq> artifact_id (head_of a)"
    and "content_hash a = Inr h"
  shows "(\<exists>e. fst (add_artifact g a ds) = Inl (KeyError e))
    \<and> get_artifact (snd (add_artifact g a ds)) (artifact_id (head_of a)) = Inr a
    \<and> add_artifact (snd (add_artifact g a ds)) a ds' = (Inr a, snd (add_artifact g a ds))"
proof -
  let ?i = "artifact_id (head_of a)" and ?h = "insert_artifact g a"
  have "find (\<lambda>p. p \<notin> set (ids ?h)) (remdups (sort ds)) \<noteq> None"
    using assms(2-4) by (auto simp: find_None_iff)
  then obtain q where q: "find (\<lambda>p. p \<notin> set (ids ?h)) (remdups (sort ds)) = Some q" by blast
  then have add: "add_artifact g a ds = (Inl (KeyError (''Unknown parent artifact '' @ q)),
      ?h\<lparr>ag_edges := ag_edges ?h @ map (parent_edge ?i) (known_parents ?h (remdups (sort ds)))\<rparr>)"
    using assms(1) by (simp add: add_artifact_def map_of_ids [THEN iffD2] link_parents_result)
  have "map_of (ag_artifacts g) ?i = None" using assms(1) by (simp add: map_of_ids)
  then have "map_of (ag_artifacts (snd (add_artifact g a ds))) ?i = Some a"
    unfolding add by (simp add: insert_artifact_def Let_def map_of_append map_add_Some_iff)
  then show ?thesis unfolding add by (simp add: get_artifact_def add_artifact_def assms(5))
qed

theorem failed_add_leaves_artifact_witness:
  "\<exists>g h. content_hash (ACircuit sample_circuit) = Inr h \<and> get_artifact g ''circuit_1'' = Inr (ACircuit sample_circuit)
     \<and> add_artifact g (ACircuit sample_circuit) [] = (Inr (ACircuit sample_circuit), g)"
proof -
  obtain h where h: "content_hash (ACircuit sample_circuit) = Inr h"
    by (simp add: content_hash_def canonical_payload_def canonical_json_def sample_circuit_def head_items_def constraint_payload_def)
  have i: "artifact_id (head_of (ACircuit sample_circuit)) = ''circuit_1''" by code_simp
  show ?thesis
    using failed_add_leaves_artifact [of "ACircuit sample_circuit" empty_graph "''proof_1''" "[''proof_1'']" h "[]"] h
    unfolding i by (simp add: empty_graph_def ids_def) blast
qed

end
