(* ===== verification/Shared_Memory.thy ===== *)
theory Shared_Memory
  imports Complex_Main Canonical "HOL-Library.Product_Lexorder"
begin

text \<open>
  \<open>memory/shared_memory.py\<close>: what the agents have learned.  The state is the four lists that the
  JSON files hold; loading and saving them is file access and is not modelled.  Every operation
  that reads the clock takes the readings as arguments: \<open>now\<close> in seconds and \<open>now_ms\<close>, the
  \<open>int(time.time() * 1000)\<close> of an entry id.  A float that is only compared is a rational number.
\<close>

subsection \<open>Entries\<close>

record strategy_entry =
  se_entry_id :: string
  se_domain :: string
  se_outcome :: string
  se_pattern :: string
  se_detail :: string
  se_cycle :: int
  se_agent_id :: string
  se_timestamp :: rat
  se_tags :: "string list"

record circuit_entry =
  ce_entry_id :: string
  ce_circuit_name :: string
  ce_constraint_count :: int
  ce_proving_system :: string
  ce_proving_time_ms :: rat
  ce_description :: string
  ce_code_snippet :: string
  ce_cycle :: int
  ce_timestamp :: rat

record vulnerability_entry =
  ve_entry_id :: string
  ve_name :: string
  ve_description :: string
  ve_severity :: string
  ve_mitigation :: string
  ve_affected_domains :: "string list"
  ve_cycle :: int
  ve_timestamp :: rat

record performance_entry =
  pe_entry_id :: string
  pe_agent_id :: string
  pe_cycle :: int
  pe_tasks_completed :: int
  pe_tasks_failed :: int
  pe_avg_duration_ms :: rat
  pe_score :: rat
  pe_timestamp :: rat

record shared_memory =
  sm_strategy :: "strategy_entry list"
  sm_circuits :: "circuit_entry list"
  sm_vulns :: "vulnerability_entry list"
  sm_performance :: "performance_entry list"

definition empty_memory :: shared_memory where
  "empty_memory = \<lparr>sm_strategy = [], sm_circuits = [], sm_vulns = [], sm_performance = []\<rparr>"

subsection \<open>Recording\<close>

definition entry_id :: "string \<Rightarrow> int \<Rightarrow> nat \<Rightarrow> string" where
  "entry_id prefix now_ms n = prefix @ ''_'' @ int_text now_ms @ ''_'' @ int_text (int n)"

definition record_strategy ::
  "shared_memory \<Rightarrow> int \<Rightarrow> rat \<Rightarrow> string \<Rightarrow> string \<Rightarrow> string \<Rightarrow> string \<Rightarrow> int \<Rightarrow> string \<Rightarrow> string list
    \<Rightarrow> string \<times> shared_memory" where
  "record_strategy m now_ms now domain outcome pattern detail cyc agent tags =
     (let i = entry_id ''s'' now_ms (length (sm_strategy m)) in
     (i, m\<lparr>sm_strategy := sm_strategy m @ [\<lparr>se_entry_id = i, se_domain = domain, se_outcome = outcome,
        se_pattern = pattern, se_detail = detail, se_cycle = cyc, se_agent_id = agent, se_timestamp = now,
        se_tags = tags\<rparr>]\<rparr>))"

definition record_circuit ::
  "shared_memory \<Rightarrow> int \<Rightarrow> rat \<Rightarrow> string \<Rightarrow> int \<Rightarrow> string \<Rightarrow> rat \<Rightarrow> string \<Rightarrow> string \<Rightarrow> int
    \<Rightarrow> string \<times> shared_memory" where
  "record_circuit m now_ms now name constraints system time_ms description snippet cyc =
     (let i = entry_id ''c'' now_ms (length (sm_circuits m)) in
     (i, m\<lparr>sm_circuits := sm_circuits m @ [\<lparr>ce_entry_id = i, ce_circuit_name = name, ce_constraint_count = constraints,
        ce_proving_system = system, ce_proving_time_ms = time_ms, ce_description = description,
        ce_code_snippet = snippet, ce_cycle = cyc, ce_timestamp = now\<rparr>]\<rparr>))"

definition record_vulnerability ::
  "shared_memory \<Rightarrow> int \<Rightarrow> rat \<Rightarrow> string \<Rightarrow> string \<Rightarrow> string \<Rightarrow> string \<Rightarrow> string list \<Rightarrow> int
    \<Rightarrow> string \<times> shared_memory" where
  "record_vulnerability m now_ms now name description severity mitigation domains cyc =
     (let i = entry_id ''v'' now_ms (length (sm_vulns m)) in
     (i, m\<lparr>sm_vulns := sm_vulns m @ [\<lparr>ve_entry_id = i, ve_name = name, ve_description = description,
        ve_severity = severity, ve_mitigation = mitigation, ve_affected_domains = domains, ve_cycle = cyc,
        ve_timestamp = now\<rparr>]\<rparr>))"

definition record_performance ::
  "shared_memory \<Rightarrow> rat \<Rightarrow> string \<Rightarrow> int \<Rightarrow> int \<Rightarrow> int \<Rightarrow> rat \<Rightarrow> rat \<Rightarrow> string \<times> shared_memory" where
  "record_performance m now agent cyc completed failed avg score =
     (let i = ''p_'' @ agent @ ''_'' @ int_text cyc in
     (i, m\<lparr>sm_performance := filter (\<lambda>e. \<not> (pe_agent_id e = agent \<and> pe_cycle e = cyc)) (sm_performance m) @
        [\<lparr>pe_entry_id = i, pe_agent_id = agent, pe_cycle = cyc, pe_tasks_completed = completed,
          pe_tasks_failed = failed, pe_avg_duration_ms = avg, pe_score = score, pe_timestamp = now\<rparr>]\<rparr>))"

subsection \<open>Queries\<close>

text \<open>\<open>sorted(xs, key=f, reverse=True)\<close>, which keeps the order of equal keys.\<close>

definition sort_desc :: "('a \<Rightarrow> 'k :: linorder) \<Rightarrow> 'a list \<Rightarrow> 'a list" where
  "sort_desc f xs = rev (sort_key f (rev xs))"

definition strategy_key :: "strategy_entry \<Rightarrow> int \<times> rat \<times> string" where
  "strategy_key e = (se_cycle e, se_timestamp e, se_entry_id e)"

definition query_domain :: "shared_memory \<Rightarrow> string \<Rightarrow> strategy_entry list" where
  "query_domain m domain = sort_desc strategy_key (filter (\<lambda>e. se_domain e = domain) (sm_strategy m))"

text \<open>The patterns of a loop that skips the ones it has seen.\<close>

definition first_seen :: "'a list \<Rightarrow> 'a list" where
  "first_seen xs = fold (\<lambda>x seen. if x \<in> set seen then seen else seen @ [x]) xs []"

definition query_failed_patterns :: "shared_memory \<Rightarrow> string \<Rightarrow> string list" where
  "query_failed_patterns m domain =
     first_seen (map se_pattern (filter (\<lambda>e. se_outcome e = ''failure'') (query_domain m domain)))"

definition latest_strategy :: "shared_memory \<Rightarrow> string \<Rightarrow> string \<Rightarrow> strategy_entry option" where
  "latest_strategy m domain pattern = find (\<lambda>e. se_pattern e = pattern) (query_domain m domain)"

definition is_strategy_blocked :: "shared_memory \<Rightarrow> string \<Rightarrow> string \<Rightarrow> bool" where
  "is_strategy_blocked m domain pattern = (if pattern = [] then False else
     case latest_strategy m domain pattern of None \<Rightarrow> False | Some e \<Rightarrow> se_outcome e = ''failure'')"

definition successes :: "strategy_entry list \<Rightarrow> string \<Rightarrow> int" where
  "successes es p = int (length (filter (\<lambda>e. se_pattern e = p \<and> se_outcome e = ''success'') es))"

definition failures :: "strategy_entry list \<Rightarrow> string \<Rightarrow> int" where
  "failures es p = int (length (filter (\<lambda>e. se_pattern e = p \<and> se_outcome e \<noteq> ''success'') es))"

definition preferred_patterns :: "shared_memory \<Rightarrow> string \<Rightarrow> nat \<Rightarrow> string list" where
  "preferred_patterns m domain limit = (let es = query_domain m domain in
     take limit (sort_key (\<lambda>p. (- successes es p, failures es p, p))
       (filter (\<lambda>p. failures es p < successes es p) (first_seen (filter (\<lambda>p. p \<noteq> []) (map se_pattern es))))))"

record memory_decision =
  cd_blocked :: bool
  cd_pattern :: string
  cd_preferred_patterns :: "string list"
  cd_failed_patterns :: "string list"
  cd_latest_entry :: "strategy_entry option"

definition control_decision :: "shared_memory \<Rightarrow> string \<Rightarrow> string option \<Rightarrow> memory_decision" where
  "control_decision m domain pattern = (let p = (case pattern of None \<Rightarrow> [] | Some p \<Rightarrow> p) in
     \<lparr>cd_blocked = is_strategy_blocked m domain p, cd_pattern = p,
      cd_preferred_patterns = preferred_patterns m domain 3,
      cd_failed_patterns = query_failed_patterns m domain,
      cd_latest_entry = (if p = [] then None else latest_strategy m domain p)\<rparr>)"

definition query_circuits :: "shared_memory \<Rightarrow> string option \<Rightarrow> circuit_entry list" where
  "query_circuits m system = sort_key (\<lambda>e. (ce_constraint_count e, ce_circuit_name e))
     (case system of None \<Rightarrow> sm_circuits m
      | Some s \<Rightarrow> if s = [] then sm_circuits m else filter (\<lambda>e. ce_proving_system e = s) (sm_circuits m))"

definition get_vulnerabilities :: "shared_memory \<Rightarrow> string option \<Rightarrow> vulnerability_entry list" where
  "get_vulnerabilities m severity = sort_desc (\<lambda>e. (ve_cycle e, ve_timestamp e, ve_entry_id e))
     (case severity of None \<Rightarrow> sm_vulns m
      | Some s \<Rightarrow> if s = [] then sm_vulns m else filter (\<lambda>e. ve_severity e = s) (sm_vulns m))"

definition get_agent_performance :: "shared_memory \<Rightarrow> string \<Rightarrow> performance_entry list" where
  "get_agent_performance m agent = sort_key pe_cycle (filter (\<lambda>e. pe_agent_id e = agent) (sm_performance m))"

subsection \<open>Entries of a task result\<close>

text \<open>The dictionary an agent returns, by its known keys; \<open>None\<close> is an absent key.\<close>

record memory_entry =
  me_type :: "string option"
  me_domain :: "string option"
  me_outcome :: "string option"
  me_pattern :: "string option"
  me_detail :: "string option"
  me_tags :: "string list option"
  me_circuit_name :: "string option"
  me_constraint_count :: "int option"
  me_proving_system :: "string option"
  me_proving_time_ms :: "rat option"
  me_description :: "string option"
  me_code_snippet :: "string option"
  me_name :: "string option"
  me_severity :: "string option"
  me_mitigation :: "string option"
  me_affected_domains :: "string list option"

definition or_else :: "'a option \<Rightarrow> 'a \<Rightarrow> 'a" where
  "or_else x d = (case x of None \<Rightarrow> d | Some y \<Rightarrow> y)"

definition apply_entry :: "int \<Rightarrow> string \<Rightarrow> int \<times> rat \<Rightarrow> memory_entry \<Rightarrow> shared_memory \<Rightarrow> shared_memory" where
  "apply_entry cyc agent clock e m =
     (if me_type e = Some ''strategy'' then
        snd (record_strategy m (fst clock) (snd clock) (or_else (me_domain e) ''unknown'') (or_else (me_outcome e) ''success'')
          (or_else (me_pattern e) []) (or_else (me_detail e) []) cyc agent (or_else (me_tags e) []))
      else if me_type e = Some ''circuit'' then
        snd (record_circuit m (fst clock) (snd clock) (or_else (me_circuit_name e) ''unknown'')
          (or_else (me_constraint_count e) 0) (or_else (me_proving_system e) ''stub'') (or_else (me_proving_time_ms e) 0)
          (or_else (me_description e) []) (or_else (me_code_snippet e) []) cyc)
      else if me_type e = Some ''vulnerability'' then
        snd (record_vulnerability m (fst clock) (snd clock) (or_else (me_name e) ''unknown'')
          (or_else (me_description e) []) (or_else (me_severity e) ''low'') (or_else (me_mitigation e) [])
          (or_else (me_affected_domains e) []) cyc)
      else m)"

text \<open>\<open>clocks\<close> are the readings for the entries in turn.\<close>

fun apply_entries :: "shared_memory \<Rightarrow> (int \<times> rat) list \<Rightarrow> memory_entry list \<Rightarrow> int \<Rightarrow> string \<Rightarrow> shared_memory" where
  "apply_entries m (c # cs) (e # es) cyc agent = apply_entries (apply_entry cyc agent c e m) cs es cyc agent"
| "apply_entries m _ _ cyc agent = m"

record memory_summary =
  ms_strategy_entries :: int
  ms_circuit_entries :: int
  ms_vulnerability_entries :: int
  ms_performance_entries :: int
  ms_failed_patterns_by_domain :: "(string \<times> int) list"
  ms_preferred_patterns_by_domain :: "(string \<times> string list) list"

definition memory_snapshot :: "shared_memory \<Rightarrow> memory_summary" where
  "memory_snapshot m = (let domains = remdups (sort (map se_domain (sm_strategy m))) in
     \<lparr>ms_strategy_entries = int (length (sm_strategy m)), ms_circuit_entries = int (length (sm_circuits m)),
      ms_vulnerability_entries = int (length (sm_vulns m)), ms_performance_entries = int (length (sm_performance m)),
      ms_failed_patterns_by_domain = map (\<lambda>d. (d, int (length (filter (\<lambda>e. se_domain e = d \<and> se_outcome e = ''failure'')
        (sm_strategy m))))) domains,
      ms_preferred_patterns_by_domain = map (\<lambda>d. (d, preferred_patterns m d 3)) domains\<rparr>)"

subsection \<open>Sorting in descending order\<close>

lemma set_sort_desc [simp]: "set (sort_desc f xs) = set xs"
  by (simp add: sort_desc_def)

lemma sort_desc_Nil [simp]: "sort_desc f xs = [] \<longleftrightarrow> xs = []"
  using set_sort_desc [of f xs] by (metis set_empty)

lemma sort_desc_empty [simp]: "sort_desc f [] = []"
  by (simp add: sort_desc_def)

lemma filter_sort_desc: "filter P (sort_desc f xs) = sort_desc f (filter P xs)"
  by (simp add: sort_desc_def rev_filter filter_sort flip: rev_filter)

lemma find_filter: "find P xs = (case filter P xs of [] \<Rightarrow> None | x # _ \<Rightarrow> Some x)"
  by (induction xs) auto

text \<open>The first element is a greatest one, the last of those in the list.\<close>

lemma hd_sort_desc:
  assumes "xs \<noteq> []"
  shows "hd (sort_desc f xs) \<in> set xs" "x \<in> set xs \<Longrightarrow> f x \<le> f (hd (sort_desc f xs))"
proof -
  have ne: "sort_desc f xs \<noteq> []" using assms set_sort_desc [of f xs] by force
  show m: "hd (sort_desc f xs) \<in> set xs" using hd_in_set [OF ne] by simp
  have "sorted_wrt (\<lambda>a b. f b \<le> f a) (sort_desc f xs)"
    unfolding sort_desc_def sorted_wrt_rev using sorted_sort_key [of f "rev xs"] by (simp add: sorted_map)
  then show "x \<in> set xs \<Longrightarrow> f x \<le> f (hd (sort_desc f xs))"
    using ne set_sort_desc [of f xs, symmetric] by (cases "sort_desc f xs") auto
qed

text \<open>An element added last that is greater than all others comes first.\<close>

lemma sort_desc_snoc: "(\<And>y. y \<in> set xs \<Longrightarrow> f y < f x) \<Longrightarrow> sort_desc f (xs @ [x]) = x # sort_desc f xs"
proof -
  assume h: "\<And>y. y \<in> set xs \<Longrightarrow> f y < f x"
  have "insort_key f x ys = ys @ [x]" if "\<forall>y \<in> set ys. f y < f x" for ys
    using that by (induction ys) (auto simp: not_le)
  then show ?thesis using h by (simp add: sort_desc_def)
qed

subsection \<open>The latest entry decides\<close>

definition entries_of :: "shared_memory \<Rightarrow> string \<Rightarrow> string \<Rightarrow> strategy_entry list" where
  "entries_of m domain pattern = filter (\<lambda>e. se_domain e = domain \<and> se_pattern e = pattern) (sm_strategy m)"

lemma latest_strategy_hd:
  "latest_strategy m domain pattern =
     (case sort_desc strategy_key (entries_of m domain pattern) of [] \<Rightarrow> None | e # _ \<Rightarrow> Some e)"
  by (simp add: latest_strategy_def find_filter query_domain_def filter_sort_desc entries_of_def conj_commute)

lemma latest_strategy_Some:
  assumes "latest_strategy m domain pattern = Some e"
  shows "e \<in> set (entries_of m domain pattern)"
    "x \<in> set (entries_of m domain pattern) \<Longrightarrow> strategy_key x \<le> strategy_key e"
proof -
  obtain es where es: "sort_desc strategy_key (entries_of m domain pattern) = e # es"
    using assms by (auto simp: latest_strategy_hd split: list.splits)
  then have "entries_of m domain pattern \<noteq> []" by (metis sort_desc_Nil list.distinct(1))
  from hd_sort_desc [where f = strategy_key, OF this] es
  show "e \<in> set (entries_of m domain pattern)"
    "x \<in> set (entries_of m domain pattern) \<Longrightarrow> strategy_key x \<le> strategy_key e" by simp_all
qed

lemma latest_strategy_None: "latest_strategy m domain pattern = None \<longleftrightarrow> entries_of m domain pattern = []"
  by (auto simp: latest_strategy_hd split: list.splits)

lemma entries_of_record:
  "entries_of (snd (record_strategy m now_ms now domain outcome pattern detail cyc agent tags)) d p =
     entries_of m d p @ (if domain = d \<and> pattern = p then [\<lparr>se_entry_id = entry_id ''s'' now_ms (length (sm_strategy m)),
        se_domain = domain, se_outcome = outcome, se_pattern = pattern, se_detail = detail, se_cycle = cyc,
        se_agent_id = agent, se_timestamp = now, se_tags = tags\<rparr>] else [])"
  by (simp add: entries_of_def record_strategy_def Let_def)

text \<open>The clock has moved on since all entries of the memory.\<close>

definition clock_after :: "shared_memory \<Rightarrow> int \<Rightarrow> rat \<Rightarrow> bool" where
  "clock_after m cyc now \<longleftrightarrow> (\<forall>e \<in> set (sm_strategy m). se_cycle e \<le> cyc \<and> se_timestamp e < now)"

lemma recorded_is_latest:
  assumes "clock_after m cyc now"
  shows "latest_strategy (snd (record_strategy m now_ms now domain outcome pattern detail cyc agent tags)) domain pattern
    = Some \<lparr>se_entry_id = entry_id ''s'' now_ms (length (sm_strategy m)), se_domain = domain, se_outcome = outcome,
        se_pattern = pattern, se_detail = detail, se_cycle = cyc, se_agent_id = agent, se_timestamp = now, se_tags = tags\<rparr>"
proof -
  have "strategy_key y < (cyc, now, i)" if "y \<in> set (entries_of m domain pattern)" for y i
    using assms that by (auto simp: clock_after_def entries_of_def strategy_key_def less_prod_def')
  then have "sort_desc strategy_key (entries_of m domain pattern @ [x]) = x # sort_desc strategy_key (entries_of m domain pattern)"
    if "se_cycle x = cyc" "se_timestamp x = now" for x
    using that by (intro sort_desc_snoc) (simp add: strategy_key_def [of x])
  then show ?thesis by (simp add: latest_strategy_hd entries_of_record)
qed

lemma blocked_after_record:
  assumes "clock_after m cyc now" "pattern \<noteq> []"
  shows "is_strategy_blocked (snd (record_strategy m now_ms now domain outcome pattern detail cyc agent tags)) domain pattern
    \<longleftrightarrow> outcome = ''failure''"
  using assms(2) by (simp add: is_strategy_blocked_def recorded_is_latest [OF assms(1)])

lemma other_strategies_kept:
  "(domain, pattern) \<noteq> (d, p) \<Longrightarrow>
     is_strategy_blocked (snd (record_strategy m now_ms now domain outcome pattern detail cyc agent tags)) d p
       = is_strategy_blocked m d p"
  by (auto simp: is_strategy_blocked_def latest_strategy_hd entries_of_record)

subsection \<open>Performance records and preferred patterns\<close>

definition performance_ids :: "shared_memory \<Rightarrow> (string \<times> int) list" where
  "performance_ids m = map (\<lambda>e. (pe_agent_id e, pe_cycle e)) (sm_performance m)"

lemma record_performance_distinct:
  "distinct (performance_ids m) \<Longrightarrow>
     distinct (performance_ids (snd (record_performance m now agent cyc completed failed avg score)))"
  by (auto simp: performance_ids_def record_performance_def distinct_map_filter Let_def)

lemma set_first_seen: "set (first_seen xs) = set xs" and distinct_first_seen: "distinct (first_seen xs)"
proof -
  have "set (fold (\<lambda>x seen. if x \<in> set seen then seen else seen @ [x]) xs acc) = set acc \<union> set xs
      \<and> (distinct acc \<longrightarrow> distinct (fold (\<lambda>x seen. if x \<in> set seen then seen else seen @ [x]) xs acc))" for acc
    by (induction xs arbitrary: acc) auto
  then show "set (first_seen xs) = set xs" "distinct (first_seen xs)" by (simp_all add: first_seen_def)
qed

lemma preferred_patterns_sound:
  "p \<in> set (preferred_patterns m domain limit) \<Longrightarrow> p \<noteq> [] \<and> failures (query_domain m domain) p < successes (query_domain m domain) p"
  by (auto simp: preferred_patterns_def Let_def set_first_seen dest!: in_set_takeD)

lemma preferred_patterns_bounds:
  "length (preferred_patterns m domain limit) \<le> limit \<and> distinct (preferred_patterns m domain limit)"
  by (simp add: preferred_patterns_def Let_def distinct_first_seen)

lemma preferred_patterns_complete:
  assumes "length (first_seen (filter (\<lambda>p. p \<noteq> []) (map se_pattern (query_domain m domain)))) \<le> limit"
    and "failures (query_domain m domain) p < successes (query_domain m domain) p" "p \<noteq> []"
  shows "p \<in> set (preferred_patterns m domain limit)"
proof -
  have "filter (\<lambda>e. se_pattern e = p \<and> se_outcome e = ''success'') (query_domain m domain) \<noteq> []"
    using assms(2) unfolding successes_def failures_def by (intro notI) simp
  then have "p \<in> se_pattern ` set (query_domain m domain)"
    by (auto simp: filter_empty_conv)
  moreover have "take limit (sort_key f (filter P fs)) = sort_key f (filter P fs)"
    if "length fs \<le> limit" for f :: "string \<Rightarrow> int \<times> int \<times> string" and P and fs :: "string list"
    by (rule take_all) (use le_trans [OF length_filter_le that] in simp)
  ultimately show ?thesis
    using assms unfolding preferred_patterns_def Let_def by (simp add: set_first_seen)
qed

subsection \<open>Properties\<close>

text \<open>The last outcome recorded for a strategy decides: it is blocked exactly when that outcome is a failure,
  whatever came before, and the other strategies keep their status.  Every recommended pattern is
  non-empty and has more successes than failures.\<close>

theorem last_outcome_decides:
  assumes "clock_after m cyc now" "pattern \<noteq> []"
  shows "(let m' = snd (record_strategy m now_ms now domain outcome pattern detail cyc agent tags) in
    cd_blocked (control_decision m' domain (Some pattern)) = (outcome = ''failure'')
    \<and> ((d, p) = (domain, pattern) \<or> cd_blocked (control_decision m' d (Some p)) = cd_blocked (control_decision m d (Some p)))
    \<and> list_all (\<lambda>q. q \<noteq> [] \<and> failures (query_domain m' d) q < successes (query_domain m' d) q)
        (cd_preferred_patterns (control_decision m' d (Some p))))"
  using blocked_after_record [OF assms] other_strategies_kept [of domain pattern d p m] preferred_patterns_sound
  by (auto simp: Let_def control_decision_def list_all_iff)

theorem last_outcome_decides_witness:
  "cd_blocked (control_decision (snd (record_strategy empty_memory 1000 1 ''circuit'' ''failure'' ''p'' [] 1 ''a'' []))
     ''circuit'' (Some ''p''))"
  using last_outcome_decides [of empty_memory 1 1 "''p''" 1000 "''circuit''" "''failure''" "[]" "''a''" "[]" "''d''" "''q''"]
  by (simp add: clock_after_def empty_memory_def Let_def)

end
