(* ===== verification/Coordinator.thy ===== *)
theory Coordinator
  imports Artifact_Graph Shared_Memory "HOL-Library.AList" "HOL-Library.Sublist"
begin

text \<open>
  \<open>agents/base.py\<close> and \<open>coordinator/system.py\<close>: the tasks of an engineering cycle and the loop that
  executes them in dependency order.  The code's abstract method \<open>BaseAgent.run\<close> is the parameter
  \<open>run\<close>, whose left value is an exception, and the order in which the futures of a round complete
  is the parameter \<open>order\<close>.  A violated limit is kept as data instead of as its message, an
  execution time is a rational number.  \<open>created_at\<close> and \<open>completed_at\<close> are never read and are left
  out, as is \<open>artifacts\<close>, which no agent sets.
\<close>

subsection \<open>Tasks, results, agents\<close>

datatype task_domain = Architecture | Circuit_Design | Backend | Verification | Performance | Security
  | Data_Integrity | Devops | Testing | Research | Coordination

fun domain_value :: "task_domain \<Rightarrow> string" where
  "domain_value Architecture = ''architecture''"
| "domain_value Circuit_Design = ''circuit''"
| "domain_value Backend = ''backend''"
| "domain_value Verification = ''verification''"
| "domain_value Performance = ''performance''"
| "domain_value Security = ''security''"
| "domain_value Data_Integrity = ''data_integrity''"
| "domain_value Devops = ''devops''"
| "domain_value Testing = ''testing''"
| "domain_value Research = ''research''"
| "domain_value Coordination = ''coordination''"

datatype task_priority = Low | Normal | High | Critical

datatype agent_status = Idle | Running | Done | Failed | Replaced

record requirement =
  rq_artifact_type :: string
  rq_produced_by :: "string option"
  rq_artifact_id :: "string option"

record task =
  tk_task_id :: string
  tk_domain :: task_domain
  tk_description :: string
  tk_requirements :: "requirement list"
  tk_priority :: task_priority
  tk_cycle :: int
  tk_depends_on :: "string list"
  tk_strategy_key :: string
  tk_consumes :: "artifact_type list"
  tk_produces :: "artifact_type list"
  tk_max_execution_ms :: "rat option"
  tk_max_artifact_bytes :: "int option"
  tk_max_circuit_constraints :: "int option"

text \<open>A task with the inputs that \<open>_prepare_task\<close> merges into it.\<close>

record prepared_task =
  pt_task :: task
  pt_artifact_inputs :: "(string \<times> artifact list) list"
  pt_preferred_patterns :: "string list"
  pt_failed_patterns :: "string list"
  pt_consumed_artifact_ids :: "string list"

datatype violation =
    Wrong_Types "artifact_type list" "artifact_type list"
  | Too_Slow rat rat
  | Too_Large string int int
  | Too_Complex string int int
  | Reported string

datatype task_error = Agent_Error string | Raised py_error | Limit violation

record task_result =
  rt_task_id :: string
  rt_agent_id :: string
  rt_status :: string
  rt_outputs :: "(string \<times> pyv) list"
  rt_produced_artifacts :: "artifact list"
  rt_consumed_artifact_ids :: "string list"
  rt_errors :: "task_error list"
  rt_constraint_violations :: "violation list"
  rt_duration_ms :: rat
  rt_memory_entries :: "memory_entry list"

record agent =
  wk_agent_id :: string
  wk_domain :: task_domain
  wk_version :: string
  wk_performance_score :: rat
  wk_status :: agent_status

definition accepts :: "agent \<Rightarrow> task \<Rightarrow> bool" where
  "accepts w t \<longleftrightarrow> tk_domain t = wk_domain w"

definition new_agent :: "string \<Rightarrow> task_domain \<Rightarrow> agent" where
  "new_agent ident d = \<lparr>wk_agent_id = ident, wk_domain = d, wk_version = ''1.0.0'',
     wk_performance_score = 1, wk_status = Idle\<rparr>"

definition build_agent_team :: "agent list" where
  "build_agent_team = [new_agent ''zk_architect'' Architecture, new_agent ''circuit_engineer'' Circuit_Design,
     new_agent ''backend_integration'' Backend, new_agent ''verifier_agent'' Verification,
     new_agent ''performance_optimization'' Performance, new_agent ''security_audit'' Security,
     new_agent ''data_integrity'' Data_Integrity, new_agent ''devops_infrastructure'' Devops,
     new_agent ''testing_simulation'' Testing, new_agent ''research_agent'' Research]"

definition strategy_entry_of :: "string \<Rightarrow> string \<Rightarrow> string \<Rightarrow> string \<Rightarrow> string list \<Rightarrow> memory_entry" where
  "strategy_entry_of domain outcome pattern detail tags = \<lparr>me_type = Some ''strategy'', me_domain = Some domain,
     me_outcome = Some outcome, me_pattern = Some pattern, me_detail = Some detail, me_tags = Some tags,
     me_circuit_name = None, me_constraint_count = None, me_proving_system = None, me_proving_time_ms = None,
     me_description = None, me_code_snippet = None, me_name = None, me_severity = None, me_mitigation = None,
     me_affected_domains = None\<rparr>"

text \<open>\<open>_make_result\<close> of a task whose agent raised.\<close>

definition failure_result :: "agent \<Rightarrow> task \<Rightarrow> py_error \<Rightarrow> task_result" where
  "failure_result w t e = \<lparr>rt_task_id = tk_task_id t, rt_agent_id = wk_agent_id w, rt_status = ''failure'',
     rt_outputs = [], rt_produced_artifacts = [], rt_consumed_artifact_ids = [], rt_errors = [Raised e],
     rt_constraint_violations = [], rt_duration_ms = 0,
     rt_memory_entries = [strategy_entry_of (domain_value (wk_domain w)) ''failure''
       (if tk_strategy_key t = [] then ''agent_execution_exception'' else tk_strategy_key t) (error_text e)
       [''coordinator'', ''exception'']]\<rparr>"

subsection \<open>The tasks of a cycle\<close>

definition needs :: "artifact_type \<Rightarrow> string \<Rightarrow> requirement" where
  "needs t producer = \<lparr>rq_artifact_type = type_value t, rq_produced_by = Some producer, rq_artifact_id = None\<rparr>"

text \<open>\<open>f'cycle{cycle:02d}'\<close>.\<close>

definition cycle_prefix :: "int \<Rightarrow> string" where
  "cycle_prefix n = ''cycle'' @ (if 0 \<le> n \<and> n < 10 then ''0'' @ int_text n else int_text n)"

definition mk_task ::
  "int \<Rightarrow> string \<Rightarrow> task_domain \<Rightarrow> string \<Rightarrow> task_priority \<Rightarrow> string list \<Rightarrow> string \<Rightarrow> artifact_type list
    \<Rightarrow> artifact_type list \<Rightarrow> rat \<Rightarrow> int \<Rightarrow> int option \<Rightarrow> requirement list \<Rightarrow> task" where
  "mk_task n name d descr prio deps strategy consumes produces ms bytes constraints reqs =
     \<lparr>tk_task_id = cycle_prefix n @ ''_'' @ name, tk_domain = d, tk_description = descr, tk_requirements = reqs,
      tk_priority = prio, tk_cycle = n, tk_depends_on = map (\<lambda>s. cycle_prefix n @ ''_'' @ s) deps,
      tk_strategy_key = strategy, tk_consumes = consumes, tk_produces = produces,
      tk_max_execution_ms = Some ms, tk_max_artifact_bytes = Some bytes, tk_max_circuit_constraints = constraints\<rparr>"

definition build_initial_tasks :: "int \<Rightarrow> task list" where
  "build_initial_tasks n =
    (let c = needs CircuitType ''circuit_engineer''; t = needs TraceType ''backend_integration'';
         w = needs WitnessType ''backend_integration''; p = needs ProofType ''performance_optimization'';
         v = needs VerificationType ''verifier_agent'' in [
     mk_task n ''zk_architecture'' Architecture
       ''Define the ZK proof system architecture and produce the initial circuit artifact.''
       Critical [] ''layered_proof_architecture'' [] [CircuitType] 750 32768 (Some 64) [],
     mk_task n ''circuit_design'' Circuit_Design
       ''Refine the circuit artifact for deterministic constraint execution.''
       Critical [''zk_architecture''] ''trace_to_constraints_mapping'' [CircuitType] [CircuitType] 750 32768 (Some 64)
       [needs CircuitType ''zk_architect''],
     mk_task n ''backend_integration'' Backend
       ''Extract deterministic trace and witness artifacts from the VRL engine.''
       High [''circuit_design''] ''deterministic_trace_extraction'' [CircuitType] [TraceType, WitnessType] 1000 65536 None
       [c],
     mk_task n ''prove_bundle'' Performance
       ''Produce a structured deterministic proof artifact and benchmark the stub prover.''
       Critical [''backend_integration''] ''structured_stub_proof'' [CircuitType, TraceType, WitnessType] [ProofType]
       1000 32768 None [c, t, w],
     mk_task n ''verifier'' Verification
       ''Verify the structured proof artifact against its circuit, trace, and witness.''
       Critical [''prove_bundle''] ''structured_stub_verifier'' [CircuitType, TraceType, WitnessType, ProofType]
       [VerificationType] 1000 32768 None [c, t, w, p],
     mk_task n ''testing'' Testing
       ''Run deterministic pipeline smoke tests against the typed artifacts.''
       High [''verifier''] ''artifact_pipeline_smoke'' [ProofType, VerificationType] [VerificationType] 1200 32768 None
       [p, v],
     mk_task n ''security'' Security
       ''Inject malformed artifacts and ensure the pipeline rejects invalid states.''
       Critical [''testing''] ''continuous_adversarial_checks'' [CircuitType, TraceType, WitnessType, ProofType]
       [VerificationType] 1500 32768 None [c, t, w, p],
     mk_task n ''data_integrity'' Data_Integrity
       ''Recompute the deterministic pipeline and confirm artifact replay matches exactly.''
       Critical [''verifier''] ''repeatable_trace_bundle'' [TraceType, WitnessType, ProofType] [VerificationType]
       1200 32768 None [t, w, p],
     mk_task n ''devops'' Devops
       ''Bind the verified pipeline state to the deployment topology.''
       Normal [''verifier''] ''service_per_folder_topology'' [VerificationType] [VerificationType] 750 32768 None [v],
     mk_task n ''research'' Research
       ''Evaluate the verified artifact pipeline for future proving-system upgrades.''
       Normal [''verifier''] ''plonk_first_migration_path'' [CircuitType, ProofType, VerificationType] [VerificationType]
       750 32768 None [c, p, v]])"

subsection \<open>Preparing and assigning a task\<close>

definition bucket_add :: "(string \<times> 'a list) list \<Rightarrow> string \<Rightarrow> 'a \<Rightarrow> (string \<times> 'a list) list" where
  "bucket_add b k x = (if k \<in> set (map fst b)
     then map (\<lambda>kv. if fst kv = k then (k, snd kv @ [x]) else kv) b else b @ [(k, [x])])"

definition resolve_artifact_inputs ::
  "task \<Rightarrow> artifact_graph \<Rightarrow> ((string \<times> artifact list) list \<times> string list) result" where
  "resolve_artifact_inputs t g =
     rbind (rmap (\<lambda>r. require g (rq_artifact_type r) (rq_produced_by r) (Some (tk_cycle t)) (rq_artifact_id r))
       (tk_requirements t)) (\<lambda>as.
     Inr (fold (\<lambda>a b. bucket_add b (type_value (artifact_type_of a)) a) as [],
       remdups (sort (map (\<lambda>a. artifact_id (head_of a)) as))))"

definition prepare_task :: "task \<Rightarrow> artifact_graph \<Rightarrow> memory_decision \<Rightarrow> prepared_task result" where
  "prepare_task t g d = rbind (resolve_artifact_inputs t g) (\<lambda>(bucket, consumed).
     Inr \<lparr>pt_task = t, pt_artifact_inputs = bucket, pt_preferred_patterns = cd_preferred_patterns d,
       pt_failed_patterns = cd_failed_patterns d, pt_consumed_artifact_ids = consumed\<rparr>)"

definition assign :: "agent list \<Rightarrow> task \<Rightarrow> agent result" where
  "assign agents t = (case find (\<lambda>w. accepts w t) agents of
     Some w \<Rightarrow> Inr w
   | None \<Rightarrow> Inl (RuntimeError (''No agent available for task '' @ tk_task_id t @ '' ('' @ domain_value (tk_domain t) @ '')'')))"

subsection \<open>Limits of a task\<close>

definition limit_of :: "'a option \<Rightarrow> ('a \<Rightarrow> violation list) \<Rightarrow> violation list" where
  "limit_of l f = (case l of None \<Rightarrow> [] | Some x \<Rightarrow> f x)"

definition size_violation :: "int \<Rightarrow> artifact \<Rightarrow> violation list result" where
  "size_violation limit a = rbind (artifact_size_bytes a) (\<lambda>size.
     Inr (if size > limit then [Too_Large (artifact_id (head_of a)) size limit] else []))"

fun complexity_violation :: "int \<Rightarrow> artifact \<Rightarrow> violation list" where
  "complexity_violation limit (ACircuit c) =
     (if ca_constraint_count c > limit then [Too_Complex (artifact_id c) (ca_constraint_count c) limit] else [])"
| "complexity_violation limit _ = []"

text \<open>\<open>Counter(xs) == Counter(ys)\<close>: the same number of every type.\<close>

definition same_counts :: "artifact_type list \<Rightarrow> artifact_type list \<Rightarrow> bool" where
  "same_counts xs ys \<longleftrightarrow> list_all (\<lambda>t. length (filter (\<lambda>x. x = t) xs) = length (filter (\<lambda>y. y = t) ys)) artifact_types"

definition task_violations :: "task \<Rightarrow> task_result \<Rightarrow> violation list result" where
  "task_violations t r = (let actual = map artifact_type_of (rt_produced_artifacts r) in
     rbind (case tk_max_artifact_bytes t of None \<Rightarrow> Inr [] | Some b \<Rightarrow>
       rbind (rmap (size_violation b) (rt_produced_artifacts r)) (\<lambda>vs. Inr (concat vs))) (\<lambda>sizes.
     Inr (rt_constraint_violations r
       @ (if same_counts (tk_produces t) actual then [] else [Wrong_Types actual (tk_produces t)])
       @ limit_of (tk_max_execution_ms t) (\<lambda>ms. if rt_duration_ms r > ms then [Too_Slow (rt_duration_ms r) ms] else [])
       @ sizes
       @ limit_of (tk_max_circuit_constraints t) (\<lambda>n. concat (map (complexity_violation n) (rt_produced_artifacts r))))))"

definition enforce_task_constraints :: "prepared_task \<Rightarrow> task_result \<Rightarrow> task_result result" where
  "enforce_task_constraints p r = rbind (task_violations (pt_task p) r) (\<lambda>vs.
     let r' = r\<lparr>rt_consumed_artifact_ids := (if rt_consumed_artifact_ids r = [] then pt_consumed_artifact_ids p
                  else rt_consumed_artifact_ids r), rt_constraint_violations := vs\<rparr> in
     Inr (if vs = [] then r'
          else r'\<lparr>rt_status := ''failure'', rt_errors := rt_errors r @ map Limit vs, rt_produced_artifacts := []\<rparr>))"

subsection \<open>Executing the ready tasks of a round\<close>

type_synonym runner = "agent \<Rightarrow> prepared_task \<Rightarrow> shared_memory \<Rightarrow> task_result result"

definition set_status :: "string \<Rightarrow> agent_status \<Rightarrow> agent list \<Rightarrow> agent list" where
  "set_status ident s ws = map (\<lambda>w. if wk_agent_id w = ident then w\<lparr>wk_status := s\<rparr> else w) ws"

definition finish_task :: "runner \<Rightarrow> shared_memory \<Rightarrow> agent \<times> prepared_task \<Rightarrow> task_result result" where
  "finish_task run m a = (case run (fst a) (snd a) m of
     Inl e \<Rightarrow> Inr (failure_result (fst a) (pt_task (snd a)) e)
   | Inr r \<Rightarrow> enforce_task_constraints (snd a) r)"

definition status_after :: "task_result \<Rightarrow> agent_status" where
  "status_after r = (if rt_status r = ''success'' then Done else Failed)"

definition execute_ready_set ::
  "runner \<Rightarrow> ((agent \<times> prepared_task) list \<Rightarrow> (agent \<times> prepared_task) list) \<Rightarrow> shared_memory
    \<Rightarrow> (agent \<times> prepared_task) list \<Rightarrow> agent list \<Rightarrow> (task_result list \<times> agent list) result" where
  "execute_ready_set run order m ready agents =
     (let running = fold (\<lambda>a. set_status (wk_agent_id (fst a)) Running) ready agents in
     rbind (rmap (\<lambda>a. rbind (finish_task run m a) (\<lambda>r. Inr (wk_agent_id (fst a), r))) (order ready)) (\<lambda>rs.
     Inr (map snd rs, fold (\<lambda>(i, r). set_status i (status_after r)) rs running)))"

subsection \<open>The loop over the task graph\<close>

datatype blocked_task =
    Dependency_Failed string task_domain "string list"
  | Memory_Blocked string task_domain string "strategy_entry option"


record dag_state =
  ds_completed :: "string list"
  ds_terminal :: "string list"
  ds_results :: "task_result list"
  ds_blocked :: "blocked_task list"
  ds_graph :: artifact_graph
  ds_agents :: "agent list"

record scan_state =
  sc_terminal :: "string list"
  sc_blocked :: "blocked_task list"
  sc_ready :: "(agent \<times> prepared_task) list"
  sc_removed :: "string list"

text \<open>One look at every pending task, in the order of their ids.\<close>

fun scan_tasks ::
  "shared_memory \<Rightarrow> dag_state \<Rightarrow> (string \<times> task) list \<Rightarrow> scan_state \<Rightarrow> scan_state result" where
  "scan_tasks m st [] sc = Inr sc"
| "scan_tasks m st ((i, t) # ts) sc =
    (let failed = filter (\<lambda>d. d \<in> set (sc_terminal sc)) (tk_depends_on t) in
     if failed \<noteq> [] then
       scan_tasks m st ts (sc\<lparr>sc_blocked := sc_blocked sc @ [Dependency_Failed (tk_task_id t) (tk_domain t) failed],
         sc_removed := sc_removed sc @ [i]\<rparr>)
     else if \<not> list_all (\<lambda>d. d \<in> set (ds_completed st)) (tk_depends_on t) then scan_tasks m st ts sc
     else (let d = control_decision m (domain_value (tk_domain t)) (Some (tk_strategy_key t)) in
       if cd_blocked d then
         scan_tasks m st ts (sc\<lparr>sc_blocked := sc_blocked sc @
             [Memory_Blocked (tk_task_id t) (tk_domain t) (tk_strategy_key t) (cd_latest_entry d)],
           sc_terminal := sc_terminal sc @ [tk_task_id t], sc_removed := sc_removed sc @ [i]\<rparr>)
       else rbind (prepare_task t (ds_graph st) d) (\<lambda>p. rbind (assign (ds_agents st) t) (\<lambda>w.
         scan_tasks m st ts (sc\<lparr>sc_ready := sc_ready sc @ [(w, p)], sc_removed := sc_removed sc @ [i]\<rparr>)))))"

definition scan :: "shared_memory \<Rightarrow> dag_state \<Rightarrow> (string \<times> task) list \<Rightarrow> scan_state result" where
  "scan m st pending = scan_tasks m st (sort_key fst pending)
     \<lparr>sc_terminal = ds_terminal st, sc_blocked = ds_blocked st, sc_ready = [], sc_removed = []\<rparr>"

text \<open>The artifacts of a successful result enter the graph; a failing task is terminal.\<close>

fun add_artifacts :: "artifact_graph \<Rightarrow> string list \<Rightarrow> artifact list \<Rightarrow> artifact_graph result" where
  "add_artifacts g consumed [] = Inr g"
| "add_artifacts g consumed (a # as) = (case add_artifact g a consumed of
     (Inl e, _) \<Rightarrow> Inl e | (Inr _, g') \<Rightarrow> add_artifacts g' consumed as)"

definition record_result :: "task_result \<Rightarrow> dag_state \<Rightarrow> dag_state result" where
  "record_result r st = (if rt_status r = ''success'' then
     rbind (add_artifacts (ds_graph st) (rt_consumed_artifact_ids r) (rt_produced_artifacts r)) (\<lambda>g.
       Inr (st\<lparr>ds_completed := ds_completed st @ [rt_task_id r], ds_graph := g, ds_results := ds_results st @ [r]\<rparr>))
     else Inr (st\<lparr>ds_terminal := ds_terminal st @ [rt_task_id r], ds_results := ds_results st @ [r]\<rparr>))"

fun record_results :: "task_result list \<Rightarrow> dag_state \<Rightarrow> dag_state result" where
  "record_results [] st = Inr st"
| "record_results (r # rs) st = rbind (record_result r st) (record_results rs)"

definition run_ready ::
  "runner \<Rightarrow> ((agent \<times> prepared_task) list \<Rightarrow> (agent \<times> prepared_task) list) \<Rightarrow> shared_memory \<Rightarrow> dag_state
    \<Rightarrow> (agent \<times> prepared_task) list \<Rightarrow> dag_state result" where
  "run_ready run order m st ready = rbind (execute_ready_set run order m ready (ds_agents st)) (\<lambda>(rs, ws).
     record_results rs (st\<lparr>ds_agents := ws\<rparr>))"

definition still_pending :: "(string \<times> task) list \<Rightarrow> scan_state \<Rightarrow> (string \<times> task) list" where
  "still_pending pending sc = filter (\<lambda>it. fst it \<notin> set (sc_removed sc)) pending"

definition stalled :: "(string \<times> task) list \<Rightarrow> py_error" where
  "stalled pending = RuntimeError (''Artifact DAG stalled with unresolved tasks: '' @ join '', '' (sort (map fst pending)))"

lemma scan_tasks_removed:
  "scan_tasks m st ts sc = Inr sc' \<Longrightarrow>
     (\<exists>js. sc_removed sc' = sc_removed sc @ js \<and> set js \<subseteq> set (map fst ts)
       \<and> (sc_ready sc' \<noteq> sc_ready sc \<longrightarrow> js \<noteq> []))"
proof (induction m st ts sc rule: scan_tasks.induct)
  case (2 m st i t ts sc)
  show ?case
    using "2.prems" "2.IH"
    by (fastforce simp: Let_def result_simps split: if_splits)
qed simp

lemma still_pending_less:
  assumes "scan m st pending = Inr sc" "sc_ready sc \<noteq> []"
  shows "length (still_pending pending sc) < length pending"
proof -
  obtain js where i: "sc_removed sc = js" "set js \<subseteq> set (map fst pending)" "js \<noteq> []"
    using scan_tasks_removed [OF assms(1) [unfolded scan_def]] assms(2) by auto
  then obtain it where "it \<in> set pending" "fst it \<in> set js" by (cases "js") auto
  then show ?thesis
    unfolding still_pending_def i(1) by (intro length_filter_less) auto
qed

function dag_loop ::
  "runner \<Rightarrow> ((agent \<times> prepared_task) list \<Rightarrow> (agent \<times> prepared_task) list) \<Rightarrow> shared_memory
    \<Rightarrow> (string \<times> task) list \<Rightarrow> dag_state \<Rightarrow> dag_state result" where
  "dag_loop run order m pending st = (if pending = [] then Inr st else
     rbind (scan m st pending) (\<lambda>sc.
     let pending' = still_pending pending sc; st' = st\<lparr>ds_terminal := sc_terminal sc, ds_blocked := sc_blocked sc\<rparr> in
     if sc_ready sc = [] then (if pending' \<noteq> [] then Inl (stalled pending') else Inr st')
     else rbind (run_ready run order m st' (sc_ready sc)) (\<lambda>st''. dag_loop run order m pending' st'')))"
  by pat_completeness auto
termination
  by (relation "measure (\<lambda>(_, _, _, pending, _). length pending)") (auto dest: still_pending_less)

declare dag_loop.simps [simp del]

text \<open>\<open>{task.task_id: task for task in tasks}\<close>.\<close>

definition pending_of :: "task list \<Rightarrow> (string \<times> task) list" where
  "pending_of tasks = fold (\<lambda>t ts. AList.update (tk_task_id t) t ts) tasks []"

definition execute_dag ::
  "runner \<Rightarrow> ((agent \<times> prepared_task) list \<Rightarrow> (agent \<times> prepared_task) list) \<Rightarrow> shared_memory \<Rightarrow> task list
    \<Rightarrow> artifact_graph \<Rightarrow> agent list \<Rightarrow> dag_state result" where
  "execute_dag run order m tasks g agents = dag_loop run order m (pending_of tasks)
     \<lparr>ds_completed = [], ds_terminal = [], ds_results = [], ds_blocked = [], ds_graph = g, ds_agents = agents\<rparr>"

subsection \<open>What a round does\<close>



definition permutes_list :: "('a list \<Rightarrow> 'a list) \<Rightarrow> bool" where
  "permutes_list order \<longleftrightarrow> (\<forall>xs. mset (order xs) = mset xs)"

lemma prepare_task_id: "prepare_task t g d = Inr p \<Longrightarrow> pt_task p = t"
  by (auto simp: prepare_task_def result_simps split: prod.splits)







subsection \<open>A schedule\<close>










subsection \<open>Every task is executed or blocked exactly once\<close>






subsection \<open>Rounds\<close>










lemma pending_of_distinct:
  "distinct (map tk_task_id tasks) \<Longrightarrow> pending_of tasks = map (\<lambda>t. (tk_task_id t, t)) tasks" for tasks :: "task list"
proof -
  have "distinct (map fst ts @ map tk_task_id us) \<Longrightarrow>
      fold (\<lambda>t ts. AList.update (tk_task_id t) t ts) us ts = ts @ map (\<lambda>t. (tk_task_id t, t)) us" for ts and us :: "task list"
  proof (induction us arbitrary: ts)
    case (Cons u us)
    have "AList.update k v ts = ts @ [(k, v)]" if "k \<notin> fst ` set ts" for k and v :: task
      using that by (induction ts) auto
    then show ?case using Cons by simp
  qed simp
  then show "distinct (map tk_task_id tasks) \<Longrightarrow> ?thesis" by (simp add: pending_of_def)
qed



subsection \<open>The tasks of a cycle, round by round\<close>

lemma prefix_le [simp]: "(p @ x \<le> p @ y) = (x \<le> y)" for p x y :: string
  by (induction p) simp_all

definition task_name :: "int \<Rightarrow> string \<Rightarrow> string" where
  "task_name n s = cycle_prefix n @ ''_'' @ s"

lemma task_name_inj [simp]: "task_name n s = task_name n t \<longleftrightarrow> s = t"
  by (simp add: task_name_def)

lemma task_name_le [simp]: "task_name n s \<le> task_name n t \<longleftrightarrow> s \<le> t"
  by (simp add: task_name_def)

lemma mk_task_simps [simp]:
  "tk_task_id (mk_task n name d descr prio ds strategy consumes produces ms bytes constraints reqs) = task_name n name"
  "tk_depends_on (mk_task n name d descr prio ds strategy consumes produces ms bytes constraints reqs) = map (task_name n) ds"
  "tk_domain (mk_task n name d descr prio ds strategy consumes produces ms bytes constraints reqs) = d"
  "tk_strategy_key (mk_task n name d descr prio ds strategy consumes produces ms bytes constraints reqs) = strategy"
  "tk_requirements (mk_task n name d descr prio ds strategy consumes produces ms bytes constraints reqs) = reqs"
  by (simp_all add: mk_task_def task_name_def)

lemma initial_ids:
  "map tk_task_id (build_initial_tasks n) = map (task_name n) [''zk_architecture'', ''circuit_design'',
     ''backend_integration'', ''prove_bundle'', ''verifier'', ''testing'', ''security'', ''data_integrity'', ''devops'', ''research'']"
  by (simp add: build_initial_tasks_def Let_def)

lemma initial_distinct: "distinct (map tk_task_id (build_initial_tasks n))"
  by (simp add: initial_ids)

definition initial_state :: "agent list \<Rightarrow> artifact_graph \<Rightarrow> dag_state" where
  "initial_state agents g = \<lparr>ds_completed = [], ds_terminal = [], ds_results = [], ds_blocked = [], ds_graph = g, ds_agents = agents\<rparr>"

lemma pending_initial: "pending_of (build_initial_tasks n) = map (\<lambda>t. (tk_task_id t, t)) (build_initial_tasks n)"
  by (rule pending_of_distinct [OF initial_distinct])

lemma pending_initial_nonempty: "pending_of (build_initial_tasks n) \<noteq> []"
  unfolding pending_initial by (simp add: build_initial_tasks_def Let_def)

lemma cd_blocked_control [simp]: "cd_blocked (control_decision m d (Some p)) = is_strategy_blocked m d p"
  by (simp add: control_decision_def Let_def)

text \<open>The first task is the only one that waits for nothing: whether it is blocked or fails, one
  round later nothing is ready while tasks are still pending.\<close>

lemma blocked_architecture_scan:
  assumes "is_strategy_blocked m ''architecture'' ''layered_proof_architecture''"
  shows "\<exists>sc. scan m (initial_state agents g) (pending_of (build_initial_tasks n)) = Inr sc
     \<and> sc_ready sc = [] \<and> sc_removed sc = [task_name n ''zk_architecture'']"
  using assms unfolding pending_initial
  by (simp add: scan_def build_initial_tasks_def Let_def initial_state_def)

definition rest_of :: "int \<Rightarrow> string list \<Rightarrow> (string \<times> task) list" where
  "rest_of n names = filter (\<lambda>it. fst it \<notin> set (map (task_name n) names)) (pending_of (build_initial_tasks n))"

lemma rest_nonempty: "rest_of n [''zk_architecture''] \<noteq> []" "rest_of n [''zk_architecture'', ''circuit_design''] \<noteq> []"
  unfolding rest_of_def pending_initial
  by (simp_all add: build_initial_tasks_def Let_def)

lemma blocked_architecture_stalls:
  assumes "is_strategy_blocked m ''architecture'' ''layered_proof_architecture''"
  shows "execute_dag run order m (build_initial_tasks n) g agents = Inl (stalled (rest_of n [''zk_architecture'']))"
proof -
  obtain sc where sc: "scan m (initial_state agents g) (pending_of (build_initial_tasks n)) = Inr sc"
    "sc_ready sc = []" "sc_removed sc = [task_name n ''zk_architecture'']"
    using blocked_architecture_scan [OF assms] by blast
  have "still_pending (pending_of (build_initial_tasks n)) sc = rest_of n [''zk_architecture'']"
    by (simp add: still_pending_def rest_of_def sc(3))
  then show ?thesis
    using sc rest_nonempty(1) [of n] pending_initial_nonempty [of n] unfolding execute_dag_def initial_state_def [symmetric]
    by (subst dag_loop.simps) (simp add: Let_def)
qed

lemma first_scan:
  assumes "\<not> is_strategy_blocked m ''architecture'' ''layered_proof_architecture''"
  obtains p where "scan m (initial_state build_agent_team g) (pending_of (build_initial_tasks n))
     = Inr \<lparr>sc_terminal = [], sc_blocked = [], sc_ready = [(new_agent ''zk_architect'' Architecture, p)],
          sc_removed = [task_name n ''zk_architecture'']\<rparr>"
    "tk_task_id (pt_task p) = task_name n ''zk_architecture''"
proof -
  let ?t = "hd (build_initial_tasks n)"
  let ?d = "control_decision m ''architecture'' (Some ''layered_proof_architecture'')"
  have "tk_requirements ?t = []" "tk_task_id ?t = task_name n ''zk_architecture''"
    by (simp_all add: build_initial_tasks_def Let_def)
  then obtain p where p: "prepare_task ?t g ?d = Inr p"
    by (simp add: prepare_task_def resolve_artifact_inputs_def)
  moreover have "assign build_agent_team ?t = Inr (new_agent ''zk_architect'' Architecture)"
    by (simp add: assign_def build_agent_team_def accepts_def new_agent_def build_initial_tasks_def Let_def)
  ultimately have "scan m (initial_state build_agent_team g) (pending_of (build_initial_tasks n))
     = Inr \<lparr>sc_terminal = [], sc_blocked = [], sc_ready = [(new_agent ''zk_architect'' Architecture, p)],
          sc_removed = [task_name n ''zk_architecture'']\<rparr>"
    using assms unfolding pending_initial
    by (simp add: scan_def build_initial_tasks_def Let_def initial_state_def)
  then show thesis using that prepare_task_id [OF p] \<open>tk_task_id ?t = _\<close> by simp
qed

lemma failed_architecture_scan:
  assumes "ds_completed st = []" "ds_terminal st = [task_name n ''zk_architecture'']"
  shows "\<exists>sc. scan m st (rest_of n [''zk_architecture'']) = Inr sc \<and> sc_ready sc = []
     \<and> sc_removed sc = [task_name n ''circuit_design'']"
  using assms unfolding rest_of_def pending_initial
  by (simp add: scan_def build_initial_tasks_def Let_def)

lemma failed_architecture_stalls:
  assumes "\<not> is_strategy_blocked m ''architecture'' ''layered_proof_architecture''" "permutes_list order"
    and "\<And>p. run (new_agent ''zk_architect'' Architecture) p m = Inl e"
  shows "execute_dag run order m (build_initial_tasks n) g build_agent_team
    = Inl (stalled (rest_of n [''zk_architecture'', ''circuit_design'']))"
proof -
  let ?w = "new_agent ''zk_architect'' Architecture"
  let ?st = "initial_state build_agent_team g"
  obtain p where sc: "scan m ?st (pending_of (build_initial_tasks n))
     = Inr \<lparr>sc_terminal = [], sc_blocked = [], sc_ready = [(?w, p)], sc_removed = [task_name n ''zk_architecture'']\<rparr>"
    and p: "tk_task_id (pt_task p) = task_name n ''zk_architecture''" by (rule first_scan [OF assms(1)])
  have "order [(?w, p)] = [(?w, p)]"
  proof -
    have "mset (order [(?w, p)]) = {#(?w, p)#}" using assms(2) by (simp add: permutes_list_def)
    then show ?thesis by simp
  qed
  then obtain ws where run: "run_ready run order m (?st\<lparr>ds_terminal := [], ds_blocked := []\<rparr>) [(?w, p)]
      = record_results [failure_result ?w (pt_task p) e] (?st\<lparr>ds_terminal := [], ds_blocked := [], ds_agents := ws\<rparr>)"
    using assms(3) [of p] by (simp add: run_ready_def execute_ready_set_def finish_task_def Let_def)
  obtain st1 where st1: "record_results [failure_result ?w (pt_task p) e] (?st\<lparr>ds_terminal := [], ds_blocked := [], ds_agents := ws\<rparr>)
      = Inr st1" "ds_completed st1 = []" "ds_terminal st1 = [task_name n ''zk_architecture'']"
    using p by (simp add: record_result_def failure_result_def initial_state_def)
  obtain sc2 where sc2: "scan m st1 (rest_of n [''zk_architecture'']) = Inr sc2" "sc_ready sc2 = []"
    "sc_removed sc2 = [task_name n ''circuit_design'']"
    using failed_architecture_scan [OF st1(2,3)] by blast
  have still: "still_pending (rest_of n [''zk_architecture'']) sc2 = rest_of n [''zk_architecture'', ''circuit_design'']"
    by (simp add: still_pending_def rest_of_def sc2(3))
  have stop: "dag_loop run order m (rest_of n [''zk_architecture'']) st1
      = Inl (stalled (rest_of n [''zk_architecture'', ''circuit_design'']))"
    using sc2 rest_nonempty [of n] by (subst dag_loop.simps) (simp add: still Let_def)
  have "still_pending (pending_of (build_initial_tasks n)) \<lparr>sc_terminal = [], sc_blocked = [], sc_ready = [(?w, p)],
      sc_removed = [task_name n ''zk_architecture'']\<rparr> = rest_of n [''zk_architecture'']"
    by (simp add: still_pending_def rest_of_def)
  then show ?thesis
    using pending_initial_nonempty [of n] unfolding execute_dag_def initial_state_def [symmetric]
    by (subst dag_loop.simps) (simp add: sc run st1(1) stop Let_def del: record_results.simps)
qed

subsection \<open>Properties\<close>









definition raising_run :: runner where
  "raising_run w p m = Inl (RuntimeError ''x'')"









text \<open>The first task of a cycle, the only one without dependencies, takes the whole cycle down: when its strategy
  is blocked by the memory, or its agent raises, the loop ends with the RuntimeError of a stalled graph
  instead of reporting the tasks behind it as blocked, because a task that is blocked for a failed
  dependency does not itself count as failed.\<close>

theorem first_failure_stalls:
  assumes "permutes_list order"
    and "\<And>p. run (new_agent ''zk_architect'' Architecture) p m = Inl e"
  shows "\<exists>names. execute_dag run order m (build_initial_tasks n) g build_agent_team = Inl (stalled (rest_of n names))
    \<and> rest_of n names \<noteq> []"
proof (cases "is_strategy_blocked m ''architecture'' ''layered_proof_architecture''")
  case True
  from blocked_architecture_stalls [OF this] rest_nonempty(1) show ?thesis by blast
next
  case False
  from failed_architecture_stalls [where run = run and e = e, OF this assms] rest_nonempty(2) show ?thesis by blast
qed

theorem first_failure_stalls_witness:
  "\<exists>names. execute_dag raising_run id empty_memory (build_initial_tasks 1) empty_graph build_agent_team
     = Inl (stalled (rest_of 1 names))"
  using first_failure_stalls [of id raising_run empty_memory "RuntimeError ''x''" 1 empty_graph]
  by (auto simp: permutes_list_def raising_run_def)

end
