(* ===== verification/Performance_Tracker.thy ===== *)
theory Performance_Tracker
  imports Binary64 Coordinator
begin

text \<open>
  \<open>coordinator/performance.py\<close>: the score of every agent, kept as doubles (theory Binary64), and
  the part of \<open>coordinator/system.py\<close> that uses it: the end of a cycle, where the results reach the
  tracker and the shared memory, and the replacement of agents that perform badly.
\<close>

subsection \<open>The tracker\<close>

record agent_performance =
  ap_agent_id :: string
  ap_score :: rat
  ap_consecutive_failures :: int
  ap_tasks_completed :: int
  ap_tasks_failed :: int
  ap_avg_duration_ms :: rat
  ap_history :: "rat list"

type_synonym tracker = "(string \<times> agent_performance) list"

definition fresh_performance :: "string \<Rightarrow> agent_performance" where
  "fresh_performance ident = \<lparr>ap_agent_id = ident, ap_score = 1, ap_consecutive_failures = 0,
     ap_tasks_completed = 0, ap_tasks_failed = 0, ap_avg_duration_ms = 0, ap_history = []\<rparr>"

text \<open>\<open>(0.7 * success_component) + (0.3 * duration_component)\<close>, rounded to four digits.\<close>

definition candidate_score :: "bool \<Rightarrow> rat \<Rightarrow> rat" where
  "candidate_score success duration =
    (let success_component = (if success then 1 else 1 / 4);
         duration_component = fl (1 / fl (1 + fl (duration / 500))) in
     round_to (fl (fl (fl (7 / 10) * success_component) + fl (fl (3 / 10) * duration_component))) 4)"

definition next_score :: "rat \<Rightarrow> rat \<Rightarrow> rat" where
  "next_score score candidate = round_to (fl (fl (score * fl (6 / 10)) + fl (candidate * fl (4 / 10)))) 4"

definition float_sum :: "rat list \<Rightarrow> rat" where
  "float_sum xs = foldl (\<lambda>a x. fl (a + x)) 0 xs"

definition update_performance :: "bool \<Rightarrow> rat \<Rightarrow> agent_performance \<Rightarrow> agent_performance" where
  "update_performance success duration r = (let history = ap_history r @ [duration] in
     r\<lparr>ap_tasks_completed := ap_tasks_completed r + (if success then 1 else 0),
       ap_tasks_failed := ap_tasks_failed r + (if success then 0 else 1),
       ap_consecutive_failures := (if success then 0 else ap_consecutive_failures r + 1),
       ap_history := history,
       ap_avg_duration_ms := round_to (fl (float_sum history / of_nat (length history))) 2,
       ap_score := next_score (ap_score r) (candidate_score success duration)\<rparr>)"

definition performance_of :: "tracker \<Rightarrow> string \<Rightarrow> agent_performance" where
  "performance_of t ident = (case map_of t ident of Some r \<Rightarrow> r | None \<Rightarrow> fresh_performance ident)"

definition record_task :: "tracker \<Rightarrow> task_result \<Rightarrow> agent_performance \<times> tracker" where
  "record_task t r = (let i = rt_agent_id r;
     p = update_performance (rt_status r = ''success'') (rt_duration_ms r) (performance_of t i) in
     (p, AList.update i p t))"

definition performance_snapshot :: "tracker \<Rightarrow> (string \<times> (rat \<times> int \<times> int \<times> int \<times> rat)) list" where
  "performance_snapshot t = map (\<lambda>(i, r). (i, (ap_score r, ap_consecutive_failures r, ap_tasks_completed r,
     ap_tasks_failed r, ap_avg_duration_ms r))) (sort_key fst t)"

definition underperformers :: "rat \<Rightarrow> int \<Rightarrow> tracker \<Rightarrow> string list" where
  "underperformers min_score min_failures t =
     map fst (filter (\<lambda>(i, r). ap_score r < min_score \<and> ap_consecutive_failures r \<ge> min_failures) t)"

definition default_underperformers :: "tracker \<Rightarrow> string list" where
  "default_underperformers t = underperformers (fl (45 / 100)) 2 t"

subsection \<open>Replacing agents\<close>

record replacement =
  rp_agent_id :: string
  rp_old_version :: string
  rp_new_version :: string

text \<open>The new agent of the same id from a fresh team; an unknown id is a \<open>KeyError\<close>.\<close>

definition replace_agent :: "int \<Rightarrow> agent \<Rightarrow> (agent \<times> replacement) result" where
  "replace_agent cyc w = (case find (\<lambda>f. wk_agent_id f = wk_agent_id w) (rev build_agent_team) of
     None \<Rightarrow> Inl (KeyError (wk_agent_id w))
   | Some f \<Rightarrow> (let v = wk_version w @ ''-r'' @ int_text cyc in
       Inr (f\<lparr>wk_version := v, wk_performance_score := 1\<rparr>,
         \<lparr>rp_agent_id = wk_agent_id w, rp_old_version = wk_version w, rp_new_version = v\<rparr>)))"

fun replace_all :: "int \<Rightarrow> string list \<Rightarrow> agent list \<Rightarrow> (agent list \<times> replacement list) result" where
  "replace_all cyc bad [] = Inr ([], [])"
| "replace_all cyc bad (w # ws) =
     (if wk_agent_id w \<notin> set bad then rbind (replace_all cyc bad ws) (\<lambda>(us, rs). Inr (w # us, rs))
      else rbind (replace_agent cyc w) (\<lambda>(u, r). rbind (replace_all cyc bad ws) (\<lambda>(us, rs). Inr (u # us, r # rs))))"

definition replace_underperformers :: "tracker \<Rightarrow> int \<Rightarrow> agent list \<Rightarrow> (agent list \<times> replacement list) result" where
  "replace_underperformers t cyc ws = (let bad = default_underperformers t in
     if bad = [] then Inr (ws, []) else replace_all cyc bad ws)"

subsection \<open>A cycle\<close>

record coordinator =
  co_memory :: shared_memory
  co_tracker :: tracker
  co_agents :: "agent list"
  co_last_artifact_graph :: "artifact_graph option"

record cycle_execution =
  cx_results :: "task_result list"
  cx_blocked :: "blocked_task list"
  cx_replacements :: "replacement list"
  cx_memory_summary :: memory_summary
  cx_artifact_graph :: artifact_graph

text \<open>The results reach memory and tracker; \<open>clocks\<close> gives the clock readings of the entries of a
  result and of its performance record.\<close>

definition absorb_result ::
  "(task_result \<Rightarrow> (int \<times> rat) list \<times> rat) \<Rightarrow> int \<Rightarrow> task_result \<Rightarrow> shared_memory \<times> tracker \<Rightarrow> shared_memory \<times> tracker" where
  "absorb_result clocks cyc r mt =
    (let m1 = apply_entries (fst mt) (fst (clocks r)) (rt_memory_entries r) cyc (rt_agent_id r);
         (p, t1) = record_task (snd mt) r;
         m2 = snd (record_performance m1 (snd (clocks r)) (rt_agent_id r) cyc (ap_tasks_completed p)
                (ap_tasks_failed p) (ap_avg_duration_ms p) (ap_score p))
     in (m2, t1))"

definition run_cycle ::
  "runner \<Rightarrow> ((agent \<times> prepared_task) list \<Rightarrow> (agent \<times> prepared_task) list)
    \<Rightarrow> (task_result \<Rightarrow> (int \<times> rat) list \<times> rat) \<Rightarrow> int \<Rightarrow> coordinator \<Rightarrow> (cycle_execution \<times> coordinator) result" where
  "run_cycle run order clocks cyc c =
     rbind (execute_dag run order (co_memory c) (build_initial_tasks cyc) empty_graph (co_agents c)) (\<lambda>st.
     let results = sort_key rt_task_id (ds_results st);
         (m, t) = fold (absorb_result clocks cyc) results (co_memory c, co_tracker c) in
     rbind (replace_underperformers t cyc (ds_agents st)) (\<lambda>(ws, reps).
     rbind (graph_dict (ds_graph st)) (\<lambda>_.
     Inr (\<lparr>cx_results = results, cx_blocked = ds_blocked st, cx_replacements = reps,
           cx_memory_summary = memory_snapshot m, cx_artifact_graph = ds_graph st\<rparr>,
          \<lparr>co_memory = m, co_tracker = t, co_agents = ws, co_last_artifact_graph = Some (ds_graph st)\<rparr>))))"

subsection \<open>Scores stay in range\<close>

lemma fl_literals:
  "fl (3 / 5) = 5404319552844595 / 2 ^ 53" "fl (2 / 5) = 3602879701896397 / 2 ^ 53"
  "fl (7 / 10) = 3152519739159347 / 2 ^ 52" "fl (3 / 10) = 5404319552844595 / 2 ^ 54"
  by code_simp+

text \<open>The weighted mean of two numbers of an interval lies in the interval, up to the rounding.\<close>

definition near :: "int \<Rightarrow> rat \<Rightarrow> bool" where
  "near k x \<longleftrightarrow> of_int k / 10000 - 1 / 10 ^ 15 \<le> x \<and> x \<le> 1 + 1 / 10 ^ 15"

lemma next_score_near:
  assumes "0 \<le> k" "k \<le> 10000" "near k s" "near k c"
  shows "near k (next_score s c)"
proof -
  define l :: rat where "l = of_int k / 10000"
  have l: "0 \<le> l" "l \<le> 1" using assms(1,2) by (simp_all add: l_def)
  have s: "l - 1 / 10 ^ 15 \<le> s" "s \<le> 1 + 1 / 10 ^ 15" and c: "l - 1 / 10 ^ 15 \<le> c" "c \<le> 1 + 1 / 10 ^ 15"
    using assms(3,4) by (simp_all add: near_def l_def)
  let ?a = "s * fl (6 / 10)" and ?b = "c * fl (4 / 10)"
  have a: "\<bar>?a\<bar> \<le> 2" "(l - 1 / 10 ^ 15) * fl (6 / 10) \<le> ?a" "?a \<le> (1 + 1 / 10 ^ 15) * fl (6 / 10)"
    using s l by (simp_all add: fl_literals abs_le_iff)
  have b: "\<bar>?b\<bar> \<le> 2" "(l - 1 / 10 ^ 15) * fl (4 / 10) \<le> ?b" "?b \<le> (1 + 1 / 10 ^ 15) * fl (4 / 10)"
    using c l by (simp_all add: fl_literals abs_le_iff)
  have ab: "l - 1 / 10 ^ 13 \<le> fl ?a + fl ?b" "fl ?a + fl ?b \<le> 1 + 1 / 10 ^ 13"
    using fl_close [OF a(1)] fl_close [OF b(1)] a(2,3) b(2,3) l by (simp_all add: fl_literals)
  then have "\<bar>fl ?a + fl ?b\<bar> \<le> 2" using l by (simp add: abs_le_iff)
  from fl_close [OF this] ab have "l - 1 / 10 ^ 12 \<le> fl (fl ?a + fl ?b)" "fl (fl ?a + fl ?b) \<le> 1 + 1 / 10 ^ 12"
    by simp_all
  then have "of_int k - 2 / 5 \<le> fl (fl ?a + fl ?b) * 10000" "fl (fl ?a + fl ?b) * 10000 \<le> of_int 10000 + 2 / 5"
    by (simp_all add: l_def)
  from round_to_bounds [OF _ _ this] assms(1,2) show ?thesis
    by (simp add: next_score_def near_def)
qed

lemma near_mono: "near k x \<Longrightarrow> j \<le> k \<Longrightarrow> near j x"
proof -
  assume h: "near k x" "j \<le> k"
  have "of_int j / 10000 \<le> (of_int k / 10000 :: rat)" using h(2) by (simp add: divide_right_mono)
  then show "near j x" using h(1) by (simp add: near_def)
qed

lemma candidate_failure_instant: "near 4750 (candidate_score False 0)"
proof -
  have "candidate_score False 0 = fl (475 / 1000)" by code_simp
  then show ?thesis using fl_close [of "475 / 1000"] by (simp add: near_def)
qed

lemma candidate_near:
  assumes "0 \<le> d" "d \<le> 500 * 10 ^ 12"
  shows "near (if success then 7000 else 1750) (candidate_score success d)"
proof -
  let ?x = "fl (d / 500)" and ?r = "if success then 1 else 1 / 4 :: rat"
  have x: "0 \<le> ?x"
    using assms(1) by (simp add: fl_nonneg)
  have one: "1 - 1 / 10 ^ 15 \<le> fl (1 + ?x)"
  proof -
    have "1 * (1 - 1 / 2 ^ 53) \<le> (1 + ?x) * (1 - 1 / 2 ^ 53)" using x by (intro mult_right_mono) simp_all
    also have "\<dots> \<le> fl (1 + ?x)" using x by (intro fl_ge) simp
    finally show ?thesis by simp
  qed
  then have r: "1 / fl (1 + ?x) \<le> 1 + 1 / 10 ^ 14" "0 \<le> 1 / fl (1 + ?x)"
    by (simp_all add: pos_divide_le_eq)
  have small: "0 \<le> y \<Longrightarrow> y \<le> 1 + 1 / 10 ^ 14 \<Longrightarrow> fl y \<le> 1 + 2 / 10 ^ 14" for y
    using fl_close(2) [of y] by simp
  have dc: "0 \<le> fl (1 / fl (1 + ?x))" "fl (1 / fl (1 + ?x)) \<le> 1 + 2 / 10 ^ 14"
    using fl_nonneg [OF r(2)] small [OF r(2,1)] by simp_all
  let ?c = "fl (1 / fl (1 + ?x))"
  let ?a = "fl (7 / 10) * ?r" and ?b = "fl (3 / 10) * ?c"
  have a: "\<bar>?a\<bar> \<le> 2" and b: "\<bar>?b\<bar> \<le> 2" "0 \<le> ?b" "?b \<le> 3 / 10 + 1 / 10 ^ 13"
    using dc by (simp_all add: fl_literals abs_le_iff)
  have ab: "(if success then 7 / 10 else 175 / 1000) - 1 / 10 ^ 14 \<le> fl ?a + fl ?b" "fl ?a + fl ?b \<le> 1 + 2 / 10 ^ 13"
    using fl_close [OF a] fl_close [OF b(1)] b(2,3) by (simp_all add: fl_literals split: if_splits)
  then have "\<bar>fl ?a + fl ?b\<bar> \<le> 2" by (simp add: abs_le_iff split: if_splits)
  from fl_close [OF this] ab
  have "(if success then 7 / 10 else 175 / 1000) - 1 / 10 ^ 13 \<le> fl (fl ?a + fl ?b)" "fl (fl ?a + fl ?b) \<le> 1 + 3 / 10 ^ 13"
    by (simp_all split: if_splits)
  then have "of_int (if success then 7000 else 1750) - 2 / 5 \<le> fl (fl ?a + fl ?b) * 10000"
    "fl (fl ?a + fl ?b) * 10000 \<le> of_int 10000 + 2 / 5"
    by (simp_all split: if_splits)
  from round_to_bounds [OF _ _ this] show ?thesis
    by (simp add: candidate_score_def near_def Let_def split: if_splits)
qed

definition record_tasks :: "task_result list \<Rightarrow> tracker \<Rightarrow> tracker" where
  "record_tasks rs t = fold (\<lambda>r t. snd (record_task t r)) rs t"

definition tracker_near :: "int \<Rightarrow> tracker \<Rightarrow> bool" where
  "tracker_near k t \<longleftrightarrow> (\<forall>ip \<in> set t. near k (ap_score (snd ip)))"

lemma near_one: "k \<le> 10000 \<Longrightarrow> near k 1"
proof -
  assume "k \<le> 10000"
  then have "(of_int k :: rat) \<le> of_int 10000" by (simp only: of_int_le_iff)
  then show "near k 1" by (simp add: near_def)
qed

lemma record_task_near:
  assumes "0 \<le> k" "k \<le> 10000" "tracker_near k t"
    and "near k (candidate_score (rt_status r = ''success'') (rt_duration_ms r))"
  shows "tracker_near k (snd (record_task t r))"
proof -
  have "near k (ap_score (performance_of t (rt_agent_id r)))"
    using assms(2,3) near_one [of k]
    by (fastforce simp: performance_of_def fresh_performance_def tracker_near_def split: option.splits dest: map_of_SomeD)
  then have "near k (ap_score (fst (record_task t r)))"
    using next_score_near [OF assms(1,2) _ assms(4)]
    by (simp add: record_task_def update_performance_def Let_def)
  moreover have "set (AList.update i p t) \<subseteq> insert (i, p) (set t)" for i p
    by (induction t) auto
  ultimately show ?thesis
    using assms(3) by (fastforce simp: record_task_def tracker_near_def Let_def)
qed

lemma record_tasks_near:
  assumes "0 \<le> k" "k \<le> 10000"
    and "\<And>r. r \<in> set rs \<Longrightarrow> near k (candidate_score (rt_status r = ''success'') (rt_duration_ms r))"
  shows "tracker_near k t \<Longrightarrow> tracker_near k (record_tasks rs t)"
  using assms(3)
proof (induction rs arbitrary: t)
  case (Cons r rs)
  then have "tracker_near k (snd (record_task t r))" by (intro record_task_near assms(1,2)) simp_all
  then show ?case using Cons by (simp add: record_tasks_def)
qed (simp add: record_tasks_def)

lemma near_not_underperforming: "tracker_near 4750 t \<Longrightarrow> default_underperformers t = []"
proof -
  assume h: "tracker_near 4750 t"
  have "fl (9 / 20) \<le> 451 / 1000" by code_simp
  then have "\<not> ap_score (snd ip) < fl (9 / 20)" if "ip \<in> set t" for ip
    using h that by (force simp: tracker_near_def near_def)
  then show ?thesis by (auto simp: default_underperformers_def underperformers_def filter_empty_conv)
qed

text \<open>Only two failures in a row make an agent an underperformer.\<close>

lemma underperformer_failures:
  "i \<in> set (underperformers s n t) \<Longrightarrow> \<exists>r. (i, r) \<in> set t \<and> n \<le> ap_consecutive_failures r \<and> ap_score r < s"
  by (auto simp: underperformers_def)

subsection \<open>Properties\<close>

text \<open>Scores stay between 0.175 and 1 (up to the rounding of doubles), whatever the agents do.  An agent that
  fails at once (duration 0, as the coordinator records every agent that raises) never scores below 0.475,
  so it is above the threshold 0.45 and no number of such failures makes it an underperformer.\<close>

theorem instant_failures_not_replaced:
  assumes "\<And>r. r \<in> set rs \<Longrightarrow> 0 \<le> rt_duration_ms r \<and> rt_duration_ms r \<le> 500 * 10 ^ 12"
  shows "tracker_near 1750 (record_tasks rs [])
    \<and> ((\<forall>r \<in> set rs. rt_status r = ''success'' \<or> rt_duration_ms r = 0) \<longrightarrow> default_underperformers (record_tasks rs []) = [])"
proof -
  have c: "near 1750 (candidate_score (rt_status r = ''success'') (rt_duration_ms r))" if "r \<in> set rs" for r
    using candidate_near [where success = "rt_status r = ''success''" and d = "rt_duration_ms r"] assms [OF that]
    by (auto intro: near_mono split: if_splits)
  have "near 4750 (candidate_score (rt_status r = ''success'') (rt_duration_ms r))"
    if "r \<in> set rs" "rt_status r = ''success'' \<or> rt_duration_ms r = 0" for r
    using candidate_near [where success = True and d = "rt_duration_ms r"] assms [OF that(1)] that(2) candidate_failure_instant
    by (cases "rt_status r = ''success''") (auto intro: near_mono)
  then have "tracker_near 4750 (record_tasks rs [])"
    if "\<forall>r \<in> set rs. rt_status r = ''success'' \<or> rt_duration_ms r = 0"
    using that by (intro record_tasks_near) (simp_all add: tracker_near_def)
  moreover have "tracker_near 1750 (record_tasks rs [])"
    by (rule record_tasks_near [OF _ _ c]) (simp_all add: tracker_near_def)
  ultimately show ?thesis using near_not_underperforming by blast
qed

theorem instant_failures_not_replaced_witness:
  "default_underperformers (record_tasks (replicate 1000
     (failure_result (new_agent ''zk_architect'' Architecture) (hd (build_initial_tasks 1)) (RuntimeError ''x''))) []) = []"
  by (rule instant_failures_not_replaced [THEN conjunct2, THEN mp]) (simp_all add: failure_result_def)

end
