(* ===== verification/Plonk_Circuit.thy ===== *)
theory Plonk_Circuit
  imports Stub_Proofs
begin

text \<open>
  The PLONK circuit of the landed-cost calculation: its eight gates (\<open>zk/compiler/plonk_adapter.py\<close>)
  and the assignment of its wires (\<open>zk/witness/generator.py\<close>).  Field elements are integers below
  \<open>field_order\<close> (\<open>zk/field_utils.py\<close>), the order of one of the two Pasta fields.
\<close>

definition field_order :: int where
  "field_order = 28948022309329048855892746252171976963363056481941647379679742748393362948097"

lemma field_order_pos [simp]: "0 < field_order"
  by (simp add: field_order_def)

subsection \<open>The gates\<close>

record plonk_gate =
  pg_gate_id :: int
  pg_description :: string
  pg_wire_a :: string
  pg_wire_b :: string
  pg_wire_c :: string
  pg_q_L :: int
  pg_q_R :: int
  pg_q_M :: int
  pg_q_O :: int
  pg_q_C :: int

definition minus_one :: int where "minus_one = field_order - 1"
definition plonk_circuit_version :: string where "plonk_circuit_version = ''import-landed-cost-plonk-v2-halo2''"
definition backend_framework :: string where "backend_framework = ''halo2''"

definition public_binding_targets :: "string list" where
  "public_binding_targets = [''landed_cost_fp'', ''trace_hash_limb_0'', ''trace_hash_limb_1'', ''trace_hash_limb_2'',
     ''trace_hash_limb_3'', ''circuit_hash_limb_0'', ''circuit_hash_limb_1'', ''circuit_hash_limb_2'',
     ''circuit_hash_limb_3'', ''public_inputs_hash_limb_0'', ''public_inputs_hash_limb_1'',
     ''public_inputs_hash_limb_2'', ''public_inputs_hash_limb_3'']"

text \<open>The two shapes of the gates: a product and a sum.\<close>

definition mul_gate :: "int \<Rightarrow> string \<Rightarrow> string \<Rightarrow> string \<Rightarrow> string \<Rightarrow> plonk_gate" where
  "mul_gate n d a b c = \<lparr>pg_gate_id = n, pg_description = d, pg_wire_a = a, pg_wire_b = b, pg_wire_c = c,
     pg_q_L = 0, pg_q_R = 0, pg_q_M = 1, pg_q_O = minus_one, pg_q_C = 0\<rparr>"

definition add_gate :: "int \<Rightarrow> string \<Rightarrow> string \<Rightarrow> string \<Rightarrow> string \<Rightarrow> plonk_gate" where
  "add_gate n d a b c = \<lparr>pg_gate_id = n, pg_description = d, pg_wire_a = a, pg_wire_b = b, pg_wire_c = c,
     pg_q_L = 1, pg_q_R = 1, pg_q_M = 0, pg_q_O = minus_one, pg_q_C = 0\<rparr>"

definition plonk_gates :: "plonk_gate list" where
  "plonk_gates = [
     mul_gate 0 ''extended_value'' ''customs_value_fp'' ''quantity_fp'' ''extended_value_fp'',
     mul_gate 1 ''base_duty_copy'' ''duty_amount_fp'' ''one_fp'' ''duty_amount_fp'',
     mul_gate 2 ''section_301_copy'' ''s301_amount_fp'' ''one_fp'' ''s301_amount_fp'',
     mul_gate 3 ''mpf_amount_copy'' ''mpf_amount_fp'' ''one_fp'' ''mpf_amount_fp'',
     mul_gate 4 ''hmf_amount_copy'' ''hmf_amount_fp'' ''one_fp'' ''hmf_amount_fp'',
     add_gate 5 ''fee_partial'' ''duty_amount_fp'' ''s301_amount_fp'' ''fee_partial_fp'',
     add_gate 6 ''fee_full'' ''fee_partial_fp'' ''mpf_hmf_sum_fp'' ''fee_full_fp'',
     add_gate 7 ''landed_cost'' ''base_sum_fp'' ''fee_full_fp'' ''landed_cost_fp'']"

record plonk_circuit =
  pc_version :: string
  pc_n_gates :: int
  pc_gates :: "plonk_gate list"
  pc_selector_q_L :: "int list"
  pc_selector_q_R :: "int list"
  pc_selector_q_M :: "int list"
  pc_selector_q_O :: "int list"
  pc_selector_q_C :: "int list"
  pc_public_binding_targets :: "string list"
  pc_circuit_hash :: string

definition gate_payload :: "plonk_gate \<Rightarrow> pyv" where
  "gate_payload g = PDict [(''gate_id'', PInt (pg_gate_id g)), (''description'', PStr (pg_description g)),
     (''q_L'', PInt (pg_q_L g)), (''q_R'', PInt (pg_q_R g)), (''q_M'', PInt (pg_q_M g)),
     (''q_O'', PInt (pg_q_O g)), (''q_C'', PInt (pg_q_C g))]"

definition circuit_payload :: "plonk_gate list \<Rightarrow> pyv" where
  "circuit_payload gates = PDict [(''version'', PStr plonk_circuit_version), (''framework'', PStr backend_framework),
     (''gates'', PList (map gate_payload gates)), (''public_binding_targets'', PList (map PStr public_binding_targets))]"

definition compute_circuit_hash :: "plonk_gate list \<Rightarrow> string result" where
  "compute_circuit_hash gates = rbind (canonical_json (circuit_payload gates)) (\<lambda>t. Inr (sha256_hex t))"

definition compile_circuit :: "plonk_circuit result" where
  "compile_circuit = (let gates = plonk_gates in rbind (compute_circuit_hash gates) (\<lambda>h.
     Inr \<lparr>pc_version = plonk_circuit_version, pc_n_gates = int (length gates), pc_gates = gates,
       pc_selector_q_L = map pg_q_L gates, pc_selector_q_R = map pg_q_R gates, pc_selector_q_M = map pg_q_M gates,
       pc_selector_q_O = map pg_q_O gates, pc_selector_q_C = map pg_q_C gates,
       pc_public_binding_targets = public_binding_targets, pc_circuit_hash = h\<rparr>))"

definition selectors_dict :: "plonk_circuit \<Rightarrow> (string \<times> int list) list" where
  "selectors_dict c = [(''q_L'', pc_selector_q_L c), (''q_R'', pc_selector_q_R c), (''q_M'', pc_selector_q_M c),
     (''q_O'', pc_selector_q_O c), (''q_C'', pc_selector_q_C c)]"

subsection \<open>Fixed-point amounts\<close>

definition fixed_point_scale :: int where "fixed_point_scale = 10 ^ 6"

text \<open>\<open>to_integral_value(rounding=ROUND_HALF_UP)\<close> followed by \<open>int\<close>.\<close>

definition integral_value :: "dec \<Rightarrow> int" where
  "integral_value d = (if dneg d then - 1 else 1) * dec_rescale 0 d"

text \<open>A product with an exponent above the context's \<open>Emax\<close> raises \<open>decimal.Overflow\<close>.\<close>

definition scaled :: "decimal \<Rightarrow> int result" where
  "scaled x = (case x of
       NaN sig \<Rightarrow> Inl (if sig then InvalidOperation else ValueError ''cannot convert NaN to integer'')
     | Infinity s \<Rightarrow> Inl OverflowError
     | Fin d \<Rightarrow> let m = dec_mul d (dec_of_int fixed_point_scale) in
         if dcoef m \<noteq> 0 \<and> ndigits (dcoef m) + dexpo m - 1 > 999999 then Inl OverflowError
         else Inr (integral_value m))"

definition to_fixed_point :: "pyv \<Rightarrow> int result" where
  "to_fixed_point v = (case decimal_of_string (py_str v) of
       None \<Rightarrow> Inl InvalidOperation
     | Some x \<Rightarrow> rbind (scaled x) (\<lambda>n. Inr (n mod field_order)))"

subsection \<open>Hashes as field elements\<close>

text \<open>\<open>hex_value[index:index + 16]\<close> for the four indices, each read by \<open>int(s, 16)\<close>.\<close>

definition limb :: "string \<Rightarrow> nat \<Rightarrow> int result" where
  "limb s i = (case py_int16 (take 16 (drop (16 * i) s)) of
     Some n \<Rightarrow> Inr n | None \<Rightarrow> Inl (ValueError ''invalid literal for int() with base 16''))"

definition hash_hex_to_limbs :: "string \<Rightarrow> int list result" where
  "hash_hex_to_limbs s = (if length s \<noteq> 64
     then Inl (ValueError (''Expected 64 hex chars, got '' @ int_text (int (length s))))
     else rmap (limb s) [0, 1, 2, 3])"

definition canonical_public_inputs_hash :: "(string \<times> string) list \<Rightarrow> string result" where
  "canonical_public_inputs_hash inputs = rbind (canonical_json (PDict (map (\<lambda>(k, v). (k, PStr v)) (sort_key fst inputs))))
     (\<lambda>t. Inr (sha256_hex t))"

definition build_instance_values :: "int \<Rightarrow> string \<Rightarrow> string \<Rightarrow> string \<Rightarrow> int list result" where
  "build_instance_values landed_cost_fp trace_hash circuit_hash public_inputs_hash =
     rbind (hash_hex_to_limbs trace_hash) (\<lambda>t. rbind (hash_hex_to_limbs circuit_hash) (\<lambda>c.
     rbind (hash_hex_to_limbs public_inputs_hash) (\<lambda>p. Inr (landed_cost_fp # t @ c @ p))))"

subsection \<open>Wire assignments\<close>

record plonk_assignment =
  as_a_col :: "int list"
  as_b_col :: "int list"
  as_c_col :: "int list"
  as_wire_map :: "(string \<times> int) list"
  as_public_inputs_hash :: string

definition verify_gate_constraints :: "plonk_assignment \<Rightarrow> bool list" where
  "verify_gate_constraints a =
     map (\<lambda>i. (as_a_col a ! i * as_b_col a ! i - as_c_col a ! i) mod field_order = 0) [0..<5]
     @ map (\<lambda>i. (as_a_col a ! i + as_b_col a ! i - as_c_col a ! i) mod field_order = 0) [5..<8]"

text \<open>\<open>int(value)\<close>: decimals are cut off, texts are read in base 10.\<close>

fun int10_digits :: "bool \<Rightarrow> int \<Rightarrow> string \<Rightarrow> int option" where
  "int10_digits started acc [] = (if started then Some acc else None)"
| "int10_digits started acc (c # cs) =
     (if c = CHR ''_'' \<and> started then (case cs of [] \<Rightarrow> None | d # _ \<Rightarrow> if is_digit d then int10_digits False acc cs else None)
      else if is_digit c then int10_digits True (10 * acc + digit_value c) cs else None)"

definition py_int10 :: "string \<Rightarrow> int option" where
  "py_int10 s = (let t = int_strip s; neg = (t \<noteq> [] \<and> hd t = CHR ''-'');
     u = (if t \<noteq> [] \<and> (hd t = CHR ''-'' \<or> hd t = CHR ''+'') then tl t else t)
   in map_option (\<lambda>n. if neg then - n else n) (int10_digits False 0 u))"

definition py_int :: "pyv \<Rightarrow> int result" where
  "py_int v = (case v of
       PInt n \<Rightarrow> Inr n
     | PBool b \<Rightarrow> Inr (if b then 1 else 0)
     | PDec (Fin d) \<Rightarrow> Inr ((if dneg d then - 1 else 1) *
         (if 0 \<le> dexpo d then dcoef d * pow10 (dexpo d) else dcoef d div pow10 (- dexpo d)))
     | PDec (Infinity s) \<Rightarrow> Inl OverflowError
     | PDec (NaN sig) \<Rightarrow> Inl (ValueError ''cannot convert NaN to integer'')
     | PStr s \<Rightarrow> (case py_int10 s of Some n \<Rightarrow> Inr n
         | None \<Rightarrow> Inl (ValueError ''invalid literal for int() with base 10''))
     | _ \<Rightarrow> Inl TypeError)"

definition key_of :: "(string \<times> 'v) list \<Rightarrow> string \<Rightarrow> 'v result" where
  "key_of kvs k = (case map_of kvs k of Some v \<Rightarrow> Inr v | None \<Rightarrow> Inl (KeyError k))"

definition derive_fee_components ::
  "(pyv \<Rightarrow> int option) \<Rightarrow> tariff_rule list \<Rightarrow> string \<Rightarrow> (string \<times> pyv) list \<Rightarrow> (int \<times> int \<times> int \<times> int) result" where
  "derive_fee_components int_of rules h private_inputs =
     rbind (validate_request int_of (PDict private_inputs)) (\<lambda>request.
     rbind (calculate_import_landed_cost int_of rules h request) (\<lambda>response. let r = rs_result response in
     rbind (to_fixed_point (PDec (Fin (cr_duty_amount r)))) (\<lambda>duty.
     rbind (to_fixed_point (PDec (Fin (cr_section_301_amount r)))) (\<lambda>s301.
     rbind (to_fixed_point (PDec (Fin (cr_mpf_amount r)))) (\<lambda>mpf.
     rbind (to_fixed_point (PDec (Fin (cr_hmf_amount r)))) (\<lambda>hmf. Inr (duty, s301, mpf, hmf)))))))"

text \<open>The wires, given the field elements read from the witness artifact.\<close>

definition wire_assignment ::
  "int \<Rightarrow> int \<Rightarrow> int \<Rightarrow> int \<Rightarrow> int \<Rightarrow> int \<times> int \<times> int \<times> int \<Rightarrow> string \<Rightarrow> plonk_assignment" where
  "wire_assignment customs_fp freight_fp insurance_fp quantity_fp landed_cost fees inputs_hash =
     (case fees of (duty, s301, mpf, hmf) \<Rightarrow>
      let extended_value = customs_fp * quantity_fp mod field_order; one = 1;
          fee_partial = (duty + s301) mod field_order; mpf_hmf_sum = (mpf + hmf) mod field_order;
          fee_full = (fee_partial + mpf_hmf_sum) mod field_order;
          base_sum = (extended_value + freight_fp + insurance_fp) mod field_order in
      \<lparr>as_a_col = [customs_fp, duty, s301, mpf, hmf, duty, fee_partial, base_sum],
       as_b_col = [quantity_fp, one, one, one, one, s301, mpf_hmf_sum, fee_full],
       as_c_col = [extended_value, duty, s301, mpf, hmf, fee_partial, fee_full, landed_cost],
       as_wire_map = [(''customs_value_fp'', customs_fp), (''quantity_fp'', quantity_fp),
         (''extended_value_fp'', extended_value), (''one_fp'', one), (''duty_amount_fp'', duty),
         (''s301_amount_fp'', s301), (''mpf_amount_fp'', mpf), (''hmf_amount_fp'', hmf),
         (''fee_partial_fp'', fee_partial), (''mpf_hmf_sum_fp'', mpf_hmf_sum), (''fee_full_fp'', fee_full),
         (''base_sum_fp'', base_sum), (''landed_cost_fp'', landed_cost), (''freight_fp'', freight_fp),
         (''insurance_fp'', insurance_fp)],
       as_public_inputs_hash = inputs_hash\<rparr>)"

definition generate_assignment ::
  "(pyv \<Rightarrow> int option) \<Rightarrow> tariff_rule list \<Rightarrow> string \<Rightarrow> witness_artifact \<Rightarrow> plonk_assignment result" where
  "generate_assignment int_of rules h w = (let public = wa_public_inputs w; private = wa_private_inputs w in
     rbind (rbind (key_of private ''customs_value'') to_fixed_point) (\<lambda>customs_fp.
     rbind (rbind (key_of private ''freight'') to_fixed_point) (\<lambda>freight_fp.
     rbind (rbind (key_of private ''insurance'') to_fixed_point) (\<lambda>insurance_fp.
     rbind (rbind (key_of private ''quantity'') py_int) (\<lambda>quantity.
     rbind (rbind (key_of public ''landed_cost'') (\<lambda>s. to_fixed_point (PStr s))) (\<lambda>landed_cost.
     rbind (derive_fee_components int_of rules h private) (\<lambda>fees.
     rbind (canonical_public_inputs_hash public) (\<lambda>inputs_hash.
     Inr (wire_assignment customs_fp freight_fp insurance_fp (quantity mod field_order) landed_cost fees inputs_hash)))))))))"

subsection \<open>The compiled circuit\<close>

definition circuit_hash :: string where
  "circuit_hash = sha256_hex (canonical_text (circuit_payload plonk_gates))"

definition the_circuit :: plonk_circuit where
  "the_circuit = \<lparr>pc_version = plonk_circuit_version, pc_n_gates = 8, pc_gates = plonk_gates,
     pc_selector_q_L = map pg_q_L plonk_gates, pc_selector_q_R = map pg_q_R plonk_gates,
     pc_selector_q_M = map pg_q_M plonk_gates, pc_selector_q_O = map pg_q_O plonk_gates,
     pc_selector_q_C = map pg_q_C plonk_gates, pc_public_binding_targets = public_binding_targets,
     pc_circuit_hash = circuit_hash\<rparr>"

lemma circuit_payload_float: "\<not> has_float (circuit_payload gates)"
  by (auto simp: circuit_payload_def gate_payload_def list_ex_iff)

lemma compile_circuit_ok: "compile_circuit = Inr the_circuit"
  using canonical_json_text [OF circuit_payload_float]
  by (simp add: compile_circuit_def compute_circuit_hash_def the_circuit_def circuit_hash_def plonk_gates_def Let_def)

lemma the_circuit_hash [simp]: "pc_circuit_hash the_circuit = circuit_hash"
  by (simp add: the_circuit_def)

lemma circuit_hash_hex: "all_lower_hex circuit_hash" "length circuit_hash = 64"
  by (simp_all add: circuit_hash_def sha.digest_hex sha.digest_length)

subsection \<open>Amounts in cents are exact fixed-point numbers\<close>

lemma pow10_pos [simp]: "0 < pow10 k"
  by (simp add: pow10_def)

lemma half_even_exact: "0 < d \<Longrightarrow> half_even (m * d) d = m"
  by (simp add: half_even_def Let_def)

text \<open>Rounding to 28 digits loses nothing of a coefficient that is a shorter one followed by zeros.\<close>

lemma dec_fix_exact:
  assumes "0 \<le> n" "n < 10 ^ 28"
  obtains c e where "dec_fix (Dec s (n * 10 ^ 6) (- 2)) = Dec s c e" "0 \<le> c" "- 2 \<le> e" "c * 10 ^ nat (e + 2) = n * 10 ^ 6"
    "n \<noteq> 0 \<Longrightarrow> c \<noteq> 0" "e \<le> 4"
proof (cases "n * 10 ^ 6 < 10 ^ 28")
  case True
  then have "dec_fix (Dec s (n * 10 ^ 6) (- 2)) = Dec s (n * 10 ^ 6) (- 2)" using assms(1) by (intro dec_fix_id) simp_all
  then show thesis using that [of "n * 10 ^ 6" "- 2"] assms(1) by simp
next
  case False
  define k where "k = ndigits (n * 10 ^ 6) - prec"
  have "n * 10 ^ 6 < 10 ^ 34" using assms(2) by simp
  then have "ndigits (n * 10 ^ 6) \<le> 34" using ndigits_le_iff [of "n * 10 ^ 6" 34] assms(1) by simp
  moreover have "\<not> ndigits (n * 10 ^ 6) \<le> prec" using ndigits_le_28 [of "n * 10 ^ 6"] assms(1) False by simp
  ultimately have k: "0 < k" "k \<le> 6" by (simp_all add: k_def prec_def)
  define j where "j = nat k"
  have j: "0 < j" "j \<le> 6" "int j = k" using k by (simp_all add: j_def)
  define m where "m = n * 10 ^ (6 - j)"
  have split: "n * 10 ^ 6 = m * 10 ^ j"
    using j(2) by (simp add: m_def mult.assoc flip: power_add)
  have pk: "pow10 k = 10 ^ j" by (simp add: pow10_def j_def)
  have c: "half_even (n * 10 ^ 6) (pow10 k) = m"
    unfolding pk split by (rule half_even_exact) simp
  have nd: "n * 10 ^ 6 < 10 ^ nat (ndigits (n * 10 ^ 6))" using assms(1) by (intro ndigits_bound) simp
  have e: "nat (ndigits (n * 10 ^ 6)) = 28 + j" using k by (simp add: k_def j_def prec_def)
  have "m * 10 ^ j < 10 ^ 28 * 10 ^ j" using nd [unfolded e] unfolding split power_add .
  then have "m < 10 ^ 28" by (rule mult_right_less_imp_less) simp
  then have "\<not> ndigits m > prec" using ndigits_le_28 [of m] assms(1) by (simp add: m_def)
  moreover have "\<not> k \<le> 0" using k(1) by simp
  ultimately have "dec_fix (Dec s (n * 10 ^ 6) (- 2)) = Dec s m (- 2 + k)"
    by (simp only: dec_fix_def Let_def dec.sel k_def [symmetric] c if_False)
  moreover have "nat (k - 2 + 2) = j" using j(3) by simp
  ultimately show thesis using that [of m "k - 2"] split k assms(1) by (simp add: m_def)
qed

lemma rescale_cents:
  assumes "0 \<le> c" "- 2 \<le> e" "c * 10 ^ nat (e + 2) = m * 100" "e \<le> 4"
  shows "dec_rescale 0 (Dec s c e) = m"
proof -
  consider "0 \<le> e" | "e = - 1" | "e = - 2" using assms(2) by linarith
  then show ?thesis
  proof cases
    case 1
    then have "nat (e + 2) = nat e + 2" by simp
    then have "c * 10 ^ nat e * 100 = m * 100" using assms(3) by (simp add: power_add)
    then show ?thesis using 1 by (simp add: dec_rescale_def pow10_def)
  next
    case 2
    then have m: "c = m * 10" using assms(3) by simp
    have "c = 0" if "ndigits c + e < 0" using that 2 ndigits_pos [of c] by simp
    then show ?thesis using 2 m half_up_exact [of 10 m] by (auto simp: dec_rescale_def pow10_def)
  next
    case 3
    then have m: "c = m * 100" using assms(3) by simp
    have "c = 0" if "ndigits c + e < 0"
    proof -
      have "ndigits c \<le> 1" using that 3 by simp
      then have "c < 10 ^ 1" using ndigits_le_iff [of c 1] assms(1) by simp
      then show ?thesis using m assms(1) by simp
    qed
    then show ?thesis using 3 m half_up_exact [of 100 m] by (auto simp: dec_rescale_def pow10_def)
  qed
qed

lemma scaled_amount:
  assumes "amount_ok d"
  shows "scaled (Fin d) = Inr (dcoef d * 10 ^ 4)"
proof -
  have d: "dexpo d = - 2" "0 \<le> dcoef d" "dcoef d < 10 ^ 28" "dneg d \<Longrightarrow> dcoef d = 0"
    using assms by (auto simp: amount_ok_def)
  obtain c e where ce: "dec_fix (Dec (dneg d) (dcoef d * 10 ^ 6) (- 2)) = Dec (dneg d) c e" "0 \<le> c" "- 2 \<le> e"
    "c * 10 ^ nat (e + 2) = dcoef d * 10 ^ 6" "e \<le> 4"
    using dec_fix_exact [OF d(2,3)] by metis
  have m: "dec_mul d (dec_of_int fixed_point_scale) = Dec (dneg d) c e"
    using ce(1) d(1) by (simp add: dec_mul_def dec_of_int_def fixed_point_scale_def)
  have r: "dec_rescale 0 (Dec (dneg d) c e) = dcoef d * 10 ^ 4"
    using ce by (intro rescale_cents) simp_all
  have "1 * c \<le> 10 ^ nat (e + 2) * c" using ce(2) by (intro mult_right_mono) simp_all
  then have "c \<le> dcoef d * 10 ^ 6" using ce(4) by (simp add: mult.commute)
  then have "ndigits c \<le> 34" using ndigits_le_iff [of c 34] ce(2) d(3) by simp
  then show ?thesis using m r d(4) ce(5) by (auto simp: scaled_def Let_def integral_value_def)
qed

lemma amount_text: "amount_ok d \<Longrightarrow> decimal_of_string (py_str (PDec (Fin d))) = Some (Fin d)"
proof -
  assume ok: "amount_ok d"
  then have d: "dexpo d = - 2" "0 \<le> dcoef d" "dcoef d < 10 ^ 28" by (auto simp: amount_ok_def)
  have nd: "ndigits (dcoef d) \<le> 28" using ndigits_le_28 d(2,3) by (simp add: prec_def)
  have "dec_str d = dec_format_f d"
    using d(1) ndigits_pos [of "dcoef d"] length_dec_digits [of "dcoef d"] d(2)
    by (simp add: dec_str_def Let_def)
  then show ?thesis using format_f_reads_back [of d] d nd by simp
qed

lemma fixed_point_amount:
  assumes "amount_ok d"
  shows "to_fixed_point (PDec (Fin d)) = Inr (dcoef d * 10 ^ 4 mod field_order)"
    and "to_fixed_point (PStr (py_str (PDec (Fin d)))) = Inr (dcoef d * 10 ^ 4 mod field_order)"
  using amount_text [OF assms] scaled_amount [OF assms] by (simp_all add: to_fixed_point_def)

subsection \<open>Gates\<close>

lemma mod_sum_diff: "(x mod m + y mod m - l) mod m = (x + y - l) mod (m :: int)"
  by (metis mod_add_eq mod_diff_left_eq)

lemma gates_of_assignment:
  "verify_gate_constraints (wire_assignment cv freight_fp insurance_fp q landed (duty, s301, mpf, hmf) h) =
     replicate 7 True @ [(cv * q + freight_fp + insurance_fp + duty + s301 + mpf + hmf - landed) mod field_order = 0]"
proof -
  have "[0..<5] = [0, 1, 2, 3, 4 :: nat]" "[5..<8] = [5, 6, 7 :: nat]" by (simp_all add: upt_rec)
  moreover have "((cv * q mod field_order + freight_fp + insurance_fp) mod field_order
      + ((duty + s301) mod field_order + (mpf + hmf) mod field_order) mod field_order - landed) mod field_order
    = (cv * q + freight_fp + insurance_fp + duty + s301 + mpf + hmf - landed) mod field_order"
  proof -
    have "(cv * q mod field_order + freight_fp + insurance_fp) mod field_order
        = (cv * q + freight_fp + insurance_fp) mod field_order" by (simp add: mod_simps add.assoc)
    then show ?thesis by (simp only: mod_add_eq mod_sum_diff add.assoc)
  qed
  ultimately show ?thesis
    by (simp add: verify_gate_constraints_def wire_assignment_def Let_def mod_sum_diff mod_diff_right_eq numeral_eq_Suc
        del: mod_add_eq)
qed

subsection \<open>The assignment of a calculated request\<close>

lemma map_of_sort_key_fst: "distinct (map fst kvs) \<Longrightarrow> map_of (sort_key fst kvs) = map_of kvs"
  by (subst map_of_inject_set) (simp_all add: distinct_sort_key)

lemma inputs_hash_ok: "canonical_public_inputs_hash inputs
    = Inr (sha256_hex (canonical_text (PDict (map (\<lambda>(k, v). (k, PStr v)) (sort_key fst inputs)))))"
  by (simp add: canonical_public_inputs_hash_def canonical_json_text list_ex_iff split: prod.splits)

lemma landed_bounds:
  assumes "valid_request r" "in_range r" "rule \<in> set tariff_rules"
  shows "0 \<le> spec_landed r rule" "spec_landed r rule < 10 ^ 28" "spec_ecv r < 10 ^ 22"
  using spec_parts_bounds [OF assms] spec_ecv_nonneg [OF assms(1)] assms(1,2)
  by (auto simp: spec_landed_def in_range_def valid_request_def amount_ok_def)

lemma field_sum:
  assumes "c * q + f + i + d + s + m + h = l"
  shows "((c mod field_order) * (q mod field_order) + f mod field_order + i mod field_order + d mod field_order
    + s mod field_order + m mod field_order + h mod field_order - l mod field_order) mod field_order = 0"
proof -
  have "((c mod field_order) * (q mod field_order) + f mod field_order + i mod field_order + d mod field_order
    + s mod field_order + m mod field_order + h mod field_order - l mod field_order) mod field_order
    = (c * q + f + i + d + s + m + h - l) mod field_order"
    by (intro mod_diff_cong mod_add_cong mod_mult_cong) simp_all
  then show ?thesis using assms by simp
qed

lemma packet_witness_inputs:
  "wa_private_inputs (tp_witness_artifact (packet_of r resp producer cyc)) = request_items r"
  "wa_public_inputs (tp_witness_artifact (packet_of r resp producer cyc))
    = sort_key fst (zw_public_inputs (extract_witness r resp))"
  by (simp_all add: packet_of_def witness_of_def Let_def)

lemma wires:
  "as_c_col (wire_assignment cv f i q landed (d, s, m, h) ph) ! 7 = landed"
  "as_public_inputs_hash (wire_assignment cv f i q landed (d, s, m, h) ph) = ph"
  "map_of (as_wire_map (wire_assignment cv f i q landed (d, s, m, h) ph)) ''landed_cost_fp'' = Some landed"
  by (simp_all add: wire_assignment_def Let_def)

lemma engine_assignment:
  assumes "valid_request r" "in_range r" "int_of (PInt (quantity r)) = Some (quantity r)"
    and "calculate_import_landed_cost int_of tariff_rules dataset_hash r = Inr resp"
  obtains a rule where "generate_assignment int_of tariff_rules dataset_hash
      (tp_witness_artifact (packet_of r resp producer cyc)) = Inr a"
    "verify_gate_constraints a = replicate 8 True" "find_rule tariff_rules (hs_code r) = Inr rule"
    "as_c_col a ! 7 = spec_landed r rule * 10 ^ 4 mod field_order"
    "as_public_inputs_hash a = sha256_hex (canonical_text (PDict (map (\<lambda>(k, v). (k, PStr v))
        (sort_key fst (wa_public_inputs (tp_witness_artifact (packet_of r resp producer cyc)))))))"
    "map_of (as_wire_map a) ''landed_cost_fp'' = Some (spec_landed r rule * 10 ^ 4 mod field_order)"
proof -
  note unfold = calculate_unfold [of r int_of, OF assms(1,3)]
  obtain rule where rule: "find_rule tariff_rules (hs_code r) = Inr rule"
    using assms(4) unfold by (auto simp: result_simps)
  have mem: "rule \<in> set tariff_rules" using find_rule_Inr [OF rule] by simp
  have resp: "resp = response_of r rule dataset_hash (spec_amounts r rule)"
    using assms(4) by (simp add: unfold rule calc_amounts_spec [OF assms(1,2) mem])
  note parts = spec_parts_bounds [OF assms(1,2) mem] landed_bounds [OF assms(1,2) mem]
  let ?w = "tp_witness_artifact (packet_of r resp producer cyc)"
  have amounts: "amount_ok (customs_value r)" "amount_ok (freight r)" "amount_ok (insurance r)"
    "amount_ok (cents (spec_duty r rule))" "amount_ok (cents (spec_section_301 r rule))"
    "amount_ok (cents (spec_mpf r))" "amount_ok (cents (spec_hmf r))" "amount_ok (cents (spec_landed r rule))"
    using assms(1) parts by (auto simp: valid_request_def intro!: amount_ok_cents)
  note fp = amounts [THEN fixed_point_amount(1)] amounts(8) [THEN fixed_point_amount(2)]
  have res: "rs_result resp = spec_result r rule dataset_hash (spec_amounts r rule)"
    by (simp add: resp response_of_def Let_def)
  have w: "wa_private_inputs ?w = request_items r"
    "key_of (wa_public_inputs ?w) ''landed_cost'' = Inr (py_str (PDec (Fin (cents (spec_landed r rule)))))"
    unfolding packet_witness_inputs by (simp_all add: key_of_def map_of_sort_key_fst extract_witness_def res
        spec_result_def spec_amounts_def del: py_str.simps)
  have fees: "derive_fee_components int_of tariff_rules dataset_hash (request_items r)
      = Inr (spec_duty r rule * 10 ^ 4 mod field_order, spec_section_301 r rule * 10 ^ 4 mod field_order,
         spec_mpf r * 10 ^ 4 mod field_order, spec_hmf r * 10 ^ 4 mod field_order)"
    using fp validate_request_payload [of r int_of, OF assms(1,3)] assms(4)
    by (simp add: derive_fee_components_def request_payload_def res spec_result_def spec_amounts_def Let_def)
  let ?L = "spec_landed r rule * 10 ^ 4 mod field_order"
  let ?h = "sha256_hex (canonical_text (PDict (map (\<lambda>(k, v). (k, PStr v)) (sort_key fst (wa_public_inputs ?w)))))"
  let ?a = "wire_assignment (dcoef (customs_value r) * 10 ^ 4 mod field_order) (dcoef (freight r) * 10 ^ 4 mod field_order)
      (dcoef (insurance r) * 10 ^ 4 mod field_order) (quantity r mod field_order) ?L
      (spec_duty r rule * 10 ^ 4 mod field_order, spec_section_301 r rule * 10 ^ 4 mod field_order,
         spec_mpf r * 10 ^ 4 mod field_order, spec_hmf r * 10 ^ 4 mod field_order) ?h"
  have keys: "key_of (request_items r) ''customs_value'' = Inr (PDec (Fin (customs_value r)))"
    "key_of (request_items r) ''freight'' = Inr (PDec (Fin (freight r)))"
    "key_of (request_items r) ''insurance'' = Inr (PDec (Fin (insurance r)))"
    "key_of (request_items r) ''quantity'' = Inr (PInt (quantity r))"
    by (simp_all add: key_of_def request_items_def)
  have "generate_assignment int_of tariff_rules dataset_hash ?w = Inr ?a"
    unfolding generate_assignment_def Let_def w keys rbind_simps fp fees inputs_hash_ok
    using fp(9) by (simp add: py_int_def)
  moreover have "verify_gate_constraints ?a = replicate 8 True"
  proof -
    have "dcoef (customs_value r) * 10 ^ 4 * quantity r + dcoef (freight r) * 10 ^ 4 + dcoef (insurance r) * 10 ^ 4
        + spec_duty r rule * 10 ^ 4 + spec_section_301 r rule * 10 ^ 4 + spec_mpf r * 10 ^ 4 + spec_hmf r * 10 ^ 4
        = spec_landed r rule * 10 ^ 4"
      by (simp add: spec_landed_def spec_ecv_def algebra_simps)
    from field_sum [OF this] show ?thesis unfolding gates_of_assignment by (simp add: numeral_eq_Suc)
  qed
  ultimately show thesis
    by (rule that [OF _ _ rule]) (rule wires)+
qed

subsection \<open>Limbs of a hash\<close>

lemma hex_text_num: "all_lower_hex s \<Longrightarrow> hex_text (length s) (hex_num 0 s) = s"
proof (induction s rule: rev_induct)
  case (snoc c s)
  have c: "is_lower_hex c" and s: "all_lower_hex s" using snoc.prems by (simp_all add: all_lower_hex_def)
  obtain v where v: "hex_value c = Some v" "0 \<le> v" "v < 16" "hex_digit v = c"
    using c by (auto simp: is_lower_hex_def hex_value_def hex_digit_def)
  have "hex_num 0 (s @ [c]) = 16 * hex_num 0 s + v" using v(1) by (simp add: hex_num_def)
  then show ?case using snoc.IH [OF s] v by simp
qed simp

lemma limb_lower_hex:
  assumes "all_lower_hex s" "length s = 64" "i < 4"
  shows "limb s i = Inr (hex_num 0 (take 16 (drop (16 * i) s)))"
    and "hex_text 16 (hex_num 0 (take 16 (drop (16 * i) s))) = take 16 (drop (16 * i) s)"
    and "0 \<le> hex_num 0 (take 16 (drop (16 * i) s))" "hex_num 0 (take 16 (drop (16 * i) s)) < 2 ^ 64"
proof -
  let ?t = "take 16 (drop (16 * i) s)"
  have t: "all_lower_hex ?t" "length ?t = 16"
    using assms by (auto simp: all_lower_hex_def list_all_iff dest!: in_set_takeD in_set_dropD)
  then have "?t \<noteq> []" by force
  from py_int16_lower_hex [OF t(1) this] show "limb s i = Inr (hex_num 0 ?t)" by (simp add: limb_def)
  show "hex_text 16 (hex_num 0 ?t) = ?t" using hex_text_num [OF t(1)] t(2) by simp
  show "0 \<le> hex_num 0 ?t" "hex_num 0 ?t < 2 ^ 64" using hex_num_bounds [OF t(1), of 0] t(2) by simp_all
qed

lemma limbs_text:
  assumes "all_lower_hex s" "length s = 64"
  obtains ls where "hash_hex_to_limbs s = Inr ls" "concat (map (hex_text 16) ls) = s"
    "list_all (\<lambda>n. 0 \<le> n \<and> n < 2 ^ 64) ls" "length ls = 4"
proof -
  let ?l = "\<lambda>i. hex_num 0 (take 16 (drop (16 * i) s))"
  note l = limb_lower_hex [OF assms]
  have "hash_hex_to_limbs s = Inr [?l 0, ?l 1, ?l 2, ?l 3]"
    using l(1) [of 0] l(1) [of 1] l(1) [of 2] l(1) [of 3] assms(2) by (simp add: hash_hex_to_limbs_def)
  moreover have "concat (map (hex_text 16) [?l 0, ?l 1, ?l 2, ?l 3]) = s"
  proof -
    have "take 16 (drop 32 s) @ drop 48 s = drop 32 s" "take 16 (drop 16 s) @ drop 32 s = drop 16 s"
      using append_take_drop_id [of 16 "drop 32 s"] append_take_drop_id [of 16 "drop 16 s"] by simp_all
    moreover have "take 16 (drop 48 s) = drop 48 s" using assms(2) by simp
    ultimately have "take 16 s @ take 16 (drop 16 s) @ take 16 (drop 32 s) @ take 16 (drop 48 s) = s" by simp
    then show ?thesis using l(2) [of 0] l(2) [of 1] l(2) [of 2] l(2) [of 3] by simp
  qed
  moreover have "list_all (\<lambda>n. 0 \<le> n \<and> n < 2 ^ 64) [?l 0, ?l 1, ?l 2, ?l 3]"
    using l(3,4) [of 0] l(3,4) [of 1] l(3,4) [of 2] l(3,4) [of 3] by simp
  ultimately show thesis by (rule that) simp_all
qed

subsection \<open>Properties\<close>

text \<open>C16: the gates do not tie the landed cost to the inputs: for any customs value, quantity and fees, and for any
  landed cost whatsoever, some assignment satisfies all eight gates, because the gates 1 to 4 multiply by one
  and no gate connects the base sum or the sum of the last two fees with the other wires.\<close>

theorem circuit_binds_nothing:
  "\<exists>a. verify_gate_constraints a = replicate 8 True \<and> as_a_col a ! 0 = customs_fp \<and> as_b_col a ! 0 = quantity_fp
     \<and> take 4 (drop 1 (as_a_col a)) = [duty, s301, mpf, hmf] \<and> as_c_col a ! 7 = landed"
proof -
  let ?full = "duty + s301"
  let ?a = "\<lparr>as_a_col = [customs_fp, duty, s301, mpf, hmf, duty, ?full, landed - ?full],
    as_b_col = [quantity_fp, 1, 1, 1, 1, s301, 0, ?full],
    as_c_col = [customs_fp * quantity_fp, duty, s301, mpf, hmf, ?full, ?full, landed],
    as_wire_map = [], as_public_inputs_hash = []\<rparr>"
  have "[0..<5] = [0, 1, 2, 3, 4 :: nat]" "[5..<8] = [5, 6, 7 :: nat]" by (simp_all add: upt_rec)
  then show ?thesis
    by (intro exI [of _ ?a]) (simp add: verify_gate_constraints_def numeral_eq_Suc)
qed

text \<open>The four limbs of a SHA-256 digest are 64-bit numbers, hence field elements, and writing them as sixteen
  hexadecimal digits each gives the digest back; a text of any other length raises ValueError.\<close>

theorem limbs_round_trip:
  assumes "all_lower_hex s" "length s = 64"
  shows "\<exists>ls. hash_hex_to_limbs s = Inr ls \<and> length ls = 4 \<and> list_all (\<lambda>n. 0 \<le> n \<and> n < 2 ^ 64 \<and> n < field_order) ls
    \<and> concat (map (hex_text 16) ls) = s \<and> (\<exists>e. hash_hex_to_limbs (CHR ''0'' # s) = Inl (ValueError e))"
proof -
  obtain ls where "hash_hex_to_limbs s = Inr ls" "concat (map (hex_text 16) ls) = s"
    "list_all (\<lambda>n. 0 \<le> n \<and> n < 2 ^ 64) ls" "length ls = 4" by (rule limbs_text [OF assms])
  moreover have "(2 :: int) ^ 64 < field_order" by (simp add: field_order_def)
  ultimately show ?thesis using assms(2) by (auto simp: list_all_iff hash_hex_to_limbs_def intro: less_trans)
qed

theorem limbs_round_trip_witness: "\<exists>ls. hash_hex_to_limbs circuit_hash = Inr ls \<and> concat (map (hex_text 16) ls) = circuit_hash"
  using limbs_round_trip [OF circuit_hash_hex] by blast

end
