(* ===== verification/Key_Lifecycle.thy ===== *)
theory Key_Lifecycle
  imports Audit_Chain Artifacts
begin

text \<open>
  The log of key events (\<open>zk/keys/lifecycle.py\<close>): every event is hashed together with the digest of
  the one before.  The state is the module's \<open>_prev_hash\<close> and the records written to the log file; the
  clock is a text argument, a failing write of the file is not modelled.
\<close>

record key_record =
  kr_event_type :: string
  kr_recorded_at :: string
  kr_payload :: "(string \<times> pyv) list"
  kr_prev_hash :: string
  kr_current_hash :: string

record key_log =
  kl_prev_hash :: string
  kl_records :: "key_record list"

definition empty_key_log :: key_log where
  "empty_key_log = \<lparr>kl_prev_hash = zero_hash, kl_records = []\<rparr>"

definition key_event_payload :: "string \<Rightarrow> string \<Rightarrow> (string \<times> pyv) list \<Rightarrow> pyv" where
  "key_event_payload event_type recorded_at payload = PDict [(''event_type'', PStr event_type),
     (''recorded_at'', PStr recorded_at), (''payload'', PDict payload)]"

definition append_key_event :: "string \<Rightarrow> string \<Rightarrow> (string \<times> pyv) list \<Rightarrow> key_log \<Rightarrow> string result \<times> key_log" where
  "append_key_event now event_type payload l =
     (case canonical_json (key_event_payload event_type now payload) of
        Inl e \<Rightarrow> (Inl e, l)
      | Inr text \<Rightarrow> let h = sha256_hex (kl_prev_hash l @ text) in
          (Inr h, \<lparr>kl_prev_hash = h, kl_records = kl_records l @ [\<lparr>kr_event_type = event_type, kr_recorded_at = now,
             kr_payload = payload, kr_prev_hash = kl_prev_hash l, kr_current_hash = h\<rparr>]\<rparr>))"

definition log_key_generation ::
  "string \<Rightarrow> string \<Rightarrow> string \<Rightarrow> string \<Rightarrow> int \<Rightarrow> string \<Rightarrow> key_log \<Rightarrow> string result \<times> key_log" where
  "log_key_generation now circuit_h proving_key verification_key params_k version =
     append_key_event now ''key_generation'' [(''circuit_hash'', PStr circuit_h), (''proving_key_id'', PStr proving_key),
       (''verification_key_id'', PStr verification_key), (''params_k'', PInt params_k), (''backend_version'', PStr version)]"

definition log_key_rotation ::
  "string \<Rightarrow> string \<Rightarrow> string \<Rightarrow> string \<Rightarrow> string \<Rightarrow> string \<Rightarrow> key_log \<Rightarrow> string result \<times> key_log" where
  "log_key_rotation now old_h new_h proving_key verification_key reason =
     append_key_event now ''key_rotation'' [(''old_circuit_hash'', PStr old_h), (''new_circuit_hash'', PStr new_h),
       (''proving_key_id'', PStr proving_key), (''verification_key_id'', PStr verification_key), (''reason'', PStr reason)]"

text \<open>A new process imports the module anew: \<open>_prev_hash\<close> is the zero hash again, the file stays.\<close>

definition restart_process :: "key_log \<Rightarrow> key_log" where
  "restart_process l = l\<lparr>kl_prev_hash := zero_hash\<rparr>"

subsection \<open>The log of one process is a hash chain\<close>

definition key_text :: "key_record \<Rightarrow> string" where
  "key_text r = canonical_text (key_event_payload (kr_event_type r) (kr_recorded_at r) (kr_payload r))"

interpretation kc: hash_chain sha256_hex key_text
  by unfold_locales

definition key_links :: "key_log \<Rightarrow> (key_record \<times> string) list" where
  "key_links l = map (\<lambda>r. (r, kr_current_hash r)) (kl_records l)"

definition key_log_ok :: "key_log \<Rightarrow> bool" where
  "key_log_ok l \<longleftrightarrow> kc.linked zero_hash (key_links l) \<and> kc.end_hash zero_hash (key_links l) = kl_prev_hash l"

lemma empty_key_log_ok: "key_log_ok empty_key_log"
  by (simp add: key_log_ok_def key_links_def empty_key_log_def)

lemma append_key_event_cases:
  assumes "\<not> has_float (PDict payload)"
  shows "\<exists>r. append_key_event now event_type payload l = (Inr (kr_current_hash r),
      \<lparr>kl_prev_hash = kr_current_hash r, kl_records = kl_records l @ [r]\<rparr>)
    \<and> kr_current_hash r = sha256_hex (kl_prev_hash l @ key_text r) \<and> kr_event_type r = event_type"
proof -
  have "\<not> has_float (key_event_payload event_type now payload)" using assms by (simp add: key_event_payload_def)
  then show ?thesis by (simp add: append_key_event_def canonical_json_text key_text_def Let_def)
qed

lemma append_key_event_ok:
  assumes "key_log_ok l" shows "key_log_ok (snd (append_key_event now event_type payload l))"
proof (cases "canonical_json (key_event_payload event_type now payload)")
  case (Inr t)
  then have "canonical_text (key_event_payload event_type now payload) = t" by (auto simp: canonical_text_def canonical_json_def result_simps)
  then show ?thesis
    using Inr assms by (simp add: append_key_event_def key_log_ok_def key_links_def Let_def kc.linked_snoc key_text_def)
qed (use assms in \<open>simp add: append_key_event_def\<close>)

text \<open>Two logs of one process each that end in the same digest hold the same events.\<close>

lemma key_log_fixed:
  assumes "key_log_ok l" "key_log_ok k" "kl_prev_hash l = kl_prev_hash k"
    and "inj_on sha256_hex (kc.hashed zero_hash (key_links l) \<union> kc.hashed zero_hash (key_links k))"
    and "zero_hash \<notin> sha256_hex ` (kc.hashed zero_hash (key_links l) \<union> kc.hashed zero_hash (key_links k))"
  shows "map key_text (kl_records l) = map key_text (kl_records k)"
  using kc.end_hash_unique [OF _ _ _ _ assms(4) disjI2 [OF assms(5)]] assms(1-3)
  by (simp add: key_log_ok_def key_links_def zero_hash_def o_def)

text \<open>Events appended by one process keep the log a hash chain; the first event after a restart does not: its
  previous hash is the zero hash although the file ends with another one, so the log as a whole is no longer
  a chain, unless SHA-256 collides.\<close>

theorem restart_breaks_key_log:
  assumes "key_log_ok l" "\<not> has_float (PDict payload)"
  shows "key_log_ok (snd (append_key_event now event_type payload l))
    \<and> (kl_prev_hash l = zero_hash \<or> \<not> key_log_ok (snd (append_key_event now event_type payload (restart_process l)))
       \<or> (\<exists>t. collision (zero_hash @ t) (kl_prev_hash l @ t)))"
proof -
  obtain r where r: "append_key_event now event_type payload (restart_process l)
      = (Inr (kr_current_hash r), \<lparr>kl_prev_hash = kr_current_hash r, kl_records = kl_records l @ [r]\<rparr>)"
    "kr_current_hash r = sha256_hex (zero_hash @ key_text r)"
    using append_key_event_cases [OF assms(2), of now event_type "restart_process l"] by (auto simp: restart_process_def)
  have "kl_prev_hash l = zero_hash \<or> collision (zero_hash @ key_text r) (kl_prev_hash l @ key_text r)"
    if "key_log_ok (snd (append_key_event now event_type payload (restart_process l)))"
  proof -
    have "sha256_hex (zero_hash @ key_text r) = sha256_hex (kl_prev_hash l @ key_text r)"
      using that assms(1) r by (simp add: key_log_ok_def key_links_def kc.linked_snoc)
    then show ?thesis unfolding same_digest by auto
  qed
  then show ?thesis using append_key_event_ok [OF assms(1)] by blast
qed

theorem restart_breaks_key_log_witness:
  "\<exists>l. length (kl_records l) = 1 \<and> key_log_ok l
    \<and> (kl_prev_hash l = zero_hash \<or> \<not> key_log_ok (snd (append_key_event ''t'' ''key_rotation'' [] (restart_process l)))
       \<or> (\<exists>t. collision (zero_hash @ t) (kl_prev_hash l @ t)))"
proof -
  let ?l = "snd (append_key_event ''t'' ''key_generation'' [] empty_key_log)"
  have f: "\<not> has_float (PDict [])" by simp
  have ok: "key_log_ok ?l" by (rule restart_breaks_key_log [OF empty_key_log_ok f, THEN conjunct1])
  obtain r where "append_key_event ''t'' ''key_generation'' [] empty_key_log
      = (Inr (kr_current_hash r), \<lparr>kl_prev_hash = kr_current_hash r, kl_records = kl_records empty_key_log @ [r]\<rparr>)"
    using append_key_event_cases [OF f] by blast
  then have "length (kl_records ?l) = 1" by (simp add: empty_key_log_def)
  then show ?thesis using ok restart_breaks_key_log [OF ok f, of "''t''" "''key_rotation''"] by blast
qed

end
