(* ===== verification/Plonk_Verifier.thy ===== *)
theory Plonk_Verifier
  imports Plonk_Circuit Key_Lifecycle Sdk_Hashing "HOL-Library.AList"
begin

text \<open>
  The PLONK path: keys (\<open>zk/keys/manager.py\<close>), prover (\<open>zk/provers/plonk_prover.py\<close>) and verifier
  (\<open>zk/verifiers/plonk_verifier.py\<close>).  The native backend behind \<open>run_backend\<close> is a parameter: one
  function per command from the payload to the answer or the exception that \<open>run_backend\<close> raises.  An
  answer has the fields of the backend's output structures; those Python reads with a default are
  optional.  The log of key events is the state.
\<close>

subsection \<open>The native backend\<close>

record compile_output =
  bo_circuit_hash :: string
  bo_proving_key_id :: string
  bo_verification_key_id :: string
  bo_params_k :: int
  bo_backend_version :: "string option"
  bo_proving_manifest_path :: string
  bo_verification_manifest_path :: string

record prove_output =
  po_proof_bytes_hex :: string
  po_commitments :: "string list option"
  po_metadata :: "(string \<times> string) list option"

record verify_output =
  vo_valid :: "bool option"
  vo_reason :: "string option"
  vo_checks :: "string list option"
  vo_metadata :: "(string \<times> string) list option"

record backend =
  bk_compile :: "pyv \<Rightarrow> compile_output result"
  bk_prove :: "pyv \<Rightarrow> prove_output result"
  bk_verify :: "pyv \<Rightarrow> verify_output result"
  bk_key_root :: string

definition get_or :: "'a option \<Rightarrow> 'a \<Rightarrow> 'a" where
  "get_or x d = (case x of None \<Rightarrow> d | Some v \<Rightarrow> v)"

definition backend_version :: string where "backend_version = ''halo2-plonk-pasta-v1''"

definition str_items :: "string list \<Rightarrow> pyv" where
  "str_items xs = PList (map PStr xs)"

subsection \<open>Keys\<close>

record key_material =
  km_circuit_hash :: string
  km_proving_key_id :: string
  km_verification_key_id :: string
  km_params_k :: int
  km_proving_manifest_path :: string
  km_verification_manifest_path :: string
  km_version :: string

text \<open>A proving or verification key: circuit hash, key id, manifest, version and size.\<close>

record derived_key =
  dk_circuit_hash :: string
  dk_key_id :: string
  dk_manifest_path :: string
  dk_version :: string
  dk_params_k :: int

definition compile_payload :: "backend \<Rightarrow> plonk_circuit \<Rightarrow> pyv" where
  "compile_payload bk c = PDict [(''circuit_hash'', PStr (pc_circuit_hash c)), (''version'', PStr (pc_version c)),
     (''binding_targets'', str_items (pc_public_binding_targets c)), (''constraint_count'', PInt (pc_n_gates c)),
     (''key_root'', PStr (bk_key_root bk))]"

definition ensure_compiled :: "backend \<Rightarrow> string \<Rightarrow> plonk_circuit \<Rightarrow> key_log \<Rightarrow> key_material result \<times> key_log" where
  "ensure_compiled bk now c l = (case bk_compile bk (compile_payload bk c) of
     Inl e \<Rightarrow> (Inl e, l)
   | Inr r \<Rightarrow> let version = get_or (bo_backend_version r) backend_version in
       (case log_key_generation now (bo_circuit_hash r) (bo_proving_key_id r) (bo_verification_key_id r)
           (bo_params_k r) version l of
          (Inl e, l') \<Rightarrow> (Inl e, l')
        | (Inr _, l') \<Rightarrow> (Inr \<lparr>km_circuit_hash = bo_circuit_hash r, km_proving_key_id = bo_proving_key_id r,
            km_verification_key_id = bo_verification_key_id r, km_params_k = bo_params_k r,
            km_proving_manifest_path = bo_proving_manifest_path r,
            km_verification_manifest_path = bo_verification_manifest_path r, km_version = version\<rparr>, l')))"

definition derive_key ::
  "(key_material \<Rightarrow> derived_key) \<Rightarrow> backend \<Rightarrow> string \<Rightarrow> string \<Rightarrow> plonk_circuit \<Rightarrow> key_log \<Rightarrow> derived_key result \<times> key_log" where
  "derive_key key bk now circuit_h c l =
     (if pc_circuit_hash c \<noteq> circuit_h
      then (Inl (ValueError (''Circuit hash mismatch: expected '' @ pc_circuit_hash c @ '', got '' @ circuit_h)), l)
      else (case ensure_compiled bk now c l of (Inl e, l') \<Rightarrow> (Inl e, l') | (Inr m, l') \<Rightarrow> (Inr (key m), l')))"

definition derive_proving_key :: "backend \<Rightarrow> string \<Rightarrow> string \<Rightarrow> plonk_circuit \<Rightarrow> key_log \<Rightarrow> derived_key result \<times> key_log" where
  "derive_proving_key = derive_key (\<lambda>m. \<lparr>dk_circuit_hash = km_circuit_hash m, dk_key_id = km_proving_key_id m,
     dk_manifest_path = km_proving_manifest_path m, dk_version = km_version m, dk_params_k = km_params_k m\<rparr>)"

definition derive_verification_key :: "backend \<Rightarrow> string \<Rightarrow> string \<Rightarrow> plonk_circuit \<Rightarrow> key_log \<Rightarrow> derived_key result \<times> key_log" where
  "derive_verification_key = derive_key (\<lambda>m. \<lparr>dk_circuit_hash = km_circuit_hash m, dk_key_id = km_verification_key_id m,
     dk_manifest_path = km_verification_manifest_path m, dk_version = km_version m, dk_params_k = km_params_k m\<rparr>)"

subsection \<open>The prover\<close>

definition final_proof_payload ::
  "string \<Rightarrow> string list \<Rightarrow> string list \<Rightarrow> string \<Rightarrow> string \<Rightarrow> string \<Rightarrow> pyv" where
  "final_proof_payload blob commitments public circuit_h trace_h inputs_h = PDict [(''proof_bytes'', PStr blob),
     (''commitments'', str_items commitments), (''public_inputs'', str_items public), (''proving_system'', PStr ''plonk''),
     (''circuit_hash'', PStr circuit_h), (''trace_hash'', PStr trace_h), (''public_inputs_hash'', PStr inputs_h)]"

definition final_proof_hash ::
  "string \<Rightarrow> string list \<Rightarrow> string list \<Rightarrow> string \<Rightarrow> string \<Rightarrow> string \<Rightarrow> string result" where
  "final_proof_hash blob commitments public circuit_h trace_h inputs_h =
     rbind (canonical_json (final_proof_payload blob commitments public circuit_h trace_h inputs_h)) (\<lambda>t. Inr (sha256_hex t))"

definition prove_payload :: "backend \<Rightarrow> witness_artifact \<Rightarrow> string \<Rightarrow> string \<Rightarrow> plonk_assignment \<Rightarrow> int list \<Rightarrow> pyv" where
  "prove_payload bk w circuit_h trace_h a instance_values = PDict [(''input_hash'', PStr (wa_input_hash w)),
     (''output_hash'', PStr (wa_output_hash w)), (''circuit_hash'', PStr circuit_h), (''trace_hash'', PStr trace_h),
     (''public_inputs_hash'', PStr (as_public_inputs_hash a)), (''witness_hash'', PStr (wa_witness_hash w)),
     (''a_col'', str_items (map int_text (as_a_col a))), (''b_col'', str_items (map int_text (as_b_col a))),
     (''c_col'', str_items (map int_text (as_c_col a))),
     (''instance_values'', str_items (map int_text instance_values)), (''key_root'', PStr (bk_key_root bk))]"

definition plonk_metadata ::
  "(string \<times> string) list \<Rightarrow> plonk_circuit \<Rightarrow> key_material \<Rightarrow> string \<Rightarrow> string \<Rightarrow> witness_artifact \<Rightarrow> (string \<times> string) list" where
  "plonk_metadata md c k trace_h inputs_h w = [
     (''backend_version'', Artifacts.dict_get md ''backend_version'' backend_version), (''backend'', ''halo2-rust-subprocess''),
     (''circuit'', pc_version c), (''circuit_hash'', pc_circuit_hash c), (''trace_hash'', trace_h),
     (''public_inputs_hash'', inputs_h), (''params_k'', Artifacts.dict_get md ''params_k'' (int_text (km_params_k k))),
     (''proving_key_id'', Artifacts.dict_get md ''proving_key_id'' (km_proving_key_id k)),
     (''verification_key_id'', Artifacts.dict_get md ''verification_key_id'' (km_verification_key_id k)),
     (''trace_artifact_id'', wa_trace_artifact_id w), (''witness_hash'', wa_witness_hash w)]"

text \<open>The part of \<open>build_plonk_proof\<close> after the keys are there.\<close>

definition prove_with_keys ::
  "backend \<Rightarrow> (pyv \<Rightarrow> int option) \<Rightarrow> tariff_rule list \<Rightarrow> string \<Rightarrow> witness_artifact \<Rightarrow> string \<Rightarrow> string \<Rightarrow> int
    \<Rightarrow> plonk_circuit \<Rightarrow> key_material \<Rightarrow> proof_artifact result" where
  "prove_with_keys bk int_of rules h w trace_h producer cyc c k =
     rbind (generate_assignment int_of rules h w) (\<lambda>a.
     rbind (key_of (as_wire_map a) ''landed_cost_fp'') (\<lambda>landed.
     rbind (build_instance_values landed trace_h (pc_circuit_hash c) (as_public_inputs_hash a)) (\<lambda>vs.
     rbind (bk_prove bk (prove_payload bk w (pc_circuit_hash c) trace_h a vs)) (\<lambda>out.
     let blob = po_proof_bytes_hex out; commitments = get_or (po_commitments out) [];
         public = serialize_public_inputs (wa_public_inputs w) in
     rbind (final_proof_hash blob commitments public (pc_circuit_hash c) trace_h (as_public_inputs_hash a)) (\<lambda>final.
     build_proof_artifact ''plonk'' (''circuit_'' @ take 24 (pc_circuit_hash c)) (artifact_id w) commitments public
       (plonk_metadata (get_or (po_metadata out) []) c k trace_h (as_public_inputs_hash a) w)
       blob (wa_input_hash w) (wa_output_hash w) trace_h final producer cyc)))))"

definition build_plonk_proof ::
  "backend \<Rightarrow> (pyv \<Rightarrow> int option) \<Rightarrow> tariff_rule list \<Rightarrow> string \<Rightarrow> string \<Rightarrow> witness_artifact \<Rightarrow> string \<Rightarrow> string \<Rightarrow> int
    \<Rightarrow> key_log \<Rightarrow> proof_artifact result \<times> key_log" where
  "build_plonk_proof bk int_of rules h now w trace_h producer cyc l =
     (if wa_trace_hash w \<noteq> trace_h
      then (Inl (ValueError (''witness_artifact.trace_hash '' @ repr_string (wa_trace_hash w) @
              '' != expected trace_hash '' @ repr_string trace_h)), l)
      else (case compile_circuit of Inl e \<Rightarrow> (Inl e, l)
        | Inr c \<Rightarrow> (case ensure_compiled bk now c l of
            (Inl e, l') \<Rightarrow> (Inl e, l')
          | (Inr k, l') \<Rightarrow> (prove_with_keys bk int_of rules h w trace_h producer cyc c k, l'))))"

subsection \<open>The verifier\<close>

definition verifier_backend :: string where "verifier_backend = ''halo2-plonk-pasta-v1-verifier''"

definition dict_merge :: "(string \<times> 'v) list \<Rightarrow> (string \<times> 'v) list \<Rightarrow> (string \<times> 'v) list" where
  "dict_merge d e = fold (\<lambda>(k, v) d. AList.update k v d) e d"

text \<open>\<open>entry.split('=', 1)\<close> of every entry.\<close>

fun parse_entries :: "string list \<Rightarrow> (string \<times> string) list \<Rightarrow> (string \<times> string) list result" where
  "parse_entries [] acc = Inr acc"
| "parse_entries (e # es) acc =
     (if CHR ''='' \<notin> set e then Inl (ValueError (''invalid public input entry: '' @ repr_string e))
      else let k = takeWhile (\<lambda>c. c \<noteq> CHR ''='') e; v = tl (dropWhile (\<lambda>c. c \<noteq> CHR ''='') e) in
        if k = [] then Inl (ValueError (''invalid public input key: '' @ repr_string e))
        else parse_entries es (AList.update k v acc))"

definition parse_public_inputs :: "string list \<Rightarrow> (string \<times> string) list result" where
  "parse_public_inputs entries = rbind (parse_entries entries []) (\<lambda>d. Inr (sort_key fst d))"

text \<open>How the checks of \<open>verify_plonk_proof\<close> end: with the checks passed so far and an early
  INVALID, the final VALID, or an exception that the handler turns into INVALID.\<close>

datatype plonk_outcome =
    Rejected string "string list" "(string \<times> string) list"
  | Accepted string "string list" "(string \<times> string) list"
  | Errored py_error "string list"

definition attempt :: "'a result \<Rightarrow> string list \<Rightarrow> key_log \<Rightarrow> ('a \<Rightarrow> plonk_outcome \<times> key_log) \<Rightarrow> plonk_outcome \<times> key_log" where
  "attempt m checks l f = (case m of Inl e \<Rightarrow> (Errored e checks, l) | Inr x \<Rightarrow> f x)"

definition base_metadata :: "proof_artifact \<Rightarrow> (string \<times> string) list" where
  "base_metadata p = [(''proof_system'', pa_proof_system p), (''circuit_hash'', Artifacts.dict_get (pa_metadata p) ''circuit_hash'' [])]"

definition verify_payload :: "backend \<Rightarrow> proof_artifact \<Rightarrow> string \<Rightarrow> string \<Rightarrow> int list \<Rightarrow> pyv" where
  "verify_payload bk p circuit_h inputs_h instance_values = PDict [(''circuit_hash'', PStr circuit_h),
     (''trace_hash'', PStr (pa_trace_hash p)), (''public_inputs_hash'', PStr inputs_h),
     (''proof_bytes_hex'', PStr (pa_proof_blob_hex p)),
     (''instance_values'', str_items (map int_text instance_values)), (''key_root'', PStr (bk_key_root bk))]"

text \<open>The last part: the instance values and the answer of the backend.\<close>

definition ask_backend ::
  "backend \<Rightarrow> proof_artifact \<Rightarrow> (string \<times> string) list \<Rightarrow> plonk_circuit \<Rightarrow> string \<Rightarrow> string list \<Rightarrow> key_log
    \<Rightarrow> plonk_outcome \<times> key_log" where
  "ask_backend bk p inputs c inputs_h checks l =
     attempt (rbind (key_of inputs ''landed_cost'') (\<lambda>s. to_fixed_point (PStr s))) checks l (\<lambda>landed.
     attempt (build_instance_values landed (pa_trace_hash p) (pc_circuit_hash c) inputs_h) checks l (\<lambda>vs.
     attempt (bk_verify bk (verify_payload bk p (pc_circuit_hash c) inputs_h vs)) checks l (\<lambda>r.
     let checks = checks @ get_or (vo_checks r) [];
         md = dict_merge (base_metadata p) (get_or (vo_metadata r) []) in
     if \<not> get_or (vo_valid r) False
     then (Rejected (get_or (vo_reason r) ''Halo2 verification failed'') (checks @ [''halo2_verification_failed'']) md, l)
     else (Accepted (get_or (vo_reason r) ''Halo2 proof verified'') (checks @ [''halo2_verification_ok'']) md, l))))"

text \<open>The middle part: the hash of the public inputs, the final proof hash and the verification key.\<close>

definition check_bindings ::
  "backend \<Rightarrow> string \<Rightarrow> proof_artifact \<Rightarrow> (string \<times> string) list \<Rightarrow> plonk_circuit \<Rightarrow> string list \<Rightarrow> key_log
    \<Rightarrow> plonk_outcome \<times> key_log" where
  "check_bindings bk now p inputs c checks l =
     attempt (canonical_public_inputs_hash inputs) checks l (\<lambda>inputs_h.
     attempt (constant_time_equal inputs_h (Artifacts.dict_get (pa_metadata p) ''public_inputs_hash'' [])) checks l (\<lambda>same.
     if \<not> same then (Rejected ''public_inputs_hash binding mismatch'' (checks @ [''public_inputs_hash_binding_mismatch''])
         (AList.update ''expected_public_inputs_hash'' inputs_h (base_metadata p)), l)
     else let checks = checks @ [''public_inputs_hash_binding_ok''] in
     attempt (final_proof_hash (pa_proof_blob_hex p) (pa_commitments p) (pa_public_inputs p) (pc_circuit_hash c)
       (pa_trace_hash p) inputs_h) checks l (\<lambda>final.
     attempt (constant_time_equal final (pa_final_proof p)) checks l (\<lambda>same.
     if \<not> same then (Rejected ''final_proof binding mismatch'' (checks @ [''final_proof_binding_mismatch'']) (base_metadata p), l)
     else let checks = checks @ [''final_proof_binding_ok''] in
     (case derive_verification_key bk now (pc_circuit_hash c) c l of
        (Inl e, l') \<Rightarrow> (Errored e checks, l')
      | (Inr vk, l') \<Rightarrow> let claimed = Artifacts.dict_get (pa_metadata p) ''verification_key_id'' [] in
          if claimed \<noteq> [] \<and> claimed \<noteq> dk_key_id vk
          then (Rejected ''verification_key binding mismatch'' (checks @ [''verification_key_binding_mismatch''])
            (AList.update ''expected_verification_key_id'' (dk_key_id vk) (base_metadata p)), l')
          else ask_backend bk p inputs c inputs_h (checks @ [''verification_key_binding_ok'']) l')))))"

definition verify_steps :: "backend \<Rightarrow> string \<Rightarrow> proof_artifact \<Rightarrow> key_log \<Rightarrow> plonk_outcome \<times> key_log" where
  "verify_steps bk now p l =
    (if pa_proof_system p \<noteq> ''plonk''
     then (Rejected (''unsupported proof_system: '' @ repr_string (pa_proof_system p)) [''proof_system_check_failed''] (base_metadata p), l)
     else attempt (parse_public_inputs (pa_public_inputs p)) [] l (\<lambda>inputs.
     let checks = [''public_inputs_parse_ok''] in
     if ''landed_cost'' \<notin> fst ` set inputs
     then (Rejected ''missing landed_cost public input'' (checks @ [''landed_cost_public_input_missing'']) (base_metadata p), l)
     else attempt compile_circuit checks l (\<lambda>c.
     let checks = checks @ [''circuit_compile_ok''] in
     if Artifacts.dict_get (pa_metadata p) ''circuit_hash'' [] \<noteq> pc_circuit_hash c \<or> circuit_hash_of p \<noteq> pc_circuit_hash c
     then (Rejected ''circuit_hash binding mismatch'' (checks @ [''circuit_hash_binding_mismatch''])
       (AList.update ''expected_circuit_hash'' (pc_circuit_hash c) (base_metadata p)), l)
     else let checks = checks @ [''circuit_hash_binding_ok''] in
     if Artifacts.dict_get (pa_metadata p) ''trace_hash'' (pa_trace_hash p) \<noteq> pa_trace_hash p
     then (Rejected ''trace_hash metadata mismatch'' (checks @ [''trace_hash_binding_mismatch'']) (base_metadata p), l)
     else check_bindings bk now p inputs c (checks @ [''trace_hash_binding_ok'']) l)))"

text \<open>The verdict artifact of an outcome; \<open>str(exc)\<close> is \<open>error_text\<close>.\<close>

definition verdict_for :: "proof_artifact \<Rightarrow> string \<Rightarrow> int \<Rightarrow> plonk_outcome \<Rightarrow> verdict_artifact result" where
  "verdict_for p producer cyc out =
    (let build = (\<lambda>status reason checks md. build_verification_artifact (artifact_id p) verifier_backend status reason checks md
        producer cyc) in
     case out of
       Rejected reason checks md \<Rightarrow> build ''INVALID'' reason checks md
     | Accepted reason checks md \<Rightarrow> build ''VALID'' reason checks md
     | Errored e checks \<Rightarrow> build ''INVALID'' (''verification backend error: '' @ error_text e)
         (checks @ [''verification_backend_error'']) (base_metadata p))"

definition verify_plonk_proof ::
  "backend \<Rightarrow> string \<Rightarrow> proof_artifact \<Rightarrow> string \<Rightarrow> int \<Rightarrow> key_log \<Rightarrow> verdict_artifact result \<times> key_log" where
  "verify_plonk_proof bk now p producer cyc l =
     (case verify_steps bk now p l of (out, l') \<Rightarrow> (verdict_for p producer cyc out, l'))"

text \<open>What the callers of prover and verifier depend on: the native backend, pydantic's integers and the tariff table in use.\<close>

record zk_env =
  ze_backend :: backend
  ze_int_of :: "pyv \<Rightarrow> int option"
  ze_rules :: "tariff_rule list"
  ze_dataset_hash :: string

subsection \<open>When the verifier accepts\<close>

fun accepted :: "plonk_outcome \<Rightarrow> bool" where
  "accepted (Accepted _ _ _) = True"
| "accepted _ = False"

lemma verdict_for_total:
  "\<exists>v. verdict_for p producer cyc out = Inr v \<and> va_subject_artifact_id v = artifact_id p
     \<and> va_status v = (if accepted out then ''VALID'' else ''INVALID'')"
  by (cases out) (simp_all add: verdict_for_def Let_def build_verification_artifact_total verdict_of_def)

lemma accepted_attempt: "accepted (fst (attempt m checks l f)) \<longleftrightarrow> (\<exists>x. m = Inr x \<and> accepted (fst (f x)))"
  by (cases m) (simp_all add: attempt_def)

lemma compare_attempt:
  "is_ascii h \<Longrightarrow> (\<exists>same. constant_time_equal h x = Inr same \<and> same \<and> P) \<longleftrightarrow> x = h \<and> P"
  by (auto simp: constant_time_equal_def)

lemma ask_backend_accepts:
  "accepted (fst (ask_backend bk p inputs c inputs_h checks l)) \<longleftrightarrow>
    (\<exists>s landed vs r. key_of inputs ''landed_cost'' = Inr s \<and> to_fixed_point (PStr s) = Inr landed
      \<and> build_instance_values landed (pa_trace_hash p) (pc_circuit_hash c) inputs_h = Inr vs
      \<and> bk_verify bk (verify_payload bk p (pc_circuit_hash c) inputs_h vs) = Inr r \<and> vo_valid r = Some True)"
proof -
  have "get_or x False \<longleftrightarrow> x = Some True" for x by (cases x) (simp_all add: get_or_def)
  then show ?thesis by (auto simp: ask_backend_def accepted_attempt Let_def result_simps)
qed

lemma derive_verification_key_own: "derive_verification_key bk now (pc_circuit_hash c) c l =
    (case ensure_compiled bk now c l of (Inl e, l') \<Rightarrow> (Inl e, l') | (Inr m, l') \<Rightarrow>
      (Inr \<lparr>dk_circuit_hash = km_circuit_hash m, dk_key_id = km_verification_key_id m,
        dk_manifest_path = km_verification_manifest_path m, dk_version = km_version m, dk_params_k = km_params_k m\<rparr>, l'))"
  by (simp add: derive_verification_key_def derive_key_def)

text \<open>Compiling the keys succeeds when the backend answers, and logs one event.\<close>

lemma ensure_compiled_cases:
  "case bk_compile bk (compile_payload bk c) of
     Inl e \<Rightarrow> ensure_compiled bk now c l = (Inl e, l)
   | Inr r \<Rightarrow> (\<exists>k l' e. ensure_compiled bk now c l = (Inr k, l') \<and> km_verification_key_id k = bo_verification_key_id r
       \<and> kl_records l' = kl_records l @ [e] \<and> kr_event_type e = ''key_generation'')"
proof (cases "bk_compile bk (compile_payload bk c)")
  case (Inr r)
  have f: "\<not> has_float (PDict [(''circuit_hash'', PStr (bo_circuit_hash r)), (''proving_key_id'', PStr (bo_proving_key_id r)),
     (''verification_key_id'', PStr (bo_verification_key_id r)), (''params_k'', PInt (bo_params_k r)),
     (''backend_version'', PStr (get_or (bo_backend_version r) backend_version))])" by simp
  show ?thesis
    using append_key_event_cases [OF f, of now "''key_generation''" l] Inr
    by (auto simp: ensure_compiled_def log_key_generation_def Let_def)
qed (simp add: ensure_compiled_def)

lemma final_proof_hash_ok: "final_proof_hash blob cs pub ch th ih
    = Inr (sha256_hex (canonical_text (final_proof_payload blob cs pub ch th ih)))"
  by (simp add: final_proof_hash_def canonical_json_text final_proof_payload_def str_items_def list_ex_iff)

definition inputs_hash :: "(string \<times> string) list \<Rightarrow> string" where
  "inputs_hash inputs = sha256_hex (canonical_text (PDict (map (\<lambda>(k, v). (k, PStr v)) (sort_key fst inputs))))"

lemma inputs_hash_eq: "canonical_public_inputs_hash inputs = Inr (inputs_hash inputs)"
  by (simp add: inputs_hash_ok inputs_hash_def)

lemma check_bindings_accepts:
  "accepted (fst (check_bindings bk now p inputs c checks l)) \<longleftrightarrow>
    Artifacts.dict_get (pa_metadata p) ''public_inputs_hash'' [] = inputs_hash inputs
    \<and> pa_final_proof p = sha256_hex (canonical_text (final_proof_payload (pa_proof_blob_hex p) (pa_commitments p)
        (pa_public_inputs p) (pc_circuit_hash c) (pa_trace_hash p) (inputs_hash inputs)))
    \<and> (\<exists>r. bk_compile bk (compile_payload bk c) = Inr r
        \<and> Artifacts.dict_get (pa_metadata p) ''verification_key_id'' [] \<in> {[], bo_verification_key_id r})
    \<and> (\<exists>s landed vs r. key_of inputs ''landed_cost'' = Inr s \<and> to_fixed_point (PStr s) = Inr landed
        \<and> build_instance_values landed (pa_trace_hash p) (pc_circuit_hash c) (inputs_hash inputs) = Inr vs
        \<and> bk_verify bk (verify_payload bk p (pc_circuit_hash c) (inputs_hash inputs) vs) = Inr r \<and> vo_valid r = Some True)"
proof -
  have ascii: "is_ascii (inputs_hash inputs)" "is_ascii (sha256_hex t)" for t
    by (simp_all add: inputs_hash_def sha.digest_ascii)
  have cmp: "(\<exists>same. constant_time_equal h x = Inr same \<and> accepted (fst (if \<not> same then (Rejected a b d, l) else rest)))
      \<longleftrightarrow> x = h \<and> accepted (fst rest)" if "is_ascii h" for h x a b d and rest :: "plonk_outcome \<times> key_log"
    using that by (auto simp: constant_time_equal_def)
  show ?thesis
    using ensure_compiled_cases [where bk = bk and c = c and now = now and l = l] ascii
    unfolding check_bindings_def accepted_attempt inputs_hash_eq final_proof_hash_ok derive_verification_key_own Let_def
    by (cases "bk_compile bk (compile_payload bk c)")
      (auto simp: accepted_attempt cmp ask_backend_accepts split: if_splits)
qed

lemma verify_steps_accepts:
  "accepted (fst (verify_steps bk now p l)) \<longleftrightarrow> pa_proof_system p = ''plonk''
    \<and> Artifacts.dict_get (pa_metadata p) ''circuit_hash'' [] = circuit_hash
    \<and> Artifacts.dict_get (pa_metadata p) ''trace_hash'' (pa_trace_hash p) = pa_trace_hash p
    \<and> (\<exists>inputs. parse_public_inputs (pa_public_inputs p) = Inr inputs
        \<and> accepted (fst (check_bindings bk now p inputs the_circuit [''public_inputs_parse_ok'', ''circuit_compile_ok'',
            ''circuit_hash_binding_ok'', ''trace_hash_binding_ok''] l)))"
proof -
  have k: "key_of inputs k = Inr x \<Longrightarrow> k \<in> fst ` set inputs" for inputs k and x :: string
    by (force simp: key_of_def split: option.splits dest: map_of_SomeD)
  have landed: "''landed_cost'' \<in> fst ` set inputs" if "accepted (fst (check_bindings bk now p inputs c checks l))"
    for inputs c checks
    using that unfolding check_bindings_accepts by (blast dest: k)
  show ?thesis
    by (cases "parse_public_inputs (pa_public_inputs p)")
      (auto simp: verify_steps_def accepted_attempt compile_circuit_ok Let_def circuit_hash_of_def landed)
qed

subsection \<open>The key log during a verification\<close>

definition extends_by_key :: "key_log \<Rightarrow> key_log \<Rightarrow> bool" where
  "extends_by_key l l' \<longleftrightarrow> l' = l \<or> (\<exists>e. kl_records l' = kl_records l @ [e] \<and> kr_event_type e = ''key_generation'')"

lemma attempt_keeps: "(\<And>x. m = Inr x \<Longrightarrow> snd (f x) = l) \<Longrightarrow> snd (attempt m checks l f) = l"
  by (cases m) (simp_all add: attempt_def)

lemma ask_backend_keeps: "snd (ask_backend bk p inputs c inputs_h checks l) = l"
  unfolding ask_backend_def by (intro attempt_keeps) (simp add: Let_def)

lemma attempt_extends: "(\<And>x. m = Inr x \<Longrightarrow> extends_by_key l (snd (f x))) \<Longrightarrow> extends_by_key l (snd (attempt m checks l f))"
  by (cases m) (simp_all add: attempt_def extends_by_key_def)

lemma ensure_compiled_extends: "extends_by_key l (snd (ensure_compiled bk now c l))"
  using ensure_compiled_cases [where bk = bk and c = c and now = now and l = l]
  by (cases "bk_compile bk (compile_payload bk c)") (auto simp: extends_by_key_def)

lemma check_bindings_extends: "extends_by_key l (snd (check_bindings bk now p inputs c checks l))"
proof -
  obtain k l' where e: "ensure_compiled bk now c l = (k, l')" by fastforce
  have x: "extends_by_key l l'" using ensure_compiled_extends [of l bk now c] e by simp
  have r: "extends_by_key l l" by (simp add: extends_by_key_def)
  show ?thesis
    unfolding check_bindings_def derive_verification_key_own e Let_def
    by (cases k) (auto intro!: attempt_extends simp: x r ask_backend_keeps)
qed

lemma verify_steps_extends: "extends_by_key l (snd (verify_steps bk now p l))"
  unfolding verify_steps_def Let_def
  by (auto intro!: attempt_extends check_bindings_extends) (simp_all add: extends_by_key_def)

subsection \<open>Public inputs read back\<close>

definition inputs_ok :: "(string \<times> string) list \<Rightarrow> bool" where
  "inputs_ok kvs \<longleftrightarrow> distinct (map fst kvs) \<and> list_all (\<lambda>kv. fst kv \<noteq> [] \<and> CHR ''='' \<notin> set (fst kv)) kvs"

lemma update_new: "k \<notin> fst ` set d \<Longrightarrow> AList.update k v d = d @ [(k, v)]"
  by (induction d) auto

lemma takeWhile_neq: "c \<notin> set k \<Longrightarrow> takeWhile (\<lambda>x. x \<noteq> c) (k @ c # v) = k \<and> dropWhile (\<lambda>x. x \<noteq> c) (k @ c # v) = c # v"
  by (induction k) auto

lemma parse_entries_serialized:
  "inputs_ok (acc @ kvs) \<Longrightarrow> parse_entries (map (\<lambda>kv. fst kv @ ''='' @ snd kv) kvs) acc = Inr (acc @ kvs)"
proof (induction kvs arbitrary: acc)
  case (Cons kv kvs)
  then have "fst kv \<notin> fst ` set acc" "fst kv \<noteq> []" "CHR ''='' \<notin> set (fst kv)" by (auto simp: inputs_ok_def)
  then show ?case using Cons by (simp add: takeWhile_neq update_new)
qed simp

lemma parse_serialize: "inputs_ok kvs \<Longrightarrow> parse_public_inputs (serialize_public_inputs kvs) = Inr (sort_key fst kvs)"
proof -
  assume "inputs_ok kvs"
  then have "inputs_ok ([] @ sort_key fst kvs)" by (simp add: inputs_ok_def distinct_sort_key list_all_iff)
  from parse_entries_serialized [OF this] show ?thesis
    by (simp add: parse_public_inputs_def serialize_public_inputs_def sort_key_sorted)
qed

lemma inputs_hash_sorted [simp]: "inputs_hash (sort_key fst kvs) = inputs_hash kvs"
  by (simp add: inputs_hash_def sort_key_sorted)

subsection \<open>Proofs of the prover are accepted\<close>

text \<open>What the native backend promises: it verifies what it proved, for the same instance values, and
  names the same verification key in both commands.\<close>

definition backend_complete :: "backend \<Rightarrow> bool" where
  "backend_complete bk \<longleftrightarrow> (\<forall>w trace_h a vs out p. bk_prove bk (prove_payload bk w circuit_hash trace_h a vs) = Inr out \<longrightarrow>
     (pa_proof_blob_hex p = po_proof_bytes_hex out \<longrightarrow> pa_trace_hash p = trace_h \<longrightarrow>
       (\<exists>r. bk_verify bk (verify_payload bk p circuit_hash (as_public_inputs_hash a) vs) = Inr r \<and> vo_valid r = Some True))
     \<and> (\<forall>r. bk_compile bk (compile_payload bk the_circuit) = Inr r \<longrightarrow>
         Artifacts.dict_get (get_or (po_metadata out) []) ''verification_key_id'' (bo_verification_key_id r)
           = bo_verification_key_id r))"

lemma generated_assignment:
  assumes "generate_assignment int_of rules h w = Inr a"
  obtains s landed where "key_of (wa_public_inputs w) ''landed_cost'' = Inr s" "to_fixed_point (PStr s) = Inr landed"
    "key_of (as_wire_map a) ''landed_cost_fp'' = Inr landed" "as_public_inputs_hash a = inputs_hash (wa_public_inputs w)"
  using assms that
  by (auto simp: generate_assignment_def Let_def result_simps inputs_hash_eq wires key_of_def split: prod.splits)

lemma plonk_proof_accepted:
  assumes "backend_complete bk" "build_plonk_proof bk int_of rules h now w trace_h producer cyc l = (Inr p, l')"
    and "inputs_ok (wa_public_inputs w)"
  shows "accepted (fst (verify_steps bk now' p l''))"
proof -
  obtain k l1 where k: "ensure_compiled bk now the_circuit l = (Inr k, l1)"
    "prove_with_keys bk int_of rules h w trace_h producer cyc the_circuit k = Inr p"
    using assms(2) by (auto simp: build_plonk_proof_def compile_circuit_ok split: if_splits prod.splits sum.splits)
  obtain co where co: "bk_compile bk (compile_payload bk the_circuit) = Inr co" "km_verification_key_id k = bo_verification_key_id co"
    using ensure_compiled_cases [where bk = bk and c = the_circuit and now = now and l = l] k(1)
    by (cases "bk_compile bk (compile_payload bk the_circuit)") auto
  obtain a landed vs out where a: "generate_assignment int_of rules h w = Inr a"
    "key_of (as_wire_map a) ''landed_cost_fp'' = Inr landed"
    "build_instance_values landed trace_h circuit_hash (as_public_inputs_hash a) = Inr vs"
    "bk_prove bk (prove_payload bk w circuit_hash trace_h a vs) = Inr out"
    and p: "p = proof_of ''plonk'' (''circuit_'' @ take 24 circuit_hash) (artifact_id w) (get_or (po_commitments out) [])
       (serialize_public_inputs (wa_public_inputs w))
       (plonk_metadata (get_or (po_metadata out) []) the_circuit k trace_h (as_public_inputs_hash a) w)
       (po_proof_bytes_hex out) (wa_input_hash w) (wa_output_hash w) trace_h
       (sha256_hex (canonical_text (final_proof_payload (po_proof_bytes_hex out) (get_or (po_commitments out) [])
          (serialize_public_inputs (wa_public_inputs w)) circuit_hash trace_h (as_public_inputs_hash a)))) producer cyc"
    using k(2) by (auto simp: prove_with_keys_def result_simps Let_def final_proof_hash_ok build_proof_artifact_total)
  obtain s where s: "key_of (wa_public_inputs w) ''landed_cost'' = Inr s" "to_fixed_point (PStr s) = Inr landed"
    "as_public_inputs_hash a = inputs_hash (wa_public_inputs w)"
    using generated_assignment [OF a(1)] a(2) by (metis Inr_inject)
  have "key_of (sort_key fst (wa_public_inputs w)) ''landed_cost'' = Inr s"
    using s(1) assms(3) by (simp add: key_of_def map_of_sort_key_fst inputs_ok_def)
  moreover have f: "pa_proof_blob_hex p = po_proof_bytes_hex out" "pa_trace_hash p = trace_h"
    "pa_commitments p = get_or (po_commitments out) []" "pa_public_inputs p = serialize_public_inputs (wa_public_inputs w)"
    "pa_proof_system p = ''plonk''"
    "pa_metadata p = plonk_metadata (get_or (po_metadata out) []) the_circuit k trace_h (as_public_inputs_hash a) w"
    "pa_final_proof p = sha256_hex (canonical_text (final_proof_payload (po_proof_bytes_hex out) (get_or (po_commitments out) [])
          (serialize_public_inputs (wa_public_inputs w)) circuit_hash trace_h (as_public_inputs_hash a)))"
    by (simp_all add: p proof_of_def Let_def)
  moreover have "\<exists>r. bk_verify bk (verify_payload bk p circuit_hash (as_public_inputs_hash a) vs) = Inr r \<and> vo_valid r = Some True"
    "Artifacts.dict_get (get_or (po_metadata out) []) ''verification_key_id'' (bo_verification_key_id co) = bo_verification_key_id co"
    using assms(1) a(4) f(1,2) co(1) unfolding backend_complete_def by blast+
  ultimately show ?thesis
    using s a(3) co parse_serialize [OF assms(3)]
    by (auto simp: verify_steps_accepts check_bindings_accepts plonk_metadata_def Artifacts.dict_get_def [of "_ # _"])
qed

subsection \<open>Properties\<close>

text \<open>\<open>verify_plonk_proof\<close> never raises: whatever the proof and whatever the backend does, it returns a result
  for that proof, VALID or INVALID.  Every call that gets as far as the keys appends
  a \<open>key_generation\<close> event to the key log, although no key is generated; nothing else happens to the log.\<close>

theorem plonk_verifier_total:
  "\<exists>v. fst (verify_plonk_proof bk now p producer cyc l) = Inr v \<and> va_subject_artifact_id v = artifact_id p
     \<and> va_status v \<in> {''VALID'', ''INVALID''} \<and> extends_by_key l (snd (verify_plonk_proof bk now p producer cyc l))"
proof -
  obtain out l' where s: "verify_steps bk now p l = (out, l')" by fastforce
  obtain v where "verdict_for p producer cyc out = Inr v" "va_subject_artifact_id v = artifact_id p"
    "va_status v = (if accepted out then ''VALID'' else ''INVALID'')" using verdict_for_total by blast
  then show ?thesis using verify_steps_extends [of l bk now p] s by (auto simp: verify_plonk_proof_def)
qed

text \<open>C15: a PLONK proof is VALID exactly when it binds this circuit, its own trace hash and the hash of its public
  inputs, its final proof is the digest of all of that with the proof bytes, the verification key is the
  backend's, and the backend answers valid for the instance values computed from these very hashes.\<close>

theorem plonk_valid_iff:
  "fst (verify_plonk_proof bk now p producer cyc l) \<in> Inr ` {v. va_status v = ''VALID''} \<longleftrightarrow>
    pa_proof_system p = ''plonk''
    \<and> Artifacts.dict_get (pa_metadata p) ''circuit_hash'' [] = circuit_hash
    \<and> Artifacts.dict_get (pa_metadata p) ''trace_hash'' (pa_trace_hash p) = pa_trace_hash p
    \<and> (\<exists>inputs. parse_public_inputs (pa_public_inputs p) = Inr inputs
      \<and> Artifacts.dict_get (pa_metadata p) ''public_inputs_hash'' [] = inputs_hash inputs
      \<and> pa_final_proof p = sha256_hex (canonical_text (final_proof_payload (pa_proof_blob_hex p) (pa_commitments p)
          (pa_public_inputs p) circuit_hash (pa_trace_hash p) (inputs_hash inputs)))
      \<and> (\<exists>r. bk_compile bk (compile_payload bk the_circuit) = Inr r
          \<and> Artifacts.dict_get (pa_metadata p) ''verification_key_id'' [] \<in> {[], bo_verification_key_id r})
      \<and> (\<exists>s landed vs r. key_of inputs ''landed_cost'' = Inr s \<and> to_fixed_point (PStr s) = Inr landed
          \<and> build_instance_values landed (pa_trace_hash p) circuit_hash (inputs_hash inputs) = Inr vs
          \<and> bk_verify bk (verify_payload bk p circuit_hash (inputs_hash inputs) vs) = Inr r \<and> vo_valid r = Some True))"
proof -
  obtain out l' where s: "verify_steps bk now p l = (out, l')" by fastforce
  obtain v where "verdict_for p producer cyc out = Inr v" "va_status v = (if accepted out then ''VALID'' else ''INVALID'')"
    using verdict_for_total by blast
  then have "fst (verify_plonk_proof bk now p producer cyc l) \<in> Inr ` {v. va_status v = ''VALID''}
      \<longleftrightarrow> accepted (fst (verify_steps bk now p l))"
    using s by (auto simp: verify_plonk_proof_def split: if_splits)
  then show ?thesis unfolding verify_steps_accepts check_bindings_accepts by simp
qed

end
