(* ===== verification/Json_Dumps.thy ===== *)
theory Json_Dumps
  imports Plonk_Circuit
begin

text \<open>
  What the evidence service stores: \<open>model_dump(mode='json')\<close> of requests and responses, in which
  amounts are texts, and the fact that the JSON dump of a validated request validates to the same
  request with the same canonical text.
\<close>

subsection \<open>Dumps\<close>

text \<open>From the Python dump to the JSON dump: a \<open>Decimal\<close> becomes its \<open>str\<close>.\<close>

fun json_mode :: "pyv \<Rightarrow> pyv" where
  "json_mode (PDec d) = PStr (py_str (PDec d))"
| "json_mode (PList vs) = PList (map json_mode vs)"
| "json_mode (PDict kvs) = PDict (map (\<lambda>kv. (fst kv, json_mode (snd kv))) kvs)"
| "json_mode v = v"

definition request_dump :: "import_request \<Rightarrow> pyv" where
  "request_dump r = json_mode (request_payload r)"

definition integrity_payload :: "integrity_artifact \<Rightarrow> pyv" where
  "integrity_payload i = PDict [(''input_hash'', PStr (ia_input_hash i)), (''output_hash'', PStr (ia_output_hash i)),
     (''trace_hash'', PStr (ia_trace_hash i)), (''integrity_hash'', PStr (ia_integrity_hash i))]"

definition response_payload :: "calculation_response \<Rightarrow> pyv" where
  "response_payload r = PDict [(''result'', result_payload (rs_result r)), (''trace'', trace_payload (rs_trace r)),
     (''integrity'', integrity_payload (rs_integrity r))]"

definition response_dump :: "calculation_response \<Rightarrow> pyv" where
  "response_dump r = json_mode (response_payload r)"

subsection \<open>The text of an amount\<close>

lemma amount_str:
  assumes "amount_ok d" shows "py_str (PDec (Fin d)) = dec_format_f d"
proof -
  have d: "dexpo d = - 2" "0 \<le> dcoef d" using assms by (auto simp: amount_ok_def)
  show ?thesis
    using d(1) ndigits_pos [of "dcoef d"] length_dec_digits [of "dcoef d"] d(2)
    by (simp add: dec_str_def Let_def)
qed

text \<open>A minus sign or nothing, then digits and a point.\<close>

lemma amount_text_form:
  assumes "amount_ok d"
  obtains s t where "dec_format_f d = s @ t" "s \<in> {[], ''-''}" "t \<noteq> []" "list_all (\<lambda>c. is_digit c \<or> c = CHR ''.'') t"
proof -
  have d: "dexpo d = - 2" "0 \<le> dcoef d" using assms by (auto simp: amount_ok_def)
  define p where "p = replicate (3 - length (dec_digits (dcoef d))) CHR ''0'' @ dec_digits (dcoef d)"
  have z: "is_digit CHR ''0''" by (simp add: is_digit_def)
  have "list_all is_digit p"
    unfolding p_def list_all_append list_all_iff [of _ "replicate _ _"]
    using dec_digits_all_digits [OF d(2)] z by simp
  then have "list_all is_digit (take k p)" "list_all is_digit (drop k p)" for k
    using set_take_subset [of k p] set_drop_subset [of k p] unfolding list_all_iff by blast+
  then have "list_all (\<lambda>c. is_digit c \<or> c = CHR ''.'') (take k p @ ''.'' @ drop k p)" for k
    by (auto simp: list_all_iff)
  then have l: "list_all (\<lambda>c. is_digit c \<or> c = CHR ''.'') (take (length p - 2) p @ ''.'' @ drop (length p - 2) p)" .
  have e: "dec_format_f d = (if dneg d then ''-'' else []) @ (take (length p - 2) p @ ''.'' @ drop (length p - 2) p)"
    using d(1) by (simp add: dec_format_f_def Let_def p_def)
  show thesis by (rule that [OF e _ _ l]) simp_all
qed

definition amount_char :: "char \<Rightarrow> bool" where
  "amount_char c \<longleftrightarrow> is_digit c \<or> c = CHR ''.'' \<or> c = CHR ''-''"

lemma amount_char_facts:
  assumes "amount_char c" shows "\<not> py_space c" "lower_char c = c" "c \<notin> set (concat sql_words)" "c \<notin> set ''<*;''"
proof -
  have "list_all (\<lambda>c. \<not> is_digit c \<and> c \<noteq> CHR ''.'' \<and> c \<noteq> CHR ''-'') (concat sql_words @ ''<*;'')"
    by code_simp
  then show "c \<notin> set (concat sql_words)" "c \<notin> set ''<*;''"
    using assms unfolding list_all_iff amount_char_def by (auto simp del: set_concat set_simps)
  show "\<not> py_space c" "lower_char c = c"
    using assms is_digit_facts [of c] by (auto simp: amount_char_def py_space_def lower_char_def)
qed

lemma has_word_begins: "has_word ws prev s \<Longrightarrow> list_all (\<lambda>w. w \<noteq> []) ws \<Longrightarrow> set (py_lower s) \<inter> set (concat ws) \<noteq> {}"
proof (induction ws prev s rule: has_word.induct)
  case (2 ws prev c s)
  show ?case
  proof (cases "has_word ws (word_char c) s")
    case True
    then show ?thesis using 2 by (auto simp: py_lower_def)
  next
    case False
    then obtain w where w: "w \<in> set ws" "begins w (py_lower (c # s))" using "2.prems"(1) by (auto simp: list_ex_iff)
    then have "w \<noteq> []" "set w \<subseteq> set (py_lower (c # s))" using "2.prems"(2) begins_set by (auto simp: list_all_iff)
    moreover have "set w \<subseteq> set (concat ws)" using w(1) by auto
    moreover have "hd w \<in> set w" using calculation(1) by simp
    ultimately show ?thesis by blast
  qed
qed simp

lemma amount_text_chars:
  assumes "amount_ok d" "c \<in> set (dec_format_f d)" shows "amount_char c"
proof -
  obtain s t where st: "dec_format_f d = s @ t" "s \<in> {[], ''-''}" "list_all (\<lambda>c. is_digit c \<or> c = CHR ''.'') t"
    using amount_text_form [OF assms(1)] by metis
  have "c \<in> set s \<or> c \<in> set t" using assms(2) st(1) by simp
  moreover have "c = CHR ''-''" if "c \<in> set s" using that st(2) by (auto split: if_splits)
  ultimately show ?thesis using st(3) unfolding amount_char_def list_all_iff by blast
qed

lemma amount_text_harmless:
  assumes "amount_ok d" shows "\<not> injection (dec_format_f d)"
proof -
  obtain s t where st: "dec_format_f d = s @ t" "s \<in> {[], ''-''}" "list_all (\<lambda>c. is_digit c \<or> c = CHR ''.'') t"
    using amount_text_form [OF assms] by metis
  let ?u = "dec_format_f d"
  have a: "amount_char c" if "c \<in> set ?u" for c
    by (rule amount_text_chars [OF assms that])
  have "py_lower ?u = ?u" unfolding py_lower_def by (rule map_idI) (use a amount_char_facts(2) in blast)
  then have "set (py_lower ?u) \<inter> set (concat sql_words) = {}" using a amount_char_facts(3) by auto
  then have w: "\<not> has_word sql_words False ?u" using has_word_begins [of sql_words False ?u] by (auto simp: sql_words_def)
  have n: "CHR ''<'' \<notin> set ?u" "CHR ''*'' \<notin> set ?u" "CHR '';'' \<notin> set ?u" using a amount_char_facts(4) by fastforce+
  have "\<not> is_digit CHR ''-''" by (simp add: is_digit_def)
  then have m: "CHR ''-'' \<notin> set t" using st(3) unfolding list_all_iff by auto
  then have o: "\<not> occurs ''--'' t" using occurs_set [of "''--''" t] by auto
  have "\<not> occurs ''--'' ?u"
  proof (cases "s = []")
    case False
    have "\<not> begins ''--'' (CHR ''-'' # t)" using m by (cases t) (auto simp: begins_def)
    then show ?thesis using False st(1,2) o by simp
  qed (use o st(1) in simp)
  moreover have "\<not> occurs ''/*'' ?u" "\<not> occurs ''*/'' ?u" "\<not> occurs '';'' ?u" "\<not> has_script ?u"
    using n has_script_set occurs_set [of "''/*''" ?u] occurs_set [of "''*/''" ?u] occurs_set [of "'';''" ?u] by auto
  ultimately show ?thesis using w by (simp add: injection_def)
qed

lemma amount_text_decimal:
  assumes "amount_ok d" shows "to_decimal (PStr (dec_format_f d)) = Inr (Fin d)"
proof -
  obtain s t where st: "dec_format_f d = s @ t" "s \<in> {[], ''-''}" "t \<noteq> []" "list_all (\<lambda>c. is_digit c \<or> c = CHR ''.'') t"
    by (rule amount_text_form [OF assms])
  have "list_all (\<lambda>c. \<not> py_space c) (dec_format_f d)"
    using amount_text_chars [OF assms] amount_char_facts(1) unfolding list_all_iff by blast
  then have "py_strip (dec_format_f d) = dec_format_f d" by (rule strip_no_space)
  moreover have "decimal_of_string (dec_format_f d) = Some (Fin d)"
    using amount_text [OF assms] unfolding amount_str [OF assms] .
  ultimately show ?thesis using st(1,3) by (auto simp: to_decimal_def Let_def)
qed

lemma money_field_text:
  "amount_ok d \<Longrightarrow> (strict \<longrightarrow> 0 < dcoef d) \<Longrightarrow> money_field name strict (PStr (dec_format_f d)) = Inr d"
  using dec_less_zero [of d] amount_text_decimal [of d]
  by (auto simp: money_field_Inr money_def dec_quantize_same amount_ok_def)

subsection \<open>The JSON dump of a request\<close>

lemma request_dump_items:
  assumes "valid_request r"
  shows "request_dump r = PDict [(''hs_code'', PStr (hs_code r)), (''country_of_origin'', PStr (country_of_origin r)),
     (''customs_value'', PStr (dec_format_f (customs_value r))), (''freight'', PStr (dec_format_f (freight r))),
     (''insurance'', PStr (dec_format_f (insurance r))), (''quantity'', PInt (quantity r)),
     (''shipping_mode'', PStr (shipping_mode r))]"
  using assms amount_str unfolding valid_request_def
  by (simp add: request_dump_def request_payload_def request_items_def del: py_str.simps)

lemma canonicalize_request_dump: "valid_request r \<Longrightarrow> canonicalize (request_dump r) = Inr (request_json r)"
  by (simp add: request_dump_items request_json_def amount_json_def)

lemma request_dump_wf: "valid_request r \<Longrightarrow> wf_pyv (request_dump r)"
  by (simp add: request_dump_items)

lemma request_dump_float: "valid_request r \<Longrightarrow> \<not> has_float (request_dump r)"
  by (simp add: request_dump_items)

lemma validate_request_dump:
  assumes "valid_request r" "int_of (PInt (quantity r)) = Some (quantity r)"
  shows "validate_request int_of (request_dump r) = Inr r"
proof -
  obtain kvs where p: "request_dump r = PDict kvs" and kvs: "kvs = [
     (''hs_code'', PStr (hs_code r)), (''country_of_origin'', PStr (country_of_origin r)),
     (''customs_value'', PStr (dec_format_f (customs_value r))), (''freight'', PStr (dec_format_f (freight r))),
     (''insurance'', PStr (dec_format_f (insurance r))), (''quantity'', PInt (quantity r)),
     (''shipping_mode'', PStr (shipping_mode r))]"
    using request_dump_items [OF assms(1)] by simp
  have v: "amount_ok (customs_value r)" "amount_ok (freight r)" "amount_ok (insurance r)" "0 < dcoef (customs_value r)"
    using assms(1) by (auto simp: valid_request_def)
  have f: "field kvs ''hs_code'' hs_code_field = Inr (hs_code r)"
    "field kvs ''country_of_origin'' country_field = Inr (country_of_origin r)"
    "field kvs ''customs_value'' (money_field ''customs_value'' True) = Inr (customs_value r)"
    "field kvs ''freight'' (money_field ''freight'' False) = Inr (freight r)"
    "field kvs ''insurance'' (money_field ''insurance'' False) = Inr (insurance r)"
    "field kvs ''quantity'' (quantity_field int_of) = Inr (quantity r)"
    "field kvs ''shipping_mode'' shipping_mode_field = Inr (shipping_mode r)"
    using assms v hs_code_accepts country_accepts money_field_text mode_accepts(1)
    by (simp_all add: field_def kvs valid_request_def quantity_field_def)
  have e: "list_all (\<lambda>kv. fst kv \<in> set request_fields) kvs"
    by (simp add: kvs request_fields_def)
  have "harmless (PStr (dec_format_f d))" if "amount_ok d" for d
  proof -
    have "length (dec_format_f d) \<le> 33" using that by (intro length_amount_text) (auto simp: amount_ok_def)
    then show ?thesis using short_word_bytes [of "dec_format_f d"] amount_text_harmless [OF that] by simp
  qed
  then have "harmless (request_dump r)"
    using request_guards [OF assms(1)] v
    by (simp add: guards_pass_iff request_payload_def request_items_def p kvs)
  moreover have "canonical_json (request_dump r) = canonical_json (request_payload r)"
    by (simp add: canonical_json_def canonicalize_request_dump [OF assms(1)] canonicalize_request)
  ultimately have "enforce_payload_guards (request_dump r) = Inr ()"
    using request_guards [OF assms(1)] by (simp add: guards_pass_iff)
  then show ?thesis
    unfolding validate_request_def by (simp add: p f e validate_fields_def error_of_def)
qed

end
