(* ===== verification/Proof_Export.thy ===== *)
theory Proof_Export
  imports Plonk_Verifier Json_Dumps
begin

text \<open>
  \<open>backend/proof_export.py\<close>: a calculation with its PLONK proof as a dictionary that can be verified
  offline.  Reading the manifest of the verification key is a parameter; every call of the key
  manager appends to the log of key events, which is threaded through.
\<close>

subsection \<open>Calls that may raise and may log key events\<close>

type_synonym 'a logged = "key_log \<Rightarrow> 'a result \<times> key_log"

definition logged :: "'a result \<Rightarrow> 'a logged" where
  "logged r l = (r, l)"

definition lbind :: "'a logged \<Rightarrow> ('a \<Rightarrow> 'b logged) \<Rightarrow> 'b logged" where
  "lbind m f l = (case m l of (Inl e, l') \<Rightarrow> (Inl e, l') | (Inr x, l') \<Rightarrow> f x l')"

lemma lbind_logged [simp]: "lbind (logged (Inr x)) f = f x" "lbind (logged (Inl e)) f = logged (Inl e)"
  by (simp_all add: lbind_def logged_def fun_eq_iff)

lemma logged_apply: "logged r l = (r, l)"
  by (simp add: logged_def)

lemma lbind_Inr_iff: "lbind m f l = (Inr y, l'') \<longleftrightarrow> (\<exists>x l'. m l = (Inr x, l') \<and> f x l' = (Inr y, l''))"
  by (auto simp: lbind_def split: prod.splits sum.splits)

lemma lbind_fst: "fst (lbind m f l) = Inr y \<longleftrightarrow> (\<exists>x l'. m l = (Inr x, l') \<and> fst (f x l') = Inr y)"
  by (auto simp: lbind_def split: prod.splits sum.splits)

record export_env = zk_env +
  xe_read_bytes :: "string \<Rightarrow> int list result"

subsection \<open>Reading a proof back\<close>

text \<open>\<open>Proof.model_validate\<close> with \<open>extra='forbid'\<close>; the artifact type has a default, \<open>cycle\<close> is converted by
  pydantic.\<close>

definition proof_fields :: "string list" where
  "proof_fields = [''artifact_type'', ''artifact_id'', ''produced_by'', ''cycle'', ''proof_system'', ''circuit_artifact_id'',
     ''witness_artifact_id'', ''commitments'', ''public_inputs'', ''metadata'', ''proof_blob_hex'', ''proof_hash'',
     ''input_hash'', ''output_hash'', ''trace_hash'', ''final_proof'']"

definition str_dict_field :: "(string \<times> pyv) list \<Rightarrow> string \<Rightarrow> (string \<times> string) list result" where
  "str_dict_field kvs k = (case map_of kvs k of
       Some (PDict d) \<Rightarrow> rmap (\<lambda>(k, v). rbind (as_str v) (\<lambda>s. Inr (k, s))) d
     | _ \<Rightarrow> Inl (ValidationError k))"

definition int_field :: "(pyv \<Rightarrow> int option) \<Rightarrow> (string \<times> pyv) list \<Rightarrow> string \<Rightarrow> int result" where
  "int_field int_of kvs k = (case map_of kvs k of None \<Rightarrow> Inl (ValidationError k)
     | Some v \<Rightarrow> (case int_of v of Some n \<Rightarrow> Inr n | None \<Rightarrow> Inl (ValidationError k)))"

definition parse_proof :: "(pyv \<Rightarrow> int option) \<Rightarrow> pyv \<Rightarrow> proof_artifact result" where
  "parse_proof int_of v = (case v of
     PDict kvs \<Rightarrow>
       if \<not> list_all (\<lambda>kv. fst kv \<in> set proof_fields) kvs then Inl (ValidationError ''extra_forbidden'')
       else if map_of kvs ''artifact_type'' \<notin> {None, Some (PStr ''proof'')} then Inl (ValidationError ''artifact_type'')
       else
         rbind (str_field kvs ''artifact_id'') (\<lambda>ident. rbind (str_field kvs ''produced_by'') (\<lambda>producer.
         rbind (int_field int_of kvs ''cycle'') (\<lambda>cyc. rbind (str_field kvs ''proof_system'') (\<lambda>system.
         rbind (str_field kvs ''circuit_artifact_id'') (\<lambda>circuit_id.
         rbind (str_field kvs ''witness_artifact_id'') (\<lambda>witness_id.
         rbind (str_list_field kvs ''commitments'') (\<lambda>commitments.
         rbind (str_list_field kvs ''public_inputs'') (\<lambda>public.
         rbind (str_dict_field kvs ''metadata'') (\<lambda>metadata. rbind (str_field kvs ''proof_blob_hex'') (\<lambda>blob.
         rbind (str_field kvs ''proof_hash'') (\<lambda>proof_h. rbind (str_field kvs ''input_hash'') (\<lambda>input_h.
         rbind (str_field kvs ''output_hash'') (\<lambda>output_h. rbind (str_field kvs ''trace_hash'') (\<lambda>trace_h.
         rbind (str_field kvs ''final_proof'') (\<lambda>final.
           validate_proof \<lparr>artifact_id = ident, produced_by = producer, cycle = cyc, pa_proof_system = system,
             pa_circuit_artifact_id = circuit_id, pa_witness_artifact_id = witness_id, pa_commitments = commitments,
             pa_public_inputs = public, pa_metadata = metadata, pa_proof_blob_hex = blob, pa_proof_hash = proof_h,
             pa_input_hash = input_h, pa_output_hash = output_h, pa_trace_hash = trace_h, pa_final_proof = final\<rparr>)))))))))))))))
   | _ \<Rightarrow> Inl (ValidationError ''Proof''))"

subsection \<open>Export\<close>

definition computed_fields :: "string list" where
  "computed_fields = [''proof_bytes'', ''proving_system'', ''circuit_hash'']"

definition drop_computed :: "(string \<times> pyv) list \<Rightarrow> (string \<times> pyv) list" where
  "drop_computed kvs = filter (\<lambda>kv. fst kv \<notin> set computed_fields) kvs"

definition canonical_proof_payload :: "proof_artifact \<Rightarrow> pyv" where
  "canonical_proof_payload p = (case model_dump (AProof p) of PDict kvs \<Rightarrow> PDict (drop_computed kvs) | v \<Rightarrow> v)"

definition verification_key_hash :: "export_env \<Rightarrow> string \<Rightarrow> string \<Rightarrow> string logged" where
  "verification_key_hash env now circuit_h =
     lbind (logged compile_circuit) (\<lambda>c.
     lbind (derive_verification_key (ze_backend env) now circuit_h c) (\<lambda>k.
     logged (rbind (xe_read_bytes env (dk_manifest_path k)) (\<lambda>bs. Inr (sha256_bytes bs)))))"

definition packet_for :: "export_env \<Rightarrow> pyv \<Rightarrow> string \<Rightarrow> trace_packet result" where
  "packet_for env input producer =
     build_trace_packet (ze_int_of env) (ze_rules env) (ze_dataset_hash env) input producer 1"

definition export_proof_bundle ::
  "export_env \<Rightarrow> string \<Rightarrow> pyv \<Rightarrow> trace_packet option \<Rightarrow> proof_artifact option \<Rightarrow> (string \<times> pyv) list logged" where
  "export_proof_bundle env now input packet proof =
     lbind (logged (case packet of Some k \<Rightarrow> Inr k | None \<Rightarrow> packet_for env input ''proof_export'')) (\<lambda>k.
     lbind (case proof of Some p \<Rightarrow> logged (Inr p)
       | None \<Rightarrow> build_plonk_proof (ze_backend env) (ze_int_of env) (ze_rules env) (ze_dataset_hash env) now
           (tp_witness_artifact k) (ta_trace_hash (tp_trace_artifact k)) ''proof_export'' 1) (\<lambda>p.
     lbind (logged compile_circuit) (\<lambda>c.
     lbind (verification_key_hash env now (pc_circuit_hash c)) (\<lambda>vk_h.
     logged (Inr [(''input'', request_dump (tp_request k)),
       (''input_hash'', PStr (ia_input_hash (rs_integrity (tp_response k)))),
       (''output_hash'', PStr (ia_output_hash (rs_integrity (tp_response k)))),
       (''trace_hash'', PStr (ta_trace_hash (tp_trace_artifact k))), (''circuit_hash'', PStr (pc_circuit_hash c)),
       (''verification_key_hash'', PStr vk_h), (''proof'', canonical_proof_payload p)])))))"

subsection \<open>Offline verification\<close>

record bundle_verdict =
  bv_valid :: bool
  bv_reason :: string
  bv_checks :: "string list"
  bv_input_hash :: string
  bv_trace_hash :: string
  bv_circuit_hash :: string
  bv_verification_key_hash :: string

text \<open>\<open>constant_time_equal(bundle[key], expected)\<close>.\<close>

definition bundle_matches :: "(string \<times> pyv) list \<Rightarrow> string \<Rightarrow> string \<Rightarrow> bool result" where
  "bundle_matches bundle k expected = rbind (key_of bundle k) (\<lambda>v. case v of
       PStr s \<Rightarrow> constant_time_equal s expected
     | _ \<Rightarrow> Inl TypeError)"

definition check_text :: "string \<Rightarrow> bool \<Rightarrow> string" where
  "check_text k ok = k @ (if ok then ''_ok'' else ''_mismatch'')"

definition bundle_keys :: "string list" where
  "bundle_keys = [''input_hash'', ''output_hash'', ''trace_hash'', ''circuit_hash'', ''verification_key_hash'']"

definition payload_without_computed :: "pyv \<Rightarrow> pyv result" where
  "payload_without_computed v = (case v of PDict kvs \<Rightarrow> Inr (PDict (drop_computed kvs)) | _ \<Rightarrow> Inl AttributeError)"

definition expected_hashes :: "trace_packet \<Rightarrow> string \<Rightarrow> string \<Rightarrow> string list" where
  "expected_hashes k circuit_h vk_h = [ia_input_hash (rs_integrity (tp_response k)), ia_output_hash (rs_integrity (tp_response k)),
     ta_trace_hash (tp_trace_artifact k), circuit_h, vk_h]"

definition bundle_result :: "trace_packet \<Rightarrow> string \<Rightarrow> string \<Rightarrow> bool \<Rightarrow> string \<Rightarrow> string list \<Rightarrow> bundle_verdict" where
  "bundle_result k circuit_h vk_h valid reason checks = \<lparr>bv_valid = valid, bv_reason = reason, bv_checks = checks,
     bv_input_hash = ia_input_hash (rs_integrity (tp_response k)), bv_trace_hash = ta_trace_hash (tp_trace_artifact k),
     bv_circuit_hash = circuit_h, bv_verification_key_hash = vk_h\<rparr>"

text \<open>The comparisons, in order, and the verification of the proof when all of them succeed.\<close>

definition compare_bundle ::
  "export_env \<Rightarrow> string \<Rightarrow> (string \<times> pyv) list \<Rightarrow> trace_packet \<Rightarrow> string \<Rightarrow> string \<Rightarrow> proof_artifact \<Rightarrow> bundle_verdict logged" where
  "compare_bundle env now bundle k circuit_h vk_h p =
     lbind (logged (rmap (\<lambda>(k, e). bundle_matches bundle k e) (zip bundle_keys (expected_hashes k circuit_h vk_h)))) (\<lambda>oks.
     let checks = map (\<lambda>(k, ok). check_text k ok) (zip bundle_keys oks); verdict = bundle_result k circuit_h vk_h in
     if list_all id oks then
       lbind (verify_plonk_proof (ze_backend env) now p ''proof_bundle_verify'' 1) (\<lambda>v.
         if va_status v \<noteq> ''VALID'' then logged (Inr (verdict False (va_reason v) (checks @ va_checks v)))
         else logged (Inr (verdict True ''bundle verified successfully'' (checks @ va_checks v))))
     else logged (Inr (verdict False ''bundle hash binding mismatch'' checks)))"

definition verify_bundle_body :: "export_env \<Rightarrow> string \<Rightarrow> (string \<times> pyv) list \<Rightarrow> bundle_verdict logged" where
  "verify_bundle_body env now bundle =
     lbind (logged (key_of bundle ''input'')) (\<lambda>input.
     lbind (logged (packet_for env input ''proof_bundle_verify'')) (\<lambda>k.
     lbind (logged compile_circuit) (\<lambda>c.
     lbind (verification_key_hash env now (pc_circuit_hash c)) (\<lambda>vk_h.
     lbind (logged (rbind (key_of bundle ''proof'') payload_without_computed)) (\<lambda>payload.
     lbind (logged (parse_proof (ze_int_of env) payload)) (\<lambda>p.
     compare_bundle env now bundle k (pc_circuit_hash c) vk_h p))))))"

definition verify_proof_bundle :: "export_env \<Rightarrow> string \<Rightarrow> (string \<times> pyv) list \<Rightarrow> key_log \<Rightarrow> bundle_verdict \<times> key_log" where
  "verify_proof_bundle env now bundle l = (case verify_bundle_body env now bundle l of
       (Inr v, l') \<Rightarrow> (v, l')
     | (Inl e, l') \<Rightarrow> (\<lparr>bv_valid = False, bv_reason = ''bundle verification failed: '' @ error_text e,
         bv_checks = [''bundle_validation_error''], bv_input_hash = [], bv_trace_hash = [], bv_circuit_hash = [],
         bv_verification_key_hash = []\<rparr>, l'))"

subsection \<open>A proof reads back\<close>

lemma rmap_text_dict: "rmap (\<lambda>(k, v). rbind (as_str v) (\<lambda>s. Inr (k, s))) (map (\<lambda>kv. (fst kv, PStr (snd kv))) kvs) = Inr kvs"
  by (induction kvs) auto

lemma rmap_str_list: "rmap as_str (map PStr xs) = Inr xs"
  by (induction xs) auto

lemma canonical_proof_items:
  "canonical_proof_payload p = PDict (head_items ProofType p @ proof_items (pa_proof_system p) (pa_circuit_artifact_id p)
     (pa_witness_artifact_id p) (pa_commitments p) (pa_public_inputs p) (pa_metadata p) (pa_proof_blob_hex p)
     (pa_input_hash p) (pa_output_hash p) (pa_trace_hash p) (pa_final_proof p) @ [(''proof_hash'', PStr (pa_proof_hash p))])"
  by (simp add: canonical_proof_payload_def drop_computed_def computed_fields_def head_items_def proof_items_def)

lemma payload_without_computed_id: "payload_without_computed (canonical_proof_payload p) = Inr (canonical_proof_payload p)"
  by (simp add: canonical_proof_items payload_without_computed_def drop_computed_def computed_fields_def
      head_items_def proof_items_def)

lemma parse_proof_round_trip:
  assumes "validate_proof p = Inr p" "int_of (PInt (cycle p)) = Some (cycle p)"
  shows "parse_proof int_of (canonical_proof_payload p) = Inr p"
proof -
  obtain kvs where k: "canonical_proof_payload p = PDict kvs" and kvs: "kvs = [(''artifact_type'', PStr ''proof''),
     (''artifact_id'', PStr (artifact_id p)), (''produced_by'', PStr (produced_by p)), (''cycle'', PInt (cycle p)),
     (''proof_system'', PStr (pa_proof_system p)), (''circuit_artifact_id'', PStr (pa_circuit_artifact_id p)),
     (''witness_artifact_id'', PStr (pa_witness_artifact_id p)), (''commitments'', str_list (pa_commitments p)),
     (''public_inputs'', str_list (pa_public_inputs p)), (''metadata'', text_dict (pa_metadata p)),
     (''proof_blob_hex'', PStr (pa_proof_blob_hex p)), (''input_hash'', PStr (pa_input_hash p)),
     (''output_hash'', PStr (pa_output_hash p)), (''trace_hash'', PStr (pa_trace_hash p)),
     (''final_proof'', PStr (pa_final_proof p)), (''proof_hash'', PStr (pa_proof_hash p))]"
    by (simp add: canonical_proof_items head_items_def proof_items_def)
  have f: "str_field kvs ''artifact_id'' = Inr (artifact_id p)" "str_field kvs ''produced_by'' = Inr (produced_by p)"
    "int_field int_of kvs ''cycle'' = Inr (cycle p)" "str_field kvs ''proof_system'' = Inr (pa_proof_system p)"
    "str_field kvs ''circuit_artifact_id'' = Inr (pa_circuit_artifact_id p)"
    "str_field kvs ''witness_artifact_id'' = Inr (pa_witness_artifact_id p)"
    "str_list_field kvs ''commitments'' = Inr (pa_commitments p)" "str_list_field kvs ''public_inputs'' = Inr (pa_public_inputs p)"
    "str_dict_field kvs ''metadata'' = Inr (pa_metadata p)" "str_field kvs ''proof_blob_hex'' = Inr (pa_proof_blob_hex p)"
    "str_field kvs ''proof_hash'' = Inr (pa_proof_hash p)" "str_field kvs ''input_hash'' = Inr (pa_input_hash p)"
    "str_field kvs ''output_hash'' = Inr (pa_output_hash p)" "str_field kvs ''trace_hash'' = Inr (pa_trace_hash p)"
    "str_field kvs ''final_proof'' = Inr (pa_final_proof p)"
    using assms(2) by (simp_all add: kvs str_field_def int_field_def str_list_field_def str_dict_field_def str_list_def
        text_dict_def rmap_text_dict rmap_str_list)
  have e: "list_all (\<lambda>kv. fst kv \<in> set proof_fields) kvs" by (simp add: kvs proof_fields_def)
  have t: "map_of kvs ''artifact_type'' = Some (PStr ''proof'')" by (simp add: kvs)
  have s: "\<lparr>artifact_id = artifact_id p, produced_by = produced_by p, cycle = cycle p, pa_proof_system = pa_proof_system p,
      pa_circuit_artifact_id = pa_circuit_artifact_id p, pa_witness_artifact_id = pa_witness_artifact_id p,
      pa_commitments = pa_commitments p, pa_public_inputs = pa_public_inputs p, pa_metadata = pa_metadata p,
      pa_proof_blob_hex = pa_proof_blob_hex p, pa_proof_hash = pa_proof_hash p, pa_input_hash = pa_input_hash p,
      pa_output_hash = pa_output_hash p, pa_trace_hash = pa_trace_hash p, pa_final_proof = pa_final_proof p\<rparr> = p" by simp
  show ?thesis using assms(1) by (simp add: parse_proof_def k e t f s)
qed

lemma validate_proof_of: "validate_proof (proof_of a b c d e f g h i j k l n) = Inr (proof_of a b c d e f g h i j k l n)"
  by (simp add: proof_of_def build_simps validate_proof_def)

subsection \<open>The verification key\<close>

definition key_of_output :: "compile_output \<Rightarrow> derived_key" where
  "key_of_output r = \<lparr>dk_circuit_hash = bo_circuit_hash r, dk_key_id = bo_verification_key_id r,
     dk_manifest_path = bo_verification_manifest_path r, dk_version = get_or (bo_backend_version r) backend_version,
     dk_params_k = bo_params_k r\<rparr>"

lemma derive_verification_key_fst:
  "fst (derive_verification_key bk now (pc_circuit_hash c) c l) =
     rbind (bk_compile bk (compile_payload bk c)) (\<lambda>r. Inr (key_of_output r))"
proof (cases "bk_compile bk (compile_payload bk c)")
  case (Inr r)
  have f: "\<not> has_float (PDict [(''circuit_hash'', PStr (bo_circuit_hash r)), (''proving_key_id'', PStr (bo_proving_key_id r)),
     (''verification_key_id'', PStr (bo_verification_key_id r)), (''params_k'', PInt (bo_params_k r)),
     (''backend_version'', PStr (get_or (bo_backend_version r) backend_version))])" by simp
  show ?thesis
    using append_key_event_cases [OF f, of now "''key_generation''" l] Inr
    by (auto simp: derive_verification_key_own ensure_compiled_def log_key_generation_def key_of_output_def Let_def)
qed (simp add: derive_verification_key_own ensure_compiled_def)

definition manifest_hash :: "export_env \<Rightarrow> string result" where
  "manifest_hash env = rbind (bk_compile (ze_backend env) (compile_payload (ze_backend env) the_circuit)) (\<lambda>r.
     rbind (xe_read_bytes env (bo_verification_manifest_path r)) (\<lambda>bs. Inr (sha256_bytes bs)))"

lemma verification_key_hash_fst: "fst (verification_key_hash env now circuit_hash l) = manifest_hash env"
proof -
  let ?d = "derive_verification_key (ze_backend env) now circuit_hash the_circuit l"
  have "fst ?d = rbind (bk_compile (ze_backend env) (compile_payload (ze_backend env) the_circuit)) (\<lambda>r. Inr (key_of_output r))"
    using derive_verification_key_fst [of "ze_backend env" now the_circuit l] by simp
  then show ?thesis
    by (cases ?d; cases "bk_compile (ze_backend env) (compile_payload (ze_backend env) the_circuit)")
      (auto simp: verification_key_hash_def compile_circuit_ok lbind_def logged_apply manifest_hash_def key_of_output_def)
qed

lemma manifest_hash_ascii: "manifest_hash env = Inr h \<Longrightarrow> is_ascii h"
  by (auto simp: manifest_hash_def result_simps sha256_bytes_def intro!: all_lower_hex_ascii hex_of_words_hex)

subsection \<open>Exported bundles verify\<close>

definition plonk_accepts :: "backend \<Rightarrow> proof_artifact \<Rightarrow> bool" where
  "plonk_accepts bk p \<longleftrightarrow> accepted (fst (verify_steps bk [] p empty_key_log))"

lemma plonk_accepts_any: "accepted (fst (verify_steps bk now p l)) \<longleftrightarrow> plonk_accepts bk p"
  unfolding plonk_accepts_def verify_steps_accepts check_bindings_accepts by simp

text \<open>The verdict does not depend on the clock, the producer or the log.\<close>

lemma verify_plonk_verdict:
  obtains v l' where "verify_plonk_proof bk now p producer cyc l = (Inr v, l')" "va_status v = ''VALID'' \<longleftrightarrow> plonk_accepts bk p"
proof -
  obtain out l' where s: "verify_steps bk now p l = (out, l')" by fastforce
  obtain v where "verdict_for p producer cyc out = Inr v" "va_status v = (if accepted out then ''VALID'' else ''INVALID'')"
    using verdict_for_total by blast
  then show thesis using that s plonk_accepts_any [of bk now p l] by (simp add: verify_plonk_proof_def)
qed

definition bundle_of :: "import_request \<Rightarrow> calculation_response \<Rightarrow> string \<Rightarrow> proof_artifact \<Rightarrow> (string \<times> pyv) list" where
  "bundle_of q resp vk_h p = [(''input'', request_dump q), (''input_hash'', PStr (ia_input_hash (rs_integrity resp))),
     (''output_hash'', PStr (ia_output_hash (rs_integrity resp))), (''trace_hash'', PStr (trace_hash_of (rs_trace resp))),
     (''circuit_hash'', PStr circuit_hash), (''verification_key_hash'', PStr vk_h), (''proof'', canonical_proof_payload p)]"

lemma packet_fields:
  "tp_request (packet_of q resp producer cyc) = q" "tp_response (packet_of q resp producer cyc) = resp"
  "ta_trace_hash (tp_trace_artifact (packet_of q resp producer cyc)) = trace_hash_of (rs_trace resp)"
  by (simp_all add: packet_of_def trace_of_def Let_def)

lemma export_bundle:
  assumes "manifest_hash env = Inr vk_h"
  obtains l' where "export_proof_bundle env now v (Some (packet_of q resp producer cyc)) (Some p) l = (Inr (bundle_of q resp vk_h p), l')"
proof -
  obtain l' where "verification_key_hash env now circuit_hash l = (Inr vk_h, l')"
    using verification_key_hash_fst [of env now l] assms by (metis prod.collapse)
  then show thesis
    using that by (simp add: export_proof_bundle_def compile_circuit_ok packet_fields bundle_of_def lbind_def logged_apply)
qed

lemma packet_for_ok:
  assumes "validate_request (ze_int_of env) rv = Inr q" "wf_pyv rv" "ze_int_of env (PInt (quantity q)) = Some (quantity q)"
    and "calculate_import_landed_cost (ze_int_of env) (ze_rules env) (ze_dataset_hash env) q = Inr resp"
  shows "packet_for env rv producer = Inr (packet_of q resp producer 1)"
  unfolding packet_for_def by (rule build_trace_packet_ok(1) [OF assms])

lemma integrity_ascii:
  assumes "rs_integrity resp = integrity_of q (rs_result resp) (rs_trace resp)"
  shows "is_ascii (ia_input_hash (rs_integrity resp))" "is_ascii (ia_output_hash (rs_integrity resp))"
    "ia_trace_hash (rs_integrity resp) = trace_hash_of (rs_trace resp)" "is_ascii (trace_hash_of (rs_trace resp))"
  unfolding assms by (simp_all add: integrity_of_def request_hash_def result_hash_def trace_hash_of_def sha.digest_ascii Let_def)

definition ends_with :: "('a \<Rightarrow> bool) \<Rightarrow> 'a logged \<Rightarrow> key_log \<Rightarrow> bool" where
  "ends_with P m l \<longleftrightarrow> (\<exists>v. fst (m l) = Inr v \<and> P v)"

lemma ends_with_pure: "ends_with P (logged m) l \<longleftrightarrow> (\<exists>v. m = Inr v \<and> P v)"
  by (simp add: ends_with_def logged_apply)

lemma ends_with_bind: "ends_with P (lbind (logged m) f) l \<longleftrightarrow> (\<exists>x. m = Inr x \<and> ends_with P (f x) l)"
  by (cases m) (simp_all add: ends_with_def lbind_def logged_apply)

lemmas ends_with_logged = ends_with_pure ends_with_bind

lemma ends_with_key:
  "(\<And>h l l'. ends_with P (f h) l = ends_with P (f h) l') \<Longrightarrow>
    ends_with P (lbind (verification_key_hash env now circuit_hash) f) l
      \<longleftrightarrow> (\<exists>h. manifest_hash env = Inr h \<and> ends_with P (f h) l)"
  using verification_key_hash_fst [of env now l]
  by (cases "verification_key_hash env now circuit_hash l"; cases "manifest_hash env") (auto simp: ends_with_def lbind_def)

lemma ends_with_plonk:
  "ends_with P (lbind (verify_plonk_proof bk now p producer cyc) f) l \<longleftrightarrow>
     (\<exists>v l'. verify_plonk_proof bk now p producer cyc l = (Inr v, l') \<and> ends_with P (f v) l')"
  by (cases "verify_plonk_proof bk now p producer cyc l"; cases "fst (verify_plonk_proof bk now p producer cyc l)")
    (auto simp: ends_with_def lbind_def)

lemma compare_bundle_valid:
  "ends_with bv_valid (compare_bundle env now bundle k circuit_h vk_h p) l \<longleftrightarrow>
     rmap (\<lambda>(k, e). bundle_matches bundle k e) (zip bundle_keys (expected_hashes k circuit_h vk_h)) = Inr (replicate 5 True)
     \<and> plonk_accepts (ze_backend env) p"
proof -
  let ?m = "rmap (\<lambda>(k, e). bundle_matches bundle k e) (zip bundle_keys (expected_hashes k circuit_h vk_h))"
  obtain x l' where x: "verify_plonk_proof (ze_backend env) now p ''proof_bundle_verify'' 1 l = (Inr x, l')"
    "va_status x = ''VALID'' \<longleftrightarrow> plonk_accepts (ze_backend env) p" by (rule verify_plonk_verdict)
  have all: "list_all id oks \<longleftrightarrow> oks = replicate 5 True" if "?m = Inr oks" for oks
  proof -
    have "length oks = 5" using rmap_length [OF that] by (simp add: bundle_keys_def expected_hashes_def)
    then show ?thesis by (auto simp: numeral_eq_Suc length_Suc_conv)
  qed
  show ?thesis
  proof (cases ?m)
    case (Inr oks)
    show ?thesis
      using x all [OF Inr] Inr unfolding compare_bundle_def Let_def
      by (cases "list_all id oks"; cases "va_status x = ''VALID''")
        (auto simp: ends_with_logged ends_with_plonk bundle_result_def)
  qed (simp add: compare_bundle_def ends_with_bind ends_with_pure)
qed

lemma verify_bundle_body_valid:
  "ends_with bv_valid (verify_bundle_body env now bundle) l \<longleftrightarrow>
    (\<exists>input k vk_h payload p. key_of bundle ''input'' = Inr input \<and> packet_for env input ''proof_bundle_verify'' = Inr k
      \<and> manifest_hash env = Inr vk_h \<and> rbind (key_of bundle ''proof'') payload_without_computed = Inr payload
      \<and> parse_proof (ze_int_of env) payload = Inr p
      \<and> rmap (\<lambda>(k, e). bundle_matches bundle k e) (zip bundle_keys (expected_hashes k circuit_hash vk_h)) = Inr (replicate 5 True)
      \<and> plonk_accepts (ze_backend env) p)"
  unfolding verify_bundle_body_def compile_circuit_ok lbind_logged the_circuit_hash ends_with_bind
  apply (subst ends_with_key)
  subgoal by (simp only: ends_with_bind compare_bundle_valid)
  by (simp only: ends_with_bind compare_bundle_valid) blast

lemma verify_proof_bundle_valid:
  "bv_valid (fst (verify_proof_bundle env now bundle l)) \<longleftrightarrow> ends_with bv_valid (verify_bundle_body env now bundle) l"
  by (auto simp: verify_proof_bundle_def ends_with_def split: prod.splits sum.splits)

lemma rmap_all_True: "rmap f xs = Inr (replicate (length xs) True) \<longleftrightarrow> list_all (\<lambda>x. f x = Inr True) xs"
  by (induction xs) (auto simp: rbind_Inr_iff)

lemma bundle_matches_True: "bundle_matches bundle k h = Inr True \<longleftrightarrow> map_of bundle k = Some (PStr h) \<and> is_ascii h"
  by (auto simp: bundle_matches_def key_of_def constant_time_equal_def split: option.splits pyv.splits)

lemma bundle_matches_all:
  "rmap (\<lambda>(k, e). bundle_matches bundle k e) (zip bundle_keys (expected_hashes k circuit_h vk_h)) = Inr (replicate 5 True)
    \<longleftrightarrow> list_all (\<lambda>(k, e). map_of bundle k = Some (PStr e) \<and> is_ascii e) (zip bundle_keys (expected_hashes k circuit_h vk_h))"
proof -
  have len: "length (zip bundle_keys (expected_hashes k circuit_h vk_h)) = 5" by (simp add: bundle_keys_def expected_hashes_def)
  show ?thesis unfolding len [symmetric] rmap_all_True by (simp add: case_prod_unfold bundle_matches_True)
qed

text \<open>The bundle exported for a calculation and a proof that the verifier accepts.\<close>

lemma bundle_of_verifies:
  assumes "valid_request q" "ze_int_of env (PInt (quantity q)) = Some (quantity q)"
    and "calculate_import_landed_cost (ze_int_of env) (ze_rules env) (ze_dataset_hash env) q = Inr resp"
    and "manifest_hash env = Inr vk_h" "validate_proof p = Inr p" "ze_int_of env (PInt (cycle p)) = Some (cycle p)"
    and "plonk_accepts (ze_backend env) p"
  shows "bv_valid (fst (verify_proof_bundle env now (bundle_of q resp vk_h p) l))"
proof -
  let ?b = "bundle_of q resp vk_h p" and ?k = "packet_of q resp ''proof_bundle_verify'' 1"
  note rq = validate_request_dump [where int_of = "ze_int_of env", OF assms(1,2)] request_dump_wf [OF assms(1)]
  have k: "packet_for env (request_dump q) ''proof_bundle_verify'' = Inr ?k" by (rule packet_for_ok [OF rq assms(2,3)])
  have i: "rs_integrity resp = integrity_of q (rs_result resp) (rs_trace resp)"
    by (rule build_trace_packet_ok(2) [where int_of = "ze_int_of env", OF rq assms(2,3)])
  have e: "expected_hashes ?k circuit_hash vk_h = [ia_input_hash (rs_integrity resp), ia_output_hash (rs_integrity resp),
      trace_hash_of (rs_trace resp), circuit_hash, vk_h]"
    by (simp add: expected_hashes_def packet_fields)
  have a: "is_ascii circuit_hash" by (rule all_lower_hex_ascii [OF circuit_hash_hex(1)])
  have m: "list_all (\<lambda>(k, e). map_of ?b k = Some (PStr e) \<and> is_ascii e) (zip bundle_keys (expected_hashes ?k circuit_hash vk_h))"
    using integrity_ascii [OF i] manifest_hash_ascii [OF assms(4)] a
    by (simp add: bundle_keys_def bundle_of_def e)
  have "key_of ?b ''input'' = Inr (request_dump q)" "key_of ?b ''proof'' = Inr (canonical_proof_payload p)"
    by (simp_all add: key_of_def bundle_of_def)
  then have "ends_with bv_valid (verify_bundle_body env now ?b) l"
    unfolding verify_bundle_body_valid bundle_matches_all
    using k m assms(4,7) payload_without_computed_id parse_proof_round_trip [where int_of = "ze_int_of env", OF assms(5,6)] by fastforce
  then show ?thesis by (simp add: verify_proof_bundle_valid)
qed

end
