(* ===== verification/Evidence_Store.thy ===== *)
theory Evidence_Store
  imports Audit_Chain "HOL-Library.Product_Lexorder"
begin

text \<open>
  \<open>app/db/repository.py\<close> with the tables of \<open>migrations/\<close>: the rows as the SQL statements leave them,
  the operations of a session and transactions that commit or roll back.  Whether a statement fails
  for a reason outside the tables (lost connection, deadlock, time limit) is an argument: the
  function \<open>faults\<close> gives the error of the \<open>n\<close>-th statement of a transaction.  The first statement opens it, the last but one
  ends it, and the last stands for what \<open>__aexit__\<close> still waits for when the server has done so: the answer and the
  release of the connection.
  A \<open>JSONB\<close> value is the Python value stored; the order of its keys is never read.  Times are the texts
  of \<open>utc_isoformat\<close>, whose order is the order of time.
\<close>

subsection \<open>Records\<close>

record request_record =
  rq_id :: string
  rq_input_hash :: string
  rq_raw_input :: pyv
  rq_created_at :: string

record result_record =
  rr_id :: string
  rr_request_id :: string
  rr_output_hash :: string
  rr_raw_output :: pyv
  rr_created_at :: string

record proof_record =
  pr_id :: string
  pr_request_id :: string
  pr_trace_hash :: string
  pr_final_proof :: string
  pr_integrity_hash :: string
  pr_proof_system :: string
  pr_circuit_hash :: string
  pr_verification_key_hash :: string
  pr_proof_bundle :: "(string \<times> pyv) list"
  pr_proof_verified :: bool
  pr_created_at :: string

record evidence_bundle =
  eb_request :: request_record
  eb_result :: result_record
  eb_proof :: proof_record
  eb_audit_log :: "audit_event option"

text \<open>The tables; the rows of the log are in the order of insertion, \<open>db_next_id\<close> is its id sequence.\<close>

record evidence_db =
  db_requests :: "request_record list"
  db_results :: "result_record list"
  db_proofs :: "proof_record list"
  db_audit :: "audit_event list"
  db_next_id :: int

definition empty_db :: evidence_db where
  "empty_db = \<lparr>db_requests = [], db_results = [], db_proofs = [], db_audit = [], db_next_id = 1\<rparr>"

definition chain_id_to_lock_key :: "int \<Rightarrow> int" where
  "chain_id_to_lock_key c = 4283911000 + c"

subsection \<open>Queries\<close>

definition event_id :: "audit_event \<Rightarrow> int" where
  "event_id r = (case ae_id r of None \<Rightarrow> 0 | Some n \<Rightarrow> n)"

text \<open>\<open>ORDER BY id DESC LIMIT 1\<close>.\<close>

definition latest_by_id :: "audit_event list \<Rightarrow> audit_event option" where
  "latest_by_id rs = (case sort_key event_id rs of [] \<Rightarrow> None | x # xs \<Rightarrow> Some (last (x # xs)))"

definition latest_chain_hash :: "int \<Rightarrow> evidence_db \<Rightarrow> string" where
  "latest_chain_hash c db = (case latest_by_id (filter (\<lambda>r. ae_chain_id r = c) (db_audit db)) of
     None \<Rightarrow> zero_hash | Some r \<Rightarrow> ae_current_hash r)"

definition has_input_hash :: "string \<Rightarrow> evidence_db \<Rightarrow> bool" where
  "has_input_hash h db \<longleftrightarrow> h \<in> set (map rq_input_hash (db_requests db))"

text \<open>The join of requests, results and proofs with the latest log row of the request.\<close>

definition joined_rows :: "evidence_db \<Rightarrow> (request_record \<times> result_record \<times> proof_record) list" where
  "joined_rows db = concat (map (\<lambda>r. concat (map (\<lambda>s. map (\<lambda>p. (r, s, p))
     (filter (\<lambda>p. pr_request_id p = rq_id r) (db_proofs db)))
     (filter (\<lambda>s. rr_request_id s = rq_id r) (db_results db)))) (db_requests db))"

definition bundle_from_row :: "evidence_db \<Rightarrow> request_record \<times> result_record \<times> proof_record \<Rightarrow> evidence_bundle" where
  "bundle_from_row db row = (case row of (r, s, p) \<Rightarrow> \<lparr>eb_request = r, eb_result = s, eb_proof = p,
     eb_audit_log = latest_by_id (filter (\<lambda>e. ae_reference_id e = Some (rq_id r)) (db_audit db))\<rparr>)"

definition fetch_by_input_hash :: "string \<Rightarrow> evidence_db \<Rightarrow> evidence_bundle option" where
  "fetch_by_input_hash h db = map_option (bundle_from_row db)
     (find (\<lambda>(r, s, p). rq_input_hash r = h) (joined_rows db))"

definition fetch_audit_chain :: "evidence_db \<Rightarrow> audit_event list" where
  "fetch_audit_chain db = sort_key (\<lambda>r. (ae_chain_id r, event_id r)) (db_audit db)"

definition fetch_training_candidates :: "nat \<Rightarrow> evidence_db \<Rightarrow> evidence_bundle list" where
  "fetch_training_candidates limit db = map (bundle_from_row db) (take limit
     (sort_key (\<lambda>(r, s, p). (pr_created_at p, pr_id p))
       (filter (\<lambda>(r, s, p). pr_proof_verified p \<and> pr_proof_system p = ''plonk'') (joined_rows db))))"

subsection \<open>Updates\<close>

text \<open>The primary keys and the unique constraints of the three tables.\<close>

definition unique_violation :: "request_record \<Rightarrow> result_record \<Rightarrow> proof_record \<Rightarrow> evidence_db \<Rightarrow> bool" where
  "unique_violation r s p db \<longleftrightarrow> rq_id r \<in> set (map rq_id (db_requests db))
     \<or> rq_input_hash r \<in> set (map rq_input_hash (db_requests db))
     \<or> rr_id s \<in> set (map rr_id (db_results db)) \<or> rq_id r \<in> set (map rr_request_id (db_results db))
     \<or> pr_id p \<in> set (map pr_id (db_proofs db)) \<or> rq_id r \<in> set (map pr_request_id (db_proofs db))"

text \<open>One statement inserts the three rows; result and proof take the id of the inserted request.\<close>

definition insert_records :: "request_record \<Rightarrow> result_record \<Rightarrow> proof_record \<Rightarrow> evidence_db \<Rightarrow> unit result \<times> evidence_db" where
  "insert_records r s p db = (if unique_violation r s p db
     then (Inl (DuplicateInputHashError (''Duplicate input hash detected: '' @ rq_input_hash r)), db)
     else (Inr (), db\<lparr>db_requests := db_requests db @ [r], db_results := db_results db @ [s\<lparr>rr_request_id := rq_id r\<rparr>],
       db_proofs := db_proofs db @ [p\<lparr>pr_request_id := rq_id r\<rparr>]\<rparr>))"

definition insert_event :: "audit_event \<Rightarrow> evidence_db \<Rightarrow> audit_event result \<times> evidence_db" where
  "insert_event e db = (let e' = e\<lparr>ae_id := Some (db_next_id db)\<rparr> in
     (Inr e', db\<lparr>db_audit := db_audit db @ [e'], db_next_id := db_next_id db + 1\<rparr>))"

subsection \<open>Sessions\<close>

text \<open>A session works on its own copy of the tables and counts its statements.\<close>

type_synonym 'a session = "(nat \<Rightarrow> py_error option) \<Rightarrow> evidence_db \<times> nat \<Rightarrow> 'a result \<times> evidence_db \<times> nat"

definition statement :: "(evidence_db \<Rightarrow> 'a result \<times> evidence_db) \<Rightarrow> 'a session" where
  "statement f faults st = (case st of (db, n) \<Rightarrow> (case faults n of
       Some e \<Rightarrow> (Inl e, db, Suc n)
     | None \<Rightarrow> (case f db of (r, db') \<Rightarrow> (r, db', Suc n))))"

definition session_return :: "'a result \<Rightarrow> 'a session" where
  "session_return r faults st = (r, st)"

definition session_bind :: "'a session \<Rightarrow> ('a \<Rightarrow> 'b session) \<Rightarrow> 'b session" where
  "session_bind m f faults st = (case m faults st of (Inl e, st') \<Rightarrow> (Inl e, st') | (Inr x, st') \<Rightarrow> f x faults st')"

definition acquire_audit_chain_lock :: "int \<Rightarrow> unit session" where
  "acquire_audit_chain_lock c = statement (\<lambda>db. (Inr (), db))"

definition fetch_latest_audit_hash_for_chain :: "int \<Rightarrow> string session" where
  "fetch_latest_audit_hash_for_chain c = statement (\<lambda>db. (Inr (latest_chain_hash c db), db))"

definition check_duplicate :: "string \<Rightarrow> bool session" where
  "check_duplicate h = statement (\<lambda>db. (Inr (has_input_hash h db), db))"

definition insert_records_batch :: "request_record \<Rightarrow> result_record \<Rightarrow> proof_record \<Rightarrow> unit session" where
  "insert_records_batch r s p = statement (insert_records r s p)"

definition insert_audit_event :: "audit_event \<Rightarrow> audit_event session" where
  "insert_audit_event e = statement (insert_event e)"

definition read_only :: "(evidence_db \<Rightarrow> 'a) \<Rightarrow> 'a session" where
  "read_only q = statement (\<lambda>db. (Inr (q db), db))"

text \<open>\<open>async with repository.transaction() as session\<close>: taking a connection and starting the transaction is
  statement 0, the commit or rollback is a statement of its own, and so is what follows it: the answer of the server
  and the \<open>finally\<close> clause that releases the connection.  An error there raises although the server has
  committed; the error raised last is the one that leaves the block.  An exception of the body or of the commit rolls back
  everything but the sequence of ids.\<close>

definition rolled_back :: "evidence_db \<Rightarrow> evidence_db \<Rightarrow> evidence_db" where
  "rolled_back db db' = db\<lparr>db_next_id := db_next_id db'\<rparr>"

definition raised_last :: "(nat \<Rightarrow> py_error option) \<Rightarrow> nat \<Rightarrow> py_error \<Rightarrow> py_error" where
  "raised_last faults n e = (case faults (Suc n) of Some e' \<Rightarrow> e'
     | None \<Rightarrow> (case faults n of Some e' \<Rightarrow> e' | None \<Rightarrow> e))"

definition transaction :: "'a session \<Rightarrow> (nat \<Rightarrow> py_error option) \<Rightarrow> evidence_db \<Rightarrow> 'a result \<times> evidence_db" where
  "transaction body faults db = (case faults 0 of
     Some e \<Rightarrow> (Inl e, db)
   | None \<Rightarrow> (case body faults (db, 1) of
       (Inl e, db', n) \<Rightarrow> (Inl (raised_last faults n e), rolled_back db db')
     | (Inr x, db', n) \<Rightarrow> (case faults n of
         Some e \<Rightarrow> (Inl (raised_last faults n e), rolled_back db db')
       | None \<Rightarrow> (case faults (Suc n) of Some e \<Rightarrow> (Inl e, db') | None \<Rightarrow> (Inr x, db')))))"

subsection \<open>What a store of audit events promises\<close>

text \<open>The interface the service relies on: the latest digest of a chain is the end of that chain among the
  records, and appending an event extends its chain, whatever id the store gives it.\<close>

locale audit_store =
  fixes inv :: "'s \<Rightarrow> bool"
    and records :: "'s \<Rightarrow> audit_event list"
    and newest :: "int \<Rightarrow> 's \<Rightarrow> string"
    and append :: "audit_event \<Rightarrow> 's \<Rightarrow> 's"
  assumes newest_end: "inv s \<Longrightarrow> newest c s = chain_end zero_hash (partition_of c (records s))"
    and append_records: "inv s \<Longrightarrow> \<exists>i. partition_of c (records (append e s))
          = partition_of c (records s) @ (if ae_chain_id e = c then [e\<lparr>ae_id := i\<rparr>] else [])"
    and append_inv: "inv s \<Longrightarrow> inv (append e s)"
begin

definition log_valid :: "'s \<Rightarrow> bool" where
  "log_valid s \<longleftrightarrow> (\<forall>c. chain_ok zero_hash (partition_of c (records s)))"

lemma log_valid_verifies:
  "log_valid s \<longleftrightarrow> (\<exists>res. verify_audit_chain (records s) = Inr res \<and> ac_status res = ''VALID'')"
  unfolding log_valid_def by (rule verify_audit_chain_valid_iff [symmetric])

lemma append_log_valid:
  assumes "inv s" "log_valid s" "build_audit_event t ref p (newest c s) now c i = Inr e"
  shows "log_valid (append e s)"
proof -
  have e: "ae_prev_hash e = chain_end zero_hash (partition_of c (records s))" "ae_chain_id e = c"
    "record_hash e = Inr (ae_current_hash e)"
    using build_event_fields [OF assms(3)] newest_end [OF assms(1)] by auto
  have "chain_ok zero_hash (partition_of d (records (append e s)))" for d
  proof -
    obtain k where "partition_of d (records (append e s)) = partition_of d (records s) @ (if ae_chain_id e = d then [e\<lparr>ae_id := k\<rparr>] else [])"
      using append_records [OF assms(1)] by blast
    then show ?thesis using assms(2) e by (auto simp: log_valid_def chain_ok_snoc record_hash_def)
  qed
  then show ?thesis by (simp add: log_valid_def)
qed

end

subsection \<open>The tables keep the contract\<close>

definition audit_ok :: "evidence_db \<Rightarrow> bool" where
  "audit_ok db \<longleftrightarrow> sorted_wrt (\<lambda>a b. event_id a < event_id b) (db_audit db)
     \<and> list_all (\<lambda>e. event_id e < db_next_id db) (db_audit db)"

lemma event_id_set [simp]: "event_id (e\<lparr>ae_id := Some n\<rparr>) = n"
  by (simp add: event_id_def)

lemma sorted_ids: "sorted_wrt (\<lambda>a b. event_id a < event_id b) rs \<Longrightarrow> sorted (map event_id rs)"
  by (induction rs) auto

lemma latest_by_id_sorted:
  "sorted_wrt (\<lambda>a b. event_id a < event_id b) rs \<Longrightarrow> latest_by_id rs = (if rs = [] then None else Some (last rs))"
  using sort_key_sorted [OF sorted_ids, of rs] by (auto simp: latest_by_id_def split: list.splits)

lemma sorted_wrt_filtered: "sorted_wrt R rs \<Longrightarrow> sorted_wrt R (filter P rs)"
  by (induction rs) auto

lemma one_chain_sorted:
  "sorted_wrt (\<lambda>a b. event_id a < event_id b) rs \<Longrightarrow> \<forall>e \<in> set rs. ae_chain_id e = c
    \<Longrightarrow> sorted (map (\<lambda>r. (ae_chain_id r, event_id r)) rs)"
  by (induction rs) (auto simp: less_eq_prod_def)

lemma partition_of_fetched:
  assumes "audit_ok db" shows "partition_of c (fetch_audit_chain db) = partition_of c (db_audit db)"
proof -
  have "sorted (map (\<lambda>r. (ae_chain_id r, event_id r)) (partition_of c (db_audit db)))"
    using assms by (intro one_chain_sorted [where c = c]) (auto simp: audit_ok_def partition_of_def sorted_wrt_filtered)
  then show ?thesis
    unfolding partition_of_def fetch_audit_chain_def by (simp add: filter_sort sort_key_sorted)
qed

interpretation es: audit_store audit_ok fetch_audit_chain latest_chain_hash "\<lambda>e db. snd (insert_event e db)"
proof
  fix db c e assume ok: "audit_ok db"
  then show "latest_chain_hash c db = chain_end zero_hash (partition_of c (fetch_audit_chain db))"
    unfolding partition_of_fetched [OF ok]
    by (simp add: latest_chain_hash_def latest_by_id_sorted sorted_wrt_filtered audit_ok_def partition_of_def chain_end_def)
  show i: "audit_ok (snd (insert_event e db))"
    using ok by (auto simp: audit_ok_def insert_event_def Let_def sorted_wrt_append list_all_iff)
  show "\<exists>i. partition_of c (fetch_audit_chain (snd (insert_event e db)))
      = partition_of c (fetch_audit_chain db) @ (if ae_chain_id e = c then [e\<lparr>ae_id := i\<rparr>] else [])"
    unfolding partition_of_fetched [OF ok] partition_of_fetched [OF i]
    by (simp add: insert_event_def partition_of_def Let_def) blast
qed

end
