(* ===== verification/Verified_Dataset.thy ===== *)
theory Verified_Dataset
  imports Proof_Export Evidence_Store Core_Verifier Binary64
begin

text \<open>
  \<open>backend/verified_dataset.py\<close> with \<open>models/verified_dataset.py\<close> and \<open>app/services/training_service.py\<close>:
  the training records exported from stored evidence and the figures about them.
  \<open>CalculationResponse.model_validate\<close> is a parameter, as in the verifier.  Identifiers are the texts
  of the UUIDs, times the texts of \<open>utc_isoformat\<close>.
\<close>

record evidence_env = export_env +
  ve_parse_response :: "pyv \<Rightarrow> calculation_response result"

subsection \<open>Records\<close>

record persisted_response =
  ps_response :: calculation_response
  ps_evidence :: evidence_bundle

record training_record =
  vt_dataset_version :: string
  vt_record_id :: string
  vt_request_id :: string
  vt_proof_id :: string
  vt_created_at :: string
  vt_verification_status :: string
  vt_input_hash :: string
  vt_output_hash :: string
  vt_trace_hash :: string
  vt_witness_hash :: string
  vt_integrity_hash :: string
  vt_final_proof :: string
  vt_circuit_hash :: string
  vt_verification_key_hash :: string
  vt_proof_system :: string
  vt_input_payload :: pyv
  vt_result_payload :: calculation_result
  vt_trace :: "trace_step list"
  vt_proof_bundle :: "(string \<times> pyv) list"

record dataset_export =
  vd_dataset_version :: string
  vd_exported_at :: string
  vd_total_candidates :: int
  vd_exportable_records :: int
  vd_skipped_records :: int
  vd_records :: "training_record list"

record moat_metrics =
  mm_dataset_version :: string
  mm_measured_at :: string
  mm_total_candidates :: int
  mm_exportable_records :: int
  mm_skipped_records :: int
  mm_unique_input_hashes :: int
  mm_unique_output_hashes :: int
  mm_unique_trace_hashes :: int
  mm_unique_circuit_hashes :: int
  mm_unique_verification_keys :: int
  mm_unique_hs_codes :: int
  mm_unique_origin_countries :: int
  mm_proof_systems :: "string list"
  mm_exportability_ratio :: rat

definition verified_dataset_version :: string where
  "verified_dataset_version = ''verified-training-record-v1''"

subsection \<open>One record\<close>

definition training_payload :: "persisted_response \<Rightarrow> proof_artifact \<Rightarrow> string \<Rightarrow> string \<Rightarrow> pyv" where
  "training_payload ps p witness_h vk_h = (let i = rs_integrity (ps_response ps) in PDict [
     (''dataset_version'', PStr verified_dataset_version), (''request_id'', PStr (rq_id (eb_request (ps_evidence ps)))),
     (''proof_id'', PStr (pr_id (eb_proof (ps_evidence ps)))), (''input_hash'', PStr (ia_input_hash i)),
     (''output_hash'', PStr (ia_output_hash i)), (''trace_hash'', PStr (ia_trace_hash i)), (''witness_hash'', PStr witness_h),
     (''integrity_hash'', PStr (ia_integrity_hash i)), (''final_proof'', PStr (pa_final_proof p)),
     (''circuit_hash'', PStr (circuit_hash_of p)), (''verification_key_hash'', PStr vk_h),
     (''proof_system'', PStr (pa_proof_system p))])"

definition build_verified_training_record ::
  "persisted_response \<Rightarrow> proof_artifact \<Rightarrow> string \<Rightarrow> string \<Rightarrow> (string \<times> pyv) list \<Rightarrow> training_record result" where
  "build_verified_training_record ps p witness_h vk_h bundle =
    (if map_of bundle ''proof'' \<in> {None, Some PNone} then Inl (ValueError ''proof_bundle must include a proof payload'')
     else rbind (payload_hash (training_payload ps p witness_h vk_h)) (\<lambda>record_id.
       let i = rs_integrity (ps_response ps); e = ps_evidence ps in
       Inr \<lparr>vt_dataset_version = verified_dataset_version, vt_record_id = record_id, vt_request_id = rq_id (eb_request e),
         vt_proof_id = pr_id (eb_proof e), vt_created_at = pr_created_at (eb_proof e), vt_verification_status = ''VERIFIED'',
         vt_input_hash = ia_input_hash i, vt_output_hash = ia_output_hash i, vt_trace_hash = ia_trace_hash i,
         vt_witness_hash = witness_h, vt_integrity_hash = ia_integrity_hash i, vt_final_proof = pa_final_proof p,
         vt_circuit_hash = circuit_hash_of p, vt_verification_key_hash = vk_h, vt_proof_system = pa_proof_system p,
         vt_input_payload = rq_raw_input (eb_request e), vt_result_payload = rs_result (ps_response ps),
         vt_trace = rs_trace (ps_response ps), vt_proof_bundle = bundle\<rparr>))"

text \<open>\<open>if not constant_time_equal(a, b): raise ValueError(m)\<close>.\<close>

definition require_equal :: "string \<Rightarrow> string \<Rightarrow> string \<Rightarrow> unit result" where
  "require_equal m a b = rbind (constant_time_equal a b) (\<lambda>eq. if eq then Inr () else Inl (ValueError m))"

definition check_evidence :: "evidence_bundle \<Rightarrow> trace_packet \<Rightarrow> proof_artifact \<Rightarrow> unit result" where
  "check_evidence e k p = (let i = rs_integrity (tp_response k) in
     rbind (require_equal ''Persisted request hash does not match recomputed deterministic input hash''
       (ia_input_hash i) (rq_input_hash (eb_request e))) (\<lambda>_.
     rbind (require_equal ''Persisted result hash does not match recomputed deterministic output hash''
       (ia_output_hash i) (rr_output_hash (eb_result e))) (\<lambda>_.
     rbind (require_equal ''Persisted trace hash does not match recomputed deterministic trace hash''
       (ia_trace_hash i) (pr_trace_hash (eb_proof e))) (\<lambda>_.
     rbind (require_equal ''Persisted final proof does not match bundled proof payload''
       (pa_final_proof p) (pr_final_proof (eb_proof e))) (\<lambda>_.
     require_equal ''Persisted circuit hash does not match bundled proof payload''
       (circuit_hash_of p) (pr_circuit_hash (eb_proof e)))))))"

definition build_verified_training_record_from_evidence ::
  "evidence_env \<Rightarrow> string \<Rightarrow> evidence_bundle \<Rightarrow> training_record logged" where
  "build_verified_training_record_from_evidence env now e l =
    (if \<not> pr_proof_verified (eb_proof e)
     then (Inl (ValueError ''Only proof-verified evidence may be exported into the training dataset''), l)
     else if pr_proof_system (eb_proof e) \<noteq> ''plonk'' then (Inl (ValueError ''legacy record''), l)
     else let bundle = pr_proof_bundle (eb_proof e) in
       (case verify_proof_bundle (export_env.truncate env) now bundle l of (v, l') \<Rightarrow>
         if \<not> bv_valid v then (Inl (ValueError (''Persisted proof bundle is not externally valid: '' @ bv_reason v)), l')
         else (rbind (ve_parse_response env (rr_raw_output (eb_result e))) (\<lambda>resp.
           rbind (packet_for (export_env.truncate env) (rq_raw_input (eb_request e)) ''verified_dataset_export'') (\<lambda>k.
           rbind (rbind (key_of bundle ''proof'') (parse_proof (ze_int_of env))) (\<lambda>p.
           rbind (check_evidence e k p) (\<lambda>_.
           build_verified_training_record \<lparr>ps_response = resp, ps_evidence = e\<rparr> p (wa_witness_hash (tp_witness_artifact k))
             (pr_verification_key_hash (eb_proof e)) bundle)))), l')))"

subsection \<open>The data set\<close>

text \<open>\<open>except ValueError\<close>; pydantic's \<open>ValidationError\<close> is a \<open>ValueError\<close>.\<close>

fun is_value_error :: "py_error \<Rightarrow> bool" where
  "is_value_error (ValueError _) = True"
| "is_value_error (ValidationError _) = True"
| "is_value_error _ = False"

text \<open>The loop: the records so far and the number of bundles skipped.\<close>

fun export_loop :: "evidence_env \<Rightarrow> string \<Rightarrow> evidence_bundle list \<Rightarrow> training_record list \<Rightarrow> int
    \<Rightarrow> (training_record list \<times> int) logged" where
  "export_loop env now [] rs skipped l = (Inr (rs, skipped), l)"
| "export_loop env now (e # es) rs skipped l = (case build_verified_training_record_from_evidence env now e l of
     (Inr r, l') \<Rightarrow> export_loop env now es (rs @ [r]) skipped l'
   | (Inl x, l') \<Rightarrow> if is_value_error x then export_loop env now es rs (skipped + 1) l' else (Inl x, l'))"

definition export_verified_dataset :: "evidence_env \<Rightarrow> string \<Rightarrow> evidence_bundle list \<Rightarrow> dataset_export logged" where
  "export_verified_dataset env now es = lbind (export_loop env now es [] 0) (\<lambda>(rs, skipped).
     logged (Inr \<lparr>vd_dataset_version = verified_dataset_version, vd_exported_at = now, vd_total_candidates = int (length es),
       vd_exportable_records = int (length rs), vd_skipped_records = skipped, vd_records = rs\<rparr>))"

definition unique_values :: "('a \<Rightarrow> 'b) \<Rightarrow> 'a list \<Rightarrow> int" where
  "unique_values f xs = int (length (remdups (map f xs)))"

text \<open>The ratio is a division of \<open>int\<close>s: the quotient rounded to a double.\<close>

definition compute_moat_metrics :: "string \<Rightarrow> dataset_export \<Rightarrow> moat_metrics" where
  "compute_moat_metrics now d = (let rs = vd_records d in
     \<lparr>mm_dataset_version = vd_dataset_version d, mm_measured_at = now, mm_total_candidates = vd_total_candidates d,
      mm_exportable_records = vd_exportable_records d, mm_skipped_records = vd_skipped_records d,
      mm_unique_input_hashes = unique_values vt_input_hash rs, mm_unique_output_hashes = unique_values vt_output_hash rs,
      mm_unique_trace_hashes = unique_values vt_trace_hash rs, mm_unique_circuit_hashes = unique_values vt_circuit_hash rs,
      mm_unique_verification_keys = unique_values vt_verification_key_hash rs,
      mm_unique_hs_codes = unique_values (\<lambda>r. cr_hs_code (vt_result_payload r)) rs,
      mm_unique_origin_countries = unique_values (\<lambda>r. cr_country_of_origin (vt_result_payload r)) rs,
      mm_proof_systems = sort (remdups (map vt_proof_system rs)),
      mm_exportability_ratio = (if vd_total_candidates d > 0
        then fl (of_int (int (length rs)) / of_int (vd_total_candidates d)) else 0)\<rparr>)"

definition export_training_dataset :: "evidence_env \<Rightarrow> string \<Rightarrow> nat \<Rightarrow> evidence_db \<Rightarrow> dataset_export logged" where
  "export_training_dataset env now limit db = export_verified_dataset env now (fetch_training_candidates limit db)"

end
