(* ===== verification/Service_Limits.thy ===== *)
theory Service_Limits
  imports Audit_Chain Binary64 "HOL-Library.AList"
begin

text \<open>
  The guards of the service: \<open>security/rate_limit.py\<close>, \<open>security/backpressure.py\<close>,
  \<open>security/api_keys.py\<close>, \<open>security/audit_log.py\<close> and the counters of \<open>core/chain_metrics.py\<close>.  The
  code holds a lock during every operation, so an operation is one step on the state.  The clock is
  an argument.  \<open>time()\<close> returns doubles of the same magnitude, whose differences are exact, so a
  time is a rational number; counters of milliseconds are rounded (theory Binary64).
\<close>

subsection \<open>Sliding-window rate limiter\<close>

record rate_limit_result =
  rr_allowed :: bool
  rr_remaining :: int
  rr_reset_after_seconds :: int

record rate_limiter =
  rl_limit :: int
  rl_window_seconds :: int
  rl_hits :: "string \<Rightarrow> rat list"

definition rate_limiter_init :: "int \<Rightarrow> int \<Rightarrow> rate_limiter result" where
  "rate_limiter_init limit window =
     (if limit \<le> 0 then Inl (ValueError ''limit must be positive'')
      else if window \<le> 0 then Inl (ValueError ''window_seconds must be positive'')
      else Inr \<lparr>rl_limit = limit, rl_window_seconds = window, rl_hits = (\<lambda>_. [])\<rparr>)"

text \<open>\<open>int(x)\<close> of a float rounds toward zero.\<close>

definition trunc :: "rat \<Rightarrow> int" where
  "trunc x = (if 0 \<le> x then \<lfloor>x\<rfloor> else - \<lfloor>- x\<rfloor>)"

definition expire :: "int \<Rightarrow> rat \<Rightarrow> rat list \<Rightarrow> rat list" where
  "expire window now hits = dropWhile (\<lambda>h. now - h \<ge> of_int window) hits"

definition allow :: "rate_limiter \<Rightarrow> rat \<Rightarrow> string \<Rightarrow> rate_limit_result \<times> rate_limiter" where
  "allow l now key = (let hits = expire (rl_window_seconds l) now (rl_hits l key) in
     if int (length hits) \<ge> rl_limit l
     then (let reset = (case hits of [] \<Rightarrow> rl_window_seconds l
                        | h # _ \<Rightarrow> trunc (of_int (rl_window_seconds l) - (now - h))) in
       (\<lparr>rr_allowed = False, rr_remaining = 0, rr_reset_after_seconds = max reset 0\<rparr>,
        l\<lparr>rl_hits := (rl_hits l)(key := hits)\<rparr>))
     else (\<lparr>rr_allowed = True, rr_remaining = max (rl_limit l - int (length hits + 1)) 0,
            rr_reset_after_seconds = rl_window_seconds l\<rparr>,
           l\<lparr>rl_hits := (rl_hits l)(key := hits @ [now])\<rparr>))"

subsection \<open>Limit on the requests in flight\<close>

record depth_guard =
  dg_max :: int
  dg_current :: int
  dg_rejected_total :: int
  dg_peak :: int

definition depth_guard_init :: "int \<Rightarrow> depth_guard result" where
  "depth_guard_init m = (if m \<le> 0 then Inl (ValueError ''max_in_flight must be positive'')
     else Inr \<lparr>dg_max = m, dg_current = 0, dg_rejected_total = 0, dg_peak = 0\<rparr>)"

definition overload_error :: "depth_guard \<Rightarrow> py_error" where
  "overload_error g = RuntimeError (''Server overloaded: '' @ int_text (dg_current g) @ ''/'' @ int_text (dg_max g) @
     '' in-flight requests. Retry after a short delay.'')"

definition acquire :: "depth_guard \<Rightarrow> unit result \<times> depth_guard" where
  "acquire g = (if dg_current g \<ge> dg_max g
     then (Inl (overload_error g), g\<lparr>dg_rejected_total := dg_rejected_total g + 1\<rparr>)
     else (Inr (), g\<lparr>dg_current := dg_current g + 1, dg_peak := max (dg_peak g) (dg_current g + 1)\<rparr>))"

definition release :: "depth_guard \<Rightarrow> depth_guard" where
  "release g = g\<lparr>dg_current := max 0 (dg_current g - 1)\<rparr>"

text \<open>\<open>async with guard.guarded()\<close>: the body runs only after a successful \<open>acquire\<close>, and \<open>release\<close>
  follows whatever it does.\<close>

definition guarded :: "(depth_guard \<Rightarrow> 'a result \<times> depth_guard) \<Rightarrow> depth_guard \<Rightarrow> 'a result \<times> depth_guard" where
  "guarded body g = (case acquire g of
     (Inl e, g1) \<Rightarrow> (Inl e, g1)
   | (Inr _, g1) \<Rightarrow> (let (r, g2) = body g1 in (r, release g2)))"

definition depth_snapshot :: "depth_guard \<Rightarrow> (string \<times> int) list" where
  "depth_snapshot g = [(''in_flight'', dg_current g), (''max_in_flight'', dg_max g),
     (''peak_in_flight'', dg_peak g), (''rejected_total'', dg_rejected_total g)]"

subsection \<open>API keys\<close>

record api_key_record =
  ak_key_id :: string
  ak_key_hash :: string
  ak_label :: string
  ak_requests_total :: int
  ak_requests_today :: int
  ak_day_bucket :: string

type_synonym api_key_store = "(string \<times> api_key_record) list"

definition tick :: "string \<Rightarrow> api_key_record \<Rightarrow> api_key_record" where
  "tick today r = (let r' = (if today \<noteq> ak_day_bucket r
       then r\<lparr>ak_requests_today := 0, ak_day_bucket := today\<rparr> else r) in
     r'\<lparr>ak_requests_total := ak_requests_total r' + 1, ak_requests_today := ak_requests_today r' + 1\<rparr>)"

definition register_key :: "string \<Rightarrow> string \<Rightarrow> string \<Rightarrow> api_key_store \<Rightarrow> string \<times> api_key_store" where
  "register_key today label raw ks = (let h = sha256_hex raw; i = take 8 h in
     (i, AList.update h \<lparr>ak_key_id = i, ak_key_hash = h, ak_label = label, ak_requests_total = 0,
        ak_requests_today = 0, ak_day_bucket = today\<rparr> ks))"

definition authenticate :: "string \<Rightarrow> string \<Rightarrow> api_key_store \<Rightarrow> api_key_record option \<times> api_key_store" where
  "authenticate today raw ks = (let h = sha256_hex raw in
     case map_of ks h of
       None \<Rightarrow> (None, ks)
     | Some r \<Rightarrow> (Some (tick today r), AList.update h (tick today r) ks))"

definition keys_enabled :: "api_key_store \<Rightarrow> bool" where
  "keys_enabled ks \<longleftrightarrow> length ks > 0"

definition keys_snapshot :: "api_key_store \<Rightarrow> (string \<times> string \<times> int \<times> int) list" where
  "keys_snapshot ks = map (\<lambda>(h, r). (ak_key_id r, ak_label r, ak_requests_total r, ak_requests_today r)) ks"

text \<open>\<open>s.split(c)\<close>.\<close>

fun split_on :: "char \<Rightarrow> string \<Rightarrow> string list" where
  "split_on c [] = [[]]"
| "split_on c (x # s) = (if x = c then [] # split_on c s
     else (case split_on c s of w # ws \<Rightarrow> (x # w) # ws | [] \<Rightarrow> [[x]]))"

definition load_from_env :: "string \<Rightarrow> string \<Rightarrow> api_key_store \<Rightarrow> api_key_store" where
  "load_from_env today raw ks = (if raw = [] then ks else
     fold (\<lambda>entry ks. let e = py_strip entry in
       if CHR '':'' \<notin> set e then ks
       else snd (register_key today (py_strip (takeWhile (\<lambda>c. c \<noteq> CHR '':'') e))
                   (py_strip (tl (dropWhile (\<lambda>c. c \<noteq> CHR '':'') e))) ks))
       (split_on CHR '','' raw) ks)"

subsection \<open>The disabled file log\<close>

definition legacy_message :: string where
  "legacy_message = ''File-based audit logging is disabled. Use the PostgreSQL append-only audit_log table and the database-backed verification flow instead.''"

definition ensure_audit_log :: "unit result" where
  "ensure_audit_log = Inl (RuntimeError legacy_message)"

definition append_audit_record :: "string \<Rightarrow> string \<Rightarrow> string \<Rightarrow> string \<Rightarrow> unit result" where
  "append_audit_record input_h output_h result_h final = Inl (RuntimeError legacy_message)"

subsection \<open>Counters per audit chain\<close>

record chain_metrics =
  cm_requests :: "int list"
  cm_successes :: "int list"
  cm_duplicates :: "int list"
  cm_errors :: "int list"
  cm_lock_wait_ms :: "rat list"

definition partitions :: nat where
  "partitions = nat audit_chain_partitions"

definition chain_metrics_init :: chain_metrics where
  "chain_metrics_init = \<lparr>cm_requests = replicate partitions 0, cm_successes = replicate partitions 0,
     cm_duplicates = replicate partitions 0, cm_errors = replicate partitions 0,
     cm_lock_wait_ms = replicate partitions 0\<rparr>"

text \<open>\<open>xs[i] = f(xs[i])\<close>: a negative index counts from the end, others raise IndexError.\<close>

definition update_at :: "('a \<Rightarrow> 'a) \<Rightarrow> 'a list \<Rightarrow> int \<Rightarrow> 'a list result" where
  "update_at f xs i = (let j = (if i < 0 then i + int (length xs) else i) in
     if 0 \<le> j \<and> j < int (length xs) then Inr (xs[nat j := f (xs ! nat j)])
     else Inl (LookupError ''list index out of range''))"

definition record_request :: "int \<Rightarrow> chain_metrics \<Rightarrow> chain_metrics result" where
  "record_request i m = rbind (update_at (\<lambda>n. n + 1) (cm_requests m) i) (\<lambda>xs. Inr (m\<lparr>cm_requests := xs\<rparr>))"

definition record_success :: "int \<Rightarrow> chain_metrics \<Rightarrow> chain_metrics result" where
  "record_success i m = rbind (update_at (\<lambda>n. n + 1) (cm_successes m) i) (\<lambda>xs. Inr (m\<lparr>cm_successes := xs\<rparr>))"

definition record_duplicate :: "int \<Rightarrow> chain_metrics \<Rightarrow> chain_metrics result" where
  "record_duplicate i m = rbind (update_at (\<lambda>n. n + 1) (cm_duplicates m) i) (\<lambda>xs. Inr (m\<lparr>cm_duplicates := xs\<rparr>))"

definition record_error :: "int \<Rightarrow> chain_metrics \<Rightarrow> chain_metrics result" where
  "record_error i m = rbind (update_at (\<lambda>n. n + 1) (cm_errors m) i) (\<lambda>xs. Inr (m\<lparr>cm_errors := xs\<rparr>))"

definition record_lock_wait_ms :: "int \<Rightarrow> rat \<Rightarrow> chain_metrics \<Rightarrow> chain_metrics result" where
  "record_lock_wait_ms i ms m =
     rbind (update_at (\<lambda>t. fl (t + ms)) (cm_lock_wait_ms m) i) (\<lambda>xs. Inr (m\<lparr>cm_lock_wait_ms := xs\<rparr>))"

definition expected_share :: rat where
  "expected_share = fl (1 / of_int audit_chain_partitions)"

definition chains_above_threshold :: "rat \<Rightarrow> chain_metrics \<Rightarrow> int list" where
  "chains_above_threshold factor m = (let total = sum_list (cm_requests m) in
     if total = 0 then [] else
     map fst (filter (\<lambda>(i, n). fl (of_int n / of_int total) > fl (expected_share * factor))
       (zip [0..int (length (cm_requests m)) - 1] (cm_requests m))))"

record chain_row =
  cw_chain_id :: int
  cw_requests :: int
  cw_successes :: int
  cw_duplicates :: int
  cw_errors :: int
  cw_lock_wait_ms_total :: rat
  cw_share_pct :: rat

definition metrics_rows :: "chain_metrics \<Rightarrow> chain_row list" where
  "metrics_rows m = (let total = sum_list (cm_requests m) in
     map (\<lambda>i. \<lparr>cw_chain_id = int i, cw_requests = cm_requests m ! i, cw_successes = cm_successes m ! i,
        cw_duplicates = cm_duplicates m ! i, cw_errors = cm_errors m ! i,
        cw_lock_wait_ms_total = round_to (cm_lock_wait_ms m ! i) 3,
        cw_share_pct = (if total \<noteq> 0 then round_to (fl (fl (100 * of_int (cm_requests m ! i)) / of_int total)) 2 else 0)\<rparr>)
       [0..<partitions])"

definition metrics_reset :: "chain_metrics \<Rightarrow> chain_metrics" where
  "metrics_reset m = chain_metrics_init"

subsection \<open>The rate limiter implements a count over the whole history\<close>

text \<open>The specification remembers every accepted request of a key and accepts another one while fewer
  than \<open>limit\<close> of them are younger than the window.\<close>

definition recent :: "int \<Rightarrow> rat \<Rightarrow> rat list \<Rightarrow> rat list" where
  "recent window now hist = filter (\<lambda>h. now - h < of_int window) hist"

definition spec_allow :: "int \<Rightarrow> int \<Rightarrow> rat list \<Rightarrow> rat \<Rightarrow> bool" where
  "spec_allow limit window hist now \<longleftrightarrow> int (length (recent window now hist)) < limit"

fun run_limiter :: "rate_limiter \<Rightarrow> (rat \<times> string) list \<Rightarrow> rate_limit_result list" where
  "run_limiter l [] = []"
| "run_limiter l (r # rs) = (let (a, l') = allow l (fst r) (snd r) in a # run_limiter l' rs)"

fun spec_run :: "int \<Rightarrow> int \<Rightarrow> (string \<Rightarrow> rat list) \<Rightarrow> (rat \<times> string) list \<Rightarrow> bool list" where
  "spec_run limit window hist [] = []"
| "spec_run limit window hist (r # rs) = (let ok = spec_allow limit window (hist (snd r)) (fst r) in
     ok # spec_run limit window (if ok then hist(snd r := hist (snd r) @ [fst r]) else hist) rs)"

lemma expire_sorted: "sorted hits \<Longrightarrow> expire window now hits = recent window now hits"
proof (induction hits)
  case (Cons h hits)
  show ?case
  proof (cases "now - h \<ge> of_int window")
    case False
    then have "\<forall>x \<in> set hits. now - x < of_int window" using Cons.prems by force
    then show ?thesis using False by (simp add: expire_def recent_def)
  qed (use Cons in \<open>simp add: expire_def recent_def\<close>)
qed (simp add: expire_def recent_def)

text \<open>The abstraction: the stored hits are what is recent at some earlier time.\<close>

definition implements :: "rat \<Rightarrow> rate_limiter \<Rightarrow> (string \<Rightarrow> rat list) \<Rightarrow> bool" where
  "implements t l hist \<longleftrightarrow> rl_window_seconds l > 0 \<and> (\<forall>k. sorted (hist k) \<and> (\<forall>h \<in> set (hist k). h \<le> t)
     \<and> (\<exists>s \<le> t. rl_hits l k = recent (rl_window_seconds l) s (hist k)))"

lemma recent_recent: "s \<le> now \<Longrightarrow> recent window now (recent window s hist) = recent window now hist"
  unfolding recent_def filter_filter by (rule filter_cong) auto

lemma sorted_recent: "sorted hist \<Longrightarrow> sorted (recent window now hist)"
  using sorted_filter [of "\<lambda>x. x" hist] by (simp add: recent_def)

lemma expire_hits:
  assumes "implements t l hist" "t \<le> now"
  shows "expire (rl_window_seconds l) now (rl_hits l k) = recent (rl_window_seconds l) now (hist k)"
proof -
  obtain s where s: "s \<le> t" "rl_hits l k = recent (rl_window_seconds l) s (hist k)" "sorted (hist k)"
    using assms(1) by (auto simp: implements_def)
  then have "sorted (rl_hits l k)" by (simp add: sorted_recent)
  then show ?thesis using s assms(2) by (simp add: expire_sorted recent_recent)
qed

lemma allow_simulates:
  assumes "implements t l hist" "t \<le> now"
  shows "rr_allowed (fst (allow l now key)) = spec_allow (rl_limit l) (rl_window_seconds l) (hist key) now"
    and "implements now (snd (allow l now key))
      (if spec_allow (rl_limit l) (rl_window_seconds l) (hist key) now then hist(key := hist key @ [now]) else hist)"
    and "rl_limit (snd (allow l now key)) = rl_limit l" "rl_window_seconds (snd (allow l now key)) = rl_window_seconds l"
proof -
  note e = expire_hits [OF assms, of key]
  show a: "rr_allowed (fst (allow l now key)) = spec_allow (rl_limit l) (rl_window_seconds l) (hist key) now"
    by (auto simp: allow_def e spec_allow_def Let_def)
  show "rl_limit (snd (allow l now key)) = rl_limit l" "rl_window_seconds (snd (allow l now key)) = rl_window_seconds l"
    by (auto simp: allow_def Let_def)
  have w: "rl_window_seconds l > 0" using assms(1) by (simp add: implements_def)
  have i: "sorted (hist k) \<and> (\<forall>h \<in> set (hist k). h \<le> now) \<and>
      (\<exists>s \<le> now. rl_hits l k = recent (rl_window_seconds l) s (hist k))" for k
    using assms unfolding implements_def by (meson order_trans)
  show "implements now (snd (allow l now key))
      (if spec_allow (rl_limit l) (rl_window_seconds l) (hist key) now then hist(key := hist key @ [now]) else hist)"
  proof (cases "spec_allow (rl_limit l) (rl_window_seconds l) (hist key) now")
    case True
    then have "snd (allow l now key) = l\<lparr>rl_hits := (rl_hits l)(key := recent (rl_window_seconds l) now (hist key) @ [now])\<rparr>"
      by (simp add: allow_def e spec_allow_def Let_def)
    moreover have "recent (rl_window_seconds l) now (hist key) @ [now] = recent (rl_window_seconds l) now (hist key @ [now])"
      using w by (simp add: recent_def)
    ultimately show ?thesis using True i w by (auto simp: implements_def sorted_append)
  next
    case False
    then have "snd (allow l now key) = l\<lparr>rl_hits := (rl_hits l)(key := recent (rl_window_seconds l) now (hist key))\<rparr>"
      by (simp add: allow_def e spec_allow_def Let_def)
    then show ?thesis using False i w by (auto simp: implements_def)
  qed
qed

lemma run_limiter_refines:
  "implements t l hist \<Longrightarrow> sorted (map fst rs) \<Longrightarrow> (\<And>r. r \<in> set rs \<Longrightarrow> t \<le> fst r) \<Longrightarrow>
     map rr_allowed (run_limiter l rs) = spec_run (rl_limit l) (rl_window_seconds l) hist rs"
proof (induction rs arbitrary: t l hist)
  case (Cons r rs)
  have t: "t \<le> fst r" using Cons.prems by simp
  note sim = allow_simulates [OF Cons.prems(1) t, of "snd r"]
  show ?case
    using Cons.IH [OF sim(2)] Cons.prems(2) sim(1,3,4) by (cases "allow l (fst r) (snd r)") (auto simp: Let_def)
qed simp

text \<open>No window of that length ever holds more accepted requests than the limit.\<close>

definition accepted_in_order :: "int \<Rightarrow> int \<Rightarrow> rat list \<Rightarrow> bool" where
  "accepted_in_order limit window hist \<longleftrightarrow> (\<forall>n < length hist. spec_allow limit window (take n hist) (hist ! n))"

lemma accepted_snoc:
  "accepted_in_order limit window (hist @ [now]) \<longleftrightarrow> accepted_in_order limit window hist \<and> spec_allow limit window hist now"
  by (auto simp: accepted_in_order_def nth_append less_Suc_eq)

lemma window_bound:
  assumes "0 < limit"
  shows "accepted_in_order limit window hist \<Longrightarrow>
    int (length (filter (\<lambda>h. t - of_int window < h \<and> h \<le> t) hist)) \<le> limit"
proof (induction hist rule: rev_induct)
  case (snoc now hist)
  show ?case
  proof (cases "t - of_int window < now \<and> now \<le> t")
    case True
    have "filter (\<lambda>h. t - of_int window < h \<and> h \<le> t) hist
        = filter (\<lambda>h. t - of_int window < h \<and> h \<le> t) (recent window now hist)"
      unfolding recent_def filter_filter using True by (intro filter_cong) auto
    then have "length (filter (\<lambda>h. t - of_int window < h \<and> h \<le> t) hist) \<le> length (recent window now hist)"
      by (metis length_filter_le)
    then show ?thesis using True snoc.prems by (simp add: accepted_snoc spec_allow_def)
  next
    case False
    then have "filter (\<lambda>h. t - of_int window < h \<and> h \<le> t) (hist @ [now])
        = filter (\<lambda>h. t - of_int window < h \<and> h \<le> t) hist" by auto
    then show ?thesis using snoc by (simp add: accepted_snoc)
  qed
qed (use assms in simp)

subsection \<open>Requests in flight\<close>

text \<open>Reachable states with the number of requests whose body is running.\<close>

inductive in_flight :: "int \<Rightarrow> depth_guard \<Rightarrow> nat \<Rightarrow> bool" where
  start: "depth_guard_init m = Inr g \<Longrightarrow> in_flight m g 0"
| accepted: "in_flight m g n \<Longrightarrow> acquire g = (Inr (), g') \<Longrightarrow> in_flight m g' (Suc n)"
| rejected: "in_flight m g n \<Longrightarrow> acquire g = (Inl e, g') \<Longrightarrow> in_flight m g' n"
| finished: "in_flight m g (Suc n) \<Longrightarrow> in_flight m (release g) n"

inductive_cases in_flight_cases: "in_flight m g n"

lemma in_flight_inv:
  "in_flight m g n \<Longrightarrow> dg_max g = m \<and> 0 < m \<and> dg_current g = int n \<and> int n \<le> m
     \<and> int n \<le> dg_peak g \<and> dg_peak g \<le> m \<and> 0 \<le> dg_rejected_total g"
  by (induction rule: in_flight.induct)
    (auto simp: depth_guard_init_def acquire_def release_def split: if_splits)

lemma acquire_iff: "fst (acquire g) = Inr () \<longleftrightarrow> dg_current g < dg_max g"
  by (simp add: acquire_def)

subsection \<open>Registered keys\<close>

definition store_hashes :: "api_key_store \<Rightarrow> string set" where
  "store_hashes ks = fst ` set ks"

lemma store_register: "store_hashes (snd (register_key today label raw ks)) = insert (sha256_hex raw) (store_hashes ks)"
  by (auto simp: store_hashes_def register_key_def Let_def dom_update simp flip: dom_map_of_conv_image_fst)
     (auto simp: update_conv' split: if_splits)

definition env_keys :: "string \<Rightarrow> string list" where
  "env_keys raw = (if raw = [] then [] else
     map (\<lambda>e. py_strip (tl (dropWhile (\<lambda>c. c \<noteq> CHR '':'') e)))
       (filter (\<lambda>e. CHR '':'' \<in> set e) (map py_strip (split_on CHR '','' raw))))"

lemma load_hashes: "store_hashes (load_from_env today raw ks) = store_hashes ks \<union> sha256_hex ` set (env_keys raw)"
proof -
  have "store_hashes (fold (\<lambda>entry ks. let e = py_strip entry in
       if CHR '':'' \<notin> set e then ks
       else snd (register_key today (py_strip (takeWhile (\<lambda>c. c \<noteq> CHR '':'') e))
                   (py_strip (tl (dropWhile (\<lambda>c. c \<noteq> CHR '':'') e))) ks)) es ks)
      = store_hashes ks \<union> sha256_hex ` set (map (\<lambda>e. py_strip (tl (dropWhile (\<lambda>c. c \<noteq> CHR '':'') e)))
         (filter (\<lambda>e. CHR '':'' \<in> set e) (map py_strip es)))" for es ks
    by (induction es arbitrary: ks) (auto simp: Let_def store_register)
  then show ?thesis by (simp add: load_from_env_def env_keys_def)
qed

lemma authenticate_iff: "fst (authenticate today raw ks) \<noteq> None \<longleftrightarrow> sha256_hex raw \<in> store_hashes ks"
proof -
  have "map_of ks h = None \<longleftrightarrow> h \<notin> store_hashes ks" for h
    by (simp add: store_hashes_def map_of_eq_None_iff)
  from this [of "sha256_hex raw"] show ?thesis by (auto simp: authenticate_def Let_def split: option.splits)
qed

subsection \<open>Properties\<close>

text \<open>The times at which requests of a key were accepted.\<close>

definition accepted_times :: "(rat \<times> string) list \<Rightarrow> bool list \<Rightarrow> string \<Rightarrow> rat list" where
  "accepted_times rs answers key = map (fst \<circ> fst) (filter (\<lambda>(r, ok). ok \<and> snd r = key) (zip rs answers))"

lemma spec_run_accepted:
  "accepted_in_order limit window (hist key) \<Longrightarrow>
     accepted_in_order limit window (hist key @ accepted_times rs (spec_run limit window hist rs) key)"
proof (induction rs arbitrary: hist)
  case (Cons r rs)
  show ?case
  proof (cases "spec_allow limit window (hist (snd r)) (fst r)")
    case True
    have a: "accepted_times (r # rs) (True # bs) key = (if snd r = key then [fst r] else []) @ accepted_times rs bs key" for bs
      by (simp add: accepted_times_def)
    define hist' where "hist' = hist(snd r := hist (snd r) @ [fst r])"
    have h: "hist' key = hist key @ (if snd r = key then [fst r] else [])" by (simp add: hist'_def)
    then have "accepted_in_order limit window (hist' key)"
      using Cons.prems True by (simp add: accepted_snoc split: if_splits)
    then have "accepted_in_order limit window (hist' key @ accepted_times rs (spec_run limit window hist' rs) key)"
      by (rule Cons.IH)
    then show ?thesis using True by (simp only: spec_run.simps Let_def if_True a h append_assoc flip: hist'_def)
  next
    case False
    have "accepted_times (r # rs) (False # bs) key = accepted_times rs bs key" for bs by (simp add: accepted_times_def)
    then show ?thesis using Cons.IH [of hist, OF Cons.prems] False by (simp add: Let_def)
  qed
qed (simp add: accepted_times_def)

lemma init_implements: "rate_limiter_init limit window = Inr l \<Longrightarrow>
    implements t l (\<lambda>_. []) \<and> rl_limit l = limit \<and> rl_window_seconds l = window \<and> 0 < limit"
  by (auto simp: rate_limiter_init_def implements_def recent_def split: if_splits)

text \<open>C18: the rate limiter, which forgets expired requests, answers like one that counts over the whole history:
  a request is accepted exactly when fewer than \<open>limit\<close> accepted requests of its key are younger than the window.
  Hence no interval of that length ever holds more than \<open>limit\<close> accepted requests of a key.\<close>

theorem rate_limiter_refines_history:
  assumes "rate_limiter_init limit window = Inr l" "sorted (map fst rs)"
  shows "map rr_allowed (run_limiter l rs) = spec_run limit window (\<lambda>_. []) rs
    \<and> int (length (filter (\<lambda>h. t - of_int window < h \<and> h \<le> t)
        (accepted_times rs (map rr_allowed (run_limiter l rs)) key))) \<le> limit"
proof -
  note i = init_implements [OF assms(1)]
  have run: "map rr_allowed (run_limiter l rs) = spec_run limit window (\<lambda>_. []) rs"
  proof (cases rs)
    case (Cons r rs')
    then show ?thesis
      using run_limiter_refines [of "fst r" l "\<lambda>_. []" rs] i assms(2) by auto
  qed simp
  have "accepted_in_order limit window (accepted_times rs (spec_run limit window (\<lambda>_. []) rs) key)"
    using spec_run_accepted [of limit window "\<lambda>_. []" key rs] by (simp add: accepted_in_order_def)
  from window_bound [OF _ this] i show ?thesis unfolding run by simp
qed

theorem rate_limiter_refines_history_witness:
  "\<exists>l. rate_limiter_init 1 60 = Inr l \<and> map rr_allowed (run_limiter l [(0, ''k''), (59, ''k''), (60, ''k'')]) = [True, False, True]"
proof -
  define l where "l = \<lparr>rl_limit = 1, rl_window_seconds = 60, rl_hits = (\<lambda>_::string. [] :: rat list)\<rparr>"
  have l: "rate_limiter_init 1 60 = Inr l" by (simp add: rate_limiter_init_def l_def)
  have "map rr_allowed (run_limiter l [(0, ''k''), (59, ''k''), (60, ''k'')])
      = spec_run 1 60 (\<lambda>_. []) [(0, ''k''), (59, ''k''), (60, ''k'')]"
    using rate_limiter_refines_history [OF l, of "[(0, ''k''), (59, ''k''), (60, ''k'')]" 0 "''k''"] by simp
  also have "\<dots> = [True, False, True]" by (simp add: spec_allow_def recent_def)
  finally show ?thesis using l by (intro exI [of _ l] conjI)
qed

text \<open>The back-pressure guard counts exactly the requests whose body is running, never more than its capacity;
  it refuses a request exactly at capacity, and after any request has finished the next one is accepted.\<close>

theorem capacity_returns:
  assumes "in_flight m g n"
  shows "dg_current g = int n \<and> int n \<le> m \<and> dg_peak g \<le> m \<and> (fst (acquire g) = Inr () \<longleftrightarrow> int n < m)
    \<and> (n = 0 \<or> fst (acquire (release g)) = Inr ())"
  using in_flight_inv [OF assms] by (auto simp: acquire_def release_def)

theorem capacity_returns_witness:
  "\<exists>g. in_flight 1 g 1 \<and> fst (acquire g) \<noteq> Inr () \<and> fst (acquire (release g)) = Inr ()"
proof -
  let ?g = "\<lparr>dg_max = 1, dg_current = 1, dg_rejected_total = 0, dg_peak = 1\<rparr>"
  have "in_flight 1 ?g (Suc 0)"
    by (rule in_flight.accepted [OF in_flight.start [of 1 "\<lparr>dg_max = 1, dg_current = 0, dg_rejected_total = 0, dg_peak = 0\<rparr>"]])
      (simp_all add: depth_guard_init_def acquire_def)
  from this capacity_returns [OF this] show ?thesis by (intro exI [of _ ?g]) simp
qed

text \<open>A key authenticates exactly when its SHA-256 digest is stored: every key of the environment variable
  does, and any other key only if it collides with one of them.\<close>

theorem only_registered_keys:
  assumes "fst (authenticate today raw (load_from_env day env [])) \<noteq> None"
  shows "raw \<in> set (env_keys env) \<or> list_ex (collision raw) (env_keys env)"
proof -
  have "sha256_hex raw \<in> sha256_hex ` set (env_keys env)"
    using assms unfolding authenticate_iff load_hashes by (simp add: store_hashes_def)
  then obtain k where k: "k \<in> set (env_keys env)" "sha256_hex raw = sha256_hex k" by blast
  then show ?thesis using same_digest [of raw k] by (auto simp: list_ex_iff)
qed

theorem only_registered_keys_witness:
  "fst (authenticate ''d'' ''k'' (load_from_env ''d'' ''a:k, b'' [])) \<noteq> None \<and> env_keys ''a:k, b'' = [''k'']"
proof -
  have e: "env_keys ''a:k, b'' = [''k'']" by code_simp
  then have a: "fst (authenticate ''d'' ''k'' (load_from_env ''d'' ''a:k, b'' [])) \<noteq> None"
    unfolding authenticate_iff load_hashes by simp
  show ?thesis using only_registered_keys [OF a] a e by simp
qed

end
