(* ===== verification/Samples.thy ===== *)
theory Samples
  imports Plonk_Verifier Core_Verifier
begin

text \<open>
  The concrete inputs of the witnesses: a request the table knows, one too large for the decimal
  context, pydantic's integers as the identity, and a native backend that accepts what it proved.
\<close>

definition sample_int :: "pyv \<Rightarrow> int option" where
  "sample_int v = (case v of PInt n \<Rightarrow> Some n | _ \<Rightarrow> None)"

definition sample_request :: import_request where
  "sample_request = \<lparr>hs_code = ''8507600000'', country_of_origin = ''CN'', customs_value = cents 125050,
     freight = cents 1000, insurance = cents 500, quantity = 10, shipping_mode = ''ocean''\<rparr>"

definition sample_rule :: tariff_rule where
  "sample_rule = mk_rule ''8507600000'' ''HTS-8507600000'' ''Lithium-ion accumulators'' 340 2500 [''CN'']"

definition large_request :: import_request where
  "large_request = sample_request\<lparr>customs_value := cents (10 ^ 27), quantity := 100\<rparr>"

lemma sample_valid: "valid_request sample_request" "in_range sample_request" "valid_request large_request"
  by code_simp+

lemma sample_rule_found: "find_rule tariff_rules (hs_code sample_request) = Inr sample_rule"
  by code_simp

lemma sample_int_quantity: "sample_int (PInt (quantity r)) = Some (quantity r)"
  by (simp add: sample_int_def)

lemma sample_revalidates: "validate_request sample_int (request_payload sample_request) = Inr sample_request"
  "wf_pyv (request_payload sample_request)"
  using validate_request_payload [of sample_request sample_int, OF sample_valid(1) sample_int_quantity]
  by (simp, code_simp)

definition sample_response :: calculation_response where
  "sample_response = response_of sample_request sample_rule dataset_hash (spec_amounts sample_request sample_rule)"

lemma sample_calculation:
  "calculate_import_landed_cost sample_int tariff_rules dataset_hash sample_request = Inr sample_response"
  using calc_amounts_spec [OF sample_valid(1,2), of sample_rule] find_rule_Inr [OF sample_rule_found]
  by (simp add: calculate_unfold [of sample_request sample_int, OF sample_valid(1) sample_int_quantity]
      sample_rule_found sample_response_def)

definition sample_backend :: backend where
  "sample_backend = \<lparr>bk_compile = (\<lambda>_. Inr \<lparr>bo_circuit_hash = ''c'', bo_proving_key_id = ''pk'', bo_verification_key_id = ''vk'',
       bo_params_k = 6, bo_backend_version = None, bo_proving_manifest_path = ''p'', bo_verification_manifest_path = ''v''\<rparr>),
     bk_prove = (\<lambda>_. Inr \<lparr>po_proof_bytes_hex = ''00'', po_commitments = None, po_metadata = None\<rparr>),
     bk_verify = (\<lambda>_. Inr \<lparr>vo_valid = Some True, vo_reason = None, vo_checks = None, vo_metadata = None\<rparr>), bk_key_root = ''keys''\<rparr>"

lemma sample_backend_complete: "backend_complete sample_backend"
  by (simp add: backend_complete_def sample_backend_def get_or_def Artifacts.dict_get_def)

definition sample_packet_witness :: "string \<Rightarrow> witness_artifact" where
  "sample_packet_witness producer = tp_witness_artifact (packet_of sample_request sample_response producer 1)"

lemma sample_packet_inputs: "inputs_ok (wa_public_inputs (sample_packet_witness producer))"
  by (simp add: sample_packet_witness_def packet_witness_inputs extract_witness_def inputs_ok_def distinct_sort_key list_all_iff)

lemma sample_packet_proof:
  obtains p l where "build_plonk_proof sample_backend sample_int tariff_rules dataset_hash now (sample_packet_witness producer)
    (wa_trace_hash (sample_packet_witness producer)) prover 1 l0 = (Inr p, l)"
proof -
  let ?w = "sample_packet_witness producer"
  obtain a rule where a: "generate_assignment sample_int tariff_rules dataset_hash ?w = Inr a"
    "map_of (as_wire_map a) ''landed_cost_fp'' = Some (spec_landed sample_request rule * 10 ^ 4 mod field_order)"
    "as_public_inputs_hash a = sha256_hex (canonical_text (PDict (map (\<lambda>(k, v). (k, PStr v))
        (sort_key fst (wa_public_inputs ?w)))))"
    unfolding sample_packet_witness_def
    using engine_assignment [where int_of = sample_int and producer = producer and cyc = 1,
      OF sample_valid(1,2) sample_int_quantity sample_calculation] by metis
  have "wa_trace_hash ?w = ia_trace_hash (rs_integrity sample_response)"
    by (simp add: sample_packet_witness_def packet_of_def witness_of_def Let_def)
  also have "\<dots> = ia_trace_hash (integrity_of sample_request (rs_result sample_response) (rs_trace sample_response))"
    by (simp add: sample_response_def response_of_def Let_def)
  finally have t: "all_lower_hex (wa_trace_hash ?w)" "length (wa_trace_hash ?w) = 64"
    by (simp_all add: integrity_of_def Let_def trace_hash_of_def sha.digest_hex sha.digest_length)
  have h: "all_lower_hex (as_public_inputs_hash a)" "length (as_public_inputs_hash a) = 64"
    unfolding a(3) by (simp_all only: sha.digest_hex sha.digest_length)
  obtain ts cs hs where "hash_hex_to_limbs (wa_trace_hash ?w) = Inr ts"
    "hash_hex_to_limbs circuit_hash = Inr cs" "hash_hex_to_limbs (as_public_inputs_hash a) = Inr hs"
    using limbs_text [OF t] limbs_text [OF circuit_hash_hex] limbs_text [OF h] by metis
  then have "\<exists>p. prove_with_keys sample_backend sample_int tariff_rules dataset_hash ?w
      (wa_trace_hash ?w) prover 1 the_circuit k = Inr p" for k
    using a(1,2) by (simp add: prove_with_keys_def key_of_def build_instance_values_def sample_backend_def
        final_proof_hash_ok build_proof_artifact_total Let_def)
  moreover obtain k l where "ensure_compiled sample_backend now the_circuit l0 = (Inr k, l)"
    using ensure_compiled_cases [where bk = sample_backend and c = the_circuit and now = now and l = l0]
    by (auto simp: sample_backend_def)
  ultimately show thesis using that by (auto simp: build_plonk_proof_def compile_circuit_ok)
qed

definition sample_plonk_witness :: witness_artifact where
  "sample_plonk_witness = sample_packet_witness ''backend_integration''"

lemma sample_inputs_ok: "inputs_ok (wa_public_inputs sample_plonk_witness)"
  unfolding sample_plonk_witness_def by (rule sample_packet_inputs)

lemma sample_plonk_proof:
  obtains p l where "build_plonk_proof sample_backend sample_int tariff_rules dataset_hash ''t'' sample_plonk_witness
    (wa_trace_hash sample_plonk_witness) ''prover'' 1 empty_key_log = (Inr p, l)"
  unfolding sample_plonk_witness_def by (rule sample_packet_proof)

end
