(* ===== verification/Evidence_Service.thy ===== *)
theory Evidence_Service
  imports Verified_Dataset Service_Limits Samples
begin

text \<open>
  \<open>app/services/evidence_service.py\<close>: computing, proving and persisting a calculation in one transaction
  that is retried, the audit events of its failures, and the verification of persisted evidence.  The
  clock, the time waited for locks and the faults of the database are inputs of a run (\<open>run_inputs\<close>).
\<close>

record service_state =
  sv_configured :: bool
  sv_db :: evidence_db
  sv_metrics :: chain_metrics
  sv_keys :: key_log

text \<open>Of the \<open>k\<close>-th attempt: the error of each statement and the time waited for the lock of the chain.\<close>

record run_inputs =
  ri_now :: string
  ri_failure_now :: string
  ri_faults :: "int \<Rightarrow> nat \<Rightarrow> py_error option"
  ri_lock_wait :: "int \<Rightarrow> rat"
  ri_failure_faults :: "nat \<Rightarrow> py_error option"

subsection \<open>Calls that may raise and change the state\<close>

type_synonym 'a service = "service_state \<Rightarrow> 'a result \<times> service_state"

definition service_return :: "'a result \<Rightarrow> 'a service" where
  "service_return r st = (r, st)"

definition service_bind :: "'a service \<Rightarrow> ('a \<Rightarrow> 'b service) \<Rightarrow> 'b service" where
  "service_bind m f st = (case m st of (Inl e, st') \<Rightarrow> (Inl e, st') | (Inr x, st') \<Rightarrow> f x st')"

definition with_keys :: "'a logged \<Rightarrow> 'a service" where
  "with_keys m st = (case m (sv_keys st) of (r, l) \<Rightarrow> (r, st\<lparr>sv_keys := l\<rparr>))"

definition counted :: "(chain_metrics \<Rightarrow> chain_metrics result) \<Rightarrow> unit service" where
  "counted f st = (case f (sv_metrics st) of Inl e \<Rightarrow> (Inl e, st) | Inr m \<Rightarrow> (Inr (), st\<lparr>sv_metrics := m\<rparr>))"

definition in_transaction :: "'a session \<Rightarrow> (nat \<Rightarrow> py_error option) \<Rightarrow> 'a service" where
  "in_transaction body faults st = (case transaction body faults (sv_db st) of (r, db) \<Rightarrow> (r, st\<lparr>sv_db := db\<rparr>))"

definition require_repository :: "unit service" where
  "require_repository st = (if sv_configured st then (Inr (), st)
     else (Inl (RepositoryUnavailableError ''Database evidence repository is not configured''), st))"

subsection \<open>Phase 1: compute and prove\<close>

record evidence_draft =
  ed_response :: calculation_response
  ed_packet :: trace_packet
  ed_proof :: proof_artifact
  ed_bundle :: "(string \<times> pyv) list"
  ed_vk_hash :: string
  ed_request_record :: request_record
  ed_result_record :: result_record
  ed_proof_record :: proof_record

definition build_records :: "import_request \<Rightarrow> calculation_response \<Rightarrow> string \<Rightarrow> proof_artifact \<Rightarrow> (string \<times> pyv) list
    \<Rightarrow> string \<Rightarrow> request_record \<times> result_record \<times> proof_record" where
  "build_records q resp now p bundle vk_h = (let i = rs_integrity resp;
       request_id = deterministic_request_id (ia_input_hash i);
       result_id = deterministic_result_id request_id (ia_output_hash i);
       proof_id = deterministic_proof_id request_id (pa_final_proof p) in
     (\<lparr>rq_id = request_id, rq_input_hash = ia_input_hash i, rq_raw_input = request_dump q, rq_created_at = now\<rparr>,
      \<lparr>rr_id = result_id, rr_request_id = request_id, rr_output_hash = ia_output_hash i, rr_raw_output = response_dump resp,
        rr_created_at = now\<rparr>,
      \<lparr>pr_id = proof_id, pr_request_id = request_id, pr_trace_hash = ia_trace_hash i, pr_final_proof = pa_final_proof p,
        pr_integrity_hash = ia_integrity_hash i, pr_proof_system = pa_proof_system p, pr_circuit_hash = circuit_hash_of p,
        pr_verification_key_hash = vk_h, pr_proof_bundle = bundle, pr_proof_verified = True, pr_created_at = now\<rparr>))"

definition draft_of :: "import_request \<Rightarrow> calculation_response \<Rightarrow> string \<Rightarrow> trace_packet \<Rightarrow> proof_artifact
    \<Rightarrow> (string \<times> pyv) list \<Rightarrow> string \<Rightarrow> evidence_draft" where
  "draft_of q resp now k p bundle vk_h = (case build_records q resp now p bundle vk_h of (r, s, pr) \<Rightarrow>
     \<lparr>ed_response = resp, ed_packet = k, ed_proof = p, ed_bundle = bundle, ed_vk_hash = vk_h,
      ed_request_record = r, ed_result_record = s, ed_proof_record = pr\<rparr>)"

definition prepare_evidence :: "evidence_env \<Rightarrow> string \<Rightarrow> import_request \<Rightarrow> evidence_draft logged" where
  "prepare_evidence env now q = (let xe = export_env.truncate env in
     lbind (logged (calculate_import_landed_cost (ze_int_of env) (ze_rules env) (ze_dataset_hash env) q)) (\<lambda>resp.
     lbind (logged (packet_for xe (request_payload q) ''evidence_service'')) (\<lambda>k.
     lbind (build_plonk_proof (ze_backend env) (ze_int_of env) (ze_rules env) (ze_dataset_hash env) now
       (tp_witness_artifact k) (ta_trace_hash (tp_trace_artifact k)) ''evidence_service'' 1) (\<lambda>p.
     lbind (verify_plonk_proof (ze_backend env) now p ''evidence_service'' 1) (\<lambda>v.
     if va_status v \<noteq> ''VALID''
     then logged (Inl (PersistenceIntegrityError (''ZK proof verification failed before persistence: '' @ va_reason v)))
     else
     lbind (export_proof_bundle xe now (request_payload q) (Some k) (Some p)) (\<lambda>bundle.
     lbind (\<lambda>l. case verify_proof_bundle xe now bundle l of (bv, l') \<Rightarrow> (Inr bv, l')) (\<lambda>bv.
     if \<not> bv_valid bv
     then logged (Inl (PersistenceIntegrityError (''Exported proof bundle failed offline verification: '' @ bv_reason bv)))
     else logged (Inr (draft_of q resp now k p bundle (bv_verification_key_hash bv))))))))))"

subsection \<open>Phase 2: persist\<close>

definition duplicate_message :: "string \<Rightarrow> string" where
  "duplicate_message h = ''Duplicate input hash detected: '' @ h"

definition duplicate_payload :: "string \<Rightarrow> (string \<times> pyv) list" where
  "duplicate_payload h = [(''input_hash'', PStr h), (''reason'', PStr ''duplicate_input_hash'')]"

definition persisted_payload :: "evidence_draft \<Rightarrow> (string \<times> pyv) list" where
  "persisted_payload d = [(''request_id'', PStr (rq_id (ed_request_record d))), (''result_id'', PStr (rr_id (ed_result_record d))),
     (''proof_id'', PStr (pr_id (ed_proof_record d))), (''input_hash'', PStr (rq_input_hash (ed_request_record d))),
     (''output_hash'', PStr (rr_output_hash (ed_result_record d))), (''trace_hash'', PStr (pr_trace_hash (ed_proof_record d))),
     (''integrity_hash'', PStr (pr_integrity_hash (ed_proof_record d)))]"

definition failure_payload :: "string \<Rightarrow> string \<Rightarrow> (string \<times> pyv) list" where
  "failure_payload h reason = [(''input_hash'', PStr h), (''reason'', PStr reason)]"

text \<open>The body of the transaction; None is a duplicate.\<close>

definition persisted_of :: "evidence_draft \<Rightarrow> audit_event \<Rightarrow> persisted_response" where
  "persisted_of d e = \<lparr>ps_response = ed_response d, ps_evidence = \<lparr>eb_request = ed_request_record d,
     eb_result = ed_result_record d, eb_proof = ed_proof_record d, eb_audit_log = Some e\<rparr>\<rparr>"

definition check_inserted :: "string \<Rightarrow> audit_event \<Rightarrow> audit_event \<Rightarrow> unit result" where
  "check_inserted prev e inserted =
     rbind (compute_audit_hash prev (ae_event_type e) (ae_reference_id e) (ae_event_payload e) (ae_created_at e)) (\<lambda>expected.
     rbind (constant_time_equal (ae_current_hash inserted) expected) (\<lambda>eq. if eq then Inr ()
       else Inl (PersistenceIntegrityError ''Audit event current_hash does not match recomputed audit hash'')))"

definition persist_new :: "string \<Rightarrow> int \<Rightarrow> evidence_draft \<Rightarrow> string \<Rightarrow> persisted_response option session" where
  "persist_new now c d prev =
     session_bind (insert_records_batch (ed_request_record d) (ed_result_record d) (ed_proof_record d)) (\<lambda>_.
     session_bind (session_return (build_audit_event ''calculation_persisted'' (Some (rq_id (ed_request_record d)))
       (persisted_payload d) prev now c None)) (\<lambda>e.
     session_bind (insert_audit_event e) (\<lambda>inserted.
     session_bind (session_return (check_inserted prev e inserted)) (\<lambda>_.
     session_bind (session_return (build_verified_training_record (persisted_of d inserted) (ed_proof d)
       (wa_witness_hash (tp_witness_artifact (ed_packet d))) (ed_vk_hash d) (ed_bundle d))) (\<lambda>_.
     session_return (Inr (Some (persisted_of d inserted))))))))"

definition reject_duplicate :: "string \<Rightarrow> int \<Rightarrow> evidence_draft \<Rightarrow> string \<Rightarrow> persisted_response option session" where
  "reject_duplicate now c d prev =
     session_bind (session_return (build_audit_event ''calculation_rejected_duplicate'' (Some (rq_id (ed_request_record d)))
       (duplicate_payload (rq_input_hash (ed_request_record d))) prev now c None)) (\<lambda>e.
     session_bind (insert_audit_event e) (\<lambda>_. session_return (Inr None)))"

definition persist_body :: "string \<Rightarrow> int \<Rightarrow> evidence_draft \<Rightarrow> persisted_response option session" where
  "persist_body now c d =
     session_bind (acquire_audit_chain_lock c) (\<lambda>_.
     session_bind (fetch_latest_audit_hash_for_chain c) (\<lambda>prev.
     session_bind (check_duplicate (rq_input_hash (ed_request_record d))) (\<lambda>duplicate.
     if duplicate then reject_duplicate now c d prev else persist_new now c d prev)))"

text \<open>After the commit.\<close>

definition conclude_attempt :: "int \<Rightarrow> evidence_draft \<Rightarrow> persisted_response option \<Rightarrow> persisted_response service" where
  "conclude_attempt c d out = (case out of
       None \<Rightarrow> service_bind (counted (record_duplicate c)) (\<lambda>_.
         service_return (Inl (DuplicateInputHashError (duplicate_message (rq_input_hash (ed_request_record d))))))
     | Some ps \<Rightarrow> service_bind (counted (record_success c)) (\<lambda>_. service_return (Inr ps)))"

text \<open>The time waited for the lock is counted whenever the transaction was opened.\<close>

definition persist_attempt :: "run_inputs \<Rightarrow> int \<Rightarrow> evidence_draft \<Rightarrow> int \<Rightarrow> persisted_response service" where
  "persist_attempt ri c d k =
     service_bind (if ri_faults ri k 0 = None then counted (record_lock_wait_ms c (ri_lock_wait ri k))
       else service_return (Inr ())) (\<lambda>_.
     service_bind (in_transaction (persist_body (ri_now ri) c d) (ri_faults ri k)) (conclude_attempt c d))"

definition failure_body :: "string \<Rightarrow> string \<Rightarrow> string \<Rightarrow> int \<Rightarrow> string \<Rightarrow> audit_event session" where
  "failure_body now reference h c reason =
     session_bind (acquire_audit_chain_lock c) (\<lambda>_.
     session_bind (fetch_latest_audit_hash_for_chain c) (\<lambda>prev.
     session_bind (session_return (build_audit_event ''calculation_persist_failed'' (Some reference)
       (failure_payload h reason) prev now c None)) insert_audit_event))"

definition log_failure_event :: "run_inputs \<Rightarrow> int \<Rightarrow> evidence_draft \<Rightarrow> string \<Rightarrow> unit service" where
  "log_failure_event ri c d reason = service_bind (in_transaction (failure_body (ri_failure_now ri)
     (rq_id (ed_request_record d)) (rq_input_hash (ed_request_record d)) c reason) (ri_failure_faults ri))
     (\<lambda>_. service_return (Inr ()))"

definition max_transaction_retries :: int where
  "max_transaction_retries = 5"

text \<open>The loop over the attempts that are left.\<close>

fun try_attempts :: "run_inputs \<Rightarrow> int \<Rightarrow> evidence_draft \<Rightarrow> int list \<Rightarrow> persisted_response service" where
  "try_attempts ri c d [] st =
     (Inl (PersistenceIntegrityError ''Transaction retries exhausted without a terminal outcome''), st)"
| "try_attempts ri c d (k # ks) st = (case persist_attempt ri c d k st of
     (Inr ps, st') \<Rightarrow> (Inr ps, st')
   | (Inl e, st') \<Rightarrow> (case e of
       DuplicateInputHashError _ \<Rightarrow> (Inl e, st')
     | RetryableDbError name m \<Rightarrow>
         if k = max_transaction_retries
         then service_bind (log_failure_event ri c d (''retry_exhausted:'' @ name @ '':'' @ m)) (\<lambda>_. service_return (Inl e)) st'
         else try_attempts ri c d ks st'
     | _ \<Rightarrow> service_bind (counted (record_error c)) (\<lambda>_.
         service_bind (log_failure_event ri c d (error_text e)) (\<lambda>_. service_return (Inl e))) st'))"

definition persist_draft :: "run_inputs \<Rightarrow> evidence_draft \<Rightarrow> persisted_response service" where
  "persist_draft ri d =
     service_bind (service_return (chain_id_for_input (rq_input_hash (ed_request_record d)))) (\<lambda>c.
     service_bind (counted (record_request c)) (\<lambda>_.
     try_attempts ri c d [1..max_transaction_retries]))"

definition calculate_and_persist :: "evidence_env \<Rightarrow> run_inputs \<Rightarrow> pyv \<Rightarrow> persisted_response service" where
  "calculate_and_persist env ri v =
     service_bind require_repository (\<lambda>_.
     service_bind (service_return (validate_request (ze_int_of env) v)) (\<lambda>q.
     service_bind (with_keys (prepare_evidence env (ri_now ri) q)) (persist_draft ri)))"

subsection \<open>Verification of persisted evidence\<close>

text \<open>Comparisons in order: the reason of the first that fails; one that raises ends the call.\<close>

fun first_mismatch_reason :: "(string \<times> bool result) list \<Rightarrow> string option result" where
  "first_mismatch_reason [] = Inr None"
| "first_mismatch_reason ((reason, c) # cs) = rbind c (\<lambda>ok. if ok then first_mismatch_reason cs else Inr (Some reason))"

definition invalid_verification :: "evidence_env \<Rightarrow> import_request \<Rightarrow> string \<Rightarrow> verification_result result" where
  "invalid_verification env q reason =
     rbind (calculate_import_landed_cost (ze_int_of env) (ze_rules env) (ze_dataset_hash env) q) (\<lambda>recomputed.
     let i = rs_integrity recomputed in
     Inr \<lparr>vr_status = ''INVALID'', vr_reason = reason, vr_input_hash = ia_input_hash i, vr_output_hash = ia_output_hash i,
       vr_trace_hash = ia_trace_hash i, vr_integrity_hash = ia_integrity_hash i\<rparr>)"

definition row_checks :: "evidence_bundle \<Rightarrow> verification_result \<Rightarrow> (string \<times> bool result) list" where
  "row_checks e v =
     [(''Stored request hash does not match recomputed input hash'',
        constant_time_equal (rq_input_hash (eb_request e)) (vr_input_hash v)),
      (''Stored result hash does not match recomputed output hash'',
        constant_time_equal (rr_output_hash (eb_result e)) (vr_output_hash v)),
      (''Stored trace hash does not match recomputed trace hash'',
        constant_time_equal (pr_trace_hash (eb_proof e)) (vr_trace_hash v)),
      (''Stored proof is not marked as verified'', Inr (pr_proof_verified (eb_proof e)))]"

text \<open>\<open>str(bundle.get('proof', {}).get('proof_blob_hex', ''))\<close>.\<close>

definition bundled_blob :: "(string \<times> pyv) list \<Rightarrow> string" where
  "bundled_blob bundle = (case map_of bundle ''proof'' of
     Some (PDict kvs) \<Rightarrow> (case map_of kvs ''proof_blob_hex'' of Some v \<Rightarrow> py_str v | None \<Rightarrow> [])
   | _ \<Rightarrow> [])"

definition audit_checks :: "evidence_bundle \<Rightarrow> (string \<times> bool result) list" where
  "audit_checks e = (case eb_audit_log e of None \<Rightarrow> []
     | Some a \<Rightarrow> [(''Stored audit event hash does not match recomputed audit hash'',
         rbind (record_hash a) (constant_time_equal (ae_current_hash a)))])"

definition proof_checks :: "evidence_bundle \<Rightarrow> calculation_response \<Rightarrow> proof_artifact \<Rightarrow> (string \<times> bool result) list" where
  "proof_checks e resp p =
     [(''Stored response integrity does not match persisted result hash'',
        constant_time_equal (ia_output_hash (rs_integrity resp)) (rr_output_hash (eb_result e))),
      (''Stored response integrity does not match persisted trace hash'',
        constant_time_equal (ia_trace_hash (rs_integrity resp)) (pr_trace_hash (eb_proof e))),
      (''Stored ZK proof does not match bundled final proof'',
        constant_time_equal (pa_final_proof p) (pr_final_proof (eb_proof e))),
      (''Stored circuit hash does not match bundled circuit hash'',
        constant_time_equal (circuit_hash_of p) (pr_circuit_hash (eb_proof e))),
      (''Stored proof bundle proof bytes are invalid'',
        constant_time_equal (pa_proof_blob_hex p) (bundled_blob (pr_proof_bundle (eb_proof e))))] @ audit_checks e"

text \<open>A verdict, or the first mismatch as an INVALID one.\<close>

definition checked :: "evidence_env \<Rightarrow> import_request \<Rightarrow> (string \<times> bool result) list \<Rightarrow> verification_result logged
    \<Rightarrow> verification_result logged" where
  "checked env q cs m = lbind (logged (first_mismatch_reason cs)) (\<lambda>why. case why of
       Some reason \<Rightarrow> logged (invalid_verification env q reason)
     | None \<Rightarrow> m)"

definition verify_stored_bundle :: "evidence_env \<Rightarrow> string \<Rightarrow> import_request \<Rightarrow> evidence_bundle \<Rightarrow> calculation_response
    \<Rightarrow> verification_result \<Rightarrow> verification_result logged" where
  "verify_stored_bundle env now q e resp v l = (let bundle = pr_proof_bundle (eb_proof e) in
     (case verify_proof_bundle (export_env.truncate env) now bundle l of (bv, l') \<Rightarrow>
       if \<not> bv_valid bv then (invalid_verification env q (''Stored proof bundle failed offline verification: '' @ bv_reason bv), l')
       else (case parse_proof (ze_int_of env) (case map_of bundle ''proof'' of Some w \<Rightarrow> w | None \<Rightarrow> PNone) of
           Inl (ValidationError m) \<Rightarrow> (invalid_verification env q (''Invalid stored proof bundle: '' @ m), l')
         | Inl x \<Rightarrow> (Inl x, l')
         | Inr p \<Rightarrow> checked env q (proof_checks e resp p) (logged (Inr v)) l')))"

definition verify_bundle :: "evidence_env \<Rightarrow> string \<Rightarrow> import_request \<Rightarrow> evidence_bundle \<Rightarrow> verification_result logged" where
  "verify_bundle env now q e =
     checked env q [(''Stored request payload does not match canonical request data'',
         json_equal (request_dump q) (rq_raw_input (eb_request e))),
       (''legacy record'', Inr (pr_proof_system (eb_proof e) = ''plonk''))]
     (case ve_parse_response env (rr_raw_output (eb_result e)) of
         Inl (ValidationError m) \<Rightarrow> logged (invalid_verification env q (''Invalid stored calculation response: '' @ m))
       | Inl x \<Rightarrow> logged (Inl x)
       | Inr resp \<Rightarrow>
         let v = verify_proof (ze_int_of env) (ze_rules env) (ze_dataset_hash env) (ve_parse_response env)
                   (request_payload q) (response_payload resp) in
         if vr_status v \<noteq> ''VALID'' then logged (Inr v)
         else checked env q (row_checks e v) (verify_stored_bundle env now q e resp v))"

record persisted_verification =
  pv_verification :: verification_result
  pv_evidence :: "evidence_bundle option"
  pv_audit_chain :: chain_result

definition verify_chain :: "(nat \<Rightarrow> py_error option) \<Rightarrow> chain_result service" where
  "verify_chain faults = service_bind require_repository (\<lambda>_.
     service_bind (in_transaction (read_only fetch_audit_chain) faults) (\<lambda>rs. service_return (verify_audit_chain rs)))"

text \<open>The verdict of the row, unless the audit chain is broken.\<close>

definition with_chain :: "chain_result \<Rightarrow> verification_result \<Rightarrow> verification_result" where
  "with_chain a v = (if ac_status a \<noteq> ''VALID'' \<and> vr_status v = ''VALID''
     then v\<lparr>vr_status := ''INVALID'', vr_reason := ''Audit chain integrity check failed''\<rparr> else v)"

definition no_evidence :: "calculation_response \<Rightarrow> verification_result" where
  "no_evidence recomputed = (let i = rs_integrity recomputed in
     \<lparr>vr_status = ''INVALID'', vr_reason = ''No persisted evidence found for the supplied input hash'',
      vr_input_hash = ia_input_hash i, vr_output_hash = ia_output_hash i, vr_trace_hash = ia_trace_hash i,
      vr_integrity_hash = ia_integrity_hash i\<rparr>)"

definition verify_persisted :: "evidence_env \<Rightarrow> string \<Rightarrow> (nat \<Rightarrow> py_error option) \<Rightarrow> (nat \<Rightarrow> py_error option) \<Rightarrow> pyv
    \<Rightarrow> persisted_verification service" where
  "verify_persisted env now faults chain_faults v =
     service_bind require_repository (\<lambda>_.
     service_bind (service_return (validate_request (ze_int_of env) v)) (\<lambda>q.
     service_bind (service_return (calculate_import_landed_cost (ze_int_of env) (ze_rules env) (ze_dataset_hash env) q)) (\<lambda>recomputed.
     service_bind (in_transaction (read_only (fetch_by_input_hash (ia_input_hash (rs_integrity recomputed)))) faults) (\<lambda>stored.
     service_bind (verify_chain chain_faults) (\<lambda>audit.
     (case stored of
        None \<Rightarrow> service_return (Inr \<lparr>pv_verification = no_evidence recomputed, pv_evidence = None, pv_audit_chain = audit\<rparr>)
      | Some e \<Rightarrow> service_bind (with_keys (verify_bundle env now q e)) (\<lambda>vr.
          service_return (Inr \<lparr>pv_verification = with_chain audit vr, pv_evidence = Some e, pv_audit_chain = audit\<rparr>))))))))"

end
