(* ===== verification/Evidence_Refinement.thy ===== *)
theory Evidence_Refinement
  imports Evidence_Service
begin

text \<open>
  What the evidence service does to the store, whatever faults the database has: every call is a
  sequence of atomic steps, each of which keeps the log of every chain valid, every identifier
  unique and one result, one proof and one event for every stored request.
\<close>

subsection \<open>The atomic steps of the store\<close>

definition same_rows :: "evidence_db \<Rightarrow> evidence_db \<Rightarrow> bool" where
  "same_rows db db' \<longleftrightarrow> (\<exists>m. db_next_id db \<le> m \<and> db' = db\<lparr>db_next_id := m\<rparr>)"

definition next_event :: "string \<Rightarrow> string \<Rightarrow> (string \<times> pyv) list \<Rightarrow> int \<Rightarrow> string \<Rightarrow> evidence_db \<Rightarrow> audit_event result" where
  "next_event t reference payload c now db = build_audit_event t (Some reference) payload (latest_chain_hash c db) now c None"

inductive store_step :: "evidence_db \<Rightarrow> evidence_db \<Rightarrow> bool" where
  lost_ids: "same_rows db db' \<Longrightarrow> store_step db db'"
| rejected: "has_input_hash h db \<Longrightarrow> next_event ''calculation_rejected_duplicate'' i (duplicate_payload h) c now db = Inr e
    \<Longrightarrow> store_step db (snd (insert_event e db))"
| failed: "next_event ''calculation_persist_failed'' i (failure_payload h reason) c now db = Inr e
    \<Longrightarrow> store_step db (snd (insert_event e db))"
| persisted: "\<not> unique_violation r s p db \<Longrightarrow> next_event ''calculation_persisted'' (rq_id r) payload c now db = Inr e
    \<Longrightarrow> store_step db (snd (insert_event e (snd (insert_records r s p db))))"

subsection \<open>Sessions by pre- and postconditions\<close>

text \<open>Whatever statement fails, the sequence of ids never goes back, and a session that returns \<open>x\<close> on \<open>db\<close>
  leaves tables that satisfy \<open>Q x\<close>.\<close>

definition yields :: "'a session \<Rightarrow> evidence_db \<Rightarrow> ('a \<Rightarrow> evidence_db \<Rightarrow> bool) \<Rightarrow> bool" where
  "yields m db Q \<longleftrightarrow> (\<forall>faults n. db_next_id db \<le> db_next_id (fst (snd (m faults (db, n))))
     \<and> (\<forall>x. fst (m faults (db, n)) = Inr x \<longrightarrow> Q x (fst (snd (m faults (db, n))))))"

lemma yields_bind:
  assumes "yields m db P" "\<And>x db'. P x db' \<Longrightarrow> yields (f x) db' Q"
  shows "yields (session_bind m f) db Q"
  unfolding yields_def
proof (intro allI)
  fix faults n
  obtain r db' n' where m: "m faults (db, n) = (r, db', n')" by (metis prod.collapse)
  show "db_next_id db \<le> db_next_id (fst (snd (session_bind m f faults (db, n)))) \<and>
      (\<forall>x. fst (session_bind m f faults (db, n)) = Inr x \<longrightarrow> Q x (fst (snd (session_bind m f faults (db, n)))))"
  proof (cases r)
    case (Inl e)
    have "db_next_id db \<le> db_next_id db'" using assms(1) m unfolding yields_def by (metis fst_conv snd_conv)
    then show ?thesis using m Inl by (simp add: session_bind_def)
  next
    case (Inr x)
    have "db_next_id db \<le> db_next_id db'" "P x db'" using assms(1) m Inr unfolding yields_def by (metis fst_conv snd_conv)+
    moreover have "yields (f x) db' Q" using assms(2) calculation(2) .
    ultimately show ?thesis using m Inr unfolding yields_def session_bind_def by (auto intro: order_trans)
  qed
qed

lemma yields_return: "(\<And>x. r = Inr x \<Longrightarrow> Q x db) \<Longrightarrow> yields (session_return r) db Q"
  by (simp add: yields_def session_return_def)

lemma yields_statement:
  assumes "db_next_id db \<le> db_next_id (snd (f db))" "\<And>x. fst (f db) = Inr x \<Longrightarrow> Q x (snd (f db))"
  shows "yields (statement f) db Q"
  using assms by (auto simp: yields_def statement_def split: option.splits prod.splits)

text \<open>One rule for each way the bodies begin.\<close>

lemma yields_bind_return: "(\<And>x. r = Inr x \<Longrightarrow> yields (f x) db Q) \<Longrightarrow> yields (session_bind (session_return r) f) db Q"
  by (rule yields_bind [where P = "\<lambda>x d. r = Inr x \<and> d = db"]) (auto intro: yields_return)

lemma yields_lock: "yields (f ()) db Q \<Longrightarrow> yields (session_bind (acquire_audit_chain_lock c) f) db Q"
  unfolding acquire_audit_chain_lock_def
  by (rule yields_bind [where P = "\<lambda>x d. d = db"], rule yields_statement) auto

lemma yields_latest: "yields (f (latest_chain_hash c db)) db Q \<Longrightarrow> yields (session_bind (fetch_latest_audit_hash_for_chain c) f) db Q"
  unfolding fetch_latest_audit_hash_for_chain_def
  by (rule yields_bind [where P = "\<lambda>x d. x = latest_chain_hash c db \<and> d = db"], rule yields_statement) auto

lemma yields_duplicate: "yields (f (has_input_hash h db)) db Q \<Longrightarrow> yields (session_bind (check_duplicate h) f) db Q"
  unfolding check_duplicate_def
  by (rule yields_bind [where P = "\<lambda>x d. x = has_input_hash h db \<and> d = db"], rule yields_statement) auto

lemma yields_records:
  "(\<not> unique_violation r s p db \<Longrightarrow> yields (f ()) (snd (insert_records r s p db)) Q)
    \<Longrightarrow> yields (session_bind (insert_records_batch r s p) f) db Q"
  unfolding insert_records_batch_def
  by (rule yields_bind [where P = "\<lambda>x d. \<not> unique_violation r s p db \<and> d = snd (insert_records r s p db)"], rule yields_statement)
    (auto simp: insert_records_def split: if_splits)

lemma yields_event:
  "Q (e\<lparr>ae_id := Some (db_next_id db)\<rparr>) (snd (insert_event e db)) \<Longrightarrow> yields (insert_audit_event e) db Q"
  unfolding insert_audit_event_def by (rule yields_statement) (auto simp: insert_event_def Let_def)

lemma yields_bind_event:
  "yields (f (e\<lparr>ae_id := Some (db_next_id db)\<rparr>)) (snd (insert_event e db)) Q \<Longrightarrow> yields (session_bind (insert_audit_event e) f) db Q"
  by (rule yields_bind [where P = "\<lambda>x d. x = e\<lparr>ae_id := Some (db_next_id db)\<rparr> \<and> d = snd (insert_event e db)"], rule yields_event)
    simp_all

lemmas yields_rules = yields_bind_return yields_lock yields_latest yields_duplicate yields_records yields_event
  yields_bind_event yields_return

text \<open>The server has committed what \<open>m\<close> did, and the error comes after it.\<close>

definition answer_error :: "'a session \<Rightarrow> (nat \<Rightarrow> py_error option) \<Rightarrow> evidence_db \<Rightarrow> py_error \<Rightarrow> 'a \<Rightarrow> evidence_db \<Rightarrow> bool" where
  "answer_error m faults db e x db' \<longleftrightarrow> (\<exists>n. m faults (db, 1) = (Inr x, db', n)
     \<and> faults 0 = None \<and> faults n = None \<and> faults (Suc n) = Some e)"

lemma transaction_outcome:
  assumes "yields m db Q" "transaction m faults db = (r, db')"
  shows "(case r of Inl e \<Rightarrow> same_rows db db' \<or> (\<exists>x. answer_error m faults db e x db' \<and> Q x db') | Inr x \<Rightarrow> Q x db')"
proof -
  obtain x db1 n where m: "m faults (db, 1) = (x, db1, n)" by (metis prod.collapse)
  have q: "db_next_id db \<le> db_next_id db1" "\<And>y. x = Inr y \<Longrightarrow> Q y db1" using assms(1) m unfolding yields_def by (metis fst_conv snd_conv)+
  have s: "same_rows db (rolled_back db db1)" "same_rows db db"
    using q(1) by (auto simp: same_rows_def rolled_back_def intro: exI [of _ "db_next_id db"])
  show ?thesis
    using assms(2) m q(2) s by (auto simp: transaction_def answer_error_def split: option.splits sum.splits)
qed

subsection \<open>What the transactions of the service leave\<close>

lemma latest_after_records [simp]: "latest_chain_hash c (snd (insert_records r s p db)) = latest_chain_hash c db"
  by (simp add: insert_records_def latest_chain_hash_def)

definition rejected_state :: "string \<Rightarrow> int \<Rightarrow> evidence_draft \<Rightarrow> evidence_db \<Rightarrow> evidence_db \<Rightarrow> bool" where
  "rejected_state now c d db db' \<longleftrightarrow> has_input_hash (rq_input_hash (ed_request_record d)) db
     \<and> (\<exists>e. next_event ''calculation_rejected_duplicate'' (rq_id (ed_request_record d))
           (duplicate_payload (rq_input_hash (ed_request_record d))) c now db = Inr e \<and> db' = snd (insert_event e db))"

definition persisted_state :: "string \<Rightarrow> int \<Rightarrow> evidence_draft \<Rightarrow> evidence_db \<Rightarrow> persisted_response \<Rightarrow> evidence_db \<Rightarrow> bool" where
  "persisted_state now c d db ps db' \<longleftrightarrow> \<not> has_input_hash (rq_input_hash (ed_request_record d)) db
     \<and> \<not> unique_violation (ed_request_record d) (ed_result_record d) (ed_proof_record d) db
     \<and> (\<exists>e. next_event ''calculation_persisted'' (rq_id (ed_request_record d)) (persisted_payload d) c now db = Inr e
       \<and> ps = persisted_of d (e\<lparr>ae_id := Some (db_next_id db)\<rparr>)
       \<and> db' = snd (insert_event e (snd (insert_records (ed_request_record d) (ed_result_record d) (ed_proof_record d) db))))"

definition failed_state :: "string \<Rightarrow> int \<Rightarrow> evidence_draft \<Rightarrow> string \<Rightarrow> evidence_db \<Rightarrow> evidence_db \<Rightarrow> bool" where
  "failed_state now c d reason db db' \<longleftrightarrow> (\<exists>e. next_event ''calculation_persist_failed'' (rq_id (ed_request_record d))
     (failure_payload (rq_input_hash (ed_request_record d)) reason) c now db = Inr e \<and> db' = snd (insert_event e db))"

lemma insert_records_ids [simp]: "db_next_id (snd (insert_records r s p db)) = db_next_id db"
  by (simp add: insert_records_def)

lemma reject_duplicate_yields:
  assumes "has_input_hash (rq_input_hash (ed_request_record d)) db"
  shows "yields (reject_duplicate now c d (latest_chain_hash c db)) db
    (\<lambda>out db'. out = None \<and> rejected_state now c d db db')"
  unfolding reject_duplicate_def
  by (intro yields_rules) (auto simp: rejected_state_def next_event_def assms)

lemma persist_new_yields:
  assumes "\<not> has_input_hash (rq_input_hash (ed_request_record d)) db"
  shows "yields (persist_new now c d (latest_chain_hash c db)) db
    (\<lambda>out db'. \<exists>ps. out = Some ps \<and> persisted_state now c d db ps db')"
  unfolding persist_new_def
  by (intro yields_rules) (auto simp: persisted_state_def next_event_def assms)

definition attempt_state :: "string \<Rightarrow> int \<Rightarrow> evidence_draft \<Rightarrow> evidence_db \<Rightarrow> persisted_response option \<Rightarrow> evidence_db \<Rightarrow> bool" where
  "attempt_state now c d db out db' \<longleftrightarrow> (case out of None \<Rightarrow> rejected_state now c d db db'
     | Some ps \<Rightarrow> persisted_state now c d db ps db')"

lemma yields_mono: "yields m db P \<Longrightarrow> (\<And>x d. P x d \<Longrightarrow> Q x d) \<Longrightarrow> yields m db Q"
  by (auto simp: yields_def)

lemma persist_body_yields: "yields (persist_body now c d) db (attempt_state now c d db)"
  unfolding persist_body_def
  by (intro yields_lock yields_latest yields_duplicate)
    (auto simp: attempt_state_def intro: yields_mono [OF reject_duplicate_yields] yields_mono [OF persist_new_yields])

lemma failure_body_yields:
  "yields (failure_body now (rq_id (ed_request_record d)) (rq_input_hash (ed_request_record d)) c reason) db
    (\<lambda>_. failed_state now c d reason db)"
  unfolding failure_body_def by (intro yields_rules) (auto simp: failed_state_def next_event_def)

lemma same_rows_refl [simp]: "same_rows db db"
  by (auto simp: same_rows_def intro: exI [of _ "db_next_id db"])

lemma same_rows_trans: "same_rows a b \<Longrightarrow> same_rows b c \<Longrightarrow> same_rows a c"
  unfolding same_rows_def by (metis (no_types, lifting) evidence_db.select_convs(5) evidence_db.surjective evidence_db.update_convs(5) order_trans)

subsection \<open>Counters never raise\<close>

definition metrics_ok :: "chain_metrics \<Rightarrow> bool" where
  "metrics_ok m \<longleftrightarrow> length (cm_requests m) = 64 \<and> length (cm_successes m) = 64 \<and> length (cm_duplicates m) = 64
     \<and> length (cm_errors m) = 64 \<and> length (cm_lock_wait_ms m) = 64"

definition counts :: "(chain_metrics \<Rightarrow> chain_metrics result) \<Rightarrow> bool" where
  "counts f \<longleftrightarrow> (\<forall>m. metrics_ok m \<longrightarrow> (\<exists>m'. f m = Inr m' \<and> metrics_ok m'))"

lemma records_count:
  assumes "0 \<le> c" "c < 64"
  shows "counts (record_request c)" "counts (record_success c)" "counts (record_duplicate c)" "counts (record_error c)"
    "counts (record_lock_wait_ms c w)"
  using assms by (auto simp: counts_def metrics_ok_def record_request_def record_success_def record_duplicate_def
      record_error_def record_lock_wait_ms_def update_at_def)

text \<open>Two states that differ in counters only.\<close>

definition recounted :: "service_state \<Rightarrow> service_state \<Rightarrow> bool" where
  "recounted st st' \<longleftrightarrow> (\<exists>m. metrics_ok m \<and> st' = st\<lparr>sv_metrics := m\<rparr>)"

lemma counted_bind:
  assumes "counts f" "metrics_ok (sv_metrics st)"
  obtains st1 where "recounted st st1" "service_bind (counted f) g st = g () st1"
  using assms unfolding counts_def service_bind_def counted_def recounted_def by (metis (no_types, lifting) case_prod_conv sum.case(2))

lemma recounted_facts:
  assumes "recounted st st'"
  shows "sv_db st' = sv_db st" "metrics_ok (sv_metrics st')"
  using assms by (auto simp: recounted_def)

lemma in_transaction_bind:
  assumes "yields m (sv_db st) Q"
  obtains e db where "service_bind (in_transaction m faults) g st = (Inl e, st\<lparr>sv_db := db\<rparr>)" "same_rows (sv_db st) db"
  | e x db where "service_bind (in_transaction m faults) g st = (Inl e, st\<lparr>sv_db := db\<rparr>)" "Q x db"
      "answer_error m faults (sv_db st) e x db"
  | x db where "service_bind (in_transaction m faults) g st = g x (st\<lparr>sv_db := db\<rparr>)" "Q x db"
proof -
  obtain r db where t: "transaction m faults (sv_db st) = (r, db)" by fastforce
  show thesis using transaction_outcome [OF assms t] t that by (cases r) (auto simp: service_bind_def in_transaction_def)
qed

subsection \<open>The attempts\<close>

definition first_fault :: "(nat \<Rightarrow> py_error option) \<Rightarrow> nat \<Rightarrow> py_error \<Rightarrow> bool" where
  "first_fault faults n x \<longleftrightarrow> faults n = Some x \<and> (\<forall>i < n. faults i = None)"

text \<open>An attempt that inserts ends with statement 6, one that finds a duplicate with statement 5.\<close>

lemma session_bind_Inr: "session_bind m f faults st = (Inr y, st') \<longleftrightarrow> (\<exists>x st1. m faults st = (Inr x, st1) \<and> f x faults st1 = (Inr y, st'))"
  by (auto simp: session_bind_def split: prod.splits sum.splits)

lemma statement_Inr: "statement f faults (db, n) = (Inr y, st') \<longleftrightarrow> faults n = None \<and> f db = (Inr y, fst st') \<and> st' = (fst st', Suc n)"
  by (cases st') (auto simp: statement_def split: option.splits prod.splits)

lemma session_return_Inr: "session_return r faults st = (Inr y, st') \<longleftrightarrow> r = Inr y \<and> st' = st"
  by (auto simp: session_return_def)

lemmas session_Inr = session_bind_Inr statement_Inr session_return_Inr acquire_audit_chain_lock_def
  fetch_latest_audit_hash_for_chain_def check_duplicate_def insert_records_batch_def insert_audit_event_def

lemma persist_body_statements:
  assumes "persist_body now c d faults (db, 1) = (Inr out, db', n)"
  shows "n = (if out = None then 5 else 6)" "\<And>i. 0 < i \<Longrightarrow> i < n \<Longrightarrow> faults i = None"
proof -
  have "n = (if out = None then 5 else 6) \<and> list_all (\<lambda>i. faults i = None) [1..<n]"
    using assms unfolding persist_body_def
    by (auto simp: session_Inr persist_new_def reject_duplicate_def upt_rec numeral_eq_Suc split: if_splits)
  then show "n = (if out = None then 5 else 6)" "\<And>i. 0 < i \<Longrightarrow> i < n \<Longrightarrow> faults i = None"
    by (auto simp: list_all_iff)
qed

lemma answer_error_persist:
  assumes "answer_error (persist_body now c d) faults db e out db'"
  shows "first_fault faults (if out = None then 6 else 7) e"
proof -
  obtain n where n: "persist_body now c d faults (db, 1) = (Inr out, db', n)" "faults 0 = None" "faults n = None" "faults (Suc n) = Some e"
    using assms unfolding answer_error_def by blast
  note s = persist_body_statements [OF n(1)]
  have "faults i = None" if "i < Suc n" for i
    using that n(2,3) s(2) [of i] by (cases "i = 0"; cases "i = n") auto
  then have "first_fault faults (Suc n) e" using n(4) by (simp add: first_fault_def)
  then show ?thesis using s(1) by (auto split: if_splits)
qed

definition attempt_outcome ::
  "(nat \<Rightarrow> py_error option) \<Rightarrow> string \<Rightarrow> int \<Rightarrow> evidence_draft \<Rightarrow> evidence_db \<Rightarrow> persisted_response result \<Rightarrow> evidence_db \<Rightarrow> bool" where
  "attempt_outcome faults now c d db r db' \<longleftrightarrow> (case r of
     Inr ps \<Rightarrow> persisted_state now c d db ps db'
   | Inl e \<Rightarrow> same_rows db db'
       \<or> rejected_state now c d db db'
         \<and> (e = DuplicateInputHashError (duplicate_message (rq_input_hash (ed_request_record d))) \<or> first_fault faults 6 e)
       \<or> first_fault faults 7 e \<and> (\<exists>ps. persisted_state now c d db ps db'))"

lemma counted_then:
  assumes "counts f" "metrics_ok (sv_metrics st)" "service_bind (counted f) (\<lambda>_. service_return x) st = (r, st')"
  shows "r = x \<and> sv_db st' = sv_db st \<and> metrics_ok (sv_metrics st')"
  using assms unfolding counts_def service_bind_def counted_def service_return_def by fastforce

lemma conclude_attempt_outcome:
  assumes "metrics_ok (sv_metrics st)" "0 \<le> c" "c < 64" "conclude_attempt c d out st = (r, st')"
  shows "r = (case out of None \<Rightarrow> Inl (DuplicateInputHashError (duplicate_message (rq_input_hash (ed_request_record d))))
      | Some ps \<Rightarrow> Inr ps) \<and> sv_db st' = sv_db st \<and> metrics_ok (sv_metrics st')"
  using assms(4) unfolding conclude_attempt_def
  by (cases out) (simp_all add: counted_then [OF records_count(3) [OF assms(2,3)] assms(1)]
      counted_then [OF records_count(2) [OF assms(2,3)] assms(1)])

lemma persist_attempt_outcome:
  assumes "metrics_ok (sv_metrics st)" "0 \<le> c" "c < 64" "persist_attempt ri c d k st = (r, st')"
  shows "attempt_outcome (ri_faults ri k) (ri_now ri) c d (sv_db st) r (sv_db st') \<and> metrics_ok (sv_metrics st')"
proof -
  let ?t = "service_bind (in_transaction (persist_body (ri_now ri) c d) (ri_faults ri k)) (conclude_attempt c d)"
  have "\<exists>st1. metrics_ok (sv_metrics st1) \<and> sv_db st1 = sv_db st \<and> ?t st1 = (r, st')"
  proof (cases "ri_faults ri k 0 = None")
    case True
    obtain st1 where st1: "recounted st st1" "service_bind (counted (record_lock_wait_ms c (ri_lock_wait ri k))) (\<lambda>_. ?t) st = ?t st1"
      by (rule counted_bind [OF records_count(5) [OF assms(2,3)] assms(1), of "ri_lock_wait ri k" "\<lambda>_. ?t"])
    have "persist_attempt ri c d k st = ?t st1" using st1(2) True by (simp add: persist_attempt_def)
    then show ?thesis using assms(4) recounted_facts [OF st1(1)] by auto
  next
    case False
    then show ?thesis using assms by (auto simp: persist_attempt_def service_bind_def service_return_def)
  qed
  then obtain st1 where st1: "metrics_ok (sv_metrics st1)" "sv_db st1 = sv_db st" "?t st1 = (r, st')" by blast
  show ?thesis
  proof (rule in_transaction_bind [OF persist_body_yields [of "ri_now ri" c d "sv_db st1"], of "ri_faults ri k" "conclude_attempt c d"])
    fix e db
    assume "?t st1 = (Inl e, st1\<lparr>sv_db := db\<rparr>)" "same_rows (sv_db st1) db"
    then show ?thesis using st1 by (auto simp: attempt_outcome_def)
  next
    fix e x db
    assume "?t st1 = (Inl e, st1\<lparr>sv_db := db\<rparr>)" "attempt_state (ri_now ri) c d (sv_db st1) x db"
      "answer_error (persist_body (ri_now ri) c d) (ri_faults ri k) (sv_db st1) e x db"
    then show ?thesis
      using st1 answer_error_persist by (cases x) (fastforce simp: attempt_outcome_def attempt_state_def)+
  next
    fix x db
    assume x: "?t st1 = conclude_attempt c d x (st1\<lparr>sv_db := db\<rparr>)" "attempt_state (ri_now ri) c d (sv_db st1) x db"
    then have c: "conclude_attempt c d x (st1\<lparr>sv_db := db\<rparr>) = (r, st')" using st1(3) by simp
    have m: "metrics_ok (sv_metrics (st1\<lparr>sv_db := db\<rparr>))" using st1(1) by simp
    show ?thesis
      using conclude_attempt_outcome [OF m assms(2,3) c] x(2) st1(2)
      by (auto simp: attempt_outcome_def attempt_state_def split: option.splits)
  qed
qed

lemma log_failure_outcome:
  fixes r :: "'b result"
  assumes "service_bind (log_failure_event ri c d reason) (\<lambda>_. service_return (Inl e)) st = (r, st')"
  shows "(\<exists>x. r = Inl x) \<and> sv_metrics st' = sv_metrics st
    \<and> (same_rows (sv_db st) (sv_db st') \<or> failed_state (ri_failure_now ri) c d reason (sv_db st) (sv_db st'))"
proof -
  let ?t = "service_bind (in_transaction (failure_body (ri_failure_now ri) (rq_id (ed_request_record d))
        (rq_input_hash (ed_request_record d)) c reason) (ri_failure_faults ri)) (\<lambda>_. service_return (Inl e :: 'b result))"
  have "service_bind (log_failure_event ri c d reason) (\<lambda>_. service_return (Inl e :: 'b result)) st = ?t st"
    by (auto simp: log_failure_event_def service_bind_def service_return_def split: prod.splits sum.splits)
  then have t: "?t st = (r, st')" using assms by simp
  show ?thesis
    by (rule in_transaction_bind [OF failure_body_yields [of "ri_failure_now ri" d c reason "sv_db st"],
        of "ri_failure_faults ri" "\<lambda>_. service_return (Inl e :: 'b result)"])
      (use t in \<open>auto simp: service_return_def\<close>)
qed

text \<open>All attempts: some of them roll back, the last one or the log of the failure may commit.  When the error of an
  attempt came after its commit, the attempts that follow find the input hash stored: they only append refusals.\<close>

inductive refusal_step :: "evidence_db \<Rightarrow> evidence_db \<Rightarrow> bool" where
  idle: "same_rows db db' \<Longrightarrow> refusal_step db db'"
| refused: "has_input_hash h db \<Longrightarrow> next_event ''calculation_rejected_duplicate'' i (duplicate_payload h) c now db = Inr e
    \<Longrightarrow> refusal_step db (snd (insert_event e db))"
| unable: "next_event ''calculation_persist_failed'' i (failure_payload h reason) c now db = Inr e
    \<Longrightarrow> refusal_step db (snd (insert_event e db))"

lemma refusal_steps_store: "refusal_step\<^sup>*\<^sup>* db db' \<Longrightarrow> store_step\<^sup>*\<^sup>* db db'"
  by (induction rule: rtranclp_induct) (auto elim!: refusal_step.cases intro: store_step.intros rtranclp.intros)

definition answer_lost :: "run_inputs \<Rightarrow> bool" where
  "answer_lost ri \<longleftrightarrow> (\<exists>k e. first_fault (ri_faults ri k) 6 e \<or> first_fault (ri_faults ri k) 7 e)"

definition service_outcome :: "run_inputs \<Rightarrow> int \<Rightarrow> evidence_draft \<Rightarrow> evidence_db \<Rightarrow> persisted_response result \<Rightarrow> evidence_db \<Rightarrow> bool" where
  "service_outcome ri c d db r db' \<longleftrightarrow>
     (\<exists>db1. same_rows db db1 \<and> (case r of
        Inr ps \<Rightarrow> persisted_state (ri_now ri) c d db1 ps db'
      | Inl e \<Rightarrow> db' = db1
          \<or> rejected_state (ri_now ri) c d db1 db' \<and> e = DuplicateInputHashError (duplicate_message (rq_input_hash (ed_request_record d)))
          \<or> (\<exists>reason. failed_state (ri_failure_now ri) c d reason db1 db')))
   \<or> isl r \<and> answer_lost ri \<and> (\<exists>db1 db2. same_rows db db1
        \<and> (db2 = db1 \<or> (\<exists>ps. persisted_state (ri_now ri) c d db1 ps db2)) \<and> refusal_step\<^sup>*\<^sup>* db2 db')"

lemma service_outcome_later:
  assumes "same_rows db db1" "service_outcome ri c d db1 r db'" shows "service_outcome ri c d db r db'"
  using assms(2) unfolding service_outcome_def
  by (elim disjE) (blast intro: same_rows_trans [OF assms(1)])+

lemma service_outcome_error:
  "same_rows db db' \<Longrightarrow> service_outcome ri c d db (Inl e) db'"
  "failed_state (ri_failure_now ri) c d reason db db' \<Longrightarrow> service_outcome ri c d db (Inl e) db'"
  unfolding service_outcome_def using same_rows_refl by (simp, blast, simp, blast)

lemma same_rows_input_hash: "same_rows db db' \<Longrightarrow> has_input_hash h db' = has_input_hash h db"
  by (auto simp: same_rows_def has_input_hash_def)

lemma service_outcome_refuses:
  assumes "has_input_hash (rq_input_hash (ed_request_record d)) db" "service_outcome ri c d db r db'"
  shows "isl r \<and> refusal_step\<^sup>*\<^sup>* db db'"
proof -
  have p: False if "same_rows db db1" "persisted_state (ri_now ri) c d db1 ps db2" for db1 ps db2
    using that assms(1) same_rows_input_hash [OF that(1)] by (simp add: persisted_state_def)
  have s: "refusal_step\<^sup>*\<^sup>* db db2" if "same_rows db db1" "refusal_step\<^sup>*\<^sup>* db1 db2" for db1 db2
    using refusal_step.idle [OF that(1)] that(2) by (rule converse_rtranclp_into_rtranclp)
  show ?thesis
  proof (cases r)
    case (Inr ps)
    then show ?thesis using assms(2) p by (auto simp: service_outcome_def)
  next
    case (Inl e)
    have r: "refusal_step db1 db2" if "rejected_state (ri_now ri) c d db1 db2 \<or> failed_state (ri_failure_now ri) c d reason db1 db2"
      for db1 db2 reason using that by (auto simp: rejected_state_def failed_state_def intro: refusal_step.intros)
    have "refusal_step\<^sup>*\<^sup>* db db'"
      using assms(2) unfolding service_outcome_def Inl sum.case
    proof (elim disjE exE conjE)
      fix db1 assume "same_rows db db1" "db' = db1"
      then show ?thesis using s by blast
    next
      fix db1 assume a: "same_rows db db1" "rejected_state (ri_now ri) c d db1 db'"
      show ?thesis using s [OF a(1) r_into_rtranclp [where r = refusal_step, OF r [OF disjI1 [OF a(2)]]]] .
    next
      fix db1 reason assume a: "same_rows db db1" "failed_state (ri_failure_now ri) c d reason db1 db'"
      show ?thesis using s [OF a(1) r_into_rtranclp [where r = refusal_step, OF r [OF disjI2 [OF a(2)]]]] .
    next
      fix db1 db2 assume "same_rows db db1" "refusal_step\<^sup>*\<^sup>* db2 db'" "db2 = db1"
      then show ?thesis using s by blast
    next
      fix db1 db2 ps assume "same_rows db db1" "persisted_state (ri_now ri) c d db1 ps db2"
      then show ?thesis using p by blast
    qed
    then show ?thesis using Inl by simp
  qed
qed

lemma service_outcome_lost:
  assumes "answer_lost ri" "service_outcome ri c d db1 r db'"
    and "rejected_state (ri_now ri) c d db db1 \<or> (\<exists>ps. persisted_state (ri_now ri) c d db ps db1)"
  shows "service_outcome ri c d db r db'"
proof -
  have "has_input_hash (rq_input_hash (ed_request_record d)) db1"
    using assms(3) by (auto simp: rejected_state_def persisted_state_def has_input_hash_def insert_event_def insert_records_def Let_def)
  from service_outcome_refuses [OF this assms(2)] have r: "isl r" "refusal_step\<^sup>*\<^sup>* db1 db'" by auto
  have "\<exists>db2. (db2 = db \<or> (\<exists>ps. persisted_state (ri_now ri) c d db ps db2)) \<and> refusal_step\<^sup>*\<^sup>* db2 db'"
    using assms(3)
  proof
    assume "rejected_state (ri_now ri) c d db db1"
    then have "refusal_step db db1" by (auto simp: rejected_state_def intro: refusal_step.intros)
    then show ?thesis using r(2) by (blast intro: converse_rtranclp_into_rtranclp)
  qed (use r(2) in blast)
  then show ?thesis unfolding service_outcome_def using assms(1) r(1) same_rows_refl by blast
qed

lemma service_outcome_attempt:
  assumes "attempt_outcome (ri_faults ri k) (ri_now ri) c d db (Inl e) db1"
  obtains "service_outcome ri c d db (Inl e) db1" "e = DuplicateInputHashError (duplicate_message (rq_input_hash (ed_request_record d)))"
  | "\<And>r db'. service_outcome ri c d db1 r db' \<Longrightarrow> service_outcome ri c d db r db'"
proof -
  have l: "answer_lost ri" if "first_fault (ri_faults ri k) 6 e \<or> first_fault (ri_faults ri k) 7 e"
    using that unfolding answer_lost_def by blast
  consider "same_rows db db1"
    | "rejected_state (ri_now ri) c d db db1" "e = DuplicateInputHashError (duplicate_message (rq_input_hash (ed_request_record d)))"
    | "answer_lost ri" "rejected_state (ri_now ri) c d db db1 \<or> (\<exists>ps. persisted_state (ri_now ri) c d db ps db1)"
    using assms l unfolding attempt_outcome_def sum.case by blast
  then show thesis
  proof cases
    case 1
    then show thesis using that(2) service_outcome_later by blast
  next
    case 2
    then have "service_outcome ri c d db (Inl e) db1" unfolding service_outcome_def using same_rows_refl by auto
    then show thesis using that(1) 2 by blast
  next
    case 3
    show thesis by (rule that(2)) (rule service_outcome_lost [OF 3(1) _ 3(2)])
  qed
qed

lemma service_outcome_failure:
  assumes "service_bind (log_failure_event ri c d reason) (\<lambda>_. service_return (Inl e)) st = (r, st')"
  shows "service_outcome ri c d (sv_db st) r (sv_db st')"
  using log_failure_outcome [OF assms] by (auto intro: service_outcome_error)

lemma try_attempts_outcome:
  assumes "metrics_ok (sv_metrics st)" "0 \<le> c" "c < 64" "try_attempts ri c d ks st = (r, st')"
  shows "service_outcome ri c d (sv_db st) r (sv_db st') \<and> metrics_ok (sv_metrics st')"
  using assms(1,4)
proof (induction ks arbitrary: st)
  case Nil
  then show ?case by (auto intro: service_outcome_error)
next
  case (Cons k ks)
  obtain x st1 where a: "persist_attempt ri c d k st = (x, st1)" by fastforce
  note o = persist_attempt_outcome [OF Cons.prems(1) assms(2,3) a]
  show ?case
  proof (cases x)
    case (Inr ps)
    then have "r = Inr ps" "st' = st1" using Cons.prems(2) a by simp_all
    then show ?thesis using o Inr by (auto simp: service_outcome_def attempt_outcome_def intro!: exI [of _ "sv_db st"])
  next
    case x: (Inl e)
    consider (duplicate) m where "e = DuplicateInputHashError m" | (retry) n m where "e = RetryableDbError n m"
      | (other) "\<And>m. e \<noteq> DuplicateInputHashError m"
        "try_attempts ri c d (k # ks) st = service_bind (counted (record_error c)) (\<lambda>_.
         service_bind (log_failure_event ri c d (error_text e)) (\<lambda>_. service_return (Inl e))) st1"
      using a x by (cases e) auto
    note e = this
    have rest: "service_outcome ri c d (sv_db st1) r (sv_db st') \<and> metrics_ok (sv_metrics st')"
    proof (cases rule: e)
      case duplicate
      then show ?thesis using Cons.prems(2) a o x by (auto intro: service_outcome_error)
    next
      case (retry n m)
      show ?thesis
      proof (cases "k = max_transaction_retries")
        case True
        then have t: "service_bind (log_failure_event ri c d (''retry_exhausted:'' @ n @ '':'' @ m)) (\<lambda>_. service_return (Inl e)) st1 = (r, st')"
          using Cons.prems(2) a x retry by simp
        then show ?thesis using service_outcome_failure [OF t] log_failure_outcome [OF t] o by auto
      next
        case False
        then have "try_attempts ri c d ks st1 = (r, st')" using Cons.prems(2) a x retry by simp
        then show ?thesis using Cons.IH o by blast
      qed
    next
      case other
      let ?g = "\<lambda>_. service_bind (log_failure_event ri c d (error_text e)) (\<lambda>_. service_return (Inl e :: persisted_response result))"
      obtain st2 where st2: "recounted st1 st2" "service_bind (counted (record_error c)) ?g st1 = ?g () st2"
        using counted_bind [OF records_count(4) [OF assms(2,3)], of st1 ?g] o by blast
      have t: "?g () st2 = (r, st')" using st2(2) other(2) Cons.prems(2) by (simp del: try_attempts.simps)
      show ?thesis
        using service_outcome_failure [OF t] log_failure_outcome [OF t] recounted_facts [OF st2(1)] by auto
    qed
    have "attempt_outcome (ri_faults ri k) (ri_now ri) c d (sv_db st) (Inl e) (sv_db st1)" using o x by simp
    then show ?thesis
    proof (cases rule: service_outcome_attempt)
      case 1
      then have "r = Inl e" "st' = st1" using Cons.prems(2) a x by simp_all
      then show ?thesis using 1 rest by simp
    next
      case 2
      then show ?thesis using rest by simp
    qed
  qed
qed

lemma persist_draft_outcome:
  assumes "metrics_ok (sv_metrics st)" "persist_draft ri d st = (r, st')"
  shows "(sv_db st' = sv_db st \<and> (\<exists>e. r = Inl e) \<or> (\<exists>c. chain_id_for_input (rq_input_hash (ed_request_record d)) = Inr c
    \<and> service_outcome ri c d (sv_db st) r (sv_db st'))) \<and> metrics_ok (sv_metrics st')"
proof (cases "chain_id_for_input (rq_input_hash (ed_request_record d))")
  case (Inl e)
  then show ?thesis using assms by (auto simp: persist_draft_def service_bind_def service_return_def)
next
  case (Inr c)
  note c = chain_id_range [OF Inr]
  let ?g = "\<lambda>_. try_attempts ri c d [1..max_transaction_retries]"
  obtain st1 where st1: "recounted st st1" "service_bind (counted (record_request c)) ?g st = ?g () st1"
    using counted_bind [OF records_count(1) assms(1), of c ?g] c by blast
  have "persist_draft ri d st = service_bind (counted (record_request c)) ?g st"
    using Inr by (simp add: persist_draft_def service_bind_def service_return_def)
  then have "try_attempts ri c d [1..max_transaction_retries] st1 = (r, st')" using assms(2) st1(2) by simp
  then show ?thesis using try_attempts_outcome [OF recounted_facts(2) [OF st1(1)]] c Inr recounted_facts(1) [OF st1(1)] by auto
qed

lemma calculate_and_persist_outcome:
  assumes "metrics_ok (sv_metrics st)" "calculate_and_persist env ri v st = (r, st')"
  shows "(sv_db st' = sv_db st \<and> (\<exists>e. r = Inl e) \<or> (\<exists>q c d. fst (prepare_evidence env (ri_now ri) q (sv_keys st)) = Inr d
      \<and> service_outcome ri c d (sv_db st) r (sv_db st'))) \<and> metrics_ok (sv_metrics st')"
proof (cases "sv_configured st")
  case False
  then show ?thesis using assms by (auto simp: calculate_and_persist_def require_repository_def service_bind_def)
next
  case conf: True
  show ?thesis
  proof (cases "validate_request (ze_int_of env) v")
    case (Inl e)
    then show ?thesis using assms conf
      by (auto simp: calculate_and_persist_def require_repository_def service_bind_def service_return_def)
  next
    case (Inr q)
    obtain x l where x: "prepare_evidence env (ri_now ri) q (sv_keys st) = (x, l)" by fastforce
    show ?thesis
    proof (cases x)
      case (Inl e)
      then show ?thesis using assms conf Inr x
        by (auto simp: calculate_and_persist_def require_repository_def service_bind_def service_return_def with_keys_def)
    next
      case d: (Inr d)
      then have "persist_draft ri d (st\<lparr>sv_keys := l\<rparr>) = (r, st')" using assms(2) conf Inr x
        by (simp add: calculate_and_persist_def require_repository_def service_bind_def service_return_def with_keys_def)
      then have "(sv_db st' = sv_db st \<and> (\<exists>e. r = Inl e) \<or> (\<exists>c. service_outcome ri c d (sv_db st) r (sv_db st')))
          \<and> metrics_ok (sv_metrics st')"
        using persist_draft_outcome [of "st\<lparr>sv_keys := l\<rparr>"] assms(1) by fastforce
      moreover have "fst (prepare_evidence env (ri_now ri) q (sv_keys st)) = Inr d" using x d by simp
      ultimately show ?thesis by blast
    qed
  qed
qed

subsection \<open>The store stays well formed\<close>

definition tables_ok :: "evidence_db \<Rightarrow> bool" where
  "tables_ok db \<longleftrightarrow> distinct (map rq_id (db_requests db)) \<and> distinct (map rq_input_hash (db_requests db))
     \<and> distinct (map rr_id (db_results db)) \<and> distinct (map pr_id (db_proofs db))
     \<and> map rr_request_id (db_results db) = map rq_id (db_requests db)
     \<and> map pr_request_id (db_proofs db) = map rq_id (db_requests db)"

definition persistence_logged :: "evidence_db \<Rightarrow> bool" where
  "persistence_logged db \<longleftrightarrow> (\<forall>r \<in> set (db_requests db). \<exists>e \<in> set (db_audit db).
     ae_event_type e = ''calculation_persisted'' \<and> ae_reference_id e = Some (rq_id r))"

definition store_ok :: "evidence_db \<Rightarrow> bool" where
  "store_ok db \<longleftrightarrow> audit_ok db \<and> es.log_valid db \<and> tables_ok db \<and> persistence_logged db"

lemma audit_ok_later: "audit_ok db \<Longrightarrow> db_next_id db \<le> m \<Longrightarrow> audit_ok (db\<lparr>db_next_id := m\<rparr>)"
  unfolding audit_ok_def list_all_iff by fastforce

lemma same_rows_ok: "same_rows db db' \<Longrightarrow> store_ok db \<Longrightarrow> store_ok db'"
  by (auto simp: same_rows_def store_ok_def audit_ok_later es.log_valid_def fetch_audit_chain_def tables_ok_def
      persistence_logged_def)

lemma insert_event_ok:
  assumes "store_ok db" "next_event t i payload c now db = Inr e"
  shows "store_ok (snd (insert_event e db))"
proof -
  have "es.log_valid (snd (insert_event e db))"
    using assms es.append_log_valid by (auto simp: store_ok_def next_event_def)
  moreover have "audit_ok (snd (insert_event e db))" using assms(1) es.append_inv by (auto simp: store_ok_def)
  ultimately show ?thesis using assms(1)
    by (auto simp: store_ok_def tables_ok_def persistence_logged_def insert_event_def Let_def)
qed

lemma next_event_fields: "next_event t i payload c now db = Inr e \<Longrightarrow> ae_event_type e = t \<and> ae_reference_id e = Some i"
  by (auto simp: next_event_def build_audit_event_def result_simps)

lemma persist_ok:
  assumes "store_ok db" "\<not> unique_violation r s p db" "next_event ''calculation_persisted'' (rq_id r) payload c now db = Inr e"
  shows "store_ok (snd (insert_event e (snd (insert_records r s p db))))" (is "store_ok ?db'")
proof -
  let ?db1 = "snd (insert_records r s p db)"
  have a: "db_audit ?db1 = db_audit db" by (simp add: insert_records_def)
  then have f: "fetch_audit_chain ?db1 = fetch_audit_chain db" by (simp add: fetch_audit_chain_def)
  have ok: "audit_ok ?db1" "es.log_valid ?db1" using assms(1) by (simp_all add: store_ok_def audit_ok_def a es.log_valid_def f)
  moreover have "build_audit_event ''calculation_persisted'' (Some (rq_id r)) payload (latest_chain_hash c ?db1) now c None = Inr e"
    using assms(3) by (simp add: next_event_def)
  ultimately have "es.log_valid ?db'" "audit_ok ?db'" using es.append_log_valid es.append_inv by blast+
  moreover have "tables_ok ?db'" using assms(1,2)
    by (auto simp: store_ok_def tables_ok_def insert_records_def insert_event_def unique_violation_def Let_def)
  moreover have "persistence_logged ?db'" using assms(1,2) next_event_fields [OF assms(3)]
    by (auto simp: store_ok_def persistence_logged_def insert_records_def insert_event_def Let_def)
  ultimately show ?thesis by (simp add: store_ok_def)
qed

lemma store_step_ok: "store_step db db' \<Longrightarrow> store_ok db \<Longrightarrow> store_ok db'"
  by (induction rule: store_step.induct) (auto intro: same_rows_ok insert_event_ok persist_ok)

lemma store_steps_ok: "store_step\<^sup>*\<^sup>* db db' \<Longrightarrow> store_ok db \<Longrightarrow> store_ok db'"
  by (induction rule: rtranclp_induct) (auto intro: store_step_ok)

lemma empty_store_ok: "store_ok empty_db"
  by (simp add: store_ok_def audit_ok_def empty_db_def es.log_valid_def fetch_audit_chain_def tables_ok_def
      persistence_logged_def partition_of_def)

lemma persisted_state_step: "persisted_state now c d db ps db' \<Longrightarrow> store_step db db'"
  by (auto simp: persisted_state_def intro: store_step.persisted)

lemma service_outcome_steps: "service_outcome ri c d db r db' \<Longrightarrow> store_step\<^sup>*\<^sup>* db db'"
proof -
  assume o: "service_outcome ri c d db r db'"
  consider db1 where "same_rows db db1" "store_step\<^sup>*\<^sup>* db1 db'"
    using o unfolding service_outcome_def
    by (cases r) (auto simp: rejected_state_def failed_state_def dest!: persisted_state_step refusal_steps_store
        intro: store_step.intros converse_rtranclp_into_rtranclp)
  then show ?thesis using store_step.lost_ids converse_rtranclp_into_rtranclp by metis
qed

subsection \<open>Whole calls\<close>

lemma prepare_evidence_draft:
  assumes "fst (prepare_evidence env now q l) = Inr d"
  obtains resp k p bd vk_h where "d = draft_of q resp now k p bd vk_h"
  using assms unfolding prepare_evidence_def Let_def
  by (auto simp: lbind_fst logged_apply split: if_splits prod.splits)

definition consistent_draft :: "evidence_draft \<Rightarrow> bool" where
  "consistent_draft d \<longleftrightarrow> rr_request_id (ed_result_record d) = rq_id (ed_request_record d)
     \<and> pr_request_id (ed_proof_record d) = rq_id (ed_request_record d)"

lemma draft_consistent: "consistent_draft (draft_of q resp now k p bd vk_h)"
  by (simp add: consistent_draft_def draft_of_def build_records_def Let_def)

lemma consistent_records:
  assumes "consistent_draft d"
  shows "(ed_result_record d)\<lparr>rr_request_id := rq_id (ed_request_record d)\<rparr> = ed_result_record d"
    "(ed_proof_record d)\<lparr>pr_request_id := rq_id (ed_request_record d)\<rparr> = ed_proof_record d"
  using assms unfolding consistent_draft_def by (metis result_record.surjective result_record.update_convs(2),
    metis proof_record.surjective proof_record.update_convs(2))

lemma call_outcome:
  assumes "metrics_ok (sv_metrics st)" "calculate_and_persist env ri v st = (r, st')"
  shows "store_step\<^sup>*\<^sup>* (sv_db st) (sv_db st') \<and> metrics_ok (sv_metrics st')"
  using calculate_and_persist_outcome [OF assms] service_outcome_steps by auto

text \<open>Calls one after the other, whatever each of them returns.\<close>

fun serve :: "(evidence_env \<times> run_inputs \<times> pyv) list \<Rightarrow> service_state \<Rightarrow> service_state" where
  "serve [] st = st"
| "serve ((env, ri, v) # calls) st = serve calls (snd (calculate_and_persist env ri v st))"

definition fresh_service :: service_state where
  "fresh_service = \<lparr>sv_configured = True, sv_db = empty_db, sv_metrics = chain_metrics_init, sv_keys = empty_key_log\<rparr>"

lemma fresh_metrics_ok: "metrics_ok (sv_metrics fresh_service)"
  by (simp add: fresh_service_def metrics_ok_def chain_metrics_init_def partitions_def audit_chain_partitions_def)

lemma serve_steps:
  "metrics_ok (sv_metrics st) \<Longrightarrow> store_step\<^sup>*\<^sup>* (sv_db st) (sv_db (serve calls st)) \<and> metrics_ok (sv_metrics (serve calls st))"
proof (induction calls arbitrary: st)
  case (Cons c calls)
  obtain env ri v where c: "c = (env, ri, v)" by (cases c)
  obtain r st1 where o: "calculate_and_persist env ri v st = (r, st1)" by fastforce
  show ?case using call_outcome [OF Cons.prems o] Cons.IH [of st1] o c by (auto intro: rtranclp_trans)
qed simp

text \<open>C19: after any calls on an empty store, with any faults of the database, the audit log verifies, identifiers and
  input hashes are unique, every request has its result and its proof at the same place of their tables, and a
  \<open>calculation_persisted\<close> event.\<close>

theorem store_stays_valid:
  "let db = sv_db (serve calls fresh_service) in
     map_sum id ac_status (verify_audit_chain (fetch_audit_chain db)) = Inr ''VALID'' \<and> tables_ok db \<and> persistence_logged db"
proof -
  let ?db = "sv_db (serve calls fresh_service)"
  have "store_step\<^sup>*\<^sup>* empty_db ?db"
    using serve_steps [OF fresh_metrics_ok, of calls] by (simp add: fresh_service_def)
  then have ok: "store_ok ?db" using store_steps_ok empty_store_ok by blast
  then obtain res where "verify_audit_chain (fetch_audit_chain ?db) = Inr res" "ac_status res = ''VALID''"
    unfolding store_ok_def es.log_valid_verifies by blast
  then show ?thesis using ok by (simp add: store_ok_def Let_def)
qed

definition one_more :: "evidence_db \<Rightarrow> evidence_db \<Rightarrow> evidence_bundle \<Rightarrow> bool" where
  "one_more db db' e \<longleftrightarrow> db_requests db' = db_requests db @ [eb_request e] \<and> db_results db' = db_results db @ [eb_result e]
     \<and> db_proofs db' = db_proofs db @ [eb_proof e] \<and> map Some (db_audit db') = map Some (db_audit db) @ [eb_audit_log e]"

text \<open>Only refused duplicates and failures were logged, \<open>n\<close> of them at most.\<close>

definition only_refusals :: "nat option \<Rightarrow> evidence_db \<Rightarrow> evidence_db \<Rightarrow> bool" where
  "only_refusals n db db' \<longleftrightarrow> db_requests db' = db_requests db \<and> db_results db' = db_results db \<and> db_proofs db' = db_proofs db
     \<and> (\<exists>es. db_audit db' = db_audit db @ es \<and> (\<forall>k. n = Some k \<longrightarrow> length es \<le> k)
       \<and> list_all (\<lambda>e. ae_event_type e \<in> {''calculation_rejected_duplicate'', ''calculation_persist_failed''}) es)"

lemma refusal_steps_only: "refusal_step\<^sup>*\<^sup>* db db' \<Longrightarrow> only_refusals None db db'"
proof (induction rule: rtranclp_induct)
  case (step a b)
  from step(2) have "only_refusals None a b"
    by cases (auto simp: only_refusals_def same_rows_def insert_event_def Let_def dest: next_event_fields)
  then show ?case using step.IH by (auto simp: only_refusals_def)
qed (simp add: only_refusals_def)

lemma only_refusals_event:
  assumes "same_rows db db1" "next_event t i payload c now db1 = Inr e"
    "t \<in> {''calculation_rejected_duplicate'', ''calculation_persist_failed''}"
  shows "only_refusals (Some 1) db (snd (insert_event e db1))"
  using assms next_event_fields [OF assms(2)] by (auto simp: same_rows_def only_refusals_def insert_event_def Let_def)

lemma persisted_adds:
  assumes "consistent_draft d" "same_rows db db1" "persisted_state now c d db1 ps db'"
  shows "one_more db db' (ps_evidence ps)"
  using assms(2,3)
  by (auto simp: persisted_state_def same_rows_def one_more_def persisted_of_def insert_records_def
      insert_event_def Let_def consistent_records [OF assms(1)])

lemma refused_outcome:
  assumes "consistent_draft d" "service_outcome ri c d db (Inl e) db'"
  shows "only_refusals (Some 1) db db'
    \<or> answer_lost ri \<and> (\<exists>mid. (mid = db \<or> (\<exists>ev. one_more db mid ev)) \<and> only_refusals None mid db')"
  using assms(2) unfolding service_outcome_def sum.case
proof (elim disjE exE conjE)
  fix db1 assume "same_rows db db1" "db' = db1"
  then have "only_refusals (Some 1) db db'" by (auto simp: same_rows_def only_refusals_def)
  then show ?thesis ..
next
  fix db1 assume "same_rows db db1" "rejected_state (ri_now ri) c d db1 db'"
  then have "only_refusals (Some 1) db db'" by (auto simp: rejected_state_def simp del: One_nat_def intro: only_refusals_event)
  then show ?thesis ..
next
  fix db1 reason assume "same_rows db db1" "failed_state (ri_failure_now ri) c d reason db1 db'"
  then have "only_refusals (Some 1) db db'" by (auto simp: failed_state_def simp del: One_nat_def intro: only_refusals_event)
  then show ?thesis ..
next
  fix db1 db2 assume l: "answer_lost ri" "same_rows db db1" "refusal_step\<^sup>*\<^sup>* db2 db'" "db2 = db1"
  have "refusal_step\<^sup>*\<^sup>* db db'"
    using refusal_step.idle [OF l(2)] l(3) unfolding l(4) by (rule converse_rtranclp_into_rtranclp)
  from refusal_steps_only [OF this] show ?thesis using l(1) by auto
next
  fix db1 db2 ps
  assume l: "answer_lost ri" "same_rows db db1" "refusal_step\<^sup>*\<^sup>* db2 db'" "persisted_state (ri_now ri) c d db1 ps db2"
  show ?thesis
    using l(1) persisted_adds [OF assms(1) l(2,4)] refusal_steps_only [OF l(3)]
    by (intro disjI2 conjI exI [of _ db2]) auto
qed

lemma persisted_outcome:
  assumes "consistent_draft d" "service_outcome ri c d db (Inr ps) db'"
  shows "one_more db db' (ps_evidence ps)"
  using assms(2) persisted_adds [OF assms(1)] by (auto simp: service_outcome_def)

end
