(* ===== verification/Evidence_Verification.thy ===== *)
theory Evidence_Verification
  imports Evidence_Refinement
begin

text \<open>
  What the evidence service achieves: drafts that verify, persisting in spite of faults that are
  retried, the refusal of duplicates, and evidence that verifies for as long as the store lives.
\<close>

subsection \<open>Drafts\<close>

lemma built_plonk_proof:
  assumes "build_plonk_proof bk int_of rules h now w trace_h producer cyc l = (Inr p, l')"
  shows "validate_proof p = Inr p \<and> cycle p = cyc \<and> is_ascii (pa_final_proof p)
    \<and> (\<exists>r out. bk_prove bk r = Inr out \<and> pa_proof_blob_hex p = po_proof_bytes_hex out)"
proof -
  obtain k where "prove_with_keys bk int_of rules h w trace_h producer cyc the_circuit k = Inr p"
    using assms by (auto simp: build_plonk_proof_def compile_circuit_ok split: if_splits prod.splits sum.splits)
  then obtain a b c d e f g h i j out r s where p: "p = proof_of a b c d e f (po_proof_bytes_hex out) g h i (sha256_hex s) producer cyc"
    "bk_prove bk r = Inr out"
    by (auto simp: prove_with_keys_def result_simps Let_def final_proof_hash_ok build_proof_artifact_total)
  have "validate_proof p = Inr p" unfolding p by (rule validate_proof_of)
  moreover have "cycle p = cyc" "is_ascii (pa_final_proof p)" "pa_proof_blob_hex p = po_proof_bytes_hex out"
    unfolding p proof_of_def by (simp_all add: sha.digest_ascii Let_def)
  ultimately show ?thesis using p(2) by blast
qed

text \<open>Everything phase 1 has established when it returns.\<close>

definition sound_draft :: "evidence_env \<Rightarrow> import_request \<Rightarrow> evidence_draft \<Rightarrow> bool" where
  "sound_draft env q d \<longleftrightarrow> calculate_import_landed_cost (ze_int_of env) (ze_rules env) (ze_dataset_hash env) q = Inr (ed_response d)
     \<and> plonk_accepts (ze_backend env) (ed_proof d) \<and> validate_proof (ed_proof d) = Inr (ed_proof d) \<and> cycle (ed_proof d) = 1
     \<and> is_ascii (pa_final_proof (ed_proof d))
     \<and> (\<exists>l. bv_valid (fst (verify_proof_bundle (export_env.truncate env) [] (ed_bundle d) l)))
     \<and> map_of (ed_bundle d) ''proof'' = Some (canonical_proof_payload (ed_proof d))
     \<and> (\<exists>now k vk_h. d = draft_of q (ed_response d) now k (ed_proof d) (ed_bundle d) vk_h)"

lemma bundle_valid_any: "bv_valid (fst (verify_proof_bundle env now bundle l)) \<longleftrightarrow> bv_valid (fst (verify_proof_bundle env now' bundle l'))"
  unfolding verify_proof_bundle_valid verify_bundle_body_valid ..

lemma exported_proof:
  "fst (export_proof_bundle env now v pk (Some p) l) = Inr bd \<Longrightarrow> map_of bd ''proof'' = Some (canonical_proof_payload p)"
  unfolding export_proof_bundle_def by (auto simp: lbind_fst logged_apply)

lemma draft_of_fields:
  "ed_response (draft_of q resp now k p bd vk_h) = resp" "ed_proof (draft_of q resp now k p bd vk_h) = p"
  "ed_bundle (draft_of q resp now k p bd vk_h) = bd" "ed_packet (draft_of q resp now k p bd vk_h) = k"
  "ed_request_record (draft_of q resp now k p bd vk_h) = \<lparr>rq_id = deterministic_request_id (ia_input_hash (rs_integrity resp)),
     rq_input_hash = ia_input_hash (rs_integrity resp), rq_raw_input = request_dump q, rq_created_at = now\<rparr>"
  "rr_output_hash (ed_result_record (draft_of q resp now k p bd vk_h)) = ia_output_hash (rs_integrity resp)"
  "rr_raw_output (ed_result_record (draft_of q resp now k p bd vk_h)) = response_dump resp"
  "pr_trace_hash (ed_proof_record (draft_of q resp now k p bd vk_h)) = ia_trace_hash (rs_integrity resp)"
  "pr_final_proof (ed_proof_record (draft_of q resp now k p bd vk_h)) = pa_final_proof p"
  "pr_proof_system (ed_proof_record (draft_of q resp now k p bd vk_h)) = pa_proof_system p"
  "pr_circuit_hash (ed_proof_record (draft_of q resp now k p bd vk_h)) = circuit_hash_of p"
  "pr_proof_bundle (ed_proof_record (draft_of q resp now k p bd vk_h)) = bd"
  "pr_proof_verified (ed_proof_record (draft_of q resp now k p bd vk_h))"
  by (simp_all add: draft_of_def build_records_def Let_def)

lemma prepared_draft:
  assumes "fst (prepare_evidence env now q l) = Inr d" shows "sound_draft env q d"
proof -
  let ?xe = "export_env.truncate env"
  obtain resp k p v bd bv l1 l2 l3 l4 l5 where
    c: "calculate_import_landed_cost (ze_int_of env) (ze_rules env) (ze_dataset_hash env) q = Inr resp"
    and p: "build_plonk_proof (ze_backend env) (ze_int_of env) (ze_rules env) (ze_dataset_hash env) now
       (tp_witness_artifact k) (ta_trace_hash (tp_trace_artifact k)) ''evidence_service'' 1 l1 = (Inr p, l2)"
    and v: "verify_plonk_proof (ze_backend env) now p ''evidence_service'' 1 l2 = (Inr v, l3)" "va_status v = ''VALID''"
    and b: "export_proof_bundle ?xe now (request_payload q) (Some k) (Some p) l3 = (Inr bd, l4)"
    and bv: "verify_proof_bundle ?xe now bd l4 = (bv, l5)" "bv_valid bv"
    and d: "d = draft_of q resp now k p bd (bv_verification_key_hash bv)"
    using assms unfolding prepare_evidence_def Let_def
    by (auto simp: lbind_fst logged_apply split: if_splits prod.splits)
  have "plonk_accepts (ze_backend env) p" using verify_plonk_verdict [of "ze_backend env" now p "''evidence_service''" 1 l2] v by auto
  moreover have "bv_valid (fst (verify_proof_bundle ?xe [] bd l4))"
    using bv bundle_valid_any [of ?xe now bd l4] by (metis fst_conv)
  moreover have "map_of bd ''proof'' = Some (canonical_proof_payload p)" using exported_proof b by (metis fst_conv)
  ultimately show ?thesis using built_plonk_proof [OF p] c unfolding sound_draft_def d draft_of_fields by blast
qed

subsection \<open>A stored draft verifies\<close>

lemma first_mismatch_reason_none: "list_all (\<lambda>(reason, c). c = Inr True) cs \<Longrightarrow> first_mismatch_reason cs = Inr None"
  by (induction cs) auto

lemma checked_all: "list_all (\<lambda>(reason, c). c = Inr True) cs \<Longrightarrow> checked env q cs m = m"
  by (simp add: checked_def first_mismatch_reason_none)

lemma accepted_proof_ascii:
  assumes "plonk_accepts bk p" shows "pa_proof_system p = ''plonk''" "is_ascii (circuit_hash_of p)"
  using assms all_lower_hex_ascii [OF circuit_hash_hex(1)]
  by (auto simp: plonk_accepts_def verify_steps_accepts circuit_hash_of_def)

lemma bundled_blob_canonical: "map_of bd ''proof'' = Some (canonical_proof_payload p) \<Longrightarrow> bundled_blob bd = pa_proof_blob_hex p"
  by (simp add: bundled_blob_def canonical_proof_items proof_items_def head_items_def)

definition sound_event :: "audit_event \<Rightarrow> bool" where
  "sound_event a \<longleftrightarrow> record_hash a = Inr (ae_current_hash a)"

definition holds_draft :: "evidence_draft \<Rightarrow> evidence_bundle \<Rightarrow> bool" where
  "holds_draft d e \<longleftrightarrow> eb_request e = ed_request_record d \<and> eb_result e = ed_result_record d \<and> eb_proof e = ed_proof_record d"

definition reads_back :: "evidence_env \<Rightarrow> calculation_response \<Rightarrow> bool" where
  "reads_back env resp \<longleftrightarrow> ve_parse_response env (response_dump resp) = Inr resp
     \<and> ve_parse_response env (response_payload resp) = Inr resp"

lemma proof_checks_pass:
  assumes "sound_draft env q d" "holds_draft d e" "rs_integrity (ed_response d) = integrity_of q' (rs_result (ed_response d)) (rs_trace (ed_response d))"
    and "is_ascii (pa_proof_blob_hex (ed_proof d))" "case eb_audit_log e of None \<Rightarrow> True | Some a \<Rightarrow> sound_event a"
  shows "list_all (\<lambda>(reason, c). c = Inr True) (proof_checks e (ed_response d) (ed_proof d))"
proof -
  obtain now k vk_h where d: "d = draft_of q (ed_response d) now k (ed_proof d) (ed_bundle d) vk_h"
    and acc: "plonk_accepts (ze_backend env) (ed_proof d)" and f: "is_ascii (pa_final_proof (ed_proof d))"
    and bd: "map_of (ed_bundle d) ''proof'' = Some (canonical_proof_payload (ed_proof d))"
    using assms(1) unfolding sound_draft_def by blast
  note i = integrity_ascii [OF assms(3)]
  have e: "rr_output_hash (eb_result e) = ia_output_hash (rs_integrity (ed_response d))"
    "pr_trace_hash (eb_proof e) = ia_trace_hash (rs_integrity (ed_response d))" "pr_final_proof (eb_proof e) = pa_final_proof (ed_proof d)"
    "pr_circuit_hash (eb_proof e) = circuit_hash_of (ed_proof d)" "pr_proof_bundle (eb_proof e) = ed_bundle d"
    using assms(2) unfolding holds_draft_def by (metis d draft_of_fields)+
  have "list_all (\<lambda>(reason, c). c = Inr True) (audit_checks e)"
    using assms(5) record_hash_ascii constant_time_equal_same
    by (auto simp: audit_checks_def sound_event_def split: option.splits)
  then show ?thesis
    using i f assms(4) accepted_proof_ascii(2) [OF acc]
    by (simp add: proof_checks_def e bundled_blob_canonical [OF bd] constant_time_equal_same)
qed

lemma request_payload_wf: "valid_request q \<Longrightarrow> wf_pyv (request_payload q)"
  by (simp add: request_payload_def request_items_def valid_request_def amount_ok_def)

lemma stored_draft_verifies:
  assumes "sound_draft env q d" "holds_draft d e" "valid_request q"
    and "ze_int_of env (PInt (quantity q)) = Some (quantity q)" "ze_int_of env (PInt 1) = Some 1"
    and "reads_back env (ed_response d)" "is_ascii (pa_proof_blob_hex (ed_proof d))"
    and "case eb_audit_log e of None \<Rightarrow> True | Some a \<Rightarrow> sound_event a"
  shows "\<exists>v l'. verify_bundle env now q e l = (Inr v, l') \<and> vr_status v = ''VALID''"
proof -
  let ?resp = "ed_response d" and ?p = "ed_proof d"
  obtain now' k vk_h l1 where d: "d = draft_of q ?resp now' k ?p (ed_bundle d) vk_h"
    and c: "calculate_import_landed_cost (ze_int_of env) (ze_rules env) (ze_dataset_hash env) q = Inr ?resp"
    and acc: "plonk_accepts (ze_backend env) ?p" and p: "validate_proof ?p = Inr ?p" "cycle ?p = 1"
    and bv: "bv_valid (fst (verify_proof_bundle (export_env.truncate env) [] (ed_bundle d) l1))"
    and bd: "map_of (ed_bundle d) ''proof'' = Some (canonical_proof_payload ?p)"
    using assms(1) unfolding sound_draft_def by blast
  have rv: "validate_request (ze_int_of env) (request_payload q) = Inr q" by (rule validate_request_payload [where int_of = "ze_int_of env", OF assms(3,4)])
  have i: "rs_integrity ?resp = integrity_of q (rs_result ?resp) (rs_trace ?resp)" by (rule integrity_of_calculation [OF c rv])
  have e: "rq_input_hash (eb_request e) = ia_input_hash (rs_integrity ?resp)" "rq_raw_input (eb_request e) = request_dump q"
    "rr_output_hash (eb_result e) = ia_output_hash (rs_integrity ?resp)" "rr_raw_output (eb_result e) = response_dump ?resp"
    "pr_trace_hash (eb_proof e) = ia_trace_hash (rs_integrity ?resp)" "pr_proof_system (eb_proof e) = pa_proof_system ?p"
    "pr_proof_bundle (eb_proof e) = ed_bundle d" "pr_proof_verified (eb_proof e)"
    using assms(2) unfolding holds_draft_def by (metis d draft_of_fields request_record.select_convs(2,3))+
  let ?v = "verify_proof (ze_int_of env) (ze_rules env) (ze_dataset_hash env) (ve_parse_response env) (request_payload q) (response_payload ?resp)"
  have v: "?v = \<lparr>vr_status = ''VALID'', vr_reason = ''Proof recomputed successfully'',
    vr_input_hash = ia_input_hash (rs_integrity ?resp), vr_output_hash = ia_output_hash (rs_integrity ?resp),
    vr_trace_hash = ia_trace_hash (rs_integrity ?resp), vr_integrity_hash = ia_integrity_hash (rs_integrity ?resp)\<rparr>"
    using assms(6) by (intro verify_accepts [where int_of = "ze_int_of env", OF rv request_payload_wf [OF assms(3)] assms(4) c])
      (simp_all add: reads_back_def)
  have j: "json_equal (request_dump q) (request_dump q) = Inr True"
    by (rule json_equal_refl [OF canonicalize_request_dump [OF assms(3)]])
  have r: "list_all (\<lambda>(reason, c). c = Inr True) (row_checks e ?v)"
    using integrity_ascii [OF i] by (simp add: row_checks_def e v constant_time_equal_same)
  obtain b l2 where b: "verify_proof_bundle (export_env.truncate env) now (ed_bundle d) l = (b, l2)" by fastforce
  then have "bv_valid b" using bv bundle_valid_any by (metis fst_conv)
  moreover have "parse_proof (ze_int_of env) (canonical_proof_payload ?p) = Inr ?p"
    by (rule parse_proof_round_trip [where int_of = "ze_int_of env", OF p(1)]) (simp add: p(2) assms(5))
  ultimately have "verify_stored_bundle env now q e ?resp ?v l = (Inr ?v, l2)"
    using b bd proof_checks_pass [OF assms(1,2) i assms(7,8)]
    by (simp add: verify_stored_bundle_def e checked_all logged_apply)
  then have "verify_bundle env now q e l = (Inr ?v, l2)"
    using j r accepted_proof_ascii(1) [OF acc] assms(6)
    by (simp add: verify_bundle_def e checked_all reads_back_def v)
  then show ?thesis using v by auto
qed

subsection \<open>What the store gives back\<close>

lemma find_unique:
  assumes "x \<in> set xs" "P x" "\<And>y. y \<in> set xs \<Longrightarrow> P y \<Longrightarrow> y = x"
  shows "find P xs = Some x"
  using assms(1,3)
proof (induction xs)
  case (Cons z zs)
  show ?case
  proof (cases "P z")
    case True
    then have "z = x" using Cons.prems(2) [of z] by simp
    then show ?thesis using True by simp
  next
    case False
    then have "x \<in> set zs" using Cons.prems(1) assms(2) by auto
    then show ?thesis using False Cons.IH Cons.prems(2) by simp
  qed
qed simp

lemma distinct_map_eq: "distinct (map f xs) \<Longrightarrow> x \<in> set xs \<Longrightarrow> y \<in> set xs \<Longrightarrow> f x = f y \<Longrightarrow> x = y"
  unfolding distinct_map by (blast dest: inj_onD)

lemma fetch_stored:
  assumes "tables_ok db" "r \<in> set (db_requests db)" "s \<in> set (db_results db)" "p \<in> set (db_proofs db)"
    and "rr_request_id s = rq_id r" "pr_request_id p = rq_id r"
  shows "fetch_by_input_hash (rq_input_hash r) db = Some (bundle_from_row db (r, s, p))"
proof -
  have t: "distinct (map rq_input_hash (db_requests db))" "distinct (map rr_request_id (db_results db))"
    "distinct (map pr_request_id (db_proofs db))"
    using assms(1) by (simp_all add: tables_ok_def)
  have "find (\<lambda>(a, b, c). rq_input_hash a = rq_input_hash r) (joined_rows db) = Some (r, s, p)"
  proof (rule find_unique)
    show "(r, s, p) \<in> set (joined_rows db)" using assms by (auto simp: joined_rows_def)
    fix y assume "y \<in> set (joined_rows db)" "case y of (a, b, c) \<Rightarrow> rq_input_hash a = rq_input_hash r"
    then obtain a b c where y: "y = (a, b, c)" "a \<in> set (db_requests db)" "b \<in> set (db_results db)" "c \<in> set (db_proofs db)"
      "rr_request_id b = rq_id a" "pr_request_id c = rq_id a" "rq_input_hash a = rq_input_hash r"
      by (auto simp: joined_rows_def)
    have "a = r" using distinct_map_eq [OF t(1) y(2) assms(2) y(7)] .
    moreover have "b = s" using distinct_map_eq [OF t(2) y(3) assms(3)] y(5) assms(5) calculation by simp
    moreover have "c = p" using distinct_map_eq [OF t(3) y(4) assms(4)] y(6) assms(6) calculation by simp
    ultimately show "y = (r, s, p)" using y(1) by simp
  qed simp
  then show ?thesis by (simp add: fetch_by_input_hash_def)
qed

lemma chain_ok_sound: "chain_ok p rs \<Longrightarrow> a \<in> set rs \<Longrightarrow> sound_event a"
  by (induction p rs rule: chain_ok.induct) (auto simp: sound_event_def)

lemma stored_event_sound:
  assumes "store_ok db" "a \<in> set (db_audit db)" shows "sound_event a"
proof -
  have "chain_ok zero_hash (partition_of (ae_chain_id a) (db_audit db))"
    using assms(1) partition_of_fetched unfolding store_ok_def es.log_valid_def by metis
  moreover have "a \<in> set (partition_of (ae_chain_id a) (db_audit db))" using assms(2) by (simp add: partition_of_def)
  ultimately show ?thesis by (rule chain_ok_sound)
qed

lemma latest_by_id_member:
  assumes "latest_by_id rs = Some a" shows "a \<in> set rs"
proof -
  have "a = last (sort_key event_id rs)" "sort_key event_id rs \<noteq> []"
    using assms by (auto simp: latest_by_id_def split: list.splits)
  then show ?thesis using last_in_set set_sort by metis
qed

text \<open>The tables only grow.\<close>

definition keeps_rows :: "evidence_db \<Rightarrow> evidence_db \<Rightarrow> bool" where
  "keeps_rows db db' \<longleftrightarrow> set (db_requests db) \<subseteq> set (db_requests db') \<and> set (db_results db) \<subseteq> set (db_results db')
     \<and> set (db_proofs db) \<subseteq> set (db_proofs db')"

lemma keeps_rows_trans: "keeps_rows a b \<Longrightarrow> keeps_rows b c \<Longrightarrow> keeps_rows a c"
  by (auto simp: keeps_rows_def)

lemma store_step_keeps: "store_step db db' \<Longrightarrow> keeps_rows db db'"
  by (induction rule: store_step.induct)
    (auto simp: same_rows_def keeps_rows_def insert_event_def insert_records_def Let_def)

lemma store_steps_keep: "store_step\<^sup>*\<^sup>* db db' \<Longrightarrow> keeps_rows db db'"
proof (induction rule: rtranclp_induct)
  case base
  then show ?case by (simp add: keeps_rows_def)
next
  case (step y z)
  then show ?case using store_step_keeps keeps_rows_trans by blast
qed

definition stores_draft :: "evidence_draft \<Rightarrow> evidence_db \<Rightarrow> bool" where
  "stores_draft d db \<longleftrightarrow> ed_request_record d \<in> set (db_requests db) \<and> ed_result_record d \<in> set (db_results db)
     \<and> ed_proof_record d \<in> set (db_proofs db)"

lemma persisted_stores:
  assumes "consistent_draft d" "service_outcome ri c d db (Inr ps) db'"
  shows "stores_draft d db' \<and> ps_response ps = ed_response d \<and> holds_draft d (ps_evidence ps)"
  using assms(2)
  by (auto simp: service_outcome_def persisted_state_def stores_draft_def holds_draft_def persisted_of_def insert_records_def
      insert_event_def Let_def consistent_records [OF assms(1)])

lemma fetch_draft:
  assumes "store_ok db" "stores_draft d db" "consistent_draft d"
  obtains e where "fetch_by_input_hash (rq_input_hash (ed_request_record d)) db = Some e" "holds_draft d e"
    "case eb_audit_log e of None \<Rightarrow> True | Some a \<Rightarrow> sound_event a"
proof
  let ?e = "bundle_from_row db (ed_request_record d, ed_result_record d, ed_proof_record d)"
  show "fetch_by_input_hash (rq_input_hash (ed_request_record d)) db = Some ?e"
    using assms fetch_stored unfolding store_ok_def stores_draft_def consistent_draft_def by blast
  show "holds_draft d ?e" by (simp add: holds_draft_def bundle_from_row_def)
  show "case eb_audit_log ?e of None \<Rightarrow> True | Some a \<Rightarrow> sound_event a"
  proof (cases "eb_audit_log ?e")
    case (Some a)
    then have "a \<in> set (db_audit db)" by (auto simp: bundle_from_row_def dest!: latest_by_id_member)
    then show ?thesis using Some stored_event_sound [OF assms(1)] by simp
  qed simp
qed

subsection \<open>The repository stays configured\<close>

definition steady :: "'a service \<Rightarrow> bool" where
  "steady m \<longleftrightarrow> (\<forall>st. sv_configured (snd (m st)) = sv_configured st)"

lemma steady_bind: "steady m \<Longrightarrow> (\<And>x. steady (f x)) \<Longrightarrow> steady (service_bind m f)"
  unfolding steady_def service_bind_def by (auto split: prod.splits sum.splits) (metis snd_conv)+

lemma steady_parts: "steady (service_return r)" "steady (with_keys l)" "steady (counted f)" "steady (in_transaction b faults)"
    "steady require_repository"
  by (auto simp: steady_def service_return_def with_keys_def counted_def in_transaction_def require_repository_def
      split: prod.splits sum.splits)

lemmas steady_rules = steady_bind steady_parts

lemma steady_attempt: "steady (persist_attempt ri c d k)"
  unfolding persist_attempt_def conclude_attempt_def
  by (intro steady_bind) (auto intro: steady_rules split: option.splits)

lemma steady_failure: "steady (log_failure_event ri c d reason)"
  unfolding log_failure_event_def by (intro steady_rules)

lemma steady_attempts: "steady (try_attempts ri c d ks)"
proof (induction ks)
  case (Cons k ks)
  have s: "steady (service_bind (log_failure_event ri c d reason) (\<lambda>_. service_return r))"
    "steady (service_bind (counted (record_error c)) (\<lambda>_. service_bind (log_failure_event ri c d reason) (\<lambda>_. service_return r)))"
    for reason and r :: "persisted_response result"
    by (intro steady_rules steady_failure)+
  show ?case
    unfolding steady_def
  proof
    fix st
    obtain r st1 where a: "persist_attempt ri c d k st = (r, st1)" by fastforce
    have "sv_configured st1 = sv_configured st" using steady_attempt a unfolding steady_def by (metis snd_conv)
    then show "sv_configured (snd (try_attempts ri c d (k # ks) st)) = sv_configured st"
      using a Cons.IH s by (auto simp: steady_def split: sum.splits py_error.splits)
  qed
qed (simp add: steady_def)

lemma steady_calculate: "steady (calculate_and_persist env ri v)"
  unfolding calculate_and_persist_def persist_draft_def by (intro steady_rules steady_attempts)

lemma steady_serve: "sv_configured (serve calls st) = sv_configured st"
proof (induction calls arbitrary: st)
  case (Cons c calls)
  then show ?case using steady_calculate by (cases c) (simp add: steady_def)
qed simp

subsection \<open>Persisted evidence\<close>

lemma read_only_runs: "in_transaction (read_only f) (\<lambda>_. None) st = (Inr (f (sv_db st)), st)"
  by (simp add: in_transaction_def transaction_def read_only_def statement_def)

lemma verify_persisted_draft:
  assumes "store_ok (sv_db st)" "sv_configured st" "stores_draft d (sv_db st)" "sound_draft env q d"
    and "wf_pyv v" "validate_request (ze_int_of env) v = Inr q" "ze_int_of env (PInt (quantity q)) = Some (quantity q)"
    and "ze_int_of env (PInt 1) = Some 1" "reads_back env (ed_response d)" "is_ascii (pa_proof_blob_hex (ed_proof d))"
  obtains pv e where "fst (verify_persisted env now (\<lambda>_. None) (\<lambda>_. None) v st) = Inr pv"
    "vr_status (pv_verification pv) = ''VALID''" "pv_evidence pv = Some e" "holds_draft d e"
    "ac_status (pv_audit_chain pv) = ''VALID''"
proof -
  obtain now' k vk_h where d: "d = draft_of q (ed_response d) now' k (ed_proof d) (ed_bundle d) vk_h"
    and c: "calculate_import_landed_cost (ze_int_of env) (ze_rules env) (ze_dataset_hash env) q = Inr (ed_response d)"
    using assms(4) unfolding sound_draft_def by blast
  have cd: "consistent_draft d" by (subst d) (rule draft_consistent)
  obtain e where e: "fetch_by_input_hash (rq_input_hash (ed_request_record d)) (sv_db st) = Some e" "holds_draft d e"
    "case eb_audit_log e of None \<Rightarrow> True | Some a \<Rightarrow> sound_event a"
    by (rule fetch_draft [OF assms(1,3) cd])
  have h: "rq_input_hash (ed_request_record d) = ia_input_hash (rs_integrity (ed_response d))"
    by (subst d) (simp add: draft_of_fields)
  obtain a where a: "verify_audit_chain (fetch_audit_chain (sv_db st)) = Inr a" "ac_status a = ''VALID''"
    using assms(1) unfolding store_ok_def es.log_valid_verifies by blast
  have vq: "valid_request q" by (rule validate_request_valid [OF assms(5,6)])
  obtain w l' where w: "verify_bundle env now q e (sv_keys st) = (Inr w, l')" "vr_status w = ''VALID''"
    using stored_draft_verifies [OF assms(4) e(2) vq assms(7,8,9,10) e(3)] by blast
  have r: "require_repository st' = (Inr (), st')" if "sv_configured st'" for st' using that by (simp add: require_repository_def)
  have "verify_persisted env now (\<lambda>_. None) (\<lambda>_. None) v st = (Inr \<lparr>pv_verification = with_chain a w, pv_evidence = Some e, pv_audit_chain = a\<rparr>,
      st\<lparr>sv_keys := l'\<rparr>)"
    using assms(2,6) c e(1) a(1) w(1) h
    by (simp add: verify_persisted_def verify_chain_def service_bind_def service_return_def r read_only_runs with_keys_def)
  then show thesis using that w(2) a(2) e(2) by (simp add: with_chain_def)
qed

lemma persisted_call:
  assumes "metrics_ok (sv_metrics st)" "validate_request (ze_int_of env) v = Inr q" "calculate_and_persist env ri v st = (Inr ps, st')"
  obtains c d where "sound_draft env q d" "service_outcome ri c d (sv_db st) (Inr ps) (sv_db st')" "consistent_draft d"
proof -
  have conf: "sv_configured st"
    using assms(3) by (auto simp: calculate_and_persist_def require_repository_def service_bind_def split: if_splits)
  obtain x l where x: "prepare_evidence env (ri_now ri) q (sv_keys st) = (x, l)" by fastforce
  obtain d where d: "x = Inr d"
    using assms(2,3) conf x
    by (cases x) (auto simp: calculate_and_persist_def require_repository_def service_bind_def service_return_def with_keys_def)
  then have "persist_draft ri d (st\<lparr>sv_keys := l\<rparr>) = (Inr ps, st')" using assms(2,3) conf x
    by (simp add: calculate_and_persist_def require_repository_def service_bind_def service_return_def with_keys_def)
  then obtain c where "service_outcome ri c d (sv_db st) (Inr ps) (sv_db st')"
    using persist_draft_outcome [of "st\<lparr>sv_keys := l\<rparr>"] assms(1) by fastforce
  moreover have p: "fst (prepare_evidence env (ri_now ri) q (sv_keys st)) = Inr d" using x d by simp
  moreover have "consistent_draft d" using p prepare_evidence_draft draft_consistent by metis
  ultimately show thesis using that prepared_draft by blast
qed

subsection \<open>Faults and retries\<close>

text \<open>A new calculation takes seven statements: opening (0), lock, latest digest, duplicate check, the three
  rows, the event (5) and the commit (6).\<close>

definition insertable :: "evidence_draft \<Rightarrow> evidence_db \<Rightarrow> bool" where
  "insertable d db \<longleftrightarrow> \<not> has_input_hash (rq_input_hash (ed_request_record d)) db
     \<and> \<not> unique_violation (ed_request_record d) (ed_result_record d) (ed_proof_record d) db"

lemma insertable_same_rows: "same_rows db db' \<Longrightarrow> insertable d db' = insertable d db"
  by (auto simp: same_rows_def insertable_def has_input_hash_def unique_violation_def)

lemma event_total:
  assumes "\<not> has_float (PDict payload)"
  obtains e where "build_audit_event t (Some i) payload prev now c None = Inr e" "\<And>n. check_inserted prev e (e\<lparr>ae_id := n\<rparr>) = Inr ()"
proof -
  have "\<not> has_float (audit_hash_payload t (Some i) payload now)" using assms by (simp add: audit_hash_payload_def)
  then obtain h where h: "compute_audit_hash prev t (Some i) payload now = Inr h" by (simp add: compute_audit_hash_def canonical_json_text)
  then have "is_ascii h" by (auto simp: compute_audit_hash_def result_simps sha.digest_ascii)
  then show thesis using that h constant_time_equal_same by (simp add: build_audit_event_def check_inserted_def)
qed

lemma training_record_total:
  assumes "map_of bd ''proof'' = Some (canonical_proof_payload p')"
  shows "\<exists>r. build_verified_training_record ps p witness_h vk_h bd = Inr r"
  using assms by (simp add: build_verified_training_record_def training_payload_def payload_hash_def canonical_json_text
      canonical_proof_items Let_def)

lemma persist_new_runs:
  assumes "insertable d db" "map_of (ed_bundle d) ''proof'' = Some (canonical_proof_payload p')"
    and "faults 4 = None" "faults 5 = None"
  shows "\<exists>ps db'. persist_new now c d prev faults (db, 4) = (Inr (Some ps), db', 6)"
proof -
  have "\<not> has_float (PDict (persisted_payload d))" by (simp add: persisted_payload_def)
  then obtain e where e: "build_audit_event ''calculation_persisted'' (Some (rq_id (ed_request_record d))) (persisted_payload d) prev now c None = Inr e"
    "\<And>n. check_inserted prev e (e\<lparr>ae_id := n\<rparr>) = Inr ()" by (rule event_total) blast
  obtain r where "build_verified_training_record (persisted_of d (e\<lparr>ae_id := Some (db_next_id db)\<rparr>)) (ed_proof d)
       (wa_witness_hash (tp_witness_artifact (ed_packet d))) (ed_vk_hash d) (ed_bundle d) = Inr r"
    using training_record_total [OF assms(2)] by blast
  then show ?thesis
    using assms e by (simp add: persist_new_def session_bind_def session_return_def insert_records_batch_def insert_audit_event_def
        statement_def insert_records_def insert_event_def insertable_def Let_def)
qed

lemma body_until_duplicate:
  assumes "insertable d db" "faults 1 = None" "faults 2 = None" "faults 3 = None"
  shows "persist_body now c d faults (db, 1) = persist_new now c d (latest_chain_hash c db) faults (db, 4)"
  using assms by (simp add: persist_body_def session_bind_def acquire_audit_chain_lock_def fetch_latest_audit_hash_for_chain_def
      check_duplicate_def statement_def insertable_def numeral_eq_Suc)

lemma persist_runs:
  assumes "insertable d db" "map_of (ed_bundle d) ''proof'' = Some (canonical_proof_payload p')" "\<forall>i < 6. faults i = None"
  obtains ps db' where "transaction (persist_body now c d) faults db = (case faults 6 of
      None \<Rightarrow> (case faults 7 of None \<Rightarrow> (Inr (Some ps), db') | Some x \<Rightarrow> (Inl x, db'))
    | Some x \<Rightarrow> (Inl (raised_last faults 6 x), rolled_back db db'))" "persisted_state now c d db ps db'"
proof -
  obtain ps db' where "persist_new now c d (latest_chain_hash c db) faults (db, 4) = (Inr (Some ps), db', 6)"
    using persist_new_runs [OF assms(1,2)] assms(3) by force
  then have b: "persist_body now c d faults (db, 1) = (Inr (Some ps), db', 6)"
    using assms(3) body_until_duplicate [OF assms(1)] by simp
  then have "attempt_state now c d db (Some ps) db'"
    using persist_body_yields [of now c d db] unfolding yields_def by (metis fst_conv snd_conv)
  moreover have "transaction (persist_body now c d) faults db = (case faults 6 of
      None \<Rightarrow> (case faults 7 of None \<Rightarrow> (Inr (Some ps), db') | Some x \<Rightarrow> (Inl x, db'))
    | Some x \<Rightarrow> (Inl (raised_last faults 6 x), rolled_back db db'))"
    using assms(3) b by (auto simp: transaction_def split: option.splits)
  ultimately show thesis using that by (simp add: attempt_state_def)
qed

lemma persist_new_fault:
  assumes "insertable d db" "first_fault faults n x" "n = 4 \<or> n = 5"
  shows "fst (persist_new now c d prev faults (db, 4)) = Inl x"
proof -
  have "\<not> has_float (PDict (persisted_payload d))" by (simp add: persisted_payload_def)
  then obtain e where "build_audit_event ''calculation_persisted'' (Some (rq_id (ed_request_record d))) (persisted_payload d) prev now c None = Inr e"
    by (rule event_total) blast
  then show ?thesis
    using assms by (auto simp: first_fault_def persist_new_def session_bind_def session_return_def insert_records_batch_def
        insert_audit_event_def statement_def insert_records_def insertable_def)
qed

lemma raised_last_cases: "raised_last faults n e = e \<or> (\<exists>i. faults i = Some (raised_last faults n e))"
  by (auto simp: raised_last_def split: option.splits)

lemma failed_body:
  assumes "faults 0 = None" "fst (body faults (db, 1)) = Inl x"
  shows "\<exists>e db'. transaction body faults db = (Inl e, db') \<and> (e = x \<or> (\<exists>i. faults i = Some e))"
proof -
  obtain db' n where "body faults (db, 1) = (Inl x, db', n)" using assms(2) by (metis prod.collapse)
  then show ?thesis using assms(1) raised_last_cases [of faults n x] by (auto simp: transaction_def)
qed

lemma persist_faults:
  assumes "insertable d db" "map_of (ed_bundle d) ''proof'' = Some (canonical_proof_payload p')" "first_fault faults n x" "n \<le> 6"
  shows "\<exists>e db'. transaction (persist_body now c d) faults db = (Inl e, db') \<and> (e = x \<or> (\<exists>i. faults i = Some e)) \<and> same_rows db db'"
proof -
  have "\<exists>e db'. transaction (persist_body now c d) faults db = (Inl e, db') \<and> (e = x \<or> (\<exists>i. faults i = Some e))"
  proof -
    consider "n = 0" | "n = 1 \<or> n = 2 \<or> n = 3" | "n = 4 \<or> n = 5" | "n = 6" using assms(4) by linarith
    then show ?thesis
    proof cases
      case 1
      then show ?thesis using assms(3) by (simp add: first_fault_def transaction_def)
    next
      case 2
      then have "fst (persist_body now c d faults (db, 1)) = Inl x"
        using assms(3) by (auto simp: first_fault_def persist_body_def session_bind_def acquire_audit_chain_lock_def
            fetch_latest_audit_hash_for_chain_def check_duplicate_def statement_def numeral_eq_Suc assms(1) [unfolded insertable_def])
      moreover have "faults 0 = None" using assms(3) 2 by (auto simp: first_fault_def)
      ultimately show ?thesis by (intro failed_body)
    next
      case 3
      have n: "faults 0 = None" "faults 1 = None" "faults 2 = None" "faults 3 = None" using assms(3) 3 by (auto simp: first_fault_def)
      have "fst (persist_body now c d faults (db, 1)) = Inl x"
        unfolding body_until_duplicate [OF assms(1) n(2-4)] by (rule persist_new_fault [OF assms(1,3) 3])
      with n(1) show ?thesis by (rule failed_body)
    next
      case 4
      then have n: "faults 6 = Some x" "\<forall>i < 6. faults i = None" using assms(3) by (auto simp: first_fault_def)
      show ?thesis
        by (rule persist_runs [OF assms(1,2) n(2), of now c]) (use raised_last_cases [of faults 6 x] n(1) in auto)
    qed
  qed
  then obtain e db' where t: "transaction (persist_body now c d) faults db = (Inl e, db')" "e = x \<or> (\<exists>i. faults i = Some e)" by blast
  have "\<not> (answer_error (persist_body now c d) faults db e out db' \<and> attempt_state now c d db out db')" for out
    using answer_error_persist [of now c d faults db e out db'] assms(1,3,4)
    by (cases out) (auto simp: first_fault_def attempt_state_def rejected_state_def insertable_def)
  then have "same_rows db db'" using transaction_outcome [OF persist_body_yields t(1)] by auto
  then show ?thesis using t by blast
qed

definition attempt_result :: "evidence_draft \<Rightarrow> persisted_response option result \<Rightarrow> persisted_response result" where
  "attempt_result d out = (case out of Inl e \<Rightarrow> Inl e
     | Inr None \<Rightarrow> Inl (DuplicateInputHashError (duplicate_message (rq_input_hash (ed_request_record d))))
     | Inr (Some ps) \<Rightarrow> Inr ps)"

lemma persist_attempt_result:
  assumes "metrics_ok (sv_metrics st)" "0 \<le> c" "c < 64" "transaction (persist_body (ri_now ri) c d) (ri_faults ri k) (sv_db st) = (out, db)"
  shows "\<exists>st'. persist_attempt ri c d k st = (attempt_result d out, st') \<and> sv_db st' = db \<and> metrics_ok (sv_metrics st')"
proof -
  let ?t = "service_bind (in_transaction (persist_body (ri_now ri) c d) (ri_faults ri k)) (conclude_attempt c d)"
  obtain st1 where st1: "metrics_ok (sv_metrics st1)" "sv_db st1 = sv_db st" "persist_attempt ri c d k st = ?t st1"
  proof (cases "ri_faults ri k 0 = None")
    case True
    obtain st1 where st1: "recounted st st1" "service_bind (counted (record_lock_wait_ms c (ri_lock_wait ri k))) (\<lambda>_. ?t) st = ?t st1"
      by (rule counted_bind [OF records_count(5) [OF assms(2,3)] assms(1), of "ri_lock_wait ri k" "\<lambda>_. ?t"])
    then show thesis using that recounted_facts [OF st1(1)] True by (simp add: persist_attempt_def)
  next
    case False
    then have "persist_attempt ri c d k st = ?t st" by (auto simp: persist_attempt_def service_bind_def service_return_def)
    then show thesis using that [of st] assms(1) by simp
  qed
  have t: "?t st1 = (case out of Inl e \<Rightarrow> (Inl e, st1\<lparr>sv_db := db\<rparr>) | Inr x \<Rightarrow> conclude_attempt c d x (st1\<lparr>sv_db := db\<rparr>))"
    using assms(4) st1(2) by (auto simp: service_bind_def in_transaction_def split: sum.splits)
  show ?thesis
  proof (cases out)
    case (Inl e)
    then show ?thesis using t st1 by (simp add: attempt_result_def)
  next
    case (Inr x)
    obtain r st' where c: "conclude_attempt c d x (st1\<lparr>sv_db := db\<rparr>) = (r, st')" by fastforce
    have m: "metrics_ok (sv_metrics (st1\<lparr>sv_db := db\<rparr>))" using st1(1) by simp
    show ?thesis using conclude_attempt_outcome [OF m assms(2,3) c] c t Inr st1(3)
      by (auto simp: attempt_result_def split: option.splits)
  qed
qed

text \<open>The attempt fails before the server has committed, and every error of it is a deadlock or a serialization failure;
  those of the rollback that follows, which would replace it, included.\<close>

definition retryable_fault :: "run_inputs \<Rightarrow> int \<Rightarrow> bool" where
  "retryable_fault ri k \<longleftrightarrow> (\<exists>n e. n \<le> 6 \<and> first_fault (ri_faults ri k) n e)
     \<and> (\<forall>i e. ri_faults ri k i = Some e \<longrightarrow> (\<exists>name m. e = RetryableDbError name m))"

definition no_fault :: "run_inputs \<Rightarrow> int \<Rightarrow> bool" where
  "no_fault ri k \<longleftrightarrow> (\<forall>n \<le> 7. ri_faults ri k n = None)"

lemma retried_attempts:
  assumes "0 \<le> c" "c < 64" "map_of (ed_bundle d) ''proof'' = Some (canonical_proof_payload p')" "no_fault ri k"
    and "\<forall>j \<in> set js. j \<noteq> max_transaction_retries \<and> retryable_fault ri j" "metrics_ok (sv_metrics st)" "insertable d (sv_db st)"
  shows "\<exists>ps. fst (try_attempts ri c d (js @ k # ks) st) = Inr ps"
  using assms(5-7)
proof (induction js arbitrary: st)
  case Nil
  have n: "\<forall>i < 6. ri_faults ri k i = None" "ri_faults ri k 6 = None" "ri_faults ri k 7 = None"
    using assms(4) by (auto simp: no_fault_def)
  obtain ps db where t: "transaction (persist_body (ri_now ri) c d) (ri_faults ri k) (sv_db st) = (Inr (Some ps), db)"
    by (rule persist_runs [OF Nil(3) assms(3) n(1), of "ri_now ri" c]) (simp add: n)
  obtain st' where "persist_attempt ri c d k st = (attempt_result d (Inr (Some ps)), st')"
    using persist_attempt_result [OF Nil(2) assms(1,2) t] by blast
  then show ?case by (simp add: attempt_result_def)
next
  case (Cons j js)
  obtain n x where f: "n \<le> 6" "first_fault (ri_faults ri j) n x" and r: "\<And>i e. ri_faults ri j i = Some e \<Longrightarrow> \<exists>name m. e = RetryableDbError name m"
    using Cons.prems(1) unfolding retryable_fault_def by (metis list.set_intros(1))
  obtain e db where t: "transaction (persist_body (ri_now ri) c d) (ri_faults ri j) (sv_db st) = (Inl e, db)"
    and e: "e = x \<or> (\<exists>i. ri_faults ri j i = Some e)" and s: "same_rows (sv_db st) db"
    using persist_faults [OF Cons.prems(3) assms(3) f(2,1)] by blast
  have "\<exists>i. ri_faults ri j i = Some e" using e f(2) by (auto simp: first_fault_def)
  then obtain name m where em: "e = RetryableDbError name m" using r by blast
  obtain st' where st': "persist_attempt ri c d j st = (Inl (RetryableDbError name m), st')" "sv_db st' = db" "metrics_ok (sv_metrics st')"
    using persist_attempt_result [OF Cons.prems(2) assms(1,2) t] em by (auto simp: attempt_result_def)
  have "insertable d (sv_db st')" using Cons.prems(3) insertable_same_rows s st'(2) by blast
  then show ?case using Cons.IH [OF _ st'(3)] Cons.prems(1) st'(1) by auto
qed

lemma draft_chain_id:
  assumes "sound_draft env q d" "valid_request q" "ze_int_of env (PInt (quantity q)) = Some (quantity q)"
  obtains c where "chain_id_for_input (rq_input_hash (ed_request_record d)) = Inr c" "0 \<le> c" "c < 64"
proof -
  obtain now k vk_h where d: "d = draft_of q (ed_response d) now k (ed_proof d) (ed_bundle d) vk_h"
    and c: "calculate_import_landed_cost (ze_int_of env) (ze_rules env) (ze_dataset_hash env) q = Inr (ed_response d)"
    using assms(1) unfolding sound_draft_def by blast
  have "rs_integrity (ed_response d) = integrity_of q (rs_result (ed_response d)) (rs_trace (ed_response d))"
    by (rule integrity_of_calculation [OF c]) (rule validate_request_payload [where int_of = "ze_int_of env", OF assms(2,3)])
  then have "ia_input_hash (rs_integrity (ed_response d)) = request_hash q" by (simp add: integrity_of_def)
  moreover have "rq_input_hash (ed_request_record d) = ia_input_hash (rs_integrity (ed_response d))"
    by (subst d) (simp add: draft_of_fields)
  ultimately have h: "rq_input_hash (ed_request_record d) = request_hash q" by simp
  obtain c where "chain_id_for_input (request_hash q) = Inr c"
    by (simp add: chain_id_for_input_def request_hash_def sha.digest_int16)
  then show thesis using that h chain_id_range by simp
qed

lemma prepared_call:
  assumes "metrics_ok (sv_metrics st)" "sv_configured st" "validate_request (ze_int_of env) v = Inr q"
    and "prepare_evidence env (ri_now ri) q (sv_keys st) = (Inr d, l)" "chain_id_for_input (rq_input_hash (ed_request_record d)) = Inr c"
  obtains st1 where "calculate_and_persist env ri v st = try_attempts ri c d [1..max_transaction_retries] st1"
    "sv_db st1 = sv_db st" "metrics_ok (sv_metrics st1)"
proof -
  note c = chain_id_range [OF assms(5)]
  let ?g = "\<lambda>_. try_attempts ri c d [1..max_transaction_retries]" and ?st = "st\<lparr>sv_keys := l\<rparr>"
  have m: "metrics_ok (sv_metrics ?st)" using assms(1) by simp
  obtain st1 where st1: "recounted ?st st1" "service_bind (counted (record_request c)) ?g ?st = ?g () st1"
    by (rule counted_bind [OF records_count(1) m, of c ?g]) (use c in auto)
  have "calculate_and_persist env ri v st = service_bind (counted (record_request c)) ?g ?st"
    using assms(2-5) by (simp add: calculate_and_persist_def persist_draft_def require_repository_def service_bind_def
        service_return_def with_keys_def)
  then show thesis using that [of st1] st1(2) recounted_facts [OF st1(1)] by simp
qed

subsection \<open>A concrete run\<close>

lemma prepare_evidence_runs:
  assumes "valid_request q" "ze_int_of env (PInt (quantity q)) = Some (quantity q)" "ze_int_of env (PInt 1) = Some 1"
    and "calculate_import_landed_cost (ze_int_of env) (ze_rules env) (ze_dataset_hash env) q = Inr resp"
    and "build_plonk_proof (ze_backend env) (ze_int_of env) (ze_rules env) (ze_dataset_hash env) now
       (tp_witness_artifact (packet_of q resp ''evidence_service'' 1)) (trace_hash_of (rs_trace resp)) ''evidence_service'' 1 l = (Inr p, l1)"
    and "plonk_accepts (ze_backend env) p" "manifest_hash (export_env.truncate env) = Inr vk_h"
  shows "\<exists>d l'. prepare_evidence env now q l = (Inr d, l') \<and> ed_proof d = p \<and> ed_response d = resp"
proof -
  let ?xe = "export_env.truncate env" and ?k = "packet_of q resp ''evidence_service'' 1"
  have t: "ze_int_of ?xe = ze_int_of env" "ze_rules ?xe = ze_rules env" "ze_dataset_hash ?xe = ze_dataset_hash env"
    "ze_backend ?xe = ze_backend env" by (simp_all add: export_env.truncate_def)
  have rv: "validate_request (ze_int_of env) (request_payload q) = Inr q"
    by (rule validate_request_payload [where int_of = "ze_int_of env", OF assms(1,2)])
  have k: "packet_for ?xe (request_payload q) ''evidence_service'' = Inr ?k"
    by (rule packet_for_ok [where env = ?xe, unfolded t, OF rv request_payload_wf [OF assms(1)] assms(2,4)])
  obtain v l2 where v: "verify_plonk_proof (ze_backend env) now p ''evidence_service'' 1 l1 = (Inr v, l2)" "va_status v = ''VALID''"
    using verify_plonk_verdict assms(6) by metis
  obtain l3 where b: "export_proof_bundle ?xe now (request_payload q) (Some ?k) (Some p) l2 = (Inr (bundle_of q resp vk_h p), l3)"
    by (rule export_bundle [OF assms(7)])
  note p = built_plonk_proof [OF assms(5)]
  obtain bv l4 where bv: "verify_proof_bundle ?xe now (bundle_of q resp vk_h p) l3 = (bv, l4)" by fastforce
  have "ze_int_of env (PInt (cycle p)) = Some (cycle p)" using p assms(3) by simp
  then have "bv_valid (fst (verify_proof_bundle ?xe now (bundle_of q resp vk_h p) l3))"
    using p by (intro bundle_of_verifies [where env = ?xe, unfolded t, OF assms(1,2,4,7) _ _ assms(6)]) simp_all
  then have "bv_valid bv" using bv by simp
  then show ?thesis
    using assms(4,5) k v b bv by (simp add: prepare_evidence_def lbind_def logged_apply packet_fields draft_of_fields Let_def)
qed

definition sample_env :: evidence_env where
  "sample_env = \<lparr>ze_backend = sample_backend, ze_int_of = sample_int, ze_rules = tariff_rules, ze_dataset_hash = dataset_hash,
     xe_read_bytes = (\<lambda>_. Inr []), ve_parse_response = (\<lambda>v. if v \<in> {response_dump sample_response, response_payload sample_response}
       then Inr sample_response else Inl (ValidationError ''CalculationResponse''))\<rparr>"

text \<open>A deadlock at the insertion of the rows in the first two attempts, none afterwards.\<close>

definition sample_run :: run_inputs where
  "sample_run = \<lparr>ri_now = ''2026-01-01T00:00:00Z'', ri_failure_now = ''2026-01-01T00:00:01Z'',
     ri_faults = (\<lambda>k n. if k \<le> 2 \<and> n = 4 then Some (RetryableDbError ''DeadlockDetectedError'' ''deadlock detected'') else None),
     ri_lock_wait = (\<lambda>_. 0), ri_failure_faults = (\<lambda>_. None)\<rparr>"

lemma sample_env_fields:
  "ze_backend sample_env = sample_backend" "ze_int_of sample_env = sample_int" "ze_rules sample_env = tariff_rules"
  "ze_dataset_hash sample_env = dataset_hash" "reads_back sample_env sample_response"
  by (simp_all add: sample_env_def reads_back_def)

lemma sample_manifest: "\<exists>h. manifest_hash (export_env.truncate sample_env) = Inr h"
  by (simp add: manifest_hash_def sample_env_def export_env.truncate_def sample_backend_def)

lemma sample_draft:
  obtains d l where "prepare_evidence sample_env now sample_request l0 = (Inr d, l)" "ed_response d = sample_response"
    "is_ascii (pa_proof_blob_hex (ed_proof d))"
proof -
  let ?w = "sample_packet_witness ''evidence_service''"
  have w: "wa_trace_hash ?w = trace_hash_of (rs_trace sample_response)"
    by (simp add: sample_packet_witness_def packet_of_def witness_of_def trace_of_def Let_def sample_response_def response_of_def integrity_of_def)
  obtain p l1 where p: "build_plonk_proof sample_backend sample_int tariff_rules dataset_hash now ?w (wa_trace_hash ?w)
    ''evidence_service'' 1 l0 = (Inr p, l1)" by (rule sample_packet_proof)
  have a: "plonk_accepts sample_backend p"
    unfolding plonk_accepts_def by (rule plonk_proof_accepted [OF sample_backend_complete p sample_packet_inputs])
  have b: "is_ascii (pa_proof_blob_hex p)"
    using built_plonk_proof [OF p] by (auto simp: sample_backend_def is_ascii_def)
  obtain vk_h where m: "manifest_hash (export_env.truncate sample_env) = Inr vk_h" using sample_manifest by blast
  have i: "sample_int (PInt 1) = Some 1" by (simp add: sample_int_def)
  obtain d l' where "prepare_evidence sample_env now sample_request l0 = (Inr d, l')" "ed_proof d = p" "ed_response d = sample_response"
    using prepare_evidence_runs [where env = sample_env, unfolded sample_env_fields, OF sample_valid(1) sample_int_quantity i
      sample_calculation p [unfolded w, unfolded sample_packet_witness_def] a m] by blast
  then show thesis using that b by simp
qed

lemma persisted_in_spite_of_faults:
  assumes "metrics_ok (sv_metrics st)" "sv_configured st" "wf_pyv v" "validate_request (ze_int_of env) v = Inr q"
    and "ze_int_of env (PInt (quantity q)) = Some (quantity q)" "prepare_evidence env (ri_now ri) q (sv_keys st) = (Inr d, l)"
    and "insertable d (sv_db st)" "1 \<le> k" "k \<le> 5" "no_fault ri k" "\<forall>j \<in> {1..<k}. retryable_fault ri j"
  shows "\<exists>ps. fst (calculate_and_persist env ri v st) = Inr ps"
proof -
  have sd: "sound_draft env q d" using prepared_draft assms(6) by (metis fst_conv)
  then have bd: "map_of (ed_bundle d) ''proof'' = Some (canonical_proof_payload (ed_proof d))" by (simp add: sound_draft_def)
  obtain c where c: "chain_id_for_input (rq_input_hash (ed_request_record d)) = Inr c" "0 \<le> c" "c < 64"
    by (rule draft_chain_id [OF sd validate_request_valid [OF assms(3,4)] assms(5)])
  obtain st1 where st1: "calculate_and_persist env ri v st = try_attempts ri c d [1..max_transaction_retries] st1"
    "sv_db st1 = sv_db st" "metrics_ok (sv_metrics st1)"
    by (rule prepared_call [OF assms(1,2,4,6) c(1)])
  have ins: "insertable d (sv_db st1)" using assms(7) st1(2) by simp
  have "[1..max_transaction_retries] = [1..k - 1] @ k # [k + 1..5]"
    using assms(8,9) unfolding max_transaction_retries_def by (rule upto_split3)
  moreover have "\<forall>j \<in> set [1..k - 1]. j \<noteq> max_transaction_retries \<and> retryable_fault ri j"
    using assms(9,11) by (auto simp: max_transaction_retries_def)
  ultimately show ?thesis using retried_attempts [OF c(2,3) bd assms(10) _ st1(3) ins] st1(1) by simp
qed

lemma sample_call:
  obtains ps st' where "calculate_and_persist sample_env sample_run (request_payload sample_request) fresh_service = (Inr ps, st')"
    "ps_response ps = sample_response" "is_ascii (bundled_blob (pr_proof_bundle (eb_proof (ps_evidence ps))))"
proof -
  have v: "validate_request (ze_int_of sample_env) (request_payload sample_request) = Inr sample_request"
    using sample_revalidates(1) by (simp add: sample_env_fields)
  obtain d l where d: "prepare_evidence sample_env (ri_now sample_run) sample_request (sv_keys fresh_service) = (Inr d, l)"
    "ed_response d = sample_response" "is_ascii (pa_proof_blob_hex (ed_proof d))" by (rule sample_draft)
  have f: "insertable d (sv_db fresh_service)" "sv_configured fresh_service"
    by (simp_all add: insertable_def has_input_hash_def unique_violation_def fresh_service_def empty_db_def)
  have n: "no_fault sample_run 3" by (simp add: no_fault_def sample_run_def)
  have r: "\<forall>j \<in> {1..<3}. retryable_fault sample_run j"
    by (auto simp: retryable_fault_def first_fault_def sample_run_def intro!: exI [of _ 4])
  obtain ps where "fst (calculate_and_persist sample_env sample_run (request_payload sample_request) fresh_service) = Inr ps"
    using persisted_in_spite_of_faults [where env = sample_env, OF fresh_metrics_ok f(2) sample_revalidates(2) v _ d(1) f(1) _ _ n r] sample_int_quantity
    by (auto simp: sample_env_fields)
  then obtain st' where c: "calculate_and_persist sample_env sample_run (request_payload sample_request) fresh_service = (Inr ps, st')"
    by (metis prod.collapse)
  have conf: "sv_configured fresh_service" by (simp add: fresh_service_def)
  have "persist_draft sample_run d (fresh_service\<lparr>sv_keys := l\<rparr>) = (Inr ps, st')" using c v conf d(1)
    by (simp add: calculate_and_persist_def require_repository_def service_bind_def service_return_def with_keys_def)
  then obtain c' where "service_outcome sample_run c' d (sv_db fresh_service) (Inr ps) (sv_db st')"
    using persist_draft_outcome [of "fresh_service\<lparr>sv_keys := l\<rparr>"] fresh_metrics_ok by fastforce
  moreover have "consistent_draft d" using prepare_evidence_draft d(1) draft_consistent by (metis fst_conv)
  ultimately have p: "ps_response ps = ed_response d" "holds_draft d (ps_evidence ps)" using persisted_stores by blast+
  have sd: "sound_draft sample_env sample_request d" using prepared_draft d(1) by (metis fst_conv)
  then have "bundled_blob (pr_proof_bundle (eb_proof (ps_evidence ps))) = pa_proof_blob_hex (ed_proof d)"
    using p(2) bundled_blob_canonical unfolding sound_draft_def holds_draft_def by (metis draft_of_fields(12))
  then show thesis using that [OF c] p(1) d(2,3) by simp
qed

section \<open>Properties\<close>

text \<open>C20: what a call does to the store is a sequence of the atomic steps of \<open>store_step\<close>, whatever it is given, whatever
  statements of its transactions fail and whatever it returns: ids may be lost, an event that continues its
  chain may be appended for a duplicate or a failure, or a request, its result, its proof and its event
  are inserted together.\<close>

theorem service_refines_steps:
  assumes "metrics_ok (sv_metrics st)"
  shows "store_step\<^sup>*\<^sup>* (sv_db st) (sv_db (snd (calculate_and_persist env ri v st)))"
  using call_outcome [OF assms, of env ri v] by (cases "calculate_and_persist env ri v st") auto

theorem service_refines_steps_witness:
  "store_step\<^sup>*\<^sup>* empty_db
    (sv_db (snd (calculate_and_persist sample_env sample_run (request_payload sample_request) fresh_service)))"
  using service_refines_steps [OF fresh_metrics_ok] by (simp add: fresh_service_def)

text \<open>C21: persisting is all or nothing: a call that returns evidence has added one request, one result, one proof and one
  event, those it returns.  A call that raises has left the three tables as they were and has added at most one event, a
  refused duplicate or a failure, unless the error of an attempt came after the server had committed (the answer or the
  release of the connection): then the one request, its result, its proof and its event may have been added, all four, and
  the only other events are refusals and failures.\<close>

theorem persist_is_atomic:
  assumes "metrics_ok (sv_metrics st)" "calculate_and_persist env ri v st = (r, st')"
  shows "case r of Inr ps \<Rightarrow> one_more (sv_db st) (sv_db st') (ps_evidence ps)
    | Inl e \<Rightarrow> only_refusals (Some 1) (sv_db st) (sv_db st')
        \<or> answer_lost ri \<and> (\<exists>mid. (mid = sv_db st \<or> (\<exists>ev. one_more (sv_db st) mid ev)) \<and> only_refusals None mid (sv_db st'))"
proof -
  have d: "consistent_draft d" if "fst (prepare_evidence env now q l) = Inr d" for now q l d
    using prepare_evidence_draft [OF that] draft_consistent by metis
  show ?thesis
  proof (cases r)
    case (Inl e)
    from calculate_and_persist_outcome [OF assms] consider "sv_db st' = sv_db st"
      | c d where "consistent_draft d" "service_outcome ri c d (sv_db st) (Inl e) (sv_db st')" using d Inl by blast
    then show ?thesis
    proof cases
      case 1
      then show ?thesis using Inl by (simp add: only_refusals_def)
    next
      case 2
      then show ?thesis using refused_outcome Inl by simp
    qed
  next
    case (Inr ps)
    then obtain c d where "consistent_draft d" "service_outcome ri c d (sv_db st) (Inr ps) (sv_db st')"
      using calculate_and_persist_outcome [OF assms] d by blast
    then show ?thesis using Inr persisted_outcome by simp
  qed
qed

text \<open>A run in which the connection breaks after the commit of the first attempt: the call raises although everything is
  stored, and logs a failure beside the persisted calculation.\<close>

definition lost_run :: run_inputs where
  "lost_run = sample_run\<lparr>ri_faults := \<lambda>_. (\<lambda>_. None)(7 := Some (DatabaseError ''connection was closed''))\<rparr>"

lemma lost_answer_commits:
  assumes "metrics_ok (sv_metrics st)" "sv_configured st" "wf_pyv v" "validate_request (ze_int_of env) v = Inr q"
    and "ze_int_of env (PInt (quantity q)) = Some (quantity q)" "prepare_evidence env (ri_now ri) q (sv_keys st) = (Inr d, l)"
    and "insertable d (sv_db st)" "ri_faults ri 1 = (\<lambda>_. None)(7 := Some (DatabaseError m))"
  shows "\<exists>e st'. calculate_and_persist env ri v st = (Inl e, st')
    \<and> db_requests (sv_db st') = db_requests (sv_db st) @ [ed_request_record d]"
proof -
  have sd: "sound_draft env q d" using prepared_draft assms(6) by (metis fst_conv)
  then have bd: "map_of (ed_bundle d) ''proof'' = Some (canonical_proof_payload (ed_proof d))" by (simp add: sound_draft_def)
  obtain c where c: "chain_id_for_input (rq_input_hash (ed_request_record d)) = Inr c" "0 \<le> c" "c < 64"
    by (rule draft_chain_id [OF sd validate_request_valid [OF assms(3,4)] assms(5)])
  obtain st1 where st1: "calculate_and_persist env ri v st = try_attempts ri c d [1..max_transaction_retries] st1"
    "sv_db st1 = sv_db st" "metrics_ok (sv_metrics st1)"
    by (rule prepared_call [OF assms(1,2,4,6) c(1)])
  have ins: "insertable d (sv_db st1)" using assms(7) st1(2) by simp
  obtain ps db where t: "transaction (persist_body (ri_now ri) c d) (ri_faults ri 1) (sv_db st1) = (Inl (DatabaseError m), db)"
    "persisted_state (ri_now ri) c d (sv_db st1) ps db"
    by (rule persist_runs [OF ins bd, of "ri_faults ri 1" "ri_now ri" c]) (simp_all add: assms(8))
  obtain st2 where st2: "persist_attempt ri c d 1 st1 = (Inl (DatabaseError m), st2)" "sv_db st2 = db" "metrics_ok (sv_metrics st2)"
    using persist_attempt_result [OF st1(3) c(2,3) t(1)] by (auto simp: attempt_result_def)
  let ?g = "\<lambda>_. service_bind (log_failure_event ri c d (error_text (DatabaseError m)))
    (\<lambda>_. service_return (Inl (DatabaseError m) :: persisted_response result))"
  obtain st3 where st3: "recounted st2 st3" "service_bind (counted (record_error c)) ?g st2 = ?g () st3"
    using counted_bind [OF records_count(4) [OF c(2,3)], of st2 ?g] st2(3) by blast
  obtain r st' where r: "?g () st3 = (r, st')" by fastforce
  have "[1..max_transaction_retries] = 1 # [2..5]" by (simp add: max_transaction_retries_def upto_rec1)
  then have "calculate_and_persist env ri v st = (r, st')" using st1(1) st2(1) st3(2) r by simp
  moreover have "isl r" "db_requests (sv_db st') = db_requests db"
    using log_failure_outcome [OF r] recounted_facts(1) [OF st3(1)] st2(2)
    by (auto simp: same_rows_def failed_state_def insert_event_def Let_def)
  moreover have "db_requests db = db_requests (sv_db st) @ [ed_request_record d]"
    using t(2) st1(2) by (auto simp: persisted_state_def insert_event_def insert_records_def Let_def)
  ultimately show ?thesis by (cases r) auto
qed

theorem persist_is_atomic_witness:
  "(\<exists>e. one_more empty_db (sv_db (snd (calculate_and_persist sample_env sample_run (request_payload sample_request) fresh_service))) e)
   \<and> (\<exists>x st' mid e. calculate_and_persist sample_env lost_run (request_payload sample_request) fresh_service = (Inl x, st')
        \<and> one_more empty_db mid e \<and> only_refusals None mid (sv_db st'))"
proof
  obtain ps st' where c: "calculate_and_persist sample_env sample_run (request_payload sample_request) fresh_service = (Inr ps, st')"
    by (rule sample_call)
  then show "\<exists>e. one_more empty_db (sv_db (snd (calculate_and_persist sample_env sample_run (request_payload sample_request) fresh_service))) e"
    using persist_is_atomic [OF fresh_metrics_ok c] by (auto simp: fresh_service_def)
  have v: "validate_request (ze_int_of sample_env) (request_payload sample_request) = Inr sample_request"
    "ze_int_of sample_env (PInt (quantity sample_request)) = Some (quantity sample_request)"
    using sample_revalidates(1) sample_int_quantity by (simp_all add: sample_env_fields)
  obtain d l where d: "prepare_evidence sample_env (ri_now lost_run) sample_request (sv_keys fresh_service) = (Inr d, l)"
    by (rule sample_draft)
  have f: "insertable d (sv_db fresh_service)" "sv_configured fresh_service" "sv_db fresh_service = empty_db"
    by (simp_all add: insertable_def has_input_hash_def unique_violation_def fresh_service_def empty_db_def)
  have "ri_faults lost_run 1 = (\<lambda>_. None)(7 := Some (DatabaseError ''connection was closed''))" by (simp add: lost_run_def)
  then obtain x st' where l: "calculate_and_persist sample_env lost_run (request_payload sample_request) fresh_service = (Inl x, st')"
    "db_requests (sv_db st') \<noteq> []"
    using lost_answer_commits [where env = sample_env, OF fresh_metrics_ok f(2) sample_revalidates(2) v d f(1)] by fastforce
  have "\<not> only_refusals n empty_db (sv_db st')" for n using l(2) by (auto simp: only_refusals_def empty_db_def)
  then show "\<exists>x st' mid e. calculate_and_persist sample_env lost_run (request_payload sample_request) fresh_service = (Inl x, st')
      \<and> one_more empty_db mid e \<and> only_refusals None mid (sv_db st')"
    using persist_is_atomic [OF fresh_metrics_ok l(1)] l(1) f(3) by auto
qed

text \<open>Evidence that a call has persisted verifies for ever: after any further calls, with any faults, the
  verification of the same request reads the three stored records back and gives VALID, and so does the audit
  chain.  pydantic must read the two dumps of a response back, and the native backend must return its proof
  in ASCII.\<close>

theorem persisted_evidence_verifies:
  assumes "metrics_ok (sv_metrics st)" "store_ok (sv_db st)" "calculate_and_persist env ri v st = (Inr ps, st')"
    and "wf_pyv v" "validate_request (ze_int_of env) v = Inr q" "ze_int_of env (PInt (quantity q)) = Some (quantity q)"
    and "ze_int_of env (PInt 1) = Some 1" "reads_back env (ps_response ps)"
    and "is_ascii (bundled_blob (pr_proof_bundle (eb_proof (ps_evidence ps))))"
  shows "\<exists>pv e. fst (verify_persisted env now (\<lambda>_. None) (\<lambda>_. None) v (serve calls st')) = Inr pv
    \<and> vr_status (pv_verification pv) = ''VALID'' \<and> ac_status (pv_audit_chain pv) = ''VALID'' \<and> pv_evidence pv = Some e
    \<and> eb_request e = eb_request (ps_evidence ps) \<and> eb_result e = eb_result (ps_evidence ps) \<and> eb_proof e = eb_proof (ps_evidence ps)"
proof -
  obtain c d where d: "sound_draft env q d" "service_outcome ri c d (sv_db st) (Inr ps) (sv_db st')" "consistent_draft d"
    by (rule persisted_call [OF assms(1,5,3)])
  note o = call_outcome [OF assms(1,3)] and p = persisted_stores [OF d(3,2)]
  let ?st = "serve calls st'"
  have ok: "store_ok (sv_db st')" using o store_steps_ok assms(2) by blast
  have s: "store_step\<^sup>*\<^sup>* (sv_db st') (sv_db ?st)" using serve_steps [of st' calls] o by blast
  have st: "store_ok (sv_db ?st)" "stores_draft d (sv_db ?st)"
    using store_steps_ok [OF s ok] p store_steps_keep [OF s] by (auto simp: stores_draft_def keeps_rows_def)
  have "sv_configured st" using assms(3)
    by (auto simp: calculate_and_persist_def require_repository_def service_bind_def split: if_splits)
  then have conf: "sv_configured ?st" using steady_serve steady_calculate assms(3) unfolding steady_def by (metis snd_conv)
  have "bundled_blob (pr_proof_bundle (eb_proof (ps_evidence ps))) = pa_proof_blob_hex (ed_proof d)"
    using p d(1) bundled_blob_canonical unfolding sound_draft_def holds_draft_def by (metis draft_of_fields(12))
  then have blob: "is_ascii (pa_proof_blob_hex (ed_proof d))" using assms(9) by simp
  have rb: "reads_back env (ed_response d)" using assms(8) p by simp
  obtain pv e where "fst (verify_persisted env now (\<lambda>_. None) (\<lambda>_. None) v ?st) = Inr pv"
    "vr_status (pv_verification pv) = ''VALID''" "pv_evidence pv = Some e" "holds_draft d e"
    "ac_status (pv_audit_chain pv) = ''VALID''"
    by (rule verify_persisted_draft [OF st(1) conf st(2) d(1) assms(4,5,6,7) rb blob])
  then show ?thesis using p by (auto simp: holds_draft_def)
qed

theorem persisted_evidence_verifies_witness:
  "\<exists>pv e. fst (verify_persisted sample_env ''t'' (\<lambda>_. None) (\<lambda>_. None) (request_payload sample_request)
      (snd (calculate_and_persist sample_env sample_run (request_payload sample_request) fresh_service))) = Inr pv
    \<and> vr_status (pv_verification pv) = ''VALID'' \<and> pv_evidence pv = Some e"
proof -
  obtain ps st' where c: "calculate_and_persist sample_env sample_run (request_payload sample_request) fresh_service = (Inr ps, st')"
    "ps_response ps = sample_response" "is_ascii (bundled_blob (pr_proof_bundle (eb_proof (ps_evidence ps))))"
    by (rule sample_call)
  have s: "store_ok (sv_db fresh_service)" using empty_store_ok by (simp add: fresh_service_def)
  have q: "validate_request (ze_int_of sample_env) (request_payload sample_request) = Inr sample_request"
    "ze_int_of sample_env (PInt (quantity sample_request)) = Some (quantity sample_request)" "ze_int_of sample_env (PInt 1) = Some 1"
    "reads_back sample_env (ps_response ps)"
    using sample_revalidates(1) sample_int_quantity c(2) sample_env_fields(5) by (simp_all add: sample_env_fields sample_int_def)
  show ?thesis
    using persisted_evidence_verifies [where env = sample_env and calls = "[]" and now = "''t''",
      OF fresh_metrics_ok s c(1) sample_revalidates(2) q(1-4) c(3)] c(1) by auto
qed

text \<open>C22: deadlocks and serialization failures are absorbed: a new calculation whose first attempts, at most four, each fail
  before the server has committed, with no other errors than these at any of their statements, is persisted by the first
  attempt that has none.\<close>

theorem retries_absorb_faults:
  assumes "metrics_ok (sv_metrics st)" "sv_configured st" "wf_pyv v" "validate_request (ze_int_of env) v = Inr q"
    and "ze_int_of env (PInt (quantity q)) = Some (quantity q)" "prepare_evidence env (ri_now ri) q (sv_keys st) = (Inr d, l)"
    and "insertable d (sv_db st)" "1 \<le> k" "k \<le> 5" "no_fault ri k" "\<forall>j \<in> {1..<k}. retryable_fault ri j"
  shows "\<exists>ps. fst (calculate_and_persist env ri v st) = Inr ps"
  by (rule persisted_in_spite_of_faults [OF assms])

theorem retries_absorb_faults_witness:
  "\<exists>ps. fst (calculate_and_persist sample_env sample_run (request_payload sample_request) fresh_service) = Inr ps"
proof -
  have v: "validate_request (ze_int_of sample_env) (request_payload sample_request) = Inr sample_request"
    "ze_int_of sample_env (PInt (quantity sample_request)) = Some (quantity sample_request)"
    using sample_revalidates(1) sample_int_quantity by (simp_all add: sample_env_fields)
  obtain d l where d: "prepare_evidence sample_env (ri_now sample_run) sample_request (sv_keys fresh_service) = (Inr d, l)"
    by (rule sample_draft)
  have f: "insertable d (sv_db fresh_service)" "sv_configured fresh_service"
    by (simp_all add: insertable_def has_input_hash_def unique_violation_def fresh_service_def empty_db_def)
  have n: "no_fault sample_run 3" by (simp add: no_fault_def sample_run_def)
  have r: "\<forall>j \<in> {1..<3}. retryable_fault sample_run j"
    by (auto simp: retryable_fault_def first_fault_def sample_run_def intro!: exI [of _ 4])
  show ?thesis
    by (rule retries_absorb_faults [where env = sample_env, OF fresh_metrics_ok f(2) sample_revalidates(2) v d f(1) _ _ n r]) simp_all
qed

text \<open>C23: the second persisting of a calculation is refused: when the input hash is stored and the first attempt meets no
  fault, the call raises \<open>DuplicateInputHashError\<close>, and all it leaves is one committed event for the request.\<close>

theorem duplicate_rejected:
  assumes "metrics_ok (sv_metrics st)" "sv_configured st" "wf_pyv v" "validate_request (ze_int_of env) v = Inr q"
    and "ze_int_of env (PInt (quantity q)) = Some (quantity q)" "prepare_evidence env (ri_now ri) q (sv_keys st) = (Inr d, l)"
    and "has_input_hash (rq_input_hash (ed_request_record d)) (sv_db st)" "no_fault ri 1"
  shows "\<exists>st' e. calculate_and_persist env ri v st = (Inl (DuplicateInputHashError (duplicate_message (rq_input_hash (ed_request_record d)))), st')
    \<and> sv_db st' = snd (insert_event e (sv_db st)) \<and> ae_event_type e = ''calculation_rejected_duplicate''
    \<and> ae_reference_id e = Some (rq_id (ed_request_record d))"
proof -
  have sd: "sound_draft env q d" using prepared_draft assms(6) by (metis fst_conv)
  obtain c where c: "chain_id_for_input (rq_input_hash (ed_request_record d)) = Inr c" "0 \<le> c" "c < 64"
    by (rule draft_chain_id [OF sd validate_request_valid [OF assms(3,4)] assms(5)])
  obtain st1 where st1: "calculate_and_persist env ri v st = try_attempts ri c d [1..max_transaction_retries] st1"
    "sv_db st1 = sv_db st" "metrics_ok (sv_metrics st1)"
    by (rule prepared_call [OF assms(1,2,4,6) c(1)])
  have "\<not> has_float (PDict (duplicate_payload (rq_input_hash (ed_request_record d))))" by (simp add: duplicate_payload_def)
  then obtain e where e: "next_event ''calculation_rejected_duplicate'' (rq_id (ed_request_record d))
      (duplicate_payload (rq_input_hash (ed_request_record d))) c (ri_now ri) (sv_db st) = Inr e"
    unfolding next_event_def by (rule event_total) blast
  have t: "transaction (persist_body (ri_now ri) c d) (ri_faults ri 1) (sv_db st1) = (Inr None, snd (insert_event e (sv_db st)))"
    using assms(7,8) e st1(2)
    by (simp add: transaction_def persist_body_def reject_duplicate_def session_bind_def session_return_def acquire_audit_chain_lock_def
        fetch_latest_audit_hash_for_chain_def check_duplicate_def insert_audit_event_def statement_def next_event_def insert_event_def
        no_fault_def Let_def)
  obtain st' where "persist_attempt ri c d 1 st1 = (attempt_result d (Inr None), st')" "sv_db st' = snd (insert_event e (sv_db st))"
    using persist_attempt_result [OF st1(3) c(2,3) t] by blast
  moreover have "[1..max_transaction_retries] = 1 # [2..5]" by (simp add: max_transaction_retries_def upto_rec1)
  ultimately show ?thesis using st1(1) next_event_fields [OF e] by (auto simp: attempt_result_def)
qed

theorem duplicate_rejected_witness:
  "\<exists>st st' m. fst (calculate_and_persist sample_env (sample_run\<lparr>ri_faults := \<lambda>_ _. None\<rparr>) (request_payload sample_request) st)
      = Inl (DuplicateInputHashError m) \<and> db_requests (sv_db st) \<noteq> []"
proof -
  let ?ri = "sample_run\<lparr>ri_faults := \<lambda>_ _. None\<rparr>"
  obtain d l where d: "prepare_evidence sample_env (ri_now ?ri) sample_request (sv_keys fresh_service) = (Inr d, l)"
    by (rule sample_draft)
  let ?st = "fresh_service\<lparr>sv_db := empty_db\<lparr>db_requests := [ed_request_record d]\<rparr>\<rparr>"
  have v: "validate_request (ze_int_of sample_env) (request_payload sample_request) = Inr sample_request"
    "ze_int_of sample_env (PInt (quantity sample_request)) = Some (quantity sample_request)"
    using sample_revalidates(1) sample_int_quantity by (simp_all add: sample_env_fields)
  have st: "metrics_ok (sv_metrics ?st)" "sv_configured ?st" "has_input_hash (rq_input_hash (ed_request_record d)) (sv_db ?st)"
    "prepare_evidence sample_env (ri_now ?ri) sample_request (sv_keys ?st) = (Inr d, l)" "no_fault ?ri 1"
    using fresh_metrics_ok d by (simp_all add: has_input_hash_def no_fault_def) (simp add: fresh_service_def)
  obtain st' where "calculate_and_persist sample_env ?ri (request_payload sample_request) ?st
      = (Inl (DuplicateInputHashError (duplicate_message (rq_input_hash (ed_request_record d)))), st')"
    using duplicate_rejected [where env = sample_env and ri = ?ri, OF st(1,2) sample_revalidates(2) v st(4,3,5)] by blast
  moreover have "db_requests (sv_db ?st) \<noteq> []" by simp
  ultimately show ?thesis by (metis fst_conv)
qed

lemma expected_hashes_length: "length bundle_keys = length (expected_hashes k circuit_h vk_h)"
  by (simp add: bundle_keys_def expected_hashes_def)

text \<open>C24: a valid proof bundle is bound to each of its five hashes: replacing the input, output, trace, circuit or
  verification key hash by any other text makes the offline verification fail.\<close>

theorem bundle_hashes_bound:
  assumes "bv_valid (fst (verify_proof_bundle env now b l))" "k \<in> set bundle_keys" "map_of b k \<noteq> Some (PStr h)"
  shows "\<not> bv_valid (fst (verify_proof_bundle env now' (AList.update k (PStr h) b) l'))"
proof
  let ?b = "AList.update k (PStr h) b"
  assume "bv_valid (fst (verify_proof_bundle env now' ?b l'))"
  then obtain input kt vk_h where u: "key_of ?b ''input'' = Inr input" "packet_for env input ''proof_bundle_verify'' = Inr kt"
    "manifest_hash env = Inr vk_h"
    "list_all (\<lambda>(k, e). map_of ?b k = Some (PStr e) \<and> is_ascii e) (zip bundle_keys (expected_hashes kt circuit_hash vk_h))"
    unfolding verify_proof_bundle_valid verify_bundle_body_valid bundle_matches_all by blast
  obtain input' kt' vk_h' where v: "key_of b ''input'' = Inr input'" "packet_for env input' ''proof_bundle_verify'' = Inr kt'"
    "manifest_hash env = Inr vk_h'"
    "list_all (\<lambda>(k, e). map_of b k = Some (PStr e) \<and> is_ascii e) (zip bundle_keys (expected_hashes kt' circuit_hash vk_h'))"
    using assms(1) unfolding verify_proof_bundle_valid verify_bundle_body_valid bundle_matches_all by blast
  have "''input'' \<notin> set bundle_keys" by (simp add: bundle_keys_def)
  then have "k \<noteq> ''input''" using assms(2) by blast
  then have "key_of ?b ''input'' = key_of b ''input''" by (simp add: key_of_def update_conv')
  then have "kt = kt'" "vk_h = vk_h'" using u v by auto
  moreover obtain e where "(k, e) \<in> set (zip bundle_keys (expected_hashes kt circuit_hash vk_h))"
    using in_set_impl_in_set_zip1 [OF _ assms(2)] by (metis (no_types) expected_hashes_length)
  ultimately have "map_of ?b k = Some (PStr e)" "map_of b k = Some (PStr e)"
    using u(4) v(4) unfolding list_all_iff by blast+
  then show False using assms(3) by (simp add: update_conv')
qed

theorem bundle_hashes_bound_witness:
  "\<exists>b h. bv_valid (fst (verify_proof_bundle (export_env.truncate sample_env) [] b empty_key_log))
    \<and> \<not> bv_valid (fst (verify_proof_bundle (export_env.truncate sample_env) [] (AList.update ''output_hash'' (PStr h) b) empty_key_log))"
proof -
  obtain d l1 where d: "prepare_evidence sample_env ''t'' sample_request empty_key_log = (Inr d, l1)" by (rule sample_draft)
  then have "sound_draft sample_env sample_request d" using prepared_draft by (metis fst_conv)
  then have v: "bv_valid (fst (verify_proof_bundle (export_env.truncate sample_env) [] (ed_bundle d) empty_key_log))"
    unfolding sound_draft_def using bundle_valid_any by blast
  have k: "''output_hash'' \<in> set bundle_keys" by (simp add: bundle_keys_def)
  have "map_of (ed_bundle d) ''output_hash'' \<noteq> Some (PStr []) \<or> map_of (ed_bundle d) ''output_hash'' \<noteq> Some (PStr ''x'')" by auto
  then obtain h where "map_of (ed_bundle d) ''output_hash'' \<noteq> Some (PStr h)" by blast
  then show ?thesis using bundle_hashes_bound [OF v k] v by blast
qed

end
