(* ===== verification/Dataset_Export.thy ===== *)
theory Dataset_Export
  imports Evidence_Verification
begin

text \<open>
  Which stored evidence the training data set exports: what is checked of an exported record, and
  what is not.
\<close>

subsection \<open>When a record is built\<close>

definition eligible :: "evidence_env \<Rightarrow> evidence_bundle \<Rightarrow> bool" where
  "eligible env e \<longleftrightarrow> pr_proof_verified (eb_proof e) \<and> pr_proof_system (eb_proof e) = ''plonk''
     \<and> bv_valid (fst (verify_proof_bundle (export_env.truncate env) [] (pr_proof_bundle (eb_proof e)) empty_key_log))"

definition record_from :: "evidence_env \<Rightarrow> evidence_bundle \<Rightarrow> calculation_response \<Rightarrow> training_record result" where
  "record_from env e resp =
     rbind (packet_for (export_env.truncate env) (rq_raw_input (eb_request e)) ''verified_dataset_export'') (\<lambda>k.
     rbind (rbind (key_of (pr_proof_bundle (eb_proof e)) ''proof'') (parse_proof (ze_int_of env))) (\<lambda>p.
     rbind (check_evidence e k p) (\<lambda>_.
     build_verified_training_record \<lparr>ps_response = resp, ps_evidence = e\<rparr> p (wa_witness_hash (tp_witness_artifact k))
       (pr_verification_key_hash (eb_proof e)) (pr_proof_bundle (eb_proof e)))))"

text \<open>Neither the clock nor the log of key events decides.\<close>

lemma from_evidence_iff:
  "fst (build_verified_training_record_from_evidence env now e l) = Inr r \<longleftrightarrow>
     eligible env e \<and> (\<exists>resp. ve_parse_response env (rr_raw_output (eb_result e)) = Inr resp \<and> record_from env e resp = Inr r)"
proof -
  obtain v l' where v: "verify_proof_bundle (export_env.truncate env) now (pr_proof_bundle (eb_proof e)) l = (v, l')" by fastforce
  then have "bv_valid v \<longleftrightarrow> bv_valid (fst (verify_proof_bundle (export_env.truncate env) [] (pr_proof_bundle (eb_proof e)) empty_key_log))"
    using bundle_valid_any by (metis fst_conv)
  then show ?thesis
    using v by (auto simp: build_verified_training_record_from_evidence_def eligible_def record_from_def rbind_Inr_iff Let_def)
qed

lemma require_equal_Inr: "require_equal m a b = Inr u \<longleftrightarrow> a = b \<and> is_ascii a"
  by (auto simp: require_equal_def constant_time_equal_def rbind_def split: if_splits)

lemma record_from_facts:
  assumes "record_from env e resp = Inr r"
  obtains k where "packet_for (export_env.truncate env) (rq_raw_input (eb_request e)) ''verified_dataset_export'' = Inr k"
    "ia_input_hash (rs_integrity (tp_response k)) = rq_input_hash (eb_request e)"
    "ia_output_hash (rs_integrity (tp_response k)) = rr_output_hash (eb_result e)"
    "ia_trace_hash (rs_integrity (tp_response k)) = pr_trace_hash (eb_proof e)"
    "vt_verification_status r = ''VERIFIED''" "vt_request_id r = rq_id (eb_request e)" "vt_proof_id r = pr_id (eb_proof e)"
    "vt_result_payload r = rs_result resp" "vt_trace r = rs_trace resp" "vt_input_hash r = ia_input_hash (rs_integrity resp)"
  using assms by (auto simp: record_from_def check_evidence_def require_equal_Inr rbind_Inr_iff build_verified_training_record_def
      Let_def split: if_splits)

definition vouched :: "evidence_env \<Rightarrow> evidence_bundle \<Rightarrow> training_record \<Rightarrow> bool" where
  "vouched env e r \<longleftrightarrow> (\<exists>k. eligible env e \<and> vt_request_id r = rq_id (eb_request e)
        \<and> packet_for (export_env.truncate env) (rq_raw_input (eb_request e)) ''verified_dataset_export'' = Inr k
        \<and> ia_input_hash (rs_integrity (tp_response k)) = rq_input_hash (eb_request e)
        \<and> ia_output_hash (rs_integrity (tp_response k)) = rr_output_hash (eb_result e)
        \<and> ia_trace_hash (rs_integrity (tp_response k)) = pr_trace_hash (eb_proof e))"

lemma record_vouched: "eligible env e \<Longrightarrow> record_from env e resp = Inr r \<Longrightarrow> vouched env e r"
  unfolding vouched_def by (erule record_from_facts) blast

text \<open>The result row enters only through its hash.\<close>

lemma record_from_other_result:
  assumes "record_from env e resp = Inr r"
  shows "\<exists>r'. record_from env (e\<lparr>eb_result := (eb_result e)\<lparr>rr_raw_output := raw\<rparr>\<rparr>) resp' = Inr r'"
proof -
  let ?e = "e\<lparr>eb_result := (eb_result e)\<lparr>rr_raw_output := raw\<rparr>\<rparr>"
  obtain k p where k: "packet_for (export_env.truncate env) (rq_raw_input (eb_request e)) ''verified_dataset_export'' = Inr k"
    "rbind (key_of (pr_proof_bundle (eb_proof e)) ''proof'') (parse_proof (ze_int_of env)) = Inr p" "check_evidence e k p = Inr ()"
    "build_verified_training_record \<lparr>ps_response = resp, ps_evidence = e\<rparr> p (wa_witness_hash (tp_witness_artifact k))
       (pr_verification_key_hash (eb_proof e)) (pr_proof_bundle (eb_proof e)) = Inr r"
    using assms by (auto simp: record_from_def rbind_Inr_iff)
  have "check_evidence ?e k p = Inr ()" using k(3) by (simp add: check_evidence_def)
  moreover have "map_of (pr_proof_bundle (eb_proof e)) ''proof'' \<notin> {None, Some PNone}"
    using k(4) by (auto simp: build_verified_training_record_def split: if_splits)
  then have "\<exists>r'. build_verified_training_record \<lparr>ps_response = resp', ps_evidence = ?e\<rparr> p (wa_witness_hash (tp_witness_artifact k))
       (pr_verification_key_hash (eb_proof e)) (pr_proof_bundle (eb_proof e)) = Inr r'"
    by (auto simp: build_verified_training_record_def training_payload_def payload_hash_def canonical_json_text Let_def)
  ultimately show ?thesis using k(1,2) by (auto simp: record_from_def)
qed

subsection \<open>The loop\<close>

lemma export_loop_facts:
  assumes "export_loop env now es rs skipped l = (Inr (rs', skipped'), l')"
  shows "int (length rs') + skipped' = int (length rs) + skipped + int (length es)
    \<and> (\<forall>r \<in> set rs'. r \<in> set rs \<or> (\<exists>e \<in> set es. \<exists>now l. fst (build_verified_training_record_from_evidence env now e l) = Inr r))"
  using assms
proof (induction env now es rs skipped l rule: export_loop.induct)
  case (2 env now e es rs skipped l)
  obtain x l1 where b: "build_verified_training_record_from_evidence env now e l = (x, l1)" by fastforce
  show ?case
  proof (cases x)
    case (Inl err)
    then have "is_value_error err" "export_loop env now es rs (skipped + 1) l1 = (Inr (rs', skipped'), l')"
      using "2.prems" b by (auto split: if_splits)
    then show ?thesis using "2.IH"(1) [OF b [symmetric]] Inl by fastforce
  next
    case (Inr r)
    then have "export_loop env now es (rs @ [r]) skipped l1 = (Inr (rs', skipped'), l')" using "2.prems" b by simp
    moreover have "fst (build_verified_training_record_from_evidence env now e l) = Inr r" using b Inr by simp
    ultimately show ?thesis using "2.IH"(2) [OF b [symmetric]] Inr by fastforce
  qed
qed simp

subsection \<open>Persisted evidence is exported\<close>

lemma stored_draft_exports:
  assumes "sound_draft env q d" "holds_draft d e" "valid_request q"
    and "ze_int_of env (PInt (quantity q)) = Some (quantity q)" "ze_int_of env (PInt 1) = Some 1" "reads_back env (ed_response d)"
  shows "\<exists>r. fst (build_verified_training_record_from_evidence env now e l) = Inr r"
proof -
  let ?xe = "export_env.truncate env" and ?resp = "ed_response d" and ?p = "ed_proof d"
  let ?k = "packet_of q ?resp ''verified_dataset_export'' 1"
  have t: "ze_int_of ?xe = ze_int_of env" "ze_rules ?xe = ze_rules env" "ze_dataset_hash ?xe = ze_dataset_hash env"
    by (simp_all add: export_env.truncate_def)
  obtain now' k vk_h l1 where d: "d = draft_of q ?resp now' k ?p (ed_bundle d) vk_h"
    and c: "calculate_import_landed_cost (ze_int_of env) (ze_rules env) (ze_dataset_hash env) q = Inr ?resp"
    and acc: "plonk_accepts (ze_backend env) ?p" and p: "validate_proof ?p = Inr ?p" "cycle ?p = 1" "is_ascii (pa_final_proof ?p)"
    and bv: "bv_valid (fst (verify_proof_bundle ?xe [] (ed_bundle d) l1))"
    and bd: "map_of (ed_bundle d) ''proof'' = Some (canonical_proof_payload ?p)"
    using assms(1) unfolding sound_draft_def by blast
  have rv: "validate_request (ze_int_of env) (request_payload q) = Inr q"
    by (rule validate_request_payload [where int_of = "ze_int_of env", OF assms(3,4)])
  have i: "rs_integrity ?resp = integrity_of q (rs_result ?resp) (rs_trace ?resp)" by (rule integrity_of_calculation [OF c rv])
  have e: "rq_input_hash (eb_request e) = ia_input_hash (rs_integrity ?resp)" "rq_raw_input (eb_request e) = request_dump q"
    "rr_output_hash (eb_result e) = ia_output_hash (rs_integrity ?resp)" "rr_raw_output (eb_result e) = response_dump ?resp"
    "pr_trace_hash (eb_proof e) = ia_trace_hash (rs_integrity ?resp)" "pr_proof_system (eb_proof e) = pa_proof_system ?p"
    "pr_proof_bundle (eb_proof e) = ed_bundle d" "pr_proof_verified (eb_proof e)" "pr_final_proof (eb_proof e) = pa_final_proof ?p"
    "pr_circuit_hash (eb_proof e) = circuit_hash_of ?p"
    using assms(2) unfolding holds_draft_def by (metis d draft_of_fields request_record.select_convs(2,3))+
  have "eligible env e" using accepted_proof_ascii(1) [OF acc] bv bundle_valid_any by (simp add: eligible_def e) metis
  moreover have "packet_for ?xe (request_dump q) ''verified_dataset_export'' = Inr ?k"
    by (rule packet_for_ok [where env = ?xe, unfolded t, OF validate_request_dump [where int_of = "ze_int_of env", OF assms(3,4)]
        request_dump_wf [OF assms(3)] assms(4) c])
  moreover have "parse_proof (ze_int_of env) (canonical_proof_payload ?p) = Inr ?p"
    by (rule parse_proof_round_trip [where int_of = "ze_int_of env", OF p(1)]) (simp add: p(2) assms(5))
  moreover have "check_evidence e ?k ?p = Inr ()"
    using integrity_ascii [OF i] p(3) accepted_proof_ascii(2) [OF acc]
    by (simp add: check_evidence_def e packet_fields require_equal_def constant_time_equal_same)
  moreover obtain r where "build_verified_training_record \<lparr>ps_response = ?resp, ps_evidence = e\<rparr> ?p (wa_witness_hash (tp_witness_artifact ?k))
      (pr_verification_key_hash (eb_proof e)) (ed_bundle d) = Inr r"
    using training_record_total [OF bd] by blast
  ultimately have "record_from env e ?resp = Inr r" using bd by (simp add: record_from_def e key_of_def)
  then show ?thesis using \<open>eligible env e\<close> assms(6) e(4) unfolding from_evidence_iff reads_back_def by auto
qed

lemma sample_exports:
  obtains e r where "fst (build_verified_training_record_from_evidence sample_env now e l) = Inr r"
    "ve_parse_response sample_env (rr_raw_output (eb_result e)) = Inr sample_response"
proof -
  obtain d l1 where d: "prepare_evidence sample_env ''t'' sample_request empty_key_log = (Inr d, l1)" "ed_response d = sample_response"
    by (rule sample_draft)
  let ?e = "\<lparr>eb_request = ed_request_record d, eb_result = ed_result_record d, eb_proof = ed_proof_record d, eb_audit_log = None\<rparr>"
  have sd: "sound_draft sample_env sample_request d" using prepared_draft d(1) by (metis fst_conv)
  have h: "holds_draft d ?e" by (simp add: holds_draft_def)
  have i: "ze_int_of sample_env (PInt (quantity sample_request)) = Some (quantity sample_request)" "ze_int_of sample_env (PInt 1) = Some 1"
    by (simp_all add: sample_env_fields sample_int_def)
  have rb: "reads_back sample_env (ed_response d)" using d(2) sample_env_fields(5) by simp
  obtain r where r: "fst (build_verified_training_record_from_evidence sample_env now ?e l) = Inr r"
    using stored_draft_exports [OF sd h sample_valid(1) i rb] by blast
  have "rr_raw_output (ed_result_record d) = response_dump sample_response"
    using sd d(2) draft_of_fields(7) unfolding sound_draft_def by metis
  then show thesis using that [OF r] rb d(2) by (simp add: reads_back_def)
qed

section \<open>Properties\<close>

text \<open>C25: every bundle a data set was built from is exported or counted as skipped, and what an exported record is
  checked for: its proof bundle verifies, and the input, output and trace hashes of its rows are those of the
  calculation recomputed from the stored request.\<close>

theorem exported_dataset_sound:
  assumes "export_verified_dataset env now es l = (Inr d, l')"
  shows "vd_total_candidates d = int (length es) \<and> vd_exportable_records d + vd_skipped_records d = vd_total_candidates d
    \<and> vd_exportable_records d = int (length (vd_records d))
    \<and> (\<forall>r \<in> set (vd_records d). \<exists>e \<in> set es. vouched env e r)"
proof -
  obtain rs skipped where x: "export_loop env now es [] 0 l = (Inr (rs, skipped), l')"
    and d: "d = \<lparr>vd_dataset_version = verified_dataset_version, vd_exported_at = now, vd_total_candidates = int (length es),
       vd_exportable_records = int (length rs), vd_skipped_records = skipped, vd_records = rs\<rparr>"
    using assms by (auto simp: export_verified_dataset_def lbind_Inr_iff logged_apply)
  note f = export_loop_facts [OF x]
  have "\<exists>e \<in> set es. vouched env e r" if "r \<in> set rs" for r
  proof -
    obtain e now l where e: "e \<in> set es" "fst (build_verified_training_record_from_evidence env now e l) = Inr r" using f \<open>r \<in> set rs\<close> by auto
    then obtain resp where "eligible env e" "record_from env e resp = Inr r" unfolding from_evidence_iff by blast
    then show ?thesis using e(1) record_vouched by blast
  qed
  then show ?thesis using f by (simp add: d)
qed

theorem exported_dataset_sound_witness:
  "\<exists>e d l'. export_verified_dataset sample_env ''t'' [e] empty_key_log = (Inr d, l')
    \<and> vd_exportable_records d + vd_skipped_records d = 1 \<and> vd_exportable_records d = 1"
proof -
  obtain e r where e: "fst (build_verified_training_record_from_evidence sample_env ''t'' e empty_key_log) = Inr r" by (rule sample_exports)
  then obtain l1 where "build_verified_training_record_from_evidence sample_env ''t'' e empty_key_log = (Inr r, l1)" by (metis prod.collapse)
  then obtain d l' where d: "export_verified_dataset sample_env ''t'' [e] empty_key_log = (Inr d, l')" "vd_records d = [r]"
    by (simp add: export_verified_dataset_def lbind_def logged_apply)
  have "vd_exportable_records d + vd_skipped_records d = 1" "vd_exportable_records d = 1"
    using exported_dataset_sound [OF d(1)] d(2) by simp_all
  then show ?thesis using d(1) by blast
qed

text \<open>The export never compares the stored response with the recomputed one: evidence whose \<open>raw_output\<close> is replaced by
  any other response that validates is exported again, marked VERIFIED, with the result, the trace and the hashes
  of the replacement.\<close>

theorem export_ignores_stored_result:
  assumes "fst (build_verified_training_record_from_evidence env now e l) = Inr r" "ve_parse_response env raw = Inr resp"
  shows "\<exists>r'. fst (build_verified_training_record_from_evidence env now (e\<lparr>eb_result := (eb_result e)\<lparr>rr_raw_output := raw\<rparr>\<rparr>) l) = Inr r'
    \<and> vt_verification_status r' = ''VERIFIED'' \<and> vt_result_payload r' = rs_result resp \<and> vt_trace r' = rs_trace resp
    \<and> vt_input_hash r' = ia_input_hash (rs_integrity resp)"
proof -
  let ?e = "e\<lparr>eb_result := (eb_result e)\<lparr>rr_raw_output := raw\<rparr>\<rparr>"
  obtain resp0 where "eligible env e" "record_from env e resp0 = Inr r" using assms(1) unfolding from_evidence_iff by blast
  moreover obtain r' where r': "record_from env ?e resp = Inr r'" using record_from_other_result calculation(2) by blast
  moreover have "eligible env ?e" using calculation(1) by (simp add: eligible_def)
  ultimately have "fst (build_verified_training_record_from_evidence env now ?e l) = Inr r'"
    unfolding from_evidence_iff using assms(2) by auto
  then show ?thesis using record_from_facts [OF r'] by metis
qed

text \<open>A stored result that claims the landed cost is zero.\<close>

definition forged_response :: calculation_response where
  "forged_response = sample_response\<lparr>rs_result := (rs_result sample_response)\<lparr>cr_landed_cost := cents 0\<rparr>\<rparr>"

definition lax_env :: evidence_env where
  "lax_env = sample_env\<lparr>ve_parse_response := (\<lambda>v. if v = PStr ''forged'' then Inr forged_response else ve_parse_response sample_env v)\<rparr>"

theorem export_ignores_stored_result_witness:
  "\<exists>e r'. fst (build_verified_training_record_from_evidence lax_env ''t'' e empty_key_log) = Inr r'
    \<and> vt_verification_status r' = ''VERIFIED'' \<and> cr_landed_cost (vt_result_payload r') = cents 0"
proof -
  have t: "export_env.truncate lax_env = export_env.truncate sample_env" "ze_int_of lax_env = ze_int_of sample_env"
    by (simp_all add: lax_env_def export_env.truncate_def)
  obtain e r where e: "fst (build_verified_training_record_from_evidence sample_env ''t'' e empty_key_log) = Inr r"
    "ve_parse_response sample_env (rr_raw_output (eb_result e)) = Inr sample_response" by (rule sample_exports)
  then have "record_from lax_env e sample_response = Inr r" "eligible lax_env e"
    unfolding from_evidence_iff by (simp_all add: record_from_def eligible_def t)
  moreover have "ve_parse_response lax_env (rr_raw_output (eb_result e)) = Inr sample_response"
    using e(2) by (auto simp: lax_env_def sample_env_def response_dump_def response_payload_def split: if_splits)
  ultimately have l: "fst (build_verified_training_record_from_evidence lax_env ''t'' e empty_key_log) = Inr r"
    unfolding from_evidence_iff by blast
  have "ve_parse_response lax_env (PStr ''forged'') = Inr forged_response" by (simp add: lax_env_def)
  then show ?thesis using export_ignores_stored_result [OF l] by (force simp: forged_response_def)
qed

end
