(* ===== verification/Proof_Queue.thy ===== *)
theory Proof_Queue
  imports Plonk_Verifier
begin

text \<open>
  \<open>backend/proof_queue.py\<close>: the queue that builds and verifies PLONK proofs in the background.  Its
  state is the list of events, the lines of the log file, the jobs the executor has not started, the
  job of its one worker, and the log of key events.  Readings of the clock are kept as the text that
  \<open>str\<close> gives, since they are only stored and printed.  Whether the log file can be written is an
  argument of every operation that appends an event.
\<close>

subsection \<open>Data\<close>

datatype task_state = Pending | Processing | Completed | Failed

fun state_text :: "task_state \<Rightarrow> string" where
  "state_text Pending = ''pending''"
| "state_text Processing = ''processing''"
| "state_text Completed = ''completed''"
| "state_text Failed = ''failed''"

record proof_task =
  pq_task_id :: string
  pq_witness_artifact_id :: string
  pq_circuit_artifact_id :: string
  pq_trace_hash :: string
  pq_input_hash :: string
  pq_created_at :: string
  pq_status :: task_state
  pq_result :: "proof_artifact option"
  pq_verification :: "verdict_artifact option"
  pq_error :: "string option"
  pq_elapsed_ms :: "string option"

record queue_job =
  jb_task :: proof_task
  jb_witness :: witness_artifact
  jb_produced_by :: string
  jb_cycle :: int
  jb_auto_verify :: bool

record proof_queue =
  qs_events :: "proof_task list"
  qs_log :: "string list"
  qs_jobs :: "queue_job list"
  qs_running :: "queue_job option"
  qs_keys :: key_log

definition empty_queue :: "key_log \<Rightarrow> proof_queue" where
  "empty_queue keys = \<lparr>qs_events = [], qs_log = [], qs_jobs = [], qs_running = None, qs_keys = keys\<rparr>"

subsection \<open>Events\<close>

definition optional :: "('a \<Rightarrow> pyv) \<Rightarrow> 'a option \<Rightarrow> pyv" where
  "optional f x = (case x of None \<Rightarrow> PNone | Some v \<Rightarrow> f v)"

definition task_payload :: "proof_task \<Rightarrow> pyv" where
  "task_payload t = PDict [(''task_id'', PStr (pq_task_id t)), (''witness_artifact_id'', PStr (pq_witness_artifact_id t)),
     (''circuit_artifact_id'', PStr (pq_circuit_artifact_id t)), (''trace_hash'', PStr (pq_trace_hash t)),
     (''input_hash'', PStr (pq_input_hash t)), (''created_at'', PStr (pq_created_at t)),
     (''status'', PStr (state_text (pq_status t))),
     (''result'', optional (\<lambda>p. model_dump (AProof p)) (pq_result t)),
     (''verification'', optional (\<lambda>v. model_dump (AVerdict v)) (pq_verification t)),
     (''error'', optional PStr (pq_error t)), (''elapsed_ms'', optional PStr (pq_elapsed_ms t))]"

text \<open>The event is in the list before the log file is opened.\<close>

definition append_task_event :: "bool \<Rightarrow> proof_task \<Rightarrow> proof_queue \<Rightarrow> unit result \<times> proof_queue" where
  "append_task_event writable t q =
     (let q' = q\<lparr>qs_events := qs_events q @ [t]\<rparr> in
      if \<not> writable then (Inl (OSError ''proof_queue.jsonl''), q')
      else (case canonical_json (task_payload t) of
          Inl e \<Rightarrow> (Inl e, q')
        | Inr line \<Rightarrow> (Inr (), q'\<lparr>qs_log := qs_log q' @ [line]\<rparr>)))"

definition latest_for :: "proof_task list \<Rightarrow> string \<Rightarrow> proof_task option" where
  "latest_for es tid = find (\<lambda>t. pq_task_id t = tid) (rev es)"

definition get_task :: "proof_queue \<Rightarrow> string \<Rightarrow> proof_task option" where
  "get_task q tid = latest_for (qs_events q) tid"

subsection \<open>Submission\<close>

definition task_id_payload :: "witness_artifact \<Rightarrow> string \<Rightarrow> string \<Rightarrow> int \<Rightarrow> string \<Rightarrow> pyv" where
  "task_id_payload w trace_h producer cyc circuit_h = PDict [(''witness_artifact_id'', PStr (artifact_id w)),
     (''trace_hash'', PStr trace_h), (''produced_by'', PStr producer), (''cycle'', PInt cyc),
     (''circuit_hash'', PStr circuit_h)]"

definition pending_task :: "string \<Rightarrow> witness_artifact \<Rightarrow> string \<Rightarrow> string \<Rightarrow> string \<Rightarrow> proof_task" where
  "pending_task tid w circuit_h trace_h now = \<lparr>pq_task_id = tid, pq_witness_artifact_id = artifact_id w,
     pq_circuit_artifact_id = ''circuit_'' @ take 24 circuit_h, pq_trace_hash = trace_h,
     pq_input_hash = wa_input_hash w, pq_created_at = now, pq_status = Pending, pq_result = None,
     pq_verification = None, pq_error = None, pq_elapsed_ms = None\<rparr>"

text \<open>The first part of \<open>submit\<close>: the task id, and the job unless a task with this id is under way or done.\<close>

definition prepare_submission ::
  "string \<Rightarrow> witness_artifact \<Rightarrow> string \<Rightarrow> string \<Rightarrow> int \<Rightarrow> bool \<Rightarrow> proof_queue \<Rightarrow> (string \<times> queue_job option) result" where
  "prepare_submission now w trace_h producer cyc auto_verify q =
     rbind compile_circuit (\<lambda>c.
     rbind (canonical_json (task_id_payload w trace_h producer cyc (pc_circuit_hash c))) (\<lambda>text.
     let tid = ''proofjob_'' @ take 24 (sha256_hex text) in
     case latest_for (qs_events q) tid of
       Some t \<Rightarrow> if pq_status t \<in> {Pending, Processing, Completed} then Inr (tid, None)
         else Inr (tid, Some \<lparr>jb_task = pending_task tid w (pc_circuit_hash c) trace_h now, jb_witness = w,
           jb_produced_by = producer, jb_cycle = cyc, jb_auto_verify = auto_verify\<rparr>)
     | None \<Rightarrow> Inr (tid, Some \<lparr>jb_task = pending_task tid w (pc_circuit_hash c) trace_h now, jb_witness = w,
           jb_produced_by = producer, jb_cycle = cyc, jb_auto_verify = auto_verify\<rparr>)))"

text \<open>The second part: the pending event, then the executor.\<close>

definition enqueue :: "bool \<Rightarrow> queue_job \<Rightarrow> proof_queue \<Rightarrow> unit result \<times> proof_queue" where
  "enqueue writable j q = (case append_task_event writable (jb_task j) q of
       (Inl e, q') \<Rightarrow> (Inl e, q')
     | (Inr _, q') \<Rightarrow> (Inr (), q'\<lparr>qs_jobs := qs_jobs q' @ [j]\<rparr>))"

definition submit ::
  "bool \<Rightarrow> string \<Rightarrow> witness_artifact \<Rightarrow> string \<Rightarrow> string \<Rightarrow> int \<Rightarrow> bool \<Rightarrow> proof_queue \<Rightarrow> string result \<times> proof_queue" where
  "submit writable now w trace_h producer cyc auto_verify q =
     (case prepare_submission now w trace_h producer cyc auto_verify q of
        Inl e \<Rightarrow> (Inl e, q)
      | Inr (tid, None) \<Rightarrow> (Inr tid, q)
      | Inr (tid, Some j) \<Rightarrow> (case enqueue writable j q of (Inl e, q') \<Rightarrow> (Inl e, q') | (Inr _, q') \<Rightarrow> (Inr tid, q')))"

subsection \<open>The worker\<close>

text \<open>The idle worker takes the next job and records it; an exception here ends the job silently.\<close>

definition start_job :: "bool \<Rightarrow> proof_queue \<Rightarrow> proof_queue" where
  "start_job writable q = (case (qs_running q, qs_jobs q) of
       (None, j # js) \<Rightarrow> (case append_task_event writable ((jb_task j)\<lparr>pq_status := Processing\<rparr>) (q\<lparr>qs_jobs := js\<rparr>) of
           (Inl _, q') \<Rightarrow> q'
         | (Inr _, q') \<Rightarrow> q'\<lparr>qs_running := Some j\<rparr>)
     | _ \<Rightarrow> q)"

definition run_job ::
  "zk_env \<Rightarrow> string \<Rightarrow> queue_job \<Rightarrow> key_log \<Rightarrow> (proof_artifact \<times> verdict_artifact option) result \<times> key_log" where
  "run_job env now j keys =
     (case build_plonk_proof (ze_backend env) (ze_int_of env) (ze_rules env) (ze_dataset_hash env) now (jb_witness j)
          (pq_trace_hash (jb_task j)) (jb_produced_by j) (jb_cycle j) keys of
        (Inl e, keys') \<Rightarrow> (Inl e, keys')
      | (Inr p, keys') \<Rightarrow> if jb_auto_verify j
          then (case verify_plonk_proof (ze_backend env) now p (jb_produced_by j @ ''_verifier'') (jb_cycle j) keys' of
              (Inl e, keys'') \<Rightarrow> (Inl e, keys'') | (Inr v, keys'') \<Rightarrow> (Inr (p, Some v), keys''))
          else (Inr (p, None), keys'))"

definition completed_task :: "proof_task \<Rightarrow> proof_artifact \<Rightarrow> verdict_artifact option \<Rightarrow> string \<Rightarrow> proof_task" where
  "completed_task t p v elapsed = t\<lparr>pq_status := Completed, pq_result := Some p, pq_verification := v,
     pq_elapsed_ms := Some elapsed\<rparr>"

definition failed_task :: "proof_task \<Rightarrow> py_error \<Rightarrow> string \<Rightarrow> proof_task" where
  "failed_task t e elapsed = t\<lparr>pq_status := Failed, pq_error := Some (error_text e), pq_elapsed_ms := Some elapsed\<rparr>"

text \<open>The running job ends: the completed event is inside the \<open>try\<close>, so that an exception while it is logged
  leads to a failed event as well.  Of the two arguments \<open>elapsed\<close> and \<open>writable\<close> the first component is for
  the completed event, the second for the failed one.\<close>

definition finish_job :: "zk_env \<Rightarrow> string \<Rightarrow> string \<times> string \<Rightarrow> bool \<times> bool \<Rightarrow> proof_queue \<Rightarrow> proof_queue" where
  "finish_job env now elapsed writable q = (case qs_running q of
       None \<Rightarrow> q
     | Some j \<Rightarrow> (case run_job env now j (qs_keys q) of (out, keys) \<Rightarrow>
         let q' = q\<lparr>qs_running := None, qs_keys := keys\<rparr>;
             fail = (\<lambda>e q. snd (append_task_event (snd writable) (failed_task (jb_task j) e (snd elapsed)) q)) in
         case out of
           Inl e \<Rightarrow> fail e q'
         | Inr (p, v) \<Rightarrow> (case append_task_event (fst writable) (completed_task (jb_task j) p v (fst elapsed)) q' of
             (Inl e, q'') \<Rightarrow> fail e q''
           | (Inr _, q'') \<Rightarrow> q'')))"

subsection \<open>Snapshot\<close>

definition latest_tasks :: "proof_task list \<Rightarrow> (string \<times> proof_task) list" where
  "latest_tasks es = foldl (\<lambda>d t. AList.update (pq_task_id t) t d) [] es"

definition queue_snapshot :: "proof_queue \<Rightarrow> (string \<times> int) list" where
  "queue_snapshot q = (let tasks = map snd (latest_tasks (qs_events q));
      count = (\<lambda>st. int (length (filter (\<lambda>t. pq_status t = st) tasks))) in
    [(''total'', int (length tasks)), (''pending'', count Pending), (''processing'', count Processing),
     (''completed'', count Completed), (''failed'', count Failed)])"

subsection \<open>Steps\<close>

text \<open>The public operation \<open>submit\<close> and the two moves of the worker, in any order.\<close>

datatype queue_label =
    Submit string witness_artifact string string int bool
  | Start
  | Finish string "string \<times> string"

fun apply_label :: "zk_env \<Rightarrow> (nat \<Rightarrow> bool) \<Rightarrow> queue_label \<Rightarrow> proof_queue \<Rightarrow> proof_queue" where
  "apply_label env disk (Submit now w trace_h producer cyc auto_verify) q =
     snd (submit (disk (length (qs_events q))) now w trace_h producer cyc auto_verify q)"
| "apply_label env disk Start q = start_job (disk (length (qs_events q))) q"
| "apply_label env disk (Finish now elapsed) q =
     finish_job env now elapsed (disk (length (qs_events q)), disk (Suc (length (qs_events q)))) q"

text \<open>\<open>disk n\<close> says whether the line of the \<open>n\<close>-th event can be written.\<close>

inductive queue_reach :: "zk_env \<Rightarrow> (nat \<Rightarrow> bool) \<Rightarrow> proof_queue \<Rightarrow> proof_queue \<Rightarrow> bool" for env disk where
  reach_refl: "queue_reach env disk q q"
| reach_step: "queue_reach env disk q q' \<Longrightarrow> queue_reach env disk q (apply_label env disk l q')"

subsection \<open>The latest event decides\<close>

definition state_of :: "proof_queue \<Rightarrow> string \<Rightarrow> task_state option" where
  "state_of q tid = map_option pq_status (get_task q tid)"

lemma latest_for_Nil [simp]: "latest_for [] tid = None"
  by (simp add: latest_for_def)

lemma latest_for_snoc [simp]: "latest_for (es @ [t]) tid = (if pq_task_id t = tid then Some t else latest_for es tid)"
  by (simp add: latest_for_def)

lemma latest_for_id: "latest_for es tid = Some t \<Longrightarrow> pq_task_id t = tid \<and> t \<in> set es"
  by (auto simp: latest_for_def find_Some_iff) (metis length_rev nth_mem set_rev)

lemma task_payload_float: "\<not> has_float (task_payload t)"
  using dump_float(3,4) by (auto simp: task_payload_def optional_def simp del: model_dump.simps split: option.splits)

lemma append_task_event_simps:
  "append_task_event writable t q = (if writable
     then (Inr (), q\<lparr>qs_events := qs_events q @ [t], qs_log := qs_log q @ [canonical_text (task_payload t)]\<rparr>)
     else (Inl (OSError ''proof_queue.jsonl''), q\<lparr>qs_events := qs_events q @ [t]\<rparr>))"
  by (simp add: append_task_event_def canonical_json_text task_payload_float Let_def)

text \<open>What may follow a state of a task.\<close>

fun next_ok :: "task_state option \<Rightarrow> task_state \<Rightarrow> bool" where
  "next_ok None s = (s = Pending)"
| "next_ok (Some Pending) s = (s = Processing)"
| "next_ok (Some Processing) s = (s \<in> {Completed, Failed})"
| "next_ok (Some Completed) s = False"
| "next_ok (Some Failed) s = (s = Pending)"

definition state_in :: "proof_task list \<Rightarrow> string \<Rightarrow> task_state option" where
  "state_in es tid = map_option pq_status (latest_for es tid)"

definition lifecycle :: "proof_task list \<Rightarrow> bool" where
  "lifecycle es \<longleftrightarrow> (\<forall>i < length es. next_ok (state_in (take i es) (pq_task_id (es ! i))) (pq_status (es ! i)))"

lemma state_in_Nil [simp]: "state_in [] tid = None"
  by (simp add: state_in_def)

lemma state_in_snoc [simp]:
  "state_in (es @ [t]) tid = (if pq_task_id t = tid then Some (pq_status t) else state_in es tid)"
  by (simp add: state_in_def)

lemma state_in_single [simp]: "state_in [t] tid = (if pq_task_id t = tid then Some (pq_status t) else None)"
  using state_in_snoc [of "[]" t tid] by simp

lemma state_in_snoc2 [simp]:
  "state_in (es @ [t, u]) tid = (if pq_task_id u = tid then Some (pq_status u) else state_in (es @ [t]) tid)"
  using state_in_snoc [of "es @ [t]" u tid] by simp

lemma lifecycle_Nil [simp]: "lifecycle []"
  by (simp add: lifecycle_def)

lemma lifecycle_snoc: "lifecycle (es @ [t]) \<longleftrightarrow> lifecycle es \<and> next_ok (state_in es (pq_task_id t)) (pq_status t)"
  by (auto simp: lifecycle_def nth_append less_Suc_eq)

lemma state_of_events: "state_of q tid = state_in (qs_events q) tid"
  by (simp add: state_in_def state_of_def get_task_def)

text \<open>The jobs under way, the running one first, and the invariant of a queue whose log can be written.\<close>

definition under_way :: "proof_queue \<Rightarrow> queue_job list" where
  "under_way q = (case qs_running q of None \<Rightarrow> [] | Some j \<Rightarrow> [j]) @ qs_jobs q"

definition job_id :: "queue_job \<Rightarrow> string" where
  "job_id j = pq_task_id (jb_task j)"

definition queue_ok :: "proof_queue \<Rightarrow> bool" where
  "queue_ok q \<longleftrightarrow> lifecycle (qs_events q) \<and> distinct (map job_id (under_way q))
     \<and> (\<forall>tid. state_of q tid = Some Pending \<longleftrightarrow> tid \<in> job_id ` set (qs_jobs q))
     \<and> (\<forall>tid. state_of q tid = Some Processing \<longleftrightarrow> Some tid = map_option job_id (qs_running q))
     \<and> list_all (\<lambda>j. pq_status (jb_task j) = Pending) (under_way q)
     \<and> qs_log q = map (\<lambda>t. canonical_text (task_payload t)) (qs_events q)"

lemma queue_ok_states:
  assumes "queue_ok q"
  shows "state_of q tid = Some Pending \<longleftrightarrow> tid \<in> job_id ` set (qs_jobs q)"
    and "state_of q tid = Some Processing \<longleftrightarrow> Some tid = map_option job_id (qs_running q)"
  using assms by (simp_all add: queue_ok_def)

lemma task_id_job [simp]: "pq_task_id (jb_task j) = job_id j"
  by (rule job_id_def [symmetric])

lemma queue_ok_empty: "queue_ok (empty_queue keys)"
  by (simp add: queue_ok_def empty_queue_def under_way_def state_of_def get_task_def)

text \<open>What a submission does, as a function of the state of its task.\<close>

definition proof_task_id :: "witness_artifact \<Rightarrow> string \<Rightarrow> string \<Rightarrow> int \<Rightarrow> string" where
  "proof_task_id w trace_h producer cyc =
     ''proofjob_'' @ take 24 (sha256_hex (canonical_text (task_id_payload w trace_h producer cyc circuit_hash)))"

definition new_job :: "string \<Rightarrow> witness_artifact \<Rightarrow> string \<Rightarrow> string \<Rightarrow> int \<Rightarrow> bool \<Rightarrow> queue_job" where
  "new_job now w trace_h producer cyc auto_verify =
     \<lparr>jb_task = pending_task (proof_task_id w trace_h producer cyc) w circuit_hash trace_h now, jb_witness = w,
      jb_produced_by = producer, jb_cycle = cyc, jb_auto_verify = auto_verify\<rparr>"

lemma new_job_simps [simp]:
  "job_id (new_job now w trace_h producer cyc auto_verify) = proof_task_id w trace_h producer cyc"
  "pq_status (jb_task (new_job now w trace_h producer cyc auto_verify)) = Pending"
  by (simp_all add: new_job_def job_id_def pending_task_def del: task_id_job)

lemma prepare_submission_simp:
  "prepare_submission now w trace_h producer cyc auto_verify q = (let tid = proof_task_id w trace_h producer cyc in
     Inr (tid, if state_of q tid \<in> {None, Some Failed} then Some (new_job now w trace_h producer cyc auto_verify) else None))"
proof -
  have f: "\<not> has_float (task_id_payload w trace_h producer cyc circuit_hash)" by (simp add: task_id_payload_def)
  have c: "pc_circuit_hash the_circuit = circuit_hash" by (simp add: the_circuit_def)
  show ?thesis
    unfolding prepare_submission_def compile_circuit_ok rbind_simps c canonical_json_text [OF f] Let_def
      proof_task_id_def [symmetric] new_job_def [symmetric] state_of_def get_task_def
    by (cases "latest_for (qs_events q) (proof_task_id w trace_h producer cyc)") (auto intro: task_state.exhaust)
qed

lemma submit_simp:
  "submit writable now w trace_h producer cyc auto_verify q = (let tid = proof_task_id w trace_h producer cyc;
       j = new_job now w trace_h producer cyc auto_verify in
     if state_of q tid \<in> {None, Some Failed} then
       if writable then (Inr tid, q\<lparr>qs_events := qs_events q @ [jb_task j],
           qs_log := qs_log q @ [canonical_text (task_payload (jb_task j))], qs_jobs := qs_jobs q @ [j]\<rparr>)
       else (Inl (OSError ''proof_queue.jsonl''), q\<lparr>qs_events := qs_events q @ [jb_task j]\<rparr>)
     else (Inr tid, q))"
  by (simp add: submit_def prepare_submission_simp enqueue_def append_task_event_simps Let_def)

lemma job_id_status [simp]: "job_id (j\<lparr>jb_task := t\<rparr>) = pq_task_id t"
  by (simp add: job_id_def del: task_id_job)

lemma submit_ok:
  assumes "queue_ok q"
  shows "queue_ok (snd (submit True now w trace_h producer cyc auto_verify q))"
proof -
  let ?tid = "proof_task_id w trace_h producer cyc"
  have "next_ok (state_of q ?tid) Pending" "?tid \<notin> job_id ` set (qs_jobs q)" "Some ?tid \<noteq> map_option job_id (qs_running q)"
    if "state_of q ?tid \<in> {None, Some Failed}"
    using queue_ok_states [OF assms, of ?tid] that by auto
  then show ?thesis
    using assms by (auto simp: submit_simp Let_def queue_ok_def state_of_events lifecycle_snoc under_way_def split: option.splits)
qed

lemma start_job_ok:
  assumes "queue_ok q"
  shows "queue_ok (start_job True q)"
proof (cases "qs_running q = None \<and> qs_jobs q \<noteq> []")
  case True
  then obtain j js where j: "qs_running q = None" "qs_jobs q = j # js" by (cases "qs_jobs q") auto
  have "state_of q (job_id j) = Some Pending" using j queue_ok_states(1) [OF assms, of "job_id j"] by simp
  then have new: "next_ok (state_of q (job_id j)) Processing" by simp
  have "job_id j \<notin> job_id ` set js" using assms j by (simp add: queue_ok_def under_way_def)
  note new = new this
  have "state_of q tid \<noteq> Some Processing" for tid using queue_ok_states(2) [OF assms] j(1) by simp
  moreover have "state_of q tid = Some Pending \<longleftrightarrow> tid \<in> insert (job_id j) (job_id ` set js)" for tid
    using queue_ok_states(1) [OF assms] j(2) by simp
  ultimately show ?thesis
    using assms new by (auto simp: start_job_def append_task_event_simps j queue_ok_def state_of_events lifecycle_snoc under_way_def)
next
  case False
  then have "start_job True q = q" by (auto simp: start_job_def split: option.splits list.splits)
  then show ?thesis using assms by simp
qed

text \<open>The end of the running job, for any state the worker may have left.\<close>

lemma finish_job_cases:
  assumes "qs_running q = Some j"
  obtains t keys where "pq_task_id t = job_id j" "pq_status t \<in> {Completed, Failed}"
    "finish_job env now elapsed (True, w2) q = q\<lparr>qs_running := None, qs_keys := keys, qs_events := qs_events q @ [t],
       qs_log := qs_log q @ [canonical_text (task_payload t)]\<rparr>"
  | e keys where "w2 = False" "finish_job env now elapsed (True, w2) q = q\<lparr>qs_running := None, qs_keys := keys,
       qs_events := qs_events q @ [failed_task (jb_task j) e (snd elapsed)]\<rparr>"
proof -
  obtain out keys where r: "run_job env now j (qs_keys q) = (out, keys)" by fastforce
  show thesis
  proof (cases out)
    case (Inl e)
    show thesis
    proof (cases w2)
      case True
      show thesis
        by (rule that(1) [of "failed_task (jb_task j) e (snd elapsed)" keys])
          (use assms r Inl True in \<open>simp_all add: failed_task_def finish_job_def append_task_event_simps Let_def\<close>)
    next
      case False
      show thesis
        by (rule that(2) [of e keys])
          (use assms r Inl False in \<open>simp_all add: finish_job_def append_task_event_simps Let_def\<close>)
    qed
  next
    case (Inr x)
    obtain p v where x: "x = (p, v)" by fastforce
    show thesis
      by (rule that(1) [of "completed_task (jb_task j) p v (fst elapsed)" keys])
        (use assms r Inr x in \<open>simp_all add: completed_task_def finish_job_def append_task_event_simps Let_def\<close>)
  qed
qed

lemma finish_job_ok:
  assumes "queue_ok q"
  shows "queue_ok (finish_job env now elapsed (True, True) q)"
proof (cases "qs_running q")
  case None
  then show ?thesis using assms by (simp add: finish_job_def)
next
  case (Some j)
  obtain t keys where t: "pq_task_id t = job_id j" "pq_status t \<in> {Completed, Failed}"
    "finish_job env now elapsed (True, True) q = q\<lparr>qs_running := None, qs_keys := keys, qs_events := qs_events q @ [t],
       qs_log := qs_log q @ [canonical_text (task_payload t)]\<rparr>"
    using finish_job_cases [OF Some] by metis
  have p: "state_of q tid = Some Processing \<longleftrightarrow> tid = job_id j" for tid
    using queue_ok_states(2) [OF assms] Some by simp
  then have "state_of q (job_id j) = Some Processing" by blast
  then have "next_ok (state_of q (job_id j)) (pq_status t)" using t(2) by simp
  moreover have "job_id j \<notin> job_id ` set (qs_jobs q)"
    using assms Some by (simp add: queue_ok_def under_way_def)
  ultimately show ?thesis
    using assms t(2) p unfolding t(3)
    by (auto simp: queue_ok_def state_of_events lifecycle_snoc under_way_def t(1) Some)
qed

lemma apply_label_ok: "queue_ok q \<Longrightarrow> queue_ok (apply_label env (\<lambda>_. True) l q)"
  by (cases l) (simp_all add: submit_ok start_job_ok finish_job_ok)

lemma reachable_ok: "queue_reach env (\<lambda>_. True) q q' \<Longrightarrow> queue_ok q \<Longrightarrow> queue_ok q'"
  by (induction rule: queue_reach.induct) (simp_all add: apply_label_ok)

subsection \<open>Draining the queue\<close>

text \<open>The worker's moves until nothing is left: \<open>n\<close> bounds the jobs under way.\<close>

primrec drain :: "zk_env \<Rightarrow> string \<Rightarrow> string \<times> string \<Rightarrow> nat \<Rightarrow> proof_queue \<Rightarrow> proof_queue" where
  "drain env now elapsed 0 q = q"
| "drain env now elapsed (Suc n) q =
     drain env now elapsed n (finish_job env now elapsed (True, True) (start_job True q))"

lemma finish_start_under_way:
  "length (under_way (finish_job env now elapsed (True, True) (start_job True q))) = length (under_way q) - 1"
proof (cases "qs_running q")
  case None
  show ?thesis
  proof (cases "qs_jobs q")
    case (Cons j js)
    let ?q = "start_job True q"
    have r: "qs_running ?q = Some j" "qs_jobs ?q = js"
      by (simp_all add: start_job_def None Cons append_task_event_simps)
    obtain t keys where "finish_job env now elapsed (True, True) ?q = ?q\<lparr>qs_running := None, qs_keys := keys,
        qs_events := qs_events ?q @ [t], qs_log := qs_log ?q @ [canonical_text (task_payload t)]\<rparr>"
      using finish_job_cases [OF r(1)] by metis
    then show ?thesis by (simp add: under_way_def None Cons r(2))
  qed (simp add: start_job_def finish_job_def under_way_def None)
next
  case (Some j)
  have s: "start_job True q = q" by (simp add: start_job_def Some)
  obtain t keys where "finish_job env now elapsed (True, True) q = q\<lparr>qs_running := None, qs_keys := keys,
      qs_events := qs_events q @ [t], qs_log := qs_log q @ [canonical_text (task_payload t)]\<rparr>"
    using finish_job_cases [OF Some] by metis
  then show ?thesis by (simp add: under_way_def Some s)
qed

lemma drain_ok: "queue_ok q \<Longrightarrow> queue_ok (drain env now elapsed n q)"
  by (induction n arbitrary: q) (simp_all add: finish_job_ok start_job_ok)

lemma drain_under_way: "under_way (drain env now elapsed n q) = [] \<longleftrightarrow> length (under_way q) \<le> n"
  by (induction n arbitrary: q) (auto simp: finish_start_under_way)

text \<open>A task known to the queue stays known.\<close>

lemma state_of_kept:
  assumes "state_of q tid \<noteq> None" shows "state_of (apply_label env disk l q) tid \<noteq> None"
proof -
  have a: "state_of (snd (append_task_event wr t q)) tid = (if pq_task_id t = tid then Some (pq_status t) else state_of q tid)"
    for wr t q by (simp add: append_task_event_simps state_of_events)
  show ?thesis
  proof (cases l)
    case (Submit now w trace_h producer cyc auto_verify)
    then show ?thesis using assms by (auto simp: submit_simp Let_def state_of_events)
  next
    case Start
    then show ?thesis using assms
      by (auto simp: start_job_def append_task_event_simps state_of_events split: option.splits list.splits)
  next
    case (Finish now elapsed)
    show ?thesis
    proof (cases "qs_running q")
      case None
      then show ?thesis using assms Finish by (simp add: finish_job_def)
    next
      case (Some j)
      then show ?thesis using assms Finish
        by (auto simp: finish_job_def append_task_event_simps state_of_events Let_def split: prod.splits sum.splits)
    qed
  qed
qed

lemma drain_kept: "state_of q tid \<noteq> None \<Longrightarrow> state_of (drain env now elapsed n q) tid \<noteq> None"
proof (induction n arbitrary: q)
  case (Suc n)
  have "finish_job env now elapsed (True, True) (start_job True q)
      = apply_label env (\<lambda>_. True) (Finish now elapsed) (apply_label env (\<lambda>_. True) Start q)" by simp
  then show ?case using Suc by (metis drain.simps(2) state_of_kept)
qed simp

text \<open>A pending task without a job is out of reach of every operation.\<close>

definition stranded :: "proof_queue \<Rightarrow> string \<Rightarrow> bool" where
  "stranded q tid \<longleftrightarrow> state_of q tid = Some Pending \<and> tid \<notin> job_id ` set (under_way q)"

lemma stranded_step:
  assumes "stranded q tid" shows "stranded (apply_label env disk l q) tid"
proof (cases l)
  case (Submit now w trace_h producer cyc auto_verify)
  have "proof_task_id w trace_h producer cyc \<noteq> tid" if "state_of q (proof_task_id w trace_h producer cyc) \<in> {None, Some Failed}"
    using assms that by (auto simp: stranded_def)
  then show ?thesis using assms Submit by (auto simp: submit_simp Let_def stranded_def state_of_events under_way_def)
next
  case Start
  then show ?thesis using assms
    by (auto simp: start_job_def append_task_event_simps stranded_def state_of_events under_way_def
        split: option.splits list.splits)
next
  case (Finish now elapsed)
  show ?thesis
  proof (cases "qs_running q")
    case None
    then show ?thesis using assms Finish by (simp add: finish_job_def)
  next
    case (Some j)
    then have "job_id j \<noteq> tid" using assms by (auto simp: stranded_def under_way_def)
    then show ?thesis using assms Finish Some
      by (auto simp: finish_job_def append_task_event_simps stranded_def state_of_events under_way_def
          completed_task_def failed_task_def Let_def split: prod.splits sum.splits)
  qed
qed

lemma stranded_forever: "queue_reach env disk q q' \<Longrightarrow> stranded q tid \<Longrightarrow> stranded q' tid"
  by (induction rule: queue_reach.induct) (simp_all add: stranded_step)

lemma queue_ok_active:
  assumes "queue_ok q"
  shows "state_of q tid \<in> {Some Pending, Some Processing} \<longleftrightarrow> tid \<in> job_id ` set (under_way q)"
  using queue_ok_states [OF assms, of tid] by (cases "qs_running q") (auto simp: under_way_def)

lemma filter_absent: "x \<notin> f ` set xs \<Longrightarrow> filter (\<lambda>k. f k = x) xs = []"
  by (induction xs) auto

subsection \<open>Properties\<close>

text \<open>With a log that can be written and submissions one at a time, every task runs through pending, processing and
  completed or failed in this order, a completed task is never run again, and no task has two jobs at a
  time.  The check of \<open>submit\<close> and its append are not one critical section, though: two submissions of the
  same new proof that overlap both pass the check and leave two jobs with one id, and the history of the
  task is no longer a lifecycle.\<close>

theorem one_job_per_task:
  assumes "queue_reach env (\<lambda>_. True) (empty_queue keys) q"
  shows "lifecycle (qs_events q) \<and> distinct (map job_id (under_way q))
    \<and> (\<forall>tid. state_of q tid \<in> {Some Pending, Some Processing} \<longleftrightarrow> tid \<in> job_id ` set (under_way q))
    \<and> (\<forall>j. prepare_submission now w trace_h producer cyc auto_verify q = Inr (job_id j, Some j) \<longrightarrow>
        (let q2 = snd (enqueue True j (snd (enqueue True j q))) in
         \<not> lifecycle (qs_events q2) \<and> length (filter (\<lambda>k. job_id k = job_id j) (under_way q2)) = 2))"
proof (intro conjI allI impI)
  have ok: "queue_ok q" using reachable_ok [OF assms queue_ok_empty] .
  then show "lifecycle (qs_events q)" "distinct (map job_id (under_way q))" by (simp_all add: queue_ok_def)
  show "state_of q tid \<in> {Some Pending, Some Processing} \<longleftrightarrow> tid \<in> job_id ` set (under_way q)" for tid
    by (rule queue_ok_active [OF ok])
  fix j assume p: "prepare_submission now w trace_h producer cyc auto_verify q = Inr (job_id j, Some j)"
  then have j: "pq_status (jb_task j) = Pending" "state_of q (job_id j) \<in> {None, Some Failed}"
    by (auto simp: prepare_submission_simp Let_def split: if_splits)
  then have "job_id j \<notin> job_id ` set (under_way q)"
    using queue_ok_active [OF ok, of "job_id j"] by auto
  then have "filter (\<lambda>k. job_id k = job_id j) (under_way q) = []" by (rule filter_absent)
  then show "let q2 = snd (enqueue True j (snd (enqueue True j q))) in
         \<not> lifecycle (qs_events q2) \<and> length (filter (\<lambda>k. job_id k = job_id j) (under_way q2)) = 2"
    using j lifecycle_snoc [of "qs_events q @ [jb_task j]" "jb_task j"]
    by (simp add: enqueue_def append_task_event_simps under_way_def Let_def)
qed

definition sample_queue :: proof_queue where
  "sample_queue = empty_queue empty_key_log"

definition queue_env :: zk_env where
  "queue_env = \<lparr>ze_backend = \<lparr>bk_compile = (\<lambda>_. Inl (RuntimeError ''no backend'')), bk_prove = (\<lambda>_. Inl (RuntimeError ''no backend'')),
     bk_verify = (\<lambda>_. Inl (RuntimeError ''no backend'')), bk_key_root = ''keys''\<rparr>, ze_int_of = (\<lambda>_. None), ze_rules = [],
     ze_dataset_hash = []\<rparr>"

definition queue_witness :: witness_artifact where
  "queue_witness = witness_of ''trace_1'' ''a'' ''b'' ''c'' [] [] ''backend_integration'' 1"

theorem one_job_per_task_witness:
  "state_of (snd (submit True ''0.5'' queue_witness ''c'' ''proof_queue'' 1 True sample_queue))
     (proof_task_id queue_witness ''c'' ''proof_queue'' 1) = Some Pending
   \<and> lifecycle (qs_events (snd (submit True ''0.5'' queue_witness ''c'' ''proof_queue'' 1 True sample_queue)))"
proof -
  let ?l = "Submit ''0.5'' queue_witness ''c'' ''proof_queue'' 1 True"
  have r: "queue_reach queue_env (\<lambda>_. True) (empty_queue empty_key_log) (apply_label queue_env (\<lambda>_. True) ?l (empty_queue empty_key_log))"
    by (intro reach_step reach_refl)
  have "state_of (empty_queue empty_key_log) (proof_task_id queue_witness ''c'' ''proof_queue'' 1) = None"
    by (simp add: state_of_events empty_queue_def)
  then show ?thesis
    using one_job_per_task [OF r, THEN conjunct1]
    by (simp add: sample_queue_def submit_simp Let_def state_of_events)
qed

text \<open>C26: as long as its log can be written, the queue loses nothing: once the worker has run as often as there are
  jobs under way, every task ever submitted is completed or failed, whatever prover and verifier do.\<close>

theorem queue_drains:
  assumes "queue_reach env (\<lambda>_. True) (empty_queue keys) q" "length (under_way q) \<le> n" "state_of q tid \<noteq> None"
  shows "state_of (drain env now elapsed n q) tid \<in> {Some Completed, Some Failed} \<and> under_way (drain env now elapsed n q) = []"
proof -
  let ?q = "drain env now elapsed n q"
  have ok: "queue_ok ?q" by (rule drain_ok [OF reachable_ok [OF assms(1) queue_ok_empty]])
  have e: "under_way ?q = []" using assms(2) by (simp add: drain_under_way)
  have "state_of ?q tid \<noteq> None" by (rule drain_kept [OF assms(3)])
  moreover have "state_of ?q tid \<notin> {Some Pending, Some Processing}" using queue_ok_active [OF ok, of tid] e by simp
  ultimately show ?thesis using e by (cases "state_of ?q tid") (auto intro: task_state.exhaust)
qed

theorem queue_drains_witness:
  "state_of (drain queue_env ''1.0'' (''5.0'', ''5.1'') 1 (snd (submit True ''0.5'' queue_witness ''c'' ''proof_queue'' 1 True sample_queue)))
     (proof_task_id queue_witness ''c'' ''proof_queue'' 1) \<in> {Some Completed, Some Failed}"
proof -
  let ?l = "Submit ''0.5'' queue_witness ''c'' ''proof_queue'' 1 True"
  have r: "queue_reach queue_env (\<lambda>_. True) (empty_queue empty_key_log) (apply_label queue_env (\<lambda>_. True) ?l (empty_queue empty_key_log))"
    by (intro reach_step reach_refl)
  have "state_of (empty_queue empty_key_log) (proof_task_id queue_witness ''c'' ''proof_queue'' 1) = None"
    by (simp add: state_of_events empty_queue_def)
  then have "length (under_way (apply_label queue_env (\<lambda>_. True) ?l (empty_queue empty_key_log))) \<le> 1"
    "state_of (apply_label queue_env (\<lambda>_. True) ?l (empty_queue empty_key_log)) (proof_task_id queue_witness ''c'' ''proof_queue'' 1) \<noteq> None"
    by (simp_all add: submit_simp Let_def state_of_events under_way_def empty_queue_def)
  from queue_drains [OF r this, THEN conjunct1] show ?thesis by (simp add: sample_queue_def)
qed

text \<open>A submission whose event cannot be written to the log raises, but its pending event is already in memory and its
  job was not scheduled: whatever happens afterwards the task stays pending without a job, and submitting the
  same proof again only returns the task id.\<close>

theorem unlogged_task_is_lost:
  assumes "state_of q (proof_task_id w trace_h producer cyc) \<in> {None, Some Failed}"
    and "proof_task_id w trace_h producer cyc \<notin> job_id ` set (under_way q)"
    and "submit False now w trace_h producer cyc auto_verify q = (r, q1)" "queue_reach env disk q1 q2"
  shows "(\<exists>e. r = Inl (OSError e)) \<and> state_of q2 (proof_task_id w trace_h producer cyc) = Some Pending
    \<and> submit writable now' w trace_h producer cyc auto_verify' q2 = (Inr (proof_task_id w trace_h producer cyc), q2)"
proof -
  let ?tid = "proof_task_id w trace_h producer cyc"
  have "stranded q1 ?tid" and r: "\<exists>e. r = Inl (OSError e)"
    using assms(1-3) by (auto simp: submit_simp Let_def stranded_def state_of_events under_way_def)
  then have "stranded q2 ?tid" by (metis stranded_forever [OF assms(4)])
  then show ?thesis using r by (simp add: stranded_def submit_simp Let_def)
qed

theorem unlogged_task_is_lost_witness:
  "\<exists>q1. queue_reach queue_env (\<lambda>_. True) (snd (submit False ''0.5'' queue_witness ''c'' ''proof_queue'' 1 True sample_queue)) q1
     \<and> state_of (drain queue_env ''1.0'' (''5.0'', ''5.1'') 0 q1) (proof_task_id queue_witness ''c'' ''proof_queue'' 1) = Some Pending"
proof -
  let ?tid = "proof_task_id queue_witness ''c'' ''proof_queue'' 1"
  let ?s = "submit False ''0.5'' queue_witness ''c'' ''proof_queue'' 1 True sample_queue"
  have n: "state_of sample_queue ?tid \<in> {None, Some Failed}" "?tid \<notin> job_id ` set (under_way sample_queue)"
    by (simp_all add: sample_queue_def state_of_events empty_queue_def under_way_def)
  have r: "queue_reach queue_env (\<lambda>_. True) (snd ?s) (apply_label queue_env (\<lambda>_. True) Start (snd ?s))"
    by (intro reach_step reach_refl)
  show ?thesis
    using unlogged_task_is_lost [OF n prod.collapse [symmetric] r] r by auto
qed

end
