(* ===== verification/Runtime_Controller.thy ===== *)
theory Runtime_Controller
  imports Samples
begin

text \<open>
  \<open>api/runtime.py\<close>: the snapshot the dashboard shows, and the background thread that repeats the
  calculation of \<open>core/sample.py\<close>.  Every operation holds the lock, so it is one step; the thread moves
  between testing the stop event, computing and sleeping.  The clock is an argument.
\<close>

subsection \<open>State\<close>

record runtime_snapshot =
  sn_started :: bool
  sn_iteration_count :: int
  sn_last_run_at :: "string option"
  sn_last_input_hash :: "string option"
  sn_last_output_hash :: "string option"
  sn_last_integrity_hash :: "string option"
  sn_last_audit_hash :: "string option"
  sn_last_status :: "string option"
  sn_last_error :: "string option"
  sn_last_result :: "calculation_result option"
  sn_last_trace :: "trace_step list option"

text \<open>Where the thread is in \<open>_loop\<close>; without a thread, or after it has returned, nowhere.\<close>

datatype loop_phase = No_thread | Testing | Computing | Sleeping

record runtime_controller =
  ct_snapshot :: runtime_snapshot
  ct_stop_event :: bool
  ct_loop :: loop_phase

definition empty_snapshot :: runtime_snapshot where
  "empty_snapshot = \<lparr>sn_started = False, sn_iteration_count = 0, sn_last_run_at = None, sn_last_input_hash = None,
     sn_last_output_hash = None, sn_last_integrity_hash = None, sn_last_audit_hash = None, sn_last_status = None,
     sn_last_error = None, sn_last_result = None, sn_last_trace = None\<rparr>"

definition new_controller :: runtime_controller where
  "new_controller = \<lparr>ct_snapshot = empty_snapshot, ct_stop_event = False, ct_loop = No_thread\<rparr>"

subsection \<open>Operations\<close>

definition record_response ::
  "string \<Rightarrow> calculation_response \<Rightarrow> string option \<Rightarrow> string \<Rightarrow> runtime_controller \<Rightarrow> runtime_controller" where
  "record_response now resp audit_h status c = (let s = ct_snapshot c; i = rs_integrity resp in
     c\<lparr>ct_snapshot := s\<lparr>sn_iteration_count := sn_iteration_count s + 1, sn_last_run_at := Some now,
       sn_last_input_hash := Some (ia_input_hash i), sn_last_output_hash := Some (ia_output_hash i),
       sn_last_integrity_hash := Some (ia_integrity_hash i), sn_last_audit_hash := audit_h,
       sn_last_status := Some status, sn_last_error := None, sn_last_result := Some (rs_result resp),
       sn_last_trace := Some (rs_trace resp)\<rparr>\<rparr>)"

definition run_once :: "(pyv \<Rightarrow> int option) \<Rightarrow> tariff_rule list \<Rightarrow> string \<Rightarrow> string \<Rightarrow> pyv
    \<Rightarrow> runtime_controller \<Rightarrow> calculation_response result \<times> runtime_controller" where
  "run_once int_of rules h now v c =
     (case rbind (validate_request int_of v) (calculate_import_landed_cost int_of rules h) of
        Inl e \<Rightarrow> (Inl e, c)
      | Inr resp \<Rightarrow> (Inr resp, record_response now resp None ''ephemeral'' c))"

definition start_loop :: "runtime_controller \<Rightarrow> runtime_snapshot \<times> runtime_controller" where
  "start_loop c = (let s = (ct_snapshot c)\<lparr>sn_started := True\<rparr> in
     if ct_loop c \<noteq> No_thread then (s, c\<lparr>ct_snapshot := s\<rparr>)
     else (s, c\<lparr>ct_snapshot := s, ct_stop_event := False, ct_loop := Testing\<rparr>))"

definition stop_loop :: "runtime_controller \<Rightarrow> runtime_snapshot \<times> runtime_controller" where
  "stop_loop c = (let s = (ct_snapshot c)\<lparr>sn_started := False\<rparr> in (s, c\<lparr>ct_snapshot := s, ct_stop_event := True\<rparr>))"

record runtime_dashboard =
  db_dataset_version :: string
  db_dataset_hash :: string
  db_runtime :: runtime_snapshot

definition runtime_view :: "string \<Rightarrow> runtime_controller \<Rightarrow> runtime_dashboard" where
  "runtime_view h c = \<lparr>db_dataset_version = dataset_version, db_dataset_hash = h, db_runtime = ct_snapshot c\<rparr>"

definition reference_request :: pyv where
  "reference_request = PDict [(''hs_code'', PStr ''8507600000''), (''country_of_origin'', PStr ''CN''),
     (''customs_value'', PDec (Fin (cents 120000))), (''freight'', PDec (Fin (cents 15000))),
     (''insurance'', PDec (Fin (cents 2500))), (''quantity'', PInt 2), (''shipping_mode'', PStr ''ocean'')]"

text \<open>One move of the thread; \<open>wait\<close> returns when its time is over or the event is set.\<close>

definition loop_step :: "(pyv \<Rightarrow> int option) \<Rightarrow> tariff_rule list \<Rightarrow> string \<Rightarrow> string \<Rightarrow> runtime_controller \<Rightarrow> runtime_controller" where
  "loop_step int_of rules h now c = (case ct_loop c of
       No_thread \<Rightarrow> c
     | Testing \<Rightarrow> c\<lparr>ct_loop := (if ct_stop_event c then No_thread else Computing)\<rparr>
     | Computing \<Rightarrow> (case run_once int_of rules h now reference_request c of
         (Inr _, c') \<Rightarrow> c'\<lparr>ct_loop := Sleeping\<rparr>
       | (Inl e, c') \<Rightarrow> c'\<lparr>ct_snapshot := (ct_snapshot c')\<lparr>sn_last_status := Some ''error'', sn_last_error := Some (error_text e)\<rparr>,
           ct_loop := Sleeping\<rparr>)
     | Sleeping \<Rightarrow> c\<lparr>ct_loop := Testing\<rparr>)"

text \<open>What requests and the thread do with the controller, in any order.\<close>

inductive controller_reach :: "(pyv \<Rightarrow> int option) \<Rightarrow> tariff_rule list \<Rightarrow> string \<Rightarrow> runtime_controller \<Rightarrow> bool"
  for int_of rules h where
  fresh_controller: "controller_reach int_of rules h new_controller"
| controller_start: "controller_reach int_of rules h c \<Longrightarrow> controller_reach int_of rules h (snd (start_loop c))"
| controller_stop: "controller_reach int_of rules h c \<Longrightarrow> controller_reach int_of rules h (snd (stop_loop c))"
| controller_moves: "controller_reach int_of rules h c \<Longrightarrow> controller_reach int_of rules h (loop_step int_of rules h now c)"
| controller_records: "controller_reach int_of rules h c \<Longrightarrow>
    controller_reach int_of rules h (record_response now resp audit_h status c)"

subsection \<open>Facts\<close>

lemma record_response_simps [simp]:
  "ct_stop_event (record_response now resp audit_h status c) = ct_stop_event c"
  "ct_loop (record_response now resp audit_h status c) = ct_loop c"
  "sn_started (ct_snapshot (record_response now resp audit_h status c)) = sn_started (ct_snapshot c)"
  "sn_iteration_count (ct_snapshot (record_response now resp audit_h status c)) = sn_iteration_count (ct_snapshot c) + 1"
  by (simp_all add: record_response_def Let_def)

lemma run_once_simps [simp]:
  "ct_stop_event (snd (run_once int_of rules h now v c)) = ct_stop_event c"
  "sn_started (ct_snapshot (snd (run_once int_of rules h now v c))) = sn_started (ct_snapshot c)"
  "sn_iteration_count (ct_snapshot (snd (run_once int_of rules h now v c))) \<le> sn_iteration_count (ct_snapshot c) + 1"
  by (simp_all add: run_once_def split: sum.splits)

lemma loop_step_simps [simp]:
  "ct_stop_event (loop_step int_of rules h now c) = ct_stop_event c"
  "sn_started (ct_snapshot (loop_step int_of rules h now c)) = sn_started (ct_snapshot c)"
  "ct_loop (loop_step int_of rules h now c) = (case ct_loop c of No_thread \<Rightarrow> No_thread
     | Testing \<Rightarrow> if ct_stop_event c then No_thread else Computing | Computing \<Rightarrow> Sleeping | Sleeping \<Rightarrow> Testing)"
  by (simp_all add: loop_step_def run_once_def split: loop_phase.splits sum.splits)

lemma loop_step_count:
  "sn_iteration_count (ct_snapshot (loop_step int_of rules h now c)) \<le>
     sn_iteration_count (ct_snapshot c) + (if ct_loop c = Computing then 1 else 0)"
  by (simp add: loop_step_def run_once_def split: loop_phase.splits sum.splits)

text \<open>Unless the stop event is set, the snapshot says whether there is a thread.\<close>

lemma controller_reach_inv:
  "controller_reach int_of rules h c \<Longrightarrow> \<not> ct_stop_event c \<Longrightarrow> sn_started (ct_snapshot c) \<longleftrightarrow> ct_loop c \<noteq> No_thread"
  by (induction rule: controller_reach.induct)
    (auto simp: new_controller_def empty_snapshot_def start_loop_def stop_loop_def Let_def split: if_splits loop_phase.splits)

text \<open>A thread that is alive when the event is set makes at most three more moves.\<close>

lemma stopped_loop_ends:
  assumes "ct_stop_event c" "3 \<le> length nows"
  shows "ct_loop (foldl (\<lambda>c now. loop_step int_of rules h now c) c nows) = No_thread"
proof -
  have dead: "ct_loop c = No_thread \<Longrightarrow> ct_loop (foldl (\<lambda>c now. loop_step int_of rules h now c) c ns) = No_thread" for c ns
    by (induction ns arbitrary: c) auto
  obtain a b d ns where n: "nows = a # b # d # ns" using assms(2) by (cases nows; cases "tl nows"; cases "tl (tl nows)") auto
  show ?thesis unfolding n foldl_Cons by (rule dead) (use assms(1) in \<open>auto split: loop_phase.splits\<close>)
qed

lemma stopped_loop_keeps:
  "ct_stop_event (foldl (\<lambda>c now. loop_step int_of rules h now c) c nows) = ct_stop_event c
    \<and> sn_started (ct_snapshot (foldl (\<lambda>c now. loop_step int_of rules h now c) c nows)) = sn_started (ct_snapshot c)"
  by (induction nows arbitrary: c) auto

lemma stopped_loop_count:
  "ct_stop_event c \<Longrightarrow> sn_iteration_count (ct_snapshot (foldl (\<lambda>c now. loop_step int_of rules h now c) c nows)) \<le>
     sn_iteration_count (ct_snapshot c) + (if ct_loop c = Computing then 1 else 0)"
proof (induction nows arbitrary: c)
  case (Cons now nows)
  show ?case
    using Cons.IH [of "loop_step int_of rules h now c"] Cons.prems loop_step_count [of int_of rules h now c]
    by (auto split: loop_phase.splits if_splits)
qed simp

text \<open>C33: while no stop is under way, the snapshot says exactly whether the background thread runs.  But a start that comes
  while the thread of an earlier stop is still alive is lost: the snapshot says started, the stop event stays set,
  and after three more moves there is no thread, with at most the calculation that was under way.\<close>

theorem start_while_stopping_is_lost:
  assumes "controller_reach int_of rules h c"
  shows "(ct_stop_event c \<or> (sn_started (ct_snapshot c) \<longleftrightarrow> ct_loop c \<noteq> No_thread)) \<and>
    (ct_loop c = No_thread \<or> length nows < 3 \<or>
      (let c' = foldl (\<lambda>c now. loop_step int_of rules h now c) (snd (start_loop (snd (stop_loop c)))) nows in
       sn_started (ct_snapshot c') \<and> ct_stop_event c' \<and> ct_loop c' = No_thread
       \<and> sn_iteration_count (ct_snapshot c') \<le> sn_iteration_count (ct_snapshot c) + 1))"
proof -
  let ?c = "snd (start_loop (snd (stop_loop c)))"
  have s: "ct_loop c \<noteq> No_thread \<Longrightarrow> ct_stop_event ?c \<and> sn_started (ct_snapshot ?c)
      \<and> sn_iteration_count (ct_snapshot ?c) = sn_iteration_count (ct_snapshot c)"
    by (simp add: start_loop_def stop_loop_def Let_def)
  then show ?thesis
    using controller_reach_inv [OF assms] stopped_loop_ends [of ?c nows int_of rules h]
      stopped_loop_keeps [of int_of rules h ?c nows] stopped_loop_count [of ?c int_of rules h nows]
    by (auto simp: Let_def split: if_splits)
qed

theorem start_while_stopping_is_lost_witness:
  "let c = foldl (\<lambda>c now. loop_step sample_int tariff_rules dataset_hash now c)
      (snd (start_loop (snd (stop_loop (snd (start_loop new_controller)))))) [[], [], []] in
     sn_started (ct_snapshot c) \<and> ct_loop c = No_thread"
proof -
  have "controller_reach sample_int tariff_rules dataset_hash (snd (start_loop new_controller))"
    by (intro controller_start fresh_controller)
  note t = start_while_stopping_is_lost [OF this, of "[[], [], []]", unfolded Let_def]
  have "ct_loop (snd (start_loop new_controller)) \<noteq> No_thread" by (simp add: start_loop_def new_controller_def Let_def)
  moreover have "\<not> length [[], [], [] :: string] < 3" by simp
  ultimately show ?thesis using t unfolding Let_def by blast
qed

end
