(* ===== verification/Http_Routes.thy ===== *)
theory Http_Routes
  imports Dataset_Export Proof_Queue Runtime_Controller
begin

text \<open>
  \<open>api/routes.py\<close> with \<open>app/main.py\<close>, \<open>app/db/connection.py\<close> and \<open>app/services/training_service.py\<close>: every route as
  a function from a request and the state of the process to the reply and the new state.  A route is
  taken as one step; what its awaited database calls meet is part of \<open>run_inputs\<close>.  The bytes of a body
  enter as the outcome of \<open>json.loads(body.decode('utf-8'), parse_float=Decimal, parse_int=int)\<close>.  A reply
  body is the value that is serialised: its record, or a \<open>pyv\<close> where the code builds a dict.
\<close>

subsection \<open>Requests, replies and the state of the process\<close>

text \<open>What decoding a body gives: a value, \<open>json.JSONDecodeError\<close>, or another exception
  (\<open>UnicodeDecodeError\<close>, \<open>RecursionError\<close>, the ValueError of too many digits).  A \<open>pyv\<close> has strings with code points
  below 256 only; an object with other strings that the guards refuse is \<open>Json_refused\<close> with what they raise: the
  message of a SecurityViolation, or another exception, the UnicodeEncodeError that \<open>_walk\<close> gets from
  \<open>encode('utf-8')\<close> on a string with a lone surrogate.\<close>

datatype json_outcome = Json_value pyv | Json_refused "string + py_error" | Json_decode_error | Json_raises py_error

text \<open>\<open>hq_stack\<close> is the number of levels of nesting the interpreter's stack has room for when the request is handled.\<close>

record http_request =
  hq_client :: "string option"
  hq_api_key :: "string option"
  hq_length :: int
  hq_decoded :: json_outcome
  hq_stack :: nat
  hq_time :: rat
  hq_today :: string
  hq_now :: string

text \<open>How a handler may end other than by returning a body.\<close>

datatype http_error = HTTPException int string | BackpressureError string | Raised py_error

fun http_error_text :: "http_error \<Rightarrow> string" where
  "http_error_text (HTTPException code detail) = int_text code @ '': '' @ detail"
| "http_error_text (BackpressureError m) = m"
| "http_error_text (Raised e) = error_text e"

text \<open>The status of the response; the framework answers an exception that no handler catches with 500.\<close>

fun http_status :: "http_error + 'a \<Rightarrow> int" where
  "http_status (Inr _) = 200"
| "http_status (Inl (HTTPException code detail)) = code"
| "http_status (Inl _) = 500"

record app_state =
  ap_service :: service_state
  ap_training :: bool
  ap_limiter :: rate_limiter
  ap_guard :: depth_guard
  ap_keys :: api_key_store
  ap_runtime :: runtime_controller
  ap_queue :: proof_queue

type_synonym 'a action = "app_state \<Rightarrow> (http_error + 'a) \<times> app_state"

definition action_return :: "http_error + 'a \<Rightarrow> 'a action" where
  "action_return r st = (r, st)"

definition action_bind :: "'a action \<Rightarrow> ('a \<Rightarrow> 'b action) \<Rightarrow> 'b action" where
  "action_bind m f st = (case m st of (Inl e, st') \<Rightarrow> (Inl e, st') | (Inr x, st') \<Rightarrow> f x st')"

definition lift_result :: "'a result \<Rightarrow> http_error + 'a" where
  "lift_result r = (case r of Inl e \<Rightarrow> Inl (Raised e) | Inr x \<Rightarrow> Inr x)"

definition service_action :: "'a service \<Rightarrow> 'a action" where
  "service_action m st = (case m (ap_service st) of (r, sv) \<Rightarrow> (lift_result r, st\<lparr>ap_service := sv\<rparr>))"

text \<open>\<open>except\<close> clauses as a map of the exception.\<close>

definition except_as :: "(http_error \<Rightarrow> http_error) \<Rightarrow> 'a action \<Rightarrow> 'a action" where
  "except_as f m st = (case m st of (Inl e, st') \<Rightarrow> (Inl (f e), st') | (Inr x, st') \<Rightarrow> (Inr x, st'))"

definition guarded_action :: "'a action \<Rightarrow> 'a action" where
  "guarded_action m st = (case acquire (ap_guard st) of
     (Inl e, g) \<Rightarrow> (Inl (BackpressureError (error_text e)), st\<lparr>ap_guard := g\<rparr>)
   | (Inr _, g) \<Rightarrow> (case m (st\<lparr>ap_guard := g\<rparr>) of (r, st') \<Rightarrow> (r, st'\<lparr>ap_guard := release (ap_guard st')\<rparr>)))"

subsection \<open>What every request passes\<close>

definition client_key :: "http_request \<Rightarrow> string" where
  "client_key rq = (case hq_client rq of Some host \<Rightarrow> host | None \<Rightarrow> ''unknown'')"

definition service_or_503 :: "unit action" where
  "service_or_503 st = (if sv_configured (ap_service st) then (Inr (), st)
     else (Inl (HTTPException 503 ''Database evidence repository is not configured''), st))"

definition training_service_or_503 :: "unit action" where
  "training_service_or_503 st = (if ap_training st then (Inr (), st)
     else (Inl (HTTPException 503 ''Database training repository is not configured''), st))"

definition require_api_key :: "http_request \<Rightarrow> unit action" where
  "require_api_key rq st =
     (if \<not> keys_enabled (ap_keys st) then (Inr (), st)
      else case hq_api_key rq of
        None \<Rightarrow> (Inl (HTTPException 401 ''X-Api-Key header is required''), st)
      | Some key \<Rightarrow> if key = [] then (Inl (HTTPException 401 ''X-Api-Key header is required''), st)
          else (case authenticate (hq_today rq) key (ap_keys st) of
            (None, ks) \<Rightarrow> (Inl (HTTPException 401 ''Invalid API key''), st\<lparr>ap_keys := ks\<rparr>)
          | (Some _, ks) \<Rightarrow> (Inr (), st\<lparr>ap_keys := ks\<rparr>)))"

definition check_rate :: "http_request \<Rightarrow> unit action" where
  "check_rate rq st = (case allow (ap_limiter st) (hq_time rq) (client_key rq) of (a, l) \<Rightarrow>
     (if rr_allowed a then Inr () else Inl (HTTPException 429 ''Rate limit exceeded''), st\<lparr>ap_limiter := l\<rparr>))"

definition load_json_payload :: "http_request \<Rightarrow> http_error + (string \<times> pyv) list" where
  "load_json_payload rq =
     (if hq_length rq > int max_request_bytes then Inl (HTTPException 413 ''Request body too large'')
      else if hq_length rq = 0 then Inr []
      else case hq_decoded rq of
        Json_decode_error \<Rightarrow> Inl (HTTPException 400 ''Invalid JSON payload'')
      | Json_raises e \<Rightarrow> Inl (Raised e)
      | Json_refused (Inl m) \<Rightarrow> Inl (HTTPException 400 m)
      | Json_refused (Inr e) \<Rightarrow> Inl (Raised e)
      | Json_value (PDict kvs) \<Rightarrow> (case guards_within (hq_stack rq) (PDict kvs) of
            Inl (ValueError m) \<Rightarrow> Inl (HTTPException 400 m)
          | Inl e \<Rightarrow> Inl (Raised e)
          | Inr _ \<Rightarrow> Inr kvs)
      | Json_value _ \<Rightarrow> Inl (HTTPException 400 ''JSON body must be an object''))"

text \<open>The first three statements of the four routes that take a body.\<close>

definition admit :: "http_request \<Rightarrow> (string \<times> pyv) list action" where
  "admit rq = action_bind (require_api_key rq) (\<lambda>_. action_bind (check_rate rq) (\<lambda>_. action_return (load_json_payload rq)))"

subsection \<open>Exceptions and status codes\<close>

text \<open>The clauses of \<open>run\<close>, the last one with its message.  \<open>SecurityViolation\<close> needs none: the payload has passed
  the guards, and inside a model pydantic turns it into a ValidationError.\<close>

fun persist_error :: "string \<Rightarrow> http_error \<Rightarrow> http_error" where
  "persist_error what (BackpressureError m) = HTTPException 503 m"
| "persist_error what (Raised (DuplicateInputHashError m)) = HTTPException 409 m"
| "persist_error what (Raised (RepositoryUnavailableError m)) = HTTPException 503 m"
| "persist_error what (Raised (ValidationError m)) = HTTPException 400 ''Input validation failed''"
| "persist_error what (Raised (PersistenceIntegrityError m)) = HTTPException 500 ''Persistence integrity check failed''"
| "persist_error what _ = HTTPException 500 what"

text \<open>\<open>calculate\<close> and \<open>prove\<close> have \<open>except HTTPException: raise\<close> in front; \<open>prove\<close> lacks the clauses for
  duplicates and integrity.\<close>

fun calculate_error :: "http_error \<Rightarrow> http_error" where
  "calculate_error (HTTPException code detail) = HTTPException code detail"
| "calculate_error e = persist_error ''Unable to calculate landed cost'' e"

fun prove_error :: "http_error \<Rightarrow> http_error" where
  "prove_error (HTTPException code detail) = HTTPException code detail"
| "prove_error (BackpressureError m) = HTTPException 503 m"
| "prove_error (Raised (RepositoryUnavailableError m)) = HTTPException 503 m"
| "prove_error (Raised (ValidationError m)) = HTTPException 400 ''Input validation failed''"
| "prove_error _ = HTTPException 500 ''Unable to enqueue proof''"

fun training_error :: "string \<Rightarrow> http_error \<Rightarrow> http_error" where
  "training_error what (Raised (RepositoryUnavailableError m)) = HTTPException 503 m"
| "training_error what _ = HTTPException 500 what"

text \<open>\<open>verify\<close> answers every exception with a reason and status 200.\<close>

fun verify_reason :: "http_error \<Rightarrow> string" where
  "verify_reason (Raised (RepositoryUnavailableError m)) = m"
| "verify_reason (Raised (ValidationError m)) = ''Input validation failed: '' @ m"
| "verify_reason e = ''Unable to verify persisted evidence: '' @ http_error_text e"

subsection \<open>Status pages\<close>

definition healthz_route :: "pyv action" where
  "healthz_route st = (Inr (PDict [(''status'', PStr ''ok''), (''database_configured'', PBool (sv_configured (ap_service st)))]), st)"

record dashboard_body = runtime_dashboard +
  db_database_configured :: bool
  db_audit_chain :: "chain_result option"

definition dashboard_of :: "string \<Rightarrow> app_state \<Rightarrow> chain_result option \<Rightarrow> dashboard_body" where
  "dashboard_of h st chain = runtime_dashboard.extend (runtime_view h (ap_runtime st))
     (dashboard_body.fields (sv_configured (ap_service st)) chain)"

definition status_route :: "evidence_env \<Rightarrow> dashboard_body action" where
  "status_route env st = (Inr (dashboard_of (ze_dataset_hash env) st None), st)"

definition dashboard_route :: "evidence_env \<Rightarrow> (nat \<Rightarrow> py_error option) \<Rightarrow> dashboard_body action" where
  "dashboard_route env faults st =
     (if \<not> sv_configured (ap_service st) then (Inr (dashboard_of (ze_dataset_hash env) st None), st)
      else action_bind (service_action (verify_chain faults))
        (\<lambda>chain st'. (Inr (dashboard_of (ze_dataset_hash env) st (Some chain)), st')) st)"

record metrics_body =
  mb_chain_metrics :: "chain_row list"
  mb_backpressure :: "(string \<times> int) list"
  mb_api_keys :: "(string \<times> string \<times> int \<times> int) list"

definition metrics_route :: "metrics_body action" where
  "metrics_route st = (Inr \<lparr>mb_chain_metrics = metrics_rows (sv_metrics (ap_service st)),
     mb_backpressure = depth_snapshot (ap_guard st), mb_api_keys = keys_snapshot (ap_keys st)\<rparr>, st)"

definition start_route :: "(string \<times> runtime_snapshot) action" where
  "start_route = action_bind service_or_503 (\<lambda>_ st. case start_loop (ap_runtime st) of (s, c) \<Rightarrow>
     (Inr (''started'', s), st\<lparr>ap_runtime := c\<rparr>))"

definition stop_route :: "(string \<times> runtime_snapshot) action" where
  "stop_route st = (case stop_loop (ap_runtime st) of (s, c) \<Rightarrow> (Inr (''stopped'', s), st\<lparr>ap_runtime := c\<rparr>))"

subsection \<open>Training data\<close>

definition export_dataset :: "evidence_env \<Rightarrow> string \<Rightarrow> (nat \<Rightarrow> py_error option) \<Rightarrow> int \<Rightarrow> dataset_export service" where
  "export_dataset env now faults limit =
     service_bind require_repository (\<lambda>_.
     service_bind (in_transaction (read_only (fetch_training_candidates (nat limit))) faults) (\<lambda>es.
     with_keys (export_verified_dataset env now es)))"

definition service_moat_metrics :: "evidence_env \<Rightarrow> string \<Rightarrow> string \<Rightarrow> (nat \<Rightarrow> py_error option) \<Rightarrow> int \<Rightarrow> moat_metrics service" where
  "service_moat_metrics env now measured faults limit =
     service_bind (export_dataset env now faults limit) (\<lambda>d. service_return (Inr (compute_moat_metrics measured d)))"

definition check_limit :: "int \<Rightarrow> http_error + unit" where
  "check_limit limit = (if limit < 1 \<or> limit > 10000 then Inl (HTTPException 400 ''limit must be between 1 and 10000'')
     else Inr ())"

definition training_dataset_route ::
  "evidence_env \<Rightarrow> string \<Rightarrow> (nat \<Rightarrow> py_error option) \<Rightarrow> int \<Rightarrow> http_request \<Rightarrow> dataset_export action" where
  "training_dataset_route env now faults limit rq =
     action_bind (require_api_key rq) (\<lambda>_. action_bind (action_return (check_limit limit)) (\<lambda>_.
     except_as (training_error ''Unable to export verified training dataset'')
       (action_bind training_service_or_503 (\<lambda>_. service_action (export_dataset env now faults limit)))))"

definition training_moat_route ::
  "evidence_env \<Rightarrow> string \<Rightarrow> string \<Rightarrow> (nat \<Rightarrow> py_error option) \<Rightarrow> int \<Rightarrow> http_request \<Rightarrow> moat_metrics action" where
  "training_moat_route env now measured faults limit rq =
     action_bind (require_api_key rq) (\<lambda>_. action_bind (action_return (check_limit limit)) (\<lambda>_.
     except_as (training_error ''Unable to compute moat metrics'')
       (action_bind training_service_or_503 (\<lambda>_. service_action (service_moat_metrics env now measured faults limit)))))"

subsection \<open>Calculation\<close>

record calculate_body =
  cb_persisted :: persisted_response
  cb_integrity_hash :: string
  cb_proof_status :: string

definition audit_hash_of :: "persisted_response \<Rightarrow> string option" where
  "audit_hash_of ps = map_option ae_current_hash (eb_audit_log (ps_evidence ps))"

definition recorded :: "http_request \<Rightarrow> persisted_response \<Rightarrow> app_state \<Rightarrow> app_state" where
  "recorded rq ps st = st\<lparr>ap_runtime := record_response (hq_now rq) (ps_response ps) (audit_hash_of ps) ''ok'' (ap_runtime st)\<rparr>"

text \<open>\<open>calculate\<close> validates before it looks for the service; the service validates the dumped model once more.\<close>

definition calculate_admitted :: "evidence_env \<Rightarrow> run_inputs \<Rightarrow> http_request \<Rightarrow> (string \<times> pyv) list \<Rightarrow> calculate_body action" where
  "calculate_admitted env ri rq payload = except_as calculate_error (guarded_action
     (action_bind (action_return (lift_result (validate_request (ze_int_of env) (PDict payload)))) (\<lambda>q.
      action_bind service_or_503 (\<lambda>_.
      action_bind (service_action (calculate_and_persist env ri (request_payload q))) (\<lambda>ps st.
        (Inr \<lparr>cb_persisted = ps, cb_integrity_hash = ia_integrity_hash (rs_integrity (ps_response ps)),
           cb_proof_status = ''persisted''\<rparr>, recorded rq ps st))))))"

definition calculate_route :: "evidence_env \<Rightarrow> run_inputs \<Rightarrow> http_request \<Rightarrow> calculate_body action" where
  "calculate_route env ri rq = action_bind (admit rq) (calculate_admitted env ri rq)"

text \<open>\<open>run\<close> requires a payload and has no clause for HTTPException.\<close>

definition run_admitted :: "evidence_env \<Rightarrow> run_inputs \<Rightarrow> http_request \<Rightarrow> (string \<times> pyv) list \<Rightarrow> persisted_response action" where
  "run_admitted env ri rq payload =
     (if payload = [] then action_return (Inl (HTTPException 400 ''Explicit input payload is required for deterministic execution''))
     else except_as (persist_error ''Unable to run deterministic calculation'')
       (action_bind (guarded_action (action_bind service_or_503 (\<lambda>_.
          service_action (calculate_and_persist env ri (PDict payload))))) (\<lambda>ps st. (Inr ps, recorded rq ps st))))"

definition run_route :: "evidence_env \<Rightarrow> run_inputs \<Rightarrow> http_request \<Rightarrow> persisted_response action" where
  "run_route env ri rq = action_bind (admit rq) (run_admitted env ri rq)"

subsection \<open>Proofs\<close>

record prove_body =
  pb_task_id :: string
  pb_task_status :: string
  pb_trace_hash :: string
  pb_circuit_hash :: string

text \<open>The task goes to the queue with the reading of the clock \<open>hq_now\<close>; \<open>writable\<close> is whether the log of the
  queue can be written.  The reply is built after the guard is released.\<close>

definition submit_packet :: "bool \<Rightarrow> http_request \<Rightarrow> trace_packet \<Rightarrow> string action" where
  "submit_packet writable rq k st = (case submit writable (hq_now rq) (tp_witness_artifact k)
       (ta_trace_hash (tp_trace_artifact k)) ''api_prove'' 1 True (ap_queue st) of
     (r, q) \<Rightarrow> (lift_result r, st\<lparr>ap_queue := q\<rparr>))"

definition prove_reply :: "trace_packet \<Rightarrow> string \<Rightarrow> prove_body" where
  "prove_reply k tid = \<lparr>pb_task_id = tid, pb_task_status = ''pending'', pb_trace_hash = ta_trace_hash (tp_trace_artifact k),
     pb_circuit_hash = artifact_id (tp_witness_artifact k)\<rparr>"

definition prove_admitted :: "evidence_env \<Rightarrow> bool \<Rightarrow> http_request \<Rightarrow> (string \<times> pyv) list \<Rightarrow> prove_body action" where
  "prove_admitted env writable rq payload = except_as prove_error (guarded_action
     (action_bind service_or_503 (\<lambda>_.
      action_bind (action_return (lift_result (packet_for (export_env.truncate env) (PDict payload) ''backend_integration''))) (\<lambda>k.
      action_bind (submit_packet writable rq k) (\<lambda>tid. action_return (Inr (prove_reply k tid)))))))"

definition prove_route :: "evidence_env \<Rightarrow> bool \<Rightarrow> http_request \<Rightarrow> prove_body action" where
  "prove_route env writable rq = action_bind (admit rq) (prove_admitted env writable rq)"

definition proof_reply :: "string \<Rightarrow> proof_task \<Rightarrow> pyv" where
  "proof_reply tid t = PDict ([(''task_id'', PStr tid), (''status'', PStr (state_text (pq_status t)))] @
     (case (pq_status t, pq_result t) of
        (Completed, Some p) \<Rightarrow> (''zk_proof'', json_mode (model_dump (AProof p))) #
          (case pq_verification t of Some v \<Rightarrow> [(''verification'', json_mode (model_dump (AVerdict v)))] | None \<Rightarrow> [])
      | (Failed, _) \<Rightarrow> [(''error'', optional PStr (pq_error t))]
      | _ \<Rightarrow> []))"

definition get_proof_route :: "string \<Rightarrow> http_request \<Rightarrow> pyv action" where
  "get_proof_route tid rq = action_bind (require_api_key rq) (\<lambda>_ st. case get_task (ap_queue st) tid of
     None \<Rightarrow> (Inl (HTTPException 404 ''Proof task not found''), st)
   | Some t \<Rightarrow> (Inr (proof_reply tid t), st))"

subsection \<open>Verification\<close>

datatype verify_reply = Verified_body persisted_verification | Invalid_body string

text \<open>\<open>PersistedVerificationRequest.model_validate\<close>: one field, nothing else.\<close>

definition validate_verification :: "(pyv \<Rightarrow> int option) \<Rightarrow> (string \<times> pyv) list \<Rightarrow> import_request result" where
  "validate_verification int_of kvs = (case map_of kvs ''request'' of
     None \<Rightarrow> Inl (ValidationError ''request'')
   | Some v \<Rightarrow> rbind (validate_request int_of v) (\<lambda>q.
       if list_all (\<lambda>kv. fst kv = ''request'') kvs then Inr q else Inl (ValidationError ''extra_forbidden'')))"

definition verify_admitted :: "evidence_env \<Rightarrow> (nat \<Rightarrow> py_error option) \<Rightarrow> (nat \<Rightarrow> py_error option) \<Rightarrow> http_request
    \<Rightarrow> (string \<times> pyv) list \<Rightarrow> verify_reply action" where
  "verify_admitted env faults chain_faults rq payload st =
     (case action_bind (action_return (lift_result (validate_verification (ze_int_of env) payload))) (\<lambda>q.
       action_bind service_or_503 (\<lambda>_.
       service_action (verify_persisted env (hq_now rq) faults chain_faults (request_payload q)))) st of
       (Inl e, st') \<Rightarrow> (Inr (Invalid_body (verify_reason e)), st')
     | (Inr pv, st') \<Rightarrow> (Inr (Verified_body pv), st'))"

definition verify_route ::
  "evidence_env \<Rightarrow> (nat \<Rightarrow> py_error option) \<Rightarrow> (nat \<Rightarrow> py_error option) \<Rightarrow> http_request \<Rightarrow> verify_reply action" where
  "verify_route env faults chain_faults rq = action_bind (admit rq) (verify_admitted env faults chain_faults rq)"

subsection \<open>Startup and shutdown\<close>

text \<open>What \<open>create_pool\<close> uses of the settings; \<open>connect k\<close> is the outcome of the k-th \<open>asyncpg.create_pool\<close>.\<close>

record pool_settings =
  po_retry_attempts :: int
  po_require_tls :: bool

definition check_tls :: "bool \<Rightarrow> pool_settings \<Rightarrow> unit result" where
  "check_tls allow_plaintext s = (if po_require_tls s \<or> allow_plaintext then Inr ()
     else Inl (RuntimeError (''TLS is required (VRL_DB_REQUIRE_TLS=true by default). '' @
       ''Set VRL_ALLOW_PLAINTEXT=true only in local development.'')))"

fun try_connect :: "(int \<Rightarrow> unit result) \<Rightarrow> int \<Rightarrow> int list \<Rightarrow> unit result" where
  "try_connect connect n [] = Inl (RuntimeError ''Unable to create database pool'')"
| "try_connect connect n (k # ks) = (case connect k of
     Inr u \<Rightarrow> Inr u
   | Inl e \<Rightarrow> if k = n then Inl e else try_connect connect n ks)"

definition create_pool :: "bool \<Rightarrow> (int \<Rightarrow> unit result) \<Rightarrow> pool_settings \<Rightarrow> unit result" where
  "create_pool allow_plaintext connect s = rbind (check_tls allow_plaintext s) (\<lambda>_.
     try_connect connect (po_retry_attempts s) [1..po_retry_attempts s])"

definition startup ::
  "bool \<Rightarrow> bool \<Rightarrow> (int \<Rightarrow> unit result) \<Rightarrow> pool_settings option \<Rightarrow> app_state \<Rightarrow> unit result \<times> app_state" where
  "startup production allow_plaintext connect settings st =
     (let st1 = st\<lparr>ap_runtime := snd (stop_loop (ap_runtime st))\<rparr>;
          up = (\<lambda>conf. st1\<lparr>ap_service := (ap_service st)\<lparr>sv_configured := conf\<rparr>, ap_training := True\<rparr>) in
      case settings of
        None \<Rightarrow> if production
          then (Inl (RuntimeError ''VRL_DATABASE_URL is required when VRL_ENV=production''), st1)
          else (Inr (), up False)
      | Some s \<Rightarrow> (case create_pool allow_plaintext connect s of Inl e \<Rightarrow> (Inl e, st1) | Inr _ \<Rightarrow> (Inr (), up True)))"

definition shutdown :: "app_state \<Rightarrow> app_state" where
  "shutdown st = st\<lparr>ap_runtime := snd (stop_loop (ap_runtime st))\<rparr>"

end
