(* ===== verification/Http_Properties.thy ===== *)
theory Http_Properties
  imports Http_Routes
begin

text \<open>
  What the routes guarantee together: any sequence of requests keeps the store valid and gives back
  the capacity it took, keys and rates are enforced before anything else, and a stored calculation can be
  verified through the interface; and the status codes that are not what the handlers mean to send.
\<close>

subsection \<open>All routes\<close>

type_synonym db_faults = "nat \<Rightarrow> py_error option"

datatype route =
    Healthz | Status_page | Dashboard db_faults | Metrics_page | Start_runtime | Stop_runtime
  | Training_dataset string db_faults int http_request
  | Training_moat string string db_faults int http_request
  | Calculate run_inputs http_request
  | Run run_inputs http_request
  | Prove bool http_request
  | Get_proof string http_request
  | Verify db_faults db_faults http_request

definition answer :: "'a action \<Rightarrow> app_state \<Rightarrow> int \<times> app_state" where
  "answer m st = (case m st of (r, st') \<Rightarrow> (http_status r, st'))"

fun route_step :: "evidence_env \<Rightarrow> route \<Rightarrow> app_state \<Rightarrow> int \<times> app_state" where
  "route_step env Healthz = answer healthz_route"
| "route_step env Status_page = answer (status_route env)"
| "route_step env (Dashboard faults) = answer (dashboard_route env faults)"
| "route_step env Metrics_page = answer metrics_route"
| "route_step env Start_runtime = answer start_route"
| "route_step env Stop_runtime = answer stop_route"
| "route_step env (Training_dataset now faults limit rq) = answer (training_dataset_route env now faults limit rq)"
| "route_step env (Training_moat now measured faults limit rq) = answer (training_moat_route env now measured faults limit rq)"
| "route_step env (Calculate ri rq) = answer (calculate_route env ri rq)"
| "route_step env (Run ri rq) = answer (run_route env ri rq)"
| "route_step env (Prove writable rq) = answer (prove_route env writable rq)"
| "route_step env (Get_proof tid rq) = answer (get_proof_route tid rq)"
| "route_step env (Verify faults chain_faults rq) = answer (verify_route env faults chain_faults rq)"

fun run_routes :: "evidence_env \<Rightarrow> route list \<Rightarrow> app_state \<Rightarrow> int list \<times> app_state" where
  "run_routes env [] st = ([], st)"
| "run_routes env (r # rs) st = (case route_step env r st of (code, st1) \<Rightarrow>
     (case run_routes env rs st1 of (codes, st2) \<Rightarrow> (code # codes, st2)))"

subsection \<open>What no route can break\<close>

definition service_rel :: "service_state \<Rightarrow> service_state \<Rightarrow> bool" where
  "service_rel s t \<longleftrightarrow> sv_configured t = sv_configured s
     \<and> (metrics_ok (sv_metrics s) \<longrightarrow> metrics_ok (sv_metrics t) \<and> store_step\<^sup>*\<^sup>* (sv_db s) (sv_db t))"

definition inner_rel :: "app_state \<Rightarrow> app_state \<Rightarrow> bool" where
  "inner_rel s t \<longleftrightarrow> service_rel (ap_service s) (ap_service t) \<and> ap_training t = ap_training s
     \<and> ap_limiter t = ap_limiter s \<and> ap_keys t = ap_keys s \<and> dg_max (ap_guard t) = dg_max (ap_guard s)
     \<and> (0 \<le> dg_current (ap_guard s) \<longrightarrow> dg_current (ap_guard t) = dg_current (ap_guard s))"

definition app_rel :: "app_state \<Rightarrow> app_state \<Rightarrow> bool" where
  "app_rel s t \<longleftrightarrow> inner_rel (s\<lparr>ap_limiter := ap_limiter t, ap_keys := ap_keys t\<rparr>) t"

lemma service_rel_refl [simp]: "service_rel s s"
  by (simp add: service_rel_def)

lemma service_rel_trans: "service_rel s t \<Longrightarrow> service_rel t u \<Longrightarrow> service_rel s u"
  by (auto simp: service_rel_def)

lemma inner_rel_refl [simp]: "inner_rel s s"
  by (simp add: inner_rel_def)

lemma inner_rel_trans: "inner_rel s t \<Longrightarrow> inner_rel t u \<Longrightarrow> inner_rel s u"
  by (auto simp: inner_rel_def intro: service_rel_trans)

lemma app_rel_refl [simp]: "app_rel s s"
  by (simp add: app_rel_def)

lemma app_rel_trans: "app_rel s t \<Longrightarrow> app_rel t u \<Longrightarrow> app_rel s u"
  by (auto simp: app_rel_def inner_rel_def intro: service_rel_trans)

lemma inner_app_rel: "inner_rel s t \<Longrightarrow> app_rel s t"
  by (auto simp: app_rel_def inner_rel_def)

definition service_keeps :: "'a service \<Rightarrow> bool" where
  "service_keeps m \<longleftrightarrow> (\<forall>s. service_rel s (snd (m s)))"

definition action_keeps :: "'a action \<Rightarrow> bool" where
  "action_keeps m \<longleftrightarrow> (\<forall>s. inner_rel s (snd (m s)))"

lemma service_keeps_bind: "service_keeps m \<Longrightarrow> (\<And>x. service_keeps (f x)) \<Longrightarrow> service_keeps (service_bind m f)"
  unfolding service_keeps_def service_bind_def
  by (auto split: prod.splits sum.splits) (metis service_rel_trans snd_conv)+

lemma read_only_keeps: "sv_db (snd (in_transaction (read_only f) faults s)) = sv_db s
    \<and> sv_metrics (snd (in_transaction (read_only f) faults s)) = sv_metrics s
    \<and> sv_configured (snd (in_transaction (read_only f) faults s)) = sv_configured s"
  by (auto simp: in_transaction_def transaction_def read_only_def statement_def rolled_back_def split: option.splits)

lemma service_keeps_parts: "service_keeps (service_return r)" "service_keeps (with_keys l)" "service_keeps require_repository"
    "service_keeps (in_transaction (read_only f) faults)"
  using read_only_keeps [of f faults]
  by (auto simp: service_keeps_def service_rel_def service_return_def with_keys_def require_repository_def
      split: prod.splits)

lemma service_keeps_calculate: "service_keeps (calculate_and_persist env ri v)"
  unfolding service_keeps_def service_rel_def
  using steady_calculate [of env ri v] call_outcome [of _ env ri v] unfolding steady_def by (metis prod.collapse)

lemma service_keeps_chain: "service_keeps (verify_chain faults)"
  unfolding verify_chain_def by (intro service_keeps_bind service_keeps_parts)

lemma service_keeps_verify: "service_keeps (verify_persisted env now faults chain_faults v)"
  unfolding verify_persisted_def
  by (intro service_keeps_bind service_keeps_parts service_keeps_chain)
    (auto intro!: service_keeps_bind service_keeps_parts split: option.splits)

lemma service_keeps_export: "service_keeps (export_dataset env now faults limit)"
  "service_keeps (service_moat_metrics env now measured faults limit)"
  unfolding service_moat_metrics_def export_dataset_def by (intro service_keeps_bind service_keeps_parts)+

lemma action_keeps_bind: "action_keeps m \<Longrightarrow> (\<And>x. action_keeps (f x)) \<Longrightarrow> action_keeps (action_bind m f)"
  unfolding action_keeps_def action_bind_def
  by (auto split: prod.splits sum.splits) (metis inner_rel_trans snd_conv)+

lemma action_keeps_except: "action_keeps m \<Longrightarrow> action_keeps (except_as f m)"
  unfolding action_keeps_def except_as_def by (auto split: prod.splits sum.splits) (metis snd_conv)+

lemma action_keeps_service: "service_keeps m \<Longrightarrow> action_keeps (service_action m)"
  unfolding action_keeps_def service_keeps_def service_action_def inner_rel_def
  by (auto split: prod.splits) (metis snd_conv)

lemma action_keeps_guarded:
  assumes "action_keeps m" shows "action_keeps (guarded_action m)"
  unfolding action_keeps_def
proof
  fix s :: app_state
  obtain r g where a: "acquire (ap_guard s) = (r, g)" by fastforce
  show "inner_rel s (snd (guarded_action m s))"
  proof (cases r)
    case (Inl e)
    then show ?thesis using a by (auto simp: guarded_action_def inner_rel_def acquire_def split: if_splits)
  next
    case (Inr u)
    then have g: "dg_current g = dg_current (ap_guard s) + 1" "dg_max g = dg_max (ap_guard s)"
      using a by (auto simp: acquire_def split: if_splits)
    have "inner_rel (s\<lparr>ap_guard := g\<rparr>) (snd (m (s\<lparr>ap_guard := g\<rparr>)))" using assms by (simp add: action_keeps_def)
    then show ?thesis using a Inr g by (auto simp: guarded_action_def inner_rel_def release_def split: prod.splits)
  qed
qed

lemma action_keeps_parts:
  "action_keeps (action_return r)" "action_keeps service_or_503" "action_keeps training_service_or_503"
  "action_keeps (submit_packet writable rq k)" "action_keeps (\<lambda>st. (x st, recorded rq ps st))" "action_keeps (\<lambda>st. (x st, st))"
  by (auto simp: action_keeps_def action_return_def service_or_503_def training_service_or_503_def
      submit_packet_def recorded_def inner_rel_def split: prod.splits option.splits)

lemmas action_keeps_rules = action_keeps_bind action_keeps_except action_keeps_guarded action_keeps_service
  action_keeps_parts service_keeps_calculate service_keeps_chain service_keeps_verify service_keeps_export

lemma action_keeps_admitted:
  "action_keeps (calculate_admitted env ri rq payload)" "action_keeps (prove_admitted env writable rq payload)"
  "action_keeps (run_admitted env ri rq payload)"
  unfolding calculate_admitted_def prove_admitted_def run_admitted_def
  by (intro action_keeps_rules, intro action_keeps_rules) (auto intro!: action_keeps_rules)

lemma action_keeps_verify: "action_keeps (verify_admitted env faults chain_faults rq payload)"
proof -
  have "action_keeps (action_bind (action_return (lift_result (validate_verification (ze_int_of env) payload))) (\<lambda>q.
     action_bind service_or_503 (\<lambda>_. service_action (verify_persisted env (hq_now rq) faults chain_faults (request_payload q)))))"
    by (intro action_keeps_rules)
  then show ?thesis
    unfolding action_keeps_def verify_admitted_def by (auto split: prod.splits sum.splits) (metis snd_conv)+
qed

lemma action_keeps_pages:
  "action_keeps healthz_route" "action_keeps (status_route env)" "action_keeps metrics_route" "action_keeps stop_route"
  by (auto simp: action_keeps_def healthz_route_def status_route_def metrics_route_def stop_route_def inner_rel_def split: prod.splits)

lemma action_keeps_start: "action_keeps start_route"
  unfolding start_route_def
  by (intro action_keeps_bind action_keeps_parts) (auto simp: action_keeps_def inner_rel_def split: prod.splits)

lemma action_keeps_dashboard: "action_keeps (dashboard_route env faults)"
proof -
  have "action_keeps (action_bind (service_action (verify_chain faults))
      (\<lambda>chain st'. (Inr (dashboard_of (ze_dataset_hash env) st (Some chain)), st')))" for st
    by (intro action_keeps_rules)
  then show ?thesis by (auto simp: action_keeps_def dashboard_route_def)
qed

subsection \<open>Admission\<close>

text \<open>The key of a request is accepted when no keys are registered or its digest is stored.\<close>

definition key_accepted :: "http_request \<Rightarrow> app_state \<Rightarrow> bool" where
  "key_accepted rq st \<longleftrightarrow> \<not> keys_enabled (ap_keys st)
     \<or> (case hq_api_key rq of None \<Rightarrow> False | Some key \<Rightarrow> key \<noteq> [] \<and> sha256_hex key \<in> store_hashes (ap_keys st))"

definition rate_ok :: "http_request \<Rightarrow> app_state \<Rightarrow> bool" where
  "rate_ok rq st \<longleftrightarrow> rr_allowed (fst (allow (ap_limiter st) (hq_time rq) (client_key rq)))"

definition counted_state :: "http_request \<Rightarrow> app_state \<Rightarrow> app_state" where
  "counted_state rq st = (snd (require_api_key rq st))\<lparr>ap_limiter := snd (allow (ap_limiter st) (hq_time rq) (client_key rq))\<rparr>"

lemma require_api_key_cases:
  "(if key_accepted rq st then fst (require_api_key rq st) = Inr ()
     else (\<exists>m. require_api_key rq st = (Inl (HTTPException 401 m), st)))
   \<and> snd (require_api_key rq st) = st\<lparr>ap_keys := ap_keys (snd (require_api_key rq st))\<rparr>"
proof (cases "hq_api_key rq")
  case (Some key)
  obtain r ks where a: "authenticate (hq_today rq) key (ap_keys st) = (r, ks)" by fastforce
  have r: "r \<noteq> None \<longleftrightarrow> sha256_hex key \<in> store_hashes (ap_keys st)" using authenticate_iff a by (metis fst_conv)
  have "r = None \<Longrightarrow> ks = ap_keys st" using a by (auto simp: authenticate_def Let_def split: option.splits)
  then show ?thesis using a r Some by (cases r) (auto simp: require_api_key_def key_accepted_def)
qed (simp add: require_api_key_def key_accepted_def)

lemma require_api_key_limiter [simp]: "ap_limiter (snd (require_api_key rq st)) = ap_limiter st"
  using require_api_key_cases [of rq st] by (metis app_state.select_convs(3) app_state.surjective app_state.update_convs(5))

lemma admit_cases:
  "(\<not> key_accepted rq st \<longrightarrow> (\<exists>m. admit rq st = (Inl (HTTPException 401 m), st)))
   \<and> (key_accepted rq st \<and> \<not> rate_ok rq st \<longrightarrow> admit rq st = (Inl (HTTPException 429 ''Rate limit exceeded''), counted_state rq st))
   \<and> (key_accepted rq st \<and> rate_ok rq st \<longrightarrow> admit rq st = (load_json_payload rq, counted_state rq st))"
proof (cases "key_accepted rq st")
  case True
  then obtain st1 where k: "require_api_key rq st = (Inr (), st1)" using require_api_key_cases [of rq st] by (metis prod.collapse)
  then have "ap_limiter st1 = ap_limiter st" using require_api_key_limiter by (metis snd_conv)
  then show ?thesis using k True
    by (auto simp: admit_def action_bind_def check_rate_def rate_ok_def counted_state_def action_return_def split: prod.splits sum.splits)
next
  case False
  then show ?thesis using require_api_key_cases [of rq st] by (auto simp: admit_def action_bind_def)
qed

subsection \<open>The errors of the bodies\<close>

fun http_codes :: "int set \<Rightarrow> http_error + 'a \<Rightarrow> bool" where
  "http_codes C (Inl (HTTPException code detail)) \<longleftrightarrow> code \<in> C"
| "http_codes C r \<longleftrightarrow> True"

definition raises_codes :: "int set \<Rightarrow> 'a action \<Rightarrow> bool" where
  "raises_codes C m \<longleftrightarrow> (\<forall>st. http_codes C (fst (m st)))"

definition answers_codes :: "int set \<Rightarrow> 'a action \<Rightarrow> bool" where
  "answers_codes C m \<longleftrightarrow> (\<forall>st. http_codes C (fst (m st))
     \<and> (\<forall>e. fst (m st) \<noteq> Inl (Raised e)) \<and> (\<forall>e. fst (m st) \<noteq> Inl (BackpressureError e)))"

lemma http_codes_UNIV [simp]: "http_codes UNIV r"
  by (cases "(UNIV :: int set, r)" rule: http_codes.cases) auto

lemma http_codes_mono: "http_codes C r \<Longrightarrow> C \<subseteq> D \<Longrightarrow> http_codes D r"
  by (cases "(C, r)" rule: http_codes.cases) auto

lemma http_codes_cases: "http_codes C (Inl e) \<longleftrightarrow> (\<forall>code detail. e = HTTPException code detail \<longrightarrow> code \<in> C)"
  by (cases e) auto

lemma raises_codes_bind: "raises_codes C m \<Longrightarrow> (\<And>x. raises_codes C (f x)) \<Longrightarrow> raises_codes C (action_bind m f)"
  unfolding raises_codes_def action_bind_def
  by (auto simp: http_codes_cases split: prod.splits sum.splits) (metis fst_conv http_codes_cases)

lemma raises_codes_parts:
  "raises_codes C (action_return (lift_result r))" "raises_codes C (action_return (Inr x))" "raises_codes C (service_action m)"
  "raises_codes C (submit_packet writable rq k)" "raises_codes C (\<lambda>st. (Inr (y st), z st))"
  "503 \<in> C \<Longrightarrow> raises_codes C service_or_503" "503 \<in> C \<Longrightarrow> raises_codes C training_service_or_503"
  by (auto simp: raises_codes_def action_return_def lift_result_def service_action_def submit_packet_def service_or_503_def
      training_service_or_503_def split: prod.splits sum.splits)

lemma raises_codes_guarded: "raises_codes C m \<Longrightarrow> raises_codes C (guarded_action m)"
  unfolding raises_codes_def guarded_action_def by (auto split: prod.splits sum.splits) (metis fst_conv)

lemmas raises_codes_rules = raises_codes_bind raises_codes_parts raises_codes_guarded

lemma answers_codes_except:
  assumes "raises_codes C m" "\<And>e. http_codes C (Inl e :: http_error + 'a) \<Longrightarrow> \<exists>code \<in> D. \<exists>detail. f e = HTTPException code detail"
  shows "answers_codes D (except_as f (m :: 'a action))"
  unfolding answers_codes_def
proof
  fix st
  obtain r st' where m: "m st = (r, st')" by fastforce
  show "http_codes D (fst (except_as f m st)) \<and> (\<forall>e. fst (except_as f m st) \<noteq> Inl (Raised e))
      \<and> (\<forall>e. fst (except_as f m st) \<noteq> Inl (BackpressureError e))"
  proof (cases r)
    case (Inl e)
    have "http_codes C r" using assms(1) m unfolding raises_codes_def by (metis fst_conv)
    then obtain code detail where "code \<in> D" "f e = HTTPException code detail" using assms(2) [of e] Inl by blast
    then show ?thesis using m Inl by (simp add: except_as_def)
  qed (use m in \<open>simp add: except_as_def\<close>)
qed

lemma persist_error_codes: "\<exists>code \<in> {400, 409, 500, 503}. \<exists>detail. persist_error what e = HTTPException code detail"
  by (cases "(what, e)" rule: persist_error.cases) auto

lemma calculate_error_codes:
  "http_codes {503} (Inl e) \<Longrightarrow> \<exists>code \<in> {400, 409, 500, 503}. \<exists>detail. calculate_error e = HTTPException code detail"
proof (cases e)
  case (Raised x)
  then show ?thesis using persist_error_codes [of "''Unable to calculate landed cost''" e] by simp
qed (auto simp: http_codes_cases)

lemma prove_error_codes:
  "http_codes {503} (Inl e) \<Longrightarrow> \<exists>code \<in> {400, 500, 503}. \<exists>detail. prove_error e = HTTPException code detail"
  by (cases e rule: prove_error.cases) (auto simp: http_codes_cases)

lemma calculate_admitted_codes: "answers_codes {400, 409, 500, 503} (calculate_admitted env ri rq payload)"
  unfolding calculate_admitted_def
  by (rule answers_codes_except [where C = "{503}"]) (intro raises_codes_rules insertI1, rule calculate_error_codes)

lemma prove_admitted_codes: "answers_codes {400, 500, 503} (prove_admitted env writable rq payload)"
  unfolding prove_admitted_def
  by (rule answers_codes_except [where C = "{503}"]) (intro raises_codes_rules insertI1, rule prove_error_codes)

lemma run_admitted_codes: "answers_codes {400, 409, 500, 503} (run_admitted env ri rq payload)"
proof (cases "payload = []")
  case False
  have "answers_codes {400, 409, 500, 503} (except_as (persist_error ''Unable to run deterministic calculation'')
      (action_bind (guarded_action (action_bind service_or_503 (\<lambda>_.
        service_action (calculate_and_persist env ri (PDict payload))))) (\<lambda>ps st. (Inr ps, recorded rq ps st))))"
    by (rule answers_codes_except [where C = "{503}"]) (intro raises_codes_rules insertI1, rule persist_error_codes)
  then show ?thesis using False by (simp add: run_admitted_def)
qed (simp add: run_admitted_def answers_codes_def action_return_def)

lemma verify_admitted_codes: "answers_codes {} (verify_admitted env faults chain_faults rq payload)"
  by (auto simp: answers_codes_def verify_admitted_def split: prod.splits sum.splits)

lemmas admitted_codes = calculate_admitted_codes run_admitted_codes prove_admitted_codes verify_admitted_codes

subsection \<open>What decoding may end with\<close>

text \<open>A body that no handler is prepared for: decoding it raises something else than \<open>JSONDecodeError\<close>, the guards raise something
  else than a SecurityViolation on a string that is not encodable, or canonicalising it raises (for a float, or for want of
  stack).\<close>

definition escapes :: "http_request \<Rightarrow> py_error \<Rightarrow> bool" where
  "escapes rq e \<longleftrightarrow> hq_length rq \<noteq> 0 \<and> hq_length rq \<le> int max_request_bytes
     \<and> (hq_decoded rq = Json_raises e \<or> hq_decoded rq = Json_refused (Inr e)
       \<or> (\<exists>kvs. hq_decoded rq = Json_value (PDict kvs) \<and> canonicalize_within (hq_stack rq) (PDict kvs) = Inl e))"

lemma guards_security: "canonicalize v = Inr w \<Longrightarrow> enforce_payload_guards v = Inl e \<Longrightarrow> \<exists>m. e = ValueError m"
  using guards_error [of v] guards_type_error [of v] canonicalize_ok_iff [of v] by auto

lemma guards_within_Inl:
  "guards_within n v = Inl e \<longleftrightarrow> canonicalize_within n v = Inl e
    \<or> (\<exists>w. canonicalize_within n v = Inr w) \<and> enforce_payload_guards v = Inl e"
  by (cases "canonicalize_within n v") (auto simp: guards_within_def)

lemma canonicalize_within_error: "canonicalize_within n v = Inl e \<Longrightarrow> e = TypeError \<or> e = recursion_error"
  using within_agrees [of n v] canonicalize_error [of v] by auto

lemma load_json_raises: "load_json_payload rq = Inl (Raised e) \<longleftrightarrow> escapes rq e"
proof (cases "hq_length rq \<noteq> 0 \<and> hq_length rq \<le> int max_request_bytes")
  case True
  have g: "(case guards_within n v of Inl (ValueError m) \<Rightarrow> Inl (HTTPException 400 m) | Inl e \<Rightarrow> Inl (Raised e)
      | Inr _ \<Rightarrow> Inr kvs) = Inl (Raised e) \<longleftrightarrow> canonicalize_within n v = Inl e" for n v and kvs :: "(string \<times> pyv) list"
  proof (cases "canonicalize_within n v")
    case (Inl x)
    then show ?thesis using canonicalize_within_error [OF Inl] by (auto simp: guards_within_def recursion_error_def)
  next
    case (Inr w)
    then have "canonicalize v = Inr w" using within_agrees [of n v] by auto
    then show ?thesis using Inr guards_security
      by (cases "enforce_payload_guards v") (fastforce simp: guards_within_def split: py_error.splits)+
  qed
  show ?thesis using True
    by (auto simp: load_json_payload_def escapes_def g simp del: canonicalize_within.simps split: json_outcome.splits pyv.splits sum.splits)
qed (auto simp: load_json_payload_def escapes_def)

lemma load_json_codes: "http_codes {400, 413} (load_json_payload rq)"
  by (auto simp: load_json_payload_def split: json_outcome.splits pyv.splits sum.splits py_error.splits)

lemma admitted_raises:
  assumes "\<And>payload. answers_codes C (f payload)"
  shows "fst (action_bind (admit rq) f st) = Inl (Raised e) \<longleftrightarrow> key_accepted rq st \<and> rate_ok rq st \<and> escapes rq e"
  using admit_cases [of rq st] assms load_json_raises [of rq e]
  by (auto simp: action_bind_def answers_codes_def split: prod.splits sum.splits)

lemma admitted_code:
  assumes "\<And>payload. answers_codes C (f payload)"
  shows "http_codes (C \<union> {400, 401, 413, 429}) (fst (action_bind (admit rq) f st))"
    and "401 \<notin> C \<Longrightarrow> http_status (fst (action_bind (admit rq) f st)) = 401 \<longleftrightarrow> \<not> key_accepted rq st"
    and "401 \<notin> C \<Longrightarrow> 429 \<notin> C \<Longrightarrow> http_status (fst (action_bind (admit rq) f st)) = 429 \<longleftrightarrow> key_accepted rq st \<and> \<not> rate_ok rq st"
proof -
  obtain r st1 where a: "admit rq st = (r, st1)" by fastforce
  have l: "key_accepted rq st \<and> rate_ok rq st \<Longrightarrow> http_codes {400, 413} r"
    using a admit_cases [of rq st] load_json_codes [of rq] by (metis fst_conv)
  have f: "http_codes C (fst (f payload st1))" "\<And>e. fst (f payload st1) \<noteq> Inl (Raised e)" for payload
    using assms unfolding answers_codes_def by blast+
  have k: "\<not> key_accepted rq st \<Longrightarrow> \<exists>m. r = Inl (HTTPException 401 m)"
    "key_accepted rq st \<Longrightarrow> \<not> rate_ok rq st \<Longrightarrow> r = Inl (HTTPException 429 ''Rate limit exceeded'')"
    using a admit_cases [of rq st] by auto
  have s: "http_status x \<in> D \<union> {200, 500}" if "http_codes D x" for D and x :: "http_error + 'b"
    using that by (cases "(D, x)" rule: http_codes.cases) auto
  show "http_codes (C \<union> {400, 401, 413, 429}) (fst (action_bind (admit rq) f st))"
    using k l a by (cases r; cases "key_accepted rq st"; cases "rate_ok rq st")
      (auto simp: action_bind_def http_codes_cases intro: http_codes_mono [OF f(1)])
  have b: "key_accepted rq st \<Longrightarrow> rate_ok rq st \<Longrightarrow> http_status (fst (action_bind (admit rq) f st)) \<in> C \<union> {200, 400, 413, 500}"
    using l s [of "{400, 413}" "fst (action_bind (admit rq) f st)"] s [OF f(1)] a
    by (cases r) (auto simp: action_bind_def http_codes_cases)
  show "401 \<notin> C \<Longrightarrow> http_status (fst (action_bind (admit rq) f st)) = 401 \<longleftrightarrow> \<not> key_accepted rq st"
    using b k a by (cases "key_accepted rq st"; cases "rate_ok rq st") (auto simp: action_bind_def)
  show "401 \<notin> C \<Longrightarrow> 429 \<notin> C \<Longrightarrow> http_status (fst (action_bind (admit rq) f st)) = 429 \<longleftrightarrow> key_accepted rq st \<and> \<not> rate_ok rq st"
    using b k a by (cases "key_accepted rq st"; cases "rate_ok rq st") (auto simp: action_bind_def)
qed

subsection \<open>Requests that need a key or count against the rate\<close>

fun limited_request :: "route \<Rightarrow> http_request option" where
  "limited_request (Calculate ri rq) = Some rq"
| "limited_request (Run ri rq) = Some rq"
| "limited_request (Prove writable rq) = Some rq"
| "limited_request (Verify faults chain_faults rq) = Some rq"
| "limited_request r = None"

fun keyed_request :: "route \<Rightarrow> http_request option" where
  "keyed_request (Training_dataset now faults limit rq) = Some rq"
| "keyed_request (Training_moat now measured faults limit rq) = Some rq"
| "keyed_request (Get_proof tid rq) = Some rq"
| "keyed_request r = limited_request r"

lemma admitted_step:
  assumes "\<And>payload. answers_codes C (f payload)" "\<And>payload. action_keeps (f payload)" "401 \<notin> C" "429 \<notin> C"
    and "answer (action_bind (admit rq) f) st = (code, st')"
  shows "(code = 401 \<longleftrightarrow> \<not> key_accepted rq st) \<and> (code = 429 \<longleftrightarrow> key_accepted rq st \<and> \<not> rate_ok rq st)
    \<and> (if key_accepted rq st then inner_rel (counted_state rq st) st' else st' = st)"
proof -
  have code: "code = http_status (fst (action_bind (admit rq) f st))" "st' = snd (action_bind (admit rq) f st)"
    using assms(5) by (auto simp: answer_def split: prod.splits)
  have "inner_rel s (snd (f payload s))" for payload s using assms(2) by (simp add: action_keeps_def)
  then show ?thesis
    using admitted_code(2,3) [of C f rq st] assms(1,3,4) admit_cases [of rq st] code
    by (auto simp: action_bind_def split: prod.splits sum.splits)
qed

lemma limited_step:
  assumes "limited_request r = Some rq" "route_step env r st = (code, st')"
  shows "(code = 401 \<longleftrightarrow> \<not> key_accepted rq st) \<and> (code = 429 \<longleftrightarrow> key_accepted rq st \<and> \<not> rate_ok rq st)
    \<and> (if key_accepted rq st then inner_rel (counted_state rq st) st' else st' = st)"
  using assms
  by (cases r)
    (auto simp: calculate_route_def run_route_def prove_route_def verify_route_def
      dest!: admitted_step [OF calculate_admitted_codes action_keeps_admitted(1), simplified]
        admitted_step [OF run_admitted_codes action_keeps_admitted(3), simplified]
        admitted_step [OF prove_admitted_codes action_keeps_admitted(2), simplified]
        admitted_step [OF verify_admitted_codes action_keeps_verify, simplified])

lemma keyed_step:
  assumes "raises_codes C m" "action_keeps m" "401 \<notin> C"
    and "answer (action_bind (require_api_key rq) (\<lambda>_. m)) st = (code, st')"
  shows "(code = 401 \<longleftrightarrow> \<not> key_accepted rq st) \<and> (\<not> key_accepted rq st \<longrightarrow> st' = st)
    \<and> app_rel st st' \<and> ap_limiter st' = ap_limiter st"
proof (cases "key_accepted rq st")
  case False
  then show ?thesis using assms(4) require_api_key_cases [of rq st] by (auto simp: answer_def action_bind_def)
next
  case True
  then obtain st1 where k: "require_api_key rq st = (Inr (), st1)" "st1 = st\<lparr>ap_keys := ap_keys st1\<rparr>"
    using require_api_key_cases [of rq st] by (metis prod.collapse)
  obtain r st2 where m: "m st1 = (r, st2)" by fastforce
  have "http_codes C r" using assms(1) m unfolding raises_codes_def by (metis fst_conv)
  then have "http_status r \<noteq> 401" using assms(3) by (cases "(C, r)" rule: http_codes.cases) auto
  moreover have "inner_rel st1 st2" using assms(2) m unfolding action_keeps_def by (metis snd_conv)
  then have "app_rel st st2" "ap_limiter st2 = ap_limiter st"
    using k(2) by (auto simp: app_rel_def inner_rel_def) (metis app_state.select_convs app_state.surjective app_state.update_convs(5))+
  ultimately show ?thesis using assms(4) k m True by (auto simp: answer_def action_bind_def)
qed

text \<open>The other routes with a key.\<close>

lemma training_actions:
  "raises_codes {400, 500, 503} (action_bind (action_return (check_limit limit)) (\<lambda>_. except_as (training_error what)
     (action_bind training_service_or_503 (\<lambda>_. service_action m))))"
  "service_keeps m \<Longrightarrow> action_keeps (action_bind (action_return (check_limit limit)) (\<lambda>_. except_as (training_error what)
     (action_bind training_service_or_503 (\<lambda>_. service_action m))))"
proof -
  have "\<exists>code \<in> {500, 503}. \<exists>detail. training_error what e = HTTPException code detail" for e
    by (cases "(what, e)" rule: training_error.cases) auto
  then have "answers_codes {500, 503} (except_as (training_error what) (action_bind training_service_or_503 (\<lambda>_. service_action m)))"
    by (intro answers_codes_except [where C = UNIV]) (auto simp: raises_codes_def)
  then have "raises_codes {400, 500, 503} (except_as (training_error what) (action_bind training_service_or_503 (\<lambda>_. service_action m)))"
    unfolding answers_codes_def raises_codes_def by (auto elim: http_codes_mono)
  moreover have "raises_codes {400, 500, 503} (action_return (check_limit limit))"
    by (simp add: raises_codes_def action_return_def check_limit_def)
  ultimately show "raises_codes {400, 500, 503} (action_bind (action_return (check_limit limit)) (\<lambda>_. except_as (training_error what)
     (action_bind training_service_or_503 (\<lambda>_. service_action m))))"
    by (intro raises_codes_bind)
  show "service_keeps m \<Longrightarrow> action_keeps (action_bind (action_return (check_limit limit)) (\<lambda>_. except_as (training_error what)
     (action_bind training_service_or_503 (\<lambda>_. service_action m))))"
    by (intro action_keeps_rules)
qed

lemma task_action:
  "raises_codes {404} (\<lambda>st. case get_task (ap_queue st) tid of None \<Rightarrow> (Inl (HTTPException 404 ''Proof task not found''), st)
     | Some t \<Rightarrow> (Inr (proof_reply tid t), st))"
  "action_keeps (\<lambda>st. case get_task (ap_queue st) tid of None \<Rightarrow> (Inl (HTTPException 404 ''Proof task not found''), st)
     | Some t \<Rightarrow> (Inr (proof_reply tid t), st))"
  by (auto simp: raises_codes_def action_keeps_def split: option.splits)

lemma keyed_route:
  assumes "keyed_request r = Some rq" "limited_request r = None" "route_step env r st = (code, st')"
  shows "(code = 401 \<longleftrightarrow> \<not> key_accepted rq st) \<and> (\<not> key_accepted rq st \<longrightarrow> st' = st)
    \<and> app_rel st st' \<and> ap_limiter st' = ap_limiter st"
  using assms
  by (cases r)
    (simp_all add: training_dataset_route_def training_moat_route_def get_proof_route_def
      keyed_step [OF training_actions(1) training_actions(2) [OF service_keeps_export(1)]]
      keyed_step [OF training_actions(1) training_actions(2) [OF service_keeps_export(2)]]
      keyed_step [OF task_action])

lemma answer_keeps: "action_keeps m \<Longrightarrow> inner_rel st (snd (answer m st))"
  by (auto simp: action_keeps_def answer_def split: prod.splits) (metis snd_conv)

lemma page_step:
  assumes "keyed_request r = None" shows "inner_rel st (snd (route_step env r st))"
  using assms by (cases r) (simp_all add: answer_keeps action_keeps_pages action_keeps_start action_keeps_dashboard)

lemma limited_keyed: "limited_request r = Some rq \<Longrightarrow> keyed_request r = Some rq"
  by (cases r) auto

lemma counted_app_rel: "inner_rel (counted_state rq st) st' \<Longrightarrow> app_rel st st'"
  using require_api_key_cases [of rq st]
  by (auto simp: counted_state_def app_rel_def inner_rel_def)
    (metis app_state.select_convs app_state.surjective app_state.update_convs(5))+

lemma route_step_keeps: "app_rel st (snd (route_step env r st))"
proof (cases "keyed_request r")
  case (Some rq)
  obtain code st' where s: "route_step env r st = (code, st')" by fastforce
  show ?thesis
  proof (cases "limited_request r")
    case None
    then show ?thesis using keyed_route [OF Some None s] s by simp
  next
    case l: (Some rq')
    then show ?thesis using limited_step [OF l s] s counted_app_rel by (auto split: if_splits)
  qed
qed (use page_step inner_app_rel in blast)

lemma run_routes_keep: "app_rel st (snd (run_routes env rs st))"
proof (induction rs arbitrary: st)
  case (Cons r rs)
  then show ?case using route_step_keeps [of st env r] app_rel_trans
    by (auto split: prod.splits) (metis snd_conv)
qed simp

text \<open>Only a limited request touches the limiter.\<close>

lemma unlimited_step:
  assumes "limited_request r = None" shows "ap_limiter (snd (route_step env r st)) = ap_limiter st"
proof (cases "keyed_request r")
  case None
  then show ?thesis using page_step [of r st env] by (simp add: inner_rel_def)
next
  case (Some rq)
  obtain code st' where "route_step env r st = (code, st')" by fastforce
  then show ?thesis using keyed_route [OF Some assms] by simp
qed

lemma limited_limiter:
  assumes "limited_request r = Some rq" "route_step env r st = (code, st')"
  shows "ap_limiter st' = (if code = 401 then ap_limiter st else snd (allow (ap_limiter st) (hq_time rq) (client_key rq)))"
    and "code \<noteq> 401 \<Longrightarrow> rr_allowed (fst (allow (ap_limiter st) (hq_time rq) (client_key rq))) \<longleftrightarrow> code \<noteq> 429"
  using limited_step [OF assms] by (auto simp: inner_rel_def counted_state_def rate_ok_def split: if_splits)

subsection \<open>Rates over a sequence of requests\<close>

text \<open>The times of the requests of a client that were neither refused for their key nor for the rate.\<close>

definition served :: "string \<Rightarrow> route \<times> int \<Rightarrow> bool" where
  "served key rc \<longleftrightarrow> (case limited_request (fst rc) of None \<Rightarrow> False | Some rq \<Rightarrow> client_key rq = key \<and> snd rc \<noteq> 401 \<and> snd rc \<noteq> 429)"

definition route_time :: "route \<Rightarrow> rat" where
  "route_time r = (case limited_request r of None \<Rightarrow> 0 | Some rq \<Rightarrow> hq_time rq)"

definition served_times :: "string \<Rightarrow> route list \<Rightarrow> int list \<Rightarrow> rat list" where
  "served_times key rs codes = map (route_time \<circ> fst) (filter (served key) (zip rs codes))"

definition limited_times :: "route list \<Rightarrow> rat list" where
  "limited_times rs = map route_time (filter (\<lambda>r. limited_request r \<noteq> None) rs)"

lemma routes_accepted:
  "implements t (ap_limiter st) hist \<Longrightarrow> rl_limit (ap_limiter st) = limit \<Longrightarrow> rl_window_seconds (ap_limiter st) = window
    \<Longrightarrow> accepted_in_order limit window (hist key) \<Longrightarrow> sorted (limited_times rs) \<Longrightarrow> (\<And>x. x \<in> set (limited_times rs) \<Longrightarrow> t \<le> x)
    \<Longrightarrow> accepted_in_order limit window (hist key @ served_times key rs (fst (run_routes env rs st)))"
proof (induction rs arbitrary: t st hist)
  case (Cons r rs)
  obtain code st1 where s: "route_step env r st = (code, st1)" by fastforce
  obtain codes st2 where rest: "run_routes env rs st1 = (codes, st2)" by fastforce
  have run: "fst (run_routes env (r # rs) st) = code # codes" using s rest by simp
  have tail: "served_times key (r # rs) (code # codes) = (if served key (r, code) then [route_time r] else []) @ served_times key rs codes"
    by (simp add: served_times_def)
  show ?case
  proof (cases "limited_request r")
    case None
    then have "ap_limiter st1 = ap_limiter st" using unlimited_step s by (metis snd_conv)
    then have "accepted_in_order limit window (hist key @ served_times key rs (fst (run_routes env rs st1)))"
      using Cons.prems None by (intro Cons.IH [of t st1 hist]) (simp_all add: limited_times_def)
    then show ?thesis using None rest unfolding run tail by (simp add: served_def)
  next
    case (Some rq)
    let ?now = "hq_time rq" and ?k = "client_key rq"
    have t: "t \<le> ?now" and srt: "sorted (limited_times rs)" "\<And>x. x \<in> set (limited_times rs) \<Longrightarrow> ?now \<le> x"
      using Cons.prems(5,6) Some by (auto simp: limited_times_def route_time_def)
    note sim = allow_simulates [OF Cons.prems(1) t, of ?k] and lim = limited_limiter [OF Some s]
    let ?ok = "spec_allow limit window (hist ?k) ?now"
    let ?hist = "if code \<noteq> 401 \<and> ?ok then hist(?k := hist ?k @ [?now]) else hist"
    have ok: "code \<noteq> 401 \<Longrightarrow> ?ok \<longleftrightarrow> code \<noteq> 429" using sim(1) lim(2) Cons.prems(2,3) by simp
    have i: "\<exists>t'. (t' = t \<or> t' = ?now) \<and> implements t' (ap_limiter st1) ?hist"
      using sim(2) lim(1) Cons.prems(1,2,3) by (cases "code = 401") auto
    then obtain t' where t': "t' \<le> ?now" "implements t' (ap_limiter st1) ?hist" using t by auto
    have "accepted_in_order limit window (?hist key)" using Cons.prems(4) ok by (auto simp: accepted_snoc)
    then have "accepted_in_order limit window (?hist key @ served_times key rs (fst (run_routes env rs st1)))"
      using sim(3,4) lim(1) Cons.prems(2,3) srt t'(1)
      by (intro Cons.IH [OF t'(2)]) (auto intro: order_trans)
    moreover have "?hist key = hist key @ (if served key (r, code) then [route_time r] else [])"
      using Some ok by (auto simp: served_def route_time_def)
    ultimately show ?thesis using rest unfolding run tail by (simp only: fst_conv append_assoc)
  qed
qed (simp add: served_times_def)

section \<open>Properties\<close>

text \<open>C27: whatever is requested, and whatever the database does, the process that started with an empty store has a
  store whose audit log verifies, whose tables are well formed and whose requests are all logged; and every request
  has given back its place in the back-pressure guard, so the next one is not refused for capacity.\<close>

theorem routes_keep_process_sound:
  assumes "ap_service st = fresh_service\<lparr>sv_configured := conf\<rparr>" "dg_current (ap_guard st) = 0" "0 < dg_max (ap_guard st)"
  shows "let st' = snd (run_routes env rs st); db = sv_db (ap_service st') in
    map_sum id ac_status (verify_audit_chain (fetch_audit_chain db)) = Inr ''VALID'' \<and> tables_ok db \<and> persistence_logged db
    \<and> dg_current (ap_guard st') = 0 \<and> fst (acquire (ap_guard st')) = Inr ()"
proof -
  let ?st = "snd (run_routes env rs st)"
  have r: "inner_rel (st\<lparr>ap_limiter := ap_limiter ?st, ap_keys := ap_keys ?st\<rparr>) ?st" using run_routes_keep [of st env rs]
    by (simp add: app_rel_def)
  have "metrics_ok (sv_metrics (ap_service st))" using assms(1) fresh_metrics_ok by (simp add: fresh_service_def)
  then have "store_step\<^sup>*\<^sup>* empty_db (sv_db (ap_service ?st))"
    using r assms(1) by (simp add: inner_rel_def service_rel_def fresh_service_def)
  then have ok: "store_ok (sv_db (ap_service ?st))" using store_steps_ok empty_store_ok by blast
  then obtain res where "verify_audit_chain (fetch_audit_chain (sv_db (ap_service ?st))) = Inr res" "ac_status res = ''VALID''"
    unfolding store_ok_def es.log_valid_verifies by blast
  moreover have "dg_current (ap_guard ?st) = 0" "dg_max (ap_guard ?st) = dg_max (ap_guard st)" using r assms(2) by (simp_all add: inner_rel_def)
  ultimately show ?thesis using ok assms(3) by (simp add: store_ok_def Let_def acquire_iff)
qed

text \<open>C29: a route that requires a key answers 401 exactly when keys are registered and the request brings none of them,
  and such a request changes nothing: neither the counters of keys and rates nor the queue nor the store.\<close>

theorem missing_key_changes_nothing:
  assumes "keyed_request r = Some rq"
  shows "(fst (route_step env r st) = 401 \<longleftrightarrow> \<not> key_accepted rq st)
    \<and> (key_accepted rq st \<or> snd (route_step env r st) = st)"
proof -
  obtain code st' where s: "route_step env r st = (code, st')" by fastforce
  show ?thesis
  proof (cases "limited_request r")
    case None
    then show ?thesis using keyed_route [OF assms None s] s by auto
  next
    case (Some rq')
    then have "rq' = rq" using limited_keyed assms by fastforce
    then show ?thesis using limited_step [OF Some s] s by (auto split: if_splits)
  qed
qed

text \<open>C30: over any sequence of requests, no interval of the length of the window holds more than the configured number of
  requests of one client that \<open>/calculate\<close>, \<open>/run\<close>, \<open>/prove\<close> and \<open>/verify\<close> together answer otherwise than with 401 or 429.\<close>

theorem rate_limit_over_routes:
  assumes "rate_limiter_init limit window = Inr (ap_limiter st)" "sorted (limited_times rs)"
  shows "int (length (filter (\<lambda>h. t - of_int window < h \<and> h \<le> t)
    (served_times key rs (fst (run_routes env rs st))))) \<le> limit"
proof -
  let ?t = "case limited_times rs of [] \<Rightarrow> 0 | x # xs \<Rightarrow> x"
  note i = init_implements [OF assms(1), of ?t]
  have "?t \<le> x" if "x \<in> set (limited_times rs)" for x
    using that assms(2) by (cases "limited_times rs") auto
  then have "accepted_in_order limit window ([] @ served_times key rs (fst (run_routes env rs st)))"
    using i assms(2) by (intro routes_accepted [of ?t st "\<lambda>_. []"]) (auto simp: accepted_in_order_def)
  then show ?thesis using window_bound [of limit window] i by simp
qed

text \<open>C31: which exceptions no handler of the four routes with a body catches: those of a body that passes the length
  check and (1) whose decoding raises anything but \<open>JSONDecodeError\<close>, (2) which has a string that cannot be encoded, so that the
  guards raise UnicodeEncodeError, or (3) whose canonicalisation raises, which it does exactly when the body holds a float
  (a NaN or an infinity) or is nested deeper than the stack allows.  They end as the framework's 500 instead of 400 (and, in
  \<open>/verify\<close>, instead of an answer).  Bodies with strings that have code points above 255 and pass the guards, and
  exhausted memory, are outside this statement.\<close>

theorem uncaught_exceptions:
  "(fst (calculate_route env ri rq st) = Inl (Raised e) \<longleftrightarrow> key_accepted rq st \<and> rate_ok rq st \<and> escapes rq e)
   \<and> (fst (run_route env ri rq st) = Inl (Raised e) \<longleftrightarrow> key_accepted rq st \<and> rate_ok rq st \<and> escapes rq e)
   \<and> (fst (prove_route env writable rq st) = Inl (Raised e) \<longleftrightarrow> key_accepted rq st \<and> rate_ok rq st \<and> escapes rq e)
   \<and> (fst (verify_route env faults chain_faults rq st) = Inl (Raised e) \<longleftrightarrow> key_accepted rq st \<and> rate_ok rq st \<and> escapes rq e)
   \<and> (isl (canonicalize_within (hq_stack rq) v) \<longleftrightarrow> has_float v \<or> hq_stack rq < nesting v)"
proof -
  have "isl (canonicalize_within (hq_stack rq) v) \<longleftrightarrow> has_float v \<or> hq_stack rq < nesting v"
    using within_Inr [of "hq_stack rq" v] canonicalize_ok_iff [of v] by (cases "canonicalize_within (hq_stack rq) v") auto
  then show ?thesis
    unfolding calculate_route_def run_route_def prove_route_def verify_route_def
    by (intro conjI admitted_raises [OF calculate_admitted_codes] admitted_raises [OF run_admitted_codes]
        admitted_raises [OF prove_admitted_codes] admitted_raises [OF verify_admitted_codes])
qed

text \<open>C32: without a database, an admitted request that is valid gets 503 from \<open>/calculate\<close> and \<open>/prove\<close>, but 500 from \<open>/run\<close>,
  whose last clause catches the HTTPException it raised itself, and 200 from \<open>/verify\<close>.\<close>

theorem status_without_database:
  assumes "\<not> sv_configured (ap_service st)" "admit rq st = (Inr payload, st1)" "payload \<noteq> []"
    and "dg_current (ap_guard st) < dg_max (ap_guard st)" "validate_request (ze_int_of env) (PDict payload) = Inr q"
  shows "http_status (fst (calculate_route env ri rq st)) = 503 \<and> http_status (fst (prove_route env writable rq st)) = 503
    \<and> http_status (fst (run_route env ri rq st)) = 500 \<and> http_status (fst (verify_route env faults chain_faults rq st)) = 200"
proof -
  have st1: "st1 = counted_state rq st" using assms(2) admit_cases [of rq st] by (auto split: if_splits)
  then have c: "\<not> sv_configured (ap_service st1)" "ap_guard st1 = ap_guard st"
    using assms(1) require_api_key_cases [of rq st] unfolding counted_state_def
    by (metis app_state.select_convs app_state.surjective app_state.update_convs(3,5))+
  then obtain g where g: "acquire (ap_guard st1) = (Inr (), g)" using assms(4) by (simp add: acquire_def)
  have v: "http_status (fst (verify_admitted env faults chain_faults rq payload st1)) = 200"
    by (auto simp: verify_admitted_def split: prod.splits sum.splits)
  show ?thesis
    using assms(2,3,5) c g v
    by (simp add: calculate_route_def calculate_admitted_def prove_route_def prove_admitted_def run_route_def run_admitted_def
        verify_route_def action_bind_def except_as_def guarded_action_def service_or_503_def action_return_def lift_result_def)
qed

text \<open>What a successful call of \<open>/calculate\<close> has done.\<close>

lemma calculate_route_persisted:
  assumes "calculate_route env ri rq st = (Inr b, st')"
  obtains payload q st1 sv where "admit rq st = (Inr payload, st1)" "validate_request (ze_int_of env) (PDict payload) = Inr q"
    "calculate_and_persist env ri (request_payload q) (ap_service st1) = (Inr (cb_persisted b), sv)" "ap_service st' = sv"
  using assms
  by (auto simp: calculate_route_def calculate_admitted_def action_bind_def except_as_def guarded_action_def service_or_503_def
      action_return_def lift_result_def service_action_def recorded_def split: prod.splits sum.splits if_splits)

lemma admitted_payload:
  assumes "admit rq st = (Inr payload, st1)"
  shows "ap_service st1 = ap_service st" "payload = [] \<or> hq_decoded rq = Json_value (PDict payload)"
proof -
  have a: "load_json_payload rq = Inr payload" "st1 = counted_state rq st"
    using assms admit_cases [of rq st] by (auto split: if_splits)
  then show "ap_service st1 = ap_service st"
    using require_api_key_cases [of rq st] unfolding counted_state_def
    by (metis app_state.select_convs(1) app_state.surjective app_state.update_convs(3,5))
  show "payload = [] \<or> hq_decoded rq = Json_value (PDict payload)"
    using a(1) by (auto simp: load_json_payload_def split: if_splits json_outcome.splits pyv.splits sum.splits py_error.splits)
qed

lemma empty_request_invalid: "validate_request int_of (PDict []) \<noteq> Inr q"
  by (auto simp: validate_request_def validate_fields_def field_def Let_def error_of_def result_simps split: sum.splits py_error.splits option.splits)

text \<open>C28: what \<open>/calculate\<close> answers with 200 is stored for good: after any further requests of any kind, \<open>/verify\<close> of the
  same payload, once admitted, answers VALID with a valid audit chain and the stored result and proof, provided
  the database answers and stored responses read back.\<close>

theorem evidence_verifies_over_http:
  assumes "metrics_ok (sv_metrics (ap_service st))" "store_ok (sv_db (ap_service st))"
    and "calculate_route env ri rq st = (Inr b, st1)" "hq_decoded rq = Json_value (PDict kvs)" "wf_pyv (PDict kvs)"
    and "validate_request (ze_int_of env) (PDict kvs) = Inr q" "ze_int_of env (PInt (quantity q)) = Some (quantity q)"
    and "ze_int_of env (PInt 1) = Some 1" "reads_back env (ps_response (cb_persisted b))"
    and "is_ascii (bundled_blob (pr_proof_bundle (eb_proof (ps_evidence (cb_persisted b)))))"
    and "admit rq' (snd (run_routes env rs st1)) = (Inr [(''request'', PDict kvs)], st2)"
  shows "\<exists>pv e. fst (verify_route env (\<lambda>_. None) (\<lambda>_. None) rq' (snd (run_routes env rs st1))) = Inr (Verified_body pv)
    \<and> vr_status (pv_verification pv) = ''VALID'' \<and> ac_status (pv_audit_chain pv) = ''VALID'' \<and> pv_evidence pv = Some e
    \<and> eb_result e = eb_result (ps_evidence (cb_persisted b)) \<and> eb_proof e = eb_proof (ps_evidence (cb_persisted b))"
proof -
  let ?st = "snd (run_routes env rs st1)"
  obtain payload q0 sta sv where p: "admit rq st = (Inr payload, sta)" "validate_request (ze_int_of env) (PDict payload) = Inr q0"
    "calculate_and_persist env ri (request_payload q0) (ap_service sta) = (Inr (cb_persisted b), sv)" "ap_service st1 = sv"
    by (rule calculate_route_persisted [OF assms(3)])
  have "payload \<noteq> []" using p(2) empty_request_invalid by metis
  then have "payload = kvs" using admitted_payload(2) [OF p(1)] assms(4) by simp
  then have q0: "q0 = q" using p(2) assms(6) by simp
  have sta: "ap_service sta = ap_service st" by (rule admitted_payload(1) [OF p(1)])
  have vq: "valid_request q" by (rule validate_request_valid [OF assms(5,6)])
  have rv: "validate_request (ze_int_of env) (request_payload q) = Inr q"
    by (rule validate_request_payload [where int_of = "ze_int_of env", OF vq assms(7)])
  have call: "calculate_and_persist env ri (request_payload q) (ap_service st) = (Inr (cb_persisted b), sv)" using p(3) q0 sta by simp
  obtain c d where d: "sound_draft env q d" "service_outcome ri c d (sv_db (ap_service st)) (Inr (cb_persisted b)) (sv_db sv)"
    "consistent_draft d" by (rule persisted_call [OF assms(1) rv call])
  note o = call_outcome [OF assms(1) call] and ps = persisted_stores [OF d(3,2)]
  have rel: "service_rel sv (ap_service ?st)" using run_routes_keep [of st1 env rs] p(4) by (simp add: app_rel_def inner_rel_def)
  then have steps: "store_step\<^sup>*\<^sup>* (sv_db sv) (sv_db (ap_service ?st))" using o by (simp add: service_rel_def)
  have store: "store_ok (sv_db (ap_service ?st))" "stores_draft d (sv_db (ap_service ?st))"
    using store_steps_ok [OF steps] store_steps_ok assms(2) o ps store_steps_keep [OF steps]
    by (blast, auto simp: stores_draft_def keeps_rows_def)
  have "sv_configured (ap_service st)" using call
    by (auto simp: calculate_and_persist_def require_repository_def service_bind_def split: if_splits)
  then have conf: "sv_configured (ap_service ?st)"
    using steady_calculate [of env ri "request_payload q"] call rel unfolding steady_def service_rel_def by (metis snd_conv)
  have "bundled_blob (pr_proof_bundle (eb_proof (ps_evidence (cb_persisted b)))) = pa_proof_blob_hex (ed_proof d)"
    using ps d(1) bundled_blob_canonical unfolding sound_draft_def holds_draft_def by (metis draft_of_fields(12))
  then have blob: "is_ascii (pa_proof_blob_hex (ed_proof d))" using assms(10) by simp
  have rb: "reads_back env (ed_response d)" using assms(9) ps by simp
  obtain pv e where v: "fst (verify_persisted env (hq_now rq') (\<lambda>_. None) (\<lambda>_. None) (request_payload q) (ap_service ?st)) = Inr pv"
    "vr_status (pv_verification pv) = ''VALID''" "pv_evidence pv = Some e" "holds_draft d e" "ac_status (pv_audit_chain pv) = ''VALID''"
    by (rule verify_persisted_draft [OF store(1) conf store(2) d(1) request_payload_wf [OF vq] rv assms(7,8) rb blob])
  have "ap_service st2 = ap_service ?st" by (rule admitted_payload(1) [OF assms(11)])
  then have "fst (verify_route env (\<lambda>_. None) (\<lambda>_. None) rq' ?st) = Inr (Verified_body pv)"
    using assms(6,11) v(1) conf
    by (auto simp: verify_route_def verify_admitted_def validate_verification_def action_bind_def action_return_def lift_result_def
        service_or_503_def service_action_def split: prod.splits)
  then show ?thesis using v ps by (auto simp: holds_draft_def)
qed

subsection \<open>Witnesses\<close>

definition sample_limiter :: rate_limiter where
  "sample_limiter = \<lparr>rl_limit = 60, rl_window_seconds = 60, rl_hits = (\<lambda>_. [])\<rparr>"

definition sample_app :: app_state where
  "sample_app = \<lparr>ap_service = fresh_service, ap_training = True, ap_limiter = sample_limiter,
     ap_guard = \<lparr>dg_max = 1, dg_current = 0, dg_rejected_total = 0, dg_peak = 0\<rparr>, ap_keys = [], ap_runtime = new_controller,
     ap_queue = empty_queue empty_key_log\<rparr>"

definition request_with :: "(string \<times> pyv) list \<Rightarrow> http_request" where
  "request_with kvs = \<lparr>hq_client = None, hq_api_key = None, hq_length = 100, hq_decoded = Json_value (PDict kvs), hq_stack = 100, hq_time = 0,
     hq_today = ''d'', hq_now = ''t''\<rparr>"

lemma request_with_admitted:
  assumes "guards_within 100 (PDict kvs) = Inr ()" "ap_keys st = []" "ap_limiter st = sample_limiter \<or>
     ap_limiter st = snd (allow sample_limiter 0 ''unknown'')"
  shows "admit (request_with kvs) st = (Inr kvs, st\<lparr>ap_limiter := snd (allow (ap_limiter st) 0 ''unknown'')\<rparr>)"
  using assms
  by (auto simp: admit_def action_bind_def require_api_key_def keys_enabled_def check_rate_def action_return_def request_with_def
      client_key_def load_json_payload_def max_request_bytes_def allow_def sample_limiter_def expire_def Let_def)

definition sample_kvs :: "(string \<times> pyv) list" where
  "sample_kvs = (case request_payload sample_request of PDict kvs \<Rightarrow> kvs | _ \<Rightarrow> [])"

lemma sample_kvs: "PDict sample_kvs = request_payload sample_request" "sample_kvs \<noteq> []"
  "guards_within 100 (PDict sample_kvs) = Inr ()" "guards_within 100 (PDict [(''request'', PDict sample_kvs)]) = Inr ()"
  by (code_simp, code_simp, code_simp, code_simp)

lemma sample_calculate_route:
  obtains b st1 where "calculate_route sample_env sample_run (request_with sample_kvs) sample_app = (Inr b, st1)"
    "ps_response (cb_persisted b) = sample_response" "ap_keys st1 = []" "ap_limiter st1 = snd (allow sample_limiter 0 ''unknown'')"
    "is_ascii (bundled_blob (pr_proof_bundle (eb_proof (ps_evidence (cb_persisted b)))))"
proof -
  obtain ps sv where c: "calculate_and_persist sample_env sample_run (request_payload sample_request) fresh_service = (Inr ps, sv)"
    "ps_response ps = sample_response" "is_ascii (bundled_blob (pr_proof_bundle (eb_proof (ps_evidence ps))))" by (rule sample_call)
  have a: "admit (request_with sample_kvs) sample_app = (Inr sample_kvs, sample_app\<lparr>ap_limiter := snd (allow sample_limiter 0 ''unknown'')\<rparr>)"
    using request_with_admitted [OF sample_kvs(3), of sample_app] by (simp add: sample_app_def)
  have v: "validate_request (ze_int_of sample_env) (PDict sample_kvs) = Inr sample_request"
    using sample_revalidates(1) by (simp add: sample_kvs(1) sample_env_fields)
  let ?b = "\<lparr>cb_persisted = ps, cb_integrity_hash = ia_integrity_hash (rs_integrity (ps_response ps)), cb_proof_status = ''persisted''\<rparr>"
  have "\<exists>st1. calculate_route sample_env sample_run (request_with sample_kvs) sample_app = (Inr ?b, st1) \<and> ap_keys st1 = []
      \<and> ap_limiter st1 = snd (allow sample_limiter 0 ''unknown'')"
    using c a v
    by (auto simp: calculate_route_def calculate_admitted_def action_bind_def except_as_def guarded_action_def acquire_def
        sample_app_def fresh_service_def service_or_503_def action_return_def lift_result_def service_action_def recorded_def)
  then show thesis using that c by fastforce
qed

theorem evidence_verifies_over_http_witness:
  "\<exists>b st1 pv. calculate_route sample_env sample_run (request_with sample_kvs) sample_app = (Inr b, st1)
    \<and> fst (verify_route sample_env (\<lambda>_. None) (\<lambda>_. None) (request_with [(''request'', PDict sample_kvs)])
        (snd (run_routes sample_env [Healthz] st1))) = Inr (Verified_body pv)
    \<and> vr_status (pv_verification pv) = ''VALID''"
proof -
  obtain b st1 where c: "calculate_route sample_env sample_run (request_with sample_kvs) sample_app = (Inr b, st1)"
    "ps_response (cb_persisted b) = sample_response" "ap_keys st1 = []" "ap_limiter st1 = snd (allow sample_limiter 0 ''unknown'')"
    "is_ascii (bundled_blob (pr_proof_bundle (eb_proof (ps_evidence (cb_persisted b)))))" by (rule sample_calculate_route)
  have h: "snd (run_routes sample_env [Healthz] st1) = st1" by (simp add: answer_def healthz_route_def)
  obtain st2 where a: "admit (request_with [(''request'', PDict sample_kvs)]) (snd (run_routes sample_env [Healthz] st1))
      = (Inr [(''request'', PDict sample_kvs)], st2)"
    using request_with_admitted [OF sample_kvs(4) c(3)] c(4) h by simp
  have m: "metrics_ok (sv_metrics (ap_service sample_app))" "store_ok (sv_db (ap_service sample_app))"
    "hq_decoded (request_with sample_kvs) = Json_value (PDict sample_kvs)" "wf_pyv (PDict sample_kvs)"
    using fresh_metrics_ok empty_store_ok sample_revalidates(2)
    by (simp_all add: sample_app_def fresh_service_def request_with_def sample_kvs(1))
  have q: "validate_request (ze_int_of sample_env) (PDict sample_kvs) = Inr sample_request"
    "ze_int_of sample_env (PInt (quantity sample_request)) = Some (quantity sample_request)" "ze_int_of sample_env (PInt 1) = Some 1"
    "reads_back sample_env (ps_response (cb_persisted b))"
    using sample_revalidates(1) sample_int_quantity c(2) sample_env_fields(5)
    by (simp_all add: sample_kvs(1) sample_env_fields sample_int_def)
  show ?thesis
    using evidence_verifies_over_http [where env = sample_env and rs = "[Healthz]", OF m(1,2) c(1) m(3,4) q c(5) a] c(1) by blast
qed

theorem routes_keep_process_sound_witness:
  "dg_current (ap_guard (snd (run_routes sample_env [Calculate sample_run (request_with sample_kvs)] sample_app))) = 0"
  using routes_keep_process_sound [of sample_app True sample_env "[Calculate sample_run (request_with sample_kvs)]"]
  by (simp add: sample_app_def fresh_service_def Let_def)

theorem missing_key_changes_nothing_witness:
  "let st = sample_app\<lparr>ap_keys := snd (register_key ''d'' ''l'' ''k'' [])\<rparr>; r = Calculate sample_run (request_with sample_kvs) in
     route_step sample_env r st = (401, st)"
proof -
  let ?st = "sample_app\<lparr>ap_keys := snd (register_key ''d'' ''l'' ''k'' [])\<rparr>"
  let ?r = "Calculate sample_run (request_with sample_kvs)"
  have k: "\<not> key_accepted (request_with sample_kvs) ?st"
    by (simp add: key_accepted_def keys_enabled_def register_key_def request_with_def Let_def)
  have "keyed_request ?r = Some (request_with sample_kvs)" by simp
  from missing_key_changes_nothing [OF this, of sample_env ?st] k
  show ?thesis unfolding Let_def by (metis prod.collapse)
qed

theorem rate_limit_over_routes_witness:
  "let st = sample_app\<lparr>ap_limiter := sample_limiter\<lparr>rl_limit := 1\<rparr>\<rparr>; r = Calculate sample_run (request_with sample_kvs) in
     rate_limiter_init 1 60 = Inr (ap_limiter st)
     \<and> int (length (filter (\<lambda>h. (0::rat) - of_int 60 < h \<and> h \<le> 0) (served_times ''unknown'' [r, r] (fst (run_routes sample_env [r, r] st))))) \<le> 1"
proof -
  let ?st = "sample_app\<lparr>ap_limiter := sample_limiter\<lparr>rl_limit := 1\<rparr>\<rparr>" and ?r = "Calculate sample_run (request_with sample_kvs)"
  have i: "rate_limiter_init 1 60 = Inr (ap_limiter ?st)" by (simp add: rate_limiter_init_def sample_app_def sample_limiter_def)
  have s: "sorted (limited_times [?r, ?r])" by (simp add: limited_times_def)
  show ?thesis using rate_limit_over_routes [OF i s, of 0 "''unknown''" sample_env] i unfolding Let_def by blast
qed

theorem status_without_database_witness:
  "let st = sample_app\<lparr>ap_service := fresh_service\<lparr>sv_configured := False\<rparr>\<rparr> in
     http_status (fst (calculate_route sample_env sample_run (request_with sample_kvs) st)) = 503
     \<and> http_status (fst (run_route sample_env sample_run (request_with sample_kvs) st)) = 500"
proof -
  let ?st = "sample_app\<lparr>ap_service := fresh_service\<lparr>sv_configured := False\<rparr>\<rparr>"
  obtain st1 where a: "admit (request_with sample_kvs) ?st = (Inr sample_kvs, st1)"
    using request_with_admitted [OF sample_kvs(3), of ?st] by (simp add: sample_app_def)
  have v: "validate_request (ze_int_of sample_env) (PDict sample_kvs) = Inr sample_request"
    using sample_revalidates(1) by (simp add: sample_kvs(1) sample_env_fields)
  show ?thesis
    using status_without_database [where env = sample_env, OF _ a sample_kvs(2) _ v] by (simp add: sample_app_def Let_def)
qed

end
