(* ===== verification/Field_Polynomials.thy ===== *)
theory Field_Polynomials
  imports Plonk_Circuit
begin

text \<open>
  \<open>zk/field_utils.py\<close>: polynomials over the field as lists of coefficients, low degree first, their
  division, multiplication and interpolation, and field elements as 32 bytes.  The functions reduce modulo
  \<open>field_order\<close> at every step; the lemmas relate them to evaluation over the integers.
\<close>

text \<open>\<open>pow(x, e, FIELD_ORDER)\<close> for \<open>e \<ge> 0\<close>, by squaring.\<close>

function pow_mod :: "int \<Rightarrow> int \<Rightarrow> int" where
  "pow_mod x e = (if e \<le> 0 then 1
     else let r = pow_mod (x * x mod field_order) (e div 2) in
       if even e then r else x * r mod field_order)"
  by pat_completeness auto
termination by (relation "measure (\<lambda>(x, e). nat e)") auto

declare pow_mod.simps [simp del]

lemma pow_mod_eq: "pow_mod x e = x ^ nat e mod field_order"
proof (induction x e rule: pow_mod.induct)
  case (1 x e)
  have one: "1 mod field_order = 1" by (simp add: field_order_def)
  show ?case
  proof (cases "e \<le> 0")
    case True
    then show ?thesis by (subst pow_mod.simps) (simp add: one)
  next
    case False
    have r: "pow_mod (x * x mod field_order) (e div 2) = (x * x) ^ nat (e div 2) mod field_order"
      using 1 [OF False] by (simp add: power_mod)
    have "nat e = 2 * nat (e div 2) + (if even e then 0 else 1)" using False
      by (cases "even e") (auto elim!: evenE oddE simp: nat_mult_distrib nat_add_distrib)
    then have "x ^ nat e = (if even e then 1 else x) * (x * x) ^ nat (e div 2)"
      by (simp add: power_add power_mult power2_eq_square split: if_splits)
    then show ?thesis using False r by (subst pow_mod.simps) (simp add: Let_def mod_mult_right_eq)
  qed
qed

definition field_inv :: "int \<Rightarrow> int" where
  "field_inv x = pow_mod x (field_order - 2)"

definition domain_size :: int where "domain_size = 8"

text \<open>The search for a primitive 8th root of unity, over the candidates that are left.\<close>

fun search_omega :: "int list \<Rightarrow> int result" where
  "search_omega [] = Inl (RuntimeError ''Unable to derive a primitive 8th root of unity for Pasta Fp'')"
| "search_omega (candidate # cs) = (let w = pow_mod candidate ((field_order - 1) div domain_size) in
     if pow_mod w domain_size = 1 \<and> pow_mod w (domain_size div 2) \<noteq> 1 then Inr w else search_omega cs)"

definition find_omega :: "int result" where
  "find_omega = search_omega [2..511]"

definition poly_eval :: "int list \<Rightarrow> int \<Rightarrow> int" where
  "poly_eval coeffs x = fst (foldl (\<lambda>(r, w) c. ((r + c * w) mod field_order, w * x mod field_order)) (0, 1) coeffs)"

text \<open>\<open>omega\<close> is the module constant \<open>OMEGA\<close>.\<close>

definition intt :: "int \<Rightarrow> int list \<Rightarrow> int list" where
  "intt omega values = (let n = int (length values); omega_inv = field_inv omega; n_inv = field_inv n in
     map (\<lambda>k. foldl (\<lambda>s j. (s + values ! j * pow_mod omega_inv (int j * int k)) mod field_order) 0 [0..<length values]
        * n_inv mod field_order) [0..<length values])"

text \<open>The quotient is filled from its end.\<close>

definition divide_step :: "int \<Rightarrow> int \<Rightarrow> int list \<times> int \<Rightarrow> int list \<times> int" where
  "divide_step z c s = (case s of (q, running) \<Rightarrow> let r = (c + running) mod field_order in (r # q, r * z mod field_order))"

definition poly_divmod_linear :: "int list \<Rightarrow> int \<Rightarrow> (int list \<times> int) result" where
  "poly_divmod_linear poly z = (case poly of
     [] \<Rightarrow> Inl (LookupError ''list index out of range'')
   | c # cs \<Rightarrow> (case foldr (divide_step z) cs ([], 0) of (q, running) \<Rightarrow> Inr (q, (c + running) mod field_order)))"

definition kzg_open_coeffs :: "int list \<Rightarrow> int \<Rightarrow> int \<Rightarrow> int list result" where
  "kzg_open_coeffs coeffs z v = (case coeffs of
     [] \<Rightarrow> Inl (LookupError ''list index out of range'')
   | c # cs \<Rightarrow> rbind (poly_divmod_linear ((c - v) mod field_order # cs) z) (\<lambda>(q, _). Inr q))"

definition add_at :: "int list \<Rightarrow> nat \<Rightarrow> int \<Rightarrow> int list" where
  "add_at cs k d = cs[k := (cs ! k + d) mod field_order]"

definition poly_mul :: "int list \<Rightarrow> int list \<Rightarrow> int list" where
  "poly_mul a b = (if a = [] \<or> b = [] then [0] else
     foldl (\<lambda>res (i, ai). if ai = 0 then res else foldl (\<lambda>res (j, bj). add_at res (i + j) (ai * bj)) res (enumerate 0 b))
       (replicate (length a + length b - 1) 0) (enumerate 0 a))"

definition add_all :: "int list \<Rightarrow> int list \<Rightarrow> int list" where
  "add_all res cs = foldl (\<lambda>res (i, v). add_at res i v) res (enumerate 0 cs)"

definition poly_add :: "int list \<Rightarrow> int list \<Rightarrow> int list" where
  "poly_add a b = add_all (add_all (replicate (max (length a) (length b)) 0) a) b"

definition poly_scalar_mul :: "int list \<Rightarrow> int \<Rightarrow> int list" where
  "poly_scalar_mul p scalar = map (\<lambda>c. c * scalar mod field_order) p"

text \<open>One pass of the long division: the multiple of the divisor is subtracted at the upper end.\<close>

definition reduce_once :: "int list \<Rightarrow> int \<Rightarrow> int list \<Rightarrow> int list" where
  "reduce_once divisor coeff r = foldl (\<lambda>r i. add_at r (length r - length divisor + i) (- (coeff * divisor ! i)))
     r [0..<length divisor]"

lemma length_add_at [simp]: "length (add_at cs k d) = length cs"
  by (simp add: add_at_def)

lemma length_foldl_add [simp]: "length (foldl (\<lambda>r i. add_at r (f r i) (g r i)) r is) = length r"
  by (induction "is" arbitrary: r) auto

lemma length_reduce_once [simp]: "length (reduce_once divisor coeff r) = length r"
  by (simp add: reduce_once_def)

function divide_loop :: "int list \<Rightarrow> int \<Rightarrow> int list \<Rightarrow> int list \<Rightarrow> int list \<times> int list" where
  "divide_loop divisor lead_inv q r = (if divisor \<noteq> [] \<and> length r > length divisor - 1
     then (let coeff = last r * lead_inv mod field_order in
       divide_loop divisor lead_inv (q @ [coeff]) (butlast (reduce_once divisor coeff r)))
     else (rev q, r))"
  by pat_completeness auto
termination by (relation "measure (\<lambda>(_, _, _, r). length r)") auto

declare divide_loop.simps [simp del]

definition poly_divmod :: "int list \<Rightarrow> int list \<Rightarrow> (int list \<times> int list) result" where
  "poly_divmod dividend divisor = (if divisor = [] then Inl (LookupError ''list index out of range'')
     else Inr (divide_loop divisor (pow_mod (last divisor) (field_order - 2)) [] dividend))"

definition vanishing_poly :: "nat \<Rightarrow> int list" where
  "vanishing_poly n = (replicate (n + 1) 0)[0 := field_order - 1, n := 1]"

text \<open>\<open>v.to_bytes(32, 'big')\<close> raises OverflowError for a negative or too large number.\<close>

definition fr_to_bytes :: "int \<Rightarrow> int list result" where
  "fr_to_bytes v = (if 0 \<le> v \<and> v < 256 ^ 32 then Inr (map (\<lambda>i. v div 256 ^ (31 - i) mod 256) [0..<32]) else Inl OverflowError)"

definition fr_from_bytes :: "int list \<Rightarrow> int" where
  "fr_from_bytes bs = foldl (\<lambda>n b. 256 * n + b) 0 bs"

subsection \<open>Evaluation over the integers\<close>

fun ev :: "int \<Rightarrow> int list \<Rightarrow> int" where
  "ev x [] = 0"
| "ev x (c # cs) = c + x * ev x cs"

text \<open>Equality in the field.\<close>

definition eqf :: "int \<Rightarrow> int \<Rightarrow> bool" where
  "eqf a b \<longleftrightarrow> a mod field_order = b mod field_order"

lemma eqf_refl [simp]: "eqf a a"
  by (simp add: eqf_def)

lemma eqf_sym: "eqf a b \<Longrightarrow> eqf b a"
  by (simp add: eqf_def)

lemma eqf_trans [trans]: "eqf a b \<Longrightarrow> eqf b c \<Longrightarrow> eqf a c"
  by (simp add: eqf_def)

lemma eqf_mod [simp]: "eqf (a mod field_order) b = eqf a b" "eqf a (b mod field_order) = eqf a b"
  by (simp_all add: eqf_def)

lemma eqf_add: "eqf a b \<Longrightarrow> eqf c d \<Longrightarrow> eqf (a + c) (b + d)"
  unfolding eqf_def by (metis mod_add_eq)

lemma eqf_mult: "eqf a b \<Longrightarrow> eqf c d \<Longrightarrow> eqf (a * c) (b * d)"
  unfolding eqf_def by (metis mod_mult_eq)

lemma eqf_diff: "eqf a b \<Longrightarrow> eqf c d \<Longrightarrow> eqf (a - c) (b - d)"
  unfolding eqf_def by (metis mod_diff_eq)

lemma eqf_power: "eqf a b \<Longrightarrow> eqf (a ^ n) (b ^ n)"
  unfolding eqf_def by (metis power_mod)

lemma poly_eval_ev: "poly_eval coeffs x = ev x coeffs mod field_order"
proof -
  have "eqf (fst (foldl (\<lambda>(r, w) c. ((r + c * w) mod field_order, w * x mod field_order)) (r, w) cs)) (r + w * ev x cs)
      \<and> (cs \<noteq> [] \<longrightarrow> fst (foldl (\<lambda>(r, w) c. ((r + c * w) mod field_order, w * x mod field_order)) (r, w) cs) mod field_order
        = fst (foldl (\<lambda>(r, w) c. ((r + c * w) mod field_order, w * x mod field_order)) (r, w) cs))" for r w cs
  proof (induction cs arbitrary: r w)
    case (Cons c cs)
    let ?r = "(r + c * w) mod field_order" and ?w = "w * x mod field_order"
    have "eqf (?r + ?w * ev x cs) ((r + c * w) + (w * x) * ev x cs)" by (intro eqf_add eqf_mult) simp_all
    then have "eqf (?r + ?w * ev x cs) (r + w * ev x (c # cs))" by (simp add: algebra_simps)
    then show ?case using Cons.IH [of ?r ?w] eqf_trans by (cases cs) auto
  qed simp
  from this [where r = 0 and w = 1 and cs = coeffs] show ?thesis
    by (cases coeffs) (auto simp: poly_eval_def eqf_def)
qed

subsection \<open>Division by a linear factor\<close>

lemma divide_step_pair: "divide_step z c (q, running) = ((c + running) mod field_order # q, (c + running) mod field_order * z mod field_order)"
  by (simp add: divide_step_def Let_def)

lemma divide_fold:
  "foldr (divide_step z) cs ([], 0) = (q, running) \<Longrightarrow>
    length q = length cs \<and> eqf running (z * ev z cs) \<and> eqf (ev x q * (x - z) + running) (x * ev x cs)"
proof (induction cs arbitrary: q running)
  case (Cons c cs)
  obtain q0 r0 where f: "foldr (divide_step z) cs ([], 0) = (q0, r0)" by fastforce
  note IH = Cons.IH [OF f]
  let ?r = "(c + r0) mod field_order"
  have q: "q = ?r # q0" "running = ?r * z mod field_order" using Cons.prems by (simp_all add: f divide_step_pair)
  have r: "eqf ?r (c + r0)" by simp
  have "eqf (c + r0) (ev z (c # cs))" using IH by (auto intro: eqf_add)
  then have "eqf running (z * ev z (c # cs))"
    unfolding q(2) eqf_mod using eqf_mult [OF eqf_trans [OF r] eqf_refl, of "ev z (c # cs)" z] by (simp add: mult.commute)
  moreover have "eqf (ev x q * (x - z) + running) (x * ev x (c # cs))"
  proof -
    have "eqf (ev x q * (x - z) + running) ((?r + x * ev x q0) * (x - z) + ?r * z)"
      unfolding q by (intro eqf_add) simp_all
    also have "(?r + x * ev x q0) * (x - z) + ?r * z = ?r * x + x * (ev x q0 * (x - z) + r0) - x * r0" by (simp add: algebra_simps)
    also have "eqf \<dots> ((c + r0) * x + x * (x * ev x cs) - x * r0)" using IH by (intro eqf_add eqf_diff eqf_mult) simp_all
    also have "(c + r0) * x + x * (x * ev x cs) - x * r0 = x * ev x (c # cs)" by (simp add: algebra_simps)
    finally show ?thesis .
  qed
  ultimately show ?case using IH q(1) by simp
qed simp

lemma divmod_linear_spec:
  assumes "poly_divmod_linear poly z = Inr (q, r)"
  shows "length poly = Suc (length q)" "r = poly_eval poly z" "eqf (ev x poly) (ev x q * (x - z) + r)"
proof -
  obtain c cs running where p: "poly = c # cs" "foldr (divide_step z) cs ([], 0) = (q, running)" "r = (c + running) mod field_order"
    using assms by (auto simp: poly_divmod_linear_def split: list.splits prod.splits)
  note d = divide_fold [OF p(2), of x]
  show "length poly = Suc (length q)" using d p(1) by simp
  have "eqf (c + running) (ev z poly)" using d p(1) by (auto intro: eqf_add)
  then show "r = poly_eval poly z" by (simp add: p(3) poly_eval_ev eqf_def)
  have "eqf (ev x q * (x - z) + r) (ev x q * (x - z) + (c + running))" unfolding p(3) by (intro eqf_add) simp_all
  also have "ev x q * (x - z) + (c + running) = c + (ev x q * (x - z) + running)" by simp
  also have "eqf \<dots> (c + x * ev x cs)" using d by (intro eqf_add) simp_all
  finally show "eqf (ev x poly) (ev x q * (x - z) + r)" using p(1) eqf_sym by simp
qed

subsection \<open>Sums and products\<close>

lemma ev_update: "k < length cs \<Longrightarrow> ev x (cs[k := v]) = ev x cs + (v - cs ! k) * x ^ k"
proof (induction cs arbitrary: k)
  case (Cons c cs)
  show ?case
  proof (cases k)
    case (Suc m)
    have "ev x (cs[m := v]) = ev x cs + (v - cs ! m) * x ^ m" using Cons Suc by simp
    then show ?thesis using Suc by (simp only: list_update_code ev.simps nth_Cons_Suc) (simp add: algebra_simps)
  qed simp
qed simp

lemma ev_replicate [simp]: "ev x (replicate n 0) = 0"
  by (induction n) auto

lemma ev_add_at: "k < length cs \<Longrightarrow> eqf (ev x (add_at cs k d)) (ev x cs + d * x ^ k)"
proof -
  assume k: "k < length cs"
  have "ev x (add_at cs k d) = ev x cs + ((cs ! k + d) mod field_order - cs ! k) * x ^ k"
    using k by (simp add: add_at_def ev_update)
  also have "eqf \<dots> (ev x cs + ((cs ! k + d) - cs ! k) * x ^ k)" by (intro eqf_add eqf_mult eqf_diff) simp_all
  finally show ?thesis by simp
qed

text \<open>Adding the coefficients of \<open>f j\<close> from place \<open>i\<close> on.\<close>

lemma ev_fold_add:
  "i + n + length vs \<le> length res \<Longrightarrow>
    eqf (ev x (foldl (\<lambda>res (j, v). add_at res (i + j) (a * v)) res (enumerate n vs))) (ev x res + a * x ^ (i + n) * ev x vs)"
proof (induction vs arbitrary: n res)
  case (Cons v vs)
  let ?res = "add_at res (i + n) (a * v)"
  have "eqf (ev x (foldl (\<lambda>res (j, v). add_at res (i + j) (a * v)) ?res (enumerate (Suc n) vs)))
      (ev x ?res + a * x ^ (i + Suc n) * ev x vs)"
    using Cons.IH [of "Suc n" ?res] Cons.prems by simp
  also have "eqf \<dots> (ev x res + a * v * x ^ (i + n) + a * x ^ (i + Suc n) * ev x vs)"
    using Cons.prems by (intro eqf_add ev_add_at) simp_all
  also have "\<dots> = ev x res + a * x ^ (i + n) * ev x (v # vs)" by (simp add: algebra_simps)
  finally show ?case by simp
qed simp

lemma length_fold_add [simp]: "length (foldl (\<lambda>res (j, v). add_at res (f j) (g v)) res js) = length res"
  by (induction js arbitrary: res) auto

lemma ev_add_all: "length cs \<le> length res \<Longrightarrow> eqf (ev x (add_all res cs)) (ev x res + ev x cs) \<and> length (add_all res cs) = length res"
  using ev_fold_add [of 0 0 cs res x 1] length_fold_add [of "\<lambda>j. j" "\<lambda>v. v" res "enumerate 0 cs"] by (simp add: add_all_def)

lemma ev_poly_add: "eqf (ev x (poly_add a b)) (ev x a + ev x b)"
proof -
  let ?z = "replicate (max (length a) (length b)) (0 :: int)"
  have a: "eqf (ev x (add_all ?z a)) (0 + ev x a)" "length (add_all ?z a) = length ?z"
    using ev_add_all [of a ?z x] by simp_all
  have "eqf (ev x (poly_add a b)) (ev x (add_all ?z a) + ev x b)"
    using ev_add_all [of b "add_all ?z a" x] a(2) by (simp add: poly_add_def)
  also have "eqf \<dots> (0 + ev x a + ev x b)" using a(1) by (intro eqf_add) simp_all
  finally show ?thesis by simp
qed

lemma ev_poly_scalar_mul: "eqf (ev x (poly_scalar_mul p c)) (c * ev x p)"
proof (induction p)
  case (Cons a p)
  have "eqf (a * c mod field_order + x * ev x (poly_scalar_mul p c)) (a * c + x * (c * ev x p))"
    using Cons by (intro eqf_add eqf_mult) simp_all
  then show ?case by (simp add: poly_scalar_mul_def algebra_simps)
qed (simp add: poly_scalar_mul_def)

lemma ev_mul_fold:
  "n + length a + length b \<le> Suc (length res) \<Longrightarrow> b \<noteq> [] \<Longrightarrow>
    eqf (ev x (foldl (\<lambda>res (i, ai). if ai = 0 then res else foldl (\<lambda>res (j, bj). add_at res (i + j) (ai * bj)) res (enumerate 0 b))
      res (enumerate n a))) (ev x res + x ^ n * ev x a * ev x b)"
proof (induction a arbitrary: n res)
  case (Cons c a)
  let ?res = "if c = 0 then res else foldl (\<lambda>res (j, bj). add_at res (n + j) (c * bj)) res (enumerate 0 b)"
  have l: "length ?res = length res" by simp
  have r: "eqf (ev x ?res) (ev x res + c * x ^ n * ev x b)"
    using ev_fold_add [of n 0 b res x c] Cons.prems by simp
  have "eqf (ev x (foldl (\<lambda>res (i, ai). if ai = 0 then res else foldl (\<lambda>res (j, bj). add_at res (i + j) (ai * bj)) res (enumerate 0 b))
      ?res (enumerate (Suc n) a))) (ev x ?res + x ^ Suc n * ev x a * ev x b)"
    using Cons.prems l by (intro Cons.IH) simp_all
  also have "eqf \<dots> (ev x res + c * x ^ n * ev x b + x ^ Suc n * ev x a * ev x b)" using r by (intro eqf_add) simp_all
  also have "\<dots> = ev x res + x ^ n * ev x (c # a) * ev x b" by (simp add: algebra_simps)
  finally show ?case by simp
qed simp

lemma ev_poly_mul: "eqf (ev x (poly_mul a b)) (ev x a * ev x b)"
  using ev_mul_fold [of 0 a b "replicate (length a + length b - 1) 0" x] by (cases "a = [] \<or> b = []") (auto simp: poly_mul_def)

subsection \<open>Long division\<close>

lemma ev_subtract:
  "n + length d \<le> length r \<Longrightarrow> m \<le> length d \<Longrightarrow>
    eqf (ev x (foldl (\<lambda>r i. add_at r (n + i) (- (c * d ! i))) r [0..<m])) (ev x r - c * x ^ n * ev x (take m d))
    \<and> length (foldl (\<lambda>r i. add_at r (n + i) (- (c * d ! i))) r [0..<m]) = length r
    \<and> (\<forall>i < length r. n + m \<le> i \<longrightarrow> foldl (\<lambda>r i. add_at r (n + i) (- (c * d ! i))) r [0..<m] ! i = r ! i)"
proof (induction m)
  case (Suc m)
  let ?r = "foldl (\<lambda>r i. add_at r (n + i) (- (c * d ! i))) r [0..<m]"
  have t: "ev x (take (Suc m) d) = ev x (take m d) + d ! m * x ^ m"
  proof -
    have "ev x (as @ [v]) = ev x as + v * x ^ length as" for as v by (induction as) (auto simp: algebra_simps)
    then show ?thesis using Suc.prems by (simp add: take_Suc_conv_app_nth)
  qed
  have "eqf (ev x (add_at ?r (n + m) (- (c * d ! m)))) (ev x ?r + - (c * d ! m) * x ^ (n + m))"
    using Suc by (intro ev_add_at) simp
  also have "eqf \<dots> (ev x r - c * x ^ n * ev x (take m d) + - (c * d ! m) * x ^ (n + m))" using Suc by (intro eqf_add) simp_all
  also have "\<dots> = ev x r - c * x ^ n * ev x (take (Suc m) d)" unfolding t by (simp add: algebra_simps power_add)
  finally show ?case using Suc by (auto simp: add_at_def nth_list_update)
qed simp

lemma reduce_once_facts:
  assumes "d \<noteq> []" "length d \<le> length r" "eqf (last d * lead_inv) 1" "c = last r * lead_inv mod field_order"
  shows "eqf (ev x (butlast (reduce_once d c r))) (ev x r - c * x ^ (length r - length d) * ev x d)"
proof -
  let ?n = "length r - length d" and ?m = "length d - 1"
  let ?r = "foldl (\<lambda>r i. add_at r (?n + i) (- (c * d ! i))) r [0..<?m]"
  have e: "foldl (\<lambda>r i. add_at r (length r - length d + i) (- (c * d ! i))) r js
      = foldl (\<lambda>r i. add_at r (k + i) (- (c * d ! i))) r js" if "length r - length d = k" for js r k
    using that by (induction js arbitrary: r) auto
  have red: "reduce_once d c r = add_at ?r (?n + ?m) (- (c * d ! ?m))"
  proof -
    have "[0..<length d] = [0..<?m] @ [?m]" using assms(1) by (metis length_greater_0_conv Suc_pred' upt_Suc_append zero_le)
    then show ?thesis unfolding reduce_once_def e [OF refl] by simp
  qed
  note f = ev_subtract [of ?n d r "length d" x c] and f' = ev_subtract [of ?n d r ?m x c]
  have all: "eqf (ev x (reduce_once d c r)) (ev x r - c * x ^ ?n * ev x d)"
    using f assms(2) unfolding reduce_once_def e [OF refl] by simp
  have last: "last (reduce_once d c r) = (last r + - (c * last d)) mod field_order"
  proof -
    have l: "length r = Suc (?n + ?m)" using assms(1,2) by (cases d) auto
    have "reduce_once d c r \<noteq> []" using assms(1,2) by (metis length_reduce_once length_0_conv le_zero_eq)
    then have "last (reduce_once d c r) = reduce_once d c r ! (?n + ?m)" using l by (simp add: last_conv_nth)
    also have "\<dots> = (?r ! (?n + ?m) + - (c * d ! ?m)) mod field_order" unfolding red using f' l by (simp add: add_at_def)
    also have "?r ! (?n + ?m) = r ! (?n + ?m)" using f' l by simp
    also have "\<dots> = last r" using l by (subst last_conv_nth) auto
    also have "d ! ?m = last d" using assms(1) by (simp add: last_conv_nth)
    finally show ?thesis .
  qed
  have "eqf (c * last d) (last r * lead_inv * last d)" unfolding assms(4) by (intro eqf_mult) simp_all
  also have "last r * lead_inv * last d = last r * (last d * lead_inv)" by simp
  also have "eqf \<dots> (last r * 1)" by (intro eqf_mult assms(3)) simp
  finally have "eqf (last r - c * last d) (last r - last r)" by (intro eqf_diff) simp_all
  then have "last (reduce_once d c r) = 0" unfolding last by (simp add: eqf_def)
  moreover have "reduce_once d c r \<noteq> []" using assms(1,2) by (metis length_reduce_once length_0_conv le_zero_eq)
  moreover have "ev x (as @ [0]) = ev x as" for as by (induction as) auto
  ultimately have "ev x (butlast (reduce_once d c r)) = ev x (reduce_once d c r)" by (metis append_butlast_last_id)
  then show ?thesis using all by simp
qed

lemma ev_append: "ev x (as @ bs) = ev x as + x ^ length as * ev x bs"
  by (induction as) (auto simp: algebra_simps)

lemma divide_loop_facts:
  assumes "d \<noteq> []" "eqf (last d * lead_inv) 1" "divide_loop d lead_inv q r = (quot, rest)"
  shows "\<exists>qr. quot = qr @ rev q \<and> length qr = length r - (length d - 1) \<and> length rest \<le> max (length r) (length d) \<and>
    (length rest < length d \<or> rest = []) \<and> eqf (ev x r) (ev x qr * ev x d + ev x rest)"
  using assms
proof (induction d lead_inv q r rule: divide_loop.induct)
  case (1 d lead_inv q r)
  show ?case
  proof (cases "length r > length d - 1")
    case False
    then have "divide_loop d lead_inv q r = (rev q, r)" by (subst divide_loop.simps) simp
    moreover have "length r < length d" using False "1.prems"(1) by (cases d) auto
    ultimately have "quot = rev q" "rest = r" "length rest < length d" using "1.prems"(3) by simp_all
    then show ?thesis using False by auto
  next
    case True
    let ?c = "last r * lead_inv mod field_order" and ?n = "length r - length d"
    let ?r = "butlast (reduce_once d ?c r)"
    have le: "length d \<le> length r" using True by linarith
    have step: "divide_loop d lead_inv (q @ [?c]) ?r = (quot, rest)"
      using "1.prems"(1,3) True divide_loop.simps [of d lead_inv q r] by (simp add: Let_def)
    obtain qr where qr: "quot = qr @ rev (q @ [?c])" "length qr = length ?r - (length d - 1)"
      "length rest \<le> max (length ?r) (length d)" "length rest < length d \<or> rest = []"
      "eqf (ev x ?r) (ev x qr * ev x d + ev x rest)"
      using "1.IH" [OF _ refl "1.prems"(1,2) step] "1.prems"(1) True by blast
    have n: "length qr = ?n" using qr(2) "1.prems"(1) by (cases d) auto
    have red: "eqf (ev x ?r) (ev x r - ?c * x ^ ?n * ev x d)" using "1.prems"(1,2) le by (intro reduce_once_facts) simp_all
    have "eqf (ev x r) (ev x r - ?c * x ^ ?n * ev x d + ?c * x ^ ?n * ev x d)" by simp
    also have "eqf \<dots> (ev x ?r + ?c * x ^ ?n * ev x d)" using eqf_sym [OF red] by (intro eqf_add) simp_all
    also have "eqf \<dots> (ev x qr * ev x d + ev x rest + ?c * x ^ ?n * ev x d)" using qr(5) by (intro eqf_add) simp_all
    also have "\<dots> = ev x (qr @ [?c]) * ev x d + ev x rest" by (simp add: ev_append n algebra_simps)
    finally have "eqf (ev x r) (ev x (qr @ [?c]) * ev x d + ev x rest)" .
    moreover have "Suc ?n = length r - (length d - 1)" using le "1.prems"(1) by (cases d) auto
    moreover have "quot = (qr @ [?c]) @ rev q" "length rest \<le> max (length r) (length d)" using qr(1,3) by auto
    ultimately show ?thesis using qr(4) n by (metis length_append_singleton)
  qed
qed

lemma pow_one [simp]: "pow_mod 1 e = 1"
  by (simp add: pow_mod_eq field_order_def)

lemma vanishing_facts:
  assumes "0 < n" shows "vanishing_poly n \<noteq> []" "last (vanishing_poly n) = 1" "length (vanishing_poly n) = n + 1"
    "eqf (ev x (vanishing_poly n)) (x ^ n - 1)"
proof -
  have v: "vanishing_poly n = (replicate (n + 1) 0)[0 := field_order - 1, n := 1]" by (simp add: vanishing_poly_def)
  show "length (vanishing_poly n) = n + 1" by (simp only: v length_list_update length_replicate)
  then show "vanishing_poly n \<noteq> []" by auto
  then show "last (vanishing_poly n) = 1" using \<open>length (vanishing_poly n) = n + 1\<close> by (simp add: last_conv_nth) (simp add: v del: replicate_Suc)
  define z :: "int list" where "z = replicate (n + 1) 0"
  have z: "length z = n + 1" "ev x z = 0" "z ! 0 = 0" "z ! n = 0" by (simp_all only: z_def length_replicate ev_replicate nth_replicate)
  have "ev x (vanishing_poly n) = field_order - 1 + x ^ n"
    unfolding v z_def [symmetric] using assms z by (simp add: ev_update)
  then show "eqf (ev x (vanishing_poly n)) (x ^ n - 1)" by (simp add: eqf_def) (metis add.commute diff_add_eq mod_add_self2)
qed

subsection \<open>Interpolation\<close>

lemma ev_map_upt: "ev x (map f [0..<n]) = (\<Sum>k<n. f k * x ^ k)"
proof (induction n)
  case (Suc n)
  then show ?case by (simp add: ev_append mult.commute)
qed simp

lemma eqf_fold_sum: "eqf (foldl (\<lambda>s j. (s + g j) mod field_order) 0 [0..<n]) (\<Sum>j<n. g j)"
proof (induction n)
  case (Suc n)
  then show ?case by (auto intro: eqf_add)
qed simp

lemma eqf_sum: "(\<And>j. j \<in> A \<Longrightarrow> eqf (f j) (g j)) \<Longrightarrow> eqf (sum f A) (sum g A)"
  by (induction A rule: infinite_finite_induct) (auto intro: eqf_add)

lemma geometric8: "(\<Sum>k<8. u ^ k) = (1 + u) * (1 + u\<^sup>2) * (1 + u ^ 4)" for u :: int
  by (simp add: numeral_eq_Suc algebra_simps)

text \<open>For a fourth root \<open>w\<close> of \<open>- 1\<close>.\<close>

lemma w8:
  assumes "eqf (w ^ 4) (- 1)" shows "eqf (w ^ 8) 1"
proof -
  have "w ^ 8 = w ^ 4 * w ^ 4" by (simp flip: power_add)
  then show ?thesis using eqf_mult [OF assms assms] by simp
qed

lemma w_mod8:
  assumes "eqf (w ^ 4) (- 1)" shows "eqf (w ^ e) (w ^ (e mod 8))"
proof -
  have "w ^ e = (w ^ 8) ^ (e div 8) * w ^ (e mod 8)" by (simp flip: power_mult power_add)
  then show ?thesis using eqf_mult [OF eqf_power [OF w8 [OF assms], of "e div 8"] eqf_refl, of "w ^ (e mod 8)"] by simp
qed

text \<open>Orthogonality of the powers of \<open>w\<close>.\<close>

lemma w_orthogonal:
  assumes w4: "eqf (w ^ 4) (- 1)" shows "eqf (\<Sum>k<8. (w ^ e) ^ k) (if e mod 8 = 0 then 8 else 0)"
proof -
  have "e mod 8 = 0 \<or> odd e \<or> e mod 8 = 2 \<or> e mod 8 = 6 \<or> e mod 8 = 4" by presburger
  then consider "e mod 8 = 0" | "odd e" | "e mod 8 = 2 \<or> e mod 8 = 6" | "e mod 8 = 4" by metis
  then show ?thesis
  proof cases
    case 1
    have "eqf (\<Sum>k<8. (w ^ e) ^ k) (\<Sum>k<(8 :: nat). (1 :: int))"
      using w_mod8 [OF w4, of e] 1 by (intro eqf_sum) (metis eqf_power power_0 power_one)
    then show ?thesis using 1 by simp
  next
    case 2
    have "eqf ((w ^ e) ^ 4) ((w ^ 4) ^ e)" by (simp add: mult.commute flip: power_mult)
    also have "eqf \<dots> ((- 1) ^ e)" using w4 by (rule eqf_power)
    also have "(- 1 :: int) ^ e = - 1" using 2 by simp
    finally have "eqf (1 + (w ^ e) ^ 4) (1 + - 1)" by (intro eqf_add) simp_all
    then have "eqf ((1 + w ^ e) * (1 + (w ^ e)\<^sup>2) * (1 + (w ^ e) ^ 4)) ((1 + w ^ e) * (1 + (w ^ e)\<^sup>2) * 0)" by (intro eqf_mult) simp_all
    moreover have "e mod 8 \<noteq> 0" using 2 by presburger
    ultimately show ?thesis unfolding geometric8 by simp
  next
    case 3
    have "(w ^ e)\<^sup>2 = w ^ (2 * e)" by (simp add: mult.commute flip: power_mult)
    moreover have "(2 * e) mod 8 = 4" using 3 by presburger
    ultimately have "eqf ((w ^ e)\<^sup>2) (- 1)" using w_mod8 [OF w4, of "2 * e"] w4 eqf_trans by metis
    then have "eqf (1 + (w ^ e)\<^sup>2) (1 + - 1)" by (intro eqf_add) simp_all
    then have "eqf ((1 + w ^ e) * (1 + (w ^ e)\<^sup>2) * (1 + (w ^ e) ^ 4)) ((1 + w ^ e) * 0 * (1 + (w ^ e) ^ 4))" by (intro eqf_mult) simp_all
    then show ?thesis using 3 unfolding geometric8 by auto
  next
    case 4
    have "eqf (w ^ e) (- 1)" using w_mod8 [OF w4, of e] w4 4 eqf_trans by metis
    then have "eqf (1 + w ^ e) (1 + - 1)" by (intro eqf_add) simp_all
    then have "eqf ((1 + w ^ e) * (1 + (w ^ e)\<^sup>2) * (1 + (w ^ e) ^ 4)) (0 * (1 + (w ^ e)\<^sup>2) * (1 + (w ^ e) ^ 4))" by (intro eqf_mult) simp_all
    then show ?thesis using 4 unfolding geometric8 by simp
  qed
qed

text \<open>The exponent of the inverse is 7 modulo 8.\<close>

lemma w_inverse:
  assumes w4: "eqf (w ^ 4) (- 1)" shows "eqf (field_inv w) (w ^ 7)"
proof -
  have "nat (field_order - 2) mod 8 = 7" by (simp add: field_order_def)
  then show ?thesis using w_mod8 [OF w4, of "nat (field_order - 2)"] by (simp add: field_inv_def pow_mod_eq)
qed

lemma intt_at_root:
  assumes "length vs = 8" "i < 8" "eqf (w ^ 4) (- 1)"
  shows "eqf (ev (w ^ i) (intt w vs)) (vs ! i * (8 * field_inv 8))"
proof -
  let ?c = "\<lambda>k. foldl (\<lambda>s j. (s + vs ! j * pow_mod (field_inv w) (int j * int k)) mod field_order) 0 [0..<8] * field_inv 8 mod field_order"
  have p: "eqf (pow_mod (field_inv w) (int j * int k)) (w ^ (7 * (j * k)))" for j k
  proof -
    have "eqf (pow_mod (field_inv w) (int j * int k)) (field_inv w ^ (j * k))" by (simp add: pow_mod_eq nat_mult_distrib)
    also have "eqf \<dots> ((w ^ 7) ^ (j * k))" by (rule eqf_power [OF w_inverse [OF assms(3)]])
    finally show ?thesis by (simp flip: power_mult)
  qed
  have m: "(i + 7 * j) mod 8 = 0 \<longleftrightarrow> j = i" if "j < 8" for j
  proof -
    have "i \<in> {0, 1, 2, 3, 4, 5, 6, 7}" "j \<in> {0, 1, 2, 3, 4, 5, 6, 7}" using that assms(2) by auto
    then show ?thesis by (elim insertE emptyE) simp_all
  qed
  have e: "(w ^ (i + 7 * j)) ^ k = (w ^ i) ^ k * w ^ (7 * (j * k))" for j k
  proof -
    have "(i + 7 * j) * k = i * k + 7 * (j * k)" by (simp add: distrib_right)
    then show ?thesis by (metis power_add power_mult)
  qed
  have c: "eqf (?c k * (w ^ i) ^ k) (\<Sum>j<8. vs ! j * field_inv 8 * (w ^ (i + 7 * j)) ^ k)" for k
  proof -
    have "eqf (?c k) ((\<Sum>j<8. vs ! j * pow_mod (field_inv w) (int j * int k)) * field_inv 8)"
      unfolding eqf_mod by (intro eqf_mult eqf_fold_sum) simp
    also have "eqf \<dots> ((\<Sum>j<8. vs ! j * w ^ (7 * (j * k))) * field_inv 8)" by (intro eqf_mult eqf_sum p) simp_all
    finally have "eqf (?c k * (w ^ i) ^ k) ((\<Sum>j<8. vs ! j * w ^ (7 * (j * k))) * field_inv 8 * (w ^ i) ^ k)" by (intro eqf_mult) simp_all
    also have "\<dots> = (\<Sum>j<8. vs ! j * field_inv 8 * (w ^ (i + 7 * j)) ^ k)"
      unfolding sum_distrib_right by (intro sum.cong refl) (simp only: e, simp only: mult_ac)
    finally show ?thesis .
  qed
  have "ev (w ^ i) (intt w vs) = (\<Sum>k<8. ?c k * (w ^ i) ^ k)" using assms(1) by (simp add: intt_def Let_def ev_map_upt)
  also have "eqf \<dots> (\<Sum>k<8. \<Sum>j<8. vs ! j * field_inv 8 * (w ^ (i + 7 * j)) ^ k)" by (intro eqf_sum c)
  also have "(\<Sum>k<8. \<Sum>j<8. vs ! j * field_inv 8 * (w ^ (i + 7 * j)) ^ k) = (\<Sum>j<8. vs ! j * field_inv 8 * (\<Sum>k<8. (w ^ (i + 7 * j)) ^ k))"
    by (subst sum.swap) (simp add: sum_distrib_left)
  also have "eqf \<dots> (\<Sum>j<8. vs ! j * field_inv 8 * (if (i + 7 * j) mod 8 = 0 then 8 else 0))"
    by (intro eqf_sum eqf_mult w_orthogonal assms(3)) simp_all
  also have "(\<Sum>j<8. vs ! j * field_inv 8 * (if (i + 7 * j) mod 8 = 0 then 8 else 0)) = (\<Sum>j<8. if j = i then vs ! i * (8 * field_inv 8) else 0)"
    using m by (intro sum.cong refl) simp
  also have "\<dots> = vs ! i * (8 * field_inv 8)" using assms(2) by simp
  finally show ?thesis .
qed

subsection \<open>Bytes\<close>

lemma from_bytes_of:
  "foldl (\<lambda>n b. 256 * n + b) 0 (map (\<lambda>i. v div 256 ^ (n - Suc i) mod 256) [0..<n]) = v mod 256 ^ n" for v :: int
proof (induction n arbitrary: v)
  case (Suc n)
  have m: "map (\<lambda>i. v div 256 ^ (Suc n - Suc i) mod 256) [0..<Suc n]
      = map (\<lambda>i. (v div 256) div 256 ^ (n - Suc i) mod 256) [0..<n] @ [v mod 256]"
    by (auto simp: Suc_diff_Suc zdiv_zmult2_eq [symmetric] simp flip: power_Suc)
  have "v mod 256 ^ Suc n = 256 * (v div 256 mod 256 ^ n) + v mod 256"
    using zmod_zmult2_eq [of "256 ^ n" v 256] by simp
  then show ?case unfolding m using Suc by simp
qed simp

section \<open>Properties\<close>

text \<open>C34: dividing a polynomial by \<open>X - z\<close> gives its value at \<open>z\<close> as remainder and a quotient with
  \<open>p(x) = q(x) (x - z) + p(z)\<close> in the field for every \<open>x\<close>; and the opening quotient for a claimed value \<open>v\<close> satisfies
  \<open>q(x) (x - z) = p(x) - v\<close> exactly when \<open>v\<close> is that value.\<close>

theorem opening_quotient:
  assumes "poly_divmod_linear poly z = Inr (q, r)" "kzg_open_coeffs poly z v = Inr q'"
  shows "r = poly_eval poly z \<and> length q + 1 = length poly \<and> eqf (ev x poly) (ev x q * (x - z) + poly_eval poly z)
    \<and> (eqf (ev x q' * (x - z)) (ev x poly - v) \<longleftrightarrow> eqf v (poly_eval poly z))"
proof -
  note d = divmod_linear_spec [OF assms(1)]
  obtain c cs r' where k: "poly = c # cs" "poly_divmod_linear ((c - v) mod field_order # cs) z = Inr (q', r')"
    using assms(2) by (auto simp: kzg_open_coeffs_def result_simps split: list.splits)
  have s: "eqf (ev y ((c - v) mod field_order # cs)) (ev y poly - v)" for y
  proof -
    have "eqf ((c - v) mod field_order + y * ev y cs) ((c - v) + y * ev y cs)" by (intro eqf_add) simp_all
    also have "(c - v) + y * ev y cs = ev y poly - v" using k(1) by simp
    finally show ?thesis by simp
  qed
  note d' = divmod_linear_spec [OF k(2)]
  have r': "eqf r' (ev z poly - v)" using d'(2) s [of z] by (simp add: poly_eval_ev eqf_def)
  have q': "eqf (ev x poly - v) (ev x q' * (x - z) + r')" using eqf_trans [OF eqf_sym [OF s] d'(3)] .
  have "eqf (ev x q' * (x - z)) (ev x poly - v) \<longleftrightarrow> eqf r' 0"
  proof
    assume "eqf (ev x q' * (x - z)) (ev x poly - v)"
    then have "eqf (ev x q' * (x - z) + r' - ev x q' * (x - z)) (ev x q' * (x - z) - ev x q' * (x - z))"
      using q' by (intro eqf_diff) (auto intro: eqf_sym eqf_trans)
    then show "eqf r' 0" by simp
  next
    assume "eqf r' 0"
    then have "eqf (ev x q' * (x - z) + 0) (ev x q' * (x - z) + r')" by (intro eqf_add) (auto intro: eqf_sym)
    then show "eqf (ev x q' * (x - z)) (ev x poly - v)" using eqf_sym [OF q'] by (simp add: eqf_def)
  qed
  also have "eqf r' 0 \<longleftrightarrow> eqf (ev z poly - v) 0" using r' by (auto intro: eqf_sym eqf_trans)
  also have "\<dots> \<longleftrightarrow> eqf v (poly_eval poly z)"
    unfolding poly_eval_ev eqf_mod by (auto simp: eqf_def mod_eq_dvd_iff dvd_diff_commute)
  finally show ?thesis using d by simp
qed

theorem opening_quotient_witness:
  "poly_divmod_linear [1, 2, 3] 2 = Inr ([8, 3], 17) \<and> kzg_open_coeffs [1, 2, 3] 2 17 = Inr [8, 3]
    \<and> poly_eval [1, 2, 3] 2 = 17 \<and> eqf (ev 5 [8, 3] * 3) (ev 5 [1, 2, 3] - 17)"
proof -
  have d: "poly_divmod_linear [1, 2, 3] 2 = Inr ([8, 3], 17)" "kzg_open_coeffs [1, 2, 3] 2 17 = Inr [8, 3]"
    by (simp_all add: poly_divmod_linear_def kzg_open_coeffs_def divide_step_def field_order_def)
  from opening_quotient [OF d, of 5] show ?thesis using d by simp
qed

text \<open>C35: addition, scaling and multiplication of coefficient lists are addition, scaling and multiplication in the field of
  their values; long division by a divisor whose leading coefficient \<open>pow\<close> inverts (such as \<open>X^n - 1\<close>) gives
  \<open>p = q d + r\<close> with a remainder shorter than the divisor.\<close>

theorem polynomial_operations:
  assumes "d \<noteq> []" "eqf (last d * field_inv (last d)) 1" "poly_divmod p d = Inr (q, r)"
  shows "poly_eval (poly_add a b) x = (poly_eval a x + poly_eval b x) mod field_order
    \<and> poly_eval (poly_mul a b) x = poly_eval a x * poly_eval b x mod field_order
    \<and> poly_eval (poly_scalar_mul a c) x = c * poly_eval a x mod field_order
    \<and> poly_eval p x = (poly_eval q x * poly_eval d x + poly_eval r x) mod field_order \<and> length r < length d"
proof -
  have "divide_loop d (field_inv (last d)) [] p = (q, r)" using assms(1,3) by (simp add: poly_divmod_def field_inv_def)
  from divide_loop_facts [OF assms(1,2) this, of x]
  have "eqf (ev x p) (ev x q * ev x d + ev x r)" "length r < length d" using assms(1) by auto
  moreover have "eqf (ev x q mod field_order * (ev x d mod field_order) + ev x r mod field_order) (ev x q * ev x d + ev x r)"
    by (intro eqf_add eqf_mult) simp_all
  ultimately show ?thesis
    using ev_poly_add [of x a b] ev_poly_mul [of x a b] ev_poly_scalar_mul [of x a c]
    by (simp only: poly_eval_ev eqf_def) (simp add: mod_simps)
qed

theorem polynomial_operations_witness:
  "\<exists>q r. poly_divmod [1, 2, 3] (vanishing_poly 2) = Inr (q, r) \<and> length r < 3
    \<and> poly_eval [1, 2, 3] 5 = (poly_eval q 5 * poly_eval (vanishing_poly 2) 5 + poly_eval r 5) mod field_order"
proof -
  note v = vanishing_facts [of 2]
  have i: "eqf (last (vanishing_poly 2) * field_inv (last (vanishing_poly 2))) 1" using v(2) by (simp add: field_inv_def)
  obtain q r where d: "poly_divmod [1, 2, 3] (vanishing_poly 2) = Inr (q, r)" using v(1) by (simp add: poly_divmod_def) (metis prod.collapse)
  show ?thesis using polynomial_operations [OF _ i d, where x = 5] v(1,3) d by auto
qed

text \<open>Interpolation inverts evaluation on the domain: for 8 values and a fourth root \<open>w\<close> of \<open>- 1\<close> (which \<open>OMEGA\<close> is)
  the polynomial of \<open>intt\<close> takes at \<open>w ^ i\<close> the \<open>i\<close>-th value times \<open>8 * field_inv 8\<close>, which is one as the order is prime;
  and 32 bytes written for a field element read back.\<close>

theorem interpolation_round_trip:
  assumes "length values = 8" "i < 8" "eqf (w ^ 4) (- 1)" "0 \<le> v" "v < field_order"
  shows "poly_eval (intt w values) (w ^ i) = values ! i * (8 * field_inv 8) mod field_order
    \<and> (\<exists>bs. fr_to_bytes v = Inr bs \<and> length bs = 32 \<and> fr_from_bytes bs = v)"
proof -
  have v: "v < 256 ^ 32" using assms(5) by (simp add: field_order_def)
  moreover have "map (\<lambda>i. v div 256 ^ (31 - i) mod 256) [0..<32] = map (\<lambda>i. v div 256 ^ (32 - Suc i) mod 256) [0..<32]"
    by (simp add: numeral_eq_Suc)
  ultimately show ?thesis
    using intt_at_root [OF assms(1-3)] from_bytes_of [of v 32] assms(4)
    by (simp add: poly_eval_ev eqf_def fr_to_bytes_def fr_from_bytes_def)
qed

definition omega :: int where
  "omega = 26389178552394651245246837090492411671330744266237564696174733440959711379620"

theorem interpolation_round_trip_witness:
  "poly_eval (intt omega [1, 2, 3, 4, 5, 6, 7, 8]) (omega ^ 2) = 3 * (8 * field_inv 8) mod field_order
    \<and> (\<exists>bs. fr_to_bytes 258 = Inr bs \<and> fr_from_bytes bs = 258)"
proof -
  let ?i = "24682508875525884897641270952488416149830453149035712389703207095981135804695"
  have i: "eqf (omega\<^sup>2) ?i" by (simp add: eqf_def omega_def field_order_def)
  have "omega ^ 4 = omega\<^sup>2 * omega\<^sup>2" by (simp flip: power_add)
  then have "eqf (omega ^ 4) (?i * ?i)" using eqf_mult [OF i i] by simp
  also have "eqf (?i * ?i) (- 1)" by (simp add: eqf_def field_order_def)
  finally have w: "eqf (omega ^ 4) (- 1)" .
  have v: "0 \<le> (258 :: int)" "258 < field_order" by (simp_all add: field_order_def)
  have l: "length [1, 2, 3, 4, 5, 6, 7, 8 :: int] = 8" "(2 :: nat) < 8" by simp_all
  have "[1, 2, 3, 4, 5, 6, 7, 8 :: int] ! 2 = 3" by simp
  then show ?thesis using interpolation_round_trip [OF l w v] by metis
qed

end
