(* ===== verification/Domain_Circuits.thy ===== *)
theory Domain_Circuits
  imports Plonk_Circuit
begin

text \<open>
  Two of the three other circuits of \<open>zk/circuits/\<close> and their assignments (\<open>zk/witness/\<close>): AML sanctions screening and
  contract clause classification; the drug dosage circuit, which computes with floats, is theory \<open>Drug_Circuit\<close>.
  The three blueprints are here.  The witness modules repeat \<open>to_fixed_point\<close>, \<open>hash_hex_to_limbs\<close>,
  \<open>canonical_public_inputs_hash\<close> and the record of an assignment from \<open>zk/witness/generator.py\<close> word for word; the
  definitions of theory \<open>Plonk_Circuit\<close> stand for all of them.
\<close>

subsection \<open>The blueprints\<close>

definition aml_blueprint :: circuit_blueprint where
  "aml_blueprint = \<lparr>
     bp_name = ''aml_sanctions_screening_v1'',
     bp_description = ''Privacy-preserving AML/sanctions screening circuit that proves a name was screened and cleared without revealing the name.'',
     bp_public_inputs = [''sanctions_root'', ''screening_result'', ''screening_id''],
     bp_private_inputs = [''name'', ''name_normalized'', ''screening_timestamp''],
     bp_recommended_framework = ''Plonk'',
     bp_constraints = [
       constraint_spec ''canonical_name_hash''
         ''Hash the private name to produce a deterministic name_hash binding.''
         [''name'', ''name_normalized''] [''name_hash''],
       constraint_spec ''name_hash_commitment''
         ''Bind name_hash to a public commitment preventing substitution.''
         [''name_hash''] [''name_hash_commitment''],
       constraint_spec ''sanctions_set_membership''
         ''Check name_hash against the sanctions list Merkle root.''
         [''name_hash'', ''sanctions_root''] [''membership_result''],
       constraint_spec ''result_binding''
         ''Bind the screening result to the proof.''
         [''membership_result''] [''screening_result''],
       constraint_spec ''cleared_flag''
         ''Assert screening_result is 0 if cleared, or record flag if hit.''
         [''screening_result''] [''cleared_flag''],
       constraint_spec ''audit_timestamp_hash''
         ''Bind current timestamp hash to the proof for replay protection.''
         [''screening_timestamp''] [''timestamp_hash''],
       constraint_spec ''screening_id_hash''
         ''Produce unique screening_id from name_hash, sanctions_root, and timestamp.''
         [''name_hash'', ''sanctions_root'', ''timestamp_hash''] [''screening_id'']]\<rparr>"

definition drug_blueprint :: circuit_blueprint where
  "drug_blueprint = \<lparr>
     bp_name = ''drug_dosage_verification_v1'',
     bp_description = ''Healthcare circuit that proves a drug dosage recommendation was computed correctly using FDA-approved formulas without revealing patient identity.'',
     bp_public_inputs = [''fda_dataset_hash'', ''recommended_dose_mg'', ''dose_frequency_hours'', ''patient_hash''],
     bp_private_inputs = [''patient_weight_kg'', ''creatinine_clearance_ml_min'', ''patient_age_years'', ''drug_id''],
     bp_recommended_framework = ''Plonk'',
     bp_constraints = [
       constraint_spec ''patient_hash''
         ''Hash private patient identifiers to produce patient_hash for PHI binding.''
         [''patient_weight_kg'', ''creatinine_clearance_ml_min'', ''patient_age_years''] [''patient_hash''],
       constraint_spec ''renal_adjustment_factor''
         ''Compute creatinine clearance-based dose adjustment factor.''
         [''creatinine_clearance_ml_min''] [''adjustment_factor''],
       constraint_spec ''weight_based_dose''
         ''Compute weight-adjusted base dose using standard dosing table.''
         [''patient_weight_kg''] [''base_dose_mg''],
       constraint_spec ''age_adjustment''
         ''Apply age-based dose modifier.''
         [''patient_age_years''] [''age_factor''],
       constraint_spec ''adjusted_dose''
         ''Apply renal and age adjustments to base dose.''
         [''base_dose_mg'', ''adjustment_factor'', ''age_factor''] [''adjusted_dose_mg''],
       constraint_spec ''dosing_bounds_check''
         ''Verify result is within FDA-approved dose bounds.''
         [''adjusted_dose_mg''] [''bounds_valid''],
       constraint_spec ''fda_dataset_commitment''
         ''Bind to signed FDA dataset hash for integrity.''
         [''fda_dataset_hash''] [''dataset_binding''],
       constraint_spec ''final_dose_hash''
         ''Produce final recommended_dose_mg and hash for integrity.''
         [''adjusted_dose_mg'', ''dataset_binding''] [''recommended_dose_mg'']]\<rparr>"

definition clause_blueprint :: circuit_blueprint where
  "clause_blueprint = \<lparr>
     bp_name = ''contract_clause_classification_v1'',
     bp_description = ''ZK circuit for proving AI-based contract clause classification without revealing clause text. Proves classification was computed by applying a committed ruleset hash against a committed clause hash.'',
     bp_public_inputs = [''ruleset_id_hash'', ''ai_id'', ''classification_result'', ''audit_entry_hash''],
     bp_private_inputs = [''clause_text'', ''clause_id'', ''model_raw_output''],
     bp_recommended_framework = ''Plonk'',
     bp_constraints = [
       constraint_spec ''clause_hash_binding''
         ''Hash private clause_text to produce clause_hash, binding the clause to the proof.''
         [''clause_text''] [''clause_hash''],
       constraint_spec ''ruleset_commitment''
         ''Bind to a specific committed ruleset hash (GDPR_ART9, HIPAA_PHI, SOX_DISCLOSURE, etc.).''
         [''ruleset_id_hash''] [''ruleset_id_hash''],
       constraint_spec ''model_output_hash''
         (''Hash the AI model'' @ [CHR 39] @ ''s raw classification output to prevent post-hoc modification.'')
         [''model_raw_output''] [''model_output_hash''],
       constraint_spec ''classification_encoding''
         ''Encode classification result as field element: HIGH_RISK=3, MEDIUM_RISK=2, LOW_RISK=1, COMPLIANT=0.''
         [''classification_result''] [''classification_value''],
       constraint_spec ''risk_threshold_check''
         ''Verify that classification_value is within the valid range [0, 3].''
         [''classification_value''] [''risk_check_valid''],
       constraint_spec ''ai_id_binding''
         (''Bind the AI model'' @ [CHR 39] @ ''s AI-ID to the proof to prove which model classified the clause.'')
         [''ai_id''] [''ai_id''],
       constraint_spec ''audit_chain_hash''
         ''Bind to an audit chain entry hash for immutable record-keeping.''
         [''audit_entry_hash''] [''audit_entry_hash'']]\<rparr>"

definition blueprint_to_dict :: "circuit_blueprint \<Rightarrow> pyv" where
  "blueprint_to_dict b = PDict [(''name'', PStr (bp_name b)), (''description'', PStr (bp_description b)),
     (''public_inputs'', str_list (bp_public_inputs b)), (''private_inputs'', str_list (bp_private_inputs b)),
     (''recommended_framework'', PStr (bp_recommended_framework b)),
     (''constraints'', PList (map constraint_payload (bp_constraints b))),
     (''constraint_count'', PInt (int (length (bp_constraints b))))]"

subsection \<open>Checking gates\<close>

text \<open>The first \<open>muls\<close> gates multiply, the others up to \<open>gates_n\<close> add.\<close>

definition check_gates :: "nat \<Rightarrow> nat \<Rightarrow> plonk_assignment \<Rightarrow> bool list" where
  "check_gates muls gates_n s =
     map (\<lambda>i. (as_a_col s ! i * as_b_col s ! i - as_c_col s ! i) mod field_order = 0) [0..<muls] @
     map (\<lambda>i. (as_a_col s ! i + as_b_col s ! i - as_c_col s ! i) mod field_order = 0) [muls..<gates_n]"

definition verify_seven_gates :: "plonk_assignment \<Rightarrow> bool list" where
  "verify_seven_gates s = check_gates 4 7 s"

subsection \<open>AML sanctions screening\<close>

record aml_input =
  am_name :: string
  am_name_normalized :: string
  am_sanctions_root :: string
  am_screening_timestamp :: string
  am_expected_result :: int

definition aml_wires :: "int \<Rightarrow> int \<Rightarrow> int \<Rightarrow> int \<Rightarrow> int \<Rightarrow> string \<Rightarrow> plonk_assignment" where
  "aml_wires name_hash_fp sanctions_root_fp timestamp_hash_fp membership screening_id_fp inputs_hash =
     (let screening = membership; cleared = (1 - membership) mod field_order; one = 1; zero = 0 in
      \<lparr>as_a_col = [name_hash_fp, name_hash_fp, membership, screening, screening, timestamp_hash_fp, name_hash_fp],
       as_b_col = [sanctions_root_fp, one, one, one, zero, zero, sanctions_root_fp],
       as_c_col = [membership, name_hash_fp, screening, screening, cleared, timestamp_hash_fp, screening_id_fp],
       as_wire_map = [(''name_hash_fp'', name_hash_fp), (''sanctions_root_fp'', sanctions_root_fp),
         (''membership_result_fp'', membership), (''screening_result_fp'', screening), (''cleared_flag_fp'', cleared),
         (''timestamp_hash_fp'', timestamp_hash_fp), (''screening_id_fp'', screening_id_fp), (''one_fp'', one), (''zero_fp'', zero)],
       as_public_inputs_hash = inputs_hash\<rparr>)"

definition build_aml_assignment :: "aml_input \<Rightarrow> plonk_assignment result" where
  "build_aml_assignment w = (let name_hash = sha256_hex (am_name w @ am_name_normalized w) in
     rbind (rbind (limb name_hash 0) (\<lambda>n. to_fixed_point (PInt n))) (\<lambda>name_hash_fp.
     rbind (rbind (limb (am_sanctions_root w) 0) (\<lambda>n. to_fixed_point (PInt n))) (\<lambda>sanctions_root_fp.
     let timestamp_hash = sha256_hex (am_screening_timestamp w) in
     rbind (rbind (limb timestamp_hash 0) (\<lambda>n. to_fixed_point (PInt n))) (\<lambda>timestamp_hash_fp.
     rbind (to_fixed_point (PInt (am_expected_result w))) (\<lambda>membership.
     let screening_id = sha256_hex (name_hash @ am_sanctions_root w @ timestamp_hash) in
     rbind (rbind (limb screening_id 0) (\<lambda>n. to_fixed_point (PInt n))) (\<lambda>screening_id_fp.
     rbind (canonical_public_inputs_hash [(''sanctions_root'', am_sanctions_root w),
       (''screening_result'', int_text (am_expected_result w)), (''screening_id'', screening_id)]) (\<lambda>inputs_hash.
     Inr (aml_wires name_hash_fp sanctions_root_fp timestamp_hash_fp membership screening_id_fp inputs_hash))))))))"

subsection \<open>Contract clause classification\<close>

definition classification_encoding :: "(string \<times> int) list" where
  "classification_encoding = [(''COMPLIANT'', 0), (''LOW_RISK'', 1), (''MEDIUM_RISK'', 2), (''HIGH_RISK'', 3)]"

record clause_input =
  ct_clause_text :: string
  ct_clause_id :: string
  ct_model_raw_output :: string
  ct_classification_result :: string
  ct_ruleset_id_hash :: string
  ct_ai_id :: string
  ct_audit_entry_hash :: string

text \<open>The wires for the limbs of the four hashes, the code of the classification and its field element.\<close>

definition clause_wires :: "int list \<Rightarrow> int list \<Rightarrow> int list \<Rightarrow> int list \<Rightarrow> int \<Rightarrow> int \<Rightarrow> string \<Rightarrow> plonk_assignment" where
  "clause_wires clause_limbs output_limbs ruleset_limbs audit_limbs code value inputs_hash =
     (let product_0 = clause_limbs ! 0 * output_limbs ! 0 mod field_order;
          product_1 = ruleset_limbs ! 0 * value mod field_order;
          product_2 = clause_limbs ! 1 * output_limbs ! 1 mod field_order;
          product_3 = audit_limbs ! 0 mod field_order;
          sum_01 = (product_0 + product_1) mod field_order;
          sum_23 = (product_2 + product_3) mod field_order;
          final = (sum_01 + sum_23) mod field_order; one = 1 in
      \<lparr>as_a_col = [clause_limbs ! 0, ruleset_limbs ! 0, clause_limbs ! 1, audit_limbs ! 0, product_0, product_2, sum_01],
       as_b_col = [output_limbs ! 0, value, output_limbs ! 1, one, product_1, product_3, sum_23],
       as_c_col = [product_0, product_1, product_2, product_3, sum_01, sum_23, final],
       as_wire_map = [(''clause_text'', clause_limbs ! 0), (''clause_hash'', clause_limbs ! 0),
         (''model_raw_output'', output_limbs ! 0), (''model_output_hash'', output_limbs ! 0),
         (''classification_code'', code), (''classification_value_fp'', value), (''ruleset_id_hash'', ruleset_limbs ! 0),
         (''ai_id'', audit_limbs ! 0), (''audit_entry_hash'', audit_limbs ! 0), (''product_0_fp'', product_0),
         (''product_1_fp'', product_1), (''product_2_fp'', product_2), (''product_3_fp'', product_3),
         (''sum_01_fp'', sum_01), (''sum_23_fp'', sum_23), (''final_proof_element_fp'', final), (''one_fp'', one)],
       as_public_inputs_hash = inputs_hash\<rparr>)"

definition invalid_classification :: "string \<Rightarrow> py_error" where
  "invalid_classification c = ValueError (''Invalid classification_result: '' @ c @ ''. Must be one of: ['' @
     join '', '' (map (\<lambda>(k, _). [CHR 39] @ k @ [CHR 39]) classification_encoding) @ '']'')"

definition build_contract_clause_assignment :: "clause_input \<Rightarrow> plonk_assignment result" where
  "build_contract_clause_assignment w = (case map_of classification_encoding (ct_classification_result w) of
     None \<Rightarrow> Inl (invalid_classification (ct_classification_result w))
   | Some code \<Rightarrow>
     let clause_hash = sha256_hex (ct_clause_text w); output_hash = sha256_hex (ct_model_raw_output w);
         value = code * fixed_point_scale mod field_order in
     rbind (hash_hex_to_limbs clause_hash) (\<lambda>clause_limbs.
     rbind (hash_hex_to_limbs output_hash) (\<lambda>output_limbs.
     rbind (hash_hex_to_limbs (ct_ruleset_id_hash w)) (\<lambda>ruleset_limbs.
     rbind (hash_hex_to_limbs (ct_audit_entry_hash w)) (\<lambda>audit_limbs.
     rbind (canonical_public_inputs_hash [(''ruleset_id_hash'', ct_ruleset_id_hash w), (''ai_id'', ct_ai_id w),
       (''classification_result'', ct_classification_result w), (''audit_entry_hash'', ct_audit_entry_hash w)]) (\<lambda>inputs_hash.
     Inr (clause_wires clause_limbs output_limbs ruleset_limbs audit_limbs code value inputs_hash)))))))"

text \<open>The instance values: the classification and the limbs of three hashes, as in the landed-cost circuit.\<close>

definition clause_instance_values :: "int \<Rightarrow> string \<Rightarrow> string \<Rightarrow> string \<Rightarrow> int list result" where
  "clause_instance_values value th ch ph =
     rbind (hash_hex_to_limbs th) (\<lambda>t. rbind (hash_hex_to_limbs ch) (\<lambda>c.
     rbind (hash_hex_to_limbs ph) (\<lambda>p. Inr (value # t @ c @ p))))"

subsection \<open>Integers as field elements\<close>

lemma int_text_format: "int_text n = dec_format_f (Dec (n < 0) \<bar>n\<bar> 0)"
proof (cases "n = 0")
  case True
  then show ?thesis by (simp add: int_text_def dec_format_f_def dec_digits.simps hex_digit_def)
qed (simp add: int_text_def dec_format_f_def)

lemma fixed_point_int:
  assumes "\<bar>n\<bar> < 10 ^ 22"
  shows "to_fixed_point (PInt n) = Inr (n * 10 ^ 6 mod field_order)"
proof -
  have nd: "ndigits \<bar>n\<bar> \<le> 22" using ndigits_le_iff [of "\<bar>n\<bar>" 22] assms by simp
  have t: "decimal_of_string (int_text n) = Some (Fin (Dec (n < 0) \<bar>n\<bar> 0))"
    using format_f_reads_back [of "Dec (n < 0) \<bar>n\<bar> 0"] nd by (simp add: int_text_format)
  have m: "dec_mul (Dec (n < 0) \<bar>n\<bar> 0) (dec_of_int fixed_point_scale) = Dec (n < 0) (\<bar>n\<bar> * 10 ^ 6) 0"
    using assms by (simp add: dec_mul_def dec_of_int_def fixed_point_scale_def dec_fix_id)
  have "ndigits (\<bar>n\<bar> * 10 ^ 6) \<le> 28" using ndigits_le_iff [of "\<bar>n\<bar> * 10 ^ 6" 28] assms by simp
  then show ?thesis
    by (auto simp: to_fixed_point_def t scaled_def m integral_value_def dec_rescale_def pow10_def)
qed

lemma limb_facts:
  assumes "py_int16 (take 16 s) = Some n" "all_lower_hex (take 16 s)"
  shows "limb s 0 = Inr n" "0 \<le> n" "n < 2 ^ 64"
proof -
  have "take 16 s \<noteq> []" using assms(1) by (auto simp: py_int16_def int_strip_def)
  then have n: "n = hex_num 0 (take 16 s)" using py_int16_lower_hex [OF assms(2)] assms(1) by simp
  have b: "0 \<le> n" "n < 16 ^ length (take 16 s)" using hex_num_bounds [OF assms(2), of 0] unfolding n by simp_all
  have "(16 :: int) ^ length (take 16 s) \<le> 16 ^ 16" by (intro power_increasing) simp_all
  then show "0 \<le> n" "n < 2 ^ 64" using b by simp_all
  show "limb s 0 = Inr n" using assms(1) by (simp add: limb_def)
qed

text \<open>The number in the first 16 hexadecimal digits.\<close>

definition leading :: "string \<Rightarrow> int" where
  "leading s = hex_num 0 (take 16 s)"

lemma digest_limb: "limb (sha256_hex s) 0 = Inr (leading (sha256_hex s))"
  "0 \<le> leading (sha256_hex s)" "leading (sha256_hex s) < 2 ^ 64"
  using limb_lower_hex [of "sha256_hex s" 0] unfolding leading_def by (simp_all add: sha.digest_hex sha.digest_length)

subsection \<open>Gates over the integers\<close>

text \<open>Below the order of the field a congruence is an equation.\<close>

lemma small_multiple: "\<bar>n :: int\<bar> < field_order \<Longrightarrow> n mod field_order = 0 \<longleftrightarrow> n = 0"
  using dvd_imp_le_int [of n field_order] by (auto simp: mod_eq_0_iff_dvd)

lemma seven_gates:
  "verify_seven_gates s = map (\<lambda>i. (as_a_col s ! i * as_b_col s ! i - as_c_col s ! i) mod field_order = 0) [0, 1, 2, 3]
    @ map (\<lambda>i. (as_a_col s ! i + as_b_col s ! i - as_c_col s ! i) mod field_order = 0) [4, 5, 6]"
proof -
  have "[0..<4] = [0, 1, 2, 3 :: nat]" "[4..<7] = [4, 5, 6 :: nat]" by (simp_all add: upt_rec)
  then show ?thesis by (simp add: verify_seven_gates_def check_gates_def)
qed

lemma aml_gates:
  "verify_seven_gates (aml_wires (N * 10 ^ 6 mod field_order) (R * 10 ^ 6 mod field_order) t (E * 10 ^ 6 mod field_order) (S * 10 ^ 6 mod field_order) h) =
    [(N * R * 10 ^ 12 - E * 10 ^ 6) mod field_order = 0, True, True, True, (2 * E * 10 ^ 6 - 1) mod field_order = 0, True,
     ((N + R - S) * 10 ^ 6) mod field_order = 0]"
proof -
  have g0: "(N * 10 ^ 6 mod field_order * (R * 10 ^ 6 mod field_order) - E * 10 ^ 6 mod field_order) mod field_order
      = (N * R * 10 ^ 12 - E * 10 ^ 6) mod field_order"
  proof -
    have "(N * 10 ^ 6 mod field_order * (R * 10 ^ 6 mod field_order) - E * 10 ^ 6 mod field_order) mod field_order
      = ((N * 10 ^ 6) * (R * 10 ^ 6) - E * 10 ^ 6) mod field_order" by (intro mod_diff_cong mod_mult_cong) simp_all
    then show ?thesis by (simp add: mult.assoc mult.left_commute)
  qed
  have g4: "(E * 10 ^ 6 mod field_order + 0 - (1 - E * 10 ^ 6 mod field_order) mod field_order) mod field_order
      = (2 * E * 10 ^ 6 - 1) mod field_order"
  proof -
    have "(E * 10 ^ 6 mod field_order + 0 - (1 - E * 10 ^ 6 mod field_order) mod field_order) mod field_order
      = (E * 10 ^ 6 + 0 - (1 - E * 10 ^ 6)) mod field_order" by (intro mod_diff_cong mod_add_cong) (simp_all add: mod_simps)
    then show ?thesis by simp
  qed
  have g6: "(N * 10 ^ 6 mod field_order + R * 10 ^ 6 mod field_order - S * 10 ^ 6 mod field_order) mod field_order
      = ((N + R - S) * 10 ^ 6) mod field_order"
  proof -
    have "(N * 10 ^ 6 mod field_order + R * 10 ^ 6 mod field_order - S * 10 ^ 6 mod field_order) mod field_order
      = (N * 10 ^ 6 + R * 10 ^ 6 - S * 10 ^ 6) mod field_order" by (intro mod_diff_cong mod_add_cong) simp_all
    then show ?thesis by (simp add: algebra_simps)
  qed
  show ?thesis
    unfolding seven_gates aml_wires_def Let_def using g0 g4 g6 by simp
qed

lemma scaled_products:
  assumes "0 \<le> N" "N < 2 ^ 64" "0 \<le> R" "R < 2 ^ 64" "\<bar>E\<bar> < 10 ^ 22" "0 \<le> S" "S < 2 ^ 64"
  shows "(N * R * 10 ^ 12 - E * 10 ^ 6) mod field_order = 0 \<longleftrightarrow> N * R * 10 ^ 6 = E"
    and "(2 * E * 10 ^ 6 - 1) mod field_order \<noteq> 0" and "((N + R - S) * 10 ^ 6) mod field_order = 0 \<longleftrightarrow> N + R = S"
proof -
  have "N * R < 2 ^ 64 * 2 ^ 64" using assms by (intro mult_strict_mono) simp_all
  moreover have "0 \<le> N * R" using assms by simp
  ultimately have "\<bar>N * R * 10 ^ 12 - E * 10 ^ 6\<bar> < field_order" using assms(5) by (simp add: field_order_def abs_less_iff)
  then show "(N * R * 10 ^ 12 - E * 10 ^ 6) mod field_order = 0 \<longleftrightarrow> N * R * 10 ^ 6 = E" 
  proof -
    assume a: "\<bar>N * R * 10 ^ 12 - E * 10 ^ 6\<bar> < field_order"
    have "N * R * 10 ^ 12 - E * 10 ^ 6 = (N * R * 10 ^ 6 - E) * 10 ^ 6" by (simp add: left_diff_distrib)
    then have "N * R * 10 ^ 12 - E * 10 ^ 6 = 0 \<longleftrightarrow> N * R * 10 ^ 6 - E = 0" by (simp only: mult_eq_0_iff) simp
    then show ?thesis using small_multiple [OF a] by linarith
  qed
  have "\<bar>2 * E * 10 ^ 6 - 1\<bar> < field_order" using assms(5) by (simp add: field_order_def abs_less_iff)
  then show "(2 * E * 10 ^ 6 - 1) mod field_order \<noteq> 0" 
  proof -
    assume a: "\<bar>2 * E * 10 ^ 6 - 1\<bar> < field_order"
    have "2 * E * 10 ^ 6 \<noteq> 1" by (metis dvd_triv_left mult.assoc odd_one)
    then show ?thesis using small_multiple [OF a] by linarith
  qed
  have "\<bar>(N + R - S) * 10 ^ 6\<bar> < field_order" using assms by (simp add: field_order_def abs_less_iff)
  then show "((N + R - S) * 10 ^ 6) mod field_order = 0 \<longleftrightarrow> N + R = S" by (simp add: small_multiple) linarith
qed

lemma self_gate: "(n - n mod m) mod m = (0 :: int)"
  by (simp add: minus_mod_eq_mult_div)

lemma seven_list:
  "verify_seven_gates \<lparr>as_a_col = [a0, a1, a2, a3, a4, a5, a6], as_b_col = [b0, b1, b2, b3, b4, b5, b6],
      as_c_col = [c0, c1, c2, c3, c4, c5, c6], as_wire_map = m, as_public_inputs_hash = h\<rparr> =
    [(a0 * b0 - c0) mod field_order = 0, (a1 * b1 - c1) mod field_order = 0, (a2 * b2 - c2) mod field_order = 0,
     (a3 * b3 - c3) mod field_order = 0, (a4 + b4 - c4) mod field_order = 0, (a5 + b5 - c5) mod field_order = 0,
     (a6 + b6 - c6) mod field_order = 0]"
  by (simp add: seven_gates numeral_eq_Suc)

lemma clause_gates:
  "verify_seven_gates (clause_wires c out r a code value h) = replicate 7 True"
  unfolding clause_wires_def Let_def seven_list mult_1_right self_gate by (simp add: numeral_eq_Suc)

lemma clause_columns:
  "as_a_col (clause_wires c out r a code v h) = as_a_col (clause_wires c out r a code v h')"
  "as_b_col (clause_wires c out r a code v h) = as_b_col (clause_wires c out r a code v h')"
  "as_c_col (clause_wires c out r a code v h) = as_c_col (clause_wires c out r a code v h')"
  "as_wire_map (clause_wires c out r a code v h) = as_wire_map (clause_wires c out r a code v h')"
  by (simp_all add: clause_wires_def Let_def)

section \<open>Properties\<close>

text \<open>C36: for a hexadecimal sanctions root an AML assignment is always built, and its gates say of the leading 64 bits
  \<open>N\<close>, \<open>R\<close> and \<open>S\<close> of the name hash, the root and the screening id: \<open>N R 10^6 = E\<close> for the expected result \<open>E\<close>, \<open>N + R = S\<close>, nothing
  at four of them, and at gate 4 that \<open>2 E 10^6 = 1\<close>, which no result satisfies.  So no witness the generator builds
  satisfies its own circuit, whatever the screening result.\<close>

theorem aml_witness_never_satisfies:
  assumes "py_int16 (take 16 (am_sanctions_root w)) = Some R" "all_lower_hex (take 16 (am_sanctions_root w))"
    and "\<bar>am_expected_result w\<bar> < 10 ^ 22"
  shows "\<exists>s. build_aml_assignment w = Inr s
    \<and> verify_seven_gates s = (let h = sha256_hex (am_name w @ am_name_normalized w); N = leading h;
        S = leading (sha256_hex (h @ am_sanctions_root w @ sha256_hex (am_screening_timestamp w))) in
      [N * R * 10 ^ 6 = am_expected_result w, True, True, True, False, True, N + R = S])"
proof -
  let ?nh = "sha256_hex (am_name w @ am_name_normalized w)" and ?th = "sha256_hex (am_screening_timestamp w)"
  let ?sid = "sha256_hex (?nh @ am_sanctions_root w @ ?th)"
  let ?L = "\<lambda>s. leading (sha256_hex s)"
  note root = limb_facts [OF assms(1,2)]
  have big: "(2 :: int) ^ 64 < 10 ^ 22" by simp
  have fp: "to_fixed_point (PInt (?L s)) = Inr (?L s * 10 ^ 6 mod field_order)" for s
    using digest_limb(2,3) [of s] big by (intro fixed_point_int) (simp only: abs_of_nonneg)
  have fr: "to_fixed_point (PInt R) = Inr (R * 10 ^ 6 mod field_order)" using root big by (intro fixed_point_int) simp
  have fe: "to_fixed_point (PInt (am_expected_result w)) = Inr (am_expected_result w * 10 ^ 6 mod field_order)"
    using assms(3) by (rule fixed_point_int)
  obtain t h s where b: "build_aml_assignment w = Inr s" "s = aml_wires (?L (am_name w @ am_name_normalized w) * 10 ^ 6 mod field_order)
      (R * 10 ^ 6 mod field_order) t (am_expected_result w * 10 ^ 6 mod field_order)
      (?L (?nh @ am_sanctions_root w @ ?th) * 10 ^ 6 mod field_order) h"
    by (simp add: build_aml_assignment_def Let_def digest_limb(1) fp root(1) fr fe inputs_hash_ok)
  have "verify_seven_gates s = [?L (am_name w @ am_name_normalized w) * R * 10 ^ 6 = am_expected_result w, True, True, True, False, True,
      ?L (am_name w @ am_name_normalized w) + R = ?L (?nh @ am_sanctions_root w @ ?th)]"
    unfolding b(2) aml_gates scaled_products(1,3) [OF digest_limb(2,3) root(2,3) assms(3) digest_limb(2,3)]
    using scaled_products(2) [OF digest_limb(2,3) root(2,3) assms(3) digest_limb(2,3)] by (simp only: simp_thms)
  then show ?thesis using b(1) unfolding Let_def by blast
qed

definition sample_screening :: aml_input where
  "sample_screening = \<lparr>am_name = ''John Smith'', am_name_normalized = ''john smith'',
     am_sanctions_root = ''0123456789abcdef0123456789abcdef0123456789abcdef0123456789abcdef'',
     am_screening_timestamp = ''2026-04-04T12:00:00Z'', am_expected_result = 0\<rparr>"

theorem aml_witness_never_satisfies_witness:
  "\<exists>s. build_aml_assignment sample_screening = Inr s \<and> False \<in> set (verify_seven_gates s)"
proof -
  have r: "take 16 (am_sanctions_root sample_screening) = ''0123456789abcdef''" by (simp add: sample_screening_def)
  have "py_int16 (take 16 (am_sanctions_root sample_screening)) = Some (hex_num 0 ''0123456789abcdef'')"
    "all_lower_hex (take 16 (am_sanctions_root sample_screening))"
    unfolding r by (rule py_int16_lower_hex, code_simp, simp) code_simp
  moreover have "\<bar>am_expected_result sample_screening\<bar> < 10 ^ 22" by (simp add: sample_screening_def)
  ultimately obtain s where "build_aml_assignment sample_screening = Inr s" "\<exists>a b. verify_seven_gates s = [a, True, True, True, False, True, b]"
    using aml_witness_never_satisfies [of sample_screening] unfolding Let_def by blast
  then show ?thesis by (auto simp del: Let_def)
qed

text \<open>C37: for a known classification and hexadecimal hashes a clause assignment is always built and satisfies all seven gates;
  an unknown classification raises ValueError.  The gates do not look at what they are for: they hold for any number in the
  place of the classification (nothing checks the range 0 to 3), and two inputs with the same clause text, model output,
  classification and leading 64 bits of the rule set and audit hashes get the same wires, whatever AI-ID and clause id they
  name.\<close>

theorem clause_witness_satisfies:
  assumes "all_lower_hex (ct_ruleset_id_hash w)" "length (ct_ruleset_id_hash w) = 64"
    and "all_lower_hex (ct_audit_entry_hash w)" "length (ct_audit_entry_hash w) = 64"
  shows "(case map_of classification_encoding (ct_classification_result w) of
      None \<Rightarrow> (\<exists>t. build_contract_clause_assignment w = Inl (ValueError t))
    | Some code \<Rightarrow> (\<exists>s. build_contract_clause_assignment w = Inr s \<and> verify_seven_gates s = replicate 7 True
        \<and> 0 \<le> code \<and> code \<le> 3 \<and> as_b_col s ! 1 = code * 10 ^ 6
        \<and> (\<forall>ident ai. \<exists>s'. build_contract_clause_assignment (w\<lparr>ct_clause_id := ident, ct_ai_id := ai\<rparr>) = Inr s'
            \<and> as_a_col s' = as_a_col s \<and> as_b_col s' = as_b_col s \<and> as_c_col s' = as_c_col s \<and> as_wire_map s' = as_wire_map s)
        \<and> (\<forall>v. \<exists>s'. as_b_col s' ! 1 = v \<and> take 1 (as_a_col s') = take 1 (as_a_col s) \<and> verify_seven_gates s' = replicate 7 True)))"
proof (cases "map_of classification_encoding (ct_classification_result w)")
  case None
  then show ?thesis by (simp add: build_contract_clause_assignment_def invalid_classification_def)
next
  case (Some code)
  have code: "0 \<le> code" "code \<le> 3" "code * 10 ^ 6 mod field_order = code * 10 ^ 6"
    using Some by (auto simp: classification_encoding_def field_order_def split: if_splits)
  obtain cl ol where d: "hash_hex_to_limbs (sha256_hex (ct_clause_text w)) = Inr cl" "hash_hex_to_limbs (sha256_hex (ct_model_raw_output w)) = Inr ol"
    using limbs_text [OF sha.digest_hex sha.digest_length] by metis
  obtain rl al where r: "hash_hex_to_limbs (ct_ruleset_id_hash w) = Inr rl" "hash_hex_to_limbs (ct_audit_entry_hash w) = Inr al"
    using limbs_text [OF assms(1,2)] limbs_text [OF assms(3,4)] by metis
  have b: "\<exists>h. build_contract_clause_assignment (w\<lparr>ct_clause_id := ident, ct_ai_id := ai\<rparr>) = Inr (clause_wires cl ol rl al code (code * 10 ^ 6) h)" for ident ai
    using Some d r code(3) by (simp add: build_contract_clause_assignment_def Let_def inputs_hash_ok fixed_point_scale_def) blast
  have "w\<lparr>ct_clause_id := ct_clause_id w, ct_ai_id := ct_ai_id w\<rparr> = w" by simp
  then obtain h where b0: "build_contract_clause_assignment w = Inr (clause_wires cl ol rl al code (code * 10 ^ 6) h)"
    using b [where ident = "ct_clause_id w" and ai = "ct_ai_id w"] by auto
  have v: "\<exists>s'. as_b_col s' ! 1 = v \<and> take 1 (as_a_col s') = take 1 (as_a_col (clause_wires cl ol rl al code (code * 10 ^ 6) h))
      \<and> verify_seven_gates s' = replicate 7 True" for v
    by (rule exI [of _ "clause_wires cl ol rl al code v h"], intro conjI clause_gates) (simp_all add: clause_wires_def Let_def)
  have same: "\<exists>s'. build_contract_clause_assignment (w\<lparr>ct_clause_id := ident, ct_ai_id := ai\<rparr>) = Inr s'
      \<and> as_a_col s' = as_a_col (clause_wires cl ol rl al code (code * 10 ^ 6) h) \<and> as_b_col s' = as_b_col (clause_wires cl ol rl al code (code * 10 ^ 6) h)
      \<and> as_c_col s' = as_c_col (clause_wires cl ol rl al code (code * 10 ^ 6) h) \<and> as_wire_map s' = as_wire_map (clause_wires cl ol rl al code (code * 10 ^ 6) h)" for ident ai
  proof -
    obtain h' where "build_contract_clause_assignment (w\<lparr>ct_clause_id := ident, ct_ai_id := ai\<rparr>) = Inr (clause_wires cl ol rl al code (code * 10 ^ 6) h')"
      using b by blast
    then show ?thesis using clause_columns [of cl ol rl al code "code * 10 ^ 6" h' h] by blast
  qed
  have "as_b_col (clause_wires cl ol rl al code (code * 10 ^ 6) h) ! 1 = code * 10 ^ 6" by (simp add: clause_wires_def Let_def)
  then show ?thesis using b0 Some code(1,2) v same clause_gates by (simp only: option.case) blast
qed

definition sample_clause :: clause_input where
  "sample_clause = \<lparr>ct_clause_text = ''The Service is provided on an as-is basis.'', ct_clause_id = ''CLAUSE_001'',
     ct_model_raw_output = ''CLASSIFICATION: COMPLIANT'', ct_classification_result = ''COMPLIANT'',
     ct_ruleset_id_hash = replicate 64 (CHR ''0''), ct_ai_id = ''model'', ct_audit_entry_hash = replicate 64 (CHR ''0'')\<rparr>"

theorem clause_witness_satisfies_witness:
  "\<exists>s. build_contract_clause_assignment sample_clause = Inr s \<and> verify_seven_gates s = replicate 7 True"
proof -
  have h: "all_lower_hex (ct_ruleset_id_hash sample_clause)" "length (ct_ruleset_id_hash sample_clause) = 64"
    "all_lower_hex (ct_audit_entry_hash sample_clause)" "length (ct_audit_entry_hash sample_clause) = 64"
    by (simp_all add: sample_clause_def all_lower_hex_def is_lower_hex_def list_all_iff)
  from clause_witness_satisfies [OF h] show ?thesis by (auto simp: sample_clause_def classification_encoding_def)
qed

end
