(* ===== verification/Float_Repr.thy ===== *)
theory Float_Repr
  imports Domain_Circuits Binary64
begin

text \<open>
  Python's \<open>repr\<close> of a positive or negative float, which \<open>str\<close> and hence \<open>Decimal(str(x))\<close> use: the shortest decimal that
  rounds to the float, the closest of them, written with a point or, below \<open>1e-4\<close> and from \<open>1e16\<close> on, with an exponent.
  Negative zero, which the rational numbers of theory \<open>Binary64\<close> do not have, is not represented.
\<close>

definition ten_pow :: "int \<Rightarrow> rat" where
  "ten_pow e = (if 0 \<le> e then 10 ^ nat e else 1 / 10 ^ nat (- e))"

text \<open>The \<open>e\<close> with \<open>10 ^ (e - 1) \<le> x < 10 ^ e\<close>.\<close>

definition exponent10 :: "rat \<Rightarrow> int" where
  "exponent10 x = (let (n, d) = quotient_of x; e = ndigits n - ndigits d in if x < ten_pow e then e else e + 1)"

text \<open>The two decimals of \<open>n\<close> digits next to \<open>x\<close>, the nearer one first.\<close>

definition neighbours :: "rat \<Rightarrow> int \<Rightarrow> (int \<times> int) list" where
  "neighbours x n = (let k = exponent10 x - n; s = x / ten_pow k; near = round_even s;
     far = (if near = \<lfloor>s\<rfloor> then near + 1 else near - 1) in [(near, k), (far, k)])"

definition shortest :: "rat \<Rightarrow> int \<times> int" where
  "shortest x = (case find (\<lambda>(m, k). fl (of_int m * ten_pow k) = x) (concat (map (neighbours x) [1..17])) of
     Some c \<Rightarrow> c | None \<Rightarrow> hd (neighbours x 17))"

function drop_zeros :: "int \<Rightarrow> int \<Rightarrow> int \<times> int" where
  "drop_zeros m k = (if 0 < m \<and> m mod 10 = 0 then drop_zeros (m div 10) (k + 1) else (m, k))"
  by pat_completeness auto
termination by (relation "measure (\<lambda>(m, k). nat m)") auto

declare drop_zeros.simps [simp del]

definition float_repr :: "rat \<Rightarrow> string" where
  "float_repr x = (if x = 0 then ''0.0'' else
     let (m0, k0) = shortest \<bar>x\<bar>; (m, k) = drop_zeros m0 k0; ds = dec_digits m; point = int (length ds) + k in
     if - 4 < point \<and> point \<le> 16
     then dec_format_f (if k < 0 then Dec (x < 0) m k else Dec (x < 0) (m * pow10 (k + 1)) (- 1))
     else (if x < 0 then ''-'' else []) @ (if length ds = 1 then ds else hd ds # CHR ''.'' # tl ds) @ ''e'' @
       (if point - 1 < 0 then ''-'' else ''+'') @ (if \<bar>point - 1\<bar> < 10 then ''0'' else []) @ dec_digits \<bar>point - 1\<bar>)"

subsection \<open>Powers of ten\<close>

lemma ten_pow_pos [simp]: "0 < ten_pow e"
  by (simp add: ten_pow_def)

lemma ten_pow_power: "0 \<le> e \<Longrightarrow> ten_pow e = 10 ^ nat e"
  by (simp add: ten_pow_def)

lemma ten_pow_int: "ten_pow e = power_int 10 e"
  by (auto simp: ten_pow_def power_int_def inverse_eq_divide power_one_over)

lemma ten_pow_add: "ten_pow (a + b) = ten_pow a * ten_pow b"
  by (simp add: ten_pow_int power_int_add)

lemma ten_pow_le: "a \<le> b \<Longrightarrow> ten_pow a \<le> ten_pow b"
  unfolding ten_pow_int by (rule power_int_increasing) simp_all

lemma ten_pow_less_cancel: "ten_pow a < ten_pow b \<Longrightarrow> a < b"
  using ten_pow_le [of b a] by linarith

lemma digits_low: "1 \<le> n \<Longrightarrow> 10 ^ nat (ndigits n - 1) \<le> n"
proof (cases "ndigits n = 1")
  case False
  assume n: "1 \<le> n"
  let ?k = "nat (ndigits n - 1)"
  have "1 \<le> ?k" "int ?k < ndigits n" using False ndigits_pos [of n] by simp_all
  then show ?thesis using ndigits_le_iff [of n ?k] n by linarith
qed simp

lemma digits_value:
  assumes "1 \<le> n" shows "ten_pow (ndigits n - 1) \<le> of_int n" "of_int n < ten_pow (ndigits n)"
proof -
  have "(of_int (10 ^ nat (ndigits n - 1)) :: rat) \<le> of_int n" using digits_low [OF assms] by (simp only: of_int_le_iff)
  then show "ten_pow (ndigits n - 1) \<le> of_int n" using ndigits_pos [of n] by (simp add: ten_pow_power)
  have "(of_int n :: rat) < of_int (10 ^ nat (ndigits n))" using ndigits_bound [of n] assms by (simp only: of_int_less_iff)
  then show "of_int n < ten_pow (ndigits n)" using ndigits_pos [of n] by (simp add: ten_pow_power)
qed

lemma exponent10_bounds:
  assumes "0 < x" shows "ten_pow (exponent10 x - 1) \<le> x" "x < ten_pow (exponent10 x)"
proof -
  obtain n d where q: "quotient_of x = (n, d)" by (cases "quotient_of x")
  have d: "0 < d" using quotient_of_denom_pos [OF q] .
  have x: "x * of_int d = of_int n" using quotient_of_div [OF q] d by simp
  have n: "0 < n" using assms d x by (metis mult_pos_pos of_int_0_less_iff)
  let ?a = "ndigits n" and ?b = "ndigits d"
  have "ten_pow (?a - ?b - 1) * of_int d \<le> ten_pow (?a - ?b - 1) * ten_pow ?b"
    using digits_value(2) [of d] d by (intro mult_left_mono) (auto simp: less_imp_le)
  also have "\<dots> = ten_pow (?a - 1)" by (simp flip: ten_pow_add)
  also have "\<dots> \<le> x * of_int d" using digits_value(1) [of n] n x by simp
  finally have low: "ten_pow (?a - ?b - 1) \<le> x" using d by simp
  have "x * of_int d < ten_pow ?a" using digits_value(2) [of n] n x by simp
  also have "\<dots> = ten_pow (?a - ?b + 1) * ten_pow (?b - 1)" by (simp flip: ten_pow_add)
  also have "\<dots> \<le> ten_pow (?a - ?b + 1) * of_int d"
    using digits_value(1) [of d] d by (intro mult_left_mono) (auto simp: less_imp_le)
  finally have high: "x < ten_pow (?a - ?b + 1)" using d by simp
  show "ten_pow (exponent10 x - 1) \<le> x" "x < ten_pow (exponent10 x)"
    using low high by (auto simp: exponent10_def q Let_def)
qed

subsection \<open>The decimal next to a float\<close>

lemma neighbours_facts:
  assumes "0 < x" "1 \<le> n" "(m, k) \<in> set (neighbours x n)"
  shows "k = exponent10 x - n" "1 \<le> m" "m \<le> 10 ^ nat n"
proof -
  let ?k = "exponent10 x - n"
  define s where "s = x / ten_pow ?k"
  have m: "k = ?k" "m = round_even s \<or> m = (if round_even s = \<lfloor>s\<rfloor> then round_even s + 1 else round_even s - 1)"
    using assms(3) by (auto simp: neighbours_def Let_def s_def)
  have "x = s * ten_pow ?k" by (simp add: s_def less_imp_neq [symmetric])
  moreover have "ten_pow (exponent10 x - 1) = ten_pow (n - 1) * ten_pow ?k" "ten_pow (exponent10 x) = ten_pow n * ten_pow ?k"
    by (simp_all flip: ten_pow_add)
  ultimately have "ten_pow (n - 1) * ten_pow ?k \<le> s * ten_pow ?k" "s * ten_pow ?k < ten_pow n * ten_pow ?k"
    using exponent10_bounds [OF assms(1)] by metis+
  then have s: "ten_pow (n - 1) \<le> s" "s < ten_pow n"
    by (simp_all only: mult_le_cancel_right_pos mult_less_cancel_right_pos ten_pow_pos)
  have "1 \<le> ten_pow (n - 1)" using ten_pow_le [of 0 "n - 1"] assms(2) by (simp add: ten_pow_def)
  then have one: "of_int 1 \<le> s" using s(1) by simp
  have high: "s < of_int (10 ^ nat n)" using s(2) assms(2) by (simp add: ten_pow_power)
  have f: "1 \<le> \<lfloor>s\<rfloor>" "\<lfloor>s\<rfloor> + 1 \<le> 10 ^ nat n" using one high by (simp_all add: le_floor_iff floor_less_iff add1_zle_eq del: of_int_power)
  have r: "round_even s = \<lfloor>s\<rfloor> \<or> round_even s = \<lfloor>s\<rfloor> + 1" by (auto simp: round_even_def Let_def)
  show "k = exponent10 x - n" by (rule m(1))
  show "1 \<le> m" "m \<le> 10 ^ nat n" using m(2) r f by (auto split: if_splits)
qed

lemma error_of_rounded: "0 < v \<Longrightarrow> \<bar>x - v\<bar> * 2 ^ 53 \<le> v \<Longrightarrow> \<bar>v - x\<bar> * 2 ^ 52 \<le> x" for v x :: rat
  by (cases "v \<le> x") simp_all

lemma scaled_error: "\<bar>v - x\<bar> * 2 ^ 52 \<le> x \<Longrightarrow> \<bar>v * 10 ^ 6 - x * 10 ^ 6\<bar> \<le> x * 10 ^ 6 / 2 ^ 52" for v x :: rat
  by (cases "v \<le> x") simp_all

lemma find_member: "find P xs = Some c \<Longrightarrow> c \<in> set xs \<and> P c"
  by (induction xs) (auto split: if_splits)

lemma shortest_facts:
  assumes "0 < x" "shortest x = (m, k)"
  shows "1 \<le> m" "m \<le> 10 ^ 17" "exponent10 x - 17 \<le> k" "\<bar>of_int m * ten_pow k - x\<bar> * 2 ^ 52 \<le> x"
proof -
  have "\<exists>n. 1 \<le> n \<and> n \<le> 17 \<and> (m, k) \<in> set (neighbours x n)"
  proof (cases "find (\<lambda>(m, k). fl (of_int m * ten_pow k) = x) (concat (map (neighbours x) [1..17]))")
    case None
    then have "(m, k) \<in> set (neighbours x 17)" using assms(2) by (auto simp: shortest_def neighbours_def Let_def)
    then show ?thesis by (intro exI [of _ 17]) simp
  next
    case (Some c)
    then have "c = (m, k)" using assms(2) by (simp add: shortest_def)
    with find_member [OF Some] have "(m, k) \<in> set (concat (map (neighbours x) [1..17]))" by blast
    then show ?thesis by auto
  qed
  then obtain n where n: "1 \<le> n" "n \<le> 17" "(m, k) \<in> set (neighbours x n)" by blast
  note f = neighbours_facts [OF assms(1) n(1,3)]
  have "(10 :: int) ^ nat n \<le> 10 ^ 17" using n by (intro power_increasing) simp_all
  then show "1 \<le> m" "m \<le> 10 ^ 17" "exponent10 x - 17 \<le> k" using f n by simp_all
  let ?v = "of_int m * ten_pow k"
  have v: "0 < ?v" using \<open>1 \<le> m\<close> by simp
  show "\<bar>?v - x\<bar> * 2 ^ 52 \<le> x"
  proof (cases "find (\<lambda>(m, k). fl (of_int m * ten_pow k) = x) (concat (map (neighbours x) [1..17]))")
    case (Some c)
    then have "c = (m, k)" using assms(2) by (simp add: shortest_def)
    with find_member [OF Some] have "fl ?v = x" by simp
    then have "\<bar>x - ?v\<bar> * 2 ^ 53 \<le> ?v" using fl_error [of ?v] v by simp
    from error_of_rounded [OF v this] show ?thesis .
  next
    case None
    let ?k = "exponent10 x - 17"
    define s where "s = x / ten_pow ?k"
    have m: "m = round_even s" "k = ?k" using None assms(2) by (auto simp: shortest_def neighbours_def Let_def s_def)
    have x: "x = s * ten_pow ?k" by (simp add: s_def less_imp_neq [symmetric])
    have "?v - x = (of_int (round_even s) - s) * ten_pow ?k" using m x by (simp add: left_diff_distrib)
    then have "\<bar>?v - x\<bar> \<le> 1 / 2 * ten_pow ?k"
      using round_even_error [of s] by (simp add: abs_mult mult_right_mono less_imp_le)
    moreover have "ten_pow ?k * 10 ^ 16 \<le> x"
    proof -
      have "ten_pow ?k * ten_pow 16 = ten_pow (exponent10 x - 1)" by (simp flip: ten_pow_add)
      then show ?thesis using exponent10_bounds(1) [OF assms(1)] by (simp add: ten_pow_def [of 16])
    qed
    ultimately show ?thesis using assms(1) by simp
  qed
qed

lemma drop_zeros_facts:
  "drop_zeros m k = (m', k') \<Longrightarrow> 0 < m \<Longrightarrow> 0 < m' \<and> m' \<le> m \<and> k \<le> k' \<and> of_int m' * ten_pow k' = of_int m * ten_pow k"
proof (induction m k arbitrary: m' k' rule: drop_zeros.induct)
  case (1 m k)
  show ?case
  proof (cases "m mod 10 = 0")
    case True
    then have m: "m = m div 10 * 10" by presburger
    have pos: "0 < m div 10" using True 1(3) by presburger
    have st: "drop_zeros (m div 10) (k + 1) = (m', k')" using 1(2,3) True by (subst (asm) drop_zeros.simps) simp
    have ih: "0 < m'" "m' \<le> m div 10" "k + 1 \<le> k'" "of_int m' * ten_pow k' = of_int (m div 10) * ten_pow (k + 1)"
      using 1(1) [OF _ st pos] 1(3) True by auto
    have "of_int (m div 10) * ten_pow (k + 1) = of_int (m div 10 * 10) * ten_pow k"
      by (simp add: ten_pow_add) (simp add: ten_pow_def)
    then show ?thesis using ih m by auto
  next
    case False
    then show ?thesis using 1(2,3) by (subst (asm) drop_zeros.simps) auto
  qed
qed

text \<open>The text of a float of ordinary size reads back as a decimal at most \<open>2 ^ (- 52)\<close> of it away.\<close>

lemma float_repr_reads:
  assumes "1 / 1000 \<le> x" "x \<le> 10 ^ 15"
  obtains m k where "decimal_of_string (float_repr x) = Some (Fin (Dec False m k))" "0 < m" "m < 10 ^ 18" "- 20 \<le> k" "k < 0"
    "\<bar>of_int m * ten_pow k - x\<bar> * 2 ^ 52 \<le> x"
proof -
  have x: "0 < x" using assms(1) by simp
  obtain m0 k0 where s0: "shortest x = (m0, k0)" by fastforce
  obtain m k where s: "drop_zeros m0 k0 = (m, k)" by fastforce
  note f = shortest_facts [OF x s0]
  have g: "0 < m" "m \<le> m0" "k0 \<le> k" "of_int m * ten_pow k = of_int m0 * ten_pow k0"
    using drop_zeros_facts [OF s] f(1) by auto
  let ?v = "of_int m * ten_pow k"
  have err: "\<bar>?v - x\<bar> * 2 ^ 52 \<le> x" using f(4) g(4) by simp
  have "?v < 10 ^ 16" "1 / 10 ^ 4 < ?v" using err assms by (auto simp: abs_if split: if_splits)
  then have v: "?v < ten_pow 16" "ten_pow (- 4) < ?v" by (simp_all add: ten_pow_def)
  let ?point = "ndigits m + k"
  have low: "ten_pow (?point - 1) \<le> ?v"
    using digits_value(1) [of m] g(1) mult_right_mono [of "ten_pow (ndigits m - 1)" "of_int m" "ten_pow k"]
    by (simp add: less_imp_le flip: ten_pow_add) (simp add: add_diff_eq diff_add_eq)
  have high: "?v < ten_pow ?point"
    using digits_value(2) [of m] g(1) mult_strict_right_mono [of "of_int m" "ten_pow (ndigits m)" "ten_pow k"]
    by (simp flip: ten_pow_add)
  have p: "- 4 < ?point" "?point \<le> 16"
    using ten_pow_less_cancel [of "- 4" ?point] ten_pow_less_cancel [of "?point - 1" 16] low high v by linarith+
  have "ten_pow (- 3) \<le> x" using assms(1) by (simp add: ten_pow_def)
  then have "- 3 < exponent10 x" using exponent10_bounds(2) [OF x] by (intro ten_pow_less_cancel) simp
  then have k: "- 20 \<le> k" using f(3) g(3) by simp
  let ?d = "if k < 0 then Dec False m k else Dec False (m * pow10 (k + 1)) (- 1)"
  have t: "float_repr x = dec_format_f ?d"
    using x s0 s p by (simp add: float_repr_def Let_def length_dec_digits)
  obtain M K where d: "?d = Dec False M K" "0 < M" "M < 10 ^ 18" "- 20 \<le> K" "K < 0" "of_int M * ten_pow K = ?v"
  proof (cases "k < 0")
    case True
    then show thesis using that [of m k] g(1,2) f(2) k by simp
  next
    case False
    have "pow10 (k + 1) = 10 ^ nat k * 10" using False by (simp add: pow10_def nat_add_distrib)
    moreover have tk: "ten_pow k = 10 ^ nat k" using False by (simp add: ten_pow_def)
    ultimately have M: "of_int (m * pow10 (k + 1)) * ten_pow (- 1) = ?v" by (simp add: ten_pow_def)
    have "of_int (m * 10 ^ nat k) < (of_int (10 ^ 16) :: rat)" using v(1) tk by (simp add: ten_pow_def)
    then have "m * 10 ^ nat k < 10 ^ 16" by (simp only: of_int_less_iff)
    then have "m * pow10 (k + 1) < 10 ^ 18" using \<open>pow10 (k + 1) = 10 ^ nat k * 10\<close> by simp
    then show thesis using that [of "m * pow10 (k + 1)" "- 1"] False g(1) M by simp
  qed
  have "ndigits M \<le> 18" using ndigits_le_iff [of M 18] d by simp
  then have "decimal_of_string (float_repr x) = Some (Fin (Dec False M K))"
    unfolding t d(1) using format_f_reads_back [of "Dec False M K"] d by simp
  then show thesis using that d err by simp
qed

lemma half_up_close:
  assumes "0 < d" shows "\<bar>of_int (half_up n d) - of_int n / of_int d\<bar> \<le> (1 / 2 :: rat)"
proof -
  have "2 * d * half_up n d \<le> 2 * n + d" "2 * n + d < 2 * d * half_up n d + 2 * d"
    using assms mult_div_mod_eq [of "2 * d" "2 * n + d"] pos_mod_bound [of "2 * d" "2 * n + d"]
      pos_mod_sign [of "2 * d" "2 * n + d"] unfolding half_up_def by linarith+
  then have "of_int (2 * d * half_up n d) \<le> (of_int (2 * n + d) :: rat)"
    "of_int (2 * n + d) < (of_int (2 * d * half_up n d + 2 * d) :: rat)" by (simp_all only: of_int_le_iff of_int_less_iff)
  then have "2 * of_int d * of_int (half_up n d) \<le> (2 * of_int n + of_int d :: rat)"
    "2 * of_int n + of_int d < (2 * of_int d * of_int (half_up n d) + 2 * of_int d :: rat)" by simp_all
  moreover have "of_int n = of_int d * (of_int n / of_int d :: rat)" using assms by simp
  ultimately have "of_int d * (2 * of_int (half_up n d)) \<le> of_int d * (2 * (of_int n / of_int d) + 1 :: rat)"
    "of_int d * (2 * (of_int n / of_int d) + 1) < of_int d * (2 * of_int (half_up n d) + 2 :: rat)"
    by (simp_all add: distrib_left)
  then have "2 * of_int (half_up n d) \<le> 2 * (of_int n / of_int d) + (1 :: rat)"
    "2 * (of_int n / of_int d) + 1 < 2 * of_int (half_up n d) + (2 :: rat)"
    using assms by (simp_all only: mult_le_cancel_left_pos mult_less_cancel_left_pos of_int_0_less_iff)
  then show ?thesis by (simp only: abs_le_iff) linarith
qed

text \<open>The field element of a float is the nearest integer of a millionth, up to the error of its text.\<close>

lemma fixed_point_float:
  assumes "1 / 1000 \<le> x" "x \<le> 10 ^ 15"
  obtains r where "to_fixed_point (PStr (float_repr x)) = Inr (r mod field_order)" "0 \<le> r"
    "\<bar>of_int r - x * 10 ^ 6\<bar> \<le> 1 / 2 + x * 10 ^ 6 / 2 ^ 52"
proof -
  obtain m k where d: "decimal_of_string (float_repr x) = Some (Fin (Dec False m k))" "0 < m" "m < 10 ^ 18" "- 20 \<le> k" "k < 0"
    and err: "\<bar>of_int m * ten_pow k - x\<bar> * 2 ^ 52 \<le> x" by (rule float_repr_reads [OF assms])
  let ?c = "m * 10 ^ 6"
  have mul: "dec_mul (Dec False m k) (dec_of_int fixed_point_scale) = Dec False ?c k"
    using d(2,3) by (simp add: dec_mul_def dec_of_int_def fixed_point_scale_def dec_fix_id)
  have "ndigits ?c \<le> 28" using ndigits_le_iff [of ?c 28] d(2,3) by simp
  then have t: "to_fixed_point (PStr (float_repr x)) = Inr (dec_rescale 0 (Dec False ?c k) mod field_order)"
    using d(2,5) by (simp add: to_fixed_point_def d(1) scaled_def mul integral_value_def)
  define r where "r = dec_rescale 0 (Dec False ?c k)"
  have "ten_pow k = 1 / of_int (pow10 (- k))" using d(5) by (simp add: pow10_def ten_pow_def)
  then have q: "of_int ?c * ten_pow k = of_int ?c / of_int (pow10 (- k))" by simp
  have r: "0 \<le> r \<and> \<bar>of_int r - of_int ?c * ten_pow k\<bar> \<le> 1 / 2"
  proof (cases "ndigits ?c + k < 0")
    case True
    have "of_int ?c * ten_pow k < ten_pow (ndigits ?c) * ten_pow k" using digits_value(2) [of ?c] d(2) by (intro mult_strict_right_mono) simp_all
    also have "\<dots> \<le> ten_pow (- 1)" using True by (simp flip: ten_pow_add add: ten_pow_le)
    finally have "of_int ?c * ten_pow k < 1 / 10" by (simp add: ten_pow_def)
    moreover have "0 \<le> of_int ?c * ten_pow k" using d(2) by (simp add: less_imp_le)
    ultimately show ?thesis using True d(5) by (simp add: r_def dec_rescale_def)
  next
    case False
    then have "r = half_up ?c (pow10 (- k))" using d(5) by (simp add: r_def dec_rescale_def)
    moreover have "0 \<le> half_up ?c (pow10 (- k))" using d(2)
      by (simp add: half_up_def pos_imp_zdiv_nonneg_iff add_nonneg_nonneg less_imp_le)
    ultimately show ?thesis using half_up_close [of "pow10 (- k)" ?c] q by simp
  qed
  have "of_int ?c * ten_pow k = of_int m * ten_pow k * 10 ^ 6" by simp
  moreover have "\<bar>of_int m * ten_pow k * 10 ^ 6 - x * 10 ^ 6\<bar> \<le> x * 10 ^ 6 / 2 ^ 52"
    using scaled_error [OF err] .
  ultimately have "\<bar>of_int r - x * 10 ^ 6\<bar> \<le> 1 / 2 + x * 10 ^ 6 / 2 ^ 52" using r by linarith
  then show thesis using that [of r] t r by (simp add: r_def)
qed

end
