(* ===== verification/Drug_Circuit.thy ===== *)
theory Drug_Circuit
  imports Float_Repr
begin

text \<open>
  The drug dosage circuit (\<open>zk/witness/drug_dosage_witness_generator.py\<close>; its blueprint is in theory \<open>Domain_Circuits\<close>).  Doses are
  computed with floats, and the wires are the fixed-point numbers of their texts.  The fields annotated \<open>float\<close> may hold ints,
  as in the repository's own test vectors.
\<close>

datatype py_number = NInt int | NFloat rat

fun number_text :: "py_number \<Rightarrow> string" where
  "number_text (NInt n) = int_text n"
| "number_text (NFloat x) = float_repr x"

text \<open>The number itself, and the float an arithmetic operation with a float takes it for.\<close>

fun number_value :: "py_number \<Rightarrow> rat" where
  "number_value (NInt n) = of_int n"
| "number_value (NFloat x) = x"

fun number_float :: "py_number \<Rightarrow> rat" where
  "number_float (NInt n) = fl (of_int n)"
| "number_float (NFloat x) = x"

definition compute_renal_adjustment_factor :: "py_number \<Rightarrow> rat" where
  "compute_renal_adjustment_factor creatinine = max (fl (1 / 10)) (min 1 (fl (number_float creatinine / 90)))"

definition compute_age_adjustment_factor :: "py_number \<Rightarrow> rat" where
  "compute_age_adjustment_factor age =
     (if number_value age < 18 then 1 / 2 else if number_value age > 65 then fl (85 / 100) else 1)"

definition compute_weight_based_dose :: "py_number \<Rightarrow> rat" where
  "compute_weight_based_dose weight = fl (15 * number_float weight)"

record drug_input =
  dd_patient_weight_kg :: py_number
  dd_creatinine_clearance_ml_min :: py_number
  dd_patient_age_years :: py_number
  dd_fda_dataset_hash :: string
  dd_drug_id :: string
  dd_dose_frequency_hours :: int

definition drug_wires :: "int \<Rightarrow> int \<Rightarrow> int \<Rightarrow> int \<Rightarrow> int \<Rightarrow> int \<Rightarrow> int \<Rightarrow> int \<Rightarrow> int \<Rightarrow> string \<Rightarrow> plonk_assignment" where
  "drug_wires weight creatinine adjustment base age adjusted dataset dose_per_kg ninety inputs_hash =
     (let patient = weight * creatinine mod field_order; bounds_valid = adjusted; binding = dataset;
          recommended = adjusted; one = 1; zero = 0 in
      \<lparr>as_a_col = [weight, creatinine, weight, age, base, adjusted, dataset, adjusted],
       as_b_col = [creatinine, ninety, dose_per_kg, one, adjustment, zero, zero, binding],
       as_c_col = [patient, adjustment, base, age, adjusted, bounds_valid, binding, recommended],
       as_wire_map = [(''weight_fp'', weight), (''creatinine_fp'', creatinine), (''adjustment_factor_fp'', adjustment),
         (''base_dose_fp'', base), (''age_factor_fp'', age), (''adjusted_dose_fp'', adjusted), (''patient_hash_fp'', patient),
         (''fda_dataset_hash_fp'', dataset), (''dataset_binding_fp'', binding), (''recommended_dose_fp'', recommended),
         (''one_fp'', one), (''zero_fp'', zero)],
       as_public_inputs_hash = inputs_hash\<rparr>)"

definition build_drug_dosage_assignment :: "drug_input \<Rightarrow> plonk_assignment result" where
  "build_drug_dosage_assignment w = (let fixed = (\<lambda>s. to_fixed_point (PStr s));
     weight_text = number_text (dd_patient_weight_kg w); creatinine_text = number_text (dd_creatinine_clearance_ml_min w);
     adjustment_factor = compute_renal_adjustment_factor (dd_creatinine_clearance_ml_min w);
     age_factor = compute_age_adjustment_factor (dd_patient_age_years w);
     base_dose = compute_weight_based_dose (dd_patient_weight_kg w);
     adjusted_dose = fl (fl (base_dose * adjustment_factor) * age_factor) in
     rbind (fixed weight_text) (\<lambda>weight.
     rbind (fixed creatinine_text) (\<lambda>creatinine.
     rbind (fixed (float_repr adjustment_factor)) (\<lambda>adjustment.
     rbind (fixed (float_repr base_dose)) (\<lambda>base.
     rbind (fixed (float_repr age_factor)) (\<lambda>age.
     rbind (fixed (float_repr adjusted_dose)) (\<lambda>adjusted.
     rbind (rbind (limb (dd_fda_dataset_hash w) 0) (\<lambda>n. to_fixed_point (PInt n))) (\<lambda>dataset.
     rbind (to_fixed_point (PInt (dd_dose_frequency_hours w))) (\<lambda>_.
     rbind (fixed (float_repr 15)) (\<lambda>dose_per_kg.
     let patient_hash = sha256_hex (weight_text @ creatinine_text @ number_text (dd_patient_age_years w)) in
     rbind (canonical_public_inputs_hash [(''fda_dataset_hash'', dd_fda_dataset_hash w),
       (''recommended_dose_mg'', float_repr adjusted_dose), (''dose_frequency_hours'', int_text (dd_dose_frequency_hours w)),
       (''patient_hash'', patient_hash)]) (\<lambda>inputs_hash.
     rbind (fixed (float_repr 90)) (\<lambda>ninety.
     Inr (drug_wires weight creatinine adjustment base age adjusted dataset dose_per_kg ninety inputs_hash)))))))))))))"

definition verify_eight_gates :: "plonk_assignment \<Rightarrow> bool list" where
  "verify_eight_gates s = check_gates 5 8 s"

subsection \<open>Fixed-point numbers of floats\<close>

text \<open>\<open>near_fixed r x\<close>: the number \<open>r\<close> is the field element of \<open>x\<close> in millionths, up to rounding.\<close>

definition near_fixed :: "int \<Rightarrow> rat \<Rightarrow> bool" where
  "near_fixed r x \<longleftrightarrow> 0 \<le> r \<and> \<bar>of_int r - x * 10 ^ 6\<bar> \<le> 1 / 2 + x * 10 ^ 6 / 2 ^ 52"

lemma near_fixed_int:
  assumes "near_fixed r x" "x * 10 ^ 6 = of_int n" "0 \<le> n" "n \<le> 10 ^ 15" shows "r = n"
proof -
  have "(of_int n :: rat) \<le> of_int (10 ^ 15)" using assms(4) by (simp only: of_int_le_iff)
  then have "1 / 2 + of_int n / 2 ^ 52 < (1 :: rat)" by simp
  then have "\<bar>of_int r - of_int n\<bar> < (1 :: rat)" using assms(1,2) unfolding near_fixed_def by (simp only:) linarith
  then have "\<bar>of_int (r - n)\<bar> < (of_int 1 :: rat)" by simp
  then show ?thesis by (simp only: of_int_abs [symmetric] of_int_less_iff)
qed

lemma fixed_number:
  assumes "1 / 1000 \<le> number_value v" "number_value v \<le> 10 ^ 15"
  obtains r where "to_fixed_point (PStr (number_text v)) = Inr (r mod field_order)" "near_fixed r (number_value v)"
proof (cases v)
  case (NInt n)
  then have n: "1 / 1000 \<le> (of_int n :: rat)" "of_int n \<le> (of_int (10 ^ 15) :: rat)" using assms by simp_all
  have "(0 :: rat) < of_int n" using n(1) by (rule less_le_trans [rotated]) simp
  then have "0 < n" "n \<le> 10 ^ 15" using n(2) by (simp_all only: of_int_le_iff of_int_0_less_iff)
  then have "to_fixed_point (PInt n) = Inr (n * 10 ^ 6 mod field_order)" by (intro fixed_point_int) simp
  then show thesis using that [of "n * 10 ^ 6"] NInt \<open>0 < n\<close> by (simp add: near_fixed_def to_fixed_point_def)
next
  case (NFloat x)
  then show thesis using fixed_point_float [of x] assms that by (auto simp: near_fixed_def)
qed

lemma near_bounds:
  assumes "near_fixed r x" "0 \<le> x" "x \<le> 10 ^ 8" shows "0 \<le> r" "r < 10 ^ 15" "r mod field_order = r"
proof -
  have "(of_int r :: rat) < of_int (10 ^ 15)" using assms unfolding near_fixed_def abs_le_iff by simp
  then show r: "0 \<le> r" "r < 10 ^ 15" using assms(1) by (simp_all only: of_int_less_iff near_fixed_def)
  then show "r mod field_order = r" by (simp add: field_order_def)
qed

lemma fl_between: "0 \<le> x \<Longrightarrow> x * (1 - 1 / 2 ^ 53) \<le> fl x \<and> fl x \<le> x * (1 + 1 / 2 ^ 53)"
  using fl_error [of x] by (cases "x \<le> fl x") simp_all

lemma number_float_between:
  "0 \<le> number_value v \<Longrightarrow> number_value v * (1 - 1 / 2 ^ 53) \<le> number_float v \<and> number_float v \<le> number_value v * (1 + 1 / 2 ^ 53)"
  using fl_between [of "number_value v"] by (cases v) (simp_all add: algebra_simps)

subsection \<open>The doses of an input of ordinary size\<close>

lemma age_bounds: "1 / 2 \<le> compute_age_adjustment_factor v" "compute_age_adjustment_factor v \<le> 1"
  using fl_between [of "85 / 100"] by (simp_all add: compute_age_adjustment_factor_def)

lemma renal_bounds:
  shows "1 / 10 * (1 - 1 / 2 ^ 53) \<le> compute_renal_adjustment_factor v" "compute_renal_adjustment_factor v \<le> 1"
  using fl_between [of "1 / 10"] by (simp_all add: compute_renal_adjustment_factor_def le_max_iff_disj min_le_iff_disj)

lemma base_bounds:
  assumes "0 \<le> number_value v"
  shows "number_value v * 15 * (1 - 1 / 2 ^ 50) \<le> compute_weight_based_dose v" "compute_weight_based_dose v \<le> number_value v * 15 * (1 + 1 / 2 ^ 50)"
proof -
  note w = number_float_between [OF assms]
  then have p: "0 \<le> number_float v" using assms by (auto intro: order_trans [rotated])
  have f: "15 * number_float v * (1 - 1 / 2 ^ 53) \<le> compute_weight_based_dose v" "compute_weight_based_dose v \<le> 15 * number_float v * (1 + 1 / 2 ^ 53)"
    using fl_between [of "15 * number_float v"] p by (simp_all add: compute_weight_based_dose_def)
  show "number_value v * 15 * (1 - 1 / 2 ^ 50) \<le> compute_weight_based_dose v" "compute_weight_based_dose v \<le> number_value v * 15 * (1 + 1 / 2 ^ 50)"
    using f w assms by simp_all
qed

lemma adjusted_bounds:
  assumes "0 \<le> b" "1 / 10 * (1 - 1 / 2 ^ 53) \<le> a" "a \<le> 1" "1 / 2 \<le> g" "g \<le> (1 :: rat)"
  shows "b / 21 \<le> fl (fl (b * a) * g)" "fl (fl (b * a) * g) \<le> b * (1 + 1 / 2 ^ 50)"
proof -
  have ba: "b * (1 / 10 * (1 - 1 / 2 ^ 53)) \<le> b * a" "b * a \<le> b * 1"
    using mult_left_mono [OF assms(2,1)] mult_left_mono [OF assms(3,1)] by simp_all
  then have "0 \<le> b * a" using assms(1) by (intro order_trans [OF _ ba(1)]) simp
  define y where "y = fl (b * a)"
  have y: "b * a * (1 - 1 / 2 ^ 53) \<le> y" "y \<le> b * a * (1 + 1 / 2 ^ 53)" "0 \<le> y" using fl_between fl_nonneg \<open>0 \<le> b * a\<close> by (simp_all add: y_def)
  have yg: "y * (1 / 2) \<le> y * g" "y * g \<le> y * 1"
    using mult_left_mono [OF assms(4) y(3)] mult_left_mono [OF assms(5) y(3)] by simp_all
  then have "0 \<le> y * g" using y(3) by (intro order_trans [OF _ yg(1)]) simp
  from fl_between [OF this] show "b / 21 \<le> fl (fl (b * a) * g)" "fl (fl (b * a) * g) \<le> b * (1 + 1 / 2 ^ 50)"
    using yg y ba assms(1) unfolding y_def [symmetric] by simp_all
qed

subsection \<open>The gates\<close>

lemma eight_list:
  "verify_eight_gates \<lparr>as_a_col = [a0, a1, a2, a3, a4, a5, a6, a7], as_b_col = [b0, b1, b2, b3, b4, b5, b6, b7],
      as_c_col = [c0, c1, c2, c3, c4, c5, c6, c7], as_wire_map = m, as_public_inputs_hash = h\<rparr> =
    [(a0 * b0 - c0) mod field_order = 0, (a1 * b1 - c1) mod field_order = 0, (a2 * b2 - c2) mod field_order = 0,
     (a3 * b3 - c3) mod field_order = 0, (a4 * b4 - c4) mod field_order = 0, (a5 + b5 - c5) mod field_order = 0,
     (a6 + b6 - c6) mod field_order = 0, (a7 + b7 - c7) mod field_order = 0]"
proof -
  have "[0..<5] = [0, 1, 2, 3, 4 :: nat]" "[5..<8] = [5, 6, 7 :: nat]" by (simp_all add: upt_rec)
  then show ?thesis by (simp add: verify_eight_gates_def check_gates_def numeral_eq_Suc)
qed

lemma drug_gates:
  "verify_eight_gates (drug_wires W C A B G D F P N h) =
    [True, (C * N - A) mod field_order = 0, (W * P - B) mod field_order = 0, True, (B * A - D) mod field_order = 0, True, True, F mod field_order = 0]"
  unfolding drug_wires_def Let_def eight_list mult_1_right self_gate by simp

text \<open>A positive number below the order of the field is not zero in it.\<close>

lemma positive_small: "0 < n \<Longrightarrow> n < field_order \<Longrightarrow> n mod field_order \<noteq> 0"
  by simp

lemma gates_fail:
  assumes w: "near_fixed W w" "1 / 100 \<le> w" "w \<le> 10 ^ 6" and c: "near_fixed C c" "1 / 100 \<le> c" "c \<le> 10 ^ 6"
    and a: "near_fixed A a" "1 / 10 * (1 - 1 / 2 ^ 53) \<le> a" "a \<le> 1"
    and b: "near_fixed B b" "w * 15 * (1 - 1 / 2 ^ 50) \<le> b" "b \<le> w * 15 * (1 + 1 / 2 ^ 50)"
    and d: "near_fixed D d" "b / 21 \<le> d" "d \<le> b * (1 + 1 / 2 ^ 50)"
  shows "(C * 90000000 - A) mod field_order \<noteq> 0" "(W * 15000000 - B) mod field_order \<noteq> 0" "(B * A - D) mod field_order \<noteq> 0"
proof -
  have "(of_int 9000 :: rat) \<le> of_int C" "(of_int C :: rat) \<le> of_int (10 ^ 13)" using c unfolding near_fixed_def abs_le_iff by simp_all
  then have C: "9000 \<le> C" "C \<le> 10 ^ 13" by (simp_all only: of_int_le_iff)
  have "(of_int 99999 :: rat) < of_int A" "(of_int A :: rat) < of_int 1000001" using a unfolding near_fixed_def abs_le_iff by simp_all
  then have A: "99999 < A" "A < 1000001" by (simp_all only: of_int_less_iff)
  have "(of_int W :: rat) \<le> of_int (10 ^ 13)" using w unfolding near_fixed_def abs_le_iff by simp
  then have W: "W \<le> 10 ^ 13" by (simp only: of_int_le_iff)
  have "of_int B < (of_int (W * 15000000) :: rat)" "(of_int 10 :: rat) < of_int B" "(of_int B :: rat) \<le> of_int (10 ^ 14)"
    using w b unfolding near_fixed_def abs_le_iff by simp_all
  then have B: "B < W * 15000000" "10 < B" "B \<le> 10 ^ 14" by (simp_all only: of_int_le_iff of_int_less_iff)
  have "of_int D \<le> (of_int (2 * B) :: rat)" using w b d unfolding near_fixed_def abs_le_iff by simp
  then have D: "D \<le> 2 * B" "0 \<le> D" using d(1) by (simp_all only: of_int_le_iff near_fixed_def)
  have "0 \<le> B" using b(1) by (simp add: near_fixed_def)
  show "(C * 90000000 - A) mod field_order \<noteq> 0" using C A by (intro positive_small) (simp_all add: field_order_def)
  show "(W * 15000000 - B) mod field_order \<noteq> 0" using W B by (intro positive_small) (simp_all add: field_order_def)
  have "3 \<le> A" "0 \<le> A" "A \<le> 1000001" using A by simp_all
  then have "B * 3 \<le> B * A" "B * A \<le> 10 ^ 14 * 1000001"
    using mult_left_mono [of 3 A B] mult_mono [of B "10 ^ 14" A 1000001] B by auto
  then have "0 < B * A - D" "B * A - D \<le> 10 ^ 14 * 1000001" using B D by linarith+
  then show "(B * A - D) mod field_order \<noteq> 0" by (intro positive_small) (simp_all add: field_order_def)
qed

section \<open>Properties\<close>

text \<open>C38: for a weight and a creatinine clearance between 1/100 and a million, int or float, and a hexadecimal data set hash a
  drug dosage assignment is always built, and exactly the gates that hold for every input hold: gate 1 (creatinine times 90 instead
  of divided by it), gate 2 and gate 4 (products of two fixed-point numbers, compared without rescaling) fail, and gate 7 holds only
  if the hash starts with sixteen zeros.  So no witness the generator builds satisfies its own circuit.\<close>

theorem drug_witness_never_satisfies:
  assumes "1 / 100 \<le> number_value (dd_patient_weight_kg i)" "number_value (dd_patient_weight_kg i) \<le> 10 ^ 6"
    and "1 / 100 \<le> number_value (dd_creatinine_clearance_ml_min i)" "number_value (dd_creatinine_clearance_ml_min i) \<le> 10 ^ 6"
    and "py_int16 (take 16 (dd_fda_dataset_hash i)) = Some n" "all_lower_hex (take 16 (dd_fda_dataset_hash i))"
    and "\<bar>dd_dose_frequency_hours i\<bar> < 10 ^ 22"
  shows "\<exists>s. build_drug_dosage_assignment i = Inr s
    \<and> verify_eight_gates s = [True, False, False, True, False, True, True, n = 0]"
proof -
  let ?w = "dd_patient_weight_kg i" and ?c = "dd_creatinine_clearance_ml_min i"
  define a where "a = compute_renal_adjustment_factor ?c"
  define b where "b = compute_weight_based_dose ?w"
  define g where "g = compute_age_adjustment_factor (dd_patient_age_years i)"
  define d where "d = fl (fl (b * a) * g)"
  have a: "1 / 10 * (1 - 1 / 2 ^ 53) \<le> a" "a \<le> 1" using renal_bounds by (simp_all add: a_def)
  have g: "1 / 2 \<le> g" "g \<le> 1" using age_bounds by (simp_all add: g_def)
  have b: "number_value ?w * 15 * (1 - 1 / 2 ^ 50) \<le> b" "b \<le> number_value ?w * 15 * (1 + 1 / 2 ^ 50)"
    using base_bounds [of ?w] assms(1) by (simp_all add: b_def)
  have b2: "1 / 10 \<le> b" "b \<le> 5 * 10 ^ 7" using b assms(1,2) by simp_all
  have d: "b / 21 \<le> d" "d \<le> b * (1 + 1 / 2 ^ 50)" using adjusted_bounds [OF _ a g, of b] b2(1) by (simp_all add: d_def)
  have r: "1 / 1000 \<le> number_value ?w" "number_value ?w \<le> 10 ^ 15" "1 / 1000 \<le> number_value ?c" "number_value ?c \<le> 10 ^ 15"
    "1 / 1000 \<le> a" "a \<le> 10 ^ 15" "1 / 1000 \<le> b" "b \<le> 10 ^ 15" "1 / 1000 \<le> g" "g \<le> 10 ^ 15" "1 / 1000 \<le> d" "d \<le> 10 ^ 15"
    using assms(1-4) a g b2 d by simp_all
  obtain W where W: "to_fixed_point (PStr (number_text ?w)) = Inr (W mod field_order)" "near_fixed W (number_value ?w)"
    by (rule fixed_number [OF r(1,2)])
  obtain C where C: "to_fixed_point (PStr (number_text ?c)) = Inr (C mod field_order)" "near_fixed C (number_value ?c)"
    by (rule fixed_number [OF r(3,4)])
  have F: "1 / 1000 \<le> x \<Longrightarrow> x \<le> 10 ^ 15 \<Longrightarrow> \<exists>X. to_fixed_point (PStr (float_repr x)) = Inr (X mod field_order) \<and> near_fixed X x" for x
    using fixed_number [of "NFloat x"] unfolding number_value.simps number_text.simps by blast
  obtain A where A: "to_fixed_point (PStr (float_repr a)) = Inr (A mod field_order)" "near_fixed A a" using F r by blast
  obtain B where B: "to_fixed_point (PStr (float_repr b)) = Inr (B mod field_order)" "near_fixed B b" using F r by blast
  obtain G where G: "to_fixed_point (PStr (float_repr g)) = Inr (G mod field_order)" using F r by blast
  obtain D where D: "to_fixed_point (PStr (float_repr d)) = Inr (D mod field_order)" "near_fixed D d" using F r by blast
  obtain P where P: "to_fixed_point (PStr (float_repr 15)) = Inr (P mod field_order)" "near_fixed P 15" using F [of 15] by auto
  obtain N where N: "to_fixed_point (PStr (float_repr 90)) = Inr (N mod field_order)" "near_fixed N 90" using F [of 90] by auto
  have PN: "P = 15000000" "N = 90000000" using near_fixed_int [OF P(2), of 15000000] near_fixed_int [OF N(2), of 90000000] by simp_all
  note l = limb_facts [OF assms(5,6)]
  have L: "to_fixed_point (PInt n) = Inr (n * 10 ^ 6 mod field_order)" using l by (intro fixed_point_int) simp
  note Q = fixed_point_int [OF assms(7)]
  have small: "W mod field_order = W" "C mod field_order = C" "A mod field_order = A" "B mod field_order = B" "D mod field_order = D"
    "P mod field_order = P" "N mod field_order = N"
    using near_bounds(3) W(2) C(2) A(2) B(2) D(2) P(2) N(2) assms(1-4) a b2 d by simp_all
  obtain h s where s: "build_drug_dosage_assignment i = Inr s"
    "s = drug_wires W C A B (G mod field_order) D (n * 10 ^ 6 mod field_order) P N h"
    using W(1) C(1) A(1) B(1) D(1) P(1) N(1) unfolding small a_def b_def d_def g_def
    by (simp add: build_drug_dosage_assignment_def Let_def l(1) L Q G [unfolded g_def] inputs_hash_ok)
  have zero: "n * 10 ^ 6 mod field_order mod field_order = 0 \<longleftrightarrow> n = 0"
    using l small_multiple [of "n * 10 ^ 6"] by (simp add: field_order_def)
  note f = gates_fail [OF W(2) assms(1,2) C(2) assms(3,4) A(2) a B(2) b D(2) d]
  have "verify_eight_gates s = [True, False, False, True, False, True, True, n = 0]"
    unfolding s(2) drug_gates PN zero using f by simp
  then show ?thesis using s(1) by blast
qed

definition sample_patient :: drug_input where
  "sample_patient = \<lparr>dd_patient_weight_kg = NFloat 70, dd_creatinine_clearance_ml_min = NFloat 30, dd_patient_age_years = NInt 70,
     dd_fda_dataset_hash = ''0123456789abcdef0123456789abcdef0123456789abcdef0123456789abcdef'',
     dd_drug_id = ''amoxicillin_250mg'', dd_dose_frequency_hours = 12\<rparr>"

theorem drug_witness_never_satisfies_witness:
  "\<exists>s. build_drug_dosage_assignment sample_patient = Inr s \<and> False \<in> set (verify_eight_gates s)"
proof -
  have r: "take 16 (dd_fda_dataset_hash sample_patient) = ''0123456789abcdef''" by (simp add: sample_patient_def)
  have h: "py_int16 (take 16 (dd_fda_dataset_hash sample_patient)) = Some (hex_num 0 ''0123456789abcdef'')"
    "all_lower_hex (take 16 (dd_fda_dataset_hash sample_patient))"
    unfolding r by (rule py_int16_lower_hex, code_simp, simp) code_simp
  have "1 / 100 \<le> number_value (dd_patient_weight_kg sample_patient)" "number_value (dd_patient_weight_kg sample_patient) \<le> 10 ^ 6"
    "1 / 100 \<le> number_value (dd_creatinine_clearance_ml_min sample_patient)"
    "number_value (dd_creatinine_clearance_ml_min sample_patient) \<le> 10 ^ 6" "\<bar>dd_dose_frequency_hours sample_patient\<bar> < 10 ^ 22"
    by (simp_all add: sample_patient_def)
  from drug_witness_never_satisfies [OF this(1-4) h this(5)] show ?thesis by force
qed

end
