(* ===== verification/Unicode_Text.thy ===== *)
theory Unicode_Text
  imports Canonical
begin

text \<open>
  Texts outside the code points below 256 that \<open>string\<close> holds: a \<open>str\<close> as its code points, \<open>_to_bytes\<close> of \<open>utils/hashing.py\<close>
  (UTF-8, which refuses surrogates) and the literals \<open>json.dumps\<close> writes with \<open>ensure_ascii=True\<close> (UTF-16 units, a code point
  above U+FFFF as two of them).  The two encodings are read back from the left, and on texts below 256 they are
  \<open>utf8\<close> and \<open>json_string\<close>.
\<close>

type_synonym ustring = "nat list"

definition text_of_string :: "string \<Rightarrow> ustring" where
  "text_of_string s = map of_char s"

subsection \<open>Bytes\<close>

definition surrogate :: "nat \<Rightarrow> bool" where
  "surrogate c \<longleftrightarrow> 0xD800 \<le> c \<and> c < 0xE000"

definition encodable :: "ustring \<Rightarrow> bool" where
  "encodable t \<longleftrightarrow> list_all (\<lambda>c. \<not> surrogate c) t"

definition utf8_point :: "nat \<Rightarrow> int list" where
  "utf8_point c = map int (if c < 128 then [c]
     else if c < 2048 then [192 + c div 64, 128 + c mod 64]
     else if c < 65536 then [224 + c div 64 div 64, 128 + c div 64 mod 64, 128 + c mod 64]
     else [240 + c div 64 div 64 div 64, 128 + c div 64 div 64 mod 64, 128 + c div 64 mod 64, 128 + c mod 64])"

definition utf8_bytes :: "ustring \<Rightarrow> int list" where
  "utf8_bytes t = concat (map utf8_point t)"

definition encode_utf8 :: "ustring \<Rightarrow> int list result" where
  "encode_utf8 t = (if encodable t then Inr (utf8_bytes t) else Inl (ValueError ''surrogates not allowed''))"

definition sha256_text :: "ustring \<Rightarrow> string result" where
  "sha256_text t = rbind (encode_utf8 t) (\<lambda>bs. Inr (sha256_bytes bs))"

subsection \<open>Literals\<close>

definition utf16_point :: "nat \<Rightarrow> 16 word list" where
  "utf16_point c = (if c < 65536 then [of_nat c]
     else [of_nat (0xD800 + (c - 65536) div 1024), of_nat (0xDC00 + (c - 65536) mod 1024)])"

definition utf16 :: "ustring \<Rightarrow> 16 word list" where
  "utf16 t = concat (map utf16_point t)"

definition unit_escape :: "16 word \<Rightarrow> string" where
  "unit_escape u = (let n = uint u in
     if n < 256 then json_escape (char_of n) else CHR 0x5C # CHR ''u'' # hex_text 4 n)"

definition text_literal :: "ustring \<Rightarrow> string" where
  "text_literal t = CHR 0x22 # concat (map unit_escape (utf16 t)) @ [CHR 0x22]"

subsection \<open>Reading back\<close>

lemma concat_read:
  assumes "\<And>c d r s. f c @ r = f d @ s \<Longrightarrow> c = d \<and> r = s" "\<And>c r s. f c @ r \<noteq> q @ s" 
    and "concat (map f a) @ q @ r = concat (map f b) @ q @ s"
  shows "a = b \<and> r = s"
  using assms(3)
proof (induction a arbitrary: b)
  case Nil
  then show ?case using assms(2) by (cases b) (auto dest: sym)
next
  case (Cons c cs)
  show ?case
  proof (cases b)
    case Nil
    then show ?thesis using Cons.prems assms(2) by auto
  next
    case (Cons d ds)
    with Cons.prems have "f c @ (concat (map f cs) @ q @ r) = f d @ (concat (map f ds) @ q @ s)" by simp
    then have "c = d \<and> concat (map f cs) @ q @ r = concat (map f ds) @ q @ s" by (rule assms(1))
    then show ?thesis using Cons.IH Cons by simp
  qed
qed

lemma div_mod_eq: "c div n = d div n \<Longrightarrow> c mod n = d mod n \<Longrightarrow> c = d" for c d n :: nat
  by (metis div_mult_mod_eq)

lemma utf8_point_read:
  assumes "utf8_point c @ r = utf8_point d @ s"
  shows "c = d \<and> r = s"
proof -
  have b: "c < 2048 \<Longrightarrow> c div 64 < 32" "c < 65536 \<Longrightarrow> c div 64 div 64 < 16" for c :: nat by auto
  consider "c < 128" | "128 \<le> c" "c < 2048" | "2048 \<le> c" "c < 65536" | "65536 \<le> c" by linarith
  then show ?thesis
  proof cases
    case 1
    then show ?thesis using assms by (auto simp: utf8_point_def split: if_splits)
  next
    case 2
    then show ?thesis using assms b(1) [of c] b(1) [of d]
      by (auto simp: utf8_point_def split: if_splits intro: div_mod_eq [of _ 64])
  next
    case 3
    then show ?thesis using assms b(2) [of c] b(2) [of d] b(1) [of d]
      by (auto simp: utf8_point_def split: if_splits intro: div_mod_eq [of _ 64])
  next
    case 4
    then show ?thesis using assms b(2) [of d] b(1) [of d]
      by (auto simp: utf8_point_def split: if_splits intro: div_mod_eq [of _ 64])
  qed
qed

lemma utf8_point_nonempty: "utf8_point c \<noteq> []"
  by (simp add: utf8_point_def)

lemma utf8_bytes_inj: "utf8_bytes a = utf8_bytes b \<Longrightarrow> a = b"
proof (induction a arbitrary: b)
  case Nil
  then show ?case using utf8_point_nonempty by (cases b) (auto simp: utf8_bytes_def)
next
  case (Cons c cs)
  then obtain d ds where b: "b = d # ds" using utf8_point_nonempty by (cases b) (auto simp: utf8_bytes_def)
  with Cons.prems have "c = d \<and> utf8_bytes cs = utf8_bytes ds"
    by (intro utf8_point_read) (simp add: utf8_bytes_def)
  then show ?case using Cons.IH b by simp
qed

lemma encode_utf8_inj: "encode_utf8 a = Inr bs \<Longrightarrow> encode_utf8 b = Inr bs \<Longrightarrow> a = b"
  using utf8_bytes_inj by (auto simp: encode_utf8_def split: if_splits)

definition read_unit :: "string \<Rightarrow> 16 word \<times> string" where
  "read_unit s = (if take 2 s = [CHR 0x5C, CHR ''u''] then (of_int (hex_num 0 (take 4 (drop 2 s))), drop 6 s)
     else (of_int (of_char (fst (unescape s))), snd (unescape s)))"

lemma escape_form:
  "json_escape c = CHR 0x5C # CHR ''u'' # hex_text 4 (of_char c) \<or> (\<forall>r. take 2 (json_escape c @ r) \<noteq> [CHR 0x5C, CHR ''u''])"
  by (auto simp: json_escape_def Let_def numeral_2_eq_2)

lemma uint_16: "uint (u :: 16 word) < 65536"
  using uint_lt2p [of u] by simp

lemma read_unit_escape: "read_unit (unit_escape u @ r) = (u, r)"
proof -
  define n where "n = uint u"
  have u: "u = of_int n" "0 \<le> n" "n < 65536" using uint_16 [of u] by (simp_all add: n_def)
  have x: "read_unit (CHR 0x5C # CHR ''u'' # hex_text 4 n @ r) = (u, r)"
    using u hex_num_hex_text [of n 4] by (simp add: read_unit_def del: hex_text.simps)
  show ?thesis
  proof (cases "n < 256")
    case True
    then have n: "of_char (char_of n :: char) = n" "unit_escape u = json_escape (char_of n)"
      using u(2) by (simp_all add: unit_escape_def n_def)
    from escape_form [of "char_of n"] show ?thesis
    proof
      assume "json_escape (char_of n) = CHR 0x5C # CHR ''u'' # hex_text 4 (of_char (char_of n :: char))"
      then show ?thesis using x n by simp
    next
      assume "\<forall>r. take 2 (json_escape (char_of n) @ r) \<noteq> [CHR 0x5C, CHR ''u'']"
      then show ?thesis using u(1) n by (simp add: read_unit_def unescape_escape)
    qed
  next
    case False
    then show ?thesis using x by (simp add: unit_escape_def n_def)
  qed
qed

lemma unit_escape_read: "unit_escape u @ r = unit_escape v @ s \<Longrightarrow> u = v \<and> r = s"
  by (metis prod.inject read_unit_escape)

lemma unit_escape_first: "unit_escape u @ r \<noteq> [CHR 0x22] @ s"
  using escape_first(1) by (cases "uint u < 256") (auto simp: unit_escape_def Let_def dest: arg_cong [where f = hd])

lemma text_literal_read: "text_literal a @ r = text_literal b @ s \<Longrightarrow> utf16 a = utf16 b \<and> r = s"
  using concat_read [of unit_escape "[CHR 0x22]" "utf16 a" r "utf16 b" s] unit_escape_read unit_escape_first
  by (simp add: text_literal_def)

lemma text_literal_eq_iff: "text_literal a = text_literal b \<longleftrightarrow> utf16 a = utf16 b"
  using text_literal_read [of a "[]" b "[]"] by (auto simp: text_literal_def)

lemma is_ascii_text_literal: "is_ascii (text_literal t)"
  by (auto simp: text_literal_def is_ascii_concat unit_escape_def Let_def is_ascii_json_escape is_ascii_hex_text)

subsection \<open>Texts below 256\<close>

lemma point_below_256:
  fixes c :: char
  defines "n \<equiv> of_char c :: nat"
  shows "unit_escape (of_nat n) = json_escape c" "utf16_point n = [of_nat n]" "utf8_point n = utf8_char c" "\<not> surrogate n"
proof -
  have i: "(of_char c :: int) = int n" unfolding n_def by (rule of_nat_of_char [symmetric])
  have b: "n < 256" using of_char_bounds(2) [of c] unfolding i by simp
  have "uint (of_nat n :: 16 word) = int n" using b by (simp add: unsigned_of_nat take_bit_nat_eq_self)
  moreover have "char_of n = c" by (simp add: n_def)
  ultimately show "unit_escape (of_nat n) = json_escape c" using b by (simp add: unit_escape_def n_def char_of_nat [symmetric] flip: i)
  show "utf16_point n = [of_nat n]" "\<not> surrogate n" using b by (simp_all add: utf16_point_def surrogate_def)
  show "utf8_point n = utf8_char c" unfolding utf8_char_def i Let_def using b by (simp add: utf8_point_def zdiv_int zmod_int)
qed

lemma text_literal_string: "text_literal (text_of_string s) = json_string s"
proof -
  have "concat (map unit_escape (utf16 (text_of_string s))) = concat (map json_escape s)"
    by (induction s) (simp_all add: utf16_def text_of_string_def point_below_256)
  then show ?thesis by (simp add: text_literal_def json_string_def)
qed

lemma encode_utf8_string: "encode_utf8 (text_of_string s) = Inr (utf8 s)"
proof -
  have "utf8_bytes (text_of_string s) = utf8 s"
    by (induction s) (simp_all add: utf8_bytes_def utf8_def text_of_string_def point_below_256)
  moreover have "encodable (text_of_string s)"
    by (simp add: encodable_def text_of_string_def list_all_iff point_below_256)
  ultimately show ?thesis by (simp add: encode_utf8_def)
qed

lemma sha256_text_string: "sha256_text (text_of_string s) = Inr (sha256_hex s)"
  by (simp add: sha256_text_def encode_utf8_string sha256_hex_def)

end
