(* ===== verification/Tee_Attestation.thy ===== *)
theory Tee_Attestation
  imports Standalone_Verifier Stub_Proofs Unicode_Text
begin

text \<open>
  Attestation of inferences (\<open>zk/tee/attestation.py\<close>) and the bundles built around it
  (\<open>zk/tee/vrl_tee_bundle_builder.py\<close>), over texts of any code points.  \<open>unicodedata.normalize('NFC', _)\<close>, which
  \<open>canonicalize\<close> applies to every string value, is the argument \<open>nfc\<close>; the identifier \<open>uuid4\<close> draws and the time
  the clock gives are arguments too.
\<close>

datatype tee_mode = INTEL_TDX | AMD_SEV_SNP | SIMULATION

fun tee_mode_value :: "tee_mode \<Rightarrow> string" where
  "tee_mode_value INTEL_TDX = ''intel_tdx''"
| "tee_mode_value AMD_SEV_SNP = ''amd_sev_snp''"
| "tee_mode_value SIMULATION = ''simulation''"

record tee_attestation =
  ta_tee_mode :: tee_mode
  ta_model_hash :: string
  ta_input_hash :: string
  ta_output_hash :: string
  ta_runtime_hash :: string
  ta_attestation_report_bytes :: string
  ta_attestation_report_hash :: string
  ta_is_simulation :: bool
  ta_simulation_warning :: "string option"

definition runtime_descriptor :: "ustring \<Rightarrow> ustring" where
  "runtime_descriptor model_id = text_of_string ''model_id='' @ model_id @ text_of_string '',python_runtime=3.11,platform=x86_64''"

definition attestation_payload :: "string \<Rightarrow> string \<Rightarrow> string \<Rightarrow> string \<Rightarrow> string" where
  "attestation_payload model_hash ih oh rh = model_hash @ ''|'' @ ih @ ''|'' @ oh @ ''|'' @ rh @ ''|SIMULATION_MODE''"

text \<open>A text with a surrogate has no UTF-8 bytes: its digest raises UnicodeEncodeError, a ValueError.\<close>

definition attest :: "tee_mode \<Rightarrow> ustring \<Rightarrow> string \<Rightarrow> ustring \<Rightarrow> ustring \<Rightarrow> tee_attestation result" where
  "attest mode model_id model_hash input_text output_text =
     (if mode = INTEL_TDX then Inl NotImplementedError
      else if mode = AMD_SEV_SNP then Inl NotImplementedError
      else rbind (sha256_text input_text) (\<lambda>ih. rbind (sha256_text output_text) (\<lambda>oh.
        rbind (sha256_text (runtime_descriptor model_id)) (\<lambda>rh.
        let report = sha256_hex (attestation_payload model_hash ih oh rh) in
        Inr \<lparr>ta_tee_mode = mode, ta_model_hash = model_hash, ta_input_hash = ih, ta_output_hash = oh, ta_runtime_hash = rh,
          ta_attestation_report_bytes = report, ta_attestation_report_hash = sha256_hex report, ta_is_simulation = True,
          ta_simulation_warning = Some ''SIMULATION MODE: not hardware-attested''\<rparr>))))"

subsection \<open>Dictionaries over texts\<close>

text \<open>The bundle as a value: \<open>TText\<close> is a string of any code points, \<open>text\<close> one that the code writes itself.\<close>

datatype tvalue = TText ustring | TBool bool | TList "tvalue list" | TDict "(string \<times> tvalue) list"

type_synonym titems = "(string \<times> tvalue) list"

definition TStr :: "string \<Rightarrow> tvalue" where
  "TStr s = TText (text_of_string s)"

definition warning_items :: "tee_attestation \<Rightarrow> titems" where
  "warning_items a = (case ta_simulation_warning a of
     Some t \<Rightarrow> if t = [] then [] else [(''simulation_warning'', TStr t)] | None \<Rightarrow> [])"

definition attested_items :: "tvalue \<Rightarrow> tee_attestation \<Rightarrow> titems" where
  "attested_items proof_system a = [(''proof_system'', proof_system), (''tee_mode'', TStr (tee_mode_value (ta_tee_mode a))),
     (''model_hash'', TStr (ta_model_hash a)), (''input_hash'', TStr (ta_input_hash a)), (''output_hash'', TStr (ta_output_hash a)),
     (''runtime_hash'', TStr (ta_runtime_hash a)), (''attestation_report_bytes'', TStr (ta_attestation_report_bytes a)),
     (''attestation_report_hash'', TStr (ta_attestation_report_hash a)), (''is_simulation'', TBool (ta_is_simulation a))]"

definition tee_proof_system :: "tee_mode \<Rightarrow> string" where
  "tee_proof_system mode = (if mode = INTEL_TDX then ''tee-intel-tdx''
     else if mode = AMD_SEV_SNP then ''tee-amd-sev-snp'' else ''sha256-deterministic'')"

definition to_vrl_proof :: "tee_attestation \<Rightarrow> titems" where
  "to_vrl_proof a = attested_items (TStr (tee_proof_system (ta_tee_mode a))) a @ warning_items a"

text \<open>\<open>canonical_json\<close> of a dictionary of strings: keys sorted, values normalised, everything written in ASCII.\<close>

definition text_object :: "(ustring \<Rightarrow> ustring) \<Rightarrow> (string \<times> ustring) list \<Rightarrow> string" where
  "text_object nfc kvs = ''{'' @ join '','' (map (\<lambda>kv. json_string (fst kv) @ '':'' @ text_literal (nfc (snd kv))) (sort_key fst kvs)) @ ''}''"

definition hash_payload :: "(ustring \<Rightarrow> ustring) \<Rightarrow> (string \<times> ustring) list \<Rightarrow> string" where
  "hash_payload nfc kvs = sha256_hex (text_object nfc kvs)"

subsection \<open>The bundle\<close>

text \<open>What the caller names.\<close>

record tee_query =
  tq_model_id :: ustring
  tq_model_version :: ustring
  tq_provider_id :: ustring
  tq_input_text :: ustring
  tq_output_text :: ustring

definition model_metadata :: "tee_query \<Rightarrow> (string \<times> ustring) list" where
  "model_metadata q = [(''model_id'', tq_model_id q), (''model_version'', tq_model_version q), (''provider_id'', tq_provider_id q)]"

definition build_tee_proof_bundle ::
  "(ustring \<Rightarrow> ustring) \<Rightarrow> tee_mode \<Rightarrow> string \<Rightarrow> string \<Rightarrow> ustring \<Rightarrow> ustring list option \<Rightarrow> tee_query \<Rightarrow> tvalue result" where
  "build_tee_proof_bundle nfc mode bundle_id now circuit_id jurisdictions q =
     (let model_hash = hash_payload nfc (model_metadata q) in
     rbind (attest mode (tq_model_id q) model_hash (tq_input_text q) (tq_output_text q)) (\<lambda>a.
     let ai_id = hash_payload nfc (model_metadata q @ [(''runtime_hash'', text_of_string (ta_runtime_hash a))]);
       integrity = hash_payload nfc [(''model_hash'', text_of_string (ta_model_hash a)), (''input_hash'', text_of_string (ta_input_hash a)),
         (''output_hash'', text_of_string (ta_output_hash a)), (''runtime_hash'', text_of_string (ta_runtime_hash a)),
         (''attestation_report_hash'', text_of_string (ta_attestation_report_hash a))];
       proof_system = (case map_of (to_vrl_proof a) ''proof_system'' of Some v \<Rightarrow> v | None \<Rightarrow> TStr ''sha256-deterministic'');
       md = TStr (tee_mode_value (ta_tee_mode a));
       names = map (\<lambda>kv. (fst kv, TText (snd kv))) (model_metadata q);
       public_inputs = [(''ai_id'', TStr ai_id)] @ names @ [(''input_hash'', TStr (ta_input_hash a)),
         (''output_hash'', TStr (ta_output_hash a)), (''tee_mode'', md)];
       metadata = [(''circuit_id'', TText circuit_id), (''proof_system'', proof_system), (''backend'', TStr ''tee-attestation-pipeline'')]
         @ names @ [(''tee_mode'', md)] in
     Inr (TDict ([(''version'', TStr ''1.0.0''), (''bundle_id'', TStr bundle_id),
       (''proof'', TDict (attested_items proof_system a)),
       (''public_inputs'', TDict public_inputs), (''metadata'', TDict metadata), (''integrity_hash'', TStr integrity),
       (''created_at'', TStr now)] @ warning_items a @
       (case jurisdictions of Some js \<Rightarrow> if js = [] then [] else [(''jurisdictions'', TList (map TText js))] | None \<Rightarrow> [])))))"

subsection \<open>What a report fixes\<close>

text \<open>The attestation report hash a bundle carries.\<close>

definition report_hash_of :: "tvalue \<Rightarrow> tvalue option" where
  "report_hash_of b = (case b of TDict d \<Rightarrow> (case map_of d ''proof'' of
     Some (TDict p) \<Rightarrow> map_of p ''attestation_report_hash'' | _ \<Rightarrow> None) | _ \<Rightarrow> None)"

definition model_text :: "(ustring \<Rightarrow> ustring) \<Rightarrow> tee_query \<Rightarrow> string" where
  "model_text nfc q = text_object nfc (model_metadata q)"

text \<open>The digest of a text that has one.\<close>

definition text_digest :: "ustring \<Rightarrow> string" where
  "text_digest t = sha256_bytes (utf8_bytes t)"

definition report_text :: "(ustring \<Rightarrow> ustring) \<Rightarrow> tee_query \<Rightarrow> string" where
  "report_text nfc q = attestation_payload (sha256_hex (model_text nfc q)) (text_digest (tq_input_text q)) (text_digest (tq_output_text q))
     (text_digest (runtime_descriptor (tq_model_id q)))"

text \<open>The bytes whose digests lead to the report hash.\<close>

definition query_bytes :: "(ustring \<Rightarrow> ustring) \<Rightarrow> tee_query \<Rightarrow> int list list" where
  "query_bytes nfc q = [utf8 (model_text nfc q), utf8_bytes (tq_input_text q), utf8_bytes (tq_output_text q),
     utf8_bytes (runtime_descriptor (tq_model_id q)), utf8 (report_text nfc q), utf8 (sha256_hex (report_text nfc q))]"

definition byte_collision :: "int list \<Rightarrow> int list \<Rightarrow> bool" where
  "byte_collision x y \<longleftrightarrow> x \<noteq> y \<and> sha256_bytes x = sha256_bytes y"

text \<open>Queries that the report does not tell apart: version and provider count as \<open>json.dumps\<close> writes them after normalisation.\<close>

definition same_query :: "(ustring \<Rightarrow> ustring) \<Rightarrow> tee_query \<Rightarrow> tee_query \<Rightarrow> bool" where
  "same_query nfc q q' \<longleftrightarrow> tq_model_id q = tq_model_id q' \<and> tq_input_text q = tq_input_text q' \<and> tq_output_text q = tq_output_text q'
     \<and> utf16 (nfc (tq_model_version q)) = utf16 (nfc (tq_model_version q'))
     \<and> utf16 (nfc (tq_provider_id q)) = utf16 (nfc (tq_provider_id q'))"

definition simulated :: "(ustring \<Rightarrow> ustring) \<Rightarrow> tee_query \<Rightarrow> tee_attestation" where
  "simulated nfc q = \<lparr>ta_tee_mode = SIMULATION, ta_model_hash = sha256_hex (model_text nfc q), ta_input_hash = text_digest (tq_input_text q),
     ta_output_hash = text_digest (tq_output_text q), ta_runtime_hash = text_digest (runtime_descriptor (tq_model_id q)),
     ta_attestation_report_bytes = sha256_hex (report_text nfc q), ta_attestation_report_hash = sha256_hex (sha256_hex (report_text nfc q)),
     ta_is_simulation = True, ta_simulation_warning = Some ''SIMULATION MODE: not hardware-attested''\<rparr>"

lemma sha256_text_digest: "sha256_text t = (if encodable t then Inr (text_digest t) else Inl (ValueError ''surrogates not allowed''))"
  by (simp add: sha256_text_def encode_utf8_def text_digest_def)

lemma encodable_append [simp]: "encodable (a @ b) \<longleftrightarrow> encodable a \<and> encodable b" "encodable (text_of_string s)"
  by (auto simp: encodable_def text_of_string_def list_all_iff point_below_256)

lemma encodable_descriptor: "encodable (runtime_descriptor m) \<longleftrightarrow> encodable m"
  by (simp add: runtime_descriptor_def)

definition hashable_query :: "tee_query \<Rightarrow> bool" where
  "hashable_query q \<longleftrightarrow> encodable (tq_model_id q) \<and> encodable (tq_input_text q) \<and> encodable (tq_output_text q)"

lemma attest_simulation:
  "attest SIMULATION (tq_model_id q) (hash_payload nfc (model_metadata q)) (tq_input_text q) (tq_output_text q) =
     (if hashable_query q then Inr (simulated nfc q) else Inl (ValueError ''surrogates not allowed''))"
  by (simp add: attest_def sha256_text_digest encodable_descriptor hashable_query_def simulated_def report_text_def model_text_def
      hash_payload_def Let_def)

lemma simulation_builds:
  assumes "hashable_query q"
  obtains kvs where "build_tee_proof_bundle nfc SIMULATION u t c j q = Inr (TDict kvs)" "''vrl_version'' \<notin> set (map fst kvs)"
    "map_of kvs ''proof'' = Some (TDict (attested_items (TStr ''sha256-deterministic'') (simulated nfc q)))"
proof -
  have p: "map_of (to_vrl_proof (simulated nfc q)) ''proof_system'' = Some (TStr ''sha256-deterministic'')"
    by (simp add: to_vrl_proof_def attested_items_def tee_proof_system_def simulated_def)
  have w: "''vrl_version'' \<notin> set (map fst (warning_items (simulated nfc q)))" by (simp add: warning_items_def simulated_def)
  show thesis
    by (rule that [unfolded build_tee_proof_bundle_def attest_simulation if_P [OF assms] rbind_simps p Let_def option.case, OF refl])
      (use w in \<open>auto split: option.splits if_splits\<close>)
qed

text \<open>When a bundle is built.\<close>

lemma bundle_built_iff:
  "(\<exists>b. build_tee_proof_bundle nfc mode u t c j q = Inr b) \<longleftrightarrow> mode = SIMULATION \<and> hashable_query q"
proof (cases mode)
  case SIMULATION
  show ?thesis
  proof (cases "hashable_query q")
    case True
    then show ?thesis using simulation_builds [of q nfc u t c j] SIMULATION by metis
  next
    case False
    then show ?thesis by (simp add: SIMULATION build_tee_proof_bundle_def attest_simulation Let_def)
  qed
qed (simp_all add: build_tee_proof_bundle_def attest_def Let_def)

lemma built_bundle:
  assumes "build_tee_proof_bundle nfc mode u t c j q = Inr b"
  shows "mode = SIMULATION" "report_hash_of b = Some (TStr (sha256_hex (sha256_hex (report_text nfc q))))"
    "\<exists>kvs. b = TDict kvs \<and> ''vrl_version'' \<notin> set (map fst kvs)"
proof -
  have m: "mode = SIMULATION" "hashable_query q" using assms bundle_built_iff by blast+
  from m(1) show "mode = SIMULATION" .
  obtain kvs where k: "build_tee_proof_bundle nfc SIMULATION u t c j q = Inr (TDict kvs)" "''vrl_version'' \<notin> set (map fst kvs)"
    "map_of kvs ''proof'' = Some (TDict (attested_items (TStr ''sha256-deterministic'') (simulated nfc q)))"
    by (rule simulation_builds [OF m(2)])
  then have b: "b = TDict kvs" using assms unfolding m by simp
  show "report_hash_of b = Some (TStr (sha256_hex (sha256_hex (report_text nfc q))))"
    by (simp add: b k(3) report_hash_of_def attested_items_def simulated_def)
  show "\<exists>kvs. b = TDict kvs \<and> ''vrl_version'' \<notin> set (map fst kvs)" using b k(2) by blast
qed

subsection \<open>The texts determine the query\<close>

lemma model_text_parts:
  "model_text nfc q = ''{'' @ json_string ''model_id'' @ '':'' @ text_literal (nfc (tq_model_id q)) @ '','' @ json_string ''model_version'' @ '':''
     @ text_literal (nfc (tq_model_version q)) @ '','' @ json_string ''provider_id'' @ '':'' @ text_literal (nfc (tq_provider_id q)) @ ''}''"
proof -
  have "sort_key fst (model_metadata q) = model_metadata q" by (rule sort_key_sorted) (simp add: model_metadata_def)
  then show ?thesis by (simp add: model_text_def text_object_def model_metadata_def)
qed

lemma model_text_eq_iff:
  "model_text nfc q = model_text nfc q' \<longleftrightarrow> utf16 (nfc (tq_model_id q)) = utf16 (nfc (tq_model_id q'))
     \<and> utf16 (nfc (tq_model_version q)) = utf16 (nfc (tq_model_version q'))
     \<and> utf16 (nfc (tq_provider_id q)) = utf16 (nfc (tq_provider_id q'))"
proof
  assume "model_text nfc q = model_text nfc q'"
  then show "utf16 (nfc (tq_model_id q)) = utf16 (nfc (tq_model_id q'))
     \<and> utf16 (nfc (tq_model_version q)) = utf16 (nfc (tq_model_version q'))
     \<and> utf16 (nfc (tq_provider_id q)) = utf16 (nfc (tq_provider_id q'))"
    unfolding model_text_parts same_append_eq by (auto simp: text_literal_eq_iff dest!: text_literal_read)
qed (simp add: model_text_parts text_literal_def)

lemma ascii_bytes_inj:
  assumes "is_ascii a" "is_ascii b" "utf8 a = utf8 b"
  shows "a = b"
  using assms by (simp add: utf8_ascii inj_map_eq_map [OF inj_of_char])

lemma length_text_digest: "length (text_digest t) = 64" "is_ascii (text_digest t)"
  unfolding text_digest_def sha256_bytes_def
  by (simp_all add: length_hex_of_words length_sha256_words all_lower_hex_ascii [OF hex_of_words_hex])

lemma report_text_ascii: "is_ascii (report_text nfc q)"
  by (simp add: report_text_def attestation_payload_def length_text_digest)

lemma model_text_ascii: "is_ascii (model_text nfc q)"
  by (simp add: model_text_parts is_ascii_text_literal is_ascii_json_string)

lemma payload_inj:
  assumes "attestation_payload m i out r = attestation_payload m' i' out' r'"
    and "length i = 64" "length out = 64" "length r = 64" "length i' = 64" "length out' = 64" "length r' = 64"
  shows "m = m' \<and> i = i' \<and> out = out' \<and> r = r'"
proof -
  let ?c = "\<lambda>r. ''|'' @ r @ ''|SIMULATION_MODE''"
  let ?b = "\<lambda>out r. ''|'' @ out @ ?c r"
  let ?a = "\<lambda>i out r. ''|'' @ i @ ?b out r"
  have split: "x = x' \<and> y = y'" if "x @ y = x' @ y'" "length x = length x' \<or> length y = length y'" for x y x' y' :: string
    using append_eq_append_conv [OF that(2)] that(1) by blast
  have e: "m @ ?a i out r = m' @ ?a i' out' r'" using assms(1) unfolding attestation_payload_def .
  have "length (?a i out r) = length (?a i' out' r')" using assms(2-7) by (simp only: length_append)
  then have 1: "m = m' \<and> ?a i out r = ?a i' out' r'" by (intro split [OF e] disjI2)
  then have "i @ ?b out r = i' @ ?b out' r'" unfolding append_Cons append_Nil list.inject by (elim conjE)
  from split [OF this] assms(2,5) have 2: "i = i' \<and> ?b out r = ?b out' r'" by (simp only: simp_thms)
  then have "out @ ?c r = out' @ ?c r'" unfolding append_Cons append_Nil list.inject by (elim conjE)
  from split [OF this] assms(3,6) have 3: "out = out' \<and> ?c r = ?c r'" by (simp only: simp_thms)
  then have "r = r'" unfolding append_Cons append_Nil list.inject append_same_eq by (elim conjE)
  with 1 2 3 show ?thesis by (elim conjE) (intro conjI)
qed

lemma hashed:
  "utf8 (model_text nfc q) \<in> set (query_bytes nfc q)" "utf8_bytes (tq_input_text q) \<in> set (query_bytes nfc q)"
  "utf8_bytes (tq_output_text q) \<in> set (query_bytes nfc q)" "utf8_bytes (runtime_descriptor (tq_model_id q)) \<in> set (query_bytes nfc q)"
  "utf8 (report_text nfc q) \<in> set (query_bytes nfc q)" "utf8 (sha256_hex (report_text nfc q)) \<in> set (query_bytes nfc q)"
  by (simp_all only: query_bytes_def list.set insert_iff simp_thms)

text \<open>Equal report hashes mean equal queries, unless the bytes collide.\<close>

lemma report_hash_fixes_query:
  assumes n: "\<not> (\<exists>x \<in> set (query_bytes nfc q). \<exists>y \<in> set (query_bytes nfc q'). byte_collision x y)"
    and r: "sha256_hex (sha256_hex (report_text nfc q)) = sha256_hex (sha256_hex (report_text nfc q'))"
  shows "same_query nfc q q'"
proof -
  have same: "x = y" if "x \<in> set (query_bytes nfc q)" "y \<in> set (query_bytes nfc q')" "sha256_bytes x = sha256_bytes y" for x y
    using that n by (auto simp: byte_collision_def)
  have "utf8 (sha256_hex (report_text nfc q)) = utf8 (sha256_hex (report_text nfc q'))"
    by (rule same [OF hashed(6) hashed(6) r [unfolded sha256_hex_def [of "sha256_hex _"]]])
  then have "sha256_hex (report_text nfc q) = sha256_hex (report_text nfc q')"
    by (rule ascii_bytes_inj [OF sha.digest_ascii sha.digest_ascii])
  then have "utf8 (report_text nfc q) = utf8 (report_text nfc q')"
    unfolding sha256_hex_def by (rule same [OF hashed(5) hashed(5)])
  then have "report_text nfc q = report_text nfc q'" by (rule ascii_bytes_inj [OF report_text_ascii report_text_ascii])
  then have d: "sha256_hex (model_text nfc q) = sha256_hex (model_text nfc q')" "text_digest (tq_input_text q) = text_digest (tq_input_text q')"
    "text_digest (tq_output_text q) = text_digest (tq_output_text q')"
    "text_digest (runtime_descriptor (tq_model_id q)) = text_digest (runtime_descriptor (tq_model_id q'))"
    using payload_inj [OF _ length_text_digest(1) length_text_digest(1) length_text_digest(1)
        length_text_digest(1) length_text_digest(1) length_text_digest(1)]
    unfolding report_text_def by blast+
  have "model_text nfc q = model_text nfc q'"
    by (rule ascii_bytes_inj [OF model_text_ascii model_text_ascii same [OF hashed(1) hashed(1) d(1) [unfolded sha256_hex_def]]])
  moreover have "tq_input_text q = tq_input_text q'" "tq_output_text q = tq_output_text q'"
    "runtime_descriptor (tq_model_id q) = runtime_descriptor (tq_model_id q')"
    by (rule utf8_bytes_inj [OF same [OF hashed(2) hashed(2) d(2) [unfolded text_digest_def]]],
        rule utf8_bytes_inj [OF same [OF hashed(3) hashed(3) d(3) [unfolded text_digest_def]]],
        rule utf8_bytes_inj [OF same [OF hashed(4) hashed(4) d(4) [unfolded text_digest_def]]])
  ultimately show ?thesis by (simp add: same_query_def model_text_eq_iff runtime_descriptor_def)
qed

lemma same_query_same_report: "same_query nfc q q' \<Longrightarrow> report_text nfc q = report_text nfc q'"
proof -
  assume s: "same_query nfc q q'"
  then have "model_text nfc q = model_text nfc q'" unfolding model_text_eq_iff by (simp add: same_query_def)
  then show ?thesis using s by (simp only: report_text_def same_query_def)
qed

section \<open>Properties\<close>

text \<open>C39: a bundle is built in simulation mode only, and then its report hash stands for the query: two bundles have the same
  report hash when they name the same model and the same input and output text, code point for code point, and the same
  version and provider up to NFC normalisation and the pairing of surrogates, and they have it in no other case, unless SHA-256
  collides on the bytes that are hashed for them.  So two spellings of a version or a provider that normalise alike have one
  report, while two such spellings of a model have two, because the model's name also enters through the runtime descriptor,
  which is not normalised.  Nothing else enters the report: not the circuit, the jurisdictions, the identifier or the time.
  The normalisation is any function on texts.\<close>

theorem attestation_binds_query:
  assumes "build_tee_proof_bundle nfc mode u t c j q = Inr b" "build_tee_proof_bundle nfc mode' u' t' c' j' q' = Inr b'"
  shows "mode = SIMULATION \<and> report_hash_of b \<noteq> None \<and> (same_query nfc q q' \<longrightarrow> report_hash_of b = report_hash_of b')
    \<and> (report_hash_of b = report_hash_of b' \<longrightarrow> same_query nfc q q'
        \<or> (\<exists>x \<in> set (query_bytes nfc q). \<exists>y \<in> set (query_bytes nfc q'). byte_collision x y))"
proof -
  note b = built_bundle(1,2) [OF assms(1)] and b' = built_bundle(1,2) [OF assms(2)]
  have "same_query nfc q q' \<longrightarrow> report_hash_of b = report_hash_of b'"
    unfolding b(2) b'(2) using same_query_same_report by metis
  moreover have "sha256_hex (sha256_hex (report_text nfc q)) = sha256_hex (sha256_hex (report_text nfc q'))"
    if "report_hash_of b = report_hash_of b'"
    using that unfolding b(2) b'(2) by (simp add: TStr_def text_of_string_def inj_map_eq_map [OF inj_of_char])
  ultimately show ?thesis using b report_hash_fixes_query by blast
qed

text \<open>A normalisation that composes \<open>e\<close> and the combining acute accent, and queries whose providers it joins.\<close>

fun compose_acute :: "ustring \<Rightarrow> ustring" where
  "compose_acute (c # d # r) = (if c = 101 \<and> d = 769 then 233 # compose_acute r else c # compose_acute (d # r))"
| "compose_acute t = t"

definition sample_query :: "ustring \<Rightarrow> tee_query" where
  "sample_query provider = \<lparr>tq_model_id = text_of_string ''llama'', tq_model_version = text_of_string ''3'', tq_provider_id = provider,
     tq_input_text = [128512], tq_output_text = text_of_string ''b''\<rparr>"

theorem attestation_binds_query_witness:
  "\<exists>b b' b''. build_tee_proof_bundle compose_acute SIMULATION ''1'' ''today'' [99] None (sample_query [99, 97, 102, 233]) = Inr b
    \<and> build_tee_proof_bundle compose_acute SIMULATION ''2'' ''tomorrow'' [100] (Some [[69, 85]]) (sample_query [99, 97, 102, 101, 769]) = Inr b'
    \<and> build_tee_proof_bundle compose_acute SIMULATION ''3'' ''today'' [99] None (sample_query [99, 97, 102, 101]) = Inr b''
    \<and> report_hash_of b = report_hash_of b'
    \<and> (report_hash_of b = report_hash_of b'' \<longrightarrow> (\<exists>x \<in> set (query_bytes compose_acute (sample_query [99, 97, 102, 233])).
         \<exists>y \<in> set (query_bytes compose_acute (sample_query [99, 97, 102, 101])). byte_collision x y))"
proof -
  have h: "hashable_query (sample_query p)" for p by (simp add: hashable_query_def sample_query_def encodable_def surrogate_def text_of_string_def)
  obtain b b' b'' where b: "build_tee_proof_bundle compose_acute SIMULATION ''1'' ''today'' [99] None (sample_query [99, 97, 102, 233]) = Inr b"
    "build_tee_proof_bundle compose_acute SIMULATION ''2'' ''tomorrow'' [100] (Some [[69, 85]]) (sample_query [99, 97, 102, 101, 769]) = Inr b'"
    "build_tee_proof_bundle compose_acute SIMULATION ''3'' ''today'' [99] None (sample_query [99, 97, 102, 101]) = Inr b''"
    using simulation_builds [OF h] by metis
  have "same_query compose_acute (sample_query [99, 97, 102, 233]) (sample_query [99, 97, 102, 101, 769])"
    by (simp add: same_query_def sample_query_def)
  moreover have "\<not> same_query compose_acute (sample_query [99, 97, 102, 233]) (sample_query [99, 97, 102, 101])"
    by (simp add: same_query_def sample_query_def utf16_def utf16_point_def)
  ultimately show ?thesis
    using b attestation_binds_query [OF b(1,2)] attestation_binds_query [OF b(1,3)] by blast
qed

text \<open>A bundle as the verifiers' JSON value; the texts are those the caller gave when all code points are below 256.\<close>

fun tvalue_json :: "tvalue \<Rightarrow> json" where
  "tvalue_json (TText t) = JStr (map char_of t)"
| "tvalue_json (TBool b) = JBool b"
| "tvalue_json (TList vs) = JList (map tvalue_json vs)"
| "tvalue_json (TDict kvs) = JDict (map (\<lambda>kv. (fst kv, tvalue_json (snd kv))) kvs)"

text \<open>The two hardware modes raise NotImplementedError, and what the simulation builds is not a bundle of this repository's own
  format: it has \<open>version\<close> in the place of \<open>vrl_version\<close>, so the standalone verifier answers UNSUPPORTED_VERSION with exit code 1,
  whatever the registry, and the SDK's \<open>from_dict\<close> raises ValueError.\<close>

theorem tee_bundle_refused:
  "build_tee_proof_bundle nfc INTEL_TDX u t c j q = Inl NotImplementedError
    \<and> build_tee_proof_bundle nfc AMD_SEV_SNP u t c j q = Inl NotImplementedError
    \<and> (hashable_query q \<longrightarrow> (\<exists>b r e. build_tee_proof_bundle nfc SIMULATION u t c j q = Inr b
        \<and> std_verify reg (tvalue_json b) = Inr r \<and> sr_status r = UNSUPPORTED_VERSION
        \<and> std_exit_code reg (Some (tvalue_json b)) = 1 \<and> bundle_from_dict (tvalue_json b) = Inl (ValueError e)))"
proof -
  have "\<exists>b r e. build_tee_proof_bundle nfc SIMULATION u t c j q = Inr b
      \<and> std_verify reg (tvalue_json b) = Inr r \<and> sr_status r = UNSUPPORTED_VERSION
      \<and> std_exit_code reg (Some (tvalue_json b)) = 1 \<and> bundle_from_dict (tvalue_json b) = Inl (ValueError e)" if h: "hashable_query q"
  proof -
    obtain b where b: "build_tee_proof_bundle nfc SIMULATION u t c j q = Inr b" using bundle_built_iff h by blast
    then obtain kvs where "b = TDict kvs" "''vrl_version'' \<notin> set (map fst kvs)" using built_bundle(3) by blast
    then obtain kvs where k: "tvalue_json b = JDict kvs" "''vrl_version'' \<notin> set (map fst kvs)" by (auto simp: image_image)
    then have v: "Sdk_Hashing.dict_get kvs ''vrl_version'' = JNull" by (intro dict_get_absent)
    obtain r where r: "std_verify reg (tvalue_json b) = Inr r" "sr_status r = UNSUPPORTED_VERSION" "\<not> sr_is_valid r"
      using k v by (simp add: std_verify_def dict_items_def Let_def std_step1_def std_continue_def std_failure_def)
    then have "std_exit_code reg (Some (tvalue_json b)) = 1" by (simp add: std_exit_code_def)
    moreover have "\<exists>e. bundle_from_dict (tvalue_json b) = Inl (ValueError e)"
      using k by (auto simp: bundle_from_dict_def required_items_def dict_items_def has_keys_def)
    ultimately show ?thesis using b r by blast
  qed
  then show ?thesis by (simp add: build_tee_proof_bundle_def attest_def Let_def)
qed

end
