(* ===== verification/Registry_Lookup.thy ===== *)
theory Registry_Lookup
  imports Standalone_Verifier
begin

text \<open>
  The lookup tool of the circuit registry (\<open>registry/tools/lookup.py\<close>).  What opening and parsing \<open>registry.json\<close> comes to is an
  argument; printed text is a list of lines, and \<open>json.dumps(_, indent=2)\<close> is an argument too.  The values the tool sorts and
  measures are strings, as \<open>registry/schema/circuit.schema.json\<close> demands; a value of another type raises TypeError, a missing key KeyError.
  The lines printed before an exception are not kept.
\<close>

datatype registry_file = Missing_file | Bad_json | Parsed json

datatype lookup_outcome = Exit int | Raises py_error

definition entry :: "items \<Rightarrow> string \<Rightarrow> json result" where
  "entry c k = (case map_of c k of Some v \<Rightarrow> Inr v | None \<Rightarrow> Inl (KeyError k))"

definition text_entry :: "items \<Rightarrow> string \<Rightarrow> string result" where
  "text_entry c k = rbind (entry c k) (\<lambda>v. case v of JStr s \<Rightarrow> Inr s | _ \<Rightarrow> Inl TypeError)"

definition list_value :: "json \<Rightarrow> json list result" where
  "list_value v = (case v of JList vs \<Rightarrow> Inr vs | _ \<Rightarrow> Inl TypeError)"

definition dict_value :: "json \<Rightarrow> items result" where
  "dict_value v = (case v of JDict kvs \<Rightarrow> Inr kvs | _ \<Rightarrow> Inl TypeError)"

subsection \<open>CircuitRegistry\<close>

text \<open>The circuits, or the exit code of a registry that cannot be read.\<close>

definition load_registry :: "registry_file \<Rightarrow> int + items list result" where
  "load_registry f = (case f of Missing_file \<Rightarrow> Inl 1 | Bad_json \<Rightarrow> Inl 1
   | Parsed data \<Rightarrow> Inr (rbind (dict_items data) (\<lambda>d. rbind (case map_of d ''circuits'' of Some v \<Rightarrow> list_value v | None \<Rightarrow> Inr []) (rmap dict_value))))"

fun get_circuit :: "items list \<Rightarrow> string \<Rightarrow> items option result" where
  "get_circuit [] circuit_id = Inr None"
| "get_circuit (c # cs) circuit_id = rbind (entry c ''circuit_id'') (\<lambda>v. if v = JStr circuit_id then Inr (Some c) else get_circuit cs circuit_id)"

fun keep_matching :: "string \<Rightarrow> string \<Rightarrow> items list \<Rightarrow> items list result" where
  "keep_matching k t [] = Inr []"
| "keep_matching k t (c # cs) = rbind (entry c k) (\<lambda>v. rbind (keep_matching k t cs) (\<lambda>r. Inr (if v = JStr t then c # r else r)))"

text \<open>An absent filter and an empty one keep everything.\<close>

definition filter_by :: "string \<Rightarrow> string option \<Rightarrow> items list \<Rightarrow> items list result" where
  "filter_by k t cs = (case t of None \<Rightarrow> Inr cs | Some t \<Rightarrow> if t = [] then Inr cs else keep_matching k t cs)"

definition sort_circuits :: "items list \<Rightarrow> items list result" where
  "sort_circuits cs = rbind (rmap (\<lambda>c. rbind (text_entry c ''circuit_id'') (\<lambda>k. Inr (k, c))) cs) (\<lambda>ks. Inr (map snd (sort_key fst ks)))"

definition list_circuits :: "items list \<Rightarrow> string option \<Rightarrow> string option \<Rightarrow> items list result" where
  "list_circuits cs domain tier =
     rbind (filter_by ''domain'' domain cs) (\<lambda>r. rbind (filter_by ''certification_tier'' tier r) sort_circuits)"

definition get_domains :: "items list \<Rightarrow> string list result" where
  "get_domains cs = rbind (rmap (\<lambda>c. text_entry c ''domain'') cs) (\<lambda>ts. Inr (sort (remdups ts)))"

definition get_tiers :: "items list \<Rightarrow> string list result" where
  "get_tiers cs = rbind (rmap (\<lambda>c. text_entry c ''certification_tier'') cs) (\<lambda>ts. Inr (sort (remdups ts)))"

subsection \<open>Printing\<close>

definition pad :: "string \<Rightarrow> nat \<Rightarrow> string" where
  "pad s n = s @ replicate (n - length s) CHR '' ''"

definition shortened :: "string \<Rightarrow> string" where
  "shortened d = (if length d > 50 then take 50 d @ ''...'' else d)"

definition table_row :: "items \<Rightarrow> (string \<times> string \<times> string) result" where
  "table_row c = rbind (text_entry c ''circuit_id'') (\<lambda>i. rbind (text_entry c ''domain'') (\<lambda>d.
     rbind (text_entry c ''certification_tier'') (\<lambda>t. Inr (i, d, t))))"

definition table_line :: "nat \<Rightarrow> nat \<Rightarrow> nat \<Rightarrow> string \<Rightarrow> string \<Rightarrow> string \<Rightarrow> string \<Rightarrow> string" where
  "table_line ci cd ct i d t s = pad i ci @ '' '' @ pad d cd @ '' '' @ pad t ct @ '' '' @ s"

definition circuit_line :: "nat \<Rightarrow> nat \<Rightarrow> nat \<Rightarrow> items \<Rightarrow> string result" where
  "circuit_line ci cd ct c = rbind (text_entry c ''description'') (\<lambda>s. rbind (table_row c) (\<lambda>(i, d, t).
     Inr (table_line ci cd ct i d t (shortened s))))"

definition column :: "items list \<Rightarrow> string \<Rightarrow> nat \<Rightarrow> nat result" where
  "column cs k least = rbind (rmap (\<lambda>c. text_entry c k) cs) (\<lambda>ts. Inr (foldr (\<lambda>t. max (length t)) ts least))"

definition print_circuits_table :: "items list \<Rightarrow> string list result" where
  "print_circuits_table cs = (if cs = [] then Inr [''No circuits found.''] else
     rbind (column cs ''circuit_id'' 15) (\<lambda>ci. rbind (column cs ''domain'' 8) (\<lambda>cd. rbind (column cs ''certification_tier'' 14) (\<lambda>ct.
     rbind (rmap (circuit_line ci cd ct) cs) (\<lambda>ls.
     Inr ([[], table_line ci cd ct ''Circuit ID'' ''Domain'' ''Tier'' ''Description'', replicate 100 CHR ''-''] @ ls @ [[]]))))))"

text \<open>\<open>print(f"label{circuit[k]}")\<close>.\<close>

definition labelled :: "string \<Rightarrow> items \<Rightarrow> string \<Rightarrow> string result" where
  "labelled l c k = rbind (entry c k) (\<lambda>v. Inr (l @ json_str v))"

text \<open>A line that is printed only when the key is there.\<close>

definition labelled_if :: "string \<Rightarrow> items \<Rightarrow> string \<Rightarrow> string list" where
  "labelled_if l c k = (case map_of c k of Some v \<Rightarrow> [l @ json_str v] | None \<Rightarrow> [])"

definition print_field :: "string \<Rightarrow> json \<Rightarrow> string result" where
  "print_field indent v = (case v of
     JDict d \<Rightarrow> rbind (entry d ''name'') (\<lambda>n. rbind (entry d ''type'') (\<lambda>t. rbind (entry d ''description'') (\<lambda>s.
       Inr (indent @ json_str n @ '' ('' @ json_str t @ ''): '' @ json_str s))))
   | _ \<Rightarrow> Inr (indent @ json_str v))"

definition print_inputs :: "string \<Rightarrow> string \<Rightarrow> items \<Rightarrow> string list result" where
  "print_inputs k l schema = (case map_of schema k of None \<Rightarrow> Inr []
   | Some v \<Rightarrow> rbind (list_value v) (\<lambda>vs. rbind (rmap (print_field ''    - '') vs) (\<lambda>ls. Inr (l # ls))))"

definition joined :: "json \<Rightarrow> string result" where
  "joined v = rbind (list_value v) (\<lambda>vs. rbind (rmap (\<lambda>x. case x of JStr s \<Rightarrow> Inr s | _ \<Rightarrow> Inl TypeError) vs) (\<lambda>ts. Inr (join '', '' ts)))"

definition print_dependency :: "json \<Rightarrow> string list result" where
  "print_dependency v = rbind (dict_value v) (\<lambda>d. rbind (entry d ''dataset_id'') (\<lambda>i. rbind (entry d ''min_version'') (\<lambda>m.
     Inr ((''  - '' @ json_str i @ '' (>= '' @ json_str m @ '')'') # labelled_if ''    '' d ''description''))))"

definition print_joined_if :: "string \<Rightarrow> items \<Rightarrow> string \<Rightarrow> string list result" where
  "print_joined_if l c k = (case map_of c k of Some v \<Rightarrow> rbind (joined v) (\<lambda>t. Inr [l @ t, []]) | None \<Rightarrow> Inr [])"

definition print_circuit_detail :: "items \<Rightarrow> string list result" where
  "print_circuit_detail c = (let rule = replicate 70 CHR ''='' in
     rbind (labelled ''Circuit: '' c ''circuit_id'') (\<lambda>h.
     rbind (rmap (\<lambda>(l, k). labelled l c k) [(''Certification Tier: '', ''certification_tier''), (''Domain:             '', ''domain''),
       (''Circuit Hash:       '', ''circuit_hash'')]) (\<lambda>ids.
     rbind (labelled ''  '' c ''description'') (\<lambda>desc.
     rbind (labelled ''Author:             '' c ''author'') (\<lambda>author.
     rbind (rmap (\<lambda>(l, k). labelled l c k) [(''License:            '', ''license''), (''Published:          '', ''published_at'')]) (\<lambda>lic.
     rbind (rbind (entry c ''input_schema'') dict_value) (\<lambda>ins.
     rbind (print_inputs ''private'' ''  Private:'' ins) (\<lambda>priv. rbind (print_inputs ''public'' ''  Public:'' ins) (\<lambda>publ.
     rbind (rbind (rbind (rbind (rbind (entry c ''output_schema'') dict_value) (\<lambda>d. entry d ''public'')) list_value) (rmap (print_field ''  - ''))) (\<lambda>outs.
     rbind (rbind (entry c ''proof_systems'') joined) (\<lambda>systems.
     rbind (labelled ''Constraints:        '' c ''constraint_count'') (\<lambda>count.
     rbind (let v = Sdk_Hashing.dict_get c ''dataset_dependencies'' in if truthy v
       then rbind (list_value v) (\<lambda>vs. rbind (rmap print_dependency vs) (\<lambda>ls. Inr (''Dataset Dependencies:'' # concat ls @ [[]]))) else Inr []) (\<lambda>deps.
     rbind (if truthy (Sdk_Hashing.dict_get c ''compliance_frameworks'')
       then print_joined_if ''Compliance:         '' c ''compliance_frameworks'' else Inr []) (\<lambda>compliance.
     rbind (print_joined_if ''Tags:               '' c ''tags'') (\<lambda>tags.
     Inr ([[], rule, h, rule, []] @ ids @ [[], ''Description:'', desc, []]
       @ (case map_of c ''long_description'' of Some v \<Rightarrow> [''Details:'', ''  '' @ json_str v, []] | None \<Rightarrow> [])
       @ [author] @ labelled_if ''Email:              '' c ''author_email'' @ lic @ [[], ''Input Schema:''] @ priv @ publ
       @ [[], ''Output Schema:''] @ outs @ [[], ''Proof Systems:      '' @ systems, count, []] @ deps @ compliance @ tags
       @ (case map_of c ''security_notes'' of Some v \<Rightarrow> [''Security Notes:'', ''  '' @ json_str v, []] | None \<Rightarrow> [])
       @ (case map_of c ''performance_notes'' of Some v \<Rightarrow> [''Performance:'', ''  '' @ json_str v, []] | None \<Rightarrow> [])
       @ [rule, []]))))))))))))))))"

subsection \<open>main\<close>

record lookup_args =
  la_circuit_id :: "string option"
  la_list :: bool
  la_domain :: "string option"
  la_tier :: "string option"
  la_json :: bool

definition printed :: "string list result \<Rightarrow> int \<Rightarrow> string list \<times> lookup_outcome" where
  "printed ls code = (case ls of Inr t \<Rightarrow> (t, Exit code) | Inl e \<Rightarrow> ([], Raises e))"

text \<open>The lines on standard output and the outcome; \<open>dump\<close> is \<open>json.dumps(_, indent=2)\<close>, \<open>usage\<close> the usage text.\<close>

definition lookup_main :: "(json \<Rightarrow> string list) \<Rightarrow> string list \<Rightarrow> registry_file \<Rightarrow> lookup_args \<Rightarrow> string list \<times> lookup_outcome" where
  "lookup_main dump usage f args = (case load_registry f of
     Inl code \<Rightarrow> ([], Exit code)
   | Inr (Inl e) \<Rightarrow> ([], Raises e)
   | Inr (Inr cs) \<Rightarrow>
     if la_list args then
       (case list_circuits cs (la_domain args) (la_tier args) of
         Inl e \<Rightarrow> ([], Raises e)
       | Inr r \<Rightarrow> printed (if la_json args then Inr (dump (JList (map JDict r))) else print_circuits_table r) (if r = [] then 1 else 0))
     else case la_circuit_id args of
       Some ident \<Rightarrow> if ident = [] then (usage, Exit 0) else
         (case get_circuit cs ident of
           Inl e \<Rightarrow> ([], Raises e)
         | Inr None \<Rightarrow> (case rbind (list_circuits cs None None) print_circuits_table of
             Inl e \<Rightarrow> ([], Raises e) | Inr ls \<Rightarrow> (ls, Exit 1))
         | Inr (Some c) \<Rightarrow> printed (if la_json args then Inr (dump (JDict c)) else print_circuit_detail c) 0)
     | None \<Rightarrow> (usage, Exit 0))"

subsection \<open>What the queries answer\<close>

definition text_of :: "string \<Rightarrow> items \<Rightarrow> string" where
  "text_of k c = (case map_of c k of Some (JStr s) \<Rightarrow> s | _ \<Rightarrow> [])"

text \<open>A circuit with the four texts the schema requires.\<close>

definition circuit_ok :: "items \<Rightarrow> bool" where
  "circuit_ok c \<longleftrightarrow> list_all (\<lambda>k. map_of c k = Some (JStr (text_of k c))) [''circuit_id'', ''domain'', ''certification_tier'', ''description'']"

definition wanted :: "string \<Rightarrow> string option \<Rightarrow> items \<Rightarrow> bool" where
  "wanted k t c \<longleftrightarrow> t = None \<or> t = Some [] \<or> t = Some (text_of k c)"

definition listing :: "items list \<Rightarrow> string option \<Rightarrow> string option \<Rightarrow> items list" where
  "listing cs d t = sort_key (text_of ''circuit_id'') (filter (\<lambda>c. wanted ''domain'' d c \<and> wanted ''certification_tier'' t c) cs)"

lemma entries:
  assumes "circuit_ok c"
  shows "entry c ''circuit_id'' = Inr (JStr (text_of ''circuit_id'' c))" "entry c ''domain'' = Inr (JStr (text_of ''domain'' c))"
    "entry c ''certification_tier'' = Inr (JStr (text_of ''certification_tier'' c))"
    "text_entry c ''circuit_id'' = Inr (text_of ''circuit_id'' c)" "text_entry c ''domain'' = Inr (text_of ''domain'' c)"
    "text_entry c ''certification_tier'' = Inr (text_of ''certification_tier'' c)" "text_entry c ''description'' = Inr (text_of ''description'' c)"
  using assms by (simp_all add: circuit_ok_def entry_def text_entry_def)

lemma get_circuit_find:
  "list_all circuit_ok cs \<Longrightarrow> get_circuit cs i = Inr (find (\<lambda>c. text_of ''circuit_id'' c = i) cs)"
  by (induction cs) (auto simp: entries)

lemma keep_matching_filter:
  assumes "\<And>c. c \<in> set cs \<Longrightarrow> entry c k = Inr (JStr (text_of k c))"
  shows "keep_matching k t cs = Inr (filter (\<lambda>c. text_of k c = t) cs)"
  using assms by (induction cs) auto

lemma filter_by_filter:
  assumes "\<And>c. c \<in> set cs \<Longrightarrow> entry c k = Inr (JStr (text_of k c))"
  shows "filter_by k t cs = Inr (filter (wanted k t) cs)"
proof (cases "t = None \<or> t = Some []")
  case True
  then show ?thesis by (auto simp: filter_by_def wanted_def)
next
  case False
  then obtain u where u: "t = Some u" "u \<noteq> []" by auto
  then have "(\<lambda>c. text_of k c = u) = wanted k t" by (auto simp: wanted_def)
  then show ?thesis using keep_matching_filter [OF assms, where t = u] u by (simp add: filter_by_def)
qed

lemma sort_circuits_sort:
  "list_all circuit_ok cs \<Longrightarrow> sort_circuits cs = Inr (sort_key (text_of ''circuit_id'') cs)"
proof -
  assume ok: "list_all circuit_ok cs"
  then have "rmap (\<lambda>c. rbind (text_entry c ''circuit_id'') (\<lambda>k. Inr (k, c))) cs = Inr (map (\<lambda>c. (text_of ''circuit_id'' c, c)) cs)"
    by (intro rmap_Inr_map) (simp add: list_all_iff entries)
  moreover have "map snd (sort_key fst (map (\<lambda>c. (text_of ''circuit_id'' c, c)) ds)) = sort_key (text_of ''circuit_id'') ds" for ds
  proof -
    have ins: "insort_key fst (f c, c) (map (\<lambda>c. (f c, c)) es) = map (\<lambda>c. (f c, c)) (insort_key f c es)" for c es and f :: "items \<Rightarrow> string"
      by (induction es) auto
    have "sort_key fst (map (\<lambda>c. (f c, c)) ds) = map (\<lambda>c. (f c, c)) (sort_key f ds)" for f :: "items \<Rightarrow> string"
      by (induction ds) (simp_all add: ins)
    then show ?thesis by (simp add: comp_def)
  qed
  ultimately show ?thesis by (simp add: sort_circuits_def)
qed

lemma list_circuits_spec:
  assumes "list_all circuit_ok cs"
  shows "list_circuits cs d t = Inr (listing cs d t)"
proof -
  have "filter_by ''domain'' d cs = Inr (filter (wanted ''domain'' d) cs)"
    using assms by (intro filter_by_filter) (simp add: list_all_iff entries)
  moreover have "filter_by ''certification_tier'' t (filter (wanted ''domain'' d) cs)
      = Inr (filter (wanted ''certification_tier'' t) (filter (wanted ''domain'' d) cs))"
    using assms by (intro filter_by_filter) (simp add: list_all_iff entries)
  moreover have "list_all circuit_ok (filter p cs)" for p using assms by (auto simp: list_all_iff)
  ultimately show ?thesis by (simp add: list_circuits_def sort_circuits_sort listing_def conj_commute)
qed

lemma table_prints: "list_all circuit_ok cs \<Longrightarrow> \<exists>ls. print_circuits_table cs = Inr ls"
proof -
  assume ok: "list_all circuit_ok cs"
  have c: "column cs k least = Inr (foldr (\<lambda>t. max (length t)) (map (text_of k) cs) least)"
    if "k \<in> {''circuit_id'', ''domain'', ''certification_tier''}" for k least
    using ok that rmap_Inr_map [of cs "\<lambda>c. text_entry c k" "text_of k"] by (auto simp: column_def list_all_iff entries)
  have "rmap (circuit_line ci cd ct) cs = Inr (map (\<lambda>c. table_line ci cd ct (text_of ''circuit_id'' c) (text_of ''domain'' c)
      (text_of ''certification_tier'' c) (shortened (text_of ''description'' c))) cs)" for ci cd ct
    using ok by (intro rmap_Inr_map) (simp add: list_all_iff entries table_row_def circuit_line_def)
  then show ?thesis by (simp add: print_circuits_table_def c)
qed

section \<open>Properties\<close>

text \<open>C40: over a registry whose circuits have the required texts, a listing shows exactly the circuits of the wanted domain and tier in the order of
  their ids, a lookup answers the first circuit with the id, and the program exits with 0 exactly if the listing is not empty or the
  circuit is there (in JSON): an unknown id prints the table of all circuits and exits with 1, and so does a registry that cannot be read.\<close>

theorem lookup_answers:
  assumes "load_registry f = Inr (Inr cs)" "list_all circuit_ok cs"
  shows "lookup_main dump usage f \<lparr>la_circuit_id = i, la_list = True, la_domain = d, la_tier = t, la_json = True\<rparr>
      = (dump (JList (map JDict (listing cs d t))), Exit (if listing cs d t = [] then 1 else 0))
    \<and> snd (lookup_main dump usage f \<lparr>la_circuit_id = i, la_list = True, la_domain = d, la_tier = t, la_json = False\<rparr>)
      = Exit (if listing cs d t = [] then 1 else 0)
    \<and> (case find (\<lambda>c. text_of ''circuit_id'' c = x # y) cs of
        Some c \<Rightarrow> lookup_main dump usage f \<lparr>la_circuit_id = Some (x # y), la_list = False, la_domain = d, la_tier = t, la_json = True\<rparr>
          = (dump (JDict c), Exit 0)
      | None \<Rightarrow> snd (lookup_main dump usage f \<lparr>la_circuit_id = Some (x # y), la_list = False, la_domain = d, la_tier = t, la_json = j\<rparr>) = Exit 1)
    \<and> set (listing cs d t) = {c \<in> set cs. wanted ''domain'' d c \<and> wanted ''certification_tier'' t c}
    \<and> sorted (map (text_of ''circuit_id'') (listing cs d t)) \<and> snd (lookup_main dump usage Missing_file args) = Exit 1"
proof -
  note l = list_circuits_spec [OF assms(2)]
  have ok: "list_all circuit_ok (listing cs d t)" "list_all circuit_ok (listing cs None None)"
    using assms(2) by (auto simp: listing_def list_all_iff)
  then obtain u v where p: "print_circuits_table (listing cs d t) = Inr u" "print_circuits_table (listing cs None None) = Inr v"
    using table_prints by meson
  have missing: "snd (lookup_main dump usage Missing_file args) = Exit 1" by (simp add: lookup_main_def load_registry_def)
  have found: "case find (\<lambda>c. text_of ''circuit_id'' c = x # y) cs of
        Some c \<Rightarrow> lookup_main dump usage f \<lparr>la_circuit_id = Some (x # y), la_list = False, la_domain = d, la_tier = t, la_json = True\<rparr>
          = (dump (JDict c), Exit 0)
      | None \<Rightarrow> snd (lookup_main dump usage f \<lparr>la_circuit_id = Some (x # y), la_list = False, la_domain = d, la_tier = t, la_json = j\<rparr>) = Exit 1"
    by (simp add: lookup_main_def assms(1) get_circuit_find [OF assms(2)] l p(2) printed_def split: option.split)
  show ?thesis
    by (intro conjI found missing) (simp_all add: lookup_main_def assms(1) l p(1) printed_def, simp_all add: listing_def)
qed

definition sample_registry :: registry_file where
  "sample_registry = Parsed (JDict [(''circuits'', JList [
     JDict [(''circuit_id'', JStr ''trade/b''), (''domain'', JStr ''trade''), (''certification_tier'', JStr ''REVIEWED''), (''description'', JStr ''B'')],
     JDict [(''circuit_id'', JStr ''trade/a''), (''domain'', JStr ''trade''), (''certification_tier'', JStr ''CERTIFIED''), (''description'', JStr ''A'')]])])"

theorem lookup_answers_witness:
  "snd (lookup_main (\<lambda>_. []) [] sample_registry \<lparr>la_circuit_id = None, la_list = True, la_domain = Some ''trade'', la_tier = None, la_json = False\<rparr>) = Exit 0
    \<and> snd (lookup_main (\<lambda>_. []) [] sample_registry \<lparr>la_circuit_id = None, la_list = True, la_domain = Some ''finance'', la_tier = None, la_json = False\<rparr>) = Exit 1
    \<and> snd (lookup_main (\<lambda>_. []) [] sample_registry \<lparr>la_circuit_id = Some ''trade/c'', la_list = False, la_domain = None, la_tier = None, la_json = False\<rparr>) = Exit 1"
proof -
  let ?b = "[(''circuit_id'', JStr ''trade/b''), (''domain'', JStr ''trade''), (''certification_tier'', JStr ''REVIEWED''), (''description'', JStr ''B'')]"
  let ?a = "[(''circuit_id'', JStr ''trade/a''), (''domain'', JStr ''trade''), (''certification_tier'', JStr ''CERTIFIED''), (''description'', JStr ''A'')]"
  have r: "load_registry sample_registry = Inr (Inr [?b, ?a])" "list_all circuit_ok [?b, ?a]"
    by (simp_all add: load_registry_def sample_registry_def dict_items_def list_value_def dict_value_def circuit_ok_def text_of_def)
  note a = lookup_answers [where f = sample_registry, OF r]
  have l: "listing [?b, ?a] (Some ''trade'') None \<noteq> []" "listing [?b, ?a] (Some ''finance'') None = []"
    by (simp_all add: listing_def wanted_def text_of_def)
  have n: "find (\<lambda>c. text_of ''circuit_id'' c = ''trade/c'') [?b, ?a] = None" by (simp add: text_of_def)
  show ?thesis
    using a [of "\<lambda>_. []" "[]" None "Some ''trade''" None] a [of "\<lambda>_. []" "[]" None "Some ''finance''" None]
      a [where x = "CHR ''t''" and y = "''rade/c''" and dump = "\<lambda>_. []" and usage = "[]" and d = None and t = None and j = False] l n by simp
qed

end
