(* ===== verification/Spec2Isabelle.thy ===== *)
theory Spec2Isabelle
  imports Sdk_Builder Standalone_Verifier Chain_Checkpoint Stub_Proofs Performance_Tracker Http_Properties Field_Polynomials
    Drug_Circuit Tee_Attestation Registry_Lookup
begin

text \<open>
  VRL: a verification library for the repository's Python code.

  The program.  \<open>core/engine.py\<close> computes the landed cost of an import from a validated request
  (\<open>models/schemas.py\<close>, guarded by \<open>security/guards.py\<close>) and a hashed tariff table (\<open>core/tariffs.py\<close>), and returns
  the result with an eight-step trace and an integrity artifact (\<open>core/proof.py\<close>); \<open>core/verifier.py\<close> verifies a
  response by computing it again.  The service (\<open>app/services/evidence_service.py\<close>) stores every calculation with
  its result and proof in PostgreSQL (\<open>app/db/repository.py\<close>) and appends an event to a partitioned hash-chained
  log (\<open>core/audit_chain.py\<close>, verified in segments by \<open>core/chain_checkpoint.py\<close>); the routes of \<open>api/routes.py\<close>
  serve it behind API keys, rate limits and back pressure (\<open>security\<close>), with a background runtime
  (\<open>api/runtime.py\<close>) and a proof queue (\<open>backend/proof_queue.py\<close>).  \<open>zk\<close> turns a calculation into typed
  artifacts, a stub proof or a PLONK proof of a native backend; \<open>coordinator\<close>, \<open>agents\<close> and \<open>memory\<close> run a
  cycle of ten tasks over these artifacts.  The SDK (\<open>sdk/python/vrl\<close>) assembles proof bundles and verifies them in
  ten steps, \<open>verifier/vrl_verify.py\<close> is a second implementation of the same verification.  All of them rest on
  canonical JSON, SHA-256 and decimal arithmetic (\<open>utils\<close>).

  The theories, in the order of their imports.
  \<^item> \<open>Prelude\<close>: the exceptions the code raises as the datatype \<open>py_error\<close>, fallible calls as
    \<open>py_error + 'a\<close> with their sequencing \<open>rbind\<close> and loops \<open>rmap\<close>, \<open>reach\<close>, hexadecimal text.
  \<^item> \<open>Hashing\<close>: SHA-256, SHA-1 and uuid5 on \<open>32 word\<close>s, \<open>compare_digest\<close>, \<open>int(s, 16)\<close>; the locale
    \<open>digest\<close> (64 lower-case hexadecimal digits) and its interpretation on SHA-256.
  \<^item> \<open>Decimal_Arith\<close>, \<open>Pydecimal\<close>: the \<open>decimal\<close> module in the context of the code (28 digits) and the
    functions of \<open>utils/decimal.py\<close>; the rounding error of a quantisation, the round trip of the
    text of a decimal, and the exact arithmetic of non-negative amounts in cents.
  \<^item> \<open>Canonical\<close>, \<open>Json_Dumps\<close>: Python values (\<open>pyv\<close>), JSON values (\<open>json\<close>), \<open>canonicalize\<close> and \<open>json.dumps\<close>;
    injectivity of the text (by reading it back), independence of the key order, idempotence; the JSON dumps of the
    models and what validates again when it comes back from the database.
  \<^item> \<open>Guards\<close>, \<open>Schemas\<close>: the payload guards and the request model with its validators and dumps.
  \<^item> \<open>Tariffs\<close>, \<open>Engine\<close>, \<open>Core_Verifier\<close>: table, calculation, integrity artifact and the verification by
    recomputation; the calculation is related to integer arithmetic in cents (\<open>spec_amounts\<close>).
  \<^item> \<open>Audit_Chain\<close>, \<open>Chain_Checkpoint\<close>: the log; the locale \<open>hash_chain\<close> extends \<open>digest\<close> with the text of
    an event and shows that the last digest fixes the chain; \<open>chain_ok\<close> is the abstract contract the
    verification functions are shown to decide.
  \<^item> \<open>Sdk_Hashing\<close>, \<open>Sdk_Bundle\<close>, \<open>Sdk_Verifier\<close>, \<open>Sdk_Builder\<close>, \<open>Standalone_Verifier\<close>: the SDK's hash functions, the
    parts of a bundle with \<open>to_dict\<close> and \<open>from_dict\<close>, the ten verification steps over a registry argument, the
    builders, and the standalone verifier on parsed JSON with the simulation that relates the two.
  \<^item> \<open>Artifacts\<close>, \<open>Stub_Proofs\<close>, \<open>Artifact_Graph\<close>: the typed artifacts of \<open>zk/interfaces.py\<close> with their hashes and ids, the
    deterministic stub prover and verifier, and the graph the coordinator keeps them in.
  \<^item> \<open>Plonk_Circuit\<close>, \<open>Field_Polynomials\<close>, \<open>Domain_Circuits\<close>, \<open>Float_Repr\<close>, \<open>Drug_Circuit\<close>: the landed-cost circuit with its wire
    assignment, the polynomial helpers of \<open>zk/field_utils.py\<close> related to evaluation over the integers, and the
    AML, contract clause and drug dosage circuits; the last computes with floats and their texts.
  \<^item> \<open>Key_Lifecycle\<close>, \<open>Plonk_Verifier\<close>, \<open>Proof_Queue\<close>, \<open>Proof_Export\<close>: key derivation and its hash-chained log, the PLONK prover and
    verifier over a backend argument, the queue of proof tasks, the export of proof bundles and their offline verification.
  \<^item> \<open>Evidence_Store\<close>, \<open>Evidence_Service\<close>, \<open>Evidence_Refinement\<close>, \<open>Evidence_Verification\<close>: the tables with their constraints, the queries,
    transactions with rollback under arbitrary faults, those of the commit, its answer and the release of the connection
    included; the service's two phases with retries, duplicates and failure
    events; an abstract store whose atomic steps every call refines; and what the stored evidence verifies to.
  \<^item> \<open>Verified_Dataset\<close>, \<open>Dataset_Export\<close>: training records and their export over stored evidence.
  \<^item> \<open>Service_Limits\<close>, \<open>Runtime_Controller\<close>, \<open>Http_Routes\<close>, \<open>Http_Properties\<close>: rate limiter, back pressure and API keys, the background
    runtime and its thread, every route with its exception clauses, startup; invariants over sequences of requests.
  \<^item> \<open>Shared_Memory\<close>, \<open>Coordinator\<close>, \<open>Binary64\<close>, \<open>Performance_Tracker\<close>: the agents' memory, the cycle over the task graph, the scores of
    the agents in double arithmetic and the chain metrics.
  \<^item> \<open>Unicode_Text\<close>, \<open>Tee_Attestation\<close>, \<open>Registry_Lookup\<close>: texts of any code points with UTF-8 and the literals of \<open>json.dumps\<close>, both
    read back from the left; attestations over such texts and the bundles around them; the lookup tool of the circuit registry.
  \<^item> \<open>Samples\<close>: a request, a service and its calls, on which the witnesses evaluate.
  \<^item> \<open>Spec2Isabelle\<close> (this theory): the properties of the core, with a witness for each that has hypotheses; the
    properties of the other components are at the end of their theories.

  Conventions.  A Python exception is a value of \<open>py_error\<close>; its message is kept as far as the code
  builds it.  Strings are HOL strings, code points below 256: on these NFC normalisation, which
  \<open>canonicalize\<close> applies, is the identity and every string has UTF-8 bytes.  Two places go beyond: \<open>Tee_Attestation\<close> works on
  the texts of \<open>Unicode_Text\<close> with the normalisation as an argument, and \<open>Http_Routes\<close> takes what the guards raise on a
  body with other strings (UnicodeEncodeError for a lone surrogate) from the request.  Python integers are \<open>int\<close>; SHA words are \<open>32 word\<close>.  A time
  stamp or UUID is its text.  A dictionary is an association list in insertion order.  A float is the rational number it
  stands for, each operation rounded to 53 bits (\<open>Binary64\<close>).  SHA-256 is defined and computes; no theorem
  assumes that it has no collisions: where tamper evidence depends on it the conclusion names the
  texts that would have to collide (\<open>collision\<close>).

  Parameters: pydantic's integer coercion (\<open>int_of\<close>) and its parsing of a response (\<open>parse_response\<close>), the outcome of
  a JSON decoder or of reading a file, the nesting the interpreter's stack has room for, NFC normalisation in the attestation, the circuit registry, the native proof backend and its manifest, the
  clock and \<open>uuid4\<close>, the faults of database statements and of writing logs, the outcome of connecting to the
  database, what an agent does, and the order in which threads finish.

  Bounds.  The exactness of the calculation (\<open>in_range\<close>) asks for an extended value below 10^22 cents
  and freight and insurance below 10^26 cents: then no product or sum of the calculation needs more
  than 28 digits.  From 10^28 cents on the calculation raises InvalidOperation.  The service tries a transaction
  five times, as the code does; a new calculation takes seven statements and
  the answer to its commit.  The loop over the task graph takes at most as many rounds as there are tasks.  The drug dosages are followed for weights and
  clearances between a hundredth and a million, where neither \<open>repr\<close> nor the arithmetic leaves the ordinary range.
  No definition uses fuel: every recursion is structural or has a measure.

  Not modelled: the scripts (\<open>scripts\<close>, \<open>infra/environment.py\<close>), which only drive the modelled functions over files and
  the network; reading and writing of files, terminal output and the JSON report of a cycle; PostgreSQL's locks and isolation
  levels (a transaction is one step) and the interleaving of awaits of different requests (a route is one
  step); the native Rust backend and the bridge that builds and runs it; negative zero, infinities and NaN of floats; the
  description texts of \<open>zk/architecture.py\<close>; the runs of the single agents (\<open>agents/zk_unit.py\<close>), which are an argument of the coordinator.
\<close>

section \<open>Sample values\<close>

definition broken_event :: audit_event where
  "broken_event = \<lparr>ae_id = Some 7, ae_chain_id = 0, ae_event_type = ''x'', ae_reference_id = None,
     ae_event_payload = [], ae_prev_hash = ''1'', ae_current_hash = [], ae_created_at = ''t''\<rparr>"

definition sample_event :: audit_event where
  "sample_event = (case build_audit_event ''x'' None [] zero_hash ''t'' 0 None of Inr e \<Rightarrow> e | Inl _ \<Rightarrow> broken_event)"

lemma sample_event_built: "build_audit_event ''x'' None [] zero_hash ''t'' 0 None = Inr sample_event"
  by (simp add: sample_event_def build_audit_event_def compute_audit_hash_def audit_hash_payload_def canonical_json_def)

lemma sample_chain: "chain_ok zero_hash [sample_event]"
  using append_event_ok [of "[]" "''x''" None "[]" "''t''" 0 None sample_event] sample_event_built
  by (simp add: chain_end_def)

primrec honest_chain :: "nat \<Rightarrow> audit_event list" where
  "honest_chain 0 = []"
| "honest_chain (Suc n) = honest_chain n @ [case build_audit_event ''x'' None [] (chain_end zero_hash (honest_chain n))
     ''t'' 0 None of Inr e \<Rightarrow> e | Inl _ \<Rightarrow> broken_event]"

lemma honest_chain_ok: "chain_ok zero_hash (honest_chain n) \<and> length (honest_chain n) = n"
proof (induction n)
  case (Suc n)
  obtain e where "build_audit_event ''x'' None [] (chain_end zero_hash (honest_chain n)) ''t'' 0 None = Inr e"
    by (simp add: build_audit_event_def compute_audit_hash_def audit_hash_payload_def canonical_json_def)
  then show ?case using Suc append_event_ok by simp
qed simp

lemma one_not_zero_hash: "''1'' \<noteq> zero_hash"
  by (rule notI, drule arg_cong [where f = length]) simp

lemma broken_chain: "0 < n \<Longrightarrow> \<not> chain_ok zero_hash (replicate n broken_event)"
  using one_not_zero_hash by (cases n) (simp_all add: broken_event_def)

definition sample_identity :: ai_identity where
  "sample_identity = projr (set_execution_environment (JStr ''deterministic'')
     (builder_compute_ai_id (JStr ''w'') (JStr ''r'') (JStr ''c'') (JStr ''p'') (JStr ''m'') (JStr ''1'') identity_builder))"

definition sample_computation :: computation where
  "sample_computation = projr (honest_computation (JStr ''trade'') (JStr ''2.0'') ''in'' ''out'' ''trace'')"

definition sample_proof :: proof_part where
  "sample_proof = projr (honest_proof sample_computation ''sha256-deterministic'' (JStr ''00'') (JList []) (JStr ''k''))"

definition sample_built :: "proof_bundle \<times> bundle_builder" where
  "sample_built = projr (honest_bundle ''2026-01-01T00:00:00.000+00:00'' sample_identity sample_computation sample_proof)"

definition sample_bundle :: proof_bundle where
  "sample_bundle = fst sample_built"

lemma sample_parts:
  "honest_computation (JStr ''trade'') (JStr ''2.0'') ''in'' ''out'' ''trace'' = Inr sample_computation"
  "honest_proof sample_computation ''sha256-deterministic'' (JStr ''00'') (JList []) (JStr ''k'') = Inr sample_proof"
  "''sha256-deterministic'' \<in> set valid_systems"
  "honest_bundle ''2026-01-01T00:00:00.000+00:00'' sample_identity sample_computation sample_proof
     = Inr (sample_bundle, snd sample_built)"
  "is_valid_hex_hash (id_ai_id sample_identity)"
proof -
  show c: "honest_computation (JStr ''trade'') (JStr ''2.0'') ''in'' ''out'' ''trace'' = Inr sample_computation"
    by (simp add: sample_computation_def honest_computation_def builder_integrity_hash_def compute_integrity_hash_def
        concat3_def build_computation_def missing_names_def set_trace_hash_def set_output_hash_def set_input_hash_def
        set_circuit_hash_def set_circuit_version_def set_circuit_id_def computation_builder_def)
  show "honest_proof sample_computation ''sha256-deterministic'' (JStr ''00'') (JList []) (JStr ''k'') = Inr sample_proof"
    by (simp add: sample_proof_def honest_proof_def build_proof_def missing_names_def set_proof_hash_def
        set_verification_key_id_def set_public_inputs_def set_proof_bytes_def set_proof_system_def proof_builder_def)
  show "''sha256-deterministic'' \<in> set valid_systems" by (simp add: valid_systems_def)
  show "honest_bundle ''2026-01-01T00:00:00.000+00:00'' sample_identity sample_computation sample_proof
     = Inr (sample_bundle, snd sample_built)"
    by (simp add: sample_bundle_def sample_built_def honest_bundle_def build_bundle_def set_proof_def
        set_computation_def set_ai_identity_def new_builder_def set_issued_at_now_def
        compute_bundle_id_from_integrity_def honest_computation_fields [OF c])
  show "is_valid_hex_hash (id_ai_id sample_identity)"
    by (simp add: sample_identity_def set_execution_environment_def valid_envs_def builder_compute_ai_id_def compute_ai_id_def)
qed

lemma sample_fields:
  "pb_computation sample_bundle = sample_computation" "pb_proof sample_bundle = sample_proof"
  "pb_ai_identity sample_bundle = sample_identity" "pf_proof_bytes sample_proof = JStr ''00''"
  "pf_public_inputs sample_proof = JList []" "pf_proof_system sample_proof = JStr ''sha256-deterministic''"
  "co_circuit_hash sample_computation = JStr (mock_circuit_hash (JStr ''trade'') (JStr ''2.0''))"
  "co_trace_hash sample_computation = JStr (sha256_hex ''trace'')"
  "pb_bundle_id sample_bundle \<noteq> JNull" "pb_issued_at sample_bundle \<noteq> JNull" "bundle_storable sample_bundle"
proof -
  show c: "co_circuit_hash sample_computation = JStr (mock_circuit_hash (JStr ''trade'') (JStr ''2.0''))"
    "co_trace_hash sample_computation = JStr (sha256_hex ''trace'')"
    using honest_computation_fields [OF sample_parts(1)] by simp_all
  show p: "pf_proof_bytes sample_proof = JStr ''00''" "pf_public_inputs sample_proof = JList []"
    "pf_proof_system sample_proof = JStr ''sha256-deterministic''"
    by (simp_all add: sample_proof_def honest_proof_def build_proof_def missing_names_def set_proof_hash_def
        set_verification_key_id_def set_public_inputs_def set_proof_bytes_def set_proof_system_def proof_builder_def)
  have k: "pf_verification_key_id sample_proof \<noteq> JNull" "pf_proof_hash sample_proof \<noteq> JNull"
    by (simp_all add: sample_proof_def honest_proof_def build_proof_def missing_names_def set_proof_hash_def
        set_verification_key_id_def set_public_inputs_def set_proof_bytes_def set_proof_system_def proof_builder_def)
  show b: "pb_computation sample_bundle = sample_computation" "pb_proof sample_bundle = sample_proof"
    "pb_ai_identity sample_bundle = sample_identity" "pb_bundle_id sample_bundle \<noteq> JNull"
    "pb_issued_at sample_bundle \<noteq> JNull"
    using honest_bundle_fields [OF sample_parts(4)] by simp_all
  have i: "identity_storable sample_identity"
    by (simp add: identity_storable_def sample_identity_def set_execution_environment_def valid_envs_def
        builder_compute_ai_id_def compute_ai_id_def)
  show "bundle_storable sample_bundle"
    using honest_bundle_fields [OF sample_parts(4)] i p k
    by (simp add: bundle_storable_def proof_storable_def valid_systems_def)
qed

text \<open>The same bundle with an empty timestamp token.\<close>

definition partial_bundle :: proof_bundle where
  "partial_bundle = sample_bundle\<lparr>pb_legal := Some \<lparr>lg_jurisdictions = JNull, lg_admissibility_standard = JNull,
     lg_compliance_flags = JNull, lg_timestamp_authority = Some \<lparr>ta_tsa_token = JStr [], ta_tsa_provider = JStr ''tsa'',
       ta_tsa_hash_algorithm = JStr ''sha256''\<rparr>, lg_immutable_anchor = None\<rparr>\<rparr>"

lemma partial_bundle_facts: "mandatory_checks mock_registry partial_bundle" "graph_outcome partial_bundle = Inr True"
  "\<not> timestamp_complete partial_bundle"
  using honest_bundle_mandatory [OF sample_parts]
  by (simp_all add: partial_bundle_def mandatory_checks_def hash_fields_def graph_outcome_def timestamp_complete_def)

section \<open>The landed-cost calculation\<close>

text \<open>C1: for a valid request in the range of the decimal context whose HS code has a rule, the
  calculation succeeds and its amounts are those of exact integer arithmetic in cents: each
  product is rounded half up once, the merchandise processing fee is clamped to 32.71..634.62,
  the section 301 duty and the harbour fee are charged only for listed origins and ocean
  transport, and the landed cost is the sum of all parts.\<close>

theorem landed_cost_correct:
  assumes "valid_request r" "in_range r" "int_of (PInt (quantity r)) = Some (quantity r)"
    and "find_rule tariff_rules (hs_code r) = Inr rule"
  shows "\<exists>resp. calculate_import_landed_cost int_of tariff_rules dataset_hash r = Inr resp \<and>
    (let c = rs_result resp; e = dcoef (customs_value r) * quantity r;
         duty = half_up (e * dcoef (tr_duty_rate rule)) 10000;
         s301 = (if country_of_origin r \<in> set (section_301_origin_countries rule)
                 then half_up (e * dcoef (tr_section_301_rate rule)) 10000 else 0);
         mpf = max 3271 (min 63462 (half_up (e * 3464) 1000000));
         hmf = (if shipping_mode r = ''ocean'' then half_up (e * 1250) 1000000 else 0)
     in cr_extended_customs_value c = cents e \<and> cr_duty_amount c = cents duty
        \<and> cr_section_301_amount c = cents s301 \<and> cr_mpf_amount c = cents mpf \<and> cr_hmf_amount c = cents hmf
        \<and> cr_landed_cost c = cents (e + dcoef (freight r) + dcoef (insurance r) + duty + s301 + mpf + hmf))"
proof -
  have "rule \<in> set tariff_rules" using find_rule_Inr [OF assms(4)] by simp
  then have "calculate_import_landed_cost int_of tariff_rules dataset_hash r
      = Inr (response_of r rule dataset_hash (spec_amounts r rule))"
    by (simp add: calculate_unfold [of r int_of, OF assms(1,3)] assms(4) calc_amounts_spec [OF assms(1,2)])
  moreover have "clamp_cents 3271 63462 n = max 3271 (min 63462 n)" for n
    by (simp add: clamp_cents_def)
  ultimately show ?thesis
    by (simp add: response_of_def spec_result_def spec_amounts_def Let_def spec_landed_def spec_duty_def
        spec_section_301_def spec_mpf_def spec_hmf_def spec_rate_def spec_ecv_def)
qed

theorem landed_cost_correct_witness:
  "\<exists>resp. calculate_import_landed_cost sample_int tariff_rules dataset_hash sample_request = Inr resp
     \<and> cr_landed_cost (rs_result resp) = cents 1613037 \<and> cr_mpf_amount (rs_result resp) = cents 4332"
  using landed_cost_correct [where int_of = sample_int, OF sample_valid(1,2) sample_int_quantity sample_rule_found]
  by (auto simp: Let_def sample_request_def sample_rule_def mk_rule_def half_up_def)

text \<open>For a valid request in range, the only error is the LookupError of an HS code that has
  no rule in the table.\<close>

theorem calculation_errors:
  assumes "valid_request r" "in_range r" "int_of (PInt (quantity r)) = Some (quantity r)"
  shows "if hs_code r \<in> hs_prefix ` set tariff_rules
    then \<exists>resp. calculate_import_landed_cost int_of tariff_rules dataset_hash r = Inr resp
    else calculate_import_landed_cost int_of tariff_rules dataset_hash r
           = Inl (LookupError (''No tariff rule found for HS code '' @ hs_code r))"
proof (cases "find_rule tariff_rules (hs_code r)")
  case (Inl e)
  then show ?thesis
    by (auto simp: calculate_unfold [of r int_of, OF assms(1,3)] find_rule_def find_None_iff find_Some_iff split: option.splits)
next
  case (Inr rule)
  then have "rule \<in> set tariff_rules" "hs_prefix rule = hs_code r" using find_rule_Inr by auto
  then show ?thesis
    using Inr calc_amounts_spec [OF assms(1,2)] by (force simp: calculate_unfold [of r int_of, OF assms(1,3)])
qed

theorem calculation_errors_witness:
  "calculate_import_landed_cost sample_int tariff_rules dataset_hash (sample_request\<lparr>hs_code := ''0000000000''\<rparr>)
     = Inl (LookupError ''No tariff rule found for HS code 0000000000'')"
proof -
  have "valid_request (sample_request\<lparr>hs_code := ''0000000000''\<rparr>)" "in_range (sample_request\<lparr>hs_code := ''0000000000''\<rparr>)"
    by code_simp+
  then show ?thesis
    using calculation_errors [where int_of = sample_int, OF _ _ sample_int_quantity]
    by (fastforce simp: tariff_rules_def mk_rule_def)
qed

text \<open>An extended customs value of more than 28 digits does not wrap or lose digits silently:
  the calculation raises InvalidOperation.\<close>

theorem calculation_overflow:
  assumes "valid_request r" "int_of (PInt (quantity r)) = Some (quantity r)"
    and "find_rule tariff_rules (hs_code r) = Inr rule" "10 ^ 28 \<le> dcoef (customs_value r) * quantity r"
  shows "calculate_import_landed_cost int_of tariff_rules dataset_hash r = Inl InvalidOperation"
  using calc_overflow [OF assms(1)] assms
  by (simp add: calculate_unfold [of r int_of, OF assms(1,2)] spec_ecv_def)

theorem calculation_overflow_witness:
  "calculate_import_landed_cost sample_int tariff_rules dataset_hash large_request = Inl InvalidOperation"
proof -
  have "find_rule tariff_rules (hs_code large_request) = Inr sample_rule" by code_simp
  then show ?thesis
    by (rule calculation_overflow [where int_of = sample_int, OF sample_valid(3) sample_int_quantity]) (simp add: large_request_def)
qed

text \<open>The integrity artifact of every response binds request, result and trace: its three
  hashes are the payload hashes of the three canonical texts, the integrity hash is the digest
  of their concatenation, and the trace has the eight steps of the calculation in order.\<close>

theorem response_integrity:
  assumes "calculate_import_landed_cost int_of rules h r = Inr resp"
    and "valid_request r" "int_of (PInt (quantity r)) = Some (quantity r)"
  shows "payload_hash (request_payload r) = Inr (ia_input_hash (rs_integrity resp))
    \<and> payload_hash (result_payload (rs_result resp)) = Inr (ia_output_hash (rs_integrity resp))
    \<and> payload_hash (trace_payload (rs_trace resp)) = Inr (ia_trace_hash (rs_integrity resp))
    \<and> ia_integrity_hash (rs_integrity resp) = sha256_hex (ia_input_hash (rs_integrity resp)
        @ ia_output_hash (rs_integrity resp) @ ia_trace_hash (rs_integrity resp))
    \<and> map ts_step (rs_trace resp) = [''canonical_input'', ''tariff_lookup'', ''extended_customs_value'',
        ''base_duty'', ''section_301'', ''mpf'', ''hmf'', ''landed_cost'']"
proof -
  note v = validate_request_payload [of r int_of, OF assms(2,3)]
  have "map ts_step (rs_trace resp) = [''canonical_input'', ''tariff_lookup'', ''extended_customs_value'',
        ''base_duty'', ''section_301'', ''mpf'', ''hmf'', ''landed_cost'']"
    using assms(1) by (auto simp: calculate_import_landed_cost_def result_simps Let_def build_trace_def make_step_def)
  then show ?thesis
    using integrity_of_calculation [OF assms(1) v] by (simp add: integrity_of_def)
qed

theorem response_integrity_witness:
  "payload_hash (result_payload (rs_result sample_response)) = Inr (ia_output_hash (rs_integrity sample_response))"
  using response_integrity [OF sample_calculation sample_valid(1) sample_int_quantity] by blast

section \<open>Proof verification by recomputation\<close>

text \<open>C2: the response the engine computed for a request is accepted, and the verification result
  carries the four hashes of that response.\<close>

theorem verify_proof_complete:
  assumes "wf_pyv request_v" "validate_request int_of request_v = Inr r"
    and "int_of (PInt (quantity r)) = Some (quantity r)"
    and "calculate_import_landed_cost int_of rules h r = Inr resp" "parse_response response_v = Inr resp"
  shows "verify_proof int_of rules h parse_response request_v response_v
    = \<lparr>vr_status = ''VALID'', vr_reason = ''Proof recomputed successfully'',
       vr_input_hash = ia_input_hash (rs_integrity resp), vr_output_hash = ia_output_hash (rs_integrity resp),
       vr_trace_hash = ia_trace_hash (rs_integrity resp), vr_integrity_hash = ia_integrity_hash (rs_integrity resp)\<rparr>"
  using assms by (intro verify_accepts [of int_of request_v r]) simp_all

theorem verify_proof_complete_witness:
  "vr_status (verify_proof sample_int tariff_rules dataset_hash (\<lambda>v. Inr sample_response)
     (request_payload sample_request) PNone) = ''VALID''"
  by (subst verify_proof_complete [of _ sample_int sample_request _ _ sample_response])
    (simp_all add: sample_revalidates sample_int_quantity sample_calculation)

text \<open>C3: VALID means that both payloads parse and that the recomputed response has the same result
  and the same trace, in canonical JSON, and that the three payload hashes of the response are
  those of the recomputation.\<close>

theorem verify_proof_sound:
  assumes "vr_status (verify_proof int_of rules h parse_response request_v response_v) = ''VALID''"
  shows "\<exists>r recomputed response. validate_request int_of request_v = Inr r
    \<and> calculate_import_landed_cost int_of rules h r = Inr recomputed \<and> parse_response response_v = Inr response
    \<and> canonical_json (result_payload (rs_result response)) = canonical_json (result_payload (rs_result recomputed))
    \<and> canonical_json (trace_payload (rs_trace response)) = canonical_json (trace_payload (rs_trace recomputed))
    \<and> payload_hash (request_payload r) = Inr (ia_input_hash (rs_integrity response))
    \<and> payload_hash (result_payload (rs_result recomputed)) = Inr (ia_output_hash (rs_integrity response))
    \<and> payload_hash (trace_payload (rs_trace recomputed)) = Inr (ia_trace_hash (rs_integrity response))"
proof -
  obtain q resp resp' where v: "validate_request int_of request_v = Inr q"
    "calculate_import_landed_cost int_of rules h q = Inr resp" "parse_response response_v = Inr resp'"
    "compare_responses q resp resp' = Inr (verify_proof int_of rules h parse_response request_v response_v)"
    using verify_sound [OF assms] by blast
  note c = compare_valid [OF v(4) assms]
  show ?thesis
    by (intro exI [of _ q] exI [of _ resp] exI [of _ resp']) (simp add: v c)
qed

theorem verify_proof_sound_witness:
  "payload_hash (request_payload sample_request) = Inr (ia_input_hash (rs_integrity sample_response))"
proof -
  have "vr_status (verify_proof sample_int tariff_rules dataset_hash (\<lambda>v. Inr sample_response)
      (request_payload sample_request) PNone) = ''VALID''"
    by (subst verify_accepts [of sample_int _ sample_request _ _ sample_response])
      (simp_all add: sample_revalidates sample_int_quantity sample_calculation)
  from verify_proof_sound [OF this] show ?thesis by (auto simp: sample_revalidates)
qed

text \<open>C4: the integrity hash of the submitted response is not among the comparisons: for every request, two responses that
  differ in nothing but their integrity hash get the same result, the VALID, the INVALID and the exceptional ones
  alike; in particular the calculation's own response with any text in the place of its integrity hash is VALID, and
  the result then names the recomputed hash, not the submitted one.\<close>

theorem integrity_hash_not_compared:
  assumes "parse_response v = Inr resp"
    and "parse_response v' = Inr (resp\<lparr>rs_integrity := (rs_integrity resp)\<lparr>ia_integrity_hash := forged\<rparr>\<rparr>)"
  shows "verify_proof int_of rules h parse_response request_v v' = verify_proof int_of rules h parse_response request_v v
    \<and> (wf_pyv request_v \<and> validate_request int_of request_v = Inr r \<and> int_of (PInt (quantity r)) = Some (quantity r)
        \<and> calculate_import_landed_cost int_of rules h r = Inr resp
      \<longrightarrow> vr_status (verify_proof int_of rules h parse_response request_v v') = ''VALID''
        \<and> vr_integrity_hash (verify_proof int_of rules h parse_response request_v v') = ia_integrity_hash (rs_integrity resp))"
proof -
  have "verify_proof int_of rules h parse_response request_v v' = verify_proof int_of rules h parse_response request_v v"
    using assms by (cases "validate_request int_of request_v") (simp_all add: verify_proof_def verify_body_def compare_responses_def)
  then show ?thesis using assms(1) by (auto simp: verify_accepts)
qed

text \<open>One response of each kind: with a forged integrity hash the own response stays VALID and an altered one INVALID.\<close>

definition forged_integrity :: "calculation_response \<Rightarrow> calculation_response" where
  "forged_integrity r = r\<lparr>rs_integrity := (rs_integrity r)\<lparr>ia_integrity_hash := ''forged''\<rparr>\<rparr>"

theorem integrity_hash_not_compared_witness:
  "let check = (\<lambda>resp. vr_status (verify_proof sample_int tariff_rules dataset_hash (\<lambda>v. if v = PNone then Inr resp else Inr (forged_integrity resp))
       (request_payload sample_request) (PInt 0))) in
   check sample_response = ''VALID'' \<and> check (sample_response\<lparr>rs_integrity := (rs_integrity sample_response)\<lparr>ia_output_hash := []\<rparr>\<rparr>) \<noteq> ''VALID''"
proof -
  let ?p = "\<lambda>resp v. if v = PNone then Inr resp else Inr (forged_integrity resp)"
  have s: "?p resp PNone = Inr resp" "?p resp (PInt 0) = Inr (resp\<lparr>rs_integrity := (rs_integrity resp)\<lparr>ia_integrity_hash := ''forged''\<rparr>\<rparr>)"
    for resp by (simp_all add: forged_integrity_def)
  have t: "verify_proof sample_int tariff_rules dataset_hash (?p resp) (request_payload sample_request) (PInt 0)
      = verify_proof sample_int tariff_rules dataset_hash (?p resp) (request_payload sample_request) PNone
    \<and> (resp = sample_response \<longrightarrow> vr_status (verify_proof sample_int tariff_rules dataset_hash (?p resp)
          (request_payload sample_request) (PInt 0)) = ''VALID'')" for resp
    using integrity_hash_not_compared [where parse_response = "?p resp", OF s, where int_of = sample_int and rules = tariff_rules
      and h = dataset_hash and request_v = "request_payload sample_request" and r = sample_request]
      sample_revalidates sample_int_quantity [of sample_request] sample_calculation by blast
  then have "vr_status (verify_proof sample_int tariff_rules dataset_hash (?p sample_response) (request_payload sample_request) (PInt 0)) = ''VALID''"
    by blast
  moreover have "vr_status (verify_proof sample_int tariff_rules dataset_hash (?p (sample_response\<lparr>rs_integrity := (rs_integrity sample_response)\<lparr>ia_output_hash := []\<rparr>\<rparr>))
      (request_payload sample_request) PNone) \<noteq> ''VALID''"
  proof
    assume "vr_status (verify_proof sample_int tariff_rules dataset_hash (?p (sample_response\<lparr>rs_integrity := (rs_integrity sample_response)\<lparr>ia_output_hash := []\<rparr>\<rparr>))
      (request_payload sample_request) PNone) = ''VALID''"
    note v = this
    obtain q resp and resp' :: calculation_response where r: "calculate_import_landed_cost sample_int tariff_rules dataset_hash q = Inr resp"
      "validate_request sample_int (request_payload sample_request) = Inr q" "ia_output_hash (rs_integrity resp') = []"
      "ia_output_hash (rs_integrity resp') = result_hash (rs_result resp)"
    proof (rule verify_sound [OF v])
      fix q resp resp'
      assume a: "validate_request sample_int (request_payload sample_request) = Inr q"
        "calculate_import_landed_cost sample_int tariff_rules dataset_hash q = Inr resp"
        "(if PNone = PNone then Inr (sample_response\<lparr>rs_integrity := (rs_integrity sample_response)\<lparr>ia_output_hash := []\<rparr>\<rparr>) else Inr (forged_integrity (sample_response\<lparr>rs_integrity := (rs_integrity sample_response)\<lparr>ia_output_hash := []\<rparr>\<rparr>))) = Inr resp'"
        "compare_responses q resp resp' = Inr (verify_proof sample_int tariff_rules dataset_hash (?p (sample_response\<lparr>rs_integrity := (rs_integrity sample_response)\<lparr>ia_output_hash := []\<rparr>\<rparr>)) (request_payload sample_request) PNone)"
      have "ia_output_hash (rs_integrity resp') = []" using a(3) by auto
      then show thesis by (rule that [OF a(2,1) _ compare_valid(2) [OF a(4) v]])
    qed
    then have "[] = result_hash (rs_result resp)" by (simp only:)
    then show False using sha.digest_length by (metis result_hash_def list.size(3) zero_neq_numeral)
  qed
  ultimately show ?thesis
    unfolding Let_def conjunct1 [OF t [of "sample_response\<lparr>rs_integrity := (rs_integrity sample_response)\<lparr>ia_output_hash := []\<rparr>\<rparr>"]]
    by (rule conjI)
qed

section \<open>Canonical JSON\<close>

text \<open>C5: the canonical JSON text determines the canonical value: two payloads have the same text
  exactly when they canonicalise to the same value.\<close>

theorem canonical_json_injective:
  assumes "wf_pyv a" "wf_pyv b" "canonical_json a = Inr t"
  shows "canonical_json b = Inr t \<longleftrightarrow> canonicalize b = canonicalize a"
  using assms by (rule canonical_json_iff)

theorem canonical_json_injective_witness:
  "canonical_json (PList [PInt 1, PStr ''a'']) \<noteq> Inr ''[1]''"
proof -
  have "canonical_json (PList [PInt 1]) = Inr ''[1]''" by code_simp
  moreover have "canonicalize (PList [PInt 1, PStr ''a'']) \<noteq> canonicalize (PList [PInt 1])" by code_simp
  ultimately show ?thesis
    using canonical_json_injective [of "PList [PInt 1]" "PList [PInt 1, PStr ''a'']" "''[1]''"] by simp
qed

text \<open>The order in which the keys of a dictionary were inserted, at any depth, does not reach the
  canonical text.\<close>

theorem canonical_json_key_order:
  assumes "reordered v w"
  shows "canonical_json v = canonical_json w"
  using canonicalize_reordered [OF assms] by (simp add: canonical_json_def)

theorem canonical_json_key_order_witness:
  "canonical_json (PDict [(''b'', PInt 1), (''a'', PInt 2)]) = canonical_json (PDict [(''a'', PInt 2), (''b'', PInt 1)])"
proof (rule canonical_json_key_order)
  show "reordered (PDict [(''b'', PInt 1), (''a'', PInt 2)]) (PDict [(''a'', PInt 2), (''b'', PInt 1)])"
    by (rule reordered.dict [of "[(''b'', PInt 1), (''a'', PInt 2)]" "[(''b'', PInt 1), (''a'', PInt 2)]"])
      (auto intro: reordered.same)
qed

text \<open>Canonicalisation is idempotent and its text is pure ASCII, so a comparison of two
  canonical texts with \<open>compare_digest\<close> never raises.\<close>

theorem canonical_json_stable:
  assumes "wf_pyv v" "canonicalize v = Inr w"
  shows "canonicalize (of_json w) = Inr w \<and> canonical_json (of_json w) = canonical_json v
    \<and> constant_time_equal (json_dumps w) (json_dumps w) = Inr True"
  using canonicalize_of_json [OF canonicalize_canonical_form [OF assms]]
    json_dumps_ascii [OF canonicalize_float_free [OF assms(2)]] assms(2)
  by (simp add: canonical_json_def constant_time_equal_same)

theorem canonical_json_stable_witness:
  "canonicalize (of_json (JDict [(''a'', JInt 2), (''b'', JStr ''1.50'')]))
     = Inr (JDict [(''a'', JInt 2), (''b'', JStr ''1.50'')])"
proof -
  have "canonicalize (PDict [(''b'', PDec (Fin (Dec False 150 (- 2)))), (''a'', PInt 2)])
      = Inr (JDict [(''a'', JInt 2), (''b'', JStr ''1.50'')])" by code_simp
  then show ?thesis
    using canonical_json_stable [of "PDict [(''b'', PDec (Fin (Dec False 150 (- 2)))), (''a'', PInt 2)]"] by simp
qed

section \<open>Decimal amounts\<close>

text \<open>The fixed-point text of a decimal (\<open>format(d, 'f')\<close>) is read back by \<open>Decimal(text)\<close> as the
  same sign, coefficient and exponent, so an amount survives canonical JSON unchanged.\<close>

theorem decimal_text_round_trip:
  assumes "0 \<le> dcoef d" "dexpo d \<le> 0" "- dexpo d < 10 ^ 18" "ndigits (dcoef d) < 10 ^ 18"
  shows "decimal_of_string (decimal_format_f (Fin d)) = Some (Fin d)"
  using format_f_reads_back [OF assms] by simp

theorem decimal_text_round_trip_witness: "decimal_of_string ''-0.05'' = Some (Fin (Dec True 5 (- 2)))"
proof -
  have "ndigits 5 = 1" by (simp add: ndigits.simps)
  moreover have "decimal_format_f (Fin (Dec True 5 (- 2))) = ''-0.05''" by code_simp
  ultimately show ?thesis using decimal_text_round_trip [of "Dec True 5 (- 2)"] by simp
qed

text \<open>\<open>money\<close> rounds to cents: a number with fewer decimals is represented exactly, any other one
  with an error of at most half a cent, half a cent itself going away from zero; the sign is
  kept and a second application changes nothing.\<close>

theorem money_rounding:
  assumes "money (PDec (Fin x)) = Inr (Fin d)" "0 \<le> dcoef x"
  shows "dexpo d = - 2 \<and> dneg d = dneg x \<and> money (PDec (Fin d)) = Inr (Fin d)
    \<and> (if - 2 \<le> dexpo x then dcoef d = dcoef x * 10 ^ nat (dexpo x + 2)
       else let p = 10 ^ nat (- 2 - dexpo x) in
         2 * (dcoef d * p) \<le> 2 * dcoef x + p \<and> 2 * dcoef x < 2 * (dcoef d * p) + p)"
proof -
  have q: "dec_quantize (- 2) x = Inr d" using assms(1) by (simp add: money_dec result_simps)
  then have e: "dexpo d = - 2" "dneg d = dneg x" using dec_quantize_expo by auto
  moreover have "money (PDec (Fin d)) = Inr (Fin d)"
    using dec_quantize_small [OF assms(2) q] e(1) by (simp add: money_dec dec_quantize_same)
  ultimately show ?thesis
    using dec_quantize_error [OF q assms(2)] by (simp add: pow10_def Let_def)
qed

theorem money_rounding_witness: "money (PDec (Fin (Dec False 123 (- 2)))) = Inr (Fin (Dec False 123 (- 2)))"
proof -
  have "money (PDec (Fin (Dec False 1225 (- 3)))) = Inr (Fin (Dec False 123 (- 2)))" by code_simp
  from money_rounding [OF this] show ?thesis by simp
qed

section \<open>Requests\<close>

text \<open>The guards let a payload pass exactly when no collection has more than 256 entries, every
  string (keys included) has at most 256 bytes and matches no injection pattern, no float and no
  date, datetime or UUID occurs, and the canonical text has at most 8192 bytes.\<close>

theorem guards_exact:
  "enforce_payload_guards v = Inr () \<longleftrightarrow> harmless v
    \<and> (case canonical_json v of Inr raw \<Rightarrow> length (utf8 raw) \<le> max_request_bytes | Inl _ \<Rightarrow> True)"
  using guards_pass_iff [of v] by (auto split: sum.splits)

text \<open>A float anywhere in a request ends the validation with TypeError, raised by the canonical
  JSON that runs before the guard's own check for floats; it is not the ValidationError with
  which every refusal by the guards is reported.\<close>

theorem float_is_type_error:
  assumes "v = PDict kvs"
  shows "(has_float v \<longrightarrow> validate_request int_of v = Inl TypeError)
    \<and> (\<not> has_float v \<and> enforce_payload_guards v \<noteq> Inr ()
         \<longrightarrow> (\<exists>m. validate_request int_of v = Inl (ValidationError m)))"
proof (cases "enforce_payload_guards v")
  case (Inl e)
  then consider "e = TypeError" | m where "e = ValueError m" using guards_error by blast
  then show ?thesis using Inl guards_type_error [of v] assms
    by cases (auto simp: validate_request_def)
qed (use guards_type_error [of v] assms in simp)

theorem float_is_type_error_witness:
  "validate_request sample_int (PDict [(''freight'', PFloat ''0.1'')]) = Inl TypeError"
  using float_is_type_error [of "PDict [(''freight'', PFloat ''0.1'')]" _ sample_int] by simp

text \<open>A validated request has a ten-digit HS code, a two-letter country in capitals, a positive
  customs value and non-negative freight and insurance in whole cents below 10^26, a quantity in
  1..1000000 and one of the three shipping modes; dumping it and validating the dump gives the
  same request.\<close>

theorem request_validation:
  assumes "wf_pyv v" "validate_request int_of v = Inr r" "int_of (PInt (quantity r)) = Some (quantity r)"
  shows "valid_request r \<and> validate_request int_of (request_payload r) = Inr r"
  using validate_request_valid [OF assms(1,2)] validate_request_payload assms(3) by blast

theorem request_validation_witness:
  "valid_request sample_request \<and> validate_request sample_int (request_payload sample_request) = Inr sample_request"
  using request_validation [OF sample_revalidates(2,1) sample_int_quantity] .

section \<open>The tariff table\<close>

text \<open>The integrity check lets a lookup through only on the table that was loaded: every change of
  a rule, its rates, its countries or the order of the rules is refused with RuntimeError, unless
  the two canonical texts are a SHA-256 collision.\<close>

theorem tariff_tamper_evident:
  assumes "list_all (\<lambda>r. plain_dec (tr_duty_rate r) \<and> plain_dec (tr_section_301_rate r)) rules"
  shows "lookup_tariff_rule rules dataset_hash hs =
    (if rules = tariff_rules \<or> collision (dataset_text rules) (dataset_text tariff_rules)
     then find_rule rules hs else Inl (RuntimeError ''Tariff dataset integrity check failed''))"
  using validate_passes_iff [OF assms] validate_fails [of rules] by (auto simp: lookup_tariff_rule_def)

theorem tariff_tamper_evident_witness:
  "lookup_tariff_rule (rev tariff_rules) dataset_hash ''0000000000'' =
    (if collision (dataset_text (rev tariff_rules)) (dataset_text tariff_rules)
     then find_rule (rev tariff_rules) ''0000000000''
     else Inl (RuntimeError ''Tariff dataset integrity check failed''))"
proof -
  have "rev tariff_rules \<noteq> tariff_rules" by (simp add: tariff_rules_def mk_rule_def)
  then show ?thesis
    using tariff_tamper_evident [of "rev tariff_rules" "''0000000000''"] plain_dec_table by simp
qed

section \<open>The audit log\<close>

text \<open>C6: the verification of the audit log answers VALID exactly when in every partition the first
  record follows the zero hash, every other one the digest stored in its predecessor, and every
  stored digest is the one recomputed from the record.\<close>

theorem audit_chain_exact:
  "(\<exists>res. verify_audit_chain rs = Inr res \<and> ac_status res = ''VALID'')
    \<longleftrightarrow> (\<forall>c. chain_ok zero_hash (partition_of c rs))"
  by (rule verify_audit_chain_valid_iff)

text \<open>An INVALID verdict on one chain points at the first record that breaks it: the records before
  it form a chain that ends in the reported digest, the reported count is their number, and with
  the reported record they do not form a chain.\<close>

theorem first_broken_record:
  assumes "verify_single_chain rs = Inr res" "ac_status res \<noteq> ''VALID''"
  shows "\<exists>k < length rs. ac_checked_rows res = int k \<and> chain_ok zero_hash (take k rs)
    \<and> \<not> chain_ok zero_hash (take (Suc k) rs)
    \<and> ac_last_hash res = Some (chain_end zero_hash (take k rs)) \<and> ac_broken_record_id res = ae_id (rs ! k)"
  using check_records_first_break [of 0 zero_hash rs res] assms by (simp add: verify_single_chain_def)

theorem first_broken_record_witness:
  "\<exists>res. verify_single_chain [broken_event] = Inr res \<and> ac_broken_record_id res = Some 7"
proof -
  have r: "verify_single_chain [broken_event] = Inr (chain_failure
      ''Previous hash mismatch detected in audit chain'' 0 zero_hash broken_event)"
    using zero_hash_ascii one_not_zero_hash
    by (simp add: verify_single_chain_def broken_event_def constant_time_equal_def)
  from first_broken_record [OF this] show ?thesis
    using r by (simp add: chain_failure_def broken_event_def)
qed

text \<open>C7: the log is tamper evident: two verified chains that end in the same digest have, record by
  record, the same digests, the same previous digests and the same hashed content, unless two of
  the texts hashed by them collide or they differ in length and the zero hash is the digest of one of those texts.\<close>

theorem audit_chain_tamper_evident:
  assumes "chain_ok zero_hash rs" "chain_ok zero_hash ss" "chain_end zero_hash rs = chain_end zero_hash ss"
  shows "map (canonical_json \<circ> record_payload) rs = map (canonical_json \<circ> record_payload) ss
      \<and> map ae_current_hash rs = map ae_current_hash ss \<and> map ae_prev_hash rs = map ae_prev_hash ss
    \<or> (\<exists>a b. {a, b} \<subseteq> hashed_texts rs \<union> hashed_texts ss \<and> collision a b)
    \<or> length rs \<noteq> length ss \<and> zero_hash \<in> sha256_hex ` (hashed_texts rs \<union> hashed_texts ss)"
proof (cases "\<exists>a b. {a, b} \<subseteq> hashed_texts rs \<union> hashed_texts ss \<and> collision a b")
  case False
  then have "inj_on sha256_hex (hashed_texts rs \<union> hashed_texts ss)" by (intro no_collision_inj) blast
  then show ?thesis using chain_end_unique [OF assms] by blast
qed simp

text \<open>The log of one event, and the same log restored with another id, in another partition and with the keys of the
  payload in another order: both verify, and what is hashed is the same in both.\<close>

definition logged_event :: audit_event where
  "logged_event = (case build_audit_event ''x'' None [(''a'', PInt 1), (''b'', PInt 2)] zero_hash ''t'' 0 (Some 1) of
     Inr e \<Rightarrow> e | Inl _ \<Rightarrow> broken_event)"

definition restored_event :: audit_event where
  "restored_event = logged_event\<lparr>ae_id := Some 7, ae_chain_id := 3, ae_event_payload := [(''b'', PInt 2), (''a'', PInt 1)]\<rparr>"

lemma same_payload: "canonical_json (audit_hash_payload t r [(''b'', PInt 2), (''a'', PInt 1)] now)
    = canonical_json (audit_hash_payload t r [(''a'', PInt 1), (''b'', PInt 2)] now)"
  by (simp add: canonical_json_def audit_hash_payload_def)

lemma logged_event_built:
  "build_audit_event ''x'' None [(''a'', PInt 1), (''b'', PInt 2)] zero_hash ''t'' 0 (Some 1) = Inr logged_event"
  by (simp add: logged_event_def build_audit_event_def compute_audit_hash_def audit_hash_payload_def canonical_json_def)

lemma logged_event_ok: "chain_ok zero_hash [logged_event]"
  using append_event_ok [of "[]" "''x''" None "[(''a'', PInt 1), (''b'', PInt 2)]" "''t''" 0 "Some 1" logged_event] logged_event_built
  by (simp add: chain_end_def)

lemma built_event_payload: "build_audit_event t ref p prev now c i = Inr e \<Longrightarrow> ae_event_payload e = p"
  by (auto simp: build_audit_event_def result_simps)

lemma logged_event_payload: "ae_event_payload logged_event = [(''a'', PInt 1), (''b'', PInt 2)]" "ae_prev_hash logged_event = zero_hash"
    "ae_chain_id logged_event = 0"
  using built_event_payload [OF logged_event_built] build_event_fields [OF logged_event_built] by simp_all

lemma restored_event_ok: "chain_ok zero_hash [restored_event]"
  using logged_event_ok logged_event_payload
  by (simp add: restored_event_def record_hash_def compute_audit_hash_def same_payload)

theorem audit_chain_tamper_evident_witness:
  "restored_event \<noteq> logged_event \<and> canonical_json (record_payload restored_event) = canonical_json (record_payload logged_event)"
proof -
  have t: "hashed_texts [restored_event] = hashed_texts [logged_event]"
    using logged_event_payload
    by (simp add: hashed_texts_def restored_event_def record_text_def record_payload_def same_payload)
  have "chain_end zero_hash [restored_event] = chain_end zero_hash [logged_event]"
    by (simp add: chain_end_def restored_event_def)
  note e = audit_chain_tamper_evident [OF restored_event_ok logged_event_ok this]
  moreover have "\<not> collision a b" if "{a, b} \<subseteq> hashed_texts [restored_event] \<union> hashed_texts [logged_event]" for a b
    using that unfolding t by (auto simp: hashed_texts_def collision_def)
  moreover have "restored_event \<noteq> logged_event" by (auto simp: restored_event_def logged_event_payload dest: arg_cong [where f = ae_chain_id])
  ultimately show ?thesis by auto
qed

text \<open>Recording an event on the end of a valid chain keeps it valid, and the partition an input
  is recorded in is one of the 64.\<close>

theorem audit_append:
  assumes "chain_ok zero_hash rs"
    and "build_audit_event t ref p (chain_end zero_hash rs) now c i = Inr e"
  shows "chain_ok zero_hash (rs @ [e]) \<and> chain_end zero_hash (rs @ [e]) = ae_current_hash e
    \<and> verify_single_chain (rs @ [e]) = Inr \<lparr>ac_status = ''VALID'',
         ac_reason = ''Audit chain verified successfully'', ac_checked_rows = int (length rs) + 1,
         ac_last_hash = Some (ae_current_hash e), ac_broken_record_id = None\<rparr>"
proof -
  have ok: "chain_ok zero_hash (rs @ [e])" using assms by (rule append_event_ok)
  have "chain_end zero_hash (rs @ [e]) = ae_current_hash e" by (simp add: chain_end_def)
  then show ?thesis
    using ok check_records_ok [OF ok zero_hash_ascii, of 0] by (simp add: verify_single_chain_def)
qed

theorem audit_append_witness: "chain_ok zero_hash ([] @ [sample_event])"
  using audit_append [of "[]" "''x''" None "[]" "''t''" 0 None sample_event] sample_event_built
  by (simp add: chain_end_def)

text \<open>Without stored checkpoints the segmented verification of a chain decides exactly what the plain
  verification decides, whatever the number of segments.\<close>

theorem checkpoint_free_verification:
  "(\<exists>res. verify_chain_with_checkpoints c rs None = Inr res \<and> ac_status res = ''VALID'')
    \<longleftrightarrow> (\<exists>res. verify_single_chain rs = Inr res \<and> ac_status res = ''VALID'')"
  by (simp only: verify_without_checkpoints verify_single_iff)

text \<open>C8: a stored checkpoint vouches for its segment without any look at the records: with the honest
  checkpoints of a chain, any list of records of the same length and with the same incomplete
  last segment is reported VALID, with the digest and the row count of the honest chain.\<close>

theorem checkpoints_hide_tampering:
  assumes "chain_ok zero_hash rs" "rs \<noteq> []" "length ss = length rs"
    and "drop (length rs div checkpoint_interval * checkpoint_interval) ss
       = drop (length rs div checkpoint_interval * checkpoint_interval) rs"
  shows "verify_chain_with_checkpoints c ss (Some (build_checkpoints_for_chain c rs)) = Inr \<lparr>ac_status = ''VALID'',
    ac_reason = checkpoints_text (length rs div checkpoint_interval), ac_checked_rows = int (length rs),
    ac_last_hash = Some (chain_end zero_hash rs), ac_broken_record_id = None\<rparr>"
  using assms by (rule checkpoints_skip_segments)

theorem checkpoints_hide_tampering_witness:
  "\<not> chain_ok zero_hash (replicate 1000 broken_event) \<and>
    (\<exists>res. verify_chain_with_checkpoints 0 (replicate 1000 broken_event)
       (Some (build_checkpoints_for_chain 0 (honest_chain 1000))) = Inr res \<and> ac_status res = ''VALID'')"
proof -
  have "\<not> chain_ok zero_hash (replicate 1000 broken_event)" by (rule broken_chain) simp
  moreover have "honest_chain 1000 \<noteq> []" using honest_chain_ok [of 1000] by force
  ultimately show ?thesis
    using checkpoints_hide_tampering [of "honest_chain 1000" "replicate 1000 broken_event" 0] honest_chain_ok [of 1000]
    by (simp add: checkpoint_interval_def)
qed

section \<open>Proof bundles\<close>

text \<open>C9: the SDK verifier ends with a valid status exactly when the bundle has version 1.0 and well-formed
  hashes, its id is the UUID of its integrity hash, the integrity hash is that of the three hashes
  of the computation, the circuit hash is the registry's, the proof system is a known one, the
  proof hash binds proof, public inputs, circuit and trace, every data commitment matches, and no
  edge of the proof graph raises; every other outcome is an error status or an exception.\<close>

theorem bundle_valid_iff:
  "(\<exists>v. sdk_verify reg b = Inr v \<and> is_valid v) \<longleftrightarrow>
     pb_vrl_version b = JStr ''1.0'' \<and> pb_bundle_id b \<noteq> JNull \<and> pb_issued_at b \<noteq> JNull
     \<and> is_valid_hex_hash (id_ai_id (pb_ai_identity b)) \<and> list_all (\<lambda>kv. is_valid_hex_hash (snd kv)) (hash_fields b)
     \<and> (\<exists>u. compute_bundle_id_from_integrity (co_integrity_hash (pb_computation b)) = Inr u \<and> pb_bundle_id b = JStr u)
     \<and> (\<exists>h. compute_integrity_hash (co_input_hash (pb_computation b)) (co_output_hash (pb_computation b))
            (co_trace_hash (pb_computation b)) = Inr h \<and> co_integrity_hash (pb_computation b) = JStr h)
     \<and> (\<exists>circuit. reg (co_circuit_id (pb_computation b)) (co_circuit_version (pb_computation b)) = Some circuit
            \<and> map_of circuit ''circuit_hash'' = Some (co_circuit_hash (pb_computation b)))
     \<and> in_strings (pf_proof_system (pb_proof b)) valid_systems = Inr True
     \<and> pf_proof_hash (pb_proof b) = JStr (compute_proof_hash (co_circuit_hash (pb_computation b))
            (pf_proof_bytes (pb_proof b)) (pf_public_inputs (pb_proof b)) (pf_proof_system (pb_proof b))
            (co_trace_hash (pb_computation b)))
     \<and> (case pb_data_commitments b of Some cs \<Rightarrow> list_all commitment_matches cs | None \<Rightarrow> True)
     \<and> (\<exists>ok. graph_outcome b = Inr ok)"
  unfolding sdk_verify_valid_iff mandatory_checks_def Let_def by blast

text \<open>On a bundle that passes the mandatory steps the status is VALID when the timestamp block, if
  any, is complete and all edges of the graph are UUIDs, and VALID_PARTIAL with the corresponding
  error codes otherwise.\<close>

theorem bundle_status:
  assumes "mandatory_checks reg b" "graph_outcome b = Inr ok"
  shows "\<exists>v. sdk_verify reg b = Inr v \<and> is_valid v
    \<and> ve_status v = (if timestamp_complete b \<and> ok then VALID else VALID_PARTIAL)
    \<and> ve_errors v = (if timestamp_complete b then [] else [TIMESTAMP_INVALID])
        @ (if ok then [] else [GRAPH_EDGE_INVALID])"
  using sdk_verify_outcome [OF assms] by (simp add: optional_status_def optional_errors_def)

theorem bundle_status_witness:
  "\<exists>v. sdk_verify mock_registry partial_bundle = Inr v \<and> ve_status v = VALID_PARTIAL \<and> ve_errors v = [TIMESTAMP_INVALID]"
  using bundle_status [OF partial_bundle_facts(1,2)] partial_bundle_facts(3) by auto

text \<open>C10: a bundle assembled with the builders from an identity with a well-formed AI-ID, a computation
  whose circuit hash and integrity hash are the computed ones and a proof with its computed hash
  verifies as VALID without errors.\<close>

theorem built_bundle_valid:
  assumes "honest_computation circuit_id circuit_version inputs outputs trace = Inr c"
    and "honest_proof c system bytes public_inputs key = Inr p" "system \<in> set valid_systems"
    and "honest_bundle now i c p = Inr (b, s)" "is_valid_hex_hash (id_ai_id i)"
  shows "\<exists>v. sdk_verify mock_registry b = Inr v \<and> ve_status v = VALID \<and> ve_errors v = []"
  using sdk_verify_outcome [OF honest_bundle_mandatory(1,2) [OF assms]] honest_bundle_mandatory(3) [OF assms]
  by (auto simp: optional_status_def optional_errors_def)

theorem built_bundle_valid_witness:
  "\<exists>v. sdk_verify mock_registry sample_bundle = Inr v \<and> ve_status v = VALID \<and> ve_errors v = []"
  using built_bundle_valid [OF sample_parts] .

text \<open>C11: the standalone verifier, run on the JSON of a bundle, agrees with the SDK verifier: the same
  exception or the same status and error codes, and \<open>is_valid\<close> set exactly for VALID.  Excluded are
  the values the two treat differently: \<open>None\<close> where only the SDK checks for it, and graph edges
  on which the SDK's UUID parser raises AttributeError.\<close>

theorem verifiers_give_same_verdict:
  assumes "pb_bundle_id b \<noteq> JNull" "pb_issued_at b \<noteq> JNull"
    and "pf_proof_bytes (pb_proof b) \<noteq> JNull" "pf_public_inputs (pb_proof b) \<noteq> JNull"
    and "graph_outcome b \<noteq> Inl AttributeError"
  shows "case (sdk_verify mock_registry b, std_verify std_registry (bundle_to_dict b)) of
      (Inr v, Inr w) \<Rightarrow> sr_status w = ve_status v \<and> sr_errors w = ve_errors v
        \<and> (sr_is_valid w \<longleftrightarrow> ve_status v = VALID)
    | (Inl e, Inl f) \<Rightarrow> e = f
    | _ \<Rightarrow> False"
  using verifiers_agree [OF assms]
  by (cases "sdk_verify mock_registry b"; cases "std_verify std_registry (bundle_to_dict b)")
    (auto simp: agree_def same_def)

theorem verifiers_give_same_verdict_witness:
  "\<exists>w. std_verify std_registry (bundle_to_dict sample_bundle) = Inr w \<and> sr_status w = VALID"
proof -
  obtain v where "sdk_verify mock_registry sample_bundle = Inr v" "ve_status v = VALID"
    using sdk_verify_outcome [OF honest_bundle_mandatory(1,2) [OF sample_parts]] honest_bundle_mandatory(3) [OF sample_parts]
    by (auto simp: optional_status_def)
  then show ?thesis
    using verifiers_give_same_verdict [of sample_bundle] honest_bundle_mandatory(2) [OF sample_parts] sample_fields
    by (auto split: sum.splits)
qed

text \<open>The command line exits with 0 only for VALID: a bundle that passes every mandatory step but
  has an incomplete timestamp block or a bad edge, which the SDK calls valid (VALID_PARTIAL), ends
  with exit code 1, although the documentation of the command promises 0 for VALID_PARTIAL.\<close>

theorem exit_code_of_valid_bundle:
  assumes "mandatory_checks mock_registry b" "graph_outcome b = Inr ok"
    and "pf_proof_bytes (pb_proof b) \<noteq> JNull" "pf_public_inputs (pb_proof b) \<noteq> JNull"
  shows "std_exit_code std_registry (Some (bundle_to_dict b)) = (if timestamp_complete b \<and> ok then 0 else 1)"
proof -
  have id: "pb_bundle_id b \<noteq> JNull" "pb_issued_at b \<noteq> JNull"
    using assms(1) by (simp_all add: mandatory_checks_def Let_def)
  obtain v where v: "sdk_verify mock_registry b = Inr v" "ve_status v = optional_status b ok"
    using sdk_verify_outcome [OF assms(1,2)] by blast
  obtain w where "std_verify std_registry (bundle_to_dict b) = Inr w" "agree v w"
    using verifiers_agree [OF id assms(3,4)] assms(2) v(1) by (auto simp: rel_sum_Inr)
  then show ?thesis using v(2) by (simp add: std_exit_code_def agree_def optional_status_def)
qed

theorem exit_code_of_valid_bundle_witness:
  "std_exit_code std_registry (Some (bundle_to_dict partial_bundle)) = 1"
  using exit_code_of_valid_bundle [OF partial_bundle_facts(1,2)] partial_bundle_facts(3) sample_fields
  by (simp add: partial_bundle_def)

text \<open>C12: \<open>from_dict\<close> reads back what \<open>to_dict\<close> writes, for bundles of version 1.0 with the required
  fields set and no empty optional part.\<close>

theorem bundle_dict_round_trip:
  assumes "bundle_storable b"
  shows "bundle_from_dict (bundle_to_dict b) = Inr b"
  using assms by (rule bundle_round_trip)

theorem bundle_dict_round_trip_witness: "bundle_from_dict (bundle_to_dict sample_bundle) = Inr sample_bundle"
  by (rule bundle_dict_round_trip [OF sample_fields(11)])

text \<open>The integrity hash of a computation binds its three hashes: two bundles that pass the
  mandatory steps with the same integrity hash have the same input, output and trace hash, unless
  two concatenations of their hashes collide.\<close>

theorem integrity_hash_binds:
  assumes "mandatory_checks reg b" "mandatory_checks reg' b'"
    and "co_integrity_hash (pb_computation b) = co_integrity_hash (pb_computation b')"
  shows "(co_input_hash (pb_computation b) = co_input_hash (pb_computation b')
      \<and> co_output_hash (pb_computation b) = co_output_hash (pb_computation b')
      \<and> co_trace_hash (pb_computation b) = co_trace_hash (pb_computation b'))
    \<or> (\<exists>s t. concat3 (co_input_hash (pb_computation b)) (co_output_hash (pb_computation b))
           (co_trace_hash (pb_computation b)) = Inr s
         \<and> concat3 (co_input_hash (pb_computation b')) (co_output_hash (pb_computation b'))
           (co_trace_hash (pb_computation b')) = Inr t \<and> collision s t)"
proof -
  obtain x y z h where f: "co_input_hash (pb_computation b) = JStr x" "co_output_hash (pb_computation b) = JStr y"
    "co_trace_hash (pb_computation b) = JStr z" "length x = 64" "length y = 64" "length z = 64"
    "co_integrity_hash (pb_computation b) = JStr (sha256_hex (x @ y @ z))"
    by (rule mandatory_hashes [OF assms(1)])
  obtain x' y' z' h' where g: "co_input_hash (pb_computation b') = JStr x'" "co_output_hash (pb_computation b') = JStr y'"
    "co_trace_hash (pb_computation b') = JStr z'" "length x' = 64" "length y' = 64" "length z' = 64"
    "co_integrity_hash (pb_computation b') = JStr (sha256_hex (x' @ y' @ z'))"
    by (rule mandatory_hashes [OF assms(2)])
  show ?thesis using assms(3) f g by (auto simp: concat3_def collision_def)
qed

theorem integrity_hash_binds_witness:
  "co_trace_hash (pb_computation partial_bundle) = co_trace_hash (pb_computation sample_bundle)"
proof -
  have e: "pb_computation partial_bundle = pb_computation sample_bundle" by (simp add: partial_bundle_def)
  have c: "\<not> collision s s" for s by (simp add: collision_def)
  show ?thesis
    using integrity_hash_binds [OF partial_bundle_facts(1) honest_bundle_mandatory(1) [OF sample_parts] arg_cong [OF e]] c
    unfolding e by (metis Inr_inject)
qed

text \<open>The proof hash binds what was proved: two proofs with the same proof hash have the same bytes,
  public inputs, proof system, circuit hash and trace hash, unless the two hashed texts collide.\<close>

theorem proof_hash_binds:
  assumes "compute_proof_hash (JStr c) b i (JStr s) (JStr t) = compute_proof_hash (JStr c') b' i' (JStr s') (JStr t')"
    and "canonical_form b" "canonical_form i" "canonical_form b'" "canonical_form i'"
  shows "(c = c' \<and> b = b' \<and> i = i' \<and> s = s' \<and> t = t') \<or> collision (proof_text c b i s t) (proof_text c' b' i' s' t')"
proof -
  have "sha256_hex (proof_text c b i s t) = sha256_hex (proof_text c' b' i' s' t')"
    using assms(1) unfolding proof_hash_text .
  then show ?thesis using proof_text_inj [OF _ assms(2-5)] same_digest by blast
qed

theorem proof_hash_binds_witness:
  "compute_proof_hash (JStr ''c'') (JStr ''00'') (JList []) (JStr ''s'') (JStr ''t'')
     = compute_proof_hash (JStr ''c'') (JStr ''01'') (JList []) (JStr ''s'') (JStr ''t'')
   \<longleftrightarrow> collision (proof_text ''c'' (JStr ''00'') (JList []) ''s'' ''t'') (proof_text ''c'' (JStr ''01'') (JList []) ''s'' ''t'')"
proof
  assume e: "compute_proof_hash (JStr ''c'') (JStr ''00'') (JList []) (JStr ''s'') (JStr ''t'')
     = compute_proof_hash (JStr ''c'') (JStr ''01'') (JList []) (JStr ''s'') (JStr ''t'')"
  show "collision (proof_text ''c'' (JStr ''00'') (JList []) ''s'' ''t'') (proof_text ''c'' (JStr ''01'') (JList []) ''s'' ''t'')"
    using proof_hash_binds [OF e] by fastforce
qed (simp only: proof_hash_text collision_def)

text \<open>The check of a hash field accepts every SHA-256 digest, but it is weaker than its name: 62 hexadecimal
  digits behind \<open>0x\<close> pass as well, because \<open>int(value, 16)\<close> takes the prefix.\<close>

theorem hex_hash_check:
  assumes "length ds = 62" "all_lower_hex ds"
  shows "is_valid_hex_hash (JStr (sha256_hex text)) \<and> is_valid_hex_hash (JStr (''0x'' @ ds))
    \<and> \<not> all_lower_hex (''0x'' @ ds)"
proof -
  have "\<not> is_lower_hex CHR ''x''" by (simp add: is_lower_hex_def)
  then show ?thesis using valid_hash_prefixed [OF assms(2,1)] by (simp add: all_lower_hex_def)
qed

theorem hex_hash_check_witness: "is_valid_hex_hash (JStr (''0x'' @ replicate 62 CHR ''a''))"
proof -
  have "all_lower_hex (replicate 62 CHR ''a'')" by (simp add: all_lower_hex_def list_all_iff is_lower_hex_def)
  from hex_hash_check [OF length_replicate this] show ?thesis by blast
qed

section \<open>The stub proof pipeline\<close>

text \<open>The proof pipeline of the backend succeeds on every request the engine can calculate, its verifier accepts
  the proof its prover makes, and the proof carries the three hashes of the engine's integrity artifact.\<close>

theorem stub_pipeline_verified:
  assumes "validate_request int_of raw = Inr request" "wf_pyv raw" "int_of (PInt (quantity request)) = Some (quantity request)"
    and "calculate_import_landed_cost int_of rules h request = Inr response"
  shows "\<exists>b. build_stub_pipeline_bundle int_of rules h raw cyc = Inr b \<and> zb_verified b
    \<and> pa_input_hash (zb_proof b) = ia_input_hash (rs_integrity response)
    \<and> pa_output_hash (zb_proof b) = ia_output_hash (rs_integrity response)
    \<and> pa_trace_hash (zb_proof b) = ia_trace_hash (rs_integrity response)
    \<and> ta_steps (zb_trace b) = rs_trace response
    \<and> pa_circuit_artifact_id (zb_proof b) = artifact_id (zb_circuit b)
    \<and> pa_witness_artifact_id (zb_proof b) = artifact_id (zb_witness b)"
proof -
  obtain b where "build_stub_pipeline_bundle int_of rules h raw cyc = Inr b" "zb_verified b"
    "zb_trace b = tp_trace_artifact (packet_of request response ''backend_integration'' cyc)"
    "zb_witness b = tp_witness_artifact (packet_of request response ''backend_integration'' cyc)"
    "zb_proof b = stub_proof (zb_circuit b) (zb_trace b) (zb_witness b) ''performance_optimization'' cyc"
    using pipeline_ok [OF assms] by blast
  then show ?thesis
    by (intro exI [of _ b]) (simp add: stub_proof_def proof_of_def packet_of_def witness_of_def trace_of_def Let_def)
qed

theorem stub_pipeline_verified_witness:
  "\<exists>b. build_stub_pipeline_bundle sample_int tariff_rules dataset_hash (request_payload sample_request) 1 = Inr b \<and> zb_verified b"
  using stub_pipeline_verified [OF sample_revalidates sample_int_quantity sample_calculation] by blast

text \<open>A proof the stub verifier accepts for two triples of circuit, trace and witness binds them: both have the
  same ids and the same canonical payloads, unless SHA-256 collides on the named texts.\<close>

theorem stub_proof_binds:
  assumes "verify_artifacts c t w p producer cyc = Inr v" "va_status v = ''VALID''" "witness_ok w"
    and "verify_artifacts c' t' w' p producer' cyc' = Inr v'" "va_status v' = ''VALID''" "witness_ok w'"
  shows "artifact_id c = artifact_id c' \<and> artifact_id w = artifact_id w'
    \<and> same_payload ''circuit'' (ACircuit c) (ACircuit c') \<and> same_payload ''trace'' (ATrace t) (ATrace t')
    \<and> same_payload ''witness'' (AWitness w) (AWitness w')"
proof -
  have "commitments_of c t w = commitments_of c' t' w'" "artifact_id c = artifact_id c'" "artifact_id w = artifact_id w'"
    using verify_artifacts_valid [OF assms(1-3)] verify_artifacts_valid [OF assms(4-6)] by simp_all
  then show ?thesis using same_commitment by (simp add: commitments_of_def)
qed

definition sample_stub_trace :: "int \<Rightarrow> trace_artifact" where
  "sample_stub_trace cyc = trace_of ''h'' [] ''backend_integration'' cyc"

definition sample_stub_witness :: witness_artifact where
  "sample_stub_witness = witness_of ''trace_1'' ''a'' ''b'' ''c'' [] [] ''backend_integration'' 1"

lemma sample_witness_ok: "witness_ok sample_stub_witness"
  by (simp add: witness_ok_def sample_stub_witness_def witness_of_def Let_def)

theorem stub_proof_binds_witness:
  "same_payload ''trace'' (ATrace (sample_stub_trace 1)) (ATrace (sample_stub_trace 1))"
proof -
  obtain v where "verify_artifacts sample_circuit (sample_stub_trace 1) sample_stub_witness
      (stub_proof sample_circuit (sample_stub_trace 1) sample_stub_witness ''p'' 1) ''v'' 1 = Inr v" "va_status v = ''VALID''"
    using verify_own_proof [OF sample_witness_ok] by blast
  note v = this sample_witness_ok
  from stub_proof_binds [OF v v] show ?thesis by blast
qed

text \<open>The verdict of the stub verifier says nothing of the hashes a proof claims, nor that the trace belongs to the
  witness: for any trace and any three claimed hashes the proof artifact rebuilt with them is VALID.  A proof
  text that is empty raises ValueError, one that is not hexadecimal raises instead of being INVALID.\<close>

theorem stub_verifier_ignores_hashes:
  assumes "witness_ok w"
  shows "\<exists>p p' v. prove_artifacts c t w producer cyc = Inr p
    \<and> build_proof_artifact (pa_proof_system p) (pa_circuit_artifact_id p) (pa_witness_artifact_id p) (pa_commitments p)
        (pa_public_inputs p) (pa_metadata p) (pa_proof_blob_hex p) a b d (pa_final_proof p) producer cyc = Inr p'
    \<and> pa_input_hash p' = a \<and> pa_output_hash p' = b \<and> pa_trace_hash p' = d
    \<and> verify_artifacts c t w p' producer' cyc' = Inr v \<and> va_status v = ''VALID''
    \<and> (\<exists>e. verify_artifacts c t w (p'\<lparr>pa_final_proof := []\<rparr>) producer' cyc' = Inl (ValueError e))
    \<and> (\<exists>e. verify_artifacts c t w (p'\<lparr>pa_final_proof := ''xy''\<rparr>) producer' cyc' = Inl e)"
proof -
  let ?p = "stub_proof c t w producer cyc"
  let ?q = "proof_of (pa_proof_system ?p) (pa_circuit_artifact_id ?p) (pa_witness_artifact_id ?p) (pa_commitments ?p)
        (pa_public_inputs ?p) (pa_metadata ?p) (pa_proof_blob_hex ?p) a b d (pa_final_proof ?p) producer cyc"
  obtain bs where bs: "bytes_hex bs = zk_text (to_zk_witness t w)" "bytes_fromhex (zk_text (to_zk_witness t w)) = Inr bs" "bs \<noteq> []"
    using witness_ok_generates [OF assms] by blast
  then have q: "bytes_fromhex (pa_final_proof ?q) = Inr bs" "list_all id (stub_checks c t w ?q bs)"
    by (simp_all add: stub_proof_def proof_of_def stub_checks_def Let_def)
  obtain v where v: "verify_artifacts c t w ?q producer' cyc' = Inr v" "va_status v = ''VALID''"
    using verify_artifacts_decides [OF assms q(1) bs(3)] q(2) by metis
  have "bytes_fromhex [] = Inr []" "isl (bytes_fromhex ''xy'')" by code_simp+
  then have "bytes_fromhex [] = Inr []" "\<exists>e. bytes_fromhex ''xy'' = Inl e" by (simp_all add: isl_def)
  then have bad: "\<exists>e. verify_artifacts c t w (?q\<lparr>pa_final_proof := []\<rparr>) producer' cyc' = Inl (ValueError e)"
    "\<exists>e. verify_artifacts c t w (?q\<lparr>pa_final_proof := ''xy''\<rparr>) producer' cyc' = Inl e"
    using verify_artifacts_empty [of "?q\<lparr>pa_final_proof := []\<rparr>"] verify_artifacts_not_hex [of "?q\<lparr>pa_final_proof := ''xy''\<rparr>"]
    by auto
  have h: "pa_input_hash ?q = a" "pa_output_hash ?q = b" "pa_trace_hash ?q = d" by (simp_all add: proof_of_def Let_def)
  show ?thesis
    by (intro exI [of _ ?p] exI [of _ ?q] exI [of _ v] conjI prove_artifacts_ok [OF assms] build_proof_artifact_total h v bad)
qed

theorem stub_verifier_ignores_hashes_witness:
  "\<exists>p v. pa_trace_hash p = ''anything'' \<and> va_status v = ''VALID''
     \<and> verify_artifacts sample_circuit (sample_stub_trace 7) sample_stub_witness p ''v'' 1 = Inr v"
  using stub_verifier_ignores_hashes [OF sample_witness_ok, of sample_circuit "sample_stub_trace 7" "''p''" 1
      "''x''" "''y''" "''anything''" "''v''" 1] by blast

section \<open>The PLONK path\<close>

text \<open>C13: the wire assignment generated for a calculated request satisfies all eight gates, and the landed cost in
  the field is the exact amount in cents times 10000.\<close>

theorem engine_assignment_satisfies_gates:
  assumes "valid_request r" "in_range r" "int_of (PInt (quantity r)) = Some (quantity r)"
    and "calculate_import_landed_cost int_of tariff_rules dataset_hash r = Inr resp"
  shows "\<exists>a rule. find_rule tariff_rules (hs_code r) = Inr rule
    \<and> generate_assignment int_of tariff_rules dataset_hash (tp_witness_artifact (packet_of r resp producer cyc)) = Inr a
    \<and> verify_gate_constraints a = replicate 8 True \<and> as_c_col a ! 7 = spec_landed r rule * 10 ^ 4 mod field_order"
  using engine_assignment [where r = r and int_of = int_of and resp = resp and producer = producer and cyc = cyc, OF assms]
  by metis

theorem engine_assignment_satisfies_gates_witness:
  "\<exists>a. generate_assignment sample_int tariff_rules dataset_hash
      (tp_witness_artifact (packet_of sample_request sample_response ''backend_integration'' 1)) = Inr a
    \<and> verify_gate_constraints a = replicate 8 True"
  using engine_assignment_satisfies_gates [where int_of = sample_int, OF sample_valid(1,2) sample_int_quantity sample_calculation]
  by blast

text \<open>C14: the verifier accepts what the prover builds, whenever the native backend verifies what it proved for the
  same instance values and names the same key in both commands: prover and verifier compute the same
  instance values, hashes and bindings.\<close>

theorem plonk_proofs_verify:
  assumes "backend_complete bk" "build_plonk_proof bk int_of rules h now w trace_h producer cyc l = (Inr p, l')"
    and "inputs_ok (wa_public_inputs w)"
  shows "fst (verify_plonk_proof bk now' p producer' cyc' l'') \<in> Inr ` {v. va_status v = ''VALID''}"
proof -
  obtain out k where s: "verify_steps bk now' p l'' = (out, k)" by fastforce
  have "accepted out" using plonk_proof_accepted [OF assms, of now' l''] s by simp
  moreover obtain v where "verdict_for p producer' cyc' out = Inr v" "va_status v = (if accepted out then ''VALID'' else ''INVALID'')"
    using verdict_for_total by blast
  ultimately show ?thesis using s by (auto simp: verify_plonk_proof_def)
qed

theorem plonk_proofs_verify_witness:
  "\<exists>p. pa_proof_system p = ''plonk''
    \<and> fst (verify_plonk_proof sample_backend ''t'' p ''verifier'' 1 empty_key_log) \<in> Inr ` {v. va_status v = ''VALID''}"
proof -
  obtain p l where p: "build_plonk_proof sample_backend sample_int tariff_rules dataset_hash ''t'' sample_plonk_witness
    (wa_trace_hash sample_plonk_witness) ''prover'' 1 empty_key_log = (Inr p, l)" by (rule sample_plonk_proof)
  have v: "fst (verify_plonk_proof sample_backend ''t'' p ''verifier'' 1 empty_key_log) \<in> Inr ` {v. va_status v = ''VALID''}"
    by (rule plonk_proofs_verify [OF sample_backend_complete p sample_inputs_ok])
  moreover have "pa_proof_system p = ''plonk''"
    using v by (cases "pa_proof_system p = ''plonk''")
      (auto simp: verify_plonk_proof_def verify_steps_def verdict_for_def build_verification_artifact_total verdict_of_def Let_def)
  ultimately show ?thesis by blast
qed

end
